(* ===== verification/Prelude.thy ===== *)
theory Prelude
  imports Main "HOL-Library.AList" "HOL-Library.Sublist"
begin

text \<open>
  Shared vocabulary of the development: Python strings, the two tests the source writes over
  and over (\<open>x in (None, "")\<close> and truthiness), Python's \<open>int()\<close> parser, association lists
  as insertion-ordered dictionaries, and the generic lemmas the component theories share.

  A Python \<open>str\<close> is a HOL \<open>string\<close>, a list of code points below 256.  Whitespace and lower
  casing are exact for that range (Python's \<open>str.isspace\<close> / \<open>re\<close> class \<open>\s\<close> and
  \<open>str.lower\<close>); characters beyond it are not modelled.
\<close>

named_theorems py_simps \<open>executable facts about the Python string operations\<close>

section \<open>Python strings\<close>

definition py_isspace :: "char \<Rightarrow> bool" where
  "py_isspace c = (let n = (of_char c :: nat) in
     (9 \<le> n \<and> n \<le> 13) \<or> (28 \<le> n \<and> n \<le> 32) \<or> n = 133 \<or> n = 160)"

definition py_lower_char :: "char \<Rightarrow> char" where
  "py_lower_char c = (let n = (of_char c :: nat) in
     if (65 \<le> n \<and> n \<le> 90) \<or> (192 \<le> n \<and> n \<le> 222 \<and> n \<noteq> 215)
     then char_of (n + 32) else c)"

definition py_lower :: "string \<Rightarrow> string" where
  "py_lower s = map py_lower_char s"

definition py_lstrip :: "string \<Rightarrow> string" where
  "py_lstrip s = dropWhile py_isspace s"

definition py_rstrip :: "string \<Rightarrow> string" where
  "py_rstrip s = rev (dropWhile py_isspace (rev s))"

definition py_strip :: "string \<Rightarrow> string" where
  "py_strip s = py_rstrip (py_lstrip s)"

text \<open>\<open>needle in haystack\<close>\<close>

fun py_in :: "string \<Rightarrow> string \<Rightarrow> bool" where
  "py_in p [] = (p = [])"
| "py_in p (c # s) = (prefix p (c # s) \<or> py_in p s)"

definition py_startswith :: "string \<Rightarrow> string \<Rightarrow> bool" where
  "py_startswith s p = prefix p s"

text \<open>\<open>s.split(c)\<close> and \<open>c.join(parts)\<close> for a one-character separator\<close>

fun py_split :: "char \<Rightarrow> string \<Rightarrow> string list" where
  "py_split c [] = [[]]"
| "py_split c (x # s) =
     (if x = c then [] # py_split c s
      else (case py_split c s of p # ps \<Rightarrow> (x # p) # ps | [] \<Rightarrow> [[x]]))"

fun py_join :: "char \<Rightarrow> string list \<Rightarrow> string" where
  "py_join c [] = []"
| "py_join c [p] = p"
| "py_join c (p # ps) = p @ c # py_join c ps"

lemma py_split_nonempty [simp]: "py_split c s \<noteq> []"
  by (induction c s rule: py_split.induct) (auto split: list.splits)

lemma py_join_split [simp]: "py_join c (py_split c s) = s"
proof (induction c s rule: py_split.induct)
  case (2 c x s)
  obtain p ps where ps: "py_split c s = p # ps" by (cases "py_split c s") auto
  show ?case using 2 ps by (cases ps) auto
qed simp

lemma py_in_iff: "py_in p s \<longleftrightarrow> (\<exists>a b. s = a @ p @ b)"
proof (induction s)
  case Nil
  then show ?case by simp
next
  case (Cons c s)
  show ?case
  proof
    assume "py_in p (c # s)"
    then consider "prefix p (c # s)" | "py_in p s" by auto
    then show "\<exists>a b. c # s = a @ p @ b"
    proof cases
      case 1
      then obtain b where "c # s = [] @ p @ b" by (auto elim: prefixE)
      then show ?thesis by blast
    next
      case 2
      with Cons.IH obtain a b where "s = a @ p @ b" by blast
      then have "c # s = (c # a) @ p @ b" by simp
      then show ?thesis by blast
    qed
  next
    assume "\<exists>a b. c # s = a @ p @ b"
    then obtain a b where ab: "c # s = a @ p @ b" by blast
    show "py_in p (c # s)"
    proof (cases a)
      case Nil
      with ab have "prefix p (c # s)" by simp
      then show ?thesis by simp
    next
      case (Cons x a')
      with ab have "s = a' @ p @ b" by simp
      with Cons.IH have "py_in p s" by blast
      then show ?thesis by simp
    qed
  qed
qed

lemma py_lower_Nil [simp]: "py_lower [] = []"
  by (simp add: py_lower_def)

lemma py_lower_append [simp]: "py_lower (s @ t) = py_lower s @ py_lower t"
  by (simp add: py_lower_def)

lemma length_py_lower [simp]: "length (py_lower s) = length s"
  by (simp add: py_lower_def)

lemma py_lower_char_idem [simp]: "py_lower_char (py_lower_char c) = py_lower_char c"
proof -
  have "(of_char c :: nat) < 256" by (rule nat_of_char_less_256)
  then show ?thesis
    by (auto simp: py_lower_char_def Let_def)
qed

lemma py_lower_idem [simp]: "py_lower (py_lower s) = py_lower s"
  by (simp add: py_lower_def comp_def)

lemma py_isspace_lower [simp]: "py_isspace (py_lower_char c) = py_isspace c"
proof -
  have "(of_char c :: nat) < 256" by (rule nat_of_char_less_256)
  then show ?thesis
    by (auto simp: py_lower_char_def py_isspace_def Let_def)
qed

lemma py_strip_idem [simp]: "py_strip (py_strip s) = py_strip s"
proof -
  have r: "dropWhile py_isspace (dropWhile py_isspace x) = dropWhile py_isspace x" for x by simp
  have l: "py_lstrip (py_rstrip (py_lstrip s)) = py_rstrip (py_lstrip s)"
  proof (cases "py_lstrip s")
    case Nil
    then show ?thesis by (simp only: Nil) (simp add: py_rstrip_def py_lstrip_def)
  next
    case (Cons c t)
    then have c: "\<not> py_isspace c" unfolding py_lstrip_def using hd_dropWhile [of py_isspace s] by auto
    have "py_rstrip (c # t) = c # py_rstrip t"
      using c by (simp add: py_rstrip_def dropWhile_append)
    then show ?thesis using c Cons by (simp add: py_lstrip_def)
  qed
  show ?thesis unfolding py_strip_def l by (simp add: py_rstrip_def)
qed

section \<open>None, empty and integers\<close>

text \<open>The test \<open>x not in (None, "")\<close> on a nullable text column or keyword argument.\<close>

definition present :: "string option \<Rightarrow> bool" where
  "present x = (case x of None \<Rightarrow> False | Some s \<Rightarrow> s \<noteq> [])"

text \<open>The length of a text in UTF-8.\<close>

definition utf8_len :: "string \<Rightarrow> nat" where
  "utf8_len s = sum_list (map (\<lambda>c. if (of_char c :: nat) < 128 then 1 else 2) s)"

text \<open>Python's \<open>a or b\<close> on nullable strings: \<open>None\<close> and the empty string are false.\<close>

definition py_or :: "string option \<Rightarrow> string option \<Rightarrow> string option" where
  "py_or a b = (if present a then a else b)"

lemma present_simps [simp]:
  "\<not> present None" "present (Some s) \<longleftrightarrow> s \<noteq> []"
  by (simp_all add: present_def)

lemma presentE: "present x \<Longrightarrow> (\<And>s. x = Some s \<Longrightarrow> s \<noteq> [] \<Longrightarrow> P) \<Longrightarrow> P"
  by (cases x) auto

text \<open>Python's \<open>int(str)\<close>: surrounding white space, one sign, digits with single inner
  underscores; \<open>None\<close> is the \<open>ValueError\<close>.\<close>

definition is_digit :: "char \<Rightarrow> bool" where
  "is_digit c = (let n = (of_char c :: nat) in 48 \<le> n \<and> n \<le> 57)"

definition digit_val :: "char \<Rightarrow> int" where
  "digit_val c = of_char c - 48"

fun int_digits :: "int \<Rightarrow> string \<Rightarrow> int option" where
  "int_digits acc [] = Some acc"
| "int_digits acc (c # s) =
     (if is_digit c then int_digits (acc * 10 + digit_val c) s
      else if c = CHR ''_'' then
        (case s of d # _ \<Rightarrow> if is_digit d then int_digits acc s else None | [] \<Rightarrow> None)
      else None)"

definition py_int :: "string \<Rightarrow> int option" where
  "py_int s =
     (let t = py_strip s;
          neg = (t \<noteq> [] \<and> hd t = CHR ''-'');
          u = (if t \<noteq> [] \<and> (hd t = CHR ''-'' \<or> hd t = CHR ''+'') then tl t else t)
      in if u \<noteq> [] \<and> is_digit (hd u)
         then map_option (\<lambda>n. if neg then - n else n) (int_digits 0 u)
         else None)"

fun nat_digits :: "nat \<Rightarrow> string" where
  "nat_digits n = (if n < 10 then [char_of (48 + n)]
                   else nat_digits (n div 10) @ [char_of (48 + n mod 10)])"

declare nat_digits.simps [simp del]

definition py_str_int :: "int \<Rightarrow> string" where
  "py_str_int i = (if i < 0 then CHR ''-'' # nat_digits (nat (- i)) else nat_digits (nat i))"

section \<open>Dictionaries\<close>

text \<open>
  A Python \<open>dict\<close> with string keys is an association list with distinct keys in insertion
  order; assignment keeps the position of an existing key, as \<open>AList.update\<close> does.
\<close>

type_synonym 'v dict = "(string \<times> 'v) list"

definition dict_ok :: "'v dict \<Rightarrow> bool" where
  "dict_ok d = distinct (map fst d)"

definition dict_get :: "'v dict \<Rightarrow> string \<Rightarrow> 'v option" where
  "dict_get d k = map_of d k"

definition dict_set :: "string \<Rightarrow> 'v \<Rightarrow> 'v dict \<Rightarrow> 'v dict" where
  "dict_set k v d = AList.update k v d"

lemma dict_get_set: "dict_get (dict_set k v d) j = (if j = k then Some v else dict_get d j)"
  by (simp add: dict_get_def dict_set_def update_conv')

lemma dict_get_set_same [simp]: "dict_get (dict_set k v d) k = Some v"
  by (simp add: dict_get_set)

lemma dict_get_set_other [simp]: "j \<noteq> k \<Longrightarrow> dict_get (dict_set k v d) j = dict_get d j"
  by (simp add: dict_get_set)

lemma dict_get_Nil [simp]: "dict_get [] k = None"
  by (simp add: dict_get_def)

lemma dict_ok_Nil [simp]: "dict_ok []"
  by (simp add: dict_ok_def)

lemma dict_ok_set [simp]: "dict_ok d \<Longrightarrow> dict_ok (dict_set k v d)"
  by (simp add: dict_ok_def dict_set_def distinct_update)

lemma dict_keys_set: "fst ` set (dict_set k v d) = insert k (fst ` set d)"
  using dom_update [of k v d] by (simp add: dict_set_def)

lemma dict_ok_filter: "dict_ok d \<Longrightarrow> dict_ok (filter P d)"
  by (simp add: dict_ok_def distinct_map_filter)

section \<open>Compare-and-set claims\<close>

text \<open>
  Several components hand out a piece of work by one guarded UPDATE whose row count tells the
  caller whether it won: the journal's advance, the run ledger's item and dispatch claims, the
  operator resolution stamp, the canary permit.  \<open>claim_run claim s fs\<close> is a history of
  attempts on one row: before each attempt an arbitrary function of the list, the steps other
  code made in the meantime, is applied to the state.
\<close>

primrec claim_run :: "('s \<Rightarrow> bool \<times> 's) \<Rightarrow> 's \<Rightarrow> ('s \<Rightarrow> 's) list \<Rightarrow> bool list" where
  "claim_run claim s [] = []"
| "claim_run claim s (f # fs) =
     fst (claim (f s)) # claim_run claim (snd (claim (f s))) fs"

definition wins :: "bool list \<Rightarrow> nat" where
  "wins ws = length (filter id ws)"

lemma wins_simps [simp]: "wins [] = 0" "wins (w # ws) = (if w then 1 else 0) + wins ws"
  by (simp_all add: wins_def)

text \<open>The contract: winning needs and ends claimability, losing does not restore it, and the claim keeps
  the invariant \<open>inv\<close> of the state it runs on.\<close>

locale cas_claim =
  fixes inv :: "'s \<Rightarrow> bool"
    and claim :: "'s \<Rightarrow> bool \<times> 's"
    and claimable :: "'s \<Rightarrow> bool"
  assumes claim_inv: "inv s \<Longrightarrow> inv (snd (claim s))"
    and win_needs: "inv s \<Longrightarrow> fst (claim s) \<Longrightarrow> claimable s"
    and win_closes: "inv s \<Longrightarrow> fst (claim s) \<Longrightarrow> \<not> claimable (snd (claim s))"
    and lose_keeps: "inv s \<Longrightarrow> \<not> fst (claim s) \<Longrightarrow> claimable (snd (claim s)) \<Longrightarrow> claimable s"
begin

definition keeps_closed :: "('s \<Rightarrow> 's) \<Rightarrow> bool" where
  "keeps_closed f \<longleftrightarrow> (\<forall>s. inv s \<longrightarrow> inv (f s) \<and> (\<not> claimable s \<longrightarrow> \<not> claimable (f s)))"

lemma closed_never_wins:
  "inv s \<Longrightarrow> \<not> claimable s \<Longrightarrow> \<forall>f \<in> set fs. keeps_closed f \<Longrightarrow> wins (claim_run claim s fs) = 0"
proof (induction fs arbitrary: s)
  case Nil
  then show ?case by simp
next
  case (Cons f fs)
  have fi: "inv (f s)" and cl: "\<not> claimable (f s)"
    using Cons.prems by (simp_all add: keeps_closed_def)
  then have "\<not> fst (claim (f s))" using win_needs by blast
  moreover from this have "\<not> claimable (snd (claim (f s)))"
    using lose_keeps cl fi by blast
  ultimately show ?case using Cons.IH Cons.prems claim_inv fi by simp
qed

lemma at_most_one_win:
  "inv s \<Longrightarrow> \<forall>f \<in> set fs. keeps_closed f \<Longrightarrow> wins (claim_run claim s fs) \<le> 1"
proof (induction fs arbitrary: s)
  case Nil
  then show ?case by simp
next
  case (Cons f fs)
  have fi: "inv (f s)" using Cons.prems by (simp add: keeps_closed_def)
  show ?case
  proof (cases "fst (claim (f s))")
    case True
    then have "wins (claim_run claim (snd (claim (f s))) fs) = 0"
      using closed_never_wins win_closes claim_inv fi Cons.prems by simp
    with True show ?thesis by simp
  next
    case False
    with Cons fi show ?thesis using claim_inv by simp
  qed
qed

end

end
