(* ===== verification/JournalKey.thy ===== *)
theory JournalKey
  imports Prelude
begin

text \<open>
  \<open>comicarr/app/downloads/journal.py\<close>, first part: the stage lattice, one-off detection, the
  provider normaliser and the derivation of the release key that every seam of the pipeline
  must reproduce byte for byte.
\<close>

section \<open>The stage lattice\<close>

datatype stage = Reserved | Snatched | Downloaded | Post_processing | Moved
  | Post_processed | Manual_review | Failed | Cancelled

fun STAGE_RANK :: "stage \<Rightarrow> int" where
  "STAGE_RANK Reserved = 5"
| "STAGE_RANK Snatched = 10"
| "STAGE_RANK Downloaded = 20"
| "STAGE_RANK Post_processing = 30"
| "STAGE_RANK Moved = 40"
| "STAGE_RANK Post_processed = 50"
| "STAGE_RANK Manual_review = 55"
| "STAGE_RANK Failed = 60"
| "STAGE_RANK Cancelled = 65"

definition stage_of_string :: "string \<Rightarrow> stage option" where
  "stage_of_string s =
     map_of [(''reserved'', Reserved), (''snatched'', Snatched), (''downloaded'', Downloaded),
             (''post_processing'', Post_processing), (''moved'', Moved),
             (''post_processed'', Post_processed), (''manual_review'', Manual_review),
             (''failed'', Failed), (''cancelled'', Cancelled)] s"

text \<open>\<open>stage_rank\<close>: the rank of a stage name, \<open>None\<close> for a name outside the lattice.\<close>

definition stage_rank_of :: "string \<Rightarrow> int option" where
  "stage_rank_of s = map_option STAGE_RANK (stage_of_string s)"

definition TERMINAL_STAGES :: "stage list" where
  "TERMINAL_STAGES = [Post_processed, Manual_review, Failed, Cancelled]"

definition OPEN_STAGES :: "stage list" where
  "OPEN_STAGES = [Reserved, Snatched, Downloaded, Post_processing, Moved]"

definition BAND_STAGES :: "stage list" where
  "BAND_STAGES = [Failed, Manual_review]"

definition RESNATCH_STAGES :: "stage list" where
  "RESNATCH_STAGES = [Reserved, Snatched]"

definition SUPERSEDABLE_TERMINALS :: "stage list" where
  "SUPERSEDABLE_TERMINALS = [Failed, Manual_review, Cancelled]"

definition RESOLVED_STATUSES :: "string list" where
  "RESOLVED_STATUSES = [''retried'', ''ignored'', ''imported'']"

definition HIGHCOUNT_FLOOR :: int where
  "HIGHCOUNT_FLOOR = 900000"

definition is_terminal :: "stage \<Rightarrow> bool" where
  "is_terminal s = (s \<in> set TERMINAL_STAGES)"

text \<open>The stages form a chain: the order of the ranks.\<close>

instantiation stage :: linorder
begin

definition less_eq_stage :: "stage \<Rightarrow> stage \<Rightarrow> bool" where
  "less_eq_stage a b \<longleftrightarrow> STAGE_RANK a \<le> STAGE_RANK b"

definition less_stage :: "stage \<Rightarrow> stage \<Rightarrow> bool" where
  "less_stage a b \<longleftrightarrow> STAGE_RANK a < STAGE_RANK b"

instance
proof
  fix x y :: stage
  assume "x \<le> y" and "y \<le> x"
  then have "STAGE_RANK x = STAGE_RANK y" by (simp add: less_eq_stage_def)
  then show "x = y" by (cases x; cases y) simp_all
qed (auto simp: less_eq_stage_def less_stage_def)

end

lemma STAGE_RANK_inj [simp]: "STAGE_RANK a = STAGE_RANK b \<longleftrightarrow> a = b"
  by (cases a; cases b) simp_all

lemma STAGE_RANK_le: "STAGE_RANK a \<le> STAGE_RANK b \<longleftrightarrow> a \<le> b"
  by (simp add: less_eq_stage_def)

lemma STAGE_RANK_less: "STAGE_RANK a < STAGE_RANK b \<longleftrightarrow> a < b"
  by (simp add: less_stage_def)

lemma terminal_or_open: "is_terminal s \<longleftrightarrow> s \<notin> set OPEN_STAGES"
  by (cases s) (simp_all add: is_terminal_def TERMINAL_STAGES_def OPEN_STAGES_def)

text \<open>Every open stage lies strictly below every terminal one.\<close>

lemma open_below_terminal:
  "\<not> is_terminal a \<Longrightarrow> is_terminal b \<Longrightarrow> a < b"
  by (cases a; cases b) (simp_all add: is_terminal_def TERMINAL_STAGES_def less_stage_def)

lemma resnatch_not_terminal: "s \<in> set RESNATCH_STAGES \<Longrightarrow> \<not> is_terminal s"
  by (auto simp: RESNATCH_STAGES_def is_terminal_def TERMINAL_STAGES_def)

section \<open>One-offs\<close>

definition is_synthetic_oneoff :: "string option \<Rightarrow> bool" where
  "is_synthetic_oneoff issueid =
     (case issueid of None \<Rightarrow> True
      | Some s \<Rightarrow> (case py_int (py_strip s) of Some n \<Rightarrow> HIGHCOUNT_FLOOR \<le> n | None \<Rightarrow> False))"

section \<open>The provider token\<close>

fun prefix_ci :: "string \<Rightarrow> string \<Rightarrow> bool" where
  "prefix_ci [] s = True"
| "prefix_ci (p # ps) [] = False"
| "prefix_ci (p # ps) (c # cs) = (py_lower_char p = py_lower_char c \<and> prefix_ci ps cs)"

text \<open>\<open>re.sub(r"\[RSS\]", "", p, flags=IGNORECASE)\<close>\<close>

fun sub_rss :: "string \<Rightarrow> string" where
  "sub_rss [] = []"
| "sub_rss (c # s) =
     (if prefix_ci ''[RSS]'' (c # s) then sub_rss (drop 4 s) else c # sub_rss s)"

text \<open>
  The tail \<open>(\s*\((?:newznab|torznab)\))+\s*$\<close>; \<open>label_tail s\<close> says that all of \<open>s\<close> matches,
  and the substitution removes the longest such suffix, the leftmost match.
\<close>

definition type_label :: "string \<Rightarrow> bool" where
  "type_label s = (prefix_ci ''(newznab)'' s \<or> prefix_ci ''(torznab)'' s)"

definition py_blank :: "string \<Rightarrow> bool" where
  "py_blank s = list_all py_isspace s"

function label_tail :: "string \<Rightarrow> bool" where
  "label_tail s =
     (let t = py_lstrip s in
      if type_label t then label_tail (drop 9 t) \<or> py_blank (drop 9 t) else False)"
  by pat_completeness auto

lemma type_label_nonempty: "type_label s \<Longrightarrow> s \<noteq> []"
  by (auto simp: type_label_def)

termination label_tail
proof (relation "measure length")
  fix s t :: string
  assume t: "t = py_lstrip s" and "type_label t"
  then have "0 < length t" using type_label_nonempty [of t] by simp
  moreover have "length t \<le> length s"
    unfolding t py_lstrip_def by (rule length_dropWhile_le)
  ultimately have "length (drop 9 t) < length s" unfolding length_drop by linarith
  then show "(drop 9 t, s) \<in> measure length" by simp
qed simp

declare label_tail.simps [simp del]

fun strip_labels :: "string \<Rightarrow> string" where
  "strip_labels [] = []"
| "strip_labels (c # s) = (if label_tail (c # s) then [] else c # strip_labels s)"

text \<open>\<open>re.sub(r"\s+", " ", p)\<close>\<close>

function collapse_ws :: "string \<Rightarrow> string" where
  "collapse_ws [] = []"
| "collapse_ws (c # s) =
     (if py_isspace c then CHR '' '' # collapse_ws (dropWhile py_isspace s)
      else c # collapse_ws s)"
  by pat_completeness auto
termination collapse_ws
  by (relation "measure length") (auto simp: le_imp_less_Suc length_dropWhile_le)

definition normalize_provider :: "string option \<Rightarrow> string" where
  "normalize_provider provider =
     (case provider of None \<Rightarrow> []
      | Some p \<Rightarrow> py_lower (py_strip (collapse_ws (strip_labels (sub_rss p)))))"

section \<open>The release key\<close>

text \<open>
  The values a queue payload carries.  \<open>VObj s\<close> is any other Python object, known through its
  \<open>str()\<close>; floating-point payload values are not modelled.
\<close>

datatype pval = VNone | VBool bool | VInt int | VStr string
  | VDict "(string \<times> pval) list" | VObj string

type_synonym payload = "pval dict"

fun truthy :: "pval \<Rightarrow> bool" where
  "truthy VNone = False"
| "truthy (VBool b) = b"
| "truthy (VInt i) = (i \<noteq> 0)"
| "truthy (VStr s) = (s \<noteq> [])"
| "truthy (VDict d) = (d \<noteq> [])"
| "truthy (VObj s) = True"

datatype discriminant = DNone | DScalar string | DDict payload

fun disc_truthy :: "discriminant \<Rightarrow> bool" where
  "disc_truthy DNone = False"
| "disc_truthy (DScalar s) = (s \<noteq> [])"
| "disc_truthy (DDict d) = (d \<noteq> [])"

text \<open>\<open>sha\<close> stands for \<open>hashlib.sha1(json.dumps(payload)).hexdigest()[:16]\<close>.\<close>

fun coerce_discriminant :: "(payload \<Rightarrow> string) \<Rightarrow> discriminant \<Rightarrow> string" where
  "coerce_discriminant sha DNone = []"
| "coerce_discriminant sha (DDict d) = sha d"
| "coerce_discriminant sha (DScalar s) = py_strip s"

definition release_key ::
  "(payload \<Rightarrow> string) \<Rightarrow> string option \<Rightarrow> string option \<Rightarrow> string option \<Rightarrow> string option
   \<Rightarrow> discriminant \<Rightarrow> string" where
  "release_key sha issueid provider nzbname hash disc =
     (let prov = normalize_provider provider in
      if is_synthetic_oneoff issueid then
        (let rel = py_strip (case py_or nzbname hash of None \<Rightarrow> [] | Some s \<Rightarrow> s)
         in ''oneoff|'' @ prov @ ''|'' @ rel @ ''|'' @ coerce_discriminant sha disc)
      else
        (let iid = (case issueid of None \<Rightarrow> ''None'' | Some s \<Rightarrow> s) in
         if py_in ''ddl'' prov \<and> disc_truthy disc
         then iid @ ''|'' @ prov @ ''|ddl:'' @ coerce_discriminant sha disc
         else iid @ ''|'' @ prov))"

text \<open>\<open>fresh\<close> stands for \<open>uuid.uuid4().hex[:16]\<close>.\<close>

definition import_attempt_key ::
  "(payload \<Rightarrow> string) \<Rightarrow> string \<Rightarrow> string option \<Rightarrow> string option \<Rightarrow> discriminant \<Rightarrow> string" where
  "import_attempt_key sha fresh issueid provider attempt_id =
     (let base = release_key sha issueid provider None None DNone;
          d = coerce_discriminant sha attempt_id
      in base @ ''|import:'' @ (if d \<noteq> [] then d else fresh))"

section \<open>Convergence of the provider token\<close>

text \<open>
  The seams of the pipeline see one provider with or without an RSS marker, a type label,
  trailing white space and in different case.  \<open>decoration d\<close> is such a suffix.
\<close>

definition decoration :: "string \<Rightarrow> bool" where
  "decoration d \<longleftrightarrow>
     (length d = 5 \<and> prefix_ci ''[RSS]'' d) \<or> py_blank d
     \<or> (\<exists>w l. d = w @ l \<and> py_blank w \<and> length l = 9 \<and> type_label l)"

lemma prefix_ci_lower [simp]: "prefix_ci p (py_lower s) = prefix_ci p s"
  by (induction p s rule: prefix_ci.induct) (auto simp: py_lower_def)

lemma prefix_ci_nth:
  "prefix_ci p s \<longleftrightarrow> length p \<le> length s
     \<and> (\<forall>i < length p. py_lower_char (p ! i) = py_lower_char (s ! i))"
proof (induction p s rule: prefix_ci.induct)
  case (3 p ps c cs)
  then show ?case by (auto simp: less_Suc_eq_0_disj)
qed simp_all

lemma prefix_ci_append: "prefix_ci p s \<Longrightarrow> prefix_ci p (s @ t)"
  by (auto simp: prefix_ci_nth nth_append)

lemma prefix_ci_append_long:
  "length p \<le> length s \<Longrightarrow> prefix_ci p (s @ t) = prefix_ci p s"
  by (auto simp: prefix_ci_nth nth_append)

text \<open>A match that starts in \<open>s\<close> and ends in \<open>t\<close> aligns \<open>t\<close>'s first character inside the
  pattern.\<close>

lemma prefix_ci_straddle:
  assumes "prefix_ci p (s @ c # t)" and "\<not> prefix_ci p s" and "s \<noteq> []"
  shows "\<exists>i. 0 < i \<and> i < length p \<and> py_lower_char (p ! i) = py_lower_char c"
proof -
  have "length s < length p"
    using assms prefix_ci_append_long [of p s "c # t"] by fastforce
  moreover have "py_lower_char (p ! length s) = py_lower_char ((s @ c # t) ! length s)"
    using assms(1) calculation unfolding prefix_ci_nth by blast
  ultimately show ?thesis using assms(3) by (auto simp: nth_append)
qed

lemma py_blank_simps [simp]:
  "py_blank []" "py_blank (c # s) \<longleftrightarrow> py_isspace c \<and> py_blank s"
  "py_blank (s @ t) \<longleftrightarrow> py_blank s \<and> py_blank t"
  by (simp_all add: py_blank_def)

lemma py_blank_lower [simp]: "py_blank (py_lower s) = py_blank s"
  by (induction s) (auto simp: py_lower_def)

lemma py_blank_lstrip: "py_blank s \<longleftrightarrow> py_lstrip s = []"
  by (simp add: py_blank_def py_lstrip_def dropWhile_eq_Nil_conv list_all_iff)

lemma py_lstrip_blank [simp]: "py_blank w \<Longrightarrow> py_lstrip (w @ s) = py_lstrip s"
  by (induction w) (auto simp: py_lstrip_def)

lemma py_lstrip_append: "\<not> py_blank s \<Longrightarrow> py_lstrip (s @ t) = py_lstrip s @ t"
  by (induction s) (auto simp: py_lstrip_def)

lemma py_lstrip_lower: "py_lstrip (py_lower s) = py_lower (py_lstrip s)"
  by (induction s) (auto simp: py_lstrip_def py_lower_def)

lemma py_rstrip_lower: "py_rstrip (py_lower s) = py_lower (py_rstrip s)"
proof -
  have "dropWhile py_isspace (rev (map py_lower_char s))
      = map py_lower_char (dropWhile py_isspace (rev s))"
    by (simp add: rev_map dropWhile_map comp_def)
  then show ?thesis by (simp add: py_rstrip_def py_lower_def rev_map)
qed

lemma py_strip_lower: "py_strip (py_lower s) = py_lower (py_strip s)"
  by (simp add: py_strip_def py_lstrip_lower py_rstrip_lower)

lemma py_rstrip_blank: "py_blank w \<Longrightarrow> py_rstrip (s @ w) = py_rstrip s"
proof -
  assume "py_blank w"
  then have "dropWhile py_isspace (rev w @ rev s) = dropWhile py_isspace (rev s)"
    by (intro dropWhile_append2) (auto simp: py_blank_def list_all_iff)
  then show ?thesis by (simp add: py_rstrip_def)
qed

lemma py_strip_blank: "py_blank w \<Longrightarrow> py_strip (s @ w) = py_strip s"
proof (cases "py_blank s")
  case True
  moreover assume "py_blank w"
  ultimately show ?thesis
    using py_blank_lstrip [of "s @ w"] py_blank_lstrip [of s] by (simp add: py_strip_def)
next
  case False
  moreover assume "py_blank w"
  ultimately show ?thesis by (simp add: py_strip_def py_lstrip_append py_rstrip_blank)
qed

subsection \<open>Each pass on a decorated string\<close>

lemma rss_first: "prefix_ci ''[RSS]'' s \<Longrightarrow> \<exists>t. s = hd s # t \<and> length t \<ge> 4"
  by (cases s) (auto simp: prefix_ci_nth)

lemma sub_rss_lower: "sub_rss (py_lower s) = py_lower (sub_rss s)"
proof (induction s rule: sub_rss.induct)
  case (2 c s)
  have "py_lower (c # s) = py_lower_char c # py_lower s" by (simp add: py_lower_def)
  then show ?case
    using 2 prefix_ci_lower [of "''[RSS]''" "c # s"]
    by (auto simp: py_lower_def drop_map)
qed simp

lemma sub_rss_append:
  assumes "d = [] \<or> (\<forall>i. 0 < i \<and> i < 5 \<longrightarrow>
             py_lower_char (''[RSS]'' ! i) \<noteq> py_lower_char (hd d))"
  shows "sub_rss (s @ d) = sub_rss s @ sub_rss d"
proof (induction s rule: sub_rss.induct)
  case (2 c s)
  show ?case
  proof (cases "prefix_ci ''[RSS]'' (c # s)")
    case True
    then have "4 \<le> length s" using rss_first by fastforce
    with True 2 show ?thesis
      using prefix_ci_append [of "''[RSS]''" "c # s" d] by (simp del: prefix_ci.simps)
  next
    case False
    then have "\<not> prefix_ci ''[RSS]'' ((c # s) @ d)"
      using assms prefix_ci_straddle [of "''[RSS]''" "c # s" "hd d" "tl d"]
      by (cases d) auto
    with False 2 show ?thesis by (simp del: prefix_ci.simps)
  qed
qed simp

lemma label_head:
  assumes "type_label (s @ c # t)" and "\<not> type_label s" and "s \<noteq> []"
    and "py_isspace c \<or> c = CHR ''(''"
  shows False
proof -
  have c: "py_lower_char c = c"
    using assms(4) by (auto simp: py_isspace_def py_lower_char_def Let_def)
  have "\<exists>i. 0 < i \<and> i < 9 \<and>
      (py_lower_char (''(newznab)'' ! i) = c \<or> py_lower_char (''(torznab)'' ! i) = c)"
    using assms(1-3) c prefix_ci_straddle [of _ s c t]
    unfolding type_label_def by fastforce
  then obtain i :: nat where i: "0 < i" "i < 9" and
    m: "py_lower_char (''(newznab)'' ! i) = c \<or> py_lower_char (''(torznab)'' ! i) = c" by blast
  have "c \<notin> set ''newzabtor)''"
    using assms(4) by (auto simp: py_isspace_def)
  moreover have "i = 1 \<or> i = 2 \<or> i = 3 \<or> i = 4 \<or> i = 5 \<or> i = 6 \<or> i = 7 \<or> i = 8"
    using i by arith
  then have "py_lower_char (''(newznab)'' ! i) \<in> set ''newzabtor)''"
    and "py_lower_char (''(torznab)'' ! i) \<in> set ''newzabtor)''"
    by (elim disjE; simp add: py_lower_char_def)+
  ultimately show False using m by metis
qed

text \<open>Behind a type label or white space, the label tail grows by whole labels only.\<close>

lemma label_tail_blank: "py_blank s \<Longrightarrow> \<not> label_tail s"
  by (subst label_tail.simps) (simp add: py_blank_lstrip type_label_def)

lemma type_label_drop_append:
  "type_label t \<Longrightarrow> type_label (t @ d) \<and> drop 9 (t @ d) = drop 9 t @ d"
  by (auto simp: type_label_def prefix_ci_nth nth_append)

lemma label_tail_append:
  assumes d: "d = [] \<or> py_isspace (hd d) \<or> hd d = CHR ''(''"
    and tail: "label_tail d \<or> py_blank d"
  shows "label_tail (s @ d) \<longleftrightarrow> label_tail s \<or> (py_blank s \<and> label_tail d)"
proof (induction s rule: label_tail.induct)
  case (1 s)
  let ?t = "py_lstrip s"
  show ?case
  proof (cases "py_blank s")
    case True
    then show ?thesis
      using label_tail_blank [of s] label_tail.simps [of "s @ d"] label_tail.simps [of d]
      by simp
  next
    case nb: False
    then have ls: "py_lstrip (s @ d) = ?t @ d" by (rule py_lstrip_append)
    show ?thesis
    proof (cases "type_label ?t")
      case True
      have "label_tail (s @ d) \<longleftrightarrow> label_tail (drop 9 ?t @ d) \<or> py_blank (drop 9 ?t @ d)"
        using True ls type_label_drop_append by (subst label_tail.simps) (simp add: Let_def)
      also have "\<dots> \<longleftrightarrow> label_tail (drop 9 ?t) \<or> py_blank (drop 9 ?t)"
        using "1.IH" [of ?t] True tail label_tail_blank [of d] by auto
      also have "\<dots> \<longleftrightarrow> label_tail s"
        using True by (simp add: label_tail.simps [of s] Let_def)
      finally show ?thesis using nb by blast
    next
      case False
      have "\<not> type_label (?t @ d)"
      proof (cases d)
        case Nil
        with False show ?thesis by simp
      next
        case (Cons c r)
        moreover have "?t \<noteq> []" using nb by (simp add: py_blank_lstrip)
        ultimately show ?thesis using d False label_head [of ?t c r] by auto
      qed
      then show ?thesis
        using False nb ls by (simp add: label_tail.simps [of s] label_tail.simps [of "s @ d"])
    qed
  qed
qed

lemma strip_labels_append:
  assumes "d = [] \<or> py_isspace (hd d) \<or> hd d = CHR ''(''"
    and "label_tail d \<or> py_blank d"
  shows "\<exists>w. py_blank w \<and> (strip_labels (s @ d) = strip_labels s @ w
                          \<or> strip_labels s = strip_labels (s @ d) @ w)"
proof (induction s)
  case Nil
  show ?case
  proof (cases "label_tail d")
    case True
    then have "strip_labels d = []" by (cases d) (auto simp: label_tail_blank)
    then have "strip_labels ([] @ d) = strip_labels [] @ []" by simp
    moreover have "py_blank []" by simp
    ultimately show ?thesis by blast
  next
    case False
    with assms have "py_blank d" by blast
    then have "strip_labels d = d" by (induction d) (auto simp: label_tail_blank)
    with \<open>py_blank d\<close> show ?thesis by auto
  qed
next
  case (Cons c s)
  show ?case
  proof (cases "label_tail (c # s)")
    case True
    then have "label_tail (c # s @ d)"
      using label_tail_append [OF assms, of "c # s"] by simp
    with True show ?thesis by (auto intro: exI [of _ "[]"])
  next
    case nl: False
    show ?thesis
    proof (cases "label_tail (c # s @ d)")
      case True
      then have b: "py_blank (c # s)"
        using nl label_tail_append [OF assms, of "c # s"] by simp
      then have "strip_labels (c # s) = c # s"
        by (induction s arbitrary: c) (auto simp: label_tail_blank)
      with True b show ?thesis by (intro exI [of _ "c # s"]) simp
    next
      case False
      with nl Cons.IH show ?thesis by simp
    qed
  qed
qed

lemma collapse_ws_blank: "py_blank w \<Longrightarrow> py_blank (collapse_ws w)"
proof (cases w)
  case (Cons c s)
  assume "py_blank w"
  with Cons have "py_isspace c" and "dropWhile py_isspace s = []"
    by (simp_all add: py_blank_def dropWhile_eq_Nil_conv list_all_iff)
  moreover have "py_isspace CHR '' ''" by (simp add: py_isspace_def)
  ultimately show ?thesis using Cons by (simp del: dropWhile_eq_Nil_conv)
qed simp

lemma collapse_ws_append:
  "py_blank w \<Longrightarrow> \<exists>w'. py_blank w' \<and> collapse_ws (s @ w) = collapse_ws s @ w'"
proof (induction s rule: collapse_ws.induct)
  case 1
  then show ?case using collapse_ws_blank by auto
next
  case (2 c s)
  show ?case
  proof (cases "py_isspace c")
    case False
    with 2 show ?thesis by simp
  next
    case True
    show ?thesis
    proof (cases "py_blank s")
      case blank: True
      then have "dropWhile py_isspace (s @ w) = []" and "dropWhile py_isspace s = []"
        using "2.prems" py_blank_lstrip [of "s @ w"] py_blank_lstrip [of s]
        by (simp_all add: py_lstrip_def)
      with True show ?thesis by (intro exI [of _ "[]"]) (simp del: dropWhile_eq_Nil_conv)
    next
      case False
      then have "dropWhile py_isspace (s @ w) = dropWhile py_isspace s @ w"
        using py_lstrip_append by (simp add: py_lstrip_def)
      with True "2.IH" "2.prems" show ?thesis by simp
    qed
  qed
qed

lemma tidy_blank:
  assumes "py_blank w"
  shows "py_strip (collapse_ws (s @ w)) = py_strip (collapse_ws s)"
proof -
  obtain w' where "py_blank w'" and "collapse_ws (s @ w) = collapse_ws s @ w'"
    using collapse_ws_append [OF assms] by blast
  then show ?thesis by (simp add: py_strip_blank)
qed

lemma tidy_strip_labels:
  assumes "d = [] \<or> py_isspace (hd d) \<or> hd d = CHR ''(''"
    and "label_tail d \<or> py_blank d"
  shows "py_strip (collapse_ws (strip_labels (s @ d))) = py_strip (collapse_ws (strip_labels s))"
  using strip_labels_append [OF assms, of s] tidy_blank by auto

subsection \<open>The seams agree on the token\<close>

lemma label_tail_lower: "label_tail (py_lower s) = label_tail s"
proof (induction s rule: label_tail.induct)
  case (1 s)
  let ?t = "py_lstrip s"
  have t: "type_label (py_lower ?t) = type_label ?t" by (simp add: type_label_def)
  have d: "drop 9 (py_lower ?t) = py_lower (drop 9 ?t)" by (simp add: py_lower_def drop_map)
  show ?case
    using "1.IH" [of ?t] t d
    by (simp add: label_tail.simps [of s] label_tail.simps [of "py_lower s"]
        py_lstrip_lower Let_def)
qed

lemma strip_labels_lower: "strip_labels (py_lower s) = py_lower (strip_labels s)"
proof (induction s)
  case (Cons c s)
  then show ?case
    using label_tail_lower [of "c # s"] by (simp add: py_lower_def)
qed simp

lemma collapse_ws_lower: "collapse_ws (py_lower s) = py_lower (collapse_ws s)"
proof (induction s rule: collapse_ws.induct)
  case (2 c s)
  have "dropWhile py_isspace (map py_lower_char s) = map py_lower_char (dropWhile py_isspace s)"
    by (simp add: dropWhile_map comp_def)
  moreover have "py_lower_char CHR '' '' = CHR '' ''"
    by (simp add: py_lower_char_def)
  ultimately show ?case using 2 by (simp add: py_lower_def)
qed simp

lemma normalize_provider_lower:
  "normalize_provider (Some (py_lower p)) = normalize_provider (Some p)"
  by (simp add: normalize_provider_def sub_rss_lower strip_labels_lower collapse_ws_lower
      py_strip_lower)

lemma lower_is_symbol:
  assumes "py_lower_char x = c" and "(of_char c :: nat) \<in> {40, 93}"
  shows "x = c"
proof -
  have "(of_char (py_lower_char x) :: nat) = of_char c" using assms(1) by simp
  moreover have "(of_char x :: nat) < 256" by (rule nat_of_char_less_256)
  ultimately have "(of_char x :: nat) = of_char c"
    using assms(2) by (auto simp: py_lower_char_def Let_def split: if_splits)
  then show ?thesis by simp
qed

lemma prefix_ci_take: "prefix_ci p s \<Longrightarrow> py_lower (take (length p) s) = py_lower p"
  by (induction p s rule: prefix_ci.induct) (auto simp: py_lower_def)

lemma sub_rss_no_bracket: "CHR '']'' \<notin> set d \<Longrightarrow> sub_rss d = d"
proof (induction d)
  case (Cons c d)
  have "\<not> prefix_ci ''[RSS]'' (c # d)"
  proof
    assume h: "prefix_ci ''[RSS]'' (c # d)"
    then have len: "length ''[RSS]'' \<le> length (c # d)"
      and eq: "\<forall>i < length ''[RSS]''. py_lower_char (''[RSS]'' ! i) = py_lower_char ((c # d) ! i)"
      unfolding prefix_ci_nth by blast+
    from eq [THEN spec, of 4] have "py_lower_char ((c # d) ! 4) = CHR '']''"
      by (simp add: py_lower_char_def)
    then have "(c # d) ! 4 = CHR '']''" by (rule lower_is_symbol) simp
    moreover from len have "4 < length (c # d)" by simp
    ultimately have "CHR '']'' \<in> set (c # d)" by (metis nth_mem)
    with Cons.prems show False by blast
  qed
  with Cons show ?case by (simp del: prefix_ci.simps)
qed simp

lemma type_label_shape:
  assumes "type_label l" and "length l = 9"
  shows "hd l = CHR ''('' \<and> CHR '']'' \<notin> set l"
proof -
  have lw: "py_lower l = py_lower ''(newznab)'' \<or> py_lower l = py_lower ''(torznab)''"
    using assms prefix_ci_take [of "''(newznab)''" l] prefix_ci_take [of "''(torznab)''" l]
    by (auto simp: type_label_def)
  have "l \<noteq> []" using assms(2) by auto
  then have "py_lower_char (hd l) = hd (py_lower l)" by (simp add: py_lower_def hd_map)
  then have "py_lower_char (hd l) = CHR ''(''" using lw by (auto simp: py_lower_def py_lower_char_def)
  then have "hd l = CHR ''(''" by (rule lower_is_symbol) simp
  moreover have "CHR '']'' \<notin> set l"
  proof
    assume "CHR '']'' \<in> set l"
    then have "py_lower_char CHR '']'' \<in> set (py_lower l)" by (simp add: py_lower_def)
    then show False using lw by (auto simp: py_lower_def py_lower_char_def)
  qed
  ultimately show ?thesis ..
qed

lemma blank_no_bracket: "py_blank w \<Longrightarrow> CHR '']'' \<notin> set w"
  by (auto simp: py_blank_def py_isspace_def list_all_iff)

lemma rss_inner:
  assumes "0 < i" and "i < (5 :: nat)"
  shows "py_lower_char (''[RSS]'' ! i) \<in> {CHR ''r'', CHR ''s'', CHR '']''}"
proof -
  have "i = 1 \<or> i = 2 \<or> i = 3 \<or> i = 4" using assms by arith
  then show ?thesis by (elim disjE) (simp_all add: py_lower_char_def char_of_def bit_0)
qed

lemma rss_apart:
  assumes "py_isspace c \<or> c \<in> {CHR ''('', CHR ''[''}" and "0 < i" and "i < (5 :: nat)"
  shows "py_lower_char (''[RSS]'' ! i) \<noteq> py_lower_char c"
proof -
  have "py_lower_char c = c"
    using assms(1) by (auto simp: py_isspace_def py_lower_char_def Let_def)
  moreover have "c \<notin> {CHR ''r'', CHR ''s'', CHR '']''}"
    using assms(1) by (auto simp: py_isspace_def)
  ultimately show ?thesis using rss_inner [OF assms(2,3)] by metis
qed

lemma decoration_suffix:
  assumes "decoration d"
  shows "\<exists>e. sub_rss (p @ d) = sub_rss p @ e
      \<and> (e = [] \<or> py_isspace (hd e) \<or> hd e = CHR ''('') \<and> (label_tail e \<or> py_blank e)"
proof -
  have plain: "sub_rss (p @ d) = sub_rss p @ d" if "CHR '']'' \<notin> set d"
    and "d = [] \<or> py_isspace (hd d) \<or> hd d = CHR ''(''"
  proof -
    have "d = [] \<or> (\<forall>i. 0 < i \<and> i < 5 \<longrightarrow>
        py_lower_char (''[RSS]'' ! i) \<noteq> py_lower_char (hd d))"
      using that(2) rss_apart [of "hd d"] by blast
    from sub_rss_append [OF this] show ?thesis using sub_rss_no_bracket that(1) by simp
  qed
  from assms consider (rss) "length d = 5" "prefix_ci ''[RSS]'' d" | (blank) "py_blank d"
    | (label) w l where "d = w @ l" "py_blank w" "length l = 9" "type_label l"
    by (auto simp: decoration_def)
  then show ?thesis
  proof cases
    case rss
    then obtain c e where d: "d = c # e" "length e = 4" by (cases d) auto
    have lw: "py_lower d = py_lower ''[RSS]''" using rss prefix_ci_take [of "''[RSS]''" d] by simp
    have "py_lower_char c = CHR ''[''" using lw d by (simp add: py_lower_def py_lower_char_def)
    then have "py_lower_char (hd d) = py_lower_char CHR ''[''" using d by (simp add: py_lower_char_def)
    then have "\<forall>i. 0 < i \<and> i < 5 \<longrightarrow>
        py_lower_char (''[RSS]'' ! i) \<noteq> py_lower_char (hd d)"
      using rss_apart [of "CHR ''[''"] by simp
    then have "sub_rss (p @ d) = sub_rss p @ sub_rss d" by (intro sub_rss_append) blast
    moreover have "sub_rss d = []" using rss(2) d by simp
    ultimately show ?thesis by auto
  next
    case blank
    then have "CHR '']'' \<notin> set d" and "d = [] \<or> py_isspace (hd d) \<or> hd d = CHR ''(''"
      using blank_no_bracket by (blast, cases d, auto)
    with blank show ?thesis using plain by blast
  next
    case label
    then have "hd d = CHR ''('' \<or> py_isspace (hd d)"
      using type_label_shape by (cases w) auto
    moreover have "CHR '']'' \<notin> set d"
      using label type_label_shape blank_no_bracket by auto
    moreover have "label_tail d"
    proof -
      have "py_lstrip l = l"
        using label type_label_shape [of l] by (cases l) (auto simp: py_lstrip_def py_isspace_def)
      then have "py_lstrip d = l" using label by simp
      then show ?thesis using label by (subst label_tail.simps) (simp add: Let_def)
    qed
    ultimately show ?thesis using plain by blast
  qed
qed

lemma decoration_invisible:
  assumes "decoration d"
  shows "normalize_provider (Some (p @ d)) = normalize_provider (Some p)"
proof -
  obtain e where "sub_rss (p @ d) = sub_rss p @ e"
    and "e = [] \<or> py_isspace (hd e) \<or> hd e = CHR ''(''" and "label_tail e \<or> py_blank e"
    using decoration_suffix [OF assms] by blast
  then show ?thesis by (simp add: normalize_provider_def tidy_strip_labels)
qed

lemma decorations_invisible:
  "\<forall>d \<in> set ds. decoration d \<Longrightarrow>
   normalize_provider (Some (p @ concat ds)) = normalize_provider (Some p)"
proof (induction ds arbitrary: p)
  case (Cons d ds)
  then show ?case using Cons.IH [of "p @ d"] decoration_invisible by simp
qed simp

end
