(* ===== verification/JournalPayload.thy ===== *)
theory JournalPayload
  imports JournalKey
begin

text \<open>
  \<open>comicarr/app/downloads/journal.py\<close>, second part: the bounded reconstruction payload a journal
  row carries.  What may be persisted (\<open>sanitize_payload\<close>), how a later transition may extend it
  (\<open>_merge_payload\<close>) and how it is written to and read from the \<open>payload_json\<close> column.
\<close>

section \<open>Text and JSON forms of a payload value\<close>

definition hex_digit :: "nat \<Rightarrow> char" where
  "hex_digit n = (if n < 10 then char_of (48 + n) else char_of (87 + n))"

definition py_quote_char :: "char \<Rightarrow> char \<Rightarrow> string" where
  "py_quote_char q c =
     (let n = (of_char c :: nat) in
      if c = q \<or> c = CHR 0x5C then [CHR 0x5C, c]
      else if n = 10 then [CHR 0x5C, CHR ''n'']
      else if n = 13 then [CHR 0x5C, CHR ''r'']
      else if n = 9 then [CHR 0x5C, CHR ''t'']
      else if n < 32 \<or> (127 \<le> n \<and> n \<le> 160) \<or> n = 173
        then [CHR 0x5C, CHR ''x'', hex_digit (n div 16), hex_digit (n mod 16)]
      else [c])"

text \<open>\<open>repr\<close> of a string.\<close>

definition py_quote :: "string \<Rightarrow> string" where
  "py_quote s =
     (let q = (if CHR 0x27 \<in> set s \<and> CHR 0x22 \<notin> set s then CHR 0x22 else CHR 0x27)
      in q # concat (map (py_quote_char q) s) @ [q])"

fun py_repr :: "pval \<Rightarrow> string" and py_repr_items :: "(string \<times> pval) list \<Rightarrow> string" where
  "py_repr VNone = ''None''"
| "py_repr (VBool b) = (if b then ''True'' else ''False'')"
| "py_repr (VInt i) = py_str_int i"
| "py_repr (VStr s) = py_quote s"
| "py_repr (VObj s) = s"
| "py_repr (VDict d) = ''{'' @ py_repr_items d @ ''}''"
| "py_repr_items [] = []"
| "py_repr_items ((k, v) # r) =
     py_quote k @ '': '' @ py_repr v @ (if r = [] then [] else '', '' @ py_repr_items r)"

definition py_str :: "pval \<Rightarrow> string" where
  "py_str v = (case v of VStr s \<Rightarrow> s | _ \<Rightarrow> py_repr v)"

definition json_char :: "char \<Rightarrow> string" where
  "json_char c =
     (let n = (of_char c :: nat) in
      if n = 34 \<or> n = 92 then [CHR 0x5C, c]
      else if n = 10 then [CHR 0x5C, CHR ''n'']
      else if n = 13 then [CHR 0x5C, CHR ''r'']
      else if n = 9 then [CHR 0x5C, CHR ''t'']
      else if n = 8 then [CHR 0x5C, CHR ''b'']
      else if n = 12 then [CHR 0x5C, CHR ''f'']
      else if n < 32 \<or> 126 < n
        then [CHR 0x5C, CHR ''u'', CHR ''0'', CHR ''0'', hex_digit (n div 16), hex_digit (n mod 16)]
      else [c])"

definition json_str :: "string \<Rightarrow> string" where
  "json_str s = CHR 0x22 # concat (map json_char s) @ [CHR 0x22]"

text \<open>\<open>json.dumps(value, default=str)\<close>\<close>

fun json_dumps :: "pval \<Rightarrow> string" and json_items :: "(string \<times> pval) list \<Rightarrow> string" where
  "json_dumps VNone = ''null''"
| "json_dumps (VBool b) = (if b then ''true'' else ''false'')"
| "json_dumps (VInt i) = py_str_int i"
| "json_dumps (VStr s) = json_str s"
| "json_dumps (VObj s) = json_str s"
| "json_dumps (VDict d) = ''{'' @ json_items d @ ''}''"
| "json_items [] = []"
| "json_items ((k, v) # r) =
     json_str k @ '': '' @ json_dumps v @ (if r = [] then [] else '', '' @ json_items r)"

text \<open>What \<open>json.loads\<close> gives back for a dumped value: \<open>default=str\<close> has turned objects
  into strings.\<close>

fun json_back :: "pval \<Rightarrow> pval" and json_back_items :: "(string \<times> pval) list \<Rightarrow> (string \<times> pval) list" where
  "json_back VNone = VNone"
| "json_back (VBool b) = VBool b"
| "json_back (VInt i) = VInt i"
| "json_back (VStr s) = VStr s"
| "json_back (VObj s) = VStr s"
| "json_back (VDict d) = VDict (json_back_items d)"
| "json_back_items [] = []"
| "json_back_items ((k, v) # r) = (k, json_back v) # json_back_items r"

section \<open>The column\<close>

text \<open>\<open>payload_json\<close>: absent (NULL or empty), undecodable text, or the JSON text of a value.\<close>

datatype pcol = PNull | PBad | PJson pval

fun load_payload :: "pcol \<Rightarrow> pval" where
  "load_payload PNull = VNone"
| "load_payload PBad = VNone"
| "load_payload (PJson v) = v"

definition dump_payload :: "payload option \<Rightarrow> pcol" where
  "dump_payload p = (case p of None \<Rightarrow> PNull | Some d \<Rightarrow> PJson (json_back (VDict d)))"

section \<open>Sanitising\<close>

definition PAYLOAD_KEYS :: "string list" where
  "PAYLOAD_KEYS = [''issueid'', ''comicid'', ''provider'', ''downloader_type'', ''route'', ''client'',
     ''clientmode'', ''nzo_id'', ''NZBID'', ''hash'', ''ddl_id'', ''id'', ''nzbname'', ''nzb_name'',
     ''nzb_folder'', ''filename'', ''series'', ''site'', ''mode'', ''comicname'', ''issuenumber'',
     ''failed'', ''apicall'', ''ddl'', ''oneoff'', ''journal_release_key'',
     ''attention_release_key'', ''download_info'', ''fail_detail'', ''recovery_count'']"

definition DOWNLOAD_INFO_KEYS :: "string list" where
  "DOWNLOAD_INFO_KEYS =
     [''provider'', ''id'', ''nzo_id'', ''NZBID'', ''hash'', ''nzbname'', ''clientmode'']"

definition IMMUTABLE_PAYLOAD_KEYS :: "string list" where
  "IMMUTABLE_PAYLOAD_KEYS = [''issueid'', ''comicid'', ''provider'', ''downloader_type'', ''route'',
     ''client'', ''clientmode'', ''nzo_id'', ''NZBID'', ''hash'', ''ddl_id'', ''id'']"

definition MAX_PAYLOAD_STRING :: nat where
  "MAX_PAYLOAD_STRING = 2048"

definition MAX_PAYLOAD_BYTES :: nat where
  "MAX_PAYLOAD_BYTES = 16 * 1024"

definition bounded_scalar :: "pval \<Rightarrow> pval" where
  "bounded_scalar v =
     (case v of VNone \<Rightarrow> v | VBool b \<Rightarrow> v | VInt i \<Rightarrow> v
      | _ \<Rightarrow> VStr (take MAX_PAYLOAD_STRING (py_str v)))"

definition clean_nested :: "payload \<Rightarrow> payload" where
  "clean_nested d = map (\<lambda>(k, v). (k, bounded_scalar v))
                        (filter (\<lambda>(k, v). k \<in> set DOWNLOAD_INFO_KEYS) d)"

definition clean_item :: "string \<times> pval \<Rightarrow> (string \<times> pval) option" where
  "clean_item kv =
     (case kv of (k, v) \<Rightarrow>
        if k \<notin> set PAYLOAD_KEYS then None
        else if k = ''download_info'' then
          (case v of VDict d \<Rightarrow> if clean_nested d = [] then None else Some (k, VDict (clean_nested d))
           | _ \<Rightarrow> None)
        else Some (k, bounded_scalar v))"

definition clean_items :: "payload \<Rightarrow> payload" where
  "clean_items d = List.map_filter clean_item d"

fun bound_items :: "payload \<Rightarrow> payload \<Rightarrow> payload" where
  "bound_items acc [] = acc"
| "bound_items acc (kv # r) =
     (if length (json_dumps (VDict (acc @ [kv]))) > MAX_PAYLOAD_BYTES then acc
      else bound_items (acc @ [kv]) r)"

text \<open>\<open>loads\<close> stands for \<open>json.loads\<close> on a string payload (\<open>None\<close> for its \<open>ValueError\<close>).\<close>

definition sanitize_payload :: "(string \<Rightarrow> pval option) \<Rightarrow> pval \<Rightarrow> payload option" where
  "sanitize_payload loads p =
     (let q = (case p of VStr s \<Rightarrow> loads s | _ \<Rightarrow> Some p) in
      if p = VNone then None
      else case q of Some (VDict d) \<Rightarrow> Some (bound_items [] (clean_items d)) | _ \<Rightarrow> Some [])"

section \<open>Merging\<close>

text \<open>The test \<open>x in (None, "")\<close> and Python's \<open>==\<close> on payload values (\<open>True == 1\<close>).\<close>

definition pv_empty :: "pval \<Rightarrow> bool" where
  "pv_empty v = (v = VNone \<or> v = VStr [])"

fun py_eq :: "pval \<Rightarrow> pval \<Rightarrow> bool" where
  "py_eq (VBool a) (VInt i) = ((if a then 1 else 0) = i)"
| "py_eq (VInt i) (VBool a) = ((if a then 1 else 0) = i)"
| "py_eq a b = (a = b)"

definition pv_get :: "payload \<Rightarrow> string \<Rightarrow> pval" where
  "pv_get d k = (case dict_get d k of None \<Rightarrow> VNone | Some v \<Rightarrow> v)"

definition norm_pv :: "pval \<Rightarrow> string" where
  "norm_pv v = normalize_provider (if v = VNone then None else Some (py_str v))"

definition values_match :: "string \<Rightarrow> pval \<Rightarrow> pval \<Rightarrow> bool" where
  "values_match k old new =
     (if k = ''provider'' then norm_pv old = norm_pv new else py_eq old new)"

definition immutable_clash :: "string \<Rightarrow> pval \<Rightarrow> pval \<Rightarrow> bool" where
  "immutable_clash k old new \<longleftrightarrow>
     k \<in> set IMMUTABLE_PAYLOAD_KEYS \<and> \<not> pv_empty old \<and> \<not> pv_empty new
     \<and> \<not> values_match k old new"

fun merge_nested :: "payload \<Rightarrow> payload \<Rightarrow> payload \<times> string option" where
  "merge_nested m [] = (m, None)"
| "merge_nested m ((k, v) # r) =
     (if immutable_clash k (pv_get m k) v then (m, Some k)
      else merge_nested (dict_set k v m) r)"

fun as_dict :: "pval \<Rightarrow> payload" where
  "as_dict (VDict d) = d"
| "as_dict _ = []"

fun merge_items :: "payload \<Rightarrow> payload \<Rightarrow> payload \<times> string option" where
  "merge_items m [] = (m, None)"
| "merge_items m ((k, v) # r) =
     (if immutable_clash k (pv_get m k) v then (m, Some k)
      else case (k = ''download_info'', v) of
        (True, VDict n) \<Rightarrow>
          (case merge_nested (as_dict (pv_get m k)) n of
             (_, Some c) \<Rightarrow> (m, Some (''download_info.'' @ c))
           | (n', None) \<Rightarrow> merge_items (dict_set k (VDict n') m) r)
      | _ \<Rightarrow> if v \<noteq> VNone then merge_items (dict_set k v m) r else merge_items m r)"

definition merge_payload :: "payload option \<Rightarrow> payload option \<Rightarrow> payload \<times> string option" where
  "merge_payload existing incoming =
     merge_items (case existing of None \<Rightarrow> [] | Some d \<Rightarrow> d)
                 (case incoming of None \<Rightarrow> [] | Some d \<Rightarrow> d)"

section \<open>The key of a queue item\<close>

definition pv_or :: "pval \<Rightarrow> pval \<Rightarrow> pval" where
  "pv_or a b = (if truthy a then a else b)"

definition pv_text :: "pval \<Rightarrow> string option" where
  "pv_text v = (if v = VNone then None else Some (py_str v))"

definition pv_disc :: "pval \<Rightarrow> discriminant" where
  "pv_disc v = (case v of VNone \<Rightarrow> DNone | VDict d \<Rightarrow> DDict d | _ \<Rightarrow> DScalar (py_str v))"

definition derive_release_key :: "(payload \<Rightarrow> string) \<Rightarrow> payload \<Rightarrow> string" where
  "derive_release_key sha item =
     (let g = pv_get item;
          issueid = pv_or (pv_or (g ''issueid'') (g ''IssueID'')) (g ''ID'');
          provider = pv_or (pv_or (g ''provider'') (g ''Provider'')) (g ''PROVIDER'');
          nzbname = pv_or (pv_or (g ''nzbname'') (g ''NZBName'')) (g ''nzb_name'');
          h = pv_or (g ''hash'') (g ''Hash'');
          disc = pv_or (pv_or h (g ''downloader_id'')) (VDict item)
      in release_key sha (pv_text issueid) (pv_text provider) (pv_text nzbname) (pv_text h)
           (pv_disc disc))"

section \<open>What may be persisted\<close>

fun scalar_ok :: "pval \<Rightarrow> bool" where
  "scalar_ok (VStr s) = (length s \<le> MAX_PAYLOAD_STRING)"
| "scalar_ok (VDict d) = False"
| "scalar_ok (VObj s) = False"
| "scalar_ok _ = True"

definition nested_ok :: "payload \<Rightarrow> bool" where
  "nested_ok d \<longleftrightarrow> d \<noteq> [] \<and> (\<forall>(k, v) \<in> set d. k \<in> set DOWNLOAD_INFO_KEYS \<and> scalar_ok v)"

definition item_ok :: "string \<times> pval \<Rightarrow> bool" where
  "item_ok kv \<longleftrightarrow> fst kv \<in> set PAYLOAD_KEYS \<and>
     (if fst kv = ''download_info'' then \<exists>n. snd kv = VDict n \<and> nested_ok n
      else scalar_ok (snd kv))"

definition payload_ok :: "payload \<Rightarrow> bool" where
  "payload_ok d \<longleftrightarrow> list_all item_ok d \<and> length (json_dumps (VDict d)) \<le> MAX_PAYLOAD_BYTES"

lemma scalar_ok_bounded [simp]: "scalar_ok (bounded_scalar v)"
  by (cases v) (simp_all add: bounded_scalar_def)

lemma bounded_scalar_id [simp]: "scalar_ok v \<Longrightarrow> bounded_scalar v = v"
  by (cases v) (simp_all add: bounded_scalar_def py_str_def)

lemma json_back_scalar: "scalar_ok v \<Longrightarrow> json_back v = v"
  by (cases v) simp_all

lemma json_back_items_map: "json_back_items d = map (\<lambda>(k, v). (k, json_back v)) d"
  by (induction d) auto

lemma json_back_nested: "nested_ok n \<Longrightarrow> json_back_items n = n"
  by (auto simp: json_back_items_map nested_ok_def json_back_scalar intro!: map_idI)

lemma json_back_item_ok: "item_ok (k, v) \<Longrightarrow> json_back v = v"
  by (auto simp: item_ok_def json_back_nested json_back_scalar split: if_splits)

lemma clean_nested_id: "nested_ok n \<Longrightarrow> clean_nested n = n"
proof -
  assume n: "nested_ok n"
  then have "filter (\<lambda>(k, v). k \<in> set DOWNLOAD_INFO_KEYS) n = n"
    by (auto simp: nested_ok_def intro!: filter_True)
  moreover have "map (\<lambda>(k, v). (k, bounded_scalar v)) n = n"
    using n by (auto simp: nested_ok_def intro!: map_idI)
  ultimately show ?thesis by (simp add: clean_nested_def)
qed

lemma clean_nested_ok: "clean_nested d \<noteq> [] \<Longrightarrow> nested_ok (clean_nested d)"
  by (auto simp: nested_ok_def clean_nested_def)

lemma clean_item_id: "item_ok kv \<Longrightarrow> clean_item kv = Some kv"
  by (cases kv) (auto simp: item_ok_def clean_item_def clean_nested_id nested_ok_def split: if_splits)

lemma clean_item_ok: "clean_item kv = Some kv' \<Longrightarrow> item_ok kv'"
  by (cases kv)
    (auto simp: clean_item_def item_ok_def clean_nested_ok split: if_splits pval.splits)

lemma clean_items_ok: "list_all item_ok (clean_items d)"
  unfolding clean_items_def list_all_iff
  by (auto simp: List.map_filter_def dest: clean_item_ok)

lemma clean_items_id: "list_all item_ok d \<Longrightarrow> clean_items d = d"
  unfolding clean_items_def
  by (induction d) (auto simp: clean_item_id List.map_filter_simps)

lemma bound_items_prefix: "\<exists>ys zs. r = ys @ zs \<and> bound_items acc r = acc @ ys"
proof (induction acc r rule: bound_items.induct)
  case (2 acc kv r)
  show ?case
  proof (cases "length (json_dumps (VDict (acc @ [kv]))) > MAX_PAYLOAD_BYTES")
    case False
    then obtain ys zs where "r = ys @ zs" and "bound_items (acc @ [kv]) r = (acc @ [kv]) @ ys"
      using 2 by blast
    with False show ?thesis by (intro exI [of _ "kv # ys"] exI [of _ zs]) simp
  qed auto
qed simp

lemma bound_items_small:
  "length (json_dumps (VDict acc)) \<le> MAX_PAYLOAD_BYTES \<Longrightarrow>
   length (json_dumps (VDict (bound_items acc r))) \<le> MAX_PAYLOAD_BYTES"
  by (induction acc r rule: bound_items.induct) auto

lemma json_items_prefix: "length (json_items a) \<le> length (json_items (a @ b))"
  by (induction a) auto

lemma bound_items_id:
  "length (json_dumps (VDict (acc @ r))) \<le> MAX_PAYLOAD_BYTES \<Longrightarrow> bound_items acc r = acc @ r"
proof (induction acc r rule: bound_items.induct)
  case (2 acc kv r)
  have "length (json_items (acc @ [kv])) \<le> length (json_items ((acc @ [kv]) @ r))"
    by (rule json_items_prefix)
  with 2 show ?case by simp
qed simp

lemma sanitize_ok:
  assumes "sanitize_payload loads p = Some d"
  shows "payload_ok d"
proof -
  have base: "length (json_dumps (VDict [])) \<le> MAX_PAYLOAD_BYTES" by (simp add: MAX_PAYLOAD_BYTES_def)
  have "payload_ok (bound_items [] (clean_items x))" for x
  proof -
    obtain ys zs where "clean_items x = ys @ zs" and b: "bound_items [] (clean_items x) = ys"
      using bound_items_prefix [of "clean_items x" "[]"] by auto
    then have "list_all item_ok ys" using clean_items_ok [of x] by simp
    with b bound_items_small [OF base, of "clean_items x"] show ?thesis by (simp add: payload_ok_def)
  qed
  moreover have "payload_ok []" using base by (simp add: payload_ok_def)
  ultimately show ?thesis
    using assms by (auto simp: sanitize_payload_def Let_def split: if_splits option.splits pval.splits)
qed

lemma sanitize_id: "payload_ok d \<Longrightarrow> sanitize_payload loads (VDict d) = Some d"
  using bound_items_id [of "[]" d] clean_items_id [of d]
  by (simp add: sanitize_payload_def payload_ok_def)

lemma json_back_ok: "list_all item_ok d \<Longrightarrow> json_back_items d = d"
  by (auto simp: json_back_items_map list_all_iff json_back_item_ok intro!: map_idI)

lemma load_dump_ok: "payload_ok d \<Longrightarrow> load_payload (dump_payload (Some d)) = VDict d"
  by (simp add: dump_payload_def json_back_ok payload_ok_def)

section \<open>What a merge keeps\<close>

lemma pv_get_set: "pv_get (dict_set k v m) j = (if j = k then v else pv_get m j)"
  by (simp add: pv_get_def dict_get_set)

lemma pv_get_Nil [simp]: "pv_get [] k = VNone"
  by (simp add: pv_get_def)

lemma values_match_refl [simp]: "values_match k v v"
proof -
  have "py_eq v v" by (cases v) simp_all
  then show ?thesis by (simp add: values_match_def)
qed

text \<open>A key the incoming payload does not mention keeps its value; an immutable identity that is
  already set is only replaced by a matching value or by the empty string.\<close>

lemma merge_items_Cons:
  assumes "merge_items m ((j, v) # r) = (m', None)"
  obtains x where "merge_items x r = (m', None)"
    and "x = m \<or> (\<exists>w. x = dict_set j w m)"
proof (cases "j = ''download_info'' \<and> (\<exists>n. v = VDict n)")
  case True
  then obtain n' where "merge_items (dict_set j (VDict n') m) r = (m', None)"
    using assms by (auto split: if_splits option.splits prod.splits)
  then show ?thesis using that by blast
next
  case False
  then have "merge_items m r = (m', None) \<or> merge_items (dict_set j v m) r = (m', None)"
    using assms by (auto split: if_splits bool.splits pval.splits)
  then show ?thesis using that by blast
qed

lemma merge_items_frame:
  "merge_items m r = (m', None) \<Longrightarrow> k \<notin> fst ` set r \<Longrightarrow> pv_get m' k = pv_get m k"
proof (induction r arbitrary: m)
  case (Cons jv r)
  obtain j v where jv: "jv = (j, v)" by (cases jv)
  from Cons.prems(1) [unfolded jv] obtain x where "merge_items x r = (m', None)"
    and "x = m \<or> (\<exists>w. x = dict_set j w m)" by (rule merge_items_Cons)
  moreover have "k \<noteq> j" using Cons.prems(2) jv by auto
  ultimately show ?case using Cons.IH [of x] Cons.prems(2) by (auto simp: pv_get_set)
qed simp

lemma py_eq_sym: "py_eq a b \<Longrightarrow> py_eq b a"
  by (cases a; cases b) auto

lemma py_eq_trans: "py_eq a b \<Longrightarrow> py_eq b c \<Longrightarrow> py_eq a c"
  by (cases a; cases b; cases c) (auto split: if_splits)

lemma values_match_trans: "values_match k a b \<Longrightarrow> values_match k b c \<Longrightarrow> values_match k a c"
  by (auto simp: values_match_def dest: py_eq_trans split: if_splits)

lemma merge_items_immutable:
  assumes "merge_items m r = (m', None)"
    and "k \<in> set IMMUTABLE_PAYLOAD_KEYS"
    and "\<not> pv_empty (pv_get m k)"
    and "(k, VStr []) \<notin> set r"
  shows "\<not> pv_empty (pv_get m' k) \<and> values_match k (pv_get m k) (pv_get m' k)"
  using assms
proof (induction r arbitrary: m)
  case Nil
  then show ?case by simp
next
  case (Cons jv r)
  obtain j v where jv: "jv = (j, v)" by (cases jv)
  have kdi: "k \<noteq> ''download_info''"
    using Cons.prems(2) by (auto simp: IMMUTABLE_PAYLOAD_KEYS_def)
  have nc: "\<not> immutable_clash j (pv_get m j) v"
    using Cons.prems(1) jv by (auto split: if_splits)
  have step: "?case" if x: "merge_items x r = (m', None)" and "\<not> pv_empty (pv_get x k)"
    and "values_match k (pv_get m k) (pv_get x k)" for x
    using Cons.IH [OF x Cons.prems(2) that(2)] that(3) Cons.prems(4)
    by (auto dest: values_match_trans)
  show ?case
  proof (cases "j = ''download_info'' \<and> (\<exists>n. v = VDict n)")
    case True
    then obtain n' where "merge_items (dict_set j (VDict n') m) r = (m', None)"
      using Cons.prems(1) nc jv by (auto split: option.splits prod.splits)
    then show ?thesis using step True kdi Cons.prems(3) by (simp add: pv_get_set)
  next
    case plain: False
    show ?thesis
    proof (cases "v = VNone")
      case True
      then have "merge_items m r = (m', None)"
        using Cons.prems(1) nc jv by (auto split: bool.splits)
      then show ?thesis using step Cons.prems(3) by simp
    next
      case v: False
      then have "merge_items (dict_set j v m) r = (m', None)"
        using Cons.prems(1) nc plain jv by (auto split: bool.splits pval.splits)
      moreover have "\<not> pv_empty (pv_get (dict_set j v m) k)
          \<and> values_match k (pv_get m k) (pv_get (dict_set j v m) k)"
        using v nc jv Cons.prems(2-4) by (auto simp: pv_get_set immutable_clash_def pv_empty_def)
      ultimately show ?thesis using step by blast
    qed
  qed
qed

end
