(* ===== verification/Journal.thy ===== *)
theory Journal
  imports JournalPayload
begin

text \<open>
  \<open>comicarr/app/downloads/journal.py\<close>, third part: the journal table and every operation that
  writes it.  The table is an insertion-ordered dictionary from release keys to rows (the unique
  constraint on \<open>release_key\<close>); one call runs in one transaction, so an exception leaves the
  state unchanged.  The library tables \<open>_library_holds_issue\<close> reads are in \<open>jenv\<close>.
\<close>

section \<open>Rows\<close>

record jrow =
  jr_issueid :: "string option"
  jr_provider :: "string option"
  jr_downloader_type :: "string option"
  jr_nzbname :: "string option"
  jr_hash :: "string option"
  jr_stage :: stage
  jr_rank :: int
  jr_payload :: pcol
  jr_fail_reason :: "string option"
  jr_updated :: string
  jr_status :: "string option"
  jr_retry_count :: "int option"

text \<open>The keyword arguments \<open>**fields\<close>: text columns by name.\<close>

datatype jcol = CIssueid | CProvider | CDownloader_type | CNzbname | CHash | CFail_reason | CStatus

type_synonym jfields = "(jcol \<times> string option) list"

fun get_col :: "jcol \<Rightarrow> jrow \<Rightarrow> string option" where
  "get_col CIssueid r = jr_issueid r"
| "get_col CProvider r = jr_provider r"
| "get_col CDownloader_type r = jr_downloader_type r"
| "get_col CNzbname r = jr_nzbname r"
| "get_col CHash r = jr_hash r"
| "get_col CFail_reason r = jr_fail_reason r"
| "get_col CStatus r = jr_status r"

fun set_col :: "jcol \<times> string option \<Rightarrow> jrow \<Rightarrow> jrow" where
  "set_col (CIssueid, v) r = r\<lparr>jr_issueid := v\<rparr>"
| "set_col (CProvider, v) r = r\<lparr>jr_provider := v\<rparr>"
| "set_col (CDownloader_type, v) r = r\<lparr>jr_downloader_type := v\<rparr>"
| "set_col (CNzbname, v) r = r\<lparr>jr_nzbname := v\<rparr>"
| "set_col (CHash, v) r = r\<lparr>jr_hash := v\<rparr>"
| "set_col (CFail_reason, v) r = r\<lparr>jr_fail_reason := v\<rparr>"
| "set_col (CStatus, v) r = r\<lparr>jr_status := v\<rparr>"

definition set_cols :: "jfields \<Rightarrow> jrow \<Rightarrow> jrow" where
  "set_cols fs r = fold set_col fs r"

definition field_get :: "jfields \<Rightarrow> jcol \<Rightarrow> string option" where
  "field_get fs c = (case map_of fs c of None \<Rightarrow> None | Some v \<Rightarrow> v)"

text \<open>A new row: every column the INSERT does not name is NULL.\<close>

definition blank_row :: "stage \<Rightarrow> string \<Rightarrow> pcol \<Rightarrow> jrow" where
  "blank_row s when p =
     \<lparr>jr_issueid = None, jr_provider = None, jr_downloader_type = None, jr_nzbname = None,
      jr_hash = None, jr_stage = s, jr_rank = STAGE_RANK s, jr_payload = p,
      jr_fail_reason = None, jr_updated = when, jr_status = None, jr_retry_count = None\<rparr>"

section \<open>The library rows a completed grab is checked against\<close>

record lrow =
  lr_issueid :: string
  lr_comicid :: "string option"
  lr_status :: "string option"
  lr_location :: "string option"
  lr_deleted :: "int option"

record crow =
  cr_comicid :: string
  cr_location :: "string option"
  cr_retained :: "string list"

text \<open>
  \<open>verified loc file retained\<close> stands for \<open>has_verified_library_file\<close>, a question to the file
  system; \<open>cr_retained\<close> is what \<open>retained_locations\<close> reads off the series row.
\<close>

record jenv =
  je_loads :: "string \<Rightarrow> pval option"
  je_issues :: "lrow list"
  je_annuals :: "lrow list"
  je_storyarcs :: "lrow list"
  je_comics :: "crow list"
  je_verified :: "string option \<Rightarrow> string option \<Rightarrow> string list \<Rightarrow> bool"

definition library_row :: "jenv \<Rightarrow> string \<Rightarrow> lrow option" where
  "library_row e iid =
     (case find (\<lambda>r. lr_issueid r = iid \<and> lr_comicid r \<noteq> None) (je_issues e) of
        Some r \<Rightarrow> Some r
      | None \<Rightarrow>
     (case find (\<lambda>r. lr_issueid r = iid \<and> lr_deleted r \<noteq> Some 1) (je_annuals e) of
        Some r \<Rightarrow> Some r
      | None \<Rightarrow>
     (case find (\<lambda>r. lr_issueid r = iid) (je_storyarcs e) of
        Some r \<Rightarrow> Some r
      | None \<Rightarrow> find (\<lambda>r. lr_issueid r = iid) (je_issues e))))"

definition library_holds_issue :: "jenv \<Rightarrow> string option \<Rightarrow> bool" where
  "library_holds_issue e issueid =
     (if \<not> present issueid then True
      else case library_row e (the issueid) of
        None \<Rightarrow> True
      | Some r \<Rightarrow>
          if lr_status r \<notin> {Some ''Downloaded'', Some ''Archived''} then False
          else (case find (\<lambda>c. cr_comicid c = (case lr_comicid r of None \<Rightarrow> [] | Some x \<Rightarrow> x))
                          (je_comics e) of
              None \<Rightarrow> True
            | Some c \<Rightarrow> je_verified e (cr_location c) (lr_location r) (cr_retained c)))"

definition is_resolved :: "string option \<Rightarrow> bool" where
  "is_resolved st = (case st of None \<Rightarrow> False | Some s \<Rightarrow> s \<in> set RESOLVED_STATUSES)"

text \<open>\<open>_supersedable_terminal_predicate\<close> on a row, and its Python mirror.\<close>

definition supersedable_terminal_predicate :: "bool \<Rightarrow> jrow \<Rightarrow> bool" where
  "supersedable_terminal_predicate allow_post_processed r \<longleftrightarrow>
     jr_stage r = Failed
     \<or> (jr_stage r = Manual_review \<and> is_resolved (jr_status r))
     \<or> (allow_post_processed \<and> jr_stage r = Post_processed)"

definition is_supersedable_terminal :: "jenv \<Rightarrow> jrow \<Rightarrow> bool" where
  "is_supersedable_terminal e r =
     (if jr_stage r = Failed then True
      else if jr_stage r = Manual_review \<and> is_resolved (jr_status r) then True
      else if jr_stage r = Post_processed then \<not> library_holds_issue e (jr_issueid r)
      else False)"

section \<open>The state the operations share\<close>

text \<open>The table, the reconciliation calls made for quarantined rows, the narrated activity.\<close>

record obligation =
  ob_reason :: string
  ob_issueid :: "string option"
  ob_provider :: "string option"
  ob_nzbname :: "string option"
  ob_hash :: "string option"

record aevent =
  ae_stage :: stage
  ae_key :: string
  ae_issueid :: "string option"
  ae_provider :: "string option"
  ae_reason :: "string option"
  ae_prior_rank :: "int option"

record jstate =
  js_rows :: "jrow dict"
  js_obligations :: "obligation list"
  js_activity :: "aevent list"

datatype jerror = JValueError | JTypeError | JOperationalError

definition js_row :: "jstate \<Rightarrow> string \<Rightarrow> jrow option" where
  "js_row s k = dict_get (js_rows s) k"

definition js_put :: "string \<Rightarrow> jrow \<Rightarrow> jstate \<Rightarrow> jstate" where
  "js_put k r s = s\<lparr>js_rows := dict_set k r (js_rows s)\<rparr>"

section \<open>One transition\<close>

text \<open>The columns an advance writes; \<open>payload_json\<close> is never absent, since the merge of two
  payloads is always a dictionary.\<close>

definition advance_row :: "stage \<Rightarrow> string \<Rightarrow> jfields \<Rightarrow> pcol \<Rightarrow> jrow \<Rightarrow> jrow" where
  "advance_row st when fs pj r =
     set_cols fs (r\<lparr>jr_stage := st, jr_rank := STAGE_RANK st, jr_updated := when, jr_payload := pj\<rparr>)"

text \<open>
  \<open>_try_reset_terminal_attempt\<close>.  The UPDATE is built as
  \<open>.values(fail_reason=None, status=None, hash=None, **upd_values)\<close>: a field of one of these
  three names is a duplicate keyword, a \<open>TypeError\<close> raised before the statement runs.
\<close>

definition try_reset_terminal_attempt ::
  "jenv \<Rightarrow> jstate \<Rightarrow> string \<Rightarrow> stage \<Rightarrow> string \<Rightarrow> jfields \<Rightarrow> pcol \<Rightarrow> jerror + bool \<times> jstate" where
  "try_reset_terminal_attempt e s key st when fs pj =
     (if st \<notin> set RESNATCH_STAGES then Inr (False, s)
      else let prev = js_row s key;
               allow = (case prev of None \<Rightarrow> False
                        | Some r \<Rightarrow> jr_stage r = Post_processed
                                     \<and> \<not> library_holds_issue e (jr_issueid r))
      in if \<exists>c \<in> fst ` set fs. c \<in> {CFail_reason, CStatus, CHash} then Inl JTypeError
         else case prev of
             Some r \<Rightarrow> if supersedable_terminal_predicate allow r
                       then Inr (True, js_put key (advance_row st when fs pj
                              (r\<lparr>jr_fail_reason := None, jr_status := None, jr_hash := None\<rparr>)) s)
                       else Inr (False, s)
           | None \<Rightarrow> Inr (False, s))"

text \<open>The identity columns a transition may not change, compared as \<open>str()\<close>.\<close>

definition col_clash :: "jfields \<Rightarrow> jrow \<Rightarrow> jcol \<Rightarrow> bool" where
  "col_clash fs r c =
     (let incoming = field_get fs c; current = get_col c r in
      present incoming \<and> present current
      \<and> \<not> (if c = CProvider then normalize_provider incoming = normalize_provider current
           else incoming = current))"

definition col_name :: "jcol \<Rightarrow> string" where
  "col_name c = (case c of CIssueid \<Rightarrow> ''issueid'' | CProvider \<Rightarrow> ''provider''
     | CDownloader_type \<Rightarrow> ''downloader_type'' | CNzbname \<Rightarrow> ''nzbname'' | CHash \<Rightarrow> ''hash''
     | CFail_reason \<Rightarrow> ''fail_reason'' | CStatus \<Rightarrow> ''status'')"

definition field_conflict :: "bool \<Rightarrow> jfields \<Rightarrow> jrow \<Rightarrow> string option" where
  "field_conflict new_attempt fs r =
     map_option col_name (find (col_clash fs r)
       (if new_attempt then [CIssueid, CProvider]
        else [CIssueid, CProvider, CDownloader_type, CHash]))"

definition RESET_KEYS :: "string list" where
  "RESET_KEYS = [''issueid'', ''comicid'', ''provider'', ''nzbname'', ''comicname'',
                 ''issuenumber'', ''mode'']"

definition existing_payload :: "jenv \<Rightarrow> jrow option \<Rightarrow> payload option" where
  "existing_payload e row =
     (case row of None \<Rightarrow> None
      | Some r \<Rightarrow> sanitize_payload (je_loads e) (load_payload (jr_payload r)))"

definition kept_payload :: "bool \<Rightarrow> payload option \<Rightarrow> payload option" where
  "kept_payload new_attempt p =
     (if new_attempt
      then Some (filter (\<lambda>(k, v). k \<in> set RESET_KEYS) (case p of None \<Rightarrow> [] | Some d \<Rightarrow> d))
      else p)"

definition quarantine_row :: "string \<Rightarrow> string \<Rightarrow> payload option \<Rightarrow> jrow \<Rightarrow> jrow" where
  "quarantine_row when reason p r =
     r\<lparr>jr_stage := Manual_review, jr_rank := STAGE_RANK Manual_review,
       jr_status := Some ''manual_review'', jr_fail_reason := Some reason,
       jr_updated := when, jr_payload := dump_payload p\<rparr>"

definition quarantine ::
  "jstate \<Rightarrow> string \<Rightarrow> jrow \<Rightarrow> string \<Rightarrow> string \<Rightarrow> jfields \<Rightarrow> payload option \<Rightarrow> jstate" where
  "quarantine s key r conflict when fs p =
     (if is_terminal (jr_stage r) then s
      else let reason = ''immutable_payload_conflict:'' @ conflict in
        (js_put key (quarantine_row when reason p r) s)
          \<lparr>js_obligations := js_obligations s @
             [\<lparr>ob_reason = reason,
               ob_issueid = py_or (jr_issueid r) (field_get fs CIssueid),
               ob_provider = py_or (jr_provider r) (field_get fs CProvider),
               ob_nzbname = py_or (jr_nzbname r) (field_get fs CNzbname),
               ob_hash = py_or (jr_hash r) (field_get fs CHash)\<rparr>]\<rparr>)"

text \<open>The guarded UPDATE \<open>WHERE release_key = key AND stage NOT IN terminal AND stage_rank < new\<close>.\<close>

definition guarded_advance ::
  "jstate \<Rightarrow> string \<Rightarrow> stage \<Rightarrow> string \<Rightarrow> jfields \<Rightarrow> pcol \<Rightarrow> bool \<times> jstate" where
  "guarded_advance s key st when fs pj =
     (case js_row s key of
        Some r \<Rightarrow> if \<not> is_terminal (jr_stage r) \<and> jr_rank r < STAGE_RANK st
                  then (True, js_put key (advance_row st when fs pj r) s) else (False, s)
      | None \<Rightarrow> (False, s))"

text \<open>
  The INSERT of a key that was absent a moment ago.  \<open>race\<close> is the row a concurrent writer
  committed in between, if any: the INSERT then fails with \<open>IntegrityError\<close> and the call falls
  back to the guarded UPDATE and to the reset.
\<close>

definition insert_or_race ::
  "jenv \<Rightarrow> jrow option \<Rightarrow> jstate \<Rightarrow> string \<Rightarrow> stage \<Rightarrow> string \<Rightarrow> jfields \<Rightarrow> pcol
   \<Rightarrow> jerror + bool \<times> jstate" where
  "insert_or_race e race s key st when fs pj =
     (case race of
        None \<Rightarrow> Inr (True, js_put key (set_cols fs (blank_row st when pj)) s)
      | Some r \<Rightarrow>
          let s' = js_put key r s in
          (case guarded_advance s' key st when fs pj of
             (True, t) \<Rightarrow> Inr (True, t)
           | (False, t) \<Rightarrow> try_reset_terminal_attempt e t key st when fs pj))"

text \<open>\<open>_apply_transition\<close>, cut where the code returns: the new attempt and its payload, the first
  conflict, the same-rank enrichment, the guarded advance with the reset behind it.\<close>

definition new_attempt :: "jenv \<Rightarrow> jrow \<Rightarrow> stage \<Rightarrow> bool" where
  "new_attempt e r st \<longleftrightarrow> is_supersedable_terminal e r \<and> st \<in> set RESNATCH_STAGES"

definition transition_payload :: "jenv \<Rightarrow> jrow \<Rightarrow> stage \<Rightarrow> payload option" where
  "transition_payload e r st = kept_payload (new_attempt e r st) (existing_payload e (Some r))"

definition transition_conflict ::
  "jenv \<Rightarrow> jrow \<Rightarrow> stage \<Rightarrow> jfields \<Rightarrow> payload option \<Rightarrow> string option" where
  "transition_conflict e r st fs payload =
     (case snd (merge_payload (transition_payload e r st) payload) of
        Some c \<Rightarrow> Some c
      | None \<Rightarrow> field_conflict (new_attempt e r st) fs r)"

definition enrich_same_stage ::
  "jstate \<Rightarrow> string \<Rightarrow> jrow \<Rightarrow> string \<Rightarrow> pcol \<Rightarrow> pcol \<Rightarrow> bool \<times> jstate" where
  "enrich_same_stage s key r when previous_json pj =
     (if is_terminal (jr_stage r) then (False, s)
      else if pj \<noteq> previous_json
      then (False, js_put key (r\<lparr>jr_payload := pj, jr_updated := when\<rparr>) s)
      else (False, s))"

definition advance_or_reset ::
  "jenv \<Rightarrow> jstate \<Rightarrow> string \<Rightarrow> jrow \<Rightarrow> stage \<Rightarrow> string \<Rightarrow> jfields \<Rightarrow> pcol \<Rightarrow> jerror + bool \<times> jstate" where
  "advance_or_reset e s key r st when fs pj =
     (case guarded_advance s key st when fs pj of
        (True, t) \<Rightarrow> Inr (True, t)
      | (False, t) \<Rightarrow>
          if jr_stage r \<in> set SUPERSEDABLE_TERMINALS \<or> jr_stage r = Post_processed
          then try_reset_terminal_attempt e s key st when fs pj
          else Inr (False, s))"

definition transition_existing ::
  "jenv \<Rightarrow> jstate \<Rightarrow> string \<Rightarrow> jrow \<Rightarrow> stage \<Rightarrow> jfields \<Rightarrow> payload option \<Rightarrow> string
   \<Rightarrow> jerror + bool \<times> jstate" where
  "transition_existing e s key r st fs payload when =
     (let kept = transition_payload e r st;
          pj = dump_payload (Some (fst (merge_payload kept payload)))
      in case transition_conflict e r st fs payload of
           Some c \<Rightarrow> Inr (False, quarantine s key r c when fs kept)
         | None \<Rightarrow>
             if jr_rank r = STAGE_RANK st
             then Inr (enrich_same_stage s key r when (dump_payload kept) pj)
             else advance_or_reset e s key r st when fs pj)"

definition apply_transition ::
  "jenv \<Rightarrow> jrow option \<Rightarrow> jstate \<Rightarrow> string \<Rightarrow> stage \<Rightarrow> jfields \<Rightarrow> payload option \<Rightarrow> string
   \<Rightarrow> jerror + bool \<times> jstate" where
  "apply_transition e race s key st fs payload when =
     (case js_row s key of
        None \<Rightarrow> insert_or_race e race s key st when fs
                  (dump_payload (Some (fst (merge_payload None payload))))
      | Some r \<Rightarrow> transition_existing e s key r st fs payload when)"

section \<open>Recording a transition\<close>

text \<open>The narration of a won advance: field, then prior row, then payload.\<close>

definition activity_event ::
  "stage \<Rightarrow> string \<Rightarrow> jfields \<Rightarrow> payload option \<Rightarrow> jrow option \<Rightarrow> aevent" where
  "activity_event st key fs payload prior =
     (let pp = (\<lambda>k. case payload of None \<Rightarrow> None | Some d \<Rightarrow> pv_text (pv_get d k));
          pick = (\<lambda>c old k. let a = (if present (field_get fs c) then field_get fs c else old)
                            in if present a then a else (if payload = None then a else pp k))
      in \<lparr>ae_stage = st, ae_key = key,
          ae_issueid = pick CIssueid (Option.bind prior jr_issueid) ''issueid'',
          ae_provider = pick CProvider (Option.bind prior jr_provider) ''provider'',
          ae_reason = field_get fs CFail_reason,
          ae_prior_rank = map_option jr_rank prior\<rparr>)"

text \<open>\<open>record_transition\<close> inside a caller's transaction.  \<open>stage\<close> is the string the caller gave.\<close>

definition record_transition ::
  "jenv \<Rightarrow> jrow option \<Rightarrow> jstate \<Rightarrow> string \<Rightarrow> string \<Rightarrow> pval \<Rightarrow> jfields \<Rightarrow> string
   \<Rightarrow> jerror + bool \<times> jstate" where
  "record_transition e race s key stage payload fs when =
     (case stage_of_string stage of
        None \<Rightarrow> Inl JValueError
      | Some st \<Rightarrow>
          let p = sanitize_payload (je_loads e) payload in
          (case apply_transition e race s key st fs p when of
             Inl err \<Rightarrow> Inl err
           | Inr (won, t) \<Rightarrow>
               Inr (won, if won
                    then t\<lparr>js_activity := js_activity t @ [activity_event st key fs p (js_row s key)]\<rparr>
                    else t)))"

text \<open>
  \<open>record_transition\<close> in a transaction of its own.  \<open>attempts\<close> says, attempt by attempt, whether
  the database raised \<open>OperationalError\<close> (with "locked" in its text, or another one); the list is
  read up to five entries, a missing entry is a healthy database.
\<close>

datatype attempt = AHealthy | ALocked | ABroken

fun own_attempts :: "nat \<Rightarrow> attempt list \<Rightarrow> jerror + 'a \<Rightarrow> jerror + 'a" where
  "own_attempts 0 as body = Inl JOperationalError"
| "own_attempts (Suc n) [] body = body"
| "own_attempts (Suc n) (AHealthy # as) body = body"
| "own_attempts (Suc n) (ALocked # as) body = own_attempts n as body"
| "own_attempts (Suc n) (ABroken # as) body = Inl JOperationalError"

definition record_transition_own ::
  "jenv \<Rightarrow> attempt list \<Rightarrow> jrow option \<Rightarrow> jstate \<Rightarrow> string \<Rightarrow> string \<Rightarrow> pval \<Rightarrow> jfields \<Rightarrow> string
   \<Rightarrow> jerror + bool \<times> jstate" where
  "record_transition_own e as race s key stage payload fs when =
     (case stage_of_string stage of
        None \<Rightarrow> Inl JValueError
      | Some _ \<Rightarrow> own_attempts 5 as (record_transition e race s key stage payload fs when))"

text \<open>A call that raised changed nothing: the transaction is rolled back.\<close>

definition outcome :: "jstate \<Rightarrow> (jerror + bool \<times> jstate) \<Rightarrow> bool \<times> jstate" where
  "outcome s r = (case r of Inl _ \<Rightarrow> (False, s) | Inr x \<Rightarrow> x)"

definition mark_failed ::
  "jenv \<Rightarrow> jrow option \<Rightarrow> jstate \<Rightarrow> string \<Rightarrow> string option \<Rightarrow> pval \<Rightarrow> jfields \<Rightarrow> string
   \<Rightarrow> jerror + bool \<times> jstate" where
  "mark_failed e race s key reason payload fs when =
     record_transition e race s key ''failed'' payload ((CFail_reason, reason) # fs) when"

definition mark_done ::
  "jenv \<Rightarrow> jrow option \<Rightarrow> jstate \<Rightarrow> string \<Rightarrow> pval \<Rightarrow> jfields \<Rightarrow> string
   \<Rightarrow> jerror + bool \<times> jstate" where
  "mark_done e race s key payload fs when =
     record_transition e race s key ''post_processed'' payload fs when"

definition mark_manual_review ::
  "jenv \<Rightarrow> jrow option \<Rightarrow> jstate \<Rightarrow> string \<Rightarrow> string \<Rightarrow> pval \<Rightarrow> jfields \<Rightarrow> string
   \<Rightarrow> jerror + bool \<times> jstate" where
  "mark_manual_review e race s key reason payload fs when =
     record_transition e race s key ''manual_review'' payload
       ((CStatus, Some ''manual_review'') # (CFail_reason, Some (take 1000 reason)) # fs) when"

section \<open>Reading\<close>

definition read_one :: "jstate \<Rightarrow> string \<Rightarrow> jrow option" where
  "read_one s key = js_row s key"

text \<open>\<open>ORDER BY updated_date\<close>: text order on the stored time stamps, ties in table order.\<close>

fun str_le :: "string \<Rightarrow> string \<Rightarrow> bool" where
  "str_le [] t = True"
| "str_le (c # s) [] = False"
| "str_le (c # s) (d # t) =
     ((of_char c :: nat) < of_char d \<or> (c = d \<and> str_le s t))"

fun insert_by_date :: "string \<times> jrow \<Rightarrow> (string \<times> jrow) list \<Rightarrow> (string \<times> jrow) list" where
  "insert_by_date x [] = [x]"
| "insert_by_date x (y # ys) =
     (if str_le (jr_updated (snd x)) (jr_updated (snd y)) then x # y # ys
      else y # insert_by_date x ys)"

definition read_open :: "jstate \<Rightarrow> (string \<times> jrow) list" where
  "read_open s =
     foldr insert_by_date (filter (\<lambda>(k, r). jr_stage r \<in> set OPEN_STAGES) (js_rows s)) []"

section \<open>The writes outside the forward lattice\<close>

text \<open>\<open>reopen_false_terminal\<close>: the one backward write, gated on exactly \<open>post_processed\<close>.\<close>

definition reopen_false_terminal :: "jstate \<Rightarrow> string \<Rightarrow> string \<Rightarrow> bool \<times> jstate" where
  "reopen_false_terminal s key when =
     (if key = [] then (False, s)
      else case js_row s key of
        Some r \<Rightarrow> if jr_stage r = Post_processed
          then (True, js_put key (r\<lparr>jr_stage := Snatched, jr_rank := STAGE_RANK Snatched,
                  jr_status := None, jr_fail_reason := None, jr_updated := when\<rparr>) s)
          else (False, s)
      | None \<Rightarrow> (False, s))"

text \<open>\<open>stamp_resolution\<close>: an operator's status on a band row, at most once; stage and rank stay.\<close>

definition stamp_resolution ::
  "jstate \<Rightarrow> string \<Rightarrow> string \<Rightarrow> bool \<Rightarrow> string \<Rightarrow> jerror + bool \<times> jstate" where
  "stamp_resolution s key status increment_retry when =
     (if status \<notin> set RESOLVED_STATUSES then Inl JValueError
      else if key = [] then Inr (False, s)
      else case js_row s key of
        None \<Rightarrow> Inr (False, s)
      | Some r \<Rightarrow>
          if jr_stage r \<notin> set BAND_STAGES then Inr (False, s)
          else if is_resolved (jr_status r) then Inr (False, s)
          else Inr (True, js_put key (r\<lparr>jr_status := Some status, jr_updated := when,
                 jr_retry_count := (if increment_retry
                   then Some ((case jr_retry_count r of None \<Rightarrow> 0 | Some n \<Rightarrow> n) + 1)
                   else jr_retry_count r)\<rparr>) s))"

text \<open>\<open>migrate_release_key_provider_format\<close>: the provider segment of every stored key through the
  current normaliser; a key whose new form is already taken is left alone.\<close>

definition migrated_key :: "string \<Rightarrow> string option" where
  "migrated_key key =
     (let parts = py_split CHR ''|'' key in
      case parts of
        p0 # p1 # rest \<Rightarrow>
          let new = normalize_provider (Some p1) in
          if new = p1 then None else Some (py_join CHR ''|'' (p0 # new # rest))
      | _ \<Rightarrow> None)"

definition migrate_renames :: "jstate \<Rightarrow> (string \<times> string) list" where
  "migrate_renames s =
     List.map_filter (\<lambda>k. map_option (\<lambda>n. (k, n)) (migrated_key k)) (map fst (js_rows s))"

definition rename_key :: "string \<Rightarrow> string \<Rightarrow> jstate \<Rightarrow> jstate" where
  "rename_key old new s =
     s\<lparr>js_rows := map (\<lambda>(k, r). (if k = old then new else k, r)) (js_rows s)\<rparr>"

fun migrate_loop :: "(string \<times> string) list \<Rightarrow> nat \<times> jstate \<Rightarrow> nat \<times> jstate" where
  "migrate_loop [] (n, s) = (n, s)"
| "migrate_loop ((old, new) # rest) (n, s) =
     (if js_row s new \<noteq> None then migrate_loop rest (n, s)
      else migrate_loop rest
             (if js_row s old \<noteq> None then Suc n else n, rename_key old new s))"

definition migrate_release_key_provider_format :: "jstate \<Rightarrow> nat \<times> jstate" where
  "migrate_release_key_provider_format s = migrate_loop (migrate_renames s) (0, s)"

end
