(* ===== verification/JournalInv.thy ===== *)
theory JournalInv
  imports Journal
begin

text \<open>
  What the journal promises.  Every stored row is well formed (its rank column is the rank of its
  stage), transitions only move a row forward, a terminal row is closed to everything but a new
  submission that may supersede it, and of the callers that claim one advance only one wins.
\<close>

named_theorems journal_defs \<open>definitions a case analysis of one transition unfolds\<close>

section \<open>The table\<close>

lemma js_row_put [simp]: "js_row (js_put k r s) j = (if j = k then Some r else js_row s j)"
  by (simp add: js_row_def js_put_def dict_get_set)

lemma js_rows_extend [simp]:
  "js_row (s\<lparr>js_obligations := x\<rparr>) k = js_row s k"
  "js_row (s\<lparr>js_activity := y\<rparr>) k = js_row s k"
  by (simp_all add: js_row_def)

lemma set_col_frame [simp]:
  "jr_stage (set_col c r) = jr_stage r" "jr_rank (set_col c r) = jr_rank r"
  "jr_payload (set_col c r) = jr_payload r" "jr_updated (set_col c r) = jr_updated r"
  by (cases c; cases "fst c"; simp)+

lemma set_cols_frame [simp]:
  "jr_stage (set_cols fs r) = jr_stage r" "jr_rank (set_cols fs r) = jr_rank r"
  "jr_payload (set_cols fs r) = jr_payload r" "jr_updated (set_cols fs r) = jr_updated r"
  unfolding set_cols_def by (induction fs arbitrary: r) simp_all

lemma advance_row_simps [simp]:
  "jr_stage (advance_row st when fs pj r) = st"
  "jr_rank (advance_row st when fs pj r) = STAGE_RANK st"
  "jr_payload (advance_row st when fs pj r) = pj"
  by (simp_all add: advance_row_def)

lemma blank_row_simps [simp]:
  "jr_stage (blank_row st when pj) = st" "jr_rank (blank_row st when pj) = STAGE_RANK st"
  by (simp_all add: blank_row_def)

section \<open>Well-formed journals\<close>

definition row_wf :: "jrow \<Rightarrow> bool" where
  "row_wf r \<longleftrightarrow> jr_rank r = STAGE_RANK (jr_stage r)"

definition journal_wf :: "jstate \<Rightarrow> bool" where
  "journal_wf s \<longleftrightarrow> dict_ok (js_rows s) \<and> (\<forall>k r. js_row s k = Some r \<longrightarrow> row_wf r)"

lemma journal_wfD: "journal_wf s \<Longrightarrow> js_row s k = Some r \<Longrightarrow> jr_rank r = STAGE_RANK (jr_stage r)"
  by (auto simp: journal_wf_def row_wf_def)

lemma row_wf_simps [simp]:
  "row_wf (advance_row st when fs pj r)"
  "row_wf (set_cols fs (blank_row st when pj))"
  "row_wf (quarantine_row reason when p r)"
  by (simp_all add: row_wf_def quarantine_row_def)

lemma js_rows_put: "js_rows (js_put k r s) = dict_set k r (js_rows s)"
  by (simp add: js_put_def)

lemma journal_wf_put: "journal_wf s \<Longrightarrow> row_wf r \<Longrightarrow> journal_wf (js_put k r s)"
  by (simp add: journal_wf_def js_rows_put)

lemma journal_wf_extend [simp]:
  "journal_wf (s\<lparr>js_obligations := x\<rparr>) = journal_wf s"
  "journal_wf (s\<lparr>js_activity := y\<rparr>) = journal_wf s"
  by (simp_all add: journal_wf_def)

section \<open>The possible effects of one transition\<close>

text \<open>
  \<open>effect e s key st won t\<close> lists, as one relation, all a transition to \<open>st\<close> can do to the row of
  \<open>key\<close>.  The properties below are case analyses of it.
\<close>

inductive row_effect :: "jenv \<Rightarrow> stage \<Rightarrow> jrow option \<Rightarrow> bool \<Rightarrow> jrow option \<Rightarrow> bool"
  for e :: jenv and st :: stage where
  eff_none: "row_effect e st x False x"
| eff_insert: "jr_stage r = st \<Longrightarrow> row_wf r \<Longrightarrow> row_effect e st None True (Some r)"
| eff_advance: "\<not> is_terminal (jr_stage q) \<Longrightarrow> jr_rank q < STAGE_RANK st \<Longrightarrow>
    jr_stage r = st \<Longrightarrow> row_wf r \<Longrightarrow> row_effect e st (Some q) True (Some r)"
| eff_reset: "st \<in> set RESNATCH_STAGES \<Longrightarrow> is_supersedable_terminal e q \<Longrightarrow>
    jr_stage r = st \<Longrightarrow> row_wf r \<Longrightarrow> row_effect e st (Some q) True (Some r)"
| eff_enrich: "\<not> is_terminal (jr_stage q) \<Longrightarrow> jr_stage r = jr_stage q \<Longrightarrow> jr_rank r = jr_rank q \<Longrightarrow>
    row_effect e st (Some q) False (Some r)"
| eff_quarantine: "\<not> is_terminal (jr_stage q) \<Longrightarrow> jr_stage r = Manual_review \<Longrightarrow>
    jr_status r = Some ''manual_review'' \<Longrightarrow> row_wf r \<Longrightarrow>
    row_effect e st (Some q) False (Some r)"

inductive_cases effect_from_none: "row_effect e st None w y"
inductive_cases effect_from_some: "row_effect e st (Some q) w y"
inductive_cases effect_won: "row_effect e st x True y"

definition only_key :: "string \<Rightarrow> jstate \<Rightarrow> jstate \<Rightarrow> bool" where
  "only_key k s t \<longleftrightarrow> (\<forall>j. j \<noteq> k \<longrightarrow> js_row t j = js_row s j)
     \<and> (dict_ok (js_rows s) \<longrightarrow> dict_ok (js_rows t))"

lemma only_key_refl [simp]: "only_key k s s"
  by (simp add: only_key_def)

lemma only_key_put [simp]: "only_key k s (js_put k r s)"
  by (simp add: only_key_def) (simp add: js_put_def)

lemma only_key_extend [simp]:
  "only_key k s (t\<lparr>js_obligations := x\<rparr>) = only_key k s t"
  "only_key k s (t\<lparr>js_activity := y\<rparr>) = only_key k s t"
  by (simp_all add: only_key_def)

lemma predicate_mirror:
  "supersedable_terminal_predicate
     (jr_stage r = Post_processed \<and> \<not> library_holds_issue e (jr_issueid r)) r
   = is_supersedable_terminal e r"
  by (auto simp: supersedable_terminal_predicate_def is_supersedable_terminal_def)

lemma try_reset_effect:
  assumes "try_reset_terminal_attempt e s key st when fs pj = Inr (won, t)"
  shows "row_effect e st (js_row s key) won (js_row t key) \<and> only_key key s t"
  using assms
  by (cases "js_row s key")
    (auto simp: try_reset_terminal_attempt_def Let_def predicate_mirror
      intro: eff_none intro!: eff_reset split: if_splits)

lemma guarded_advance_effect:
  assumes "guarded_advance s key st when fs pj = (won, t)"
  shows "row_effect e st (js_row s key) won (js_row t key) \<and> only_key key s t"
  using assms
  by (cases "js_row s key")
    (auto simp: guarded_advance_def intro: eff_none intro!: eff_advance split: if_splits)

lemma guarded_advance_lost: "guarded_advance s key st when fs pj = (False, t) \<Longrightarrow> t = s"
  by (auto simp: guarded_advance_def split: option.splits if_splits)

lemma quarantine_effect:
  assumes "js_row s key = Some r"
  shows "row_effect e st (js_row s key) False (js_row (quarantine s key r c when fs p) key)
         \<and> only_key key s (quarantine s key r c when fs p)"
proof (cases "is_terminal (jr_stage r)")
  case True
  then show ?thesis by (simp add: quarantine_def eff_none)
next
  case False
  then have "row_effect e st (Some r) False (Some (quarantine_row when reason p r))" for reason
    by (rule eff_quarantine) (simp_all add: quarantine_row_def row_wf_def)
  with assms False show ?thesis by (simp add: quarantine_def Let_def)
qed

lemma enrich_effect:
  assumes "js_row s key = Some r" and "enrich_same_stage s key r when a b = (won, t)"
  shows "row_effect e st (js_row s key) won (js_row t key) \<and> only_key key s t"
  using assms
proof (cases "is_terminal (jr_stage r)")
  case True
  with assms show ?thesis by (auto simp: enrich_same_stage_def intro: eff_none)
next
  case False
  then have "row_effect e st (Some r) False (Some (r\<lparr>jr_payload := b, jr_updated := d\<rparr>))" for d
    by (intro eff_enrich) simp_all
  with False assms show ?thesis
    by (auto simp: enrich_same_stage_def intro: eff_none split: if_splits)
qed

lemma advance_or_reset_effect:
  assumes "advance_or_reset e s key r st when fs pj = Inr (won, t)"
  shows "row_effect e st (js_row s key) won (js_row t key) \<and> only_key key s t"
proof -
  obtain w u where ga: "guarded_advance s key st when fs pj = (w, u)" by force
  show ?thesis
    using assms ga guarded_advance_effect [OF ga, of e] try_reset_effect [of e s key st "when" fs pj won t]
    by (cases w) (auto simp: advance_or_reset_def intro: eff_none split: if_splits)
qed

lemma apply_transition_effect:
  assumes "apply_transition e None s key st fs p when = Inr (won, t)"
  shows "row_effect e st (js_row s key) won (js_row t key) \<and> only_key key s t"
proof (cases "js_row s key")
  case None
  with assms have "won" and "t = js_put key (set_cols fs (blank_row st when
      (dump_payload (Some (fst (merge_payload None p)))))) s"
    by (simp_all add: apply_transition_def insert_or_race_def)
  with None show ?thesis by (auto intro!: eff_insert)
next
  case (Some r)
  with assms have body: "transition_existing e s key r st fs p when = Inr (won, t)"
    by (simp add: apply_transition_def)
  show ?thesis
  proof (cases "transition_conflict e r st fs p")
    case c: (Some c)
    with body quarantine_effect [OF Some] show ?thesis
      by (auto simp: transition_existing_def Let_def)
  next
    case None
    with body enrich_effect [OF Some, of "when"] advance_or_reset_effect show ?thesis
      by (auto simp: transition_existing_def Let_def split: if_splits)
  qed
qed

lemma record_transition_effect:
  assumes "record_transition e None s key stage p fs when = Inr (won, t)"
    and "stage_of_string stage = Some st"
  shows "row_effect e st (js_row s key) won (js_row t key) \<and> only_key key s t"
  using assms apply_transition_effect [of e s key st fs "sanitize_payload (je_loads e) p" "when"]
  by (auto simp: record_transition_def Let_def split: sum.splits if_splits)

section \<open>Consequences\<close>

lemma effect_wf: "row_effect e st x w y \<Longrightarrow> (\<forall>q. x = Some q \<longrightarrow> row_wf q) \<Longrightarrow> y = Some r \<Longrightarrow> row_wf r"
  by (induction rule: row_effect.induct) (auto simp: row_wf_def)

lemma only_key_wf:
  assumes "journal_wf s" and "only_key k s t"
    and "\<And>r. js_row t k = Some r \<Longrightarrow> row_wf r"
  shows "journal_wf t"
  unfolding journal_wf_def
proof (intro conjI allI impI)
  show "dict_ok (js_rows t)" using assms(1,2) by (simp add: journal_wf_def only_key_def)
  fix j r
  assume "js_row t j = Some r"
  then show "row_wf r" using assms by (cases "j = k") (auto simp: journal_wf_def only_key_def)
qed

lemma record_transition_wf:
  assumes "journal_wf s" and "record_transition e None s key stage p fs when = Inr (won, t)"
  shows "journal_wf t"
proof -
  obtain st where "stage_of_string stage = Some st"
    using assms(2) by (auto simp: record_transition_def split: option.splits)
  with assms(2) have eff: "row_effect e st (js_row s key) won (js_row t key)" and "only_key key s t"
    using record_transition_effect by blast+
  with assms(1) show ?thesis
    by (intro only_key_wf [of s key t]) (auto simp: journal_wf_def dest!: effect_wf)
qed

lemma terminal_effect:
  assumes "row_effect e st (Some q) w y" and "is_terminal (jr_stage q)"
    and "\<not> (st \<in> set RESNATCH_STAGES \<and> is_supersedable_terminal e q)"
  shows "\<not> w \<and> y = Some q"
  using assms by (auto elim!: effect_from_some)

lemma forward_effect:
  assumes "row_effect e st x w y" and "x = Some q" and "y = Some r" and "row_wf q"
    and "st \<notin> set RESNATCH_STAGES"
  shows "jr_stage q \<le> jr_stage r"
  using assms(1)
proof (cases rule: row_effect.cases)
  case (eff_advance q' r')
  then show ?thesis
    using assms by (simp add: STAGE_RANK_le [symmetric] row_wf_def)
next
  case (eff_quarantine q' r')
  then have "jr_stage q < Manual_review"
    using assms by (intro open_below_terminal) (simp_all add: is_terminal_def TERMINAL_STAGES_def)
  then show ?thesis using eff_quarantine assms by simp
qed (use assms in auto)

section \<open>Histories\<close>

text \<open>Any sequence of the module's writes; a call that raised is rolled back.\<close>

datatype jop =
    ORecord jenv string string pval jfields string
  | OStamp string string bool string
  | OReopen string string
  | OMigrate

fun jstep :: "jstate \<Rightarrow> jop \<Rightarrow> jstate" where
  "jstep s (ORecord e key stage p fs when) =
     snd (outcome s (record_transition e None s key stage p fs when))"
| "jstep s (OStamp key status inc when) = snd (outcome s (stamp_resolution s key status inc when))"
| "jstep s (OReopen key when) = snd (reopen_false_terminal s key when)"
| "jstep s OMigrate = snd (migrate_release_key_provider_format s)"

definition jrun :: "jop list \<Rightarrow> jstate \<Rightarrow> jstate" where
  "jrun ops s = foldl jstep s ops"

definition empty_journal :: jstate where
  "empty_journal = \<lparr>js_rows = [], js_obligations = [], js_activity = []\<rparr>"

lemma record_outcome_wf:
  "journal_wf s \<Longrightarrow> journal_wf (snd (outcome s (record_transition e None s key stage p fs when)))"
  using record_transition_wf [of s e key stage p fs "when"]
  by (cases "record_transition e None s key stage p fs when") (auto simp: outcome_def)

lemma stamp_wf: "journal_wf s \<Longrightarrow> journal_wf (snd (outcome s (stamp_resolution s key st inc when)))"
  by (auto simp: stamp_resolution_def outcome_def row_wf_def journal_wfD
      intro!: journal_wf_put split: option.splits)

lemma reopen_wf: "journal_wf s \<Longrightarrow> journal_wf (snd (reopen_false_terminal s key when))"
  by (auto simp: reopen_false_terminal_def row_wf_def intro!: journal_wf_put split: option.splits)

subsection \<open>Renaming keys\<close>

lemma keys_rename: "map fst (js_rows (rename_key a b s))
    = map (\<lambda>k. if k = a then b else k) (map fst (js_rows s))"
  by (auto simp: rename_key_def)

lemma rows_rename [simp]: "map snd (js_rows (rename_key a b s)) = map snd (js_rows s)"
  by (auto simp: rename_key_def)

lemma js_row_None: "js_row s k = None \<longleftrightarrow> k \<notin> set (map fst (js_rows s))"
  by (simp add: js_row_def dict_get_def map_of_eq_None_iff)

lemma dict_ok_rename:
  assumes "dict_ok (js_rows s)" and "js_row s b = None"
  shows "dict_ok (js_rows (rename_key a b s))"
proof -
  have "inj_on (\<lambda>k. if k = a then b else k) (set (map fst (js_rows s)))"
    using assms(2) unfolding js_row_None by (auto simp: inj_on_def)
  then have "distinct (map (\<lambda>k. if k = a then b else k) (map fst (js_rows s)))"
    using assms(1) by (subst distinct_map) (simp add: dict_ok_def)
  then show ?thesis by (simp only: dict_ok_def keys_rename)
qed

lemma js_row_snd: "js_row s k = Some r \<Longrightarrow> r \<in> set (map snd (js_rows s))"
  unfolding js_row_def dict_get_def by (auto dest!: map_of_SomeD intro: rev_image_eqI)

lemma migrate_loop_keeps:
  "dict_ok (js_rows s) \<Longrightarrow>
   dict_ok (js_rows (snd (migrate_loop rs (n, s))))
   \<and> map snd (js_rows (snd (migrate_loop rs (n, s)))) = map snd (js_rows s)"
proof (induction rs arbitrary: n s)
  case (Cons r rs)
  obtain old new where r: "r = (old, new)" by (cases r)
  show ?case
  proof (cases "js_row s new = None")
    case True
    with Cons.prems have "dict_ok (js_rows (rename_key old new s))" by (rule dict_ok_rename)
    with True r Cons.IH show ?thesis by simp
  next
    case False
    with Cons r show ?thesis by simp
  qed
qed simp

lemma rows_wf_iff:
  assumes "dict_ok (js_rows s)"
  shows "(\<forall>k r. js_row s k = Some r \<longrightarrow> row_wf r) \<longleftrightarrow> (\<forall>r \<in> set (map snd (js_rows s)). row_wf r)"
  using assms
  by (auto simp: js_row_def dict_get_def dict_ok_def dest: map_of_SomeD)

lemma migrate_wf: "journal_wf s \<Longrightarrow> journal_wf (snd (migrate_release_key_provider_format s))"
proof -
  assume wf: "journal_wf s"
  let ?t = "snd (migrate_loop (migrate_renames s) (0, s))"
  have ok: "dict_ok (js_rows s)" using wf by (simp add: journal_wf_def)
  then have t: "dict_ok (js_rows ?t)" "map snd (js_rows ?t) = map snd (js_rows s)"
    using migrate_loop_keeps by blast+
  have "\<forall>r \<in> set (map snd (js_rows s)). row_wf r"
    using wf rows_wf_iff [OF ok] by (simp add: journal_wf_def)
  then show ?thesis
    using t rows_wf_iff [OF t(1)]
    by (simp add: journal_wf_def migrate_release_key_provider_format_def)
qed

lemma jstep_wf: "journal_wf s \<Longrightarrow> journal_wf (jstep s op)"
  by (cases op) (simp_all add: record_outcome_wf stamp_wf reopen_wf migrate_wf)

lemma jrun_wf: "journal_wf s \<Longrightarrow> journal_wf (jrun ops s)"
  unfolding jrun_def by (induction ops arbitrary: s) (simp_all add: jstep_wf)

section \<open>Claims\<close>

definition claim_stage ::
  "jenv \<Rightarrow> string \<Rightarrow> string \<Rightarrow> pval \<Rightarrow> jfields \<Rightarrow> string \<Rightarrow> jstate \<Rightarrow> bool \<times> jstate" where
  "claim_stage e key stage p fs when s = outcome s (record_transition e None s key stage p fs when)"

text \<open>A row below a stage can still be advanced to it.\<close>

definition below_stage :: "string \<Rightarrow> stage \<Rightarrow> jstate \<Rightarrow> bool" where
  "below_stage key st s \<longleftrightarrow>
     (case js_row s key of None \<Rightarrow> True
      | Some r \<Rightarrow> \<not> is_terminal (jr_stage r) \<and> jr_rank r < STAGE_RANK st)"

text \<open>The moves that never bring a row of \<open>key\<close> back: everything but a new submission of the same
  key, the backfill and the key migration.\<close>

fun forward_op :: "string \<Rightarrow> jop \<Rightarrow> bool" where
  "forward_op key (ORecord e k stage p fs when) =
     (k \<noteq> key \<or> stage \<notin> {''reserved'', ''snatched''})"
| "forward_op key (OStamp k st inc when) = True"
| "forward_op key (OReopen k when) = (k \<noteq> key)"
| "forward_op key OMigrate = False"

lemma resnatch_string:
  "stage_of_string s = Some st \<Longrightarrow> st \<in> set RESNATCH_STAGES \<longleftrightarrow> s \<in> {''reserved'', ''snatched''}"
  by (auto simp: stage_of_string_def RESNATCH_STAGES_def split: if_splits)

lemma claim_stage_effect:
  assumes "stage_of_string stage = Some st"
  shows "row_effect e st (js_row s key) (fst (claim_stage e key stage p fs when s))
           (js_row (snd (claim_stage e key stage p fs when s)) key)
         \<and> only_key key s (snd (claim_stage e key stage p fs when s))"
  using record_transition_effect [OF _ assms, of e s key p fs "when"]
  by (cases "record_transition e None s key stage p fs when")
    (auto simp: claim_stage_def outcome_def intro: eff_none)

interpretation journal_claim:
  cas_claim "\<lambda>_. True" "claim_stage e key ''post_processing'' p fs when" "below_stage key Post_processing"
  for e key p fs "when"
proof (unfold_locales, rule TrueI)
  fix s
  have pp: "stage_of_string ''post_processing'' = Some Post_processing"
    by (simp add: stage_of_string_def)
  note eff = claim_stage_effect [OF pp, THEN conjunct1, of e s key p fs "when"]
  have nr: "Post_processing \<notin> set RESNATCH_STAGES" by (simp add: RESNATCH_STAGES_def)
  {
    assume w: "fst (claim_stage e key ''post_processing'' p fs when s)"
    show "below_stage key Post_processing s"
      using eff w nr by (auto simp: below_stage_def elim!: effect_won split: option.splits)
    show "\<not> below_stage key Post_processing (snd (claim_stage e key ''post_processing'' p fs when s))"
      using eff w nr by (auto simp: below_stage_def row_wf_def elim!: effect_won)
  next
    assume "\<not> fst (claim_stage e key ''post_processing'' p fs when s)"
      and "below_stage key Post_processing (snd (claim_stage e key ''post_processing'' p fs when s))"
    then show "below_stage key Post_processing s"
      using eff by (auto simp: below_stage_def is_terminal_def TERMINAL_STAGES_def
          elim!: row_effect.cases split: option.splits)
  }
qed

lemma closed_effect:
  assumes "row_effect e st x w y" and "st \<notin> set RESNATCH_STAGES"
    and "x = Some q" and "is_terminal (jr_stage q) \<or> \<not> jr_rank q < n"
  shows "\<exists>r. y = Some r \<and> (is_terminal (jr_stage r) \<or> \<not> jr_rank r < n)"
  using assms
  by (auto elim!: row_effect.cases simp: row_wf_def is_terminal_def TERMINAL_STAGES_def)

lemma forward_op_closed:
  assumes "forward_op key op" and "\<not> below_stage key st s"
  shows "\<not> below_stage key st (jstep s op)"
proof -
  obtain q where q: "js_row s key = Some q" "is_terminal (jr_stage q) \<or> \<not> jr_rank q < STAGE_RANK st"
    using assms(2) by (auto simp: below_stage_def split: option.splits)
  show ?thesis
  proof (cases op)
    case (ORecord e k stage p fs w)
    show ?thesis
    proof (cases "stage_of_string stage")
      case None
      then show ?thesis using ORecord assms(2) by (simp add: record_transition_def outcome_def)
    next
      case (Some st')
      note eff = claim_stage_effect [OF Some, of e s k p fs w]
      show ?thesis
      proof (cases "k = key")
        case True
        then have "st' \<notin> set RESNATCH_STAGES"
          using assms(1) ORecord resnatch_string [OF Some] by simp
        then obtain r where "js_row (snd (claim_stage e k stage p fs w s)) k = Some r"
          and "is_terminal (jr_stage r) \<or> \<not> jr_rank r < STAGE_RANK st"
          using closed_effect [OF conjunct1 [OF eff]] q True by blast
        then have "js_row (jstep s op) key = Some r"
          and "is_terminal (jr_stage r) \<or> \<not> jr_rank r < STAGE_RANK st"
          using ORecord True by (simp_all add: claim_stage_def)
        then show ?thesis by (auto simp: below_stage_def)
      next
        case False
        then have "js_row (jstep s op) key = js_row s key"
          using eff ORecord by (auto simp: only_key_def claim_stage_def)
        then show ?thesis using assms(2) by (simp add: below_stage_def)
      qed
    qed
  next
    case (OStamp k status inc w)
    then show ?thesis
      using q assms(2)
      by (auto simp: below_stage_def stamp_resolution_def outcome_def split: option.splits)
  next
    case (OReopen k w)
    then show ?thesis
      using assms by (auto simp: below_stage_def reopen_false_terminal_def split: option.splits)
  qed (use assms in simp)
qed

lemma forward_ops_keep_closed:
  "\<forall>op \<in> set ops. forward_op key op \<Longrightarrow> journal_claim.keeps_closed key (jrun ops)"
proof (induction ops)
  case Nil
  then show ?case by (simp add: journal_claim.keeps_closed_def jrun_def)
next
  case (Cons op ops)
  then show ?case
    using forward_op_closed [of key op Post_processing]
    by (simp add: journal_claim.keeps_closed_def jrun_def)
qed

end
