(* ===== verification/JournalKeyProps.thy ===== *)
theory JournalKeyProps
  imports JournalInv
begin

text \<open>
  Properties of the release key and of the payload a journal row persists: every seam of the
  pipeline that sees one submission derives the same key, two different library submissions never
  share one, and what is stored is bounded, survives a write and a read unchanged, and keeps the
  identity it was created with.
\<close>

section \<open>The release key\<close>

text \<open>The seams of the pipeline agree on the key: appending any sequence of RSS markers, newznab or
  torznab type labels and white space to the provider, or lower-casing it, leaves \<open>release_key\<close>
  unchanged, for library rows and one-offs alike.\<close>

theorem release_key_seams_agree:
  assumes "\<forall>d \<in> set ds. decoration d"
  shows "release_key sha iid (Some (p @ concat ds)) nzb h disc = release_key sha iid (Some p) nzb h disc
    \<and> release_key sha iid (Some (py_lower p)) nzb h disc = release_key sha iid (Some p) nzb h disc"
  using decorations_invisible [OF assms, of p] normalize_provider_lower [of p]
  by (simp_all add: release_key_def Let_def)

theorem release_key_seams_agree_witness:
  "release_key (\<lambda>_. []) (Some ''42'') (Some (''NZBgeek'' @ concat ['' (newznab)'', ''[RSS]'', ''  ''])) None None DNone
   = release_key (\<lambda>_. []) (Some ''42'') (Some ''NZBgeek'') None None DNone"
proof (rule conjunct1 [OF release_key_seams_agree])
  have "decoration ('' '' @ ''(newznab)'')"
    unfolding decoration_def
    by (intro disjI2 exI [of _ "'' ''"] exI [of _ "''(newznab)''"])
      (simp add: py_isspace_def type_label_def)
  then show "\<forall>d \<in> set ['' (newznab)'', ''[RSS]'', ''  '']. decoration d"
    by (simp add: decoration_def py_isspace_def)
qed

definition library_id :: "string \<Rightarrow> bool" where
  "library_id i \<longleftrightarrow> \<not> is_synthetic_oneoff (Some i) \<and> CHR ''|'' \<notin> set i"

lemma release_key_library:
  assumes "library_id i" and "\<not> py_in ''ddl'' (normalize_provider p)"
  shows "release_key sha (Some i) p nzb h disc = i @ ''|'' @ normalize_provider p"
  using assms by (simp add: release_key_def library_id_def Let_def)

lemma bar_split:
  "CHR ''|'' \<notin> set a \<Longrightarrow> CHR ''|'' \<notin> set b \<Longrightarrow> a @ ''|'' @ x = b @ ''|'' @ y \<longleftrightarrow> a = b \<and> x = y"
proof (induction a arbitrary: b)
  case Nil
  then show ?case by (cases b) auto
next
  case (Cons c a)
  then show ?case by (cases b) auto
qed

text \<open>For library issues on providers that are not direct-download sites the key separates exactly the
  submissions the table has to keep apart: two keys are equal if and only if the issue and the
  normalised provider are, whatever release name, hash and discriminant the callers pass.\<close>

theorem release_key_library_exact:
  assumes "library_id i" and "library_id j"
    and "\<not> py_in ''ddl'' (normalize_provider p)" and "\<not> py_in ''ddl'' (normalize_provider q)"
  shows "release_key sha (Some i) p n1 h1 d1 = release_key sha (Some j) q n2 h2 d2
     \<longleftrightarrow> i = j \<and> normalize_provider p = normalize_provider q"
  unfolding release_key_library [OF assms(1,3)] release_key_library [OF assms(2,4)]
  using assms(1,2) by (intro bar_split) (auto simp: library_id_def)

theorem release_key_library_exact_witness:
  "release_key (\<lambda>_. []) (Some ''42'') (Some ''NZBgeek'') (Some ''a'') None DNone
     = release_key (\<lambda>_. []) (Some ''42'') (Some ''nzbgeek [RSS]'') None (Some ''b'') DNone
   \<longleftrightarrow> ''42'' = (''42'' :: string)
     \<and> normalize_provider (Some ''NZBgeek'') = normalize_provider (Some ''nzbgeek [RSS]'')"
  by (rule release_key_library_exact; code_simp)

text \<open>A one-off never lands on a library issue's row: no key of a submission without a library issue
  (issue id absent or at or above the synthetic floor) equals a key of a library issue, unless that
  issue's id is literally the word that tags one-offs.\<close>

theorem release_key_oneoff_apart:
  assumes "library_id i" and "i \<noteq> ''oneoff''" and "is_synthetic_oneoff o1"
  shows "release_key sha o1 p n1 h1 d1 \<noteq> release_key sha (Some i) q n2 h2 d2"
proof -
  obtain x where x: "release_key sha o1 p n1 h1 d1 = ''oneoff'' @ ''|'' @ x"
    using assms(3) by (auto simp: release_key_def Let_def)
  have "\<exists>y. release_key sha (Some i) q n2 h2 d2 = i @ ''|'' @ y"
    using assms(1) by (simp add: release_key_def library_id_def Let_def)
  then obtain y where y: "release_key sha (Some i) q n2 h2 d2 = i @ ''|'' @ y" by blast
  have "''oneoff'' @ ''|'' @ x \<noteq> i @ ''|'' @ y"
    using bar_split [of "''oneoff''" i x y] assms(1,2) by (auto simp: library_id_def)
  then show ?thesis unfolding x y .
qed

theorem release_key_oneoff_apart_witness:
  "release_key (\<lambda>_. []) None (Some ''nzbgeek'') (Some ''A.B'') None DNone
   \<noteq> release_key (\<lambda>_. []) (Some ''42'') (Some ''nzbgeek'') None None DNone"
  by (rule release_key_oneoff_apart; code_simp)

section \<open>The payload\<close>

text \<open>What \<open>sanitize_payload\<close> keeps of any caller's value is bounded (only whitelisted keys, scalar
  values of at most the string cap, one nesting level, at most 16 KiB of JSON) and is stable: writing
  it to the column, reading it back and sanitising again gives the same payload.\<close>

theorem sanitized_payload_round_trips:
  assumes "sanitize_payload loads p = Some d"
  shows "payload_ok d \<and> sanitize_payload loads (load_payload (dump_payload (Some d))) = Some d"
  using sanitize_ok [OF assms] by (simp add: load_dump_ok sanitize_id)

theorem sanitized_payload_round_trips_witness:
  "payload_ok [(''issueid'', VStr ''42''), (''download_info'', VDict [(''id'', VInt 7)])]
   \<and> sanitize_payload (\<lambda>_. None) (load_payload (dump_payload
       (Some [(''issueid'', VStr ''42''), (''download_info'', VDict [(''id'', VInt 7)])])))
     = Some [(''issueid'', VStr ''42''), (''download_info'', VDict [(''id'', VInt 7)])]"
proof (rule sanitized_payload_round_trips)
  show "sanitize_payload (\<lambda>_. None)
      (VDict [(''issueid'', VStr ''42''), (''password'', VStr ''x''),
        (''download_info'', VDict [(''id'', VInt 7), (''junk'', VNone)])])
    = Some [(''issueid'', VStr ''42''), (''download_info'', VDict [(''id'', VInt 7)])]"
    by code_simp
qed

text \<open>A merge that reports no conflict keeps every immutable identity of the stored payload that is set
  (equal value, or a provider equal after normalisation), provided the incoming payload does not
  carry the empty string under that key; and it keeps every key the incoming payload leaves out.\<close>

theorem merge_keeps_identity:
  assumes "merge_payload (Some m) inc = (m', None)"
    and "k \<in> set IMMUTABLE_PAYLOAD_KEYS" and "\<not> pv_empty (pv_get m k)"
    and "(k, VStr []) \<notin> set (case inc of None \<Rightarrow> [] | Some d \<Rightarrow> d)"
  shows "\<not> pv_empty (pv_get m' k) \<and> values_match k (pv_get m k) (pv_get m' k)
    \<and> (\<forall>j. j \<notin> fst ` set (case inc of None \<Rightarrow> [] | Some d \<Rightarrow> d) \<longrightarrow> pv_get m' j = pv_get m j)"
  using assms merge_items_immutable [of m _ m' k] merge_items_frame [of m _ m']
  by (simp add: merge_payload_def)

theorem merge_keeps_identity_witness:
  "\<not> pv_empty (pv_get [(''provider'', VStr ''NZBgeek (newznab)''), (''nzo_id'', VStr ''n1'')] ''provider'')
   \<and> values_match ''provider'' (pv_get [(''provider'', VStr ''nzbgeek'')] ''provider'')
      (pv_get [(''provider'', VStr ''NZBgeek (newznab)''), (''nzo_id'', VStr ''n1'')] ''provider'')"
proof -
  have "merge_payload (Some [(''provider'', VStr ''nzbgeek'')])
      (Some [(''provider'', VStr ''NZBgeek (newznab)''), (''nzo_id'', VStr ''n1'')])
    = ([(''provider'', VStr ''NZBgeek (newznab)''), (''nzo_id'', VStr ''n1'')], None)"
    by code_simp
  from merge_keeps_identity [OF this, of "''provider''"] show ?thesis
    by (simp add: IMMUTABLE_PAYLOAD_KEYS_def pv_empty_def pv_get_def dict_get_def)
qed

text \<open>The proviso is needed: an incoming empty string is not a conflict, yet it is written over the
  stored identity, after which any other value of that identity merges without a conflict.\<close>

theorem empty_string_erases_identity:
  assumes "k \<in> set IMMUTABLE_PAYLOAD_KEYS" and "v \<noteq> VNone"
  shows "merge_payload (Some m) (Some [(k, VStr [])]) = (dict_set k (VStr []) m, None)
    \<and> merge_payload (Some (dict_set k (VStr []) m)) (Some [(k, v)])
        = (dict_set k v (dict_set k (VStr []) m), None)"
proof -
  have "k \<noteq> ''download_info''" using assms(1) by (auto simp: IMMUTABLE_PAYLOAD_KEYS_def)
  then show ?thesis
    using assms(2)
    by (cases v) (simp_all add: merge_payload_def immutable_clash_def pv_empty_def pv_get_set)
qed

theorem empty_string_erases_identity_witness:
  "merge_payload (Some [(''hash'', VStr ''aa'')]) (Some [(''hash'', VStr [])])
     = (dict_set ''hash'' (VStr []) [(''hash'', VStr ''aa'')], None)
   \<and> merge_payload (Some (dict_set ''hash'' (VStr []) [(''hash'', VStr ''aa'')]))
       (Some [(''hash'', VStr ''bb'')])
     = (dict_set ''hash'' (VStr ''bb'') (dict_set ''hash'' (VStr []) [(''hash'', VStr ''aa'')]), None)"
  by (rule empty_string_erases_identity) (simp_all add: IMMUTABLE_PAYLOAD_KEYS_def)

end
