(* ===== verification/JournalProps.thy ===== *)
theory JournalProps
  imports JournalInv
begin

text \<open>
  The properties of the journal, each stated over \<open>record_transition\<close> and the other entry points,
  with a concrete instance for those that have hypotheses.
\<close>

section \<open>Concrete rows for the instances\<close>

definition demo_env :: jenv where
  "demo_env = \<lparr>je_loads = (\<lambda>_. None), je_issues = [], je_annuals = [], je_storyarcs = [],
     je_comics = [], je_verified = (\<lambda>_ _ _. False)\<rparr>"

definition demo_row :: "stage \<Rightarrow> jrow" where
  "demo_row st = (blank_row st ''2026-01-01 00:00:00'' PNull)
     \<lparr>jr_issueid := Some ''42'', jr_provider := Some ''nzbgeek''\<rparr>"

definition demo_state :: "stage \<Rightarrow> jstate" where
  "demo_state st = \<lparr>js_rows = [(''42|nzbgeek'', demo_row st)], js_obligations = [], js_activity = []\<rparr>"

section \<open>The lattice\<close>

text \<open>C1: Whatever sequence of transitions, operator stamps, backfill reopenings and key migrations
  runs on an empty journal, every row's rank column is the rank of its stage and release keys stay
  unique; the guards of \<open>_apply_transition\<close> that compare ranks therefore compare stages.\<close>

theorem journal_always_well_formed: "journal_wf (jrun ops empty_journal)"
  by (rule jrun_wf) (simp add: journal_wf_def empty_journal_def js_row_def)

text \<open>C2: A terminal row is closed: unless the call is a first-stage write (reserved or snatched) and
  the row is supersedable (failed, operator-resolved review, or post-processed with the issue gone
  from the library), \<open>record_transition\<close> does not win and leaves the whole state unchanged, whatever
  stage, payload and fields it carries.\<close>

theorem terminal_row_is_closed:
  assumes "js_row s key = Some q" and "is_terminal (jr_stage q)" and "journal_wf s"
    and "stage \<notin> {''reserved'', ''snatched''} \<or> \<not> is_supersedable_terminal e q"
  shows "outcome s (record_transition e None s key stage p fs when) = (False, s)"
proof (cases "stage_of_string stage")
  case None
  then show ?thesis by (simp add: record_transition_def outcome_def)
next
  case (Some st)
  have nn: "\<not> (st \<in> set RESNATCH_STAGES \<and> is_supersedable_terminal e q)"
    using assms(4) resnatch_string [OF Some] by blast
  have ga: "guarded_advance s key st when fs pj = (False, s)" for pj
    using assms(1,2) by (simp add: guarded_advance_def)
  have reset: "try_reset_terminal_attempt e s key st when fs pj \<in> {Inl JTypeError, Inr (False, s)}" for pj
    using assms(1) nn by (auto simp: try_reset_terminal_attempt_def Let_def predicate_mirror)
  have "transition_existing e s key q st fs pl when \<in> {Inl JTypeError, Inr (False, s)}" for pl
    using ga reset assms(2)
    by (auto simp: transition_existing_def Let_def quarantine_def enrich_same_stage_def
        advance_or_reset_def split: option.splits)
  from this [of "sanitize_payload (je_loads e) p"] show ?thesis
    using Some assms(1)
    by (auto simp: record_transition_def apply_transition_def outcome_def Let_def)
qed

theorem terminal_row_is_closed_witness:
  "outcome (demo_state Cancelled)
     (record_transition demo_env None (demo_state Cancelled) ''42|nzbgeek'' ''post_processing''
        VNone [] ''2026-01-02 00:00:00'') = (False, demo_state Cancelled)"
proof (rule terminal_row_is_closed)
  show "js_row (demo_state Cancelled) ''42|nzbgeek'' = Some (demo_row Cancelled)"
    by (simp add: demo_state_def js_row_def dict_get_def)
  show "is_terminal (jr_stage (demo_row Cancelled))"
    by (simp add: demo_row_def blank_row_def is_terminal_def TERMINAL_STAGES_def)
  show "journal_wf (demo_state Cancelled)"
    by (auto simp: journal_wf_def demo_state_def js_row_def dict_get_def dict_ok_def row_wf_def
        demo_row_def blank_row_def split: if_splits)
qed simp

text \<open>A transition to any stage that is not a first-stage write never moves a row backwards, wins
  exactly by moving it strictly forward to the stage asked for, keeps the row, and touches no other
  release key.\<close>

theorem transition_moves_forward:
  assumes "journal_wf s" and "stage_of_string stage = Some st"
    and "stage \<notin> {''reserved'', ''snatched''}"
    and "record_transition e None s key stage p fs when = Inr (won, t)"
    and "js_row s key = Some q"
  shows "\<exists>r. js_row t key = Some r \<and> jr_stage q \<le> jr_stage r
           \<and> (won \<longrightarrow> jr_stage q < st \<and> jr_stage r = st)
           \<and> (\<forall>j. j \<noteq> key \<longrightarrow> js_row t j = js_row s j)"
proof -
  have eff: "row_effect e st (Some q) won (js_row t key)" and only: "only_key key s t"
    using record_transition_effect [OF assms(4,2)] assms(5) by simp_all
  have nr: "st \<notin> set RESNATCH_STAGES" using resnatch_string [OF assms(2)] assms(3) by blast
  have wq: "row_wf q" using assms(1,5) by (auto simp: journal_wf_def)
  obtain r where r: "js_row t key = Some r" using eff by (auto elim: row_effect.cases)
  have "jr_stage q \<le> jr_stage r" using forward_effect [OF eff refl r wq nr] .
  moreover have "jr_stage q < st \<and> jr_stage r = st" if "won"
    using eff that r nr wq by (auto elim!: effect_won simp: row_wf_def STAGE_RANK_less [symmetric])
  ultimately show ?thesis using r only by (auto simp: only_key_def)
qed

theorem transition_moves_forward_witness:
  "\<exists>t r. record_transition demo_env None (demo_state Snatched) ''42|nzbgeek'' ''downloaded''
            VNone [] ''2026-01-02 00:00:00'' = Inr (True, t)
       \<and> js_row t ''42|nzbgeek'' = Some r \<and> jr_stage r = Downloaded"
proof -
  have wf: "journal_wf (demo_state Snatched)"
    by (auto simp: journal_wf_def demo_state_def js_row_def dict_get_def dict_ok_def row_wf_def
        demo_row_def blank_row_def split: if_splits)
  have st: "stage_of_string ''downloaded'' = Some Downloaded" by (simp add: stage_of_string_def)
  have "fst (outcome (demo_state Snatched) (record_transition demo_env None (demo_state Snatched)
      ''42|nzbgeek'' ''downloaded'' VNone [] ''2026-01-02 00:00:00''))"
    by code_simp
  then obtain t where t: "record_transition demo_env None (demo_state Snatched)
      ''42|nzbgeek'' ''downloaded'' VNone [] ''2026-01-02 00:00:00'' = Inr (True, t)"
    by (auto simp: outcome_def split: sum.splits)
  have "js_row (demo_state Snatched) ''42|nzbgeek'' = Some (demo_row Snatched)"
    by (simp add: demo_state_def js_row_def dict_get_def)
  from transition_moves_forward [OF wf st _ t this] t show ?thesis by auto
qed



section \<open>New submissions on a closed row\<close>

text \<open>A fresh reservation of a failed row, with no identity conflict and none of the columns
  \<open>hash\<close>, \<open>status\<close>, \<open>fail_reason\<close> among its fields, supersedes the closed attempt: it wins, the row
  restarts at the requested stage, and the old failure reason, status and hash are gone.\<close>

theorem resnatch_supersedes:
  assumes "stage \<in> {''reserved'', ''snatched''}" and "stage_of_string stage = Some st"
    and "js_row s key = Some q" and "row_wf q" and "is_supersedable_terminal e q"
    and "transition_conflict e q st fs (sanitize_payload (je_loads e) p) = None"
    and "\<forall>c \<in> fst ` set fs. c \<notin> {CFail_reason, CStatus, CHash}"
  shows "\<exists>t r. record_transition e None s key stage p fs when = Inr (True, t)
     \<and> js_row t key = Some r \<and> jr_stage r = st
     \<and> jr_fail_reason r = None \<and> jr_status r = None \<and> jr_hash r = None"
proof -
  have st: "st \<in> set RESNATCH_STAGES" using resnatch_string [OF assms(2)] assms(1) by blast
  have tq: "is_terminal (jr_stage q)" and mem: "jr_stage q \<in> set SUPERSEDABLE_TERMINALS \<or> jr_stage q = Post_processed"
    using assms(5) by (auto simp: is_supersedable_terminal_def is_terminal_def TERMINAL_STAGES_def
        SUPERSEDABLE_TERMINALS_def split: if_splits)
  have rank: "jr_rank q \<noteq> STAGE_RANK st"
    using assms(4) st tq resnatch_not_terminal [OF st] by (auto simp: row_wf_def)
  let ?pj = "dump_payload (Some (fst (merge_payload (transition_payload e q st)
               (sanitize_payload (je_loads e) p))))"
  let ?r = "advance_row st when fs ?pj
              (q\<lparr>jr_fail_reason := None, jr_status := None, jr_hash := None\<rparr>)"
  have clear: "jr_fail_reason (set_cols fs x) = jr_fail_reason x
      \<and> jr_status (set_cols fs x) = jr_status x \<and> jr_hash (set_cols fs x) = jr_hash x" for x
    using assms(7) unfolding set_cols_def
  proof (induction fs arbitrary: x)
    case (Cons c fs)
    then show ?case by (cases c; cases "fst c") auto
  qed simp
  have "try_reset_terminal_attempt e s key st when fs ?pj = Inr (True, js_put key ?r s)"
    using st assms(3,5,7) by (auto simp: try_reset_terminal_attempt_def Let_def predicate_mirror)
  then have "transition_existing e s key q st fs (sanitize_payload (je_loads e) p) when
      = Inr (True, js_put key ?r s)"
    using assms(3,6) tq mem rank
    by (simp add: transition_existing_def Let_def advance_or_reset_def guarded_advance_def)
  then show ?thesis
    using assms(2,3) clear
    by (simp add: record_transition_def apply_transition_def Let_def advance_row_def)
qed

theorem resnatch_supersedes_witness:
  "\<exists>t r. record_transition demo_env None (demo_state Failed) ''42|nzbgeek'' ''reserved'' VNone
       [(CIssueid, Some ''42''), (CProvider, Some ''NZBgeek (newznab)'')] ''now'' = Inr (True, t)
     \<and> js_row t ''42|nzbgeek'' = Some r \<and> jr_stage r = Reserved
     \<and> jr_fail_reason r = None \<and> jr_status r = None \<and> jr_hash r = None"
proof (rule resnatch_supersedes [where q = "demo_row Failed"])
  show "js_row (demo_state Failed) ''42|nzbgeek'' = Some (demo_row Failed)"
    by (simp add: demo_state_def js_row_def dict_get_def)
  show "is_supersedable_terminal demo_env (demo_row Failed)"
    by (simp add: is_supersedable_terminal_def demo_row_def blank_row_def)
  show "transition_conflict demo_env (demo_row Failed) Reserved
      [(CIssueid, Some ''42''), (CProvider, Some ''NZBgeek (newznab)'')]
      (sanitize_payload (je_loads demo_env) VNone) = None"
    by code_simp
qed (simp_all add: stage_of_string_def row_wf_def demo_row_def blank_row_def)

text \<open>The reset statement passes \<open>fail_reason\<close>, \<open>status\<close> and \<open>hash\<close> twice when the caller's fields
  contain one of them, so a new submission on a supersedable row that carries, say, its hash raises
  \<open>TypeError\<close> instead of superseding: the closed attempt stays.  \<open>updater.foundsearch\<close> passes
  \<open>hash\<close> on every snatch.\<close>

theorem resnatch_with_hash_raises:
  assumes "stage \<in> {''reserved'', ''snatched''}" and "stage_of_string stage = Some st"
    and "js_row s key = Some q" and "row_wf q" and "is_supersedable_terminal e q"
    and "transition_conflict e q st fs (sanitize_payload (je_loads e) p) = None"
    and "c \<in> fst ` set fs" and "c \<in> {CFail_reason, CStatus, CHash}"
  shows "record_transition e None s key stage p fs when = Inl JTypeError"
proof -
  have st: "st \<in> set RESNATCH_STAGES" using resnatch_string [OF assms(2)] assms(1) by blast
  have tq: "is_terminal (jr_stage q)" and mem: "jr_stage q \<in> set SUPERSEDABLE_TERMINALS \<or> jr_stage q = Post_processed"
    using assms(5) by (auto simp: is_supersedable_terminal_def is_terminal_def TERMINAL_STAGES_def
        SUPERSEDABLE_TERMINALS_def split: if_splits)
  have rank: "jr_rank q \<noteq> STAGE_RANK st"
    using assms(4) st tq resnatch_not_terminal [OF st] by (auto simp: row_wf_def)
  have "try_reset_terminal_attempt e s key st when fs pj = Inl JTypeError" for pj
    using st assms(7,8) by (auto simp: try_reset_terminal_attempt_def Let_def)
  then have "transition_existing e s key q st fs (sanitize_payload (je_loads e) p) when = Inl JTypeError"
    using assms(3,6) tq mem rank
    by (simp add: transition_existing_def Let_def advance_or_reset_def guarded_advance_def)
  then show ?thesis
    using assms(2,3) by (simp add: record_transition_def apply_transition_def Let_def)
qed

theorem resnatch_with_hash_raises_witness:
  "record_transition demo_env None (demo_state Failed) ''42|nzbgeek'' ''snatched'' VNone
     [(CIssueid, Some ''42''), (CProvider, Some ''nzbgeek''), (CNzbname, Some ''x''),
      (CHash, None)] ''now'' = Inl JTypeError"
proof (rule resnatch_with_hash_raises [where q = "demo_row Failed" and c = CHash])
  show "js_row (demo_state Failed) ''42|nzbgeek'' = Some (demo_row Failed)"
    by (simp add: demo_state_def js_row_def dict_get_def)
  show "is_supersedable_terminal demo_env (demo_row Failed)"
    by (simp add: is_supersedable_terminal_def demo_row_def blank_row_def)
  show "transition_conflict demo_env (demo_row Failed) Snatched
      [(CIssueid, Some ''42''), (CProvider, Some ''nzbgeek''), (CNzbname, Some ''x''), (CHash, None)]
      (sanitize_payload (je_loads demo_env) VNone) = None"
    by code_simp
qed (simp_all add: stage_of_string_def row_wf_def demo_row_def blank_row_def)

end

