(* ===== verification/JournalAdmin.thy ===== *)
theory JournalAdmin
  imports JournalProps
begin

text \<open>
  Properties of the journal's writes outside the forward lattice: the quarantine of a conflicting
  transition, the operator stamp, the backfill's reopening, the key migration, the retry loop, and
  the list of open rows recovery reads.
\<close>

section \<open>Quarantine\<close>

text \<open>A transition that contradicts the stored identity of an open row never advances it: it does not
  win, parks the row in manual review with the conflict as its reason, leaves every identity column
  as it was, and files exactly one reconciliation obligation.\<close>

theorem conflict_is_quarantined:
  assumes "stage_of_string stage = Some st" and "js_row s key = Some q"
    and "\<not> is_terminal (jr_stage q)"
    and "transition_conflict e q st fs (sanitize_payload (je_loads e) p) = Some c"
  shows "\<exists>t r ob. record_transition e None s key stage p fs when = Inr (False, t)
    \<and> js_row t key = Some r \<and> jr_stage r = Manual_review
    \<and> jr_status r = Some ''manual_review''
    \<and> jr_fail_reason r = Some (''immutable_payload_conflict:'' @ c)
    \<and> (\<forall>col. col \<notin> {CFail_reason, CStatus} \<longrightarrow> get_col col r = get_col col q)
    \<and> js_obligations t = js_obligations s @ [ob] \<and> js_activity t = js_activity s
    \<and> ob_reason ob = ''immutable_payload_conflict:'' @ c"
proof -
  have frame: "get_col col (quarantine_row w reason pl q) = get_col col q"
    if "col \<notin> {CFail_reason, CStatus}" for col w reason pl
    using that by (cases col) (simp_all add: quarantine_row_def)
  have "record_transition e None s key stage p fs when =
      Inr (False, quarantine s key q c when fs (transition_payload e q st))"
    using assms by (simp add: record_transition_def apply_transition_def transition_existing_def Let_def)
  then show ?thesis
    using assms(3) frame by (auto simp: quarantine_def Let_def js_put_def quarantine_row_def
        js_row_def dict_get_set)
qed

theorem conflict_is_quarantined_witness:
  "\<exists>t r. record_transition demo_env None (demo_state Snatched) ''42|nzbgeek'' ''downloaded''
       (VDict []) [(CIssueid, Some ''43'')] ''now'' = Inr (False, t)
     \<and> js_row t ''42|nzbgeek'' = Some r \<and> jr_stage r = Manual_review"
proof -
  have "js_row (demo_state Snatched) ''42|nzbgeek'' = Some (demo_row Snatched)"
    by (simp add: demo_state_def js_row_def dict_get_def)
  moreover have "\<not> is_terminal (jr_stage (demo_row Snatched))" by code_simp
  moreover have "transition_conflict demo_env (demo_row Snatched) Downloaded [(CIssueid, Some ''43'')]
      (sanitize_payload (je_loads demo_env) (VDict [])) = Some ''issueid''"
    by code_simp
  moreover have "stage_of_string ''downloaded'' = Some Downloaded" by (simp add: stage_of_string_def)
  ultimately show ?thesis using conflict_is_quarantined by blast
qed

section \<open>The operator's stamp\<close>

definition stamp :: "string \<Rightarrow> string \<Rightarrow> bool \<Rightarrow> string \<Rightarrow> jstate \<Rightarrow> bool \<times> jstate" where
  "stamp key status inc when s = outcome s (stamp_resolution s key status inc when)"

definition unstamped :: "string \<Rightarrow> jstate \<Rightarrow> bool" where
  "unstamped key s \<longleftrightarrow> (case js_row s key of
     Some r \<Rightarrow> jr_stage r \<in> set BAND_STAGES \<and> \<not> is_resolved (jr_status r) | None \<Rightarrow> False)"

lemma stamp_lost: "\<not> fst (stamp key status inc when s) \<Longrightarrow> snd (stamp key status inc when s) = s"
  by (auto simp: stamp_def stamp_resolution_def outcome_def split: option.splits if_splits)

interpretation stamp_claim: cas_claim "\<lambda>_. True" "stamp key status inc when" "unstamped key"
  for key status inc "when"
proof (unfold_locales, rule TrueI)
  fix s
  {
    assume "fst (stamp key status inc when s)"
    then show "unstamped key s"
      by (auto simp: stamp_def stamp_resolution_def outcome_def unstamped_def
          split: option.splits if_splits)
    show "\<not> unstamped key (snd (stamp key status inc when s))"
      using \<open>fst (stamp key status inc when s)\<close>
      by (auto simp: stamp_def stamp_resolution_def outcome_def unstamped_def is_resolved_def
          split: option.splits if_splits)
  next
    assume "\<not> fst (stamp key status inc when s)" and "unstamped key (snd (stamp key status inc when s))"
    then show "unstamped key s" using stamp_lost by simp
  }
qed

lemma stamp_keeps_closed: "stamp_claim.keeps_closed key (\<lambda>s. snd (stamp k st inc w s))"
  unfolding stamp_claim.keeps_closed_def
  by (auto simp: stamp_def stamp_resolution_def outcome_def unstamped_def is_resolved_def
      split: option.splits if_splits)

text \<open>An operator decision on a needs-attention row is taken at most once: among any number of racing
  stamps of one row, with any stamps of this or other rows by other statuses in between, at most one
  returns True; and a stamp never changes the stage, the rank, the payload or the identity of a row.\<close>

theorem operator_stamp_once:
  "wins (claim_run (stamp key status inc when) s
      (map (\<lambda>(k, st, i, w). \<lambda>s. snd (stamp k st i w s)) others)) \<le> 1
   \<and> map_option (\<lambda>r. (jr_stage r, jr_rank r, jr_payload r, jr_issueid r, jr_provider r, jr_hash r))
        (js_row (snd (stamp key status inc when s)) j)
     = map_option (\<lambda>r. (jr_stage r, jr_rank r, jr_payload r, jr_issueid r, jr_provider r, jr_hash r))
        (js_row s j)"
proof
  show "wins (claim_run (stamp key status inc when) s
      (map (\<lambda>(k, st, i, w). \<lambda>s. snd (stamp k st i w s)) others)) \<le> 1"
    by (rule stamp_claim.at_most_one_win [OF TrueI]) (auto simp: stamp_keeps_closed)
qed (auto simp: stamp_def stamp_resolution_def outcome_def split: option.splits)

text \<open>Cancelled rows block their key.  \<open>CANCELLED\<close> is listed among the supersedable terminals, yet no
  sequence of transitions, stamps and reopenings ever moves a cancelled row: a new submission of the
  same issue and provider can never be journalled again.\<close>

theorem cancelled_row_blocks_key:
  assumes "journal_wf s" and "js_row s key = Some q" and "jr_stage q = Cancelled"
    and "OMigrate \<notin> set ops"
  shows "js_row (jrun ops s) key = Some q"
  using assms
proof (induction ops arbitrary: s)
  case Nil
  then show ?case by (simp add: jrun_def)
next
  case (Cons op ops)
  have "js_row (jstep s op) key = Some q"
  proof (cases op)
    case (ORecord e k stage p fs w)
    show ?thesis
    proof (cases "k = key")
      case True
      have trm: "is_terminal (jr_stage q)"
        using Cons.prems(3) by (simp add: is_terminal_def TERMINAL_STAGES_def)
      show ?thesis
      proof (cases "stage_of_string stage")
        case None
        then show ?thesis using ORecord Cons.prems by (simp add: record_transition_def outcome_def)
      next
        case (Some st)
        have "row_effect e st (Some q) (fst (claim_stage e key stage p fs w s))
            (js_row (snd (claim_stage e key stage p fs w s)) key)"
          using claim_stage_effect [OF Some, of e s key p fs w] Cons.prems(2) by simp
        then have "js_row (snd (claim_stage e key stage p fs w s)) key = Some q"
          using terminal_effect [OF _ trm] Cons.prems(3)
          by (auto simp: is_supersedable_terminal_def)
        then show ?thesis using ORecord True by (simp add: claim_stage_def)
      qed
    next
      case False
      show ?thesis
      proof (cases "stage_of_string stage")
        case None
        then show ?thesis using ORecord Cons.prems by (simp add: record_transition_def outcome_def)
      next
        case (Some st)
        then show ?thesis
          using claim_stage_effect [OF Some, of e s k p fs w] False Cons.prems(2) ORecord
          by (auto simp: only_key_def claim_stage_def)
      qed
    qed
  next
    case (OStamp k st i w)
    then show ?thesis
      using Cons.prems
      by (auto simp: stamp_resolution_def outcome_def BAND_STAGES_def split: option.splits)
  next
    case (OReopen k w)
    then show ?thesis
      using Cons.prems by (auto simp: reopen_false_terminal_def split: option.splits)
  qed (use Cons.prems in simp)
  moreover have "journal_wf (jstep s op)" using Cons.prems(1) by (rule jstep_wf)
  ultimately show ?case using Cons by (simp add: jrun_def)
qed

theorem cancelled_row_blocks_key_witness:
  "js_row (jrun [ORecord demo_env ''42|nzbgeek'' ''reserved'' VNone [] ''now'',
                 OReopen ''42|nzbgeek'' ''now''] (demo_state Cancelled)) ''42|nzbgeek''
   = Some (demo_row Cancelled)"
proof (rule cancelled_row_blocks_key)
  show "js_row (demo_state Cancelled) ''42|nzbgeek'' = Some (demo_row Cancelled)"
    by (simp add: demo_state_def js_row_def dict_get_def)
  show "journal_wf (demo_state Cancelled)"
    by (auto simp: journal_wf_def demo_state_def js_row_def dict_get_def dict_ok_def row_wf_def
        demo_row_def blank_row_def split: if_splits)
qed (simp_all add: demo_row_def)

section \<open>The migration of the key format\<close>

text \<open>The key migration never loses or merges rows: on a well-formed table the rows are the same list in the same
  order, and the keys stay distinct.\<close>

theorem migration_never_coalesces:
  assumes "journal_wf s"
  shows "map snd (js_rows (snd (migrate_release_key_provider_format s))) = map snd (js_rows s)
     \<and> distinct (map fst (js_rows (snd (migrate_release_key_provider_format s))))"
  using migrate_loop_keeps [of s "migrate_renames s" 0] assms
  by (simp add: journal_wf_def dict_ok_def migrate_release_key_provider_format_def)

theorem migration_never_coalesces_witness:
  "length (js_rows (snd (migrate_release_key_provider_format
      \<lparr>js_rows = [(''42|NZBgeek (newznab)'', demo_row Snatched), (''42|nzbgeek'', demo_row Failed)],
       js_obligations = [], js_activity = []\<rparr>))) = 2"
proof -
  let ?s = "\<lparr>js_rows = [(''42|NZBgeek (newznab)'', demo_row Snatched), (''42|nzbgeek'', demo_row Failed)],
       js_obligations = [], js_activity = []\<rparr>"
  have "journal_wf ?s"
    by (auto simp: journal_wf_def js_row_def dict_get_def dict_ok_def row_wf_def
        demo_row_def blank_row_def split: if_splits)
  from migration_never_coalesces [OF this]
  have "length (map snd (js_rows (snd (migrate_release_key_provider_format ?s)))) = 2" by simp
  then show ?thesis by simp
qed

section \<open>Retries\<close>

text \<open>A transition in a transaction of its own is tried at most five times: it gives the result of the
  body when one of the first five attempts finds a healthy database after locked ones only, and
  raises the database error otherwise; an unknown stage is refused before any attempt.\<close>

theorem own_transaction_retries:
  assumes "stage_of_string stage = Some st"
  shows "record_transition_own e as race s key stage p fs when =
     (if length (takeWhile (\<lambda>a. a = ALocked) as) < 5
         \<and> (as = takeWhile (\<lambda>a. a = ALocked) as \<or> as ! length (takeWhile (\<lambda>a. a = ALocked) as) = AHealthy)
      then record_transition e race s key stage p fs when
      else Inl JOperationalError)"
proof -
  have "own_attempts n as body =
     (if length (takeWhile (\<lambda>a. a = ALocked) as) < n
         \<and> (as = takeWhile (\<lambda>a. a = ALocked) as \<or> as ! length (takeWhile (\<lambda>a. a = ALocked) as) = AHealthy)
      then body else Inl JOperationalError)" for n and body :: "jerror + bool \<times> jstate"
    by (induction n as body rule: own_attempts.induct) auto
  then show ?thesis using assms by (simp add: record_transition_own_def)
qed

theorem own_transaction_retries_witness:
  "record_transition_own demo_env [ALocked, ALocked, AHealthy] None (demo_state Snatched) ''42|nzbgeek''
     ''downloaded'' VNone [] ''now''
   = record_transition demo_env None (demo_state Snatched) ''42|nzbgeek'' ''downloaded'' VNone [] ''now''"
proof -
  have "stage_of_string ''downloaded'' = Some Downloaded" by (simp add: stage_of_string_def)
  from own_transaction_retries [OF this] show ?thesis by simp
qed

section \<open>What recovery reads\<close>

lemma str_le_total: "str_le a b \<or> str_le b a"
proof (induction a b rule: str_le.induct)
  case (3 c s d t)
  have "(of_char c :: nat) = of_char d \<longleftrightarrow> c = d" by simp
  then show ?case using 3 by (cases "c = d") (auto simp del: of_char_eq_iff)
qed simp_all

lemma str_le_trans: "str_le a b \<Longrightarrow> str_le b c \<Longrightarrow> str_le a c"
proof (induction a b arbitrary: c rule: str_le.induct)
  case (3 x s y t)
  then show ?case by (cases c) auto
qed simp_all

lemma insert_by_date_set [simp]: "set (insert_by_date x xs) = insert x (set xs)"
  by (induction xs) auto

lemma insert_by_date_length [simp]: "length (insert_by_date x xs) = Suc (length xs)"
  by (induction xs) auto

abbreviation by_date :: "string \<times> jrow \<Rightarrow> string \<times> jrow \<Rightarrow> bool" where
  "by_date x y \<equiv> str_le (jr_updated (snd x)) (jr_updated (snd y))"

lemma insert_by_date_sorted:
  "sorted_wrt by_date xs \<Longrightarrow> sorted_wrt by_date (insert_by_date x xs)"
proof (induction xs)
  case (Cons y ys)
  then show ?case
    using str_le_total [of "jr_updated (snd x)" "jr_updated (snd y)"]
    by (auto dest: str_le_trans)
qed simp

text \<open>Recovery reads every open row once, oldest update first: \<open>read_open\<close> returns exactly the rows
  whose stage is not terminal, as many as the table holds, sorted by the stored time stamp.\<close>

theorem read_open_is_open_rows:
  "sorted_wrt (\<lambda>x y. str_le (jr_updated (snd x)) (jr_updated (snd y))) (read_open s)
   \<and> set (read_open s) = {(k, r) \<in> set (js_rows s). \<not> is_terminal (jr_stage r)}
   \<and> length (read_open s) = length (filter (\<lambda>(k, r). \<not> is_terminal (jr_stage r)) (js_rows s))"
proof -
  have o: "(\<lambda>(k, r). jr_stage r \<in> set OPEN_STAGES) = (\<lambda>(k, r). \<not> is_terminal (jr_stage r))"
    by (auto simp: terminal_or_open)
  have "sorted_wrt by_date (foldr insert_by_date xs [])
    \<and> set (foldr insert_by_date xs []) = set xs
    \<and> length (foldr insert_by_date xs []) = length xs" for xs
    by (induction xs) (auto simp: insert_by_date_sorted)
  then show ?thesis by (auto simp: read_open_def o)
qed

end
