(* ===== verification/RunLedger.thy ===== *)
theory RunLedger
  imports JournalPayload
begin

text \<open>
  \<open>comicarr/app/acquisition/models.py\<close> and \<open>runs.py\<close>: the durable ledger of acquisition runs and
  their items.  \<open>rledger\<close> is the pair of tables with the narrated run completions; an operation
  that reads an item in one transaction and writes it in another takes, as \<open>mid\<close>, what other
  workers commit in between (the identity when nothing does).
\<close>

section \<open>The vocabulary\<close>

datatype intent = Policy | Wanted | Skipped | Ignored

datatype fulfillment = FUnknown | FMissing | FReserved | FSnatched | FDownloaded | FArchived
  | FFailed | FCovered

definition is_owned :: "fulfillment \<Rightarrow> bool" where
  "is_owned f = (f \<in> {FDownloaded, FArchived})"

definition is_covered :: "fulfillment \<Rightarrow> bool" where
  "is_covered f = (f = FCovered)"

definition is_in_flight :: "fulfillment \<Rightarrow> bool" where
  "is_in_flight f = (f \<in> {FReserved, FSnatched})"

datatype dispatch_state = DPending | DAccepted | DError | DMissed | DMax_instances

datatype item_outcome = IAccepted | IRunning | ISucceeded | INo_match | IBlocked | IFailed
  | IQuarantined | ICancelled

definition outcome_terminal :: "item_outcome \<Rightarrow> bool" where
  "outcome_terminal st = (st \<notin> {IAccepted, IRunning})"

datatype run_state = RPending | RRunning | RCompleted | RPartial | RBlocked | RFailed

section \<open>The payload allowlist\<close>

definition RUN_PAYLOAD_BYTES :: nat where
  "RUN_PAYLOAD_BYTES = 16 * 1024"

definition MAX_RECOVERY_ATTEMPTS :: nat where
  "MAX_RECOVERY_ATTEMPTS = 3"

definition PAYLOAD_FIELDS :: "string \<Rightarrow> string list option" where
  "PAYLOAD_FIELDS kind =
     (if kind = ''search'' then Some [''comicid'', ''issueid'', ''comicname'', ''issue_number'',
        ''seriesyear'', ''mode'', ''manual'', ''annual'', ''entity_type'', ''storyarc'']
      else if kind = ''refresh'' then Some [''comicid'', ''comicname'', ''seriesyear'', ''r_mode'',
        ''calledfrom'', ''serieslast_updated'', ''manual_comicid'']
      else None)"

text \<open>\<open>json.dumps(payload, sort_keys=True, separators=(",", ":"), ensure_ascii=False)\<close>; an object
  without a JSON form is the \<open>TypeError\<close>.\<close>

definition compact_char :: "char \<Rightarrow> string" where
  "compact_char c = (if (of_char c :: nat) \<le> 126 then json_char c else [c])"

definition compact_str :: "string \<Rightarrow> string" where
  "compact_str s = CHR 0x22 # concat (map compact_char s) @ [CHR 0x22]"

fun key_le :: "string \<Rightarrow> string \<Rightarrow> bool" where
  "key_le [] t = True"
| "key_le (c # s) [] = False"
| "key_le (c # s) (d # t) = ((of_char c :: nat) < of_char d \<or> (c = d \<and> key_le s t))"

fun insert_key :: "string \<times> string \<Rightarrow> (string \<times> string) list \<Rightarrow> (string \<times> string) list" where
  "insert_key x [] = [x]"
| "insert_key x (y # ys) = (if key_le (fst x) (fst y) then x # y # ys else y # insert_key x ys)"

fun compact_items :: "(string \<times> string) list \<Rightarrow> string" where
  "compact_items [] = []"
| "compact_items ((k, v) # r) =
     compact_str k @ '':'' @ v @ (if r = [] then [] else '','' @ compact_items r)"

fun dumps_compact :: "pval \<Rightarrow> string option"
  and dumps_entries :: "(string \<times> pval) list \<Rightarrow> (string \<times> string) list option" where
  "dumps_compact VNone = Some ''null''"
| "dumps_compact (VBool b) = Some (if b then ''true'' else ''false'')"
| "dumps_compact (VInt i) = Some (py_str_int i)"
| "dumps_compact (VStr s) = Some (compact_str s)"
| "dumps_compact (VObj s) = None"
| "dumps_compact (VDict d) =
     map_option (\<lambda>es. ''{'' @ compact_items (foldr insert_key es []) @ ''}'') (dumps_entries d)"
| "dumps_entries [] = Some []"
| "dumps_entries ((k, v) # r) =
     (case dumps_compact v of None \<Rightarrow> None
      | Some t \<Rightarrow> (case dumps_entries r of None \<Rightarrow> None | Some es \<Rightarrow> Some ((k, t) # es)))"

datatype lerror = LValueError | LKeyError

definition run_payload_json :: "string \<Rightarrow> pval \<Rightarrow> lerror + string option" where
  "run_payload_json kind payload =
     (case payload of
        VNone \<Rightarrow> Inr None
      | VDict d \<Rightarrow>
          (case PAYLOAD_FIELDS kind of
             None \<Rightarrow> Inl LValueError
           | Some allowed \<Rightarrow>
               if \<exists>k \<in> fst ` set d. k \<notin> set allowed then Inl LValueError
               else (case dumps_compact (VDict d) of
                       None \<Rightarrow> Inl LValueError
                     | Some t \<Rightarrow> if utf8_len t > RUN_PAYLOAD_BYTES then Inl LValueError
                                 else Inr (Some t)))
      | _ \<Rightarrow> Inl LValueError)"

section \<open>The tables\<close>

record rrun =
  rr_kind :: string
  rr_trigger :: string
  rr_scope_type :: "string option"
  rr_scope_id :: "string option"
  rr_dispatch :: dispatch_state
  rr_completion :: run_state
  rr_accepted :: nat
  rr_terminal :: nat
  rr_succeeded :: nat
  rr_no_match :: nat
  rr_blocked :: nat
  rr_failed :: nat
  rr_updated :: string
  rr_completed_at :: "string option"

record ritem =
  ri_id :: nat
  ri_run :: string
  ri_kind :: string
  ri_etype :: string
  ri_eid :: string
  ri_state :: item_outcome
  ri_dispatch :: dispatch_state
  ri_priority :: string
  ri_payload :: "string option"
  ri_attempts :: nat
  ri_recovery :: nat
  ri_next_attempt :: "string option"
  ri_reason :: "string option"
  ri_updated :: string
  ri_completed :: "string option"

text \<open>\<open>rl_next\<close> is the next \<open>item_id\<close>; \<open>rl_emitted\<close> the run completions handed to the activity
  feed.\<close>

record rledger =
  rl_runs :: "rrun dict"
  rl_items :: "ritem list"
  rl_next :: nat
  rl_emitted :: "(string \<times> run_state) list"

definition get_run :: "rledger \<Rightarrow> string \<Rightarrow> rrun option" where
  "get_run s rid = dict_get (rl_runs s) rid"

definition get_item :: "rledger \<Rightarrow> string \<Rightarrow> string \<Rightarrow> string \<Rightarrow> lerror + ritem option" where
  "get_item s rid et eid =
     (case get_run s rid of
        None \<Rightarrow> Inl LKeyError
      | Some r \<Rightarrow> Inr (find (\<lambda>i. ri_run i = rid \<and> ri_kind i = rr_kind r \<and> ri_etype i = et
                                 \<and> ri_eid i = eid) (rl_items s)))"

definition get_item_by_id :: "rledger \<Rightarrow> nat \<Rightarrow> ritem option" where
  "get_item_by_id s n = find (\<lambda>i. ri_id i = n) (rl_items s)"

text \<open>\<open>UPDATE ... WHERE item_id = n AND guard\<close>, with its row count.\<close>

definition update_item :: "nat \<Rightarrow> (ritem \<Rightarrow> bool) \<Rightarrow> (ritem \<Rightarrow> ritem) \<Rightarrow> rledger \<Rightarrow> nat \<times> rledger" where
  "update_item n guard f s =
     (length (filter (\<lambda>i. ri_id i = n \<and> guard i) (rl_items s)),
      s\<lparr>rl_items := map (\<lambda>i. if ri_id i = n \<and> guard i then f i else i) (rl_items s)\<rparr>)"

definition is_open_item :: "ritem \<Rightarrow> bool" where
  "is_open_item i = (ri_state i \<in> {IAccepted, IRunning})"

definition put_run :: "string \<Rightarrow> rrun \<Rightarrow> rledger \<Rightarrow> rledger" where
  "put_run rid r s = s\<lparr>rl_runs := dict_set rid r (rl_runs s)\<rparr>"

definition is_retry_pending :: "ritem option \<Rightarrow> bool" where
  "is_retry_pending item =
     (case item of None \<Rightarrow> False | Some i \<Rightarrow> ri_state i = IAccepted \<and> 0 < ri_attempts i)"

definition redact_reason :: "(string \<Rightarrow> string) \<Rightarrow> string option \<Rightarrow> string option" where
  "redact_reason redact reason =
     (if present reason then map_option (\<lambda>r. take 1000 (redact r)) reason else None)"

section \<open>Runs\<close>

definition new_run :: "string \<Rightarrow> string \<Rightarrow> string option \<Rightarrow> string option \<Rightarrow> string \<Rightarrow> rrun" where
  "new_run kind trigger st sid now =
     \<lparr>rr_kind = kind, rr_trigger = trigger, rr_scope_type = st, rr_scope_id = sid,
      rr_dispatch = DPending, rr_completion = RPending, rr_accepted = 0, rr_terminal = 0,
      rr_succeeded = 0, rr_no_match = 0, rr_blocked = 0, rr_failed = 0, rr_updated = now,
      rr_completed_at = None\<rparr>"

definition create_run ::
  "rledger \<Rightarrow> string \<Rightarrow> string \<Rightarrow> string \<Rightarrow> string option \<Rightarrow> string option \<Rightarrow> string
   \<Rightarrow> lerror + rledger" where
  "create_run s rid kind trigger st sid now =
     (let k = py_lower (py_strip kind) in
      if rid = [] \<or> k = [] \<or> trigger = [] then Inl LValueError
      else case get_run s rid of
        None \<Rightarrow> Inr (put_run rid (new_run k trigger st sid now) s)
      | Some r \<Rightarrow>
          if rr_kind r \<noteq> k \<or> rr_trigger r \<noteq> trigger \<or> rr_scope_type r \<noteq> st \<or> rr_scope_id r \<noteq> sid
          then Inl LValueError else Inr s)"

definition record_dispatch ::
  "rledger \<Rightarrow> string \<Rightarrow> dispatch_state \<Rightarrow> string \<Rightarrow> lerror + rledger" where
  "record_dispatch s rid st now =
     (case get_run s rid of
        None \<Rightarrow> Inl LKeyError
      | Some r \<Rightarrow> Inr (put_run rid (r\<lparr>rr_dispatch := st, rr_updated := now\<rparr>) s))"

text \<open>The counters and the completion state of a run, from the states of its items.\<close>

definition count_state :: "item_outcome list \<Rightarrow> item_outcome \<Rightarrow> nat" where
  "count_state sts x = length (filter (\<lambda>y. y = x) sts)"

definition completion_of :: "nat \<Rightarrow> nat \<Rightarrow> nat \<Rightarrow> nat \<Rightarrow> run_state" where
  "completion_of accepted term failed blocked =
     (if accepted = 0 then RPending
      else if term < accepted then RRunning
      else if failed = accepted then RFailed
      else if blocked = accepted then RBlocked
      else if failed \<noteq> 0 \<or> blocked \<noteq> 0 then RPartial
      else RCompleted)"

definition item_states :: "rledger \<Rightarrow> string \<Rightarrow> item_outcome list" where
  "item_states s rid = map ri_state (filter (\<lambda>i. ri_run i = rid) (rl_items s))"

definition reconciled :: "item_outcome list \<Rightarrow> string \<Rightarrow> rrun \<Rightarrow> rrun" where
  "reconciled sts now r =
     (let accepted = length sts;
          term = length (filter outcome_terminal sts);
          failed = count_state sts IFailed + count_state sts IQuarantined + count_state sts ICancelled;
          blocked = count_state sts IBlocked
      in r\<lparr>rr_completion := completion_of accepted term failed blocked,
           rr_accepted := accepted, rr_terminal := term,
           rr_succeeded := count_state sts ISucceeded, rr_no_match := count_state sts INo_match,
           rr_blocked := blocked, rr_failed := failed, rr_updated := now,
           rr_completed_at := (if term = accepted \<and> accepted \<noteq> 0 then Some now else None)\<rparr>)"

definition run_closed :: "run_state \<Rightarrow> bool" where
  "run_closed c = (c \<notin> {RPending, RRunning})"

definition reconcile :: "rledger \<Rightarrow> string \<Rightarrow> string \<Rightarrow> lerror + rledger" where
  "reconcile s rid now =
     (case get_run s rid of
        None \<Rightarrow> Inl LKeyError
      | Some r \<Rightarrow>
          let r' = reconciled (item_states s rid) now r; t = put_run rid r' s
          in Inr (if \<not> run_closed (rr_completion r) \<and> run_closed (rr_completion r')
                  then t\<lparr>rl_emitted := rl_emitted t @ [(rid, rr_completion r')]\<rparr> else t))"

definition complete_empty_run ::
  "rledger \<Rightarrow> string \<Rightarrow> run_state \<Rightarrow> dispatch_state \<Rightarrow> string \<Rightarrow> lerror + rledger" where
  "complete_empty_run s rid completion dispatch now =
     (case get_run s rid of
        None \<Rightarrow> Inl LKeyError
      | Some r \<Rightarrow>
          if completion \<in> {RPending, RRunning} then Inl LValueError
          else if item_states s rid \<noteq> [] then Inl LValueError
          else let t = put_run rid (r\<lparr>rr_dispatch := dispatch, rr_completion := completion,
                         rr_updated := now, rr_completed_at := Some now\<rparr>) s
               in Inr (t\<lparr>rl_emitted := rl_emitted t @ [(rid, completion)]\<rparr>))"

section \<open>Items\<close>

definition new_item :: "nat \<Rightarrow> string \<Rightarrow> string \<Rightarrow> string \<Rightarrow> string \<Rightarrow> string option \<Rightarrow> string \<Rightarrow> string \<Rightarrow> ritem" where
  "new_item n rid kind et eid payload priority now =
     \<lparr>ri_id = n, ri_run = rid, ri_kind = kind, ri_etype = et, ri_eid = eid, ri_state = IAccepted,
      ri_dispatch = DPending, ri_priority = priority, ri_payload = payload, ri_attempts = 0,
      ri_recovery = 0, ri_next_attempt = None, ri_reason = None, ri_updated = now,
      ri_completed = None\<rparr>"

text \<open>The INSERT, or what a second acceptance of the same identity may still do: fill in a missing
  payload of an open item.\<close>

definition insert_item ::
  "rledger \<Rightarrow> string \<Rightarrow> string \<Rightarrow> string \<Rightarrow> string \<Rightarrow> string option \<Rightarrow> string \<Rightarrow> string
   \<Rightarrow> lerror + rledger" where
  "insert_item s rid kind et eid encoded priority now =
     (case find (\<lambda>i. ri_run i = rid \<and> ri_kind i = kind \<and> ri_etype i = et \<and> ri_eid i = eid) (rl_items s) of
        None \<Rightarrow> Inr (s\<lparr>rl_items := rl_items s @ [new_item (rl_next s) rid kind et eid encoded priority now],
                       rl_next := Suc (rl_next s)\<rparr>)
      | Some i \<Rightarrow>
          if encoded \<noteq> None \<and> ri_payload i \<noteq> None \<and> ri_payload i \<noteq> encoded then Inl LValueError
          else if ri_payload i = None \<and> encoded \<noteq> None
          then Inr (snd (update_item (ri_id i) is_open_item
                      (\<lambda>j. j\<lparr>ri_payload := encoded, ri_updated := now\<rparr>) s))
          else Inr s)"

definition accept_item ::
  "rledger \<Rightarrow> string \<Rightarrow> string \<Rightarrow> string \<Rightarrow> pval \<Rightarrow> string option \<Rightarrow> string \<Rightarrow> string
   \<Rightarrow> lerror + rledger" where
  "accept_item s rid et eid payload kind priority now =
     (case get_run s rid of
        None \<Rightarrow> Inl LKeyError
      | Some r \<Rightarrow>
          if run_closed (rr_completion r) then Inl LValueError
          else let k = py_lower (py_strip (case kind of Some x \<Rightarrow> if x \<noteq> [] then x else rr_kind r
                                            | None \<Rightarrow> rr_kind r)) in
          if k \<noteq> rr_kind r then Inl LValueError
          else (case run_payload_json k payload of
                  Inl e \<Rightarrow> Inl e
                | Inr encoded \<Rightarrow>
                    (case insert_item s rid k et eid encoded priority now of
                       Inl e \<Rightarrow> Inl e
                     | Inr t \<Rightarrow> reconcile t rid now)))"

text \<open>The read that starts every operation on one item.\<close>

definition the_item :: "rledger \<Rightarrow> string \<Rightarrow> string \<Rightarrow> string \<Rightarrow> lerror + ritem" where
  "the_item s rid et eid =
     (case get_item s rid et eid of
        Inl e \<Rightarrow> Inl e | Inr None \<Rightarrow> Inl LKeyError | Inr (Some i) \<Rightarrow> Inr i)"

definition set_item_queue_priority ::
  "(rledger \<Rightarrow> rledger) \<Rightarrow> rledger \<Rightarrow> string \<Rightarrow> string \<Rightarrow> string \<Rightarrow> string \<Rightarrow> string \<Rightarrow> lerror + rledger" where
  "set_item_queue_priority mid s rid et eid priority now =
     (case the_item s rid et eid of
        Inl e \<Rightarrow> Inl e
      | Inr i \<Rightarrow> Inr (snd (update_item (ri_id i) is_open_item
                   (\<lambda>j. j\<lparr>ri_priority := priority, ri_updated := now\<rparr>) (mid s))))"

definition record_item_dispatch ::
  "(rledger \<Rightarrow> rledger) \<Rightarrow> rledger \<Rightarrow> string \<Rightarrow> string \<Rightarrow> string \<Rightarrow> dispatch_state \<Rightarrow> string option \<Rightarrow> string
   \<Rightarrow> lerror + rledger" where
  "record_item_dispatch mid s rid et eid st reason now =
     (case the_item s rid et eid of
        Inl e \<Rightarrow> Inl e
      | Inr i \<Rightarrow>
          if st \<notin> {DPending, DAccepted, DError} then Inl LValueError
          else (case update_item (ri_id i) is_open_item
                   (\<lambda>j. j\<lparr>ri_dispatch := st,
                          ri_reason := (if present reason then map_option (take 1000) reason else None),
                          ri_updated := now\<rparr>) (mid s) of
                  (n, t) \<Rightarrow>
                    if n \<noteq> 1
                    then (case get_item t rid et eid of
                            Inr (Some j) \<Rightarrow> if outcome_terminal (ri_state j) then Inr t else Inl LValueError
                          | _ \<Rightarrow> Inl LValueError)
                    else Inr t))"

definition claim_item_dispatch ::
  "(rledger \<Rightarrow> rledger) \<Rightarrow> rledger \<Rightarrow> string \<Rightarrow> string \<Rightarrow> string \<Rightarrow> string \<Rightarrow> lerror + bool \<times> rledger" where
  "claim_item_dispatch mid s rid et eid now =
     (case the_item s rid et eid of
        Inl e \<Rightarrow> Inl e
      | Inr i \<Rightarrow>
          (case update_item (ri_id i) (\<lambda>j. ri_state j = IAccepted \<and> ri_dispatch j \<in> {DPending, DError})
                  (\<lambda>j. j\<lparr>ri_dispatch := DAccepted, ri_updated := now\<rparr>) (mid s) of
             (n, t) \<Rightarrow> Inr (n = 1, t)))"

definition claim_item ::
  "(rledger \<Rightarrow> rledger) \<Rightarrow> rledger \<Rightarrow> string \<Rightarrow> string \<Rightarrow> string \<Rightarrow> string \<Rightarrow> lerror + bool \<times> rledger" where
  "claim_item mid s rid et eid now =
     (case the_item s rid et eid of
        Inl e \<Rightarrow> Inl e
      | Inr i \<Rightarrow>
          if ri_state i \<noteq> IAccepted then Inr (False, s)
          else (case update_item (ri_id i) (\<lambda>j. ri_state j = IAccepted)
                  (\<lambda>j. j\<lparr>ri_state := IRunning, ri_attempts := ri_attempts j + 1,
                         ri_next_attempt := None, ri_updated := now\<rparr>) (mid s) of
                  (n, t) \<Rightarrow> Inr (n = 1, t)))"

text \<open>\<open>record_requeue\<close>: the terminal test is on the row read first, the UPDATE has no guard.\<close>

definition record_requeue ::
  "(string \<Rightarrow> string) \<Rightarrow> (rledger \<Rightarrow> rledger) \<Rightarrow> rledger \<Rightarrow> string \<Rightarrow> string \<Rightarrow> string \<Rightarrow> string option
   \<Rightarrow> string option \<Rightarrow> string \<Rightarrow> lerror + rledger" where
  "record_requeue redact mid s rid et eid reason next_at now =
     (case the_item s rid et eid of
        Inl e \<Rightarrow> Inl e
      | Inr i \<Rightarrow>
          if outcome_terminal (ri_state i) then Inl LValueError
          else reconcile (snd (update_item (ri_id i) (\<lambda>_. True)
                 (\<lambda>j. j\<lparr>ri_state := IAccepted, ri_reason := redact_reason redact reason,
                        ri_next_attempt := next_at, ri_updated := now\<rparr>) (mid s))) rid now)"

definition record_outcome ::
  "(string \<Rightarrow> string) \<Rightarrow> (rledger \<Rightarrow> rledger) \<Rightarrow> rledger \<Rightarrow> string \<Rightarrow> string \<Rightarrow> string \<Rightarrow> item_outcome
   \<Rightarrow> string option \<Rightarrow> string \<Rightarrow> lerror + rledger" where
  "record_outcome redact mid s rid et eid out reason now =
     (case the_item s rid et eid of
        Inl e \<Rightarrow> Inl e
      | Inr i \<Rightarrow>
          if \<not> outcome_terminal out then Inl LValueError
          else if outcome_terminal (ri_state i) \<and> ri_state i \<noteq> out then Inl LValueError
          else if ri_state i \<noteq> out
          then reconcile (snd (update_item (ri_id i) is_open_item
                 (\<lambda>j. j\<lparr>ri_state := out, ri_reason := redact_reason redact reason,
                        ri_next_attempt := None, ri_updated := now, ri_completed := Some now\<rparr>)
                 (mid s))) rid now
          else reconcile s rid now)"

section \<open>Crash recovery\<close>

definition list_recoverable_items :: "rledger \<Rightarrow> string option \<Rightarrow> ritem list" where
  "list_recoverable_items s kind =
     filter (\<lambda>i. is_open_item i \<and>
       (case kind of None \<Rightarrow> True | Some k \<Rightarrow> ri_kind i = py_lower (py_strip k))) (rl_items s)"

text \<open>\<open>claim_recovery\<close> on an item the caller has listed.\<close>

definition claim_recovery ::
  "(string \<Rightarrow> string) \<Rightarrow> rledger \<Rightarrow> ritem \<Rightarrow> string \<Rightarrow> lerror + bool \<times> rledger" where
  "claim_recovery redact s item now =
     (if MAX_RECOVERY_ATTEMPTS \<le> ri_recovery item
      then (case record_outcome redact id s (ri_run item) (ri_etype item) (ri_eid item) IQuarantined
                   (Some ''recovery_attempts_exhausted'') now of
              Inl e \<Rightarrow> Inl e
            | Inr t \<Rightarrow> Inr (False, t))
      else Inr (True, snd (update_item (ri_id item) (\<lambda>_. True)
             (\<lambda>j. j\<lparr>ri_recovery := ri_recovery j + 1, ri_updated := now\<rparr>) s)))"

definition count_recovery_pending :: "rledger \<Rightarrow> nat" where
  "count_recovery_pending s = length (filter (\<lambda>i. is_open_item i \<and> 0 < ri_recovery i) (rl_items s))"

definition list_pending_dispatch_items :: "rledger \<Rightarrow> string \<Rightarrow> lerror + ritem list" where
  "list_pending_dispatch_items s rid =
     (case get_run s rid of
        None \<Rightarrow> Inl LKeyError
      | Some r \<Rightarrow> Inr (filter (\<lambda>i. ri_run i = rid \<and> ri_kind i = rr_kind r \<and> ri_state i = IAccepted
                          \<and> ri_dispatch i \<in> {DPending, DError}) (rl_items s)))"

definition list_items :: "rledger \<Rightarrow> string \<Rightarrow> lerror + ritem list" where
  "list_items s rid =
     (case get_run s rid of
        None \<Rightarrow> Inl LKeyError
      | Some r \<Rightarrow> Inr (filter (\<lambda>i. ri_run i = rid \<and> ri_kind i = rr_kind r) (rl_items s)))"

end
