(* ===== verification/RunLedgerInv.thy ===== *)
theory RunLedgerInv
  imports RunLedger
begin

text \<open>
  The invariant of the run ledger (identities are unique, every item belongs to a run of its kind,
  the counters of a run are those of its items), what one operation may do to one item
  (\<open>item_evolves\<close>), and the claims the workers race for.
\<close>

section \<open>Updates of one item\<close>

definition same_identity :: "ritem \<Rightarrow> ritem \<Rightarrow> bool" where
  "same_identity i j \<longleftrightarrow> ri_id j = ri_id i \<and> ri_run j = ri_run i \<and> ri_kind j = ri_kind i
     \<and> ri_etype j = ri_etype i \<and> ri_eid j = ri_eid i"

definition identity_fixed :: "(ritem \<Rightarrow> ritem) \<Rightarrow> bool" where
  "identity_fixed f \<longleftrightarrow> (\<forall>i. same_identity i (f i))"

lemma update_item_runs [simp]: "rl_runs (snd (update_item n g f s)) = rl_runs s"
  "rl_next (snd (update_item n g f s)) = rl_next s"
  "rl_emitted (snd (update_item n g f s)) = rl_emitted s"
  by (simp_all add: update_item_def)

lemma get_run_update [simp]: "get_run (snd (update_item n g f s)) = get_run s"
  by (rule ext) (simp add: get_run_def)

lemma find_map_same: "(\<And>x. P (h x) = P x) \<Longrightarrow> find P (map h xs) = map_option h (find P xs)"
  by (induction xs) auto

lemma get_item_by_id_update:
  assumes "identity_fixed f"
  shows "get_item_by_id (snd (update_item n g f s)) m =
    map_option (\<lambda>i. if ri_id i = n \<and> g i then f i else i) (get_item_by_id s m)"
  using assms unfolding get_item_by_id_def update_item_def identity_fixed_def same_identity_def
  by (simp add: find_map_same)

lemma get_run_put [simp]: "get_run (put_run rid r s) x = (if x = rid then Some r else get_run s x)"
  by (simp add: get_run_def put_run_def dict_get_set)

lemma put_run_items [simp]:
  "rl_items (put_run rid r s) = rl_items s" "rl_next (put_run rid r s) = rl_next s"
  by (simp_all add: put_run_def)

lemma get_run_emit [simp]: "get_run (s\<lparr>rl_emitted := x\<rparr>) = get_run s"
  by (rule ext) (simp add: get_run_def)

lemma item_by_id_put [simp]:
  "get_item_by_id (put_run rid r s) = get_item_by_id s"
  "get_item_by_id (s\<lparr>rl_emitted := x\<rparr>) = get_item_by_id s"
  by (rule ext, simp add: get_item_by_id_def)+

lemma reconcile_items:
  assumes "reconcile s rid now = Inr t"
  shows "rl_items t = rl_items s" and "rl_next t = rl_next s"
  using assms by (auto simp: reconcile_def Let_def split: option.splits if_splits)

lemma reconcile_by_id: "reconcile s rid now = Inr t \<Longrightarrow> get_item_by_id t = get_item_by_id s"
  by (rule ext) (simp add: get_item_by_id_def reconcile_items)

section \<open>The tables are well formed\<close>

definition identity :: "ritem \<Rightarrow> string \<times> string \<times> string \<times> string" where
  "identity i = (ri_run i, ri_kind i, ri_etype i, ri_eid i)"

definition base_wf :: "rledger \<Rightarrow> bool" where
  "base_wf s \<longleftrightarrow> distinct (map ri_id (rl_items s)) \<and> (\<forall>i \<in> set (rl_items s). ri_id i < rl_next s)
     \<and> distinct (map identity (rl_items s))
     \<and> (\<forall>i \<in> set (rl_items s). \<exists>r. get_run s (ri_run i) = Some r \<and> rr_kind r = ri_kind i)
     \<and> dict_ok (rl_runs s)"

text \<open>The counters of a run are those of its items; a run without items may have been closed.\<close>

definition counters_exact :: "item_outcome list \<Rightarrow> rrun \<Rightarrow> bool" where
  "counters_exact sts r \<longleftrightarrow>
     rr_accepted r = length sts \<and> rr_terminal r = length (filter outcome_terminal sts)
     \<and> rr_succeeded r = count_state sts ISucceeded \<and> rr_no_match r = count_state sts INo_match
     \<and> rr_blocked r = count_state sts IBlocked
     \<and> rr_failed r = count_state sts IFailed + count_state sts IQuarantined + count_state sts ICancelled
     \<and> (sts \<noteq> [] \<longrightarrow>
          rr_completion r = completion_of (rr_accepted r) (rr_terminal r) (rr_failed r) (rr_blocked r)
          \<and> (rr_completed_at r \<noteq> None \<longleftrightarrow> rr_terminal r = rr_accepted r))"

definition ledger_wf :: "rledger \<Rightarrow> bool" where
  "ledger_wf s \<longleftrightarrow> base_wf s
     \<and> (\<forall>rid r. get_run s rid = Some r \<longrightarrow> counters_exact (item_states s rid) r)"

lemma reconciled_exact [simp]: "counters_exact sts (reconciled sts now r)"
  by (simp add: counters_exact_def reconciled_def Let_def)

lemma reconciled_kind [simp]: "rr_kind (reconciled sts now r) = rr_kind r"
  by (simp add: reconciled_def Let_def)

lemma item_states_put [simp]: "item_states (put_run rid r s) = item_states s"
  "item_states (s\<lparr>rl_emitted := x\<rparr>) = item_states s"
  by (rule ext, simp add: item_states_def)+

lemma base_wf_put:
  assumes "base_wf s" and "\<And>q. get_run s rid = Some q \<Longrightarrow> rr_kind r = rr_kind q"
  shows "base_wf (put_run rid r s)"
proof -
  have "\<exists>q. get_run (put_run rid r s) (ri_run i) = Some q \<and> rr_kind q = ri_kind i"
    if "i \<in> set (rl_items s)" for i
    using assms that by (cases "ri_run i = rid") (auto simp: base_wf_def)
  then show ?thesis using assms(1) by (auto simp: base_wf_def put_run_def)
qed

lemma base_wf_emit [simp]: "base_wf (s\<lparr>rl_emitted := x\<rparr>) = base_wf s"
  by (simp add: base_wf_def)

lemma reconcile_wf:
  assumes "base_wf s" and "reconcile s rid now = Inr t"
    and "\<And>x r. x \<noteq> rid \<Longrightarrow> get_run s x = Some r \<Longrightarrow> counters_exact (item_states s x) r"
  shows "ledger_wf t"
proof -
  obtain r where r: "get_run s rid = Some r"
    using assms(2) by (auto simp: reconcile_def split: option.splits)
  let ?u = "put_run rid (reconciled (item_states s rid) now r) s"
  have u: "base_wf ?u" using assms(1) r by (intro base_wf_put) auto
  have t: "t = ?u \<or> (\<exists>e. t = ?u\<lparr>rl_emitted := e\<rparr>)"
    using assms(2) r by (auto simp: reconcile_def Let_def split: if_splits)
  have "ledger_wf ?u"
    unfolding ledger_wf_def using u assms(3) by auto
  then show ?thesis using t by (auto simp: ledger_wf_def)
qed

lemma update_item_base:
  assumes "base_wf s" and "identity_fixed f"
  shows "base_wf (snd (update_item n g f s))"
proof -
  let ?h = "\<lambda>i. if ri_id i = n \<and> g i then f i else i"
  have keep: "ri_id (f i) = ri_id i" "identity (f i) = identity i"
    "ri_run (f i) = ri_run i" "ri_kind (f i) = ri_kind i" for i
    using assms(2) by (auto simp: identity_fixed_def same_identity_def identity_def)
  have items: "rl_items (snd (update_item n g f s)) = map ?h (rl_items s)"
    by (simp add: update_item_def)
  have "map ri_id (map ?h (rl_items s)) = map ri_id (rl_items s)"
    and "map identity (map ?h (rl_items s)) = map identity (rl_items s)"
    by (simp_all add: keep)
  moreover have "\<forall>i \<in> set (map ?h (rl_items s)). ri_id i < rl_next s"
    using assms(1) unfolding base_wf_def by (auto simp: keep)
  moreover have "\<forall>i \<in> set (map ?h (rl_items s)). \<exists>r. get_run s (ri_run i) = Some r \<and> rr_kind r = ri_kind i"
    using assms(1) unfolding base_wf_def by (auto simp: keep)
  ultimately show ?thesis
    using assms(1) unfolding base_wf_def items update_item_runs get_run_update by argo
qed

text \<open>An update of an item only shows in the counters of its own run, and not at all when it leaves
  every state as it was up to the step from accepted to running.\<close>

definition open_form :: "item_outcome \<Rightarrow> item_outcome" where
  "open_form st = (if outcome_terminal st then st else IAccepted)"

lemma counters_open_form:
  assumes "map open_form xs = map open_form ys"
  shows "counters_exact xs r = counters_exact ys r"
proof -
  have c: "count_state zs st = count_state (map open_form zs) st" if "outcome_terminal st" for zs st
    using that by (induction zs) (auto simp: count_state_def open_form_def outcome_terminal_def)
  have n: "length (filter outcome_terminal zs) = length (filter outcome_terminal (map open_form zs))" for zs
    by (induction zs) (auto simp: open_form_def outcome_terminal_def)
  have "count_state xs st = count_state ys st" if "outcome_terminal st" for st
    using c [OF that] assms by metis
  moreover have "length (filter outcome_terminal xs) = length (filter outcome_terminal ys)"
    using n assms by metis
  moreover have "length xs = length ys" using assms by (metis length_map)
  moreover from this have "xs = [] \<longleftrightarrow> ys = []" by auto
  moreover have "outcome_terminal ISucceeded" "outcome_terminal INo_match" "outcome_terminal IBlocked"
    "outcome_terminal IFailed" "outcome_terminal IQuarantined" "outcome_terminal ICancelled"
    by (simp_all add: outcome_terminal_def)
  ultimately show ?thesis by (simp add: counters_exact_def)
qed

lemma item_states_other:
  assumes "identity_fixed f" and "\<And>i. i \<in> set (rl_items s) \<Longrightarrow> ri_id i = n \<Longrightarrow> ri_run i \<noteq> x"
  shows "item_states (snd (update_item n g f s)) x = item_states s x"
proof -
  let ?h = "\<lambda>i. if ri_id i = n \<and> g i then f i else i"
  have "map ri_state (filter (\<lambda>i. ri_run i = x) (map ?h xs))
      = map ri_state (filter (\<lambda>i. ri_run i = x) xs)" if "set xs \<subseteq> set (rl_items s)" for xs
    using that
  proof (induction xs)
    case (Cons i xs)
    have "ri_run (?h i) = ri_run i"
      using assms(1) by (auto simp: identity_fixed_def same_identity_def)
    moreover have "ri_run i = x \<Longrightarrow> ?h i = i" using assms(2) Cons.prems by auto
    ultimately show ?case using Cons by simp
  qed simp
  then show ?thesis by (simp add: item_states_def update_item_def)
qed

lemma item_states_open_form:
  assumes "identity_fixed f" and "\<And>i. g i \<Longrightarrow> open_form (ri_state (f i)) = open_form (ri_state i)"
  shows "map open_form (item_states (snd (update_item n g f s)) x) = map open_form (item_states s x)"
proof -
  let ?h = "\<lambda>i. if ri_id i = n \<and> g i then f i else i"
  have "map open_form (map ri_state (filter (\<lambda>i. ri_run i = x) (map ?h xs)))
      = map open_form (map ri_state (filter (\<lambda>i. ri_run i = x) xs))" for xs
  proof (induction xs)
    case (Cons i xs)
    have "ri_run (?h i) = ri_run i"
      using assms(1) by (auto simp: identity_fixed_def same_identity_def)
    then show ?case using Cons assms(2) by simp
  qed simp
  then show ?thesis by (simp add: item_states_def update_item_def)
qed

lemma update_item_wf:
  assumes "ledger_wf s" and "identity_fixed f"
    and "\<And>i. g i \<Longrightarrow> open_form (ri_state (f i)) = open_form (ri_state i)"
  shows "ledger_wf (snd (update_item n g f s))"
  using assms(1) update_item_base [OF _ assms(2)]
    counters_open_form [OF item_states_open_form [OF assms(2,3)]]
  by (auto simp: ledger_wf_def)

lemma identity_fixed_simps [simp]:
  "identity_fixed (\<lambda>j. j\<lparr>ri_payload := a, ri_updated := b\<rparr>)"
  "identity_fixed (\<lambda>j. j\<lparr>ri_priority := pr, ri_updated := b\<rparr>)"
  "identity_fixed (\<lambda>j. j\<lparr>ri_dispatch := d, ri_reason := a, ri_updated := b\<rparr>)"
  "identity_fixed (\<lambda>j. j\<lparr>ri_dispatch := d, ri_updated := b\<rparr>)"
  "identity_fixed (\<lambda>j. j\<lparr>ri_state := st, ri_attempts := Suc (ri_attempts j), ri_next_attempt := a,
      ri_updated := b\<rparr>)"
  "identity_fixed (\<lambda>j. j\<lparr>ri_state := st, ri_reason := a, ri_next_attempt := c, ri_updated := b\<rparr>)"
  "identity_fixed (\<lambda>j. j\<lparr>ri_state := st, ri_reason := a, ri_next_attempt := c, ri_updated := b,
      ri_completed := d'\<rparr>)"
  "identity_fixed (\<lambda>j. j\<lparr>ri_recovery := Suc (ri_recovery j), ri_updated := b\<rparr>)"
  by (simp_all add: identity_fixed_def same_identity_def)

text \<open>The read of an item gives the row with its id.\<close>

lemma find_unique:
  assumes "distinct (map h xs)" and "x \<in> set xs" and "P x" and "\<And>y. y \<in> set xs \<Longrightarrow> P y \<Longrightarrow> h y = h x"
  shows "find P xs = Some x"
  using assms
proof (induction xs)
  case (Cons z xs)
  show ?case
  proof (cases "P z")
    case True
    then have "h z = h x" using Cons.prems(4) [of z] by simp
    moreover have "h z \<notin> h ` set xs" using Cons.prems(1) by simp
    ultimately have "x \<notin> set xs" by auto
    then have "z = x" using Cons.prems(2) by simp
    with True show ?thesis by simp
  next
    case False
    then have "x \<in> set xs" using Cons.prems(2,3) by auto
    moreover have "distinct (map h xs)" using Cons.prems(1) by simp
    moreover have "h y = h x" if "y \<in> set xs" and "P y" for y
      by (rule Cons.prems(4)) (simp_all add: that)
    ultimately have "find P xs = Some x" using Cons.prems(3) by (intro Cons.IH)
    with False show ?thesis by simp
  qed
qed simp

lemma the_item_row:
  assumes "the_item s rid et eid = Inr i"
  shows "i \<in> set (rl_items s) \<and> ri_run i = rid \<and> ri_etype i = et \<and> ri_eid i = eid
    \<and> (\<exists>r. get_run s rid = Some r \<and> ri_kind i = rr_kind r)"
  using assms by (auto simp: the_item_def get_item_def find_Some_iff split: option.splits sum.splits)

lemma the_item_by_id:
  assumes "base_wf s" and "the_item s rid et eid = Inr i"
  shows "get_item_by_id s (ri_id i) = Some i"
  unfolding get_item_by_id_def
proof (rule find_unique [where h = ri_id])
  show "distinct (map ri_id (rl_items s))" using assms(1) by (simp add: base_wf_def)
  show "i \<in> set (rl_items s)" using the_item_row [OF assms(2)] by blast
qed simp_all

lemma by_id_mem: "get_item_by_id s n = Some i \<Longrightarrow> i \<in> set (rl_items s) \<and> ri_id i = n"
  by (auto simp: get_item_by_id_def find_Some_iff)

lemma same_id_same_item:
  "base_wf s \<Longrightarrow> i \<in> set (rl_items s) \<Longrightarrow> j \<in> set (rl_items s) \<Longrightarrow> ri_id i = ri_id j \<Longrightarrow> i = j"
  unfolding base_wf_def distinct_map by (blast dest: inj_onD)

section \<open>Histories\<close>

text \<open>The operations of the ledger, each run to its end before the next one starts.\<close>

datatype lop =
    LCreate string string string "string option" "string option" string
  | LDispatch string dispatch_state string
  | LAccept string string string pval "string option" string string
  | LPriority string string string string string
  | LItemDispatch string string string dispatch_state "string option" string
  | LClaimDispatch string string string string
  | LClaim string string string string
  | LRequeue string string string "string option" "string option" string
  | LOutcome string string string item_outcome "string option" string
  | LRecover ritem string
  | LReconcile string string
  | LEmpty string run_state dispatch_state string

definition keep :: "rledger \<Rightarrow> lerror + rledger \<Rightarrow> rledger" where
  "keep s x = (case x of Inl _ \<Rightarrow> s | Inr t \<Rightarrow> t)"

definition keep_snd :: "rledger \<Rightarrow> lerror + bool \<times> rledger \<Rightarrow> bool \<times> rledger" where
  "keep_snd s x = (case x of Inl _ \<Rightarrow> (False, s) | Inr t \<Rightarrow> t)"

text \<open>A recovery is claimed for an item as \<open>list_recoverable_items\<close> has just returned it.\<close>

fun lstep :: "(string \<Rightarrow> string) \<Rightarrow> rledger \<Rightarrow> lop \<Rightarrow> rledger" where
  "lstep rd s (LCreate rid k tr st sid now) = keep s (create_run s rid k tr st sid now)"
| "lstep rd s (LDispatch rid st now) = keep s (record_dispatch s rid st now)"
| "lstep rd s (LAccept rid et eid p k pr now) = keep s (accept_item s rid et eid p k pr now)"
| "lstep rd s (LPriority rid et eid pr now) = keep s (set_item_queue_priority id s rid et eid pr now)"
| "lstep rd s (LItemDispatch rid et eid st re now) =
     keep s (record_item_dispatch id s rid et eid st re now)"
| "lstep rd s (LClaimDispatch rid et eid now) = snd (keep_snd s (claim_item_dispatch id s rid et eid now))"
| "lstep rd s (LClaim rid et eid now) = snd (keep_snd s (claim_item id s rid et eid now))"
| "lstep rd s (LRequeue rid et eid re na now) = keep s (record_requeue rd id s rid et eid re na now)"
| "lstep rd s (LOutcome rid et eid out re now) = keep s (record_outcome rd id s rid et eid out re now)"
| "lstep rd s (LRecover i now) =
     (if i \<in> set (list_recoverable_items s None) then snd (keep_snd s (claim_recovery rd s i now)) else s)"
| "lstep rd s (LReconcile rid now) = keep s (reconcile s rid now)"
| "lstep rd s (LEmpty rid c d now) = keep s (complete_empty_run s rid c d now)"

definition lrun :: "(string \<Rightarrow> string) \<Rightarrow> lop list \<Rightarrow> rledger \<Rightarrow> rledger" where
  "lrun rd ops s = foldl (lstep rd) s ops"

definition empty_ledger :: rledger where
  "empty_ledger = \<lparr>rl_runs = [], rl_items = [], rl_next = 0, rl_emitted = []\<rparr>"

lemma keep_cases: "(\<And>t. x = Inr t \<Longrightarrow> P t) \<Longrightarrow> P s \<Longrightarrow> P (keep s x)"
  by (cases x) (auto simp: keep_def)

lemma keep_snd_cases: "(\<And>w t. x = Inr (w, t) \<Longrightarrow> P t) \<Longrightarrow> P s \<Longrightarrow> P (snd (keep_snd s x))"
  by (cases x) (auto simp: keep_snd_def)

section \<open>What one operation may do to an item\<close>

definition item_evolves :: "(string \<times> string \<times> string \<times> string \<Rightarrow> bool) \<Rightarrow> ritem \<Rightarrow> ritem \<Rightarrow> bool" where
  "item_evolves al i j \<longleftrightarrow> same_identity i j
     \<and> (ri_payload i \<noteq> None \<longrightarrow> ri_payload j = ri_payload i)
     \<and> ri_recovery i \<le> ri_recovery j \<and> ri_attempts i \<le> ri_attempts j
     \<and> (outcome_terminal (ri_state i) \<longrightarrow> j = i)
     \<and> (ri_state i \<noteq> IAccepted \<and> \<not> al (identity i) \<longrightarrow> ri_state j \<noteq> IAccepted)"

text \<open>\<open>al\<close> is the set of identities that may go back to accepted: those some step requeues.\<close>

definition items_evolve :: "(string \<times> string \<times> string \<times> string \<Rightarrow> bool) \<Rightarrow> rledger \<Rightarrow> rledger \<Rightarrow> bool" where
  "items_evolve al s t \<longleftrightarrow> (\<forall>n i. get_item_by_id s n = Some i \<longrightarrow>
     (\<exists>j. get_item_by_id t n = Some j \<and> item_evolves al i j))"

lemma item_evolves_refl [simp]: "item_evolves al i i"
  by (simp add: item_evolves_def same_identity_def)

lemma item_evolves_trans: "item_evolves al i j \<Longrightarrow> item_evolves al j k \<Longrightarrow> item_evolves al i k"
  unfolding item_evolves_def same_identity_def identity_def by (metis le_trans)

lemma items_evolve_refl [simp]: "items_evolve al s s"
  by (auto simp: items_evolve_def)

lemma items_evolve_trans: "items_evolve al s t \<Longrightarrow> items_evolve al t u \<Longrightarrow> items_evolve al s u"
  unfolding items_evolve_def by (meson item_evolves_trans)

lemma items_evolve_same: "get_item_by_id t = get_item_by_id s \<Longrightarrow> items_evolve al s t"
  by (simp add: items_evolve_def)

lemma update_evolves:
  assumes "identity_fixed f" and "\<And>i. get_item_by_id s n = Some i \<Longrightarrow> g i \<Longrightarrow> item_evolves al i (f i)"
  shows "items_evolve al s (snd (update_item n g f s))"
  unfolding items_evolve_def
proof (intro allI impI)
  fix m i
  assume i: "get_item_by_id s m = Some i"
  then have "ri_id i = m" using by_id_mem by blast
  then show "\<exists>j. get_item_by_id (snd (update_item n g f s)) m = Some j \<and> item_evolves al i j"
    using assms(2) i by (auto simp: get_item_by_id_update [OF assms(1)])
qed

lemma open_not_terminal: "is_open_item i \<longleftrightarrow> \<not> outcome_terminal (ri_state i)"
  by (auto simp: is_open_item_def outcome_terminal_def)

subsection \<open>Each operation\<close>

definition good_step :: "(string \<times> string \<times> string \<times> string \<Rightarrow> bool) \<Rightarrow> rledger \<Rightarrow> rledger \<Rightarrow> bool" where
  "good_step al s t \<longleftrightarrow> ledger_wf t \<and> items_evolve al s t"

lemma good_step_refl [simp]: "ledger_wf s \<Longrightarrow> good_step al s s"
  by (simp add: good_step_def)

lemma good_stepI: "ledger_wf t \<Longrightarrow> items_evolve al s t \<Longrightarrow> good_step al s t"
  by (simp add: good_step_def)

lemma create_run_step:
  assumes "ledger_wf s" and "create_run s rid k tr st sid now = Inr t"
  shows "good_step al s t"
proof (cases "get_run s rid")
  case None
  then have none: "item_states s rid = []"
    using assms(1) by (auto simp: ledger_wf_def base_wf_def item_states_def filter_empty_conv)
  have t: "t = put_run rid (new_run (py_lower (py_strip k)) tr st sid now) s"
    using assms(2) None by (auto simp: create_run_def Let_def split: if_splits)
  have "base_wf t" using assms(1) None t by (auto simp: ledger_wf_def intro: base_wf_put)
  moreover have "counters_exact [] (new_run a b c d e)" for a b c d e
    by (simp add: counters_exact_def new_run_def count_state_def)
  ultimately show ?thesis
    using assms(1) none t by (auto simp: good_step_def ledger_wf_def items_evolve_same)
next
  case (Some r)
  then show ?thesis using assms by (auto simp: create_run_def Let_def split: if_splits)
qed

lemma run_fields_step:
  assumes "ledger_wf s" and "get_run s rid = Some r" and "rr_kind r' = rr_kind r"
    and "\<And>sts. sts = item_states s rid \<Longrightarrow> counters_exact sts r \<Longrightarrow> counters_exact sts r'"
  shows "good_step al s (put_run rid r' s)"
  using assms base_wf_put [of s rid r'] by (auto simp: good_step_def ledger_wf_def items_evolve_same)

lemma good_step_emit [simp]: "good_step al s (t\<lparr>rl_emitted := x\<rparr>) = good_step al s t"
  by (simp add: good_step_def ledger_wf_def items_evolve_def)

lemma record_dispatch_step:
  "ledger_wf s \<Longrightarrow> record_dispatch s rid st now = Inr t \<Longrightarrow> good_step al s t"
  by (auto simp: record_dispatch_def counters_exact_def intro: run_fields_step split: option.splits)

lemma complete_empty_step:
  "ledger_wf s \<Longrightarrow> complete_empty_run s rid c d now = Inr t \<Longrightarrow> good_step al s t"
  by (auto simp: complete_empty_run_def Let_def counters_exact_def intro!: run_fields_step
      split: option.splits if_splits)

lemma reconcile_step:
  "ledger_wf s \<Longrightarrow> reconcile s rid now = Inr t \<Longrightarrow> good_step al s t"
  using reconcile_wf [of s rid now t] reconcile_by_id [of s rid now t]
  by (auto simp: good_step_def ledger_wf_def intro: items_evolve_same)

lemma update_reconcile_step:
  assumes "ledger_wf s" and "the_item s rid et eid = Inr i" and "identity_fixed f"
    and "g i \<Longrightarrow> item_evolves al i (f i)"
    and "reconcile (snd (update_item (ri_id i) g f s)) rid now = Inr t"
  shows "good_step al s t"
proof -
  let ?u = "snd (update_item (ri_id i) g f s)"
  have wf: "base_wf s" using assms(1) by (simp add: ledger_wf_def)
  have row: "i \<in> set (rl_items s)" "ri_run i = rid" using the_item_row [OF assms(2)] by blast+
  have other: "item_states ?u x = item_states s x" if "x \<noteq> rid" for x
  proof (rule item_states_other [OF assms(3)])
    fix j
    assume "j \<in> set (rl_items s)" and "ri_id j = ri_id i"
    then have "j = i" using same_id_same_item [OF wf] row(1) by blast
    then show "ri_run j \<noteq> x" using row that by simp
  qed
  have "ledger_wf t"
    using assms(1) other
    by (intro reconcile_wf [OF update_item_base [OF wf assms(3)] assms(5)]) (auto simp: ledger_wf_def)
  moreover have "items_evolve al s ?u"
    using assms(4) the_item_by_id [OF wf assms(2)] by (intro update_evolves [OF assms(3)]) auto
  ultimately show ?thesis
    using reconcile_by_id [OF assms(5)] items_evolve_trans items_evolve_same good_stepI by blast
qed

lemma requeue_step:
  assumes "ledger_wf s" and "record_requeue rd id s rid et eid re na now = Inr t"
    and "\<And>k. al (rid, k, et, eid)"
  shows "good_step al s t"
proof -
  obtain i where i: "the_item s rid et eid = Inr i" "\<not> outcome_terminal (ri_state i)"
    using assms(2) by (auto simp: record_requeue_def split: sum.splits if_splits)
  have "al (identity i)" using the_item_row [OF i(1)] assms(3) by (auto simp: identity_def)
  then show ?thesis
    using assms(2) i
    by (intro update_reconcile_step [OF assms(1) i(1)])
      (auto simp: record_requeue_def item_evolves_def same_identity_def)
qed

lemma outcome_step:
  assumes "ledger_wf s" and "record_outcome rd id s rid et eid out re now = Inr t"
  shows "good_step al s t"
proof -
  obtain i where i: "the_item s rid et eid = Inr i"
    using assms(2) by (auto simp: record_outcome_def split: sum.splits)
  show ?thesis
  proof (cases "ri_state i = out")
    case True
    then show ?thesis
      using assms i reconcile_step by (auto simp: record_outcome_def split: if_splits)
  next
    case False
    show ?thesis
      using assms(2) i False
      by (intro update_reconcile_step [OF assms(1) i])
        (auto simp: record_outcome_def open_not_terminal item_evolves_def same_identity_def
          outcome_terminal_def split: if_splits)
  qed
qed

lemma update_step:
  assumes "ledger_wf s" and "identity_fixed f"
    and "\<And>i. g i \<Longrightarrow> open_form (ri_state (f i)) = open_form (ri_state i)"
    and "\<And>i. get_item_by_id s n = Some i \<Longrightarrow> g i \<Longrightarrow> item_evolves al i (f i)"
  shows "good_step al s (snd (update_item n g f s))"
  using update_item_wf [OF assms(1-3)] update_evolves [OF assms(2,4)] good_stepI by blast

lemma priority_step:
  "ledger_wf s \<Longrightarrow> set_item_queue_priority id s rid et eid pr now = Inr t \<Longrightarrow> good_step al s t"
  by (auto simp: set_item_queue_priority_def open_not_terminal item_evolves_def same_identity_def
      intro!: update_step split: sum.splits)

lemma item_dispatch_step:
  assumes "ledger_wf s" and "record_item_dispatch id s rid et eid st re now = Inr t"
  shows "good_step al s t"
proof -
  obtain n f where "t = snd (update_item n is_open_item f s)" and f:
    "f = (\<lambda>j. j\<lparr>ri_dispatch := st, ri_reason := (if present re then map_option (take 1000) re else None),
                ri_updated := now\<rparr>)"
    using assms(2)
    by (fastforce simp: record_item_dispatch_def split_beta split: sum.splits if_splits option.splits)
  then show ?thesis
    using assms(1)
    by (auto simp: open_not_terminal item_evolves_def same_identity_def intro!: update_step)
qed

lemma claim_dispatch_step:
  assumes "ledger_wf s" and "claim_item_dispatch id s rid et eid now = Inr (w, t)"
  shows "good_step al s t"
proof -
  obtain n where "t = snd (update_item n (\<lambda>j. ri_state j = IAccepted \<and> ri_dispatch j \<in> {DPending, DError})
      (\<lambda>j. j\<lparr>ri_dispatch := DAccepted, ri_updated := now\<rparr>) s)"
    using assms(2) by (fastforce simp: claim_item_dispatch_def split_beta split: sum.splits)
  then show ?thesis
    using assms(1)
    by (auto simp: item_evolves_def same_identity_def outcome_terminal_def intro!: update_step)
qed

lemma claim_item_step:
  assumes "ledger_wf s" and "claim_item id s rid et eid now = Inr (w, t)"
  shows "good_step al s t"
proof -
  consider "t = s" | n where "t = snd (update_item n (\<lambda>j. ri_state j = IAccepted)
      (\<lambda>j. j\<lparr>ri_state := IRunning, ri_attempts := ri_attempts j + 1, ri_next_attempt := None,
             ri_updated := now\<rparr>) s)"
    using assms(2) by (fastforce simp: claim_item_def split_beta split: sum.splits if_splits)
  then show ?thesis
    using assms(1)
    by cases (auto simp: item_evolves_def same_identity_def outcome_terminal_def open_form_def
        intro!: update_step)
qed

lemma recover_step:
  assumes "ledger_wf s" and "i \<in> set (list_recoverable_items s None)"
    and "claim_recovery rd s i now = Inr (w, t)"
  shows "good_step al s t"
proof (cases "MAX_RECOVERY_ATTEMPTS \<le> ri_recovery i")
  case True
  then show ?thesis
    using assms outcome_step by (auto simp: claim_recovery_def split: sum.splits)
next
  case False
  have i: "i \<in> set (rl_items s)" "is_open_item i"
    using assms(2) by (auto simp: list_recoverable_items_def)
  have "item_evolves al j (j\<lparr>ri_recovery := ri_recovery j + 1, ri_updated := now\<rparr>)"
    if "get_item_by_id s (ri_id i) = Some j" for j
  proof -
    have "j = i"
      using same_id_same_item [of s j i] by_id_mem [OF that] i(1) assms(1) unfolding ledger_wf_def by blast
    then show ?thesis using i(2) by (simp add: item_evolves_def same_identity_def open_not_terminal)
  qed
  then show ?thesis
    using False assms by (auto simp: claim_recovery_def intro!: update_step)
qed

lemma insert_item_step:
  assumes "ledger_wf s" and "get_run s rid = Some r" and "rr_kind r = kind"
    and "insert_item s rid kind et eid enc pr now = Inr t"
  shows "base_wf t \<and> items_evolve al s t \<and> get_run t = get_run s
    \<and> (\<forall>x. x \<noteq> rid \<longrightarrow> item_states t x = item_states s x)"
proof (cases "find (\<lambda>i. ri_run i = rid \<and> ri_kind i = kind \<and> ri_etype i = et \<and> ri_eid i = eid) (rl_items s)")
  case None
  let ?n = "new_item (rl_next s) rid kind et eid enc pr now"
  have wf: "base_wf s" using assms(1) by (simp add: ledger_wf_def)
  have t: "t = s\<lparr>rl_items := rl_items s @ [?n], rl_next := Suc (rl_next s)\<rparr>"
    using assms(4) None by (simp add: insert_item_def)
  have n: "ri_id ?n = rl_next s" "identity ?n = (rid, kind, et, eid)" "ri_run ?n = rid" "ri_kind ?n = kind"
    by (simp_all add: new_item_def identity_def)
  have fresh: "identity ?n \<notin> set (map identity (rl_items s))"
    using None unfolding n(2) by (auto simp: find_None_iff identity_def)
  have ids: "rl_next s \<notin> set (map ri_id (rl_items s))" using wf by (auto simp: base_wf_def)
  have "base_wf t"
    using wf fresh ids assms(2,3) by (auto simp: base_wf_def t n get_run_def less_Suc_eq)
  moreover have "items_evolve al s t"
    unfolding items_evolve_def
  proof (intro allI impI exI conjI)
    fix m i
    assume "get_item_by_id s m = Some i"
    then show "get_item_by_id t m = Some i"
      by (auto simp: get_item_by_id_def t find_Some_iff nth_append less_Suc_eq)
  qed simp
  moreover have "get_run t = get_run s" by (rule ext) (simp add: t get_run_def)
  ultimately show ?thesis by (simp add: t item_states_def n)
next
  case (Some i)
  let ?f = "\<lambda>j. j\<lparr>ri_payload := enc, ri_updated := now\<rparr>"
  have wf: "base_wf s" using assms(1) by (simp add: ledger_wf_def)
  have i: "i \<in> set (rl_items s)" "ri_run i = rid" using Some by (auto simp: find_Some_iff)
  have only: "j = i" if "j \<in> set (rl_items s)" "ri_id j = ri_id i" for j
    using same_id_same_item [OF wf] that i(1) by blast
  have cases: "t = s \<or> (t = snd (update_item (ri_id i) is_open_item ?f s) \<and> ri_payload i = None)"
    using assms(4) Some by (auto simp: insert_item_def split: if_splits)
  moreover have "items_evolve al s (snd (update_item (ri_id i) is_open_item ?f s))" if "ri_payload i = None"
  proof (rule update_evolves)
    fix j
    assume "get_item_by_id s (ri_id i) = Some j" and "is_open_item j"
    moreover from this have "j = i" using only by_id_mem by blast
    ultimately show "item_evolves al j (?f j)"
      using that by (simp add: item_evolves_def same_identity_def open_not_terminal)
  qed simp
  moreover have "item_states (snd (update_item (ri_id i) is_open_item ?f s)) x = item_states s x"
    if "x \<noteq> rid" for x
    using only i(2) that by (intro item_states_other) auto
  ultimately show ?thesis using wf update_item_base [OF wf, of ?f] by auto
qed

lemma accept_step:
  assumes "ledger_wf s" and "accept_item s rid et eid p k pr now = Inr t"
  shows "good_step al s t"
proof -
  obtain r kind enc u where r: "get_run s rid = Some r" "rr_kind r = kind"
    and u: "insert_item s rid kind et eid enc pr now = Inr u" and t: "reconcile u rid now = Inr t"
    using assms(2) by (auto simp: accept_item_def Let_def split: option.splits if_splits sum.splits)
  note ins = insert_item_step [OF assms(1) r u]
  have "ledger_wf t"
    using ins assms(1) by (intro reconcile_wf [OF _ t]) (auto simp: ledger_wf_def)
  then show ?thesis
    using ins reconcile_by_id [OF t] items_evolve_trans items_evolve_same good_stepI by blast
qed

text \<open>The identities an operation requeues.\<close>

fun requeues :: "lop \<Rightarrow> string \<times> string \<times> string \<times> string \<Rightarrow> bool" where
  "requeues (LRequeue rid et eid re na now) x = (\<exists>k. x = (rid, k, et, eid))"
| "requeues _ x = False"

lemma lstep_step:
  "ledger_wf s \<Longrightarrow> (\<And>x. requeues op x \<Longrightarrow> al x) \<Longrightarrow> good_step al s (lstep rd s op)"
  by (cases op)
    (auto intro!: keep_cases [where P = "good_step al s"] keep_snd_cases [where P = "good_step al s"]
      intro: create_run_step record_dispatch_step accept_step priority_step item_dispatch_step
        claim_dispatch_step claim_item_step requeue_step outcome_step recover_step reconcile_step
        complete_empty_step)

lemma lrun_step:
  "ledger_wf s \<Longrightarrow> (\<And>op x. op \<in> set ops \<Longrightarrow> requeues op x \<Longrightarrow> al x) \<Longrightarrow> good_step al s (lrun rd ops s)"
proof (induction ops arbitrary: s)
  case (Cons op ops)
  have "good_step al s (lstep rd s op)" using Cons.prems(1) Cons.prems(2) [of op]
    by (intro lstep_step) simp_all
  moreover have "good_step al (lstep rd s op) (lrun rd ops (lstep rd s op))"
  proof (rule Cons.IH)
    show "ledger_wf (lstep rd s op)" using calculation by (simp add: good_step_def)
    show "al x" if "op' \<in> set ops" and "requeues op' x" for op' x
      using Cons.prems(2) [of op' x] that by simp
  qed
  ultimately show ?case
    using items_evolve_trans by (fastforce simp: lrun_def good_step_def)
qed (simp add: lrun_def)

lemma empty_ledger_wf [simp]: "ledger_wf empty_ledger"
  by (simp add: ledger_wf_def base_wf_def empty_ledger_def get_run_def)

end
