(* ===== verification/RunLedgerProps.thy ===== *)
theory RunLedgerProps
  imports RunLedgerInv
begin

text \<open>
  The properties of the run ledger: exact counters, final outcomes, immutable payloads, claims that
  one worker wins, bounded crash recovery, and the one race that breaks finality.
\<close>

section \<open>Claims\<close>

definition claim_now :: "string \<Rightarrow> string \<Rightarrow> string \<Rightarrow> string \<Rightarrow> rledger \<Rightarrow> bool \<times> rledger" where
  "claim_now rid et eid now s = keep_snd s (claim_item id s rid et eid now)"

definition item_free :: "string \<Rightarrow> string \<Rightarrow> string \<Rightarrow> rledger \<Rightarrow> bool" where
  "item_free rid et eid s \<longleftrightarrow> \<not> (\<exists>i. the_item s rid et eid = Inr i \<and> ri_state i \<noteq> IAccepted)"

text \<open>The item of an identity is found again by its id after any well-formed step.\<close>

lemma the_item_evolves:
  assumes "ledger_wf s" and "good_step al s t" and "the_item s rid et eid = Inr i"
  shows "\<exists>j. the_item t rid et eid = Inr j \<and> item_evolves al i j"
proof -
  have ws: "base_wf s" and wt: "base_wf t" using assms(1,2) by (auto simp: good_step_def ledger_wf_def)
  obtain j where j: "get_item_by_id t (ri_id i) = Some j" "item_evolves al i j"
    using assms(2) the_item_by_id [OF ws assms(3)] by (auto simp: good_step_def items_evolve_def)
  have row: "ri_run i = rid" "ri_etype i = et" "ri_eid i = eid" using the_item_row [OF assms(3)] by auto
  have mem: "j \<in> set (rl_items t)" using by_id_mem [OF j(1)] by blast
  have same: "ri_run j = rid" "ri_etype j = et" "ri_eid j = eid" "ri_kind j = ri_kind i"
    using j(2) row by (auto simp: item_evolves_def same_identity_def)
  obtain r where r: "get_run t rid = Some r" "rr_kind r = ri_kind j"
    using wt mem same(1) unfolding base_wf_def by blast
  have "find (\<lambda>i. ri_run i = rid \<and> ri_kind i = rr_kind r \<and> ri_etype i = et \<and> ri_eid i = eid)
      (rl_items t) = Some j"
  proof (rule find_unique [where h = identity])
    show "distinct (map identity (rl_items t))" using wt by (simp add: base_wf_def)
  qed (use mem same r in \<open>auto simp: identity_def\<close>)
  then have "the_item t rid et eid = Inr j" using r by (simp add: the_item_def get_item_def)
  with j(2) show ?thesis by blast
qed

lemma claim_now_good: "ledger_wf s \<Longrightarrow> good_step al s (snd (claim_now rid et eid now s))"
  unfolding claim_now_def
  by (rule keep_snd_cases) (auto intro: claim_item_step)

lemma claim_now_won:
  assumes "ledger_wf s" and "fst (claim_now rid et eid now s)"
  shows "\<exists>i. the_item s rid et eid = Inr i \<and> ri_state i = IAccepted
    \<and> get_item_by_id (snd (claim_now rid et eid now s)) (ri_id i)
      = Some (i\<lparr>ri_state := IRunning, ri_attempts := Suc (ri_attempts i), ri_next_attempt := None,
                ri_updated := now\<rparr>)"
proof -
  obtain i where i: "the_item s rid et eid = Inr i" "ri_state i = IAccepted"
    using assms(2) by (auto simp: claim_now_def keep_snd_def claim_item_def split: sum.splits if_splits)
  have "get_item_by_id s (ri_id i) = Some i" using assms(1) i the_item_by_id by (auto simp: ledger_wf_def)
  then show ?thesis
    using i by (auto simp: claim_now_def keep_snd_def claim_item_def split_beta get_item_by_id_update)
qed

interpretation item_claim: cas_claim ledger_wf "claim_now rid et eid now" "item_free rid et eid"
  for rid et eid now
proof
  fix s
  assume wf: "ledger_wf s"
  show "ledger_wf (snd (claim_now rid et eid now s))"
    using claim_now_good [OF wf, of "\<lambda>_. True"] by (simp add: good_step_def)
  {
    assume w: "fst (claim_now rid et eid now s)"
    then obtain i where i: "the_item s rid et eid = Inr i" "ri_state i = IAccepted" and
      after: "get_item_by_id (snd (claim_now rid et eid now s)) (ri_id i)
        = Some (i\<lparr>ri_state := IRunning, ri_attempts := Suc (ri_attempts i), ri_next_attempt := None,
                  ri_updated := now\<rparr>)"
      using claim_now_won [OF wf] by blast
    show "item_free rid et eid s" using i by (auto simp: item_free_def)
    obtain j where j: "the_item (snd (claim_now rid et eid now s)) rid et eid = Inr j"
      "item_evolves (\<lambda>_. True) i j"
      using the_item_evolves [OF wf claim_now_good [OF wf] i(1)] by blast
    have "base_wf (snd (claim_now rid et eid now s))"
      using claim_now_good [OF wf, of "\<lambda>_. True"] by (simp add: good_step_def ledger_wf_def)
    then have "get_item_by_id (snd (claim_now rid et eid now s)) (ri_id j) = Some j"
      using j(1) by (rule the_item_by_id)
    moreover have "ri_id j = ri_id i" using j(2) by (simp add: item_evolves_def same_identity_def)
    ultimately have "ri_state j = IRunning" using after by auto
    then show "\<not> item_free rid et eid (snd (claim_now rid et eid now s))"
      using j(1) by (auto simp: item_free_def)
  next
    assume "item_free rid et eid (snd (claim_now rid et eid now s))"
    then show "item_free rid et eid s"
      using the_item_evolves [OF wf claim_now_good [OF wf, of "\<lambda>_. False"]]
      by (fastforce simp: item_free_def item_evolves_def)
  }
qed

lemma item_claim_keeps:
  assumes "\<forall>op \<in> set ops. \<forall>k. \<not> requeues op (rid, k, et, eid)"
  shows "item_claim.keeps_closed rid et eid (lrun rd ops)"
  unfolding item_claim.keeps_closed_def
proof (intro allI impI conjI)
  fix s
  assume wf: "ledger_wf s"
  let ?al = "\<lambda>(r, k, t, e). \<not> (r = rid \<and> t = et \<and> e = eid)"
  have gs: "good_step ?al s (lrun rd ops s)"
    using assms by (intro lrun_step [OF wf]) auto
  then show "ledger_wf (lrun rd ops s)" by (simp add: good_step_def)
  assume "\<not> item_free rid et eid s"
  then obtain i where i: "the_item s rid et eid = Inr i" "ri_state i \<noteq> IAccepted"
    by (auto simp: item_free_def)
  obtain j where "the_item (lrun rd ops s) rid et eid = Inr j" "item_evolves ?al i j"
    using the_item_evolves [OF wf gs i(1)] by blast
  moreover have "\<not> ?al (identity i)" using the_item_row [OF i(1)] by (auto simp: identity_def)
  ultimately show "\<not> item_free rid et eid (lrun rd ops s)"
    using i(2) by (auto simp: item_free_def item_evolves_def)
qed

section \<open>Demonstration states\<close>

definition demo_ledger :: rledger where
  "demo_ledger = lrun id
     [LCreate ''r1'' ''Search'' ''manual'' None None ''t0'',
      LAccept ''r1'' ''issue'' ''42'' (VDict [(''issueid'', VStr ''42'')]) None ''routine'' ''t1'']
     empty_ledger"

definition demo_item :: ritem where
  "demo_item = new_item 0 ''r1'' ''search'' ''issue'' ''42'' (Some ''{\"issueid\":\"42\"}'') ''routine'' ''t1''"

lemma demo_item_there: "the_item demo_ledger ''r1'' ''issue'' ''42'' = Inr demo_item"
  by code_simp

lemma demo_ledger_wf: "ledger_wf demo_ledger"
  unfolding demo_ledger_def
  using lrun_step [OF empty_ledger_wf, of _ "\<lambda>_. True"] by (simp add: good_step_def)

section \<open>Properties\<close>


lemma length_filter_all: "length (filter P xs) = length xs \<longleftrightarrow> (\<forall>x \<in> set xs. P x)"
proof (induction xs)
  case (Cons x xs)
  show ?case
  proof (cases "P x")
    case False
    then have "length (filter P (x # xs)) < length (x # xs)"
      using length_filter_le [of P xs] by (simp add: le_imp_less_Suc)
    with False show ?thesis by simp
  qed (use Cons in simp)
qed simp

lemma failed_count:
  "count_state sts IFailed + count_state sts IQuarantined + count_state sts ICancelled
   = length (filter (\<lambda>x. x \<in> {IFailed, IQuarantined, ICancelled}) sts)"
  by (induction sts) (auto simp: count_state_def)

text \<open>What the completion state of a reconciled run says: pending without items, running while some
  item is open, failed (blocked) when every item failed, was quarantined or cancelled (was blocked),
  completed when every item succeeded or found no match, partial for every other mixture of
  final outcomes.\<close>

theorem completion_says:
  assumes "sts = item_states s rid" and "reconcile s rid now = Inr t" and "get_run t rid = Some r"
  shows "(rr_completion r = RPending \<longleftrightarrow> sts = [])
    \<and> (rr_completion r = RRunning \<longleftrightarrow> (\<exists>st \<in> set sts. \<not> outcome_terminal st))
    \<and> (rr_completion r = RFailed \<longleftrightarrow> sts \<noteq> [] \<and> set sts \<subseteq> {IFailed, IQuarantined, ICancelled})
    \<and> (rr_completion r = RBlocked \<longleftrightarrow> sts \<noteq> [] \<and> set sts = {IBlocked})
    \<and> (rr_completion r = RCompleted \<longleftrightarrow> sts \<noteq> [] \<and> set sts \<subseteq> {ISucceeded, INo_match})"
proof -
  let ?fs = "{IFailed, IQuarantined, ICancelled}"
  have r: "rr_completion r = completion_of (length sts) (length (filter outcome_terminal sts))
      (length (filter (\<lambda>x. x \<in> ?fs) sts)) (length (filter (\<lambda>x. x = IBlocked) sts))"
  proof -
    obtain q where "r = reconciled sts now q"
      using assms by (auto simp: reconcile_def Let_def split: option.splits if_splits)
    then show ?thesis
      unfolding reconciled_def Let_def failed_count by (simp add: count_state_def)
  qed
  have open': "length (filter outcome_terminal sts) < length sts \<longleftrightarrow> (\<exists>st \<in> set sts. \<not> outcome_terminal st)"
    unfolding nat_less_le length_filter_all by (simp add: length_filter_le)
  have all_failed: "length (filter (\<lambda>x. x \<in> ?fs) sts) = length sts \<longleftrightarrow> set sts \<subseteq> ?fs"
    using length_filter_all [of "\<lambda>x. x \<in> ?fs" sts] by blast
  have all_blocked: "length (filter (\<lambda>x. x = IBlocked) sts) = length sts \<longleftrightarrow> set sts \<subseteq> {IBlocked}"
    using length_filter_all [of "\<lambda>x. x = IBlocked" sts] by blast
  have none: "length (filter (\<lambda>x. x \<in> ?fs) sts) \<noteq> 0 \<or> length (filter (\<lambda>x. x = IBlocked) sts) \<noteq> 0
      \<longleftrightarrow> (\<exists>st \<in> set sts. st \<in> ?fs \<or> st = IBlocked)"
    by (auto simp: filter_empty_conv)
  have six: "st \<in> ?fs \<or> st = IBlocked \<or> st \<in> {ISucceeded, INo_match} \<or> \<not> outcome_terminal st" for st
    by (cases st) (auto simp: outcome_terminal_def)
  have excl: "outcome_terminal st" if "st \<in> ?fs \<or> st = IBlocked \<or> st \<in> {ISucceeded, INo_match}" for st
    using that by (auto simp: outcome_terminal_def)
  have len: "length sts = 0 \<longleftrightarrow> sts = []" by simp
  show ?thesis
  proof (cases "sts = []")
    case True
    then show ?thesis using r by (simp add: completion_of_def)
  next
    case False
    then obtain x where x: "x \<in> set sts" by (cases sts) auto
    have b: "set sts = {IBlocked} \<longleftrightarrow> set sts \<subseteq> {IBlocked}" using x by auto
    have comp: "set sts \<subseteq> {ISucceeded, INo_match} \<longleftrightarrow> (\<forall>st \<in> set sts. outcome_terminal st)
        \<and> \<not> (\<exists>st \<in> set sts. st \<in> ?fs \<or> st = IBlocked)"
      using six excl by blast
    have fb: "\<not> (set sts \<subseteq> ?fs \<and> set sts \<subseteq> {IBlocked})" using x by auto
    have ft: "set sts \<subseteq> ?fs \<Longrightarrow> \<forall>st \<in> set sts. outcome_terminal st"
      and bt: "set sts \<subseteq> {IBlocked} \<Longrightarrow> \<forall>st \<in> set sts. outcome_terminal st"
      and fe: "set sts \<subseteq> ?fs \<Longrightarrow> \<exists>st \<in> set sts. st \<in> ?fs \<or> st = IBlocked"
      and be: "set sts \<subseteq> {IBlocked} \<Longrightarrow> \<exists>st \<in> set sts. st \<in> ?fs \<or> st = IBlocked"
      using excl x by blast+
    show ?thesis
      unfolding r completion_of_def len open' all_failed all_blocked none b comp
      using False fb ft bt fe be by auto
  qed
qed

theorem completion_says_witness:
  "\<exists>t r. reconcile demo_ledger ''r1'' ''t2'' = Inr t \<and> get_run t ''r1'' = Some r
     \<and> rr_completion r = RRunning"
proof -
  have "isl (reconcile demo_ledger ''r1'' ''t2'') = False" by code_simp
  then obtain t where t: "reconcile demo_ledger ''r1'' ''t2'' = Inr t"
    by (cases "reconcile demo_ledger ''r1'' ''t2''") auto
  then obtain r where r: "get_run t ''r1'' = Some r"
    by (auto simp: reconcile_def Let_def split: option.splits if_splits)
  have "item_states demo_ledger ''r1'' = [IAccepted]" by code_simp
  from completion_says [OF this [symmetric] t r] t r show ?thesis
    by (simp add: outcome_terminal_def)
qed

text \<open>An outcome is final.  Once an item of a well-formed ledger has a final outcome, no sequence of
  operations, each run to its end, changes the row at all: not its outcome, reason, completion time,
  payload or attempt counters.\<close>

theorem final_outcome_stays:
  assumes "ledger_wf s" and "get_item_by_id s n = Some i" and "outcome_terminal (ri_state i)"
  shows "get_item_by_id (lrun rd ops s) n = Some i"
  using lrun_step [OF assms(1), of ops "\<lambda>_. True" rd] assms(2,3)
  by (auto simp: good_step_def items_evolve_def item_evolves_def)

theorem final_outcome_stays_witness:
  "get_item_by_id (lrun id [LRequeue ''r1'' ''issue'' ''42'' None None ''t3'', LClaim ''r1'' ''issue'' ''42'' ''t4'']
      (lrun id [LOutcome ''r1'' ''issue'' ''42'' ISucceeded None ''t2''] demo_ledger)) 0
   = Some (demo_item\<lparr>ri_state := ISucceeded, ri_updated := ''t2'', ri_completed := Some ''t2''\<rparr>)"
proof (rule final_outcome_stays)
  show "ledger_wf (lrun id [LOutcome ''r1'' ''issue'' ''42'' ISucceeded None ''t2''] demo_ledger)"
    using lrun_step [OF demo_ledger_wf, of _ "\<lambda>_. True"] by (simp add: good_step_def)
  show "get_item_by_id (lrun id [LOutcome ''r1'' ''issue'' ''42'' ISucceeded None ''t2''] demo_ledger) 0
      = Some (demo_item\<lparr>ri_state := ISucceeded, ri_updated := ''t2'', ri_completed := Some ''t2''\<rparr>)"
    by code_simp
qed (simp add: outcome_terminal_def)

text \<open>An accepted payload is immutable: once an item carries one, no sequence of operations replaces or
  drops it, and its recovery and attempt counters never go down.\<close>

theorem payload_is_immutable:
  assumes "ledger_wf s" and "get_item_by_id s n = Some i" and "ri_payload i = Some p"
  shows "\<exists>j. get_item_by_id (lrun rd ops s) n = Some j \<and> ri_payload j = Some p
    \<and> ri_recovery i \<le> ri_recovery j \<and> ri_attempts i \<le> ri_attempts j"
  using lrun_step [OF assms(1), of ops "\<lambda>_. True" rd] assms(2,3)
  by (fastforce simp: good_step_def items_evolve_def item_evolves_def)

theorem payload_is_immutable_witness:
  "\<exists>j. get_item_by_id (lrun id [LAccept ''r1'' ''issue'' ''42'' (VDict []) None ''high'' ''t2'']
          demo_ledger) 0 = Some j
     \<and> ri_payload j = Some ''{\"issueid\":\"42\"}'' \<and> ri_recovery demo_item \<le> ri_recovery j
     \<and> ri_attempts demo_item \<le> ri_attempts j"
proof (rule payload_is_immutable [OF demo_ledger_wf])
  show "get_item_by_id demo_ledger 0 = Some demo_item" by code_simp
qed (simp add: demo_item_def new_item_def)

text \<open>Of the workers that claim one accepted item only one wins, whatever other operations (on this and
  other items, but no requeue of this one) run between the claims.\<close>

theorem item_claimed_once:
  assumes "ledger_wf s"
    and "\<forall>ops \<in> set opss. \<forall>op \<in> set ops. \<forall>k. \<not> requeues op (rid, k, et, eid)"
  shows "wins (claim_run (claim_now rid et eid now) s (map (lrun rd) opss)) \<le> 1"
  by (rule item_claim.at_most_one_win [OF assms(1)]) (use assms(2) item_claim_keeps in auto)

theorem item_claimed_once_witness:
  "wins (claim_run (claim_now ''r1'' ''issue'' ''42'' ''t2'') demo_ledger
     (map (lrun id) [[], [LRecover demo_item ''t3''], [LPriority ''r1'' ''issue'' ''42'' ''high'' ''t4'']])) \<le> 1"
  by (rule item_claimed_once [OF demo_ledger_wf]) simp

section \<open>Crash recovery\<close>

text \<open>One restart: list the item afresh and claim its recovery.\<close>

definition recover_now :: "(string \<Rightarrow> string) \<Rightarrow> nat \<Rightarrow> string \<Rightarrow> rledger \<Rightarrow> bool \<times> rledger" where
  "recover_now rd n now s =
     (case find (\<lambda>i. ri_id i = n) (list_recoverable_items s None) of
        None \<Rightarrow> (False, s)
      | Some i \<Rightarrow> keep_snd s (claim_recovery rd s i now))"

lemma recover_now_good: "ledger_wf s \<Longrightarrow> good_step al s (snd (recover_now rd n now s))"
  unfolding recover_now_def
  by (auto simp: find_Some_iff split: option.splits intro!: keep_snd_cases [where P = "good_step al s"]
      intro: recover_step [OF _ nth_mem])

lemma recover_now_cases:
  assumes "ledger_wf s" and "fst (recover_now rd n now s)"
  shows "\<exists>i. get_item_by_id s n = Some i \<and> ri_recovery i < MAX_RECOVERY_ATTEMPTS
    \<and> get_item_by_id (snd (recover_now rd n now s)) n
      = Some (i\<lparr>ri_recovery := Suc (ri_recovery i), ri_updated := now\<rparr>)"
proof -
  obtain i where f: "find (\<lambda>i. ri_id i = n) (list_recoverable_items s None) = Some i"
    using assms(2) by (auto simp: recover_now_def split: option.splits)
  then have i: "i \<in> set (rl_items s)" "ri_id i = n"
    by (auto simp: find_Some_iff list_recoverable_items_def dest!: nth_mem)
  have byid: "get_item_by_id s n = Some i"
    unfolding get_item_by_id_def
  proof (rule find_unique [where h = ri_id])
    show "distinct (map ri_id (rl_items s))" using assms(1) by (simp add: ledger_wf_def base_wf_def)
  qed (simp_all add: i)
  have rec: "ri_recovery i < MAX_RECOVERY_ATTEMPTS"
    using assms(2) f
    by (auto simp: recover_now_def keep_snd_def claim_recovery_def split: sum.splits if_splits)
  then show ?thesis
    using byid f i
    by (auto simp: recover_now_def keep_snd_def claim_recovery_def get_item_by_id_update)
qed

definition recovery_of :: "rledger \<Rightarrow> nat \<Rightarrow> nat" where
  "recovery_of s n = (case get_item_by_id s n of None \<Rightarrow> 0 | Some i \<Rightarrow> ri_recovery i)"

lemma recovery_grows:
  assumes "good_step al s t"
  shows "recovery_of s n \<le> recovery_of t n"
proof (cases "get_item_by_id s n")
  case None
  then show ?thesis by (simp add: recovery_of_def)
next
  case (Some i)
  then obtain j where "get_item_by_id t n = Some j" and "item_evolves al i j"
    using assms by (auto simp: good_step_def items_evolve_def)
  with Some show ?thesis by (simp add: recovery_of_def item_evolves_def)
qed

text \<open>C5: Crash recovery is bounded: over any history of restarts of one item, with any other operations in
  between (new attempts and requeues included), the item is re-driven at most three times in all;
  a restart that finds the bound reached quarantines the item instead.\<close>

theorem recovery_is_bounded:
  assumes "ledger_wf s"
  shows "wins (claim_run (recover_now rd n now) s (map (lrun rd) opss))
      \<le> MAX_RECOVERY_ATTEMPTS - recovery_of s n
    \<and> (\<forall>i. get_item_by_id s n = Some i \<and> is_open_item i \<and> MAX_RECOVERY_ATTEMPTS \<le> ri_recovery i
         \<longrightarrow> (\<exists>j. get_item_by_id (snd (recover_now rd n now s)) n = Some j \<and> ri_state j = IQuarantined))"
proof (intro conjI allI impI)
  show "wins (claim_run (recover_now rd n now) s (map (lrun rd) opss)) \<le> MAX_RECOVERY_ATTEMPTS - recovery_of s n"
    using assms
  proof (induction opss arbitrary: s)
    case (Cons ops opss)
    let ?u = "lrun rd ops s"
    let ?v = "snd (recover_now rd n now ?u)"
    have gu: "good_step (\<lambda>_. True) s ?u" using Cons.prems by (rule lrun_step) simp
    have wu: "ledger_wf ?u" using gu by (simp add: good_step_def)
    have gv: "good_step (\<lambda>_. True) ?u ?v" using wu by (rule recover_now_good)
    have IH: "wins (claim_run (recover_now rd n now) ?v (map (lrun rd) opss)) \<le> MAX_RECOVERY_ATTEMPTS - recovery_of ?v n"
      using gv Cons.IH by (simp add: good_step_def)
    note le = recovery_grows [OF gu, of n] recovery_grows [OF gv, of n]
    show ?case
    proof (cases "fst (recover_now rd n now ?u)")
      case True
      then obtain i where "get_item_by_id ?u n = Some i" and "ri_recovery i < MAX_RECOVERY_ATTEMPTS"
        and "get_item_by_id ?v n = Some (i\<lparr>ri_recovery := Suc (ri_recovery i), ri_updated := now\<rparr>)"
        using recover_now_cases [OF wu] by blast
      then have "recovery_of ?v n = Suc (recovery_of ?u n)" and "recovery_of ?u n < MAX_RECOVERY_ATTEMPTS"
        by (simp_all add: recovery_of_def)
      with IH le True show ?thesis by simp
    next
      case False
      with IH le show ?thesis by simp
    qed
  qed simp
next
  fix i
  assume i: "get_item_by_id s n = Some i \<and> is_open_item i \<and> MAX_RECOVERY_ATTEMPTS \<le> ri_recovery i"
  then have mem: "i \<in> set (rl_items s)" "ri_id i = n" using by_id_mem by blast+
  have wf: "base_wf s" using assms by (simp add: ledger_wf_def)
  have f: "find (\<lambda>i. ri_id i = n) (list_recoverable_items s None) = Some i"
  proof (rule find_unique [where h = ri_id])
    show "distinct (map ri_id (list_recoverable_items s None))"
      using wf by (simp add: list_recoverable_items_def base_wf_def distinct_map_filter)
  qed (use i mem in \<open>simp_all add: list_recoverable_items_def\<close>)
  obtain r where r: "get_run s (ri_run i) = Some r" "rr_kind r = ri_kind i"
    using wf mem(1) unfolding base_wf_def by blast
  have "find (\<lambda>x. ri_run x = ri_run i \<and> ri_kind x = rr_kind r \<and> ri_etype x = ri_etype i \<and> ri_eid x = ri_eid i)
      (rl_items s) = Some i"
  proof (rule find_unique [where h = identity])
    show "distinct (map identity (rl_items s))" using wf by (simp add: base_wf_def)
  qed (use mem r in \<open>auto simp: identity_def\<close>)
  then have the: "the_item s (ri_run i) (ri_etype i) (ri_eid i) = Inr i"
    using r by (simp add: the_item_def get_item_def)
  let ?u = "snd (update_item n is_open_item
      (\<lambda>j. j\<lparr>ri_state := IQuarantined, ri_reason := redact_reason rd (Some ''recovery_attempts_exhausted''),
             ri_next_attempt := None, ri_updated := now, ri_completed := Some now\<rparr>) s)"
  obtain t where t: "reconcile ?u (ri_run i) now = Inr t" using r by (auto simp: reconcile_def Let_def)
  have nt: "ri_state i \<noteq> IQuarantined" "\<not> outcome_terminal (ri_state i)"
    using i by (auto simp: is_open_item_def outcome_terminal_def)
  have "recover_now rd n now s = (False, t)"
    using f i the t nt mem(2)
    by (simp add: recover_now_def claim_recovery_def record_outcome_def keep_snd_def outcome_terminal_def)
  moreover have "get_item_by_id ?u n = Some (i\<lparr>ri_state := IQuarantined,
      ri_reason := redact_reason rd (Some ''recovery_attempts_exhausted''),
      ri_next_attempt := None, ri_updated := now, ri_completed := Some now\<rparr>)"
    using i mem(2) by (simp add: get_item_by_id_update)
  ultimately show "\<exists>j. get_item_by_id (snd (recover_now rd n now s)) n = Some j \<and> ri_state j = IQuarantined"
    using reconcile_by_id [OF t] by simp
qed

theorem recovery_is_bounded_witness:
  "wins (claim_run (recover_now id 0 ''t9'') demo_ledger (map (lrun id) [[], [], [], [], []])) \<le> 3"
  using recovery_is_bounded [OF demo_ledger_wf, of id 0 "''t9''" "[[], [], [], [], []]"]
  by (auto simp: MAX_RECOVERY_ATTEMPTS_def)

section \<open>Races\<close>

text \<open>Finality survives a race on \<open>record_outcome\<close>: if another worker gives the item a final outcome
  between the read and the write, the write changes nothing of the row.\<close>

theorem outcome_race_is_lost:
  assumes "get_item_by_id (mid s) n = Some j" and "outcome_terminal (ri_state j)"
    and "the_item s rid et eid = Inr i" and "ri_id i = n" and "\<not> outcome_terminal (ri_state i)"
    and "outcome_terminal out" and "record_outcome rd mid s rid et eid out re now = Inr t"
  shows "get_item_by_id t n = Some j"
proof -
  let ?f = "\<lambda>j. j\<lparr>ri_state := out, ri_reason := redact_reason rd re, ri_next_attempt := None,
                  ri_updated := now, ri_completed := Some now\<rparr>"
  have "ri_state i \<noteq> out" using assms(5,6) by auto
  then have "reconcile (snd (update_item n is_open_item ?f (mid s))) rid now = Inr t"
    using assms by (simp add: record_outcome_def)
  from reconcile_by_id [OF this] show ?thesis
    using assms(1,2) by (simp add: get_item_by_id_update open_not_terminal)
qed

theorem outcome_race_is_lost_witness:
  "\<exists>t. record_outcome id (\<lambda>s. lstep id s (LOutcome ''r1'' ''issue'' ''42'' ISucceeded None ''t2''))
         demo_ledger ''r1'' ''issue'' ''42'' IFailed (Some ''timeout'') ''t3'' = Inr t
     \<and> get_item_by_id t 0
       = Some (demo_item\<lparr>ri_state := ISucceeded, ri_updated := ''t2'', ri_completed := Some ''t2''\<rparr>)"
proof -
  let ?mid = "\<lambda>s. lstep id s (LOutcome ''r1'' ''issue'' ''42'' ISucceeded None ''t2'')"
  let ?x = "record_outcome id ?mid demo_ledger ''r1'' ''issue'' ''42'' IFailed (Some ''timeout'') ''t3''"
  have "isl ?x = False" by code_simp
  then obtain t where t: "?x = Inr t" by (cases ?x) auto
  have "get_item_by_id (?mid demo_ledger) 0
      = Some (demo_item\<lparr>ri_state := ISucceeded, ri_updated := ''t2'', ri_completed := Some ''t2''\<rparr>)"
    by code_simp
  from outcome_race_is_lost [where mid = ?mid, OF this _ demo_item_there _ _ _ t] t
  show ?thesis by (simp add: demo_item_def new_item_def outcome_terminal_def)
qed

text \<open>Finality does not survive a race on \<open>record_requeue\<close>: its UPDATE has no guard on the state, so an
  item that another worker finished between the read and the write goes back to accepted, with its
  completion time still set, and will be worked on again.\<close>

theorem requeue_race_resurrects:
  assumes "get_item_by_id (mid s) n = Some j" and "get_run (mid s) rid = Some r"
    and "the_item s rid et eid = Inr i" and "ri_id i = n" and "\<not> outcome_terminal (ri_state i)"
  shows "\<exists>t k. record_requeue rd mid s rid et eid re na now = Inr t \<and> get_item_by_id t n = Some k
    \<and> ri_state k = IAccepted \<and> ri_completed k = ri_completed j"
proof -
  let ?u = "snd (update_item n (\<lambda>_. True) (\<lambda>j. j\<lparr>ri_state := IAccepted,
      ri_reason := redact_reason rd re, ri_next_attempt := na, ri_updated := now\<rparr>) (mid s))"
  obtain t where t: "reconcile ?u rid now = Inr t" using assms(2) by (auto simp: reconcile_def Let_def)
  then have "record_requeue rd mid s rid et eid re na now = Inr t"
    using assms(3-5) by (simp add: record_requeue_def)
  then show ?thesis
    using reconcile_by_id [OF t] assms(1) by_id_mem [OF assms(1)]
    by (auto simp: get_item_by_id_update)
qed

theorem requeue_race_resurrects_witness:
  "\<exists>t k. record_requeue id (\<lambda>s. lstep id s (LOutcome ''r1'' ''issue'' ''42'' ISucceeded None ''t2''))
         demo_ledger ''r1'' ''issue'' ''42'' (Some ''worker restart'') None ''t3'' = Inr t
     \<and> get_item_by_id t 0 = Some k \<and> ri_state k = IAccepted \<and> ri_completed k = Some ''t2''"
proof -
  let ?mid = "\<lambda>s. lstep id s (LOutcome ''r1'' ''issue'' ''42'' ISucceeded None ''t2'')"
  let ?j = "demo_item\<lparr>ri_state := ISucceeded, ri_updated := ''t2'', ri_completed := Some ''t2''\<rparr>"
  have j: "get_item_by_id (?mid demo_ledger) 0 = Some ?j" by code_simp
  have "get_run (?mid demo_ledger) ''r1'' \<noteq> None" by code_simp
  then obtain r where r: "get_run (?mid demo_ledger) ''r1'' = Some r" by blast
  from requeue_race_resurrects [where mid = ?mid, OF j r demo_item_there]
  show ?thesis by (simp add: demo_item_def new_item_def outcome_terminal_def)
qed

end
