(* ===== verification/Policy.thy ===== *)
theory Policy
  imports RunLedger
begin

text \<open>
  \<open>comicarr/app/acquisition/policy.py\<close>: the pure acquisition policy.  A \<open>datetime.date\<close> is its
  proleptic Gregorian ordinal (\<open>date.toordinal\<close>), and \<open>fromisoformat\<close> is the standard
  library's parser (Python 3.11 and later): calendar dates and ISO week dates, with or without
  dashes, on a text of 7, 8 or 10 characters.
\<close>

section \<open>Dates\<close>

definition leap_year :: "int \<Rightarrow> bool" where
  "leap_year y = (y mod 4 = 0 \<and> (y mod 100 \<noteq> 0 \<or> y mod 400 = 0))"

definition days_in_month :: "int \<Rightarrow> int \<Rightarrow> int" where
  "days_in_month y m =
     (if m = 2 then (if leap_year y then 29 else 28)
      else if m \<in> {4, 6, 9, 11} then 30 else 31)"

fun days_before_month_nat :: "int \<Rightarrow> nat \<Rightarrow> int" where
  "days_before_month_nat y 0 = 0"
| "days_before_month_nat y (Suc m) = days_before_month_nat y m + days_in_month y (int m + 1)"

definition days_before_month :: "int \<Rightarrow> int \<Rightarrow> int" where
  "days_before_month y m = days_before_month_nat y (nat (m - 1))"

definition days_before_year :: "int \<Rightarrow> int" where
  "days_before_year y = (let p = y - 1 in p * 365 + p div 4 - p div 100 + p div 400)"

definition toordinal :: "int \<Rightarrow> int \<Rightarrow> int \<Rightarrow> int" where
  "toordinal y m d = days_before_year y + days_before_month y m + d"

definition valid_ymd :: "int \<Rightarrow> int \<Rightarrow> int \<Rightarrow> bool" where
  "valid_ymd y m d \<longleftrightarrow> 1 \<le> y \<and> y \<le> 9999 \<and> 1 \<le> m \<and> m \<le> 12 \<and> 1 \<le> d \<and> d \<le> days_in_month y m"

definition weekday :: "int \<Rightarrow> int" where
  "weekday n = (n + 6) mod 7"

definition iso_week1_monday :: "int \<Rightarrow> int" where
  "iso_week1_monday y =
     (let first = toordinal y 1 1; w = weekday first; monday = first - w
      in if w > 3 then monday + 7 else monday)"

definition max_ordinal :: int where
  "max_ordinal = 3652059"

definition iso_week_date :: "int \<Rightarrow> int \<Rightarrow> int \<Rightarrow> int option" where
  "iso_week_date y w d =
     (let fw = weekday (toordinal y 1 1);
          week_ok = (1 \<le> w \<and> w \<le> 52) \<or> (w = 53 \<and> (fw = 3 \<or> (fw = 2 \<and> leap_year y)));
          n = iso_week1_monday y + (w - 1) * 7 + d - 1
      in if 1 \<le> y \<and> week_ok \<and> 1 \<le> d \<and> d \<le> 7 \<and> 1 \<le> n \<and> n \<le> max_ordinal then Some n else None)"

text \<open>\<open>parse_digits\<close>: exactly \<open>k\<close> ASCII digits, and the rest of the text.\<close>

fun parse_digits :: "nat \<Rightarrow> int \<Rightarrow> string \<Rightarrow> (int \<times> string) option" where
  "parse_digits 0 acc s = Some (acc, s)"
| "parse_digits (Suc k) acc [] = None"
| "parse_digits (Suc k) acc (c # s) =
     (if is_digit c then parse_digits k (acc * 10 + digit_val c) s else None)"

text \<open>A dash where the text has used one before.\<close>

definition expect_dash :: "bool \<Rightarrow> string \<Rightarrow> string option" where
  "expect_dash sep s = (if sep then (case s of c # t \<Rightarrow> if c = CHR ''-'' then Some t else None | [] \<Rightarrow> None)
                        else Some s)"

definition parse_week :: "int \<Rightarrow> bool \<Rightarrow> string \<Rightarrow> int option" where
  "parse_week y sep s =
     (case parse_digits 2 0 s of
        None \<Rightarrow> None
      | Some (w, []) \<Rightarrow> iso_week_date y w 1
      | Some (w, t) \<Rightarrow>
          (case expect_dash sep t of
             None \<Rightarrow> None
           | Some u \<Rightarrow> (case parse_digits 1 0 u of None \<Rightarrow> None | Some (d, _) \<Rightarrow> iso_week_date y w d)))"

definition parse_calendar :: "int \<Rightarrow> bool \<Rightarrow> string \<Rightarrow> int option" where
  "parse_calendar y sep s =
     (case parse_digits 2 0 s of
        None \<Rightarrow> None
      | Some (m, t) \<Rightarrow>
          (case expect_dash sep t of
             None \<Rightarrow> None
           | Some u \<Rightarrow> (case parse_digits 2 0 u of
                None \<Rightarrow> None
              | Some (d, _) \<Rightarrow> if valid_ymd y m d then Some (toordinal y m d) else None)))"

definition fromisoformat :: "string \<Rightarrow> int option" where
  "fromisoformat s =
     (if length s \<notin> {7, 8, 10} then None
      else case parse_digits 4 0 s of
        None \<Rightarrow> None
      | Some (y, t) \<Rightarrow>
          let sep = (t \<noteq> [] \<and> hd t = CHR ''-''); u = (if sep then tl t else t)
          in if u \<noteq> [] \<and> hd u = CHR ''W'' then parse_week y sep (tl u)
             else parse_calendar y sep u)"

section \<open>The decision\<close>

text \<open>A date column: absent, a \<open>date\<close> (or the date of a \<open>datetime\<close>), or text.\<close>

datatype date_input = NoDate | ADate int | DText string

definition parse_date :: "date_input \<Rightarrow> int option" where
  "parse_date v =
     (case v of
        NoDate \<Rightarrow> None
      | ADate n \<Rightarrow> Some n
      | DText s \<Rightarrow> if py_strip s = [] then None else fromisoformat (take 10 (py_strip s)))"

definition date_supplied :: "date_input \<Rightarrow> bool" where
  "date_supplied v = (case v of NoDate \<Rightarrow> False | ADate n \<Rightarrow> True | DText s \<Rightarrow> py_strip s \<noteq> [])"

record eligibility_input =
  ei_series_active :: bool
  ei_intent :: intent
  ei_fulfillment :: fulfillment
  ei_release_date :: date_input
  ei_digital_date :: date_input
  ei_issue_date :: date_input
  ei_paused :: bool

record eligibility_decision =
  ed_eligible :: bool
  ed_reason :: string
  ed_selected :: "int option"
  ed_source :: "string option"

fun select_from :: "(string \<times> date_input) list \<Rightarrow> bool \<Rightarrow> (int \<times> string) option \<times> bool" where
  "select_from [] supplied = (None, supplied)"
| "select_from ((source, raw) # r) supplied =
     (let given = (supplied \<or> date_supplied raw)
      in case parse_date raw of Some n \<Rightarrow> (Some (n, source), given) | None \<Rightarrow> select_from r given)"

definition date_sources :: "eligibility_input \<Rightarrow> (string \<times> date_input) list" where
  "date_sources item = [(''release_date'', ei_release_date item), (''digital_date'', ei_digital_date item),
                        (''issue_date'', ei_issue_date item)]"

definition select_date :: "eligibility_input \<Rightarrow> (int \<times> string) option \<times> bool" where
  "select_date item = select_from (date_sources item) False"

definition decision :: "bool \<Rightarrow> string \<Rightarrow> (int \<times> string) option \<Rightarrow> eligibility_decision" where
  "decision ok reason sel = \<lparr>ed_eligible = ok, ed_reason = reason, ed_selected = map_option fst sel,
                             ed_source = map_option snd sel\<rparr>"

definition evaluate_eligibility :: "eligibility_input \<Rightarrow> int \<Rightarrow> eligibility_decision" where
  "evaluate_eligibility item today =
     (if \<not> ei_series_active item then decision False ''series_inactive'' None
      else if ei_paused item then decision False ''paused'' None
      else if is_owned (ei_fulfillment item) then decision False ''owned'' None
      else if is_covered (ei_fulfillment item) then decision False ''covered'' None
      else if is_in_flight (ei_fulfillment item) then decision False ''in_flight'' None
      else if ei_intent item = Skipped then decision False ''intent_skipped'' None
      else if ei_intent item = Ignored then decision False ''intent_ignored'' None
      else case select_date item of
        (None, supplied) \<Rightarrow> decision False (if supplied then ''invalid_date'' else ''missing_date'') None
      | (Some (d, source), _) \<Rightarrow>
          if d > today then decision False ''future'' (Some (d, source))
          else decision True ''released'' (Some (d, source)))"

section \<open>The dual-written state\<close>

definition intent_value :: "intent \<Rightarrow> string" where
  "intent_value i = (case i of Policy \<Rightarrow> ''policy'' | Wanted \<Rightarrow> ''wanted'' | Skipped \<Rightarrow> ''skipped''
     | Ignored \<Rightarrow> ''ignored'')"

definition parse_intent :: "string option \<Rightarrow> intent" where
  "parse_intent v =
     (case v of None \<Rightarrow> Policy
      | Some s \<Rightarrow> let t = py_lower (py_strip s) in
          if t = ''wanted'' then Wanted else if t = ''skipped'' then Skipped
          else if t = ''ignored'' then Ignored else Policy)"

definition LEGACY_FULFILLMENT :: "string \<Rightarrow> fulfillment" where
  "LEGACY_FULFILLMENT s =
     (if s \<in> {''wanted'', ''skipped'', ''ignored''} then FMissing
      else if s = ''reserved'' then FReserved else if s = ''snatched'' then FSnatched
      else if s = ''downloaded'' then FDownloaded else if s = ''archived'' then FArchived
      else if s = ''failed'' then FFailed else FUnknown)"

record state_projection =
  sp_intent :: intent
  sp_fulfillment :: fulfillment
  sp_explicit :: bool

definition project_legacy_state :: "string option \<Rightarrow> string option \<Rightarrow> state_projection" where
  "project_legacy_state acquisition_intent legacy_status =
     (let i = parse_intent acquisition_intent;
          st = (case legacy_status of None \<Rightarrow> [] | Some s \<Rightarrow> py_lower (py_strip s))
      in \<lparr>sp_intent = i, sp_fulfillment = LEGACY_FULFILLMENT st, sp_explicit = (i \<noteq> Policy)\<rparr>)"

definition LEGACY_EXPLICIT_STATUS :: "intent \<Rightarrow> string" where
  "LEGACY_EXPLICIT_STATUS i = (case i of Wanted \<Rightarrow> ''Wanted'' | Skipped \<Rightarrow> ''Skipped''
     | Ignored \<Rightarrow> ''Ignored'' | Policy \<Rightarrow> [])"

definition explicit_intent_values :: "string option \<Rightarrow> string option \<Rightarrow> lerror + string \<times> string" where
  "explicit_intent_values intent audit =
     (let i = parse_intent intent in
      if (case audit of None \<Rightarrow> True | Some s \<Rightarrow> py_strip s = []) then Inl LValueError
      else if i = Policy then Inl LValueError
      else Inr (intent_value i, LEGACY_EXPLICIT_STATUS i))"

section \<open>Dates as text\<close>

definition digit_char :: "nat \<Rightarrow> char" where
  "digit_char n = char_of (48 + n)"

definition pad2 :: "int \<Rightarrow> string" where
  "pad2 n = [digit_char (nat (n div 10)), digit_char (nat (n mod 10))]"

definition pad4 :: "int \<Rightarrow> string" where
  "pad4 n = pad2 (n div 100) @ pad2 (n mod 100)"

definition isoformat :: "int \<Rightarrow> int \<Rightarrow> int \<Rightarrow> string" where
  "isoformat y m d = pad4 y @ ''-'' @ pad2 m @ ''-'' @ pad2 d"

text \<open>\<open>date.fromordinal\<close>: the cycles of 400, 100, 4 and 1 years, then the month.\<close>

fun month_of :: "int \<Rightarrow> nat \<Rightarrow> int \<Rightarrow> int \<Rightarrow> int \<times> int" where
  "month_of y 0 m n = (m, n + 1)"
| "month_of y (Suc k) m n =
     (if n < days_in_month y m then (m, n + 1) else month_of y k (m + 1) (n - days_in_month y m))"

definition fromordinal :: "int \<Rightarrow> int \<times> int \<times> int" where
  "fromordinal n0 =
     (let n = n0 - 1; n400 = n div 146097; a = n mod 146097;
          n100 = a div 36524; b = a mod 36524; n4 = b div 1461; c = b mod 1461;
          n1 = c div 365; d = c mod 365; y = n400 * 400 + 1 + n100 * 100 + n4 * 4 + n1
      in if n1 = 4 \<or> n100 = 4 then (y - 1, 12, 31) else (y, month_of y 11 1 d))"

section \<open>Facts about dates\<close>

lemma days_in_month_pos: "1 \<le> days_in_month y m"
  by (simp add: days_in_month_def)

lemma days_before_month_mono: "a \<le> b \<Longrightarrow> days_before_month_nat y a \<le> days_before_month_nat y b"
proof (induction b)
  case (Suc b)
  show ?case
  proof (cases "a = Suc b")
    case False
    then have "days_before_month_nat y a \<le> days_before_month_nat y b" using Suc by simp
    then show ?thesis using days_in_month_pos [of y "int b + 1"] by simp
  qed simp
qed simp

lemma month_ends_before:
  assumes "1 \<le> m" and "m < n" and "d \<le> days_in_month y m"
  shows "days_before_month y m + d \<le> days_before_month y n"
proof -
  have "Suc (nat (m - 1)) \<le> nat (n - 1)" using assms(1,2) by linarith
  then have "days_before_month_nat y (Suc (nat (m - 1))) \<le> days_before_month_nat y (nat (n - 1))"
    by (rule days_before_month_mono)
  then show ?thesis using assms(1,3) by (simp add: days_before_month_def)
qed

lemma div_step:
  fixes y k :: int
  assumes "0 < k"
  shows "y div k = (y - 1) div k + (if k dvd y then 1 else 0)"
proof (cases "k dvd y")
  case True
  then have "y - 1 = k * (y div k - 1) + (k - 1)" by (simp add: algebra_simps)
  then have "(y - 1) div k = y div k - 1" by (rule int_div_pos_eq) (use assms in simp_all)
  with True show ?thesis by simp
next
  case False
  then have "0 < y mod k" using assms by (simp add: dvd_eq_mod_eq_0 order_less_le)
  moreover have "y - 1 = k * (y div k) + (y mod k - 1)" by simp
  moreover have "y mod k - 1 < k" using pos_mod_bound [OF assms, of y] by simp
  ultimately have "(y - 1) div k = y div k" by (intro int_div_pos_eq [where r = "y mod k - 1"]) simp_all
  with False show ?thesis by simp
qed

lemma year_length:
  "days_before_year (y + 1) = days_before_year y + (if leap_year y then 366 else 365)"
proof -
  have "400 dvd y \<Longrightarrow> 100 dvd y" and "100 dvd y \<Longrightarrow> 4 dvd y"
    by (rule dvd_trans [of 100 400], simp_all, rule dvd_trans [of 4 100], simp_all)
  moreover have "leap_year y \<longleftrightarrow> 4 dvd y \<and> (\<not> 100 dvd y \<or> 400 dvd y)"
    by (simp only: leap_year_def dvd_eq_mod_eq_0)
  ultimately have leap: "(if leap_year y then 1 else 0 :: int) =
      (if 4 dvd y then 1 else 0) - (if 100 dvd y then 1 else 0) + (if 400 dvd y then 1 else 0)"
    by (cases "4 dvd y"; cases "100 dvd y"; cases "400 dvd y") simp_all
  have sum: "p * 365 + 365 + (a + x) - (b + z) + (c + w) = (p * 365 + a - b + c) + 365 + (x - z + w)"
    for p a b c x z w :: int by simp
  have "days_before_year (y + 1) = (y - 1) * 365 + 365 + y div 4 - y div 100 + y div 400"
    by (simp add: days_before_year_def Let_def algebra_simps)
  also have "\<dots> = days_before_year y + 365 + (if leap_year y then 1 else 0)"
    unfolding div_step [of 4 y, simplified] div_step [of 100 y, simplified] div_step [of 400 y, simplified]
      leap sum days_before_year_def Let_def by (rule refl)
  finally show ?thesis by simp
qed

lemma year_total: "days_before_month_nat y 12 = (if leap_year y then 366 else 365)"
  by (simp add: numeral_eq_Suc days_in_month_def)

lemma day_in_year:
  assumes "valid_ymd y m d"
  shows "1 \<le> days_before_month y m + d" and "days_before_month y m + d \<le> (if leap_year y then 366 else 365)"
proof -
  have "0 \<le> days_before_month y m"
    unfolding days_before_month_def using days_before_month_mono [of 0] by simp
  then show "1 \<le> days_before_month y m + d" using assms by (simp add: valid_ymd_def)
  have "days_before_month_nat y (Suc (nat (m - 1))) \<le> days_before_month_nat y 12"
    using assms by (intro days_before_month_mono) (simp add: valid_ymd_def nat_le_iff)
  then show "days_before_month y m + d \<le> (if leap_year y then 366 else 365)"
    using assms by (simp add: year_total days_before_month_def valid_ymd_def)
qed

lemma days_before_year_mono: "a \<le> b \<Longrightarrow> days_before_year a \<le> days_before_year b"
proof (induction b rule: int_ge_induct)
  case (step i)
  then show ?case using year_length [of i] by (simp split: if_splits)
qed simp

lemma toordinal_year:
  assumes "valid_ymd y m d" and "valid_ymd y' m' d'" and "y < y'"
  shows "toordinal y m d < toordinal y' m' d'"
proof -
  have "days_before_year (y + 1) \<le> days_before_year y'" using assms(3) by (intro days_before_year_mono) simp
  then show ?thesis
    using day_in_year(2) [OF assms(1)] day_in_year(1) [OF assms(2)] year_length [of y]
    by (simp add: toordinal_def split: if_splits)
qed

end
