(* ===== verification/PolicyProps.thy ===== *)
theory PolicyProps
  imports Policy
begin

text \<open>
  The acquisition policy decides what its documentation says: exactly when an issue is eligible,
  which date decides, that ISO text stands for the calendar date it prints, and that an explicit
  choice written in both columns is read back as that choice.
\<close>

section \<open>Printed dates\<close>

lemma of_char_digit: "n < 10 \<Longrightarrow> (of_char (digit_char n) :: nat) = 48 + n"
  by (simp add: digit_char_def)

lemma digit_char_is_digit [simp]: "n < 10 \<Longrightarrow> is_digit (digit_char n)"
  by (simp add: is_digit_def of_char_digit Let_def)

lemma digit_char_val [simp]: "n < 10 \<Longrightarrow> digit_val (digit_char n) = int n"
proof -
  assume n: "n < 10"
  have "(of_char (digit_char n) :: int) = int (of_char (digit_char n))"
    by (rule of_nat_of_char [symmetric])
  also have "\<dots> = 48 + int n" using of_char_digit [OF n] by simp
  finally show ?thesis by (simp add: digit_val_def)
qed

lemma parse_pad2:
  assumes "0 \<le> n" and "n < 100"
  shows "parse_digits (Suc (Suc k)) acc (pad2 n @ s) = parse_digits k (acc * 100 + n) s"
proof -
  have b: "nat (n div 10) < 10" "nat (n mod 10) < 10" using assms by auto
  have "0 \<le> n div 10" using assms(1) by (simp add: pos_imp_zdiv_nonneg_iff)
  moreover have "(acc * 10 + n div 10) * 10 + n mod 10 = acc * 100 + n" by simp
  ultimately show ?thesis by (simp add: pad2_def b del: pos_imp_zdiv_nonneg_iff) (simp add: algebra_simps)
qed

lemma parse_pad2_end:
  "0 \<le> n \<Longrightarrow> n < 100 \<Longrightarrow> parse_digits 2 0 (pad2 n @ s) = Some (n, s)"
  using parse_pad2 [of n 0 0 s] by (simp add: numeral_2_eq_2)

lemma parse_pad4:
  assumes "0 \<le> n" and "n < 10000"
  shows "parse_digits 4 0 (pad4 n @ s) = Some (n, s)"
proof -
  have b: "0 \<le> n div 100" "n div 100 < 100" "0 \<le> n mod 100" "n mod 100 < 100" using assms by auto
  have "parse_digits 4 0 (pad4 n @ s) = parse_digits (Suc (Suc (Suc (Suc 0)))) 0 (pad2 (n div 100) @ pad2 (n mod 100) @ s)"
    by (simp add: pad4_def eval_nat_numeral)
  also have "\<dots> = Some (n div 100 * 100 + n mod 100, s)"
    unfolding parse_pad2 [OF b(1,2)] parse_pad2 [OF b(3,4)] by simp
  also have "n div 100 * 100 + n mod 100 = n" by simp
  finally show ?thesis .
qed

lemma days_in_month_le: "days_in_month y m \<le> 31"
  by (simp add: days_in_month_def)

lemma digit_char_plain:
  assumes "n < 10"
  shows "digit_char n \<noteq> CHR ''W''" and "\<not> py_isspace (digit_char n)"
proof -
  show "digit_char n \<noteq> CHR ''W''"
  proof
    assume "digit_char n = CHR ''W''"
    then have "(of_char (digit_char n) :: nat) = of_char CHR ''W''" by simp
    then show False using of_char_digit [OF assms] assms by simp
  qed
  show "\<not> py_isspace (digit_char n)"
    using of_char_digit [OF assms] assms by (simp add: py_isspace_def Let_def)
qed

lemma py_strip_id:
  assumes "s \<noteq> []" and "\<not> py_isspace (hd s)" and "\<not> py_isspace (last s)"
  shows "py_strip s = s"
proof -
  have "py_lstrip s = s" using assms(1,2) by (cases s) (simp_all add: py_lstrip_def)
  moreover have "dropWhile py_isspace (rev s) = rev s"
    using assms(1,3) by (cases "rev s") (auto simp: last_rev hd_rev [symmetric] simp flip: hd_rev)
  ultimately show ?thesis by (simp add: py_strip_def py_rstrip_def)
qed

text \<open>A calendar date printed as \<open>YYYY-MM-DD\<close>, alone or followed by a time, is read back as that
  date, so a release date column that holds an ISO date or time stamp is the date it shows.\<close>

theorem iso_text_is_its_date:
  assumes "valid_ymd y m d"
  shows "parse_date (DText (isoformat y m d)) = Some (toordinal y m d)
    \<and> parse_date (DText (isoformat y m d @ ''T'' @ rest @ ''Z'')) = Some (toordinal y m d)"
proof -
  have b: "0 \<le> y" "y < 10000" "0 \<le> m" "m < 100" "0 \<le> d" "d < 100"
    using assms days_in_month_le [of y m] by (auto simp: valid_ymd_def)
  have len: "length (isoformat y m d) = 10" by (simp add: isoformat_def pad4_def pad2_def)
  have W: "hd (pad2 m @ s) \<noteq> CHR ''W''" for s
    using b by (simp add: pad2_def digit_char_plain)
  have parse: "fromisoformat (isoformat y m d) = Some (toordinal y m d)"
  proof -
    have "parse_calendar y True (pad2 m @ ''-'' @ pad2 d) = Some (toordinal y m d)"
      using parse_pad2_end [OF b(3,4)] parse_pad2_end [OF b(5,6), of "[]"] assms
      by (simp add: parse_calendar_def expect_dash_def)
    then show ?thesis
      using len W parse_pad4 [OF b(1,2)] by (simp add: fromisoformat_def isoformat_def Let_def pad2_def)
  qed
  have first: "\<not> py_isspace (hd (isoformat y m d))" and last: "\<not> py_isspace (last (isoformat y m d))"
    using b by (simp_all add: isoformat_def pad4_def pad2_def digit_char_plain)
  have "isoformat y m d \<noteq> []" using len by auto
  with first last have strip0: "py_strip (isoformat y m d) = isoformat y m d" by (intro py_strip_id)
  have "py_strip (isoformat y m d @ ''T'' @ rest @ ''Z'') = isoformat y m d @ ''T'' @ rest @ ''Z''"
    using \<open>isoformat y m d \<noteq> []\<close> first by (intro py_strip_id) (simp_all add: py_isspace_def)
  then show ?thesis
    using strip0 parse len by (auto simp: parse_date_def)
qed

theorem iso_text_is_its_date_witness:
  "parse_date (DText (isoformat 2024 2 29)) = Some (toordinal 2024 2 29)
   \<and> parse_date (DText (isoformat 2024 2 29 @ ''T'' @ ''10:00'' @ ''Z'')) = Some (toordinal 2024 2 29)"
  by (rule iso_text_is_its_date) (simp add: valid_ymd_def days_in_month_def leap_year_def)

text \<open>Comparing the parsed dates is comparing calendar dates: the ordinals the policy compares are
  ordered as year, month, day.\<close>

theorem ordinals_follow_the_calendar:
  assumes "valid_ymd y m d" and "valid_ymd y' m' d'"
  shows "toordinal y m d < toordinal y' m' d' \<longleftrightarrow> y < y' \<or> (y = y' \<and> (m < m' \<or> (m = m' \<and> d < d')))"
proof -
  have month: "toordinal y a d < toordinal y b e"
    if "a < b" "valid_ymd y a d" "valid_ymd y b e" for y a b d e
    using that month_ends_before [of a b d y] by (simp add: toordinal_def valid_ymd_def)
  consider "y < y'" | "y' < y" | "y = y'" "m < m'" | "y = y'" "m' < m" | "y = y'" "m = m'" by linarith
  then show ?thesis
  proof cases
    case 1
    then show ?thesis using toordinal_year [OF assms] by simp
  next
    case 2
    then show ?thesis using toordinal_year [OF assms(2,1)] by simp
  next
    case 3
    then show ?thesis using month [of m m' y d d'] assms by simp
  next
    case 4
    then show ?thesis using month [of m' m y d' d] assms by simp
  next
    case 5
    then show ?thesis by (simp add: toordinal_def)
  qed
qed

theorem ordinals_follow_the_calendar_witness:
  "toordinal 2023 12 31 < toordinal 2024 1 1
   \<longleftrightarrow> (2023 :: int) < 2024 \<or> ((2023 :: int) = 2024 \<and> ((12 :: int) < 1 \<or> ((12 :: int) = 1 \<and> (31 :: int) < 1)))"
  by (rule ordinals_follow_the_calendar) (simp_all add: valid_ymd_def days_in_month_def)

section \<open>The decision\<close>

lemma select_from_some:
  "fst (select_from srcs given) = Some (n, source) \<longleftrightarrow>
   (\<exists>a v b. srcs = a @ (source, v) # b \<and> parse_date v = Some n \<and> (\<forall>x \<in> set a. parse_date (snd x) = None))"
proof (induction srcs given rule: select_from.induct)
  case (2 src raw r given)
  show ?case
  proof (cases "parse_date raw")
    case None
    then have "fst (select_from ((src, raw) # r) given) = Some (n, source)
      \<longleftrightarrow> fst (select_from r (given \<or> date_supplied raw)) = Some (n, source)" by simp
    also have "\<dots> \<longleftrightarrow> (\<exists>a v b. r = a @ (source, v) # b \<and> parse_date v = Some n
        \<and> (\<forall>x \<in> set a. parse_date (snd x) = None))"
      by (rule "2.IH" [OF refl None])
    also have "\<dots> \<longleftrightarrow> (\<exists>a v b. (src, raw) # r = a @ (source, v) # b \<and> parse_date v = Some n
        \<and> (\<forall>x \<in> set a. parse_date (snd x) = None))"
    proof (intro iffI; elim exE conjE)
      fix a v b
      assume "r = a @ (source, v) # b" and "parse_date v = Some n" and "\<forall>x \<in> set a. parse_date (snd x) = None"
      then show "\<exists>a v b. (src, raw) # r = a @ (source, v) # b \<and> parse_date v = Some n
          \<and> (\<forall>x \<in> set a. parse_date (snd x) = None)"
        using None by (intro exI [of _ "(src, raw) # a"] exI [of _ v] exI [of _ b]) simp
    next
      fix a v b
      assume "(src, raw) # r = a @ (source, v) # b" and "parse_date v = Some n"
        and "\<forall>x \<in> set a. parse_date (snd x) = None"
      then show "\<exists>a v b. r = a @ (source, v) # b \<and> parse_date v = Some n
          \<and> (\<forall>x \<in> set a. parse_date (snd x) = None)"
        using None by (cases a) auto
    qed
    finally show ?thesis .
  next
    case (Some k)
    then have "fst (select_from ((src, raw) # r) given) = Some (k, src)" by simp
    moreover have "\<exists>a v b. (src, raw) # r = a @ (src, v) # b \<and> parse_date v = Some k
        \<and> (\<forall>x \<in> set a. parse_date (snd x) = None)"
      using Some by (intro exI [of _ "[]"] exI [of _ raw] exI [of _ r]) simp
    moreover have "k = n \<and> src = source" if "(src, raw) # r = a @ (source, v) # b"
      and "parse_date v = Some n" and "\<forall>x \<in> set a. parse_date (snd x) = None" for a v b
      using that Some by (cases a) auto
    ultimately show ?thesis by (intro iffI) (simp, metis)
  qed
qed simp

text \<open>An issue is eligible exactly when its series is active and not paused, its fulfilment is unknown,
  missing or failed, its intent is neither skipped nor ignored, and the first of the release, digital
  and issue dates that can be parsed is not after today; that date and its column are the ones
  reported.  A column that cannot be parsed is passed over, not a refusal.\<close>

theorem eligible_exactly_when:
  "ed_eligible (evaluate_eligibility item today) \<longleftrightarrow>
     ei_series_active item \<and> \<not> ei_paused item
     \<and> ei_fulfillment item \<in> {FUnknown, FMissing, FFailed}
     \<and> ei_intent item \<in> {Policy, Wanted}
     \<and> (\<exists>a source v b n. date_sources item = a @ (source, v) # b \<and> parse_date v = Some n \<and> n \<le> today
          \<and> (\<forall>x \<in> set a. parse_date (snd x) = None)
          \<and> ed_selected (evaluate_eligibility item today) = Some n
          \<and> ed_source (evaluate_eligibility item today) = Some source)"
proof -
  have f: "\<not> is_owned (ei_fulfillment item) \<and> \<not> is_covered (ei_fulfillment item)
      \<and> \<not> is_in_flight (ei_fulfillment item) \<longleftrightarrow> ei_fulfillment item \<in> {FUnknown, FMissing, FFailed}"
    by (cases "ei_fulfillment item") (simp_all add: is_owned_def is_covered_def is_in_flight_def)
  have i: "ei_intent item \<noteq> Skipped \<and> ei_intent item \<noteq> Ignored \<longleftrightarrow> ei_intent item \<in> {Policy, Wanted}"
    by (cases "ei_intent item") simp_all
  let ?guard = "ei_series_active item \<and> \<not> ei_paused item
     \<and> ei_fulfillment item \<in> {FUnknown, FMissing, FFailed} \<and> ei_intent item \<in> {Policy, Wanted}"
  show ?thesis
  proof (cases "?guard")
    case False
    then have "\<not> ed_eligible (evaluate_eligibility item today)"
      using f i by (auto simp: evaluate_eligibility_def decision_def)
    with False show ?thesis by blast
  next
    case True
    obtain sel given where s: "select_date item = (sel, given)" by force
    have e: "evaluate_eligibility item today = (case sel of
        None \<Rightarrow> decision False (if given then ''invalid_date'' else ''missing_date'') None
      | Some (n, source) \<Rightarrow> if n > today then decision False ''future'' (Some (n, source))
                             else decision True ''released'' (Some (n, source)))"
      using True f i s by (auto simp: evaluate_eligibility_def split: option.splits)
    have chosen: "sel = Some (n, source) \<longleftrightarrow> (\<exists>a v b. date_sources item = a @ (source, v) # b
        \<and> parse_date v = Some n \<and> (\<forall>x \<in> set a. parse_date (snd x) = None))" for n source
      using select_from_some [of "date_sources item" False n source] s by (simp add: select_date_def)
    show ?thesis
    proof (cases sel)
      case None
      then show ?thesis using e chosen by (auto simp: decision_def)
    next
      case (Some ns)
      obtain n source where ns: "ns = (n, source)" by force
      from chosen [of n source] Some ns obtain a v b where "date_sources item = a @ (source, v) # b"
        and "parse_date v = Some n" and "\<forall>x \<in> set a. parse_date (snd x) = None" by blast
      then show ?thesis
        using True e Some ns by (auto simp: decision_def)
    qed
  qed
qed

definition demo_issue :: eligibility_input where
  "demo_issue = \<lparr>ei_series_active = True, ei_intent = Policy, ei_fulfillment = FMissing,
     ei_release_date = DText ''soon'', ei_digital_date = NoDate, ei_issue_date = DText ''2024-02-29'',
     ei_paused = False\<rparr>"

theorem eligible_exactly_when_witness:
  "\<exists>n. ed_selected (evaluate_eligibility demo_issue (toordinal 2024 3 1)) = Some n
     \<and> n \<le> toordinal 2024 3 1"
proof -
  have "ed_eligible (evaluate_eligibility demo_issue (toordinal 2024 3 1))" by code_simp
  then show ?thesis unfolding eligible_exactly_when by blast
qed

section \<open>Explicit choices\<close>

text \<open>An explicit choice survives the dual write: for every intent that can be set with an audit
  identity, projecting the two columns it writes gives back that intent, marked explicit, with nothing
  claimed about ownership; without an audit identity, and for the derived policy intent, it is refused.\<close>

theorem explicit_choice_round_trips:
  "(case explicit_intent_values v audit of
      Inr (intent_col, status_col) \<Rightarrow>
        project_legacy_state (Some intent_col) (Some status_col)
          = \<lparr>sp_intent = parse_intent v, sp_fulfillment = FMissing, sp_explicit = True\<rparr>
        \<and> parse_intent v \<noteq> Policy
    | Inl e \<Rightarrow> e = LValueError \<and> (parse_intent v = Policy \<or> audit = None
                 \<or> (\<exists>s. audit = Some s \<and> py_strip s = [])))"
proof -
  have rt: "project_legacy_state (Some (intent_value i)) (Some (LEGACY_EXPLICIT_STATUS i))
      = \<lparr>sp_intent = i, sp_fulfillment = FMissing, sp_explicit = True\<rparr>" if "i \<noteq> Policy" for i
  proof -
    have "project_legacy_state (Some (intent_value Wanted)) (Some (LEGACY_EXPLICIT_STATUS Wanted))
        = \<lparr>sp_intent = Wanted, sp_fulfillment = FMissing, sp_explicit = True\<rparr>"
      and "project_legacy_state (Some (intent_value Skipped)) (Some (LEGACY_EXPLICIT_STATUS Skipped))
        = \<lparr>sp_intent = Skipped, sp_fulfillment = FMissing, sp_explicit = True\<rparr>"
      and "project_legacy_state (Some (intent_value Ignored)) (Some (LEGACY_EXPLICIT_STATUS Ignored))
        = \<lparr>sp_intent = Ignored, sp_fulfillment = FMissing, sp_explicit = True\<rparr>"
      by code_simp+
    with that show ?thesis by (cases i) simp_all
  qed
  then show ?thesis
    by (auto simp: explicit_intent_values_def Let_def split: option.splits sum.splits)
qed

end
