(* ===== verification/Retention.thy ===== *)
theory Retention
  imports PolicyProps JournalInv RunLedgerInv
    "HOL-Library.Char_ord" "HOL-Library.List_Lexorder" "HOL-Library.Option_ord"
    "HOL-Library.Product_Lexorder"
begin

text \<open>
  \<open>comicarr/app/acquisition/retention.py\<close>: the daily sweep of five growing tables.  A table is the list of
  its rows; text is ordered by code point, as the database orders it, and NULL below every value.
  SQL gives no order for \<open>LIMIT\<close> without \<open>ORDER BY\<close>: which rows a batch takes is the argument
  \<open>limit\<close>, a choice of at most so many rows of a list.
\<close>

section \<open>The batched deletes\<close>

definition DELETE_BATCH_SIZE :: nat where
  "DELETE_BATCH_SIZE = 500"

text \<open>\<open>ORDER BY age DESC, pk DESC LIMIT n\<close>.\<close>

definition keepers ::
  "('r \<Rightarrow> 'k::linorder) \<Rightarrow> ('r \<Rightarrow> string option) \<Rightarrow> ('r \<Rightarrow> bool) \<Rightarrow> nat \<Rightarrow> 'r list \<Rightarrow> 'k set" where
  "keepers pk age eligible n rows =
     set (map pk (take n (rev (sort_key (\<lambda>r. (age r, pk r)) (filter eligible rows)))))"

definition older :: "('r \<Rightarrow> string option) \<Rightarrow> string \<Rightarrow> 'r \<Rightarrow> bool" where
  "older age cutoff r = (case age r of None \<Rightarrow> False | Some t \<Rightarrow> t < cutoff)"

definition hybrid_candidates ::
  "('r \<Rightarrow> 'k::linorder) \<Rightarrow> ('r \<Rightarrow> string option) \<Rightarrow> ('r \<Rightarrow> bool) \<Rightarrow> string \<Rightarrow> nat \<Rightarrow> 'r list \<Rightarrow> 'r list" where
  "hybrid_candidates pk age eligible cutoff n rows =
     filter (\<lambda>r. eligible r \<and> older age cutoff r \<and> pk r \<notin> keepers pk age eligible n rows) rows"

definition age_candidates ::
  "('r \<Rightarrow> string option) \<Rightarrow> ('r \<Rightarrow> bool) \<Rightarrow> string \<Rightarrow> 'r list \<Rightarrow> 'r list" where
  "age_candidates age eligible cutoff rows = filter (\<lambda>r. eligible r \<and> older age cutoff r) rows"

text \<open>The loop the two functions share, over their own query \<open>candidates\<close>; \<open>None\<close> would be a loop that
  does not end.\<close>

partial_function (option) delete_loop ::
  "(nat \<Rightarrow> 'r list \<Rightarrow> 'r list) \<Rightarrow> ('r \<Rightarrow> 'k) \<Rightarrow> ('r list \<Rightarrow> 'r list) \<Rightarrow> nat \<Rightarrow> 'r list
   \<Rightarrow> (nat \<times> 'r list) option" where
  "delete_loop limit pk candidates dels rows =
     (let ids = map pk (limit DELETE_BATCH_SIZE (candidates rows)) in
      if ids = [] then Some (dels, rows)
      else let left = filter (\<lambda>r. pk r \<notin> set ids) rows;
               dels' = dels + (length rows - length left)
           in if length ids < DELETE_BATCH_SIZE then Some (dels', left)
              else delete_loop limit pk candidates dels' left)"

definition batched_hybrid_delete where
  "batched_hybrid_delete limit pk age eligible cutoff keep_newest rows =
     delete_loop limit pk (hybrid_candidates pk age eligible cutoff keep_newest) 0 rows"

definition batched_age_only_delete where
  "batched_age_only_delete limit pk age eligible cutoff rows =
     delete_loop limit pk (age_candidates age eligible cutoff) 0 rows"

section \<open>The tables\<close>

record mevent =
  me_id :: nat
  me_created :: string

record ai_row =
  ai_id :: nat
  ai_timestamp :: "string option"

record store =
  st_ledger :: rledger
  st_journal :: jstate
  st_events :: "mevent list"
  st_ai :: "ai_row list"

text \<open>A UTC date time: ordinal of the day, second of the day, microsecond.\<close>

record utc =
  u_day :: int
  u_second :: int
  u_micro :: int

definition pad6 :: "int \<Rightarrow> string" where
  "pad6 n = pad2 (n div 10000) @ pad4 (n mod 10000)"

definition clock_text :: "int \<Rightarrow> string" where
  "clock_text s = pad2 (s div 3600) @ '':'' @ pad2 (s mod 3600 div 60) @ '':'' @ pad2 (s mod 60)"

definition day_text :: "int \<Rightarrow> string" where
  "day_text n = (case fromordinal n of (y, m, d) \<Rightarrow> isoformat y m d)"

definition iso_cutoff :: "utc \<Rightarrow> int \<Rightarrow> string" where
  "iso_cutoff when days =
     day_text (u_day when - days) @ ''T'' @ clock_text (u_second when)
       @ (if u_micro when = 0 then [] else ''.'' @ pad6 (u_micro when)) @ ''+00:00''"

definition journal_cutoff :: "utc \<Rightarrow> int \<Rightarrow> string" where
  "journal_cutoff when days = day_text (u_day when - days) @ '' '' @ clock_text (u_second when)"

section \<open>The five purges\<close>

definition coalesce :: "string option \<Rightarrow> string \<Rightarrow> string option" where
  "coalesce a b = (case a of None \<Rightarrow> Some b | Some t \<Rightarrow> Some t)"

definition purge_acquisition_run_items ::
  "(nat \<Rightarrow> ritem list \<Rightarrow> ritem list) \<Rightarrow> utc \<Rightarrow> ritem list \<Rightarrow> (nat \<times> ritem list) option" where
  "purge_acquisition_run_items limit when rows =
     batched_hybrid_delete limit ri_id (\<lambda>i. coalesce (ri_completed i) (ri_updated i))
       (\<lambda>i. \<not> is_open_item i) (iso_cutoff when 90) 50000 rows"

definition purge_acquisition_runs ::
  "(nat \<Rightarrow> (string \<times> rrun) list \<Rightarrow> (string \<times> rrun) list) \<Rightarrow> utc \<Rightarrow> ritem list
   \<Rightarrow> (string \<times> rrun) list \<Rightarrow> (nat \<times> (string \<times> rrun) list) option" where
  "purge_acquisition_runs limit when items rows =
     batched_hybrid_delete limit fst (\<lambda>(rid, r). coalesce (rr_completed_at r) (rr_updated r))
       (\<lambda>(rid, r). rr_completed_at r \<noteq> None \<and> \<not> (\<exists>i \<in> set items. ri_run i = rid))
       (iso_cutoff when 90) 2000 rows"

definition journal_purgeable :: "jrow \<Rightarrow> bool" where
  "journal_purgeable r \<longleftrightarrow> jr_stage r = Post_processed
     \<or> (jr_stage r \<in> {Failed, Manual_review} \<and> is_resolved (jr_status r))"

definition purge_pipeline_journal ::
  "(nat \<Rightarrow> (string \<times> jrow) list \<Rightarrow> (string \<times> jrow) list) \<Rightarrow> utc \<Rightarrow> (string \<times> jrow) list
   \<Rightarrow> (nat \<times> (string \<times> jrow) list) option" where
  "purge_pipeline_journal limit when rows =
     batched_age_only_delete limit fst (\<lambda>(k, r). Some (jr_updated r)) (\<lambda>(k, r). journal_purgeable r)
       (journal_cutoff when 365) rows"

definition purge_maintenance_events ::
  "(nat \<Rightarrow> mevent list \<Rightarrow> mevent list) \<Rightarrow> utc \<Rightarrow> mevent list \<Rightarrow> (nat \<times> mevent list) option" where
  "purge_maintenance_events limit when rows =
     batched_hybrid_delete limit me_id (\<lambda>e. Some (me_created e)) (\<lambda>_. True) (iso_cutoff when 90) 5000 rows"

definition purge_ai_activity_log ::
  "(nat \<Rightarrow> ai_row list \<Rightarrow> ai_row list) \<Rightarrow> utc \<Rightarrow> ai_row list \<Rightarrow> (nat \<times> ai_row list) option" where
  "purge_ai_activity_log limit when rows =
     batched_hybrid_delete limit ai_id ai_timestamp (\<lambda>_. True) (iso_cutoff when 90) 10000 rows"

section \<open>The sweep\<close>

datatype purge_step = PItems | PRuns | PJournal | PEvents | PAi

definition PURGE_ORDER :: "purge_step list" where
  "PURGE_ORDER = [PItems, PRuns, PJournal, PEvents, PAi]"

text \<open>The choices of the five queries.\<close>

record limits =
  lm_items :: "nat \<Rightarrow> ritem list \<Rightarrow> ritem list"
  lm_runs :: "nat \<Rightarrow> (string \<times> rrun) list \<Rightarrow> (string \<times> rrun) list"
  lm_journal :: "nat \<Rightarrow> (string \<times> jrow) list \<Rightarrow> (string \<times> jrow) list"
  lm_events :: "nat \<Rightarrow> mevent list \<Rightarrow> mevent list"
  lm_ai :: "nat \<Rightarrow> ai_row list \<Rightarrow> ai_row list"

definition purge_one :: "limits \<Rightarrow> utc \<Rightarrow> purge_step \<Rightarrow> store \<Rightarrow> (nat \<times> store) option" where
  "purge_one lm when p s =
     (case p of
        PItems \<Rightarrow> map_option (\<lambda>(n, rows). (n, s\<lparr>st_ledger := (st_ledger s)\<lparr>rl_items := rows\<rparr>\<rparr>))
                    (purge_acquisition_run_items (lm_items lm) when (rl_items (st_ledger s)))
      | PRuns \<Rightarrow> map_option (\<lambda>(n, rows). (n, s\<lparr>st_ledger := (st_ledger s)\<lparr>rl_runs := rows\<rparr>\<rparr>))
                    (purge_acquisition_runs (lm_runs lm) when (rl_items (st_ledger s)) (rl_runs (st_ledger s)))
      | PJournal \<Rightarrow> map_option (\<lambda>(n, rows). (n, s\<lparr>st_journal := (st_journal s)\<lparr>js_rows := rows\<rparr>\<rparr>))
                    (purge_pipeline_journal (lm_journal lm) when (js_rows (st_journal s)))
      | PEvents \<Rightarrow> map_option (\<lambda>(n, rows). (n, s\<lparr>st_events := rows\<rparr>))
                    (purge_maintenance_events (lm_events lm) when (st_events s))
      | PAi \<Rightarrow> map_option (\<lambda>(n, rows). (n, s\<lparr>st_ai := rows\<rparr>))
                    (purge_ai_activity_log (lm_ai lm) when (st_ai s)))"

text \<open>\<open>run_ledger_retention\<close>.  \<open>faults\<close> says, step by step, whether the step's transaction raises: the sweep
  then stops, keeps what earlier steps committed, and returns None as its summary.\<close>

fun sweep_steps ::
  "limits \<Rightarrow> utc \<Rightarrow> purge_step list \<Rightarrow> bool list \<Rightarrow> (purge_step \<times> nat) list \<Rightarrow> store
   \<Rightarrow> ((purge_step \<times> nat) list option \<times> store) option" where
  "sweep_steps lm when [] faults summary s = Some (Some summary, s)"
| "sweep_steps lm when (p # ps) faults summary s =
     (if faults \<noteq> [] \<and> hd faults then Some (None, s)
      else case purge_one lm when p s of
        None \<Rightarrow> None
      | Some (n, t) \<Rightarrow> sweep_steps lm when ps (tl faults) (summary @ [(p, n)]) t)"

definition run_ledger_retention ::
  "limits \<Rightarrow> utc \<Rightarrow> bool list \<Rightarrow> store \<Rightarrow> ((purge_step \<times> nat) list option \<times> store) option" where
  "run_ledger_retention lm when faults s = sweep_steps lm when PURGE_ORDER faults [] s"

section \<open>What the loop deletes\<close>

text \<open>A choice of at most \<open>n\<close> rows, as many as there are.\<close>

definition limit_ok :: "(nat \<Rightarrow> 'r list \<Rightarrow> 'r list) \<Rightarrow> bool" where
  "limit_ok limit \<longleftrightarrow> (\<forall>n xs. set (limit n xs) \<subseteq> set xs \<and> length (limit n xs) = min n (length xs)
     \<and> (distinct xs \<longrightarrow> distinct (limit n xs)))"

text \<open>
  The contract between a query and the loop: what it returns are rows of the table, and deleting rows
  it returned leaves exactly the other candidates as candidates.
\<close>

locale purge_query =
  fixes pk :: "'r \<Rightarrow> 'k"
    and candidates :: "'r list \<Rightarrow> 'r list"
    and doomed :: "'r list \<Rightarrow> 'r \<Rightarrow> bool"
  assumes cand: "distinct (map pk rows) \<Longrightarrow> candidates rows = filter (doomed rows) rows"
    and stable: "distinct (map pk rows) \<Longrightarrow> left = filter P rows
       \<Longrightarrow> (\<And>r. r \<in> set rows \<Longrightarrow> \<not> P r \<Longrightarrow> doomed rows r)
       \<Longrightarrow> r \<in> set left \<Longrightarrow> doomed left r = doomed rows r"
begin

lemma batch_left:
  assumes "distinct (map pk rows)" and "set ids \<subseteq> set (candidates rows)"
    and left: "left = filter (\<lambda>r. pk r \<notin> pk ` set ids) rows"
  shows "filter (\<lambda>r. \<not> doomed left r) left = filter (\<lambda>r. \<not> doomed rows r) rows"
    and "candidates left = filter (doomed rows) left"
    and "length left = length rows - card (pk ` set ids)"
proof -
  have inj: "inj_on pk (set rows)" using assms(1) by (simp add: distinct_map)
  have ids: "set ids \<subseteq> {r \<in> set rows. doomed rows r}" using assms(1,2) cand by auto
  have gone: "doomed rows r" if "r \<in> set rows" "\<not> pk r \<notin> pk ` set ids" for r
    using that ids inj_onD [OF inj] by blast
  have st: "doomed left r = doomed rows r" if "r \<in> set left" for r
    using stable [OF assms(1) left _ that] gone by blast
  have "filter (\<lambda>r. \<not> doomed left r) left = filter (\<lambda>r. \<not> doomed rows r) left"
    using st by (intro filter_cong) auto
  also have "\<dots> = filter (\<lambda>r. \<not> doomed rows r) rows"
    unfolding left filter_filter using gone by (intro filter_cong) auto
  finally show "filter (\<lambda>r. \<not> doomed left r) left = filter (\<lambda>r. \<not> doomed rows r) rows" .
  have dl: "distinct (map pk left)" using assms(1) left by (simp add: distinct_map_filter)
  show "candidates left = filter (doomed rows) left"
    unfolding cand [OF dl] using st by (intro filter_cong) auto
  have "length left = length rows - length (filter (\<lambda>r. pk r \<in> pk ` set ids) rows)"
    using sum_length_filter_compl [of "\<lambda>r. pk r \<in> pk ` set ids" rows] unfolding left by simp
  moreover have "length (filter (\<lambda>r. pk r \<in> pk ` set ids) rows) = card (pk ` set ids)"
  proof -
    have "distinct (map pk (filter (\<lambda>r. pk r \<in> pk ` set ids) rows))"
      using assms(1) by (rule distinct_map_filter)
    then have "length (filter (\<lambda>r. pk r \<in> pk ` set ids) rows)
        = card (set (map pk (filter (\<lambda>r. pk r \<in> pk ` set ids) rows)))"
      using distinct_card by (metis length_map)
    also have "set (map pk (filter (\<lambda>r. pk r \<in> pk ` set ids) rows)) = pk ` set ids"
      using ids by auto
    finally show ?thesis .
  qed
  ultimately show "length left = length rows - card (pk ` set ids)" by simp
qed

text \<open>Whatever rows the batches take, the loop ends and deletes the doomed rows, no others.\<close>

lemma loop_deletes_doomed:
  assumes "limit_ok limit" and "distinct (map pk rows)"
  shows "delete_loop limit pk candidates dels rows =
    Some (dels + length (filter (doomed rows) rows), filter (\<lambda>r. \<not> doomed rows r) rows)"
  using assms(2)
proof (induction "length rows" arbitrary: rows dels rule: less_induct)
  case less
  let ?cs = "candidates rows" and ?ids = "limit DELETE_BATCH_SIZE (candidates rows)"
  let ?left = "filter (\<lambda>r. pk r \<notin> pk ` set ?ids) rows"
  have cs: "?cs = filter (doomed rows) rows" using cand less.prems by blast
  have lim: "set ?ids \<subseteq> set ?cs" "length ?ids = min DELETE_BATCH_SIZE (length ?cs)" "distinct ?cs \<longrightarrow> distinct ?ids"
    using assms(1) by (auto simp: limit_ok_def)
  have inj: "inj_on pk (set rows)" and dr: "distinct rows" using less.prems by (simp_all add: distinct_map)
  have di: "distinct ?ids" using lim(3) cs dr by simp
  have sub: "set ?ids \<subseteq> set rows" using lim(1) cs by auto
  have card: "card (pk ` set ?ids) = length ?ids"
    using card_image [OF inj_on_subset [OF inj sub]] distinct_card [OF di] by simp
  have le: "length ?ids \<le> length rows"
    using lim(2) cs length_filter_le [of "doomed rows" rows] by (simp add: min.coboundedI2)
  note bl = batch_left [OF less.prems lim(1) refl]
  have ll: "length ?left = length rows - length ?ids" using bl(3) card by simp
  show ?case
  proof (cases "?ids = []")
    case True
    then have none: "filter (doomed rows) rows = []"
      using lim(2) cs by (simp add: DELETE_BATCH_SIZE_def min_def split: if_splits)
    then have "filter (\<lambda>r. \<not> doomed rows r) rows = rows" by (simp add: filter_empty_conv)
    then show ?thesis using True none by (subst delete_loop.simps) simp
  next
    case ne: False
    have left': "filter (\<lambda>r. pk r \<notin> set (map pk ?ids)) rows = ?left" by simp
    have deleted: "length rows - length ?left = length ?ids" using ll le by simp
    have hit: "doomed rows x" if mem: "x \<in> set rows" and key: "pk x \<in> pk ` set ?ids" for x
    proof -
      obtain y where y: "y \<in> set ?ids" "pk x = pk y" using key by blast
      then have "y \<in> set rows" using sub by blast
      then have "x = y" using inj_onD [OF inj y(2) mem] by blast
      then show ?thesis using y(1) lim(1) cs by auto
    qed
    have count: "length (filter (doomed rows) rows) = length ?ids + length (filter (doomed rows) ?left)"
    proof -
      have "length (filter (doomed rows) rows) + length (filter (\<lambda>r. \<not> doomed rows r) rows) = length rows"
        by (rule sum_length_filter_compl)
      moreover have "length (filter (doomed rows) ?left) + length (filter (\<lambda>r. \<not> doomed rows r) ?left) = length ?left"
        by (rule sum_length_filter_compl)
      moreover have "filter (\<lambda>r. \<not> doomed rows r) ?left = filter (\<lambda>r. \<not> doomed rows r) rows"
        unfolding filter_filter using hit by (intro filter_cong) auto
      ultimately show ?thesis using ll le by simp
    qed
    have dl: "distinct (map pk ?left)" using less.prems by (rule distinct_map_filter)
    show ?thesis
    proof (cases "length ?ids < DELETE_BATCH_SIZE")
      case True
      then have "length ?ids = length ?cs" using lim(2) by (simp add: min_def split: if_splits)
      then have "set ?ids = set ?cs"
        using lim(1) di dr cs card_subset_eq [of "set ?cs" "set ?ids"] distinct_card [of ?ids] distinct_card [of ?cs]
        by simp
      then have none: "filter (doomed rows) ?left = []"
        using cs by (auto simp: filter_empty_conv)
      have "filter (\<lambda>r. \<not> doomed rows r) rows = ?left"
      proof (rule filter_cong [OF refl])
        fix x
        assume x: "x \<in> set rows"
        have "x \<in> set ?cs" if "doomed rows x"
          unfolding cs using x that by simp
        then have "pk x \<in> pk ` set ?ids" if "doomed rows x"
          using that \<open>set ?ids = set ?cs\<close> by blast
        then show "(\<not> doomed rows x) = (pk x \<notin> pk ` set ?ids)" using hit [OF x] by blast
      qed
      then show ?thesis
        using True ne none count deleted by (subst delete_loop.simps) (simp add: Let_def)
    next
      case False
      have lt: "length ?left < length rows" using ll ne le by (cases ?ids) auto
      have step: "delete_loop limit pk candidates dels rows
          = delete_loop limit pk candidates (dels + length ?ids) ?left"
        using False ne deleted by (subst delete_loop.simps) (simp add: Let_def)
      have same: "filter (doomed ?left) ?left = filter (doomed rows) ?left"
        using bl(2) cand [OF dl] by simp
      show ?thesis
        unfolding step less.hyps [OF lt dl] same bl(1) using count by simp
    qed
  qed
qed

end

section \<open>The two queries meet the contract\<close>

lemma take_filter_kept:
  "(\<And>x. x \<in> set (take n xs) \<Longrightarrow> P x) \<Longrightarrow> take n (filter P xs) = take n xs"
proof (induction xs arbitrary: n)
  case (Cons x xs)
  then show ?case by (cases n) auto
qed simp

definition hybrid_doomed ::
  "('r \<Rightarrow> 'k::linorder) \<Rightarrow> ('r \<Rightarrow> string option) \<Rightarrow> ('r \<Rightarrow> bool) \<Rightarrow> string \<Rightarrow> nat \<Rightarrow> 'r list \<Rightarrow> 'r \<Rightarrow> bool" where
  "hybrid_doomed pk age eligible cutoff n rows r \<longleftrightarrow>
     eligible r \<and> older age cutoff r \<and> pk r \<notin> keepers pk age eligible n rows"

lemma keepers_stable:
  assumes "left = filter P rows"
    and "\<And>r. r \<in> set rows \<Longrightarrow> \<not> P r \<Longrightarrow> hybrid_doomed pk age eligible cutoff n rows r"
  shows "keepers pk age eligible n left = keepers pk age eligible n rows"
proof -
  let ?s = "sort_key (\<lambda>r. (age r, pk r)) (filter eligible rows)"
  have "sort_key (\<lambda>r. (age r, pk r)) (filter eligible left) = filter P ?s"
    unfolding assms(1) filter_sort by (simp add: filter_filter conj_commute)
  then have "take n (rev (sort_key (\<lambda>r. (age r, pk r)) (filter eligible left)))
      = take n (filter P (rev ?s))" by (simp add: rev_filter)
  also have "\<dots> = take n (rev ?s)"
  proof (rule take_filter_kept)
    fix x
    assume x: "x \<in> set (take n (rev ?s))"
    then have "x \<in> set rows" by (auto dest: in_set_takeD)
    moreover have "pk x \<in> keepers pk age eligible n rows" using x by (auto simp: keepers_def)
    ultimately show "P x" using assms(2) [of x] by (auto simp: hybrid_doomed_def)
  qed
  finally show ?thesis by (simp add: keepers_def)
qed

interpretation hybrid: purge_query pk "hybrid_candidates pk age eligible cutoff n"
  "hybrid_doomed pk age eligible cutoff n"
  for pk :: "'r \<Rightarrow> 'k::linorder" and age :: "'r \<Rightarrow> string option" and eligible :: "'r \<Rightarrow> bool"
    and cutoff :: string and n :: nat
proof
  fix rows :: "'r list"
  show "hybrid_candidates pk age eligible cutoff n rows
      = filter (hybrid_doomed pk age eligible cutoff n rows) rows"
    by (simp add: hybrid_candidates_def hybrid_doomed_def [abs_def])
next
  fix rows left :: "'r list" and P r
  assume "left = filter P rows"
    and "\<And>r. r \<in> set rows \<Longrightarrow> \<not> P r \<Longrightarrow> hybrid_doomed pk age eligible cutoff n rows r"
  then have "keepers pk age eligible n left = keepers pk age eligible n rows"
    by (rule keepers_stable)
  then show "hybrid_doomed pk age eligible cutoff n left r = hybrid_doomed pk age eligible cutoff n rows r"
    by (simp add: hybrid_doomed_def)
qed

definition age_doomed :: "('r \<Rightarrow> string option) \<Rightarrow> ('r \<Rightarrow> bool) \<Rightarrow> string \<Rightarrow> 'r list \<Rightarrow> 'r \<Rightarrow> bool" where
  "age_doomed age eligible cutoff rows r \<longleftrightarrow> eligible r \<and> older age cutoff r"

interpretation aged: purge_query pk "age_candidates age eligible cutoff" "age_doomed age eligible cutoff"
  for pk :: "'r \<Rightarrow> 'k" and age :: "'r \<Rightarrow> string option" and eligible :: "'r \<Rightarrow> bool" and cutoff :: string
  by unfold_locales (simp_all add: age_candidates_def age_doomed_def [abs_def])

lemma hybrid_delete_result:
  assumes "limit_ok limit" and "distinct (map pk rows)"
  shows "batched_hybrid_delete limit pk age eligible cutoff n rows =
    Some (length (filter (hybrid_doomed pk age eligible cutoff n rows) rows),
          filter (\<lambda>r. \<not> hybrid_doomed pk age eligible cutoff n rows r) rows)"
  unfolding batched_hybrid_delete_def using hybrid.loop_deletes_doomed [OF assms, of age eligible cutoff n 0]
  by simp

lemma age_delete_result:
  assumes "limit_ok limit" and "distinct (map pk rows)"
  shows "batched_age_only_delete limit pk age eligible cutoff rows =
    Some (length (filter (age_doomed age eligible cutoff rows) rows),
          filter (\<lambda>r. \<not> age_doomed age eligible cutoff rows r) rows)"
  unfolding batched_age_only_delete_def using aged.loop_deletes_doomed [OF assms, of age eligible cutoff 0]
  by simp

lemma limit_ok_take: "limit_ok take"
  by (auto simp: limit_ok_def dest: in_set_takeD)

section \<open>Properties\<close>

text \<open>C6: A hybrid purge ends, whatever rows its batches happen to take, and deletes exactly the eligible rows
  that are older than the cutoff and not among the newest N eligible ones; so ineligible rows and recent
  rows all stay, and at least N eligible rows stay when there are that many.\<close>

theorem hybrid_delete_exact:
  assumes "limit_ok limit" and "distinct (map pk rows)"
  shows "\<exists>kept. batched_hybrid_delete limit pk age eligible cutoff n rows = Some (length rows - length kept, kept)
    \<and> kept = filter (\<lambda>r. \<not> (eligible r \<and> older age cutoff r \<and> pk r \<notin> keepers pk age eligible n rows)) rows
    \<and> min n (length (filter eligible rows)) \<le> length (filter eligible kept)"
proof -
  let ?d = "hybrid_doomed pk age eligible cutoff n rows"
  let ?kept = "filter (\<lambda>r. \<not> ?d r) rows"
  let ?top = "take n (rev (sort_key (\<lambda>r. (age r, pk r)) (filter eligible rows)))"
  have dr: "distinct rows" using assms(2) by (simp add: distinct_map)
  have sub: "set ?top \<subseteq> set (filter eligible ?kept)"
  proof
    fix x
    assume x: "x \<in> set ?top"
    then have "x \<in> set (filter eligible rows)" by (auto dest: in_set_takeD)
    moreover have "pk x \<in> keepers pk age eligible n rows" using x by (auto simp: keepers_def)
    ultimately show "x \<in> set (filter eligible ?kept)" by (auto simp: hybrid_doomed_def)
  qed
  have "distinct ?top" using dr by simp
  then have "length ?top = card (set ?top)" by (simp only: distinct_card)
  also have "\<dots> \<le> card (set (filter eligible ?kept))" using sub by (intro card_mono) simp_all
  also have "\<dots> \<le> length (filter eligible ?kept)" by (rule card_length)
  finally have "min n (length (filter eligible rows)) \<le> length (filter eligible ?kept)"
    by (simp add: min.commute)
  moreover have "length (filter ?d rows) = length rows - length ?kept"
    using sum_length_filter_compl [of ?d rows] by simp
  ultimately show ?thesis
    using hybrid_delete_result [OF assms, of age eligible cutoff n]
    by (simp add: hybrid_doomed_def [abs_def])
qed

theorem hybrid_delete_exact_witness:
  "\<exists>kept. batched_hybrid_delete take id (\<lambda>n. Some (nat_digits n)) (\<lambda>n. n \<noteq> 3) ''5'' 2 [1, 2, 3, 4 :: nat]
       = Some (4 - length kept, kept)
     \<and> 2 \<le> length (filter (\<lambda>n. n \<noteq> 3) kept)"
  using hybrid_delete_exact [OF limit_ok_take, of id "[1, 2, 3, 4 :: nat]" "\<lambda>n. Some (nat_digits n)"
      "\<lambda>n. n \<noteq> 3" "''5''" 2]
  by fastforce

text \<open>The journal purge only forgets settled history: it ends, deletes exactly the rows older than a year
  that are post-processed, or failed or under review with an operator's resolution, and so keeps every
  open row, every unresolved one and every cancelled one.\<close>

theorem journal_purge_keeps_open_work:
  assumes "limit_ok limit" and "distinct (map fst rows)"
  shows "purge_pipeline_journal limit when rows =
      Some (length (filter (\<lambda>(k, r). journal_purgeable r \<and> jr_updated r < journal_cutoff when 365) rows),
            filter (\<lambda>(k, r). \<not> (journal_purgeable r \<and> jr_updated r < journal_cutoff when 365)) rows)
    \<and> (\<forall>(k, r) \<in> set rows.
         jr_stage r \<in> set OPEN_STAGES \<or> jr_stage r = Cancelled
           \<or> (jr_stage r \<noteq> Post_processed \<and> \<not> is_resolved (jr_status r))
         \<longrightarrow> (k, r) \<in> set (snd (the (purge_pipeline_journal limit when rows))))"
proof -
  have eq: "(\<lambda>(k, r). journal_purgeable r \<and> jr_updated r < journal_cutoff when 365)
      = age_doomed (\<lambda>(k, r). Some (jr_updated r)) (\<lambda>(k, r). journal_purgeable r) (journal_cutoff when 365) rows"
    for rows :: "(string \<times> jrow) list"
    by (auto simp: age_doomed_def older_def)
  have neq: "(\<lambda>(k, r). \<not> (journal_purgeable r \<and> jr_updated r < journal_cutoff when 365))
      = (\<lambda>x. \<not> age_doomed (\<lambda>(k, r). Some (jr_updated r)) (\<lambda>(k, r). journal_purgeable r) (journal_cutoff when 365) rows x)"
    for rows :: "(string \<times> jrow) list"
    by (auto simp: age_doomed_def older_def)
  have res: "purge_pipeline_journal limit when rows =
      Some (length (filter (\<lambda>(k, r). journal_purgeable r \<and> jr_updated r < journal_cutoff when 365) rows),
            filter (\<lambda>(k, r). \<not> (journal_purgeable r \<and> jr_updated r < journal_cutoff when 365)) rows)"
    unfolding purge_pipeline_journal_def age_delete_result [OF assms] eq [of rows] neq [of rows] ..
  moreover have "\<not> journal_purgeable r"
    if "jr_stage r \<in> set OPEN_STAGES \<or> jr_stage r = Cancelled
        \<or> (jr_stage r \<noteq> Post_processed \<and> \<not> is_resolved (jr_status r))" for r
    using that by (auto simp: journal_purgeable_def OPEN_STAGES_def)
  ultimately show ?thesis by auto
qed

theorem journal_purge_keeps_open_work_witness:
  "(''42|nzbgeek'', blank_row Cancelled ''2020-01-01 00:00:00'' PNull)
   \<in> set (snd (the (purge_pipeline_journal take \<lparr>u_day = 739000, u_second = 0, u_micro = 0\<rparr>
        [(''42|nzbgeek'', blank_row Cancelled ''2020-01-01 00:00:00'' PNull)])))"
proof -
  let ?rows = "[(''42|nzbgeek'', blank_row Cancelled ''2020-01-01 00:00:00'' PNull)]"
  have "distinct (map fst ?rows)" by simp
  note kept = conjunct2 [OF journal_purge_keeps_open_work [OF limit_ok_take this,
      of "\<lparr>u_day = 739000, u_second = 0, u_micro = 0\<rparr>"]]
  show ?thesis using bspec [OF kept, of "hd ?rows"] by simp
qed

lemma purge_items_result:
  assumes "limit_ok limit" and "distinct (map ri_id rows)"
  shows "\<exists>n P. purge_acquisition_run_items limit when rows = Some (n, filter P rows)
    \<and> (\<forall>i \<in> set rows. is_open_item i \<longrightarrow> P i)"
proof (intro exI conjI ballI impI)
  show "purge_acquisition_run_items limit when rows = Some (length (filter (hybrid_doomed ri_id
        (\<lambda>i. coalesce (ri_completed i) (ri_updated i)) (\<lambda>i. \<not> is_open_item i) (iso_cutoff when 90) 50000 rows) rows),
      filter (\<lambda>i. \<not> hybrid_doomed ri_id (\<lambda>i. coalesce (ri_completed i) (ri_updated i))
        (\<lambda>i. \<not> is_open_item i) (iso_cutoff when 90) 50000 rows i) rows)"
    unfolding purge_acquisition_run_items_def by (rule hybrid_delete_result [OF assms])
qed (simp add: hybrid_doomed_def)

lemma purge_runs_result:
  assumes "limit_ok limit" and "distinct (map fst rows)"
  shows "\<exists>n P. purge_acquisition_runs limit when items rows = Some (n, filter P rows)
    \<and> (\<forall>i \<in> set items. \<forall>r. P (ri_run i, r))"
proof (intro exI conjI ballI allI)
  let ?e = "\<lambda>(rid, r). rr_completed_at r \<noteq> None \<and> \<not> (\<exists>i \<in> set items. ri_run i = rid)"
  let ?d = "hybrid_doomed fst (\<lambda>(rid, r). coalesce (rr_completed_at r) (rr_updated r)) ?e (iso_cutoff when 90) 2000 rows"
  show "purge_acquisition_runs limit when items rows
      = Some (length (filter ?d rows), filter (\<lambda>x. \<not> ?d x) rows)"
    unfolding purge_acquisition_runs_def by (rule hybrid_delete_result [OF assms])
  show "\<not> ?d (ri_run i, r)" if "i \<in> set items" for i r
    using that by (auto simp: hybrid_doomed_def)
qed

lemma purge_rest_result:
  shows "limit_ok a \<Longrightarrow> dict_ok x \<Longrightarrow> \<exists>n y. purge_pipeline_journal a when x = Some (n, y)"
    and "limit_ok b \<Longrightarrow> distinct (map me_id u) \<Longrightarrow> \<exists>n y. purge_maintenance_events b when u = Some (n, y)"
    and "limit_ok c \<Longrightarrow> distinct (map ai_id v) \<Longrightarrow> \<exists>n y. purge_ai_activity_log c when v = Some (n, y)"
  by (auto simp: purge_pipeline_journal_def purge_maintenance_events_def purge_ai_activity_log_def
      dict_ok_def age_delete_result hybrid_delete_result)

text \<open>A complete sweep leaves no item without its run and no open item behind: on a well-formed ledger it
  ends, every item that is still accepted or running survives it, and every surviving item's run
  survives it unchanged, because runs are purged after the items and only when no item is left.\<close>

theorem sweep_keeps_runs_of_items:
  assumes "ledger_wf (st_ledger s)" and "dict_ok (js_rows (st_journal s))"
    and "distinct (map me_id (st_events s))" and "distinct (map ai_id (st_ai s))"
    and "limit_ok (lm_items lm)" and "limit_ok (lm_runs lm)" and "limit_ok (lm_journal lm)"
    and "limit_ok (lm_events lm)" and "limit_ok (lm_ai lm)"
  shows "\<exists>summary t. run_ledger_retention lm when [] s = Some (Some summary, t)
    \<and> (\<forall>i \<in> set (rl_items (st_ledger s)). is_open_item i \<longrightarrow> i \<in> set (rl_items (st_ledger t)))
    \<and> (\<forall>i \<in> set (rl_items (st_ledger t)). get_run (st_ledger t) (ri_run i) = get_run (st_ledger s) (ri_run i)
         \<and> get_run (st_ledger t) (ri_run i) \<noteq> None)"
proof -
  let ?led = "st_ledger s"
  have wf: "distinct (map ri_id (rl_items ?led))" "distinct (map fst (rl_runs ?led))"
    and runs: "\<And>i. i \<in> set (rl_items ?led) \<Longrightarrow> \<exists>r. get_run ?led (ri_run i) = Some r"
    using assms(1) by (auto simp: ledger_wf_def base_wf_def dict_ok_def)
  obtain n P where pi: "purge_acquisition_run_items (lm_items lm) when (rl_items ?led) = Some (n, filter P (rl_items ?led))"
    and P: "\<forall>i \<in> set (rl_items ?led). is_open_item i \<longrightarrow> P i"
    using purge_items_result [OF assms(5) wf(1)] by blast
  let ?items = "filter P (rl_items ?led)"
  obtain m Q where pr: "purge_acquisition_runs (lm_runs lm) when ?items (rl_runs ?led) = Some (m, filter Q (rl_runs ?led))"
    and Q: "\<forall>i \<in> set ?items. \<forall>r. Q (ri_run i, r)"
    using purge_runs_result [OF assms(6) wf(2)] by blast
  obtain j jr where pj: "purge_pipeline_journal (lm_journal lm) when (js_rows (st_journal s)) = Some (j, jr)"
    using purge_rest_result(1) assms(2,7) by blast
  obtain e er where pe: "purge_maintenance_events (lm_events lm) when (st_events s) = Some (e, er)"
    using purge_rest_result(2) assms(3,8) by blast
  obtain a ar where pa: "purge_ai_activity_log (lm_ai lm) when (st_ai s) = Some (a, ar)"
    using purge_rest_result(3) assms(4,9) by blast
  let ?t = "s\<lparr>st_ledger := ?led\<lparr>rl_items := ?items, rl_runs := filter Q (rl_runs ?led)\<rparr>,
             st_journal := (st_journal s)\<lparr>js_rows := jr\<rparr>, st_events := er, st_ai := ar\<rparr>"
  have "run_ledger_retention lm when [] s
      = Some (Some [(PItems, n), (PRuns, m), (PJournal, j), (PEvents, e), (PAi, a)], ?t)"
    by (simp add: run_ledger_retention_def PURGE_ORDER_def purge_one_def pi pr pj pe pa)
  moreover have "get_run (st_ledger ?t) (ri_run i) = get_run ?led (ri_run i) \<and> get_run ?led (ri_run i) \<noteq> None"
    if mem: "i \<in> set ?items" for i
  proof -
    obtain r where r: "get_run ?led (ri_run i) = Some r" using runs mem by auto
    then have "(ri_run i, r) \<in> set (filter Q (rl_runs ?led))"
      using Q mem by (auto simp: get_run_def dict_get_def dest: map_of_SomeD)
    then have "map_of (filter Q (rl_runs ?led)) (ri_run i) = Some r"
      using wf(2) by (intro map_of_is_SomeI) (simp_all add: distinct_map_filter)
    then show ?thesis using r by (simp add: get_run_def dict_get_def)
  qed
  ultimately show ?thesis using P by fastforce
qed

theorem sweep_keeps_runs_of_items_witness:
  "\<exists>summary t. run_ledger_retention
      \<lparr>lm_items = take, lm_runs = take, lm_journal = take, lm_events = take, lm_ai = take\<rparr>
      \<lparr>u_day = 739000, u_second = 0, u_micro = 0\<rparr> []
      \<lparr>st_ledger = lrun id [LCreate ''r1'' ''search'' ''manual'' None None ''2020'',
           LAccept ''r1'' ''issue'' ''42'' VNone None ''routine'' ''2020''] empty_ledger,
       st_journal = empty_journal, st_events = [], st_ai = []\<rparr> = Some (Some summary, t)
    \<and> (\<forall>i \<in> set (rl_items (st_ledger t)). get_run (st_ledger t) (ri_run i) \<noteq> None)"
proof -
  let ?l = "lrun id [LCreate ''r1'' ''search'' ''manual'' None None ''2020'',
           LAccept ''r1'' ''issue'' ''42'' VNone None ''routine'' ''2020''] empty_ledger"
  have "ledger_wf ?l"
    using lrun_step [OF empty_ledger_wf, of _ "\<lambda>_. True"] by (simp add: good_step_def)
  then have "\<exists>summary t. run_ledger_retention
      \<lparr>lm_items = take, lm_runs = take, lm_journal = take, lm_events = take, lm_ai = take\<rparr>
      \<lparr>u_day = 739000, u_second = 0, u_micro = 0\<rparr> []
      \<lparr>st_ledger = ?l, st_journal = empty_journal, st_events = [], st_ai = []\<rparr> = Some (Some summary, t)
    \<and> (\<forall>i \<in> set (rl_items (st_ledger
          \<lparr>st_ledger = ?l, st_journal = empty_journal, st_events = [], st_ai = []\<rparr>)).
          is_open_item i \<longrightarrow> i \<in> set (rl_items (st_ledger t)))
    \<and> (\<forall>i \<in> set (rl_items (st_ledger t)). get_run (st_ledger t) (ri_run i) = get_run (st_ledger
          \<lparr>st_ledger = ?l, st_journal = empty_journal, st_events = [], st_ai = []\<rparr>) (ri_run i)
         \<and> get_run (st_ledger t) (ri_run i) \<noteq> None)"
    by (intro sweep_keeps_runs_of_items) (simp_all add: limit_ok_take empty_journal_def)
  then show ?thesis by blast
qed

end
