(* ===== verification/Maintenance.thy ===== *)
theory Maintenance
  imports RunLedgerInv
begin

text \<open>
  \<open>comicarr/app/acquisition/maintenance.py\<close>, the fence: a persistent, owned maintenance fence with an
  epoch that grows at every acquisition, the leases workers hold across external side effects, the
  canary permits that let one named handoff cross an active fence, and the runtime gate.  \<open>mstate\<close>
  is the control row, the lease and permit tables by primary key, the audit events and the
  reconciliation row.  ISO time stamps are text and compared as text.
\<close>

section \<open>State\<close>

record fence =
  fc_epoch :: nat
  fc_active :: bool
  fc_owner :: "string option"
  fc_run :: "string option"
  fc_reason :: "string option"
  fc_heartbeat :: "string option"
  fc_released :: "string option"

record lease_row =
  lz_epoch :: nat
  lz_owner :: string
  lz_kind :: string
  lz_etype :: "string option"
  lz_eid :: "string option"
  lz_heartbeat :: string
  lz_released :: "string option"

record permit =
  pm_release :: string
  pm_route :: string
  pm_state :: string
  pm_expires :: string
  pm_lease :: "string option"
  pm_outcome :: "string option"

record fence_event =
  fe_epoch :: nat
  fe_action :: string
  fe_actor :: string
  fe_run :: "string option"
  fe_reason :: string

record mstate =
  ms_fence :: fence
  ms_leases :: "lease_row dict"
  ms_permits :: "permit dict"
  ms_events :: "fence_event list"
  ms_reconciliation :: "string option"

text \<open>The value objects: what a fence or a lease looks like to its caller.\<close>

record fence_status =
  fs_active :: bool
  fs_epoch :: nat
  fs_owner :: "string option"
  fs_run :: "string option"
  fs_active_leases :: nat

record lease =
  ls_id :: string
  ls_epoch :: nat
  ls_owner :: string
  ls_kind :: string
  ls_etype :: "string option"
  ls_eid :: "string option"
  ls_permit :: "string option"

datatype merror = MValueError | MConflict | MBlocked | MIntegrityError

definition lease_active :: "lease_row \<Rightarrow> bool" where
  "lease_active l = (lz_released l = None)"

definition active_leases :: "mstate \<Rightarrow> string list" where
  "active_leases s = map fst (filter (\<lambda>(k, l). lease_active l) (ms_leases s))"

definition fence_status_of :: "mstate \<Rightarrow> fence_status" where
  "fence_status_of s =
     \<lparr>fs_active = fc_active (ms_fence s), fs_epoch = fc_epoch (ms_fence s), fs_owner = fc_owner (ms_fence s),
      fs_run = fc_run (ms_fence s), fs_active_leases = length (active_leases s)\<rparr>"

definition log_event :: "fence_event \<Rightarrow> mstate \<Rightarrow> mstate" where
  "log_event e s = s\<lparr>ms_events := ms_events s @ [e]\<rparr>"

section \<open>The fence\<close>

definition acquire_fence ::
  "mstate \<Rightarrow> string \<Rightarrow> string \<Rightarrow> string \<Rightarrow> string \<Rightarrow> merror + mstate" where
  "acquire_fence s owner run reason now =
     (if owner = [] \<or> run = [] \<or> reason = [] then Inl MValueError
      else let f = ms_fence s in
        if fc_active f
        then (if fc_owner f = Some owner \<and> fc_run f = Some run then Inr s else Inl MConflict)
        else Inr (log_event \<lparr>fe_epoch = fc_epoch f + 1, fe_action = ''acquire'', fe_actor = owner,
                    fe_run = Some run, fe_reason = take 1000 reason\<rparr>
               (s\<lparr>ms_fence := \<lparr>fc_epoch = fc_epoch f + 1, fc_active = True, fc_owner = Some owner,
                    fc_run = Some run, fc_reason = Some (take 1000 reason), fc_heartbeat = Some now,
                    fc_released = None\<rparr>\<rparr>)))"

definition owns_fence :: "fence \<Rightarrow> string \<Rightarrow> string \<Rightarrow> nat \<Rightarrow> bool" where
  "owns_fence f owner run epoch \<longleftrightarrow>
     fc_active f \<and> fc_owner f = Some owner \<and> fc_run f = Some run \<and> fc_epoch f = epoch"

definition heartbeat_fence ::
  "mstate \<Rightarrow> string \<Rightarrow> string \<Rightarrow> nat \<Rightarrow> string \<Rightarrow> merror + mstate" where
  "heartbeat_fence s owner run epoch now =
     (if owns_fence (ms_fence s) owner run epoch
      then Inr (s\<lparr>ms_fence := (ms_fence s)\<lparr>fc_heartbeat := Some now\<rparr>\<rparr>) else Inl MConflict)"

definition lowered :: "string \<Rightarrow> fence \<Rightarrow> fence" where
  "lowered now f = f\<lparr>fc_active := False, fc_owner := None, fc_run := None, fc_reason := None,
                     fc_heartbeat := Some now, fc_released := Some now\<rparr>"

definition release_fence ::
  "mstate \<Rightarrow> string \<Rightarrow> string \<Rightarrow> nat \<Rightarrow> string \<Rightarrow> merror + mstate" where
  "release_fence s owner run epoch now =
     (if \<not> owns_fence (ms_fence s) owner run epoch then Inl MConflict
      else if active_leases s \<noteq> [] then Inl MConflict
      else Inr (log_event \<lparr>fe_epoch = epoch, fe_action = ''release'', fe_actor = owner, fe_run = Some run,
                  fe_reason = ''completed''\<rparr> (s\<lparr>ms_fence := lowered now (ms_fence s)\<rparr>)))"

text \<open>The forced part of an abort: every active lease ends, a claimed permit of one of them goes to
  review.\<close>

definition end_leases :: "string \<Rightarrow> mstate \<Rightarrow> mstate" where
  "end_leases now s =
     s\<lparr>ms_leases := map (\<lambda>(k, l). (k, if lease_active l
                       then l\<lparr>lz_heartbeat := now, lz_released := Some now\<rparr> else l)) (ms_leases s),
       ms_permits := map (\<lambda>(k, p). (k, if pm_state p = ''claimed''
                            \<and> (case pm_lease p of None \<Rightarrow> False | Some i \<Rightarrow> i \<in> set (active_leases s))
                       then p\<lparr>pm_state := ''manual_review'', pm_outcome := Some ''abandoned_after_restart''\<rparr>
                       else p)) (ms_permits s)\<rparr>"

definition abort_fence ::
  "mstate \<Rightarrow> string \<Rightarrow> string \<Rightarrow> bool \<Rightarrow> string \<Rightarrow> merror + mstate" where
  "abort_fence s actor reason force_stale now =
     (if actor = [] \<or> reason = [] then Inl MValueError
      else let f = ms_fence s; stale = active_leases s in
        if \<not> fc_active f then Inl MConflict
        else if stale \<noteq> [] \<and> \<not> force_stale then Inl MConflict
        else let t = (if stale \<noteq> [] then end_leases now s else s) in
          Inr (log_event \<lparr>fe_epoch = fc_epoch f, fe_action = ''abort'', fe_actor = actor, fe_run = fc_run f,
                 fe_reason = take 1000 ((if stale \<noteq> [] then ''forced stale-lease cleanup: '' else []) @ reason)\<rparr>
            (t\<lparr>ms_fence := lowered now f\<rparr>)))"

section \<open>Leases\<close>

definition reconciliation_state :: "mstate \<Rightarrow> string" where
  "reconciliation_state s = (case ms_reconciliation s of None \<Rightarrow> ''unavailable'' | Some st \<Rightarrow> st)"

definition set_reconciliation_state :: "mstate \<Rightarrow> string option \<Rightarrow> merror + mstate" where
  "set_reconciliation_state s st =
     (let n = py_lower (py_strip (case st of None \<Rightarrow> [] | Some x \<Rightarrow> x)) in
      if n \<notin> {''ready'', ''migrating'', ''pending_preview'', ''failed''} then Inl MValueError
      else Inr (s\<lparr>ms_reconciliation := Some n\<rparr>))"

definition put_lease :: "string \<Rightarrow> lease_row \<Rightarrow> mstate \<Rightarrow> mstate" where
  "put_lease i l s = s\<lparr>ms_leases := dict_set i l (ms_leases s)\<rparr>"

definition get_lease :: "mstate \<Rightarrow> string \<Rightarrow> lease_row option" where
  "get_lease s i = dict_get (ms_leases s) i"

text \<open>
  \<open>acquire_lease\<close>; \<open>operator\<close> is \<open>_operator_requested\<close>, \<open>i\<close> the given or fresh lease id.  The gated
  INSERT adds no row while a fence is active, and hits the primary key when the id exists; what
  counts then is the row found under that id.
\<close>

definition acquire_lease ::
  "bool \<Rightarrow> mstate \<Rightarrow> string \<Rightarrow> string \<Rightarrow> string option \<Rightarrow> string option \<Rightarrow> string \<Rightarrow> string
   \<Rightarrow> merror + lease \<times> mstate" where
  "acquire_lease operator s owner kind etype eid i now =
     (if owner = [] \<or> kind = [] then Inl MValueError
      else if operator then Inl MBlocked
      else if reconciliation_state s \<noteq> ''ready'' then Inl MBlocked
      else if fc_active (ms_fence s) then Inl MBlocked
      else let row = \<lparr>lz_epoch = fc_epoch (ms_fence s), lz_owner = owner, lz_kind = kind, lz_etype = etype,
                      lz_eid = eid, lz_heartbeat = now, lz_released = None\<rparr>;
               (found, t) = (case get_lease s i of None \<Rightarrow> (row, put_lease i row s) | Some l \<Rightarrow> (l, s))
      in if \<not> lease_active found then Inl MBlocked
         else if lz_owner found \<noteq> owner \<or> lz_kind found \<noteq> kind then Inl MConflict
         else Inr (\<lparr>ls_id = i, ls_epoch = lz_epoch found, ls_owner = lz_owner found, ls_kind = lz_kind found,
                    ls_etype = lz_etype found, ls_eid = lz_eid found, ls_permit = None\<rparr>, t))"

definition acquire_canary_handoff_lease ::
  "mstate \<Rightarrow> string \<Rightarrow> string \<Rightarrow> string \<Rightarrow> string \<Rightarrow> string \<Rightarrow> merror + lease \<times> mstate" where
  "acquire_canary_handoff_lease s owner release route i now =
     (let f = ms_fence s in
      if \<not> fc_active f \<or> \<not> present (fc_run f) then Inl MBlocked
      else let pid = the (fc_run f) in
        case dict_get (ms_permits s) pid of
          None \<Rightarrow> Inl MBlocked
        | Some p \<Rightarrow>
            if pm_release p \<noteq> release \<or> pm_route p \<noteq> route \<or> pm_state p \<noteq> ''authorized''
               \<or> \<not> key_le now (pm_expires p)
            then Inl MBlocked
            else if get_lease s i \<noteq> None then Inl MIntegrityError
            else Inr (\<lparr>ls_id = i, ls_epoch = fc_epoch f, ls_owner = owner, ls_kind = ''canary_handoff'',
                       ls_etype = Some ''release'', ls_eid = Some release, ls_permit = Some pid\<rparr>,
                 put_lease i \<lparr>lz_epoch = fc_epoch f, lz_owner = owner, lz_kind = ''canary_handoff'',
                       lz_etype = Some ''release'', lz_eid = Some release, lz_heartbeat = now,
                       lz_released = None\<rparr>
                   (s\<lparr>ms_permits := dict_set pid (p\<lparr>pm_state := ''claimed'', pm_lease := Some i\<rparr>)
                        (ms_permits s)\<rparr>)))"

definition heartbeat_lease :: "mstate \<Rightarrow> string \<Rightarrow> string \<Rightarrow> merror + mstate" where
  "heartbeat_lease s i now =
     (case get_lease s i of
        Some l \<Rightarrow> if lease_active l then Inr (put_lease i (l\<lparr>lz_heartbeat := now\<rparr>) s) else Inl MConflict
      | None \<Rightarrow> Inl MConflict)"

text \<open>The fence-token check right before an external side effect.\<close>

definition assert_lease_current :: "mstate \<Rightarrow> lease \<Rightarrow> string \<Rightarrow> bool" where
  "assert_lease_current s l now \<longleftrightarrow>
     (case get_lease s (ls_id l) of
        None \<Rightarrow> False
      | Some r \<Rightarrow>
          lz_epoch r = ls_epoch l \<and> lease_active r \<and> fc_epoch (ms_fence s) = ls_epoch l
          \<and> (\<not> fc_active (ms_fence s)
             \<or> (case ls_permit l of
                  None \<Rightarrow> False
                | Some pid \<Rightarrow> pid \<noteq> [] \<and> fc_run (ms_fence s) = Some pid
                    \<and> (case dict_get (ms_permits s) pid of
                         None \<Rightarrow> False
                       | Some p \<Rightarrow> pm_lease p = Some (ls_id l) \<and> pm_state p = ''claimed''
                                    \<and> Some (pm_release p) = ls_eid l \<and> key_le now (pm_expires p)))))"

definition complete_canary_handoff :: "mstate \<Rightarrow> lease \<Rightarrow> string option \<Rightarrow> bool \<times> mstate" where
  "complete_canary_handoff s l out =
     (case ls_permit l of
        None \<Rightarrow> (False, s)
      | Some pid \<Rightarrow>
          if pid = [] then (False, s)
          else case dict_get (ms_permits s) pid of
            None \<Rightarrow> (False, s)
          | Some p \<Rightarrow>
              if pm_lease p = Some (ls_id l) \<and> pm_state p = ''claimed''
              then (True, s\<lparr>ms_permits := dict_set pid (p\<lparr>pm_state := ''completed'',
                      pm_outcome := Some (take 64 (if present out then the out else ''unknown''))\<rparr>)
                      (ms_permits s)\<rparr>)
              else (False, s))"

definition release_lease :: "mstate \<Rightarrow> string \<Rightarrow> string \<Rightarrow> bool \<times> mstate" where
  "release_lease s i now =
     (case get_lease s i of
        Some l \<Rightarrow> if lease_active l then (True, put_lease i (l\<lparr>lz_heartbeat := now, lz_released := Some now\<rparr>) s)
                   else (False, s)
      | None \<Rightarrow> (False, s))"

text \<open>\<open>handoff_lease\<close>: an ordinary lease, or the one permit while fenced.\<close>

definition handoff_lease ::
  "bool \<Rightarrow> mstate \<Rightarrow> string \<Rightarrow> string \<Rightarrow> string \<Rightarrow> string \<Rightarrow> string \<Rightarrow> merror + lease \<times> mstate" where
  "handoff_lease operator s owner release route i now =
     (case acquire_lease operator s owner ''external-handoff'' (Some ''release'') (Some release) i now of
        Inl e \<Rightarrow> if e = MBlocked then acquire_canary_handoff_lease s owner release route i now else Inl e
      | Inr x \<Rightarrow> Inr x)"

section \<open>The runtime gate\<close>

record gate_status =
  gs_blocked :: bool
  gs_reason :: "string option"
  gs_schema_ready :: bool
  gs_maintenance_active :: bool
  gs_epoch :: nat
  gs_reconciliation :: "string option"

definition truthy_setting :: "string option \<Rightarrow> bool" where
  "truthy_setting v = (py_lower (py_strip (case v of None \<Rightarrow> [] | Some s \<Rightarrow> s))
                        \<in> {''1'', ''true'', ''yes'', ''on''})"

definition operator_requested :: "string option \<Rightarrow> bool \<Rightarrow> bool" where
  "operator_requested env config = (truthy_setting env \<or> config)"

definition refresh_runtime_state :: "bool \<Rightarrow> bool \<Rightarrow> mstate \<Rightarrow> gate_status" where
  "refresh_runtime_state schema_ready operator s =
     (if \<not> schema_ready
      then \<lparr>gs_blocked = True, gs_reason = Some ''schema_unavailable'', gs_schema_ready = False,
            gs_maintenance_active = False, gs_epoch = 0, gs_reconciliation = None\<rparr>
      else let st = reconciliation_state s; f = ms_fence s;
               (blocked, reason) =
                 (if st \<noteq> ''ready''
                  then (True, Some (if st = ''migrating'' then ''migration_in_progress''
                                    else ''migration_reconciliation_'' @ st))
                  else if operator then (True, Some ''operator_maintenance'')
                  else (fc_active f, if fc_active f then Some ''persistent_maintenance'' else None))
           in \<lparr>gs_blocked = blocked, gs_reason = reason, gs_schema_ready = True,
               gs_maintenance_active = fc_active f, gs_epoch = fc_epoch f, gs_reconciliation = Some st\<rparr>)"

text \<open>Backoff of a fenced command that is requeued, in seconds; \<open>None\<close> is a count that is no number.\<close>

definition maintenance_retry_delay :: "int option \<Rightarrow> int" where
  "maintenance_retry_delay attempts =
     (let a = (case attempts of None \<Rightarrow> 1 | Some n \<Rightarrow> max 1 n) in min 60 (5 * 2 ^ nat (min (a - 1) 4)))"

section \<open>The one-time residue sweep\<close>

text \<open>\<open>_cancel_prebound_residue\<close> of schema version 7, on the run ledger's items.\<close>

definition cancel_prebound_residue :: "string \<Rightarrow> rledger \<Rightarrow> rledger" where
  "cancel_prebound_residue now s =
     s\<lparr>rl_items := map (\<lambda>i. if is_open_item i
         then i\<lparr>ri_state := ICancelled, ri_reason := Some ''stale_before_recovery_bound'',
                ri_next_attempt := None, ri_updated := now, ri_completed := Some now\<rparr>
         else i) (rl_items s)\<rparr>"

end
