(* ===== verification/MaintenanceProps.thy ===== *)
theory MaintenanceProps
  imports Maintenance RunLedgerProps
begin

text \<open>
  What the maintenance fence promises: one owner at a time, an epoch that only grows, no lease older
  than a fence is ever honoured again, no fence is lowered over running side effects, a canary permit
  is used once, and the runtime gate agrees with the claims it stands for.
\<close>

section \<open>Histories\<close>

datatype mop =
    MAcquire string string string string
  | MHeartbeat string string nat string
  | MRelease string string nat string
  | MAbort string string bool string
  | MLease bool string string "string option" "string option" string string
  | MCanary string string string string string
  | MHandoff bool string string string string string
  | MBeat string string
  | MComplete lease "string option"
  | MDrop string string
  | MReconcile "string option"

definition mkeep :: "mstate \<Rightarrow> merror + mstate \<Rightarrow> mstate" where
  "mkeep s x = (case x of Inl _ \<Rightarrow> s | Inr t \<Rightarrow> t)"

definition mkeep2 :: "mstate \<Rightarrow> merror + lease \<times> mstate \<Rightarrow> mstate" where
  "mkeep2 s x = (case x of Inl _ \<Rightarrow> s | Inr (_, t) \<Rightarrow> t)"

fun mstep :: "mstate \<Rightarrow> mop \<Rightarrow> mstate" where
  "mstep s (MAcquire ow run re now) = mkeep s (acquire_fence s ow run re now)"
| "mstep s (MHeartbeat ow run ep now) = mkeep s (heartbeat_fence s ow run ep now)"
| "mstep s (MRelease ow run ep now) = mkeep s (release_fence s ow run ep now)"
| "mstep s (MAbort ac re force now) = mkeep s (abort_fence s ac re force now)"
| "mstep s (MLease opr ow k et eid i now) = mkeep2 s (acquire_lease opr s ow k et eid i now)"
| "mstep s (MCanary ow rel ro i now) = mkeep2 s (acquire_canary_handoff_lease s ow rel ro i now)"
| "mstep s (MHandoff opr ow rel ro i now) = mkeep2 s (handoff_lease opr s ow rel ro i now)"
| "mstep s (MBeat i now) = mkeep s (heartbeat_lease s i now)"
| "mstep s (MComplete l out) = snd (complete_canary_handoff s l out)"
| "mstep s (MDrop i now) = snd (release_lease s i now)"
| "mstep s (MReconcile st) = mkeep s (set_reconciliation_state s st)"

definition mrun :: "mop list \<Rightarrow> mstate \<Rightarrow> mstate" where
  "mrun ops s = foldl mstep s ops"

section \<open>The invariant\<close>

definition lease_fits :: "fence \<Rightarrow> lease_row \<Rightarrow> bool" where
  "lease_fits f l \<longleftrightarrow> lz_epoch l \<le> fc_epoch f
     \<and> (lease_active l \<longrightarrow>
          (if fc_active f
           then Suc (lz_epoch l) = fc_epoch f \<or> (lz_epoch l = fc_epoch f \<and> lz_kind l = ''canary_handoff'')
           else lz_epoch l = fc_epoch f))"

definition fence_wf :: "mstate \<Rightarrow> bool" where
  "fence_wf s \<longleftrightarrow> (\<forall>i l. get_lease s i = Some l \<longrightarrow> lease_fits (ms_fence s) l)
     \<and> (fc_active (ms_fence s) \<longleftrightarrow> fc_owner (ms_fence s) \<noteq> None)
     \<and> (fc_active (ms_fence s) \<longleftrightarrow> fc_run (ms_fence s) \<noteq> None)"

lemma get_lease_put [simp]: "get_lease (put_lease i l s) j = (if j = i then Some l else get_lease s j)"
  by (simp add: get_lease_def put_lease_def dict_get_set)

lemma put_lease_frame [simp]:
  "ms_fence (put_lease i l s) = ms_fence s" "ms_permits (put_lease i l s) = ms_permits s"
  "ms_reconciliation (put_lease i l s) = ms_reconciliation s"
  by (simp_all add: put_lease_def)

lemma get_lease_frame [simp]:
  "get_lease (s\<lparr>ms_fence := f\<rparr>) = get_lease s" "get_lease (s\<lparr>ms_permits := p\<rparr>) = get_lease s"
  "get_lease (s\<lparr>ms_reconciliation := r\<rparr>) = get_lease s" "get_lease (log_event e s) = get_lease s"
  by (rule ext, simp add: get_lease_def log_event_def)+

lemma log_event_frame [simp]:
  "ms_fence (log_event e s) = ms_fence s" "ms_permits (log_event e s) = ms_permits s"
  "ms_leases (log_event e s) = ms_leases s"
  by (simp_all add: log_event_def)

lemma get_lease_end:
  "get_lease (end_leases now s) i = map_option (\<lambda>l. if lease_active l
     then l\<lparr>lz_heartbeat := now, lz_released := Some now\<rparr> else l) (get_lease s i)"
  by (simp add: get_lease_def end_leases_def dict_get_def map_of_map)

lemma end_leases_frame [simp]: "ms_fence (end_leases now s) = ms_fence s"
  by (simp add: end_leases_def)

lemma get_lease_active: "get_lease s i = Some l \<Longrightarrow> lease_active l \<Longrightarrow> i \<in> set (active_leases s)"
  by (auto simp: get_lease_def dict_get_def active_leases_def dest!: map_of_SomeD intro!: rev_image_eqI)

lemma ended_leases: "get_lease (end_leases now s) i = Some l \<Longrightarrow> \<not> lease_active l"
  by (cases "get_lease s i") (auto simp: get_lease_end lease_active_def)

lemma fence_wf_put:
  "fence_wf s \<Longrightarrow> lease_fits (ms_fence s) l \<Longrightarrow> fence_wf (put_lease i l s)"
  unfolding fence_wf_def put_lease_frame get_lease_put by auto

lemma fence_wf_frame [simp]:
  "fence_wf (s\<lparr>ms_permits := p\<rparr>) = fence_wf s" "fence_wf (s\<lparr>ms_reconciliation := r\<rparr>) = fence_wf s"
  "fence_wf (log_event e s) = fence_wf s"
  by (simp_all add: fence_wf_def)

lemma lease_fits_raise:
  "lease_fits f l \<Longrightarrow> \<not> fc_active f \<Longrightarrow> fc_epoch g = Suc (fc_epoch f) \<Longrightarrow> fc_active g \<Longrightarrow> lease_fits g l"
  by (simp add: lease_fits_def)

lemma acquire_fence_wf: "fence_wf s \<Longrightarrow> acquire_fence s ow run re now = Inr t \<Longrightarrow> fence_wf t"
  by (auto simp: acquire_fence_def Let_def fence_wf_def intro: lease_fits_raise [of "ms_fence s"]
      split: if_splits)

lemma lease_fits_simps [simp]:
  "lease_fits (f\<lparr>fc_heartbeat := x\<rparr>) l = lease_fits f l"
  "lease_fits f (l\<lparr>lz_heartbeat := h\<rparr>) = lease_fits f l"
  by (simp_all add: lease_fits_def lease_active_def)

lemma lease_fits_released: "lease_fits f l \<Longrightarrow> lease_fits f (l\<lparr>lz_heartbeat := h, lz_released := Some r\<rparr>)"
  by (simp add: lease_fits_def lease_active_def)

lemma fence_wf_lease: "fence_wf s \<Longrightarrow> get_lease s i = Some l \<Longrightarrow> lease_fits (ms_fence s) l"
  by (simp add: fence_wf_def)

lemma heartbeat_fence_wf [simp]:
  "fence_wf (s\<lparr>ms_fence := (ms_fence s)\<lparr>fc_heartbeat := x\<rparr>\<rparr>) = fence_wf s"
  by (simp add: fence_wf_def)

lemma lowered_wf:
  assumes "fence_wf s" and "\<And>i l. get_lease t i = Some l \<Longrightarrow> \<not> lease_active l \<and> lz_epoch l \<le> fc_epoch (ms_fence s)"
  shows "fence_wf (t\<lparr>ms_fence := lowered now (ms_fence s)\<rparr>)"
  using assms by (auto simp: fence_wf_def lease_fits_def lowered_def)

lemma release_fence_wf:
  assumes "fence_wf s" and "release_fence s ow run ep now = Inr t"
  shows "fence_wf t"
proof -
  have "active_leases s = []" and t: "t = log_event \<lparr>fe_epoch = ep, fe_action = ''release'', fe_actor = ow,
      fe_run = Some run, fe_reason = ''completed''\<rparr> (s\<lparr>ms_fence := lowered now (ms_fence s)\<rparr>)"
    using assms(2) by (auto simp: release_fence_def split: if_splits)
  then have "\<not> lease_active l" if "get_lease s i = Some l" for i l
    using get_lease_active [OF that] by auto
  then show ?thesis
    using assms(1) unfolding t fence_wf_frame by (intro lowered_wf) (auto simp: fence_wf_def lease_fits_def)
qed

lemma abort_fence_wf:
  assumes "fence_wf s" and "abort_fence s ac re force now = Inr t"
  shows "fence_wf t"
proof -
  let ?u = "if active_leases s \<noteq> [] then end_leases now s else s"
  obtain e where t: "t = log_event e (?u\<lparr>ms_fence := lowered now (ms_fence s)\<rparr>)"
    using assms(2) by (auto simp: abort_fence_def Let_def split: if_splits)
  have "\<not> lease_active l \<and> lz_epoch l \<le> fc_epoch (ms_fence s)" if l: "get_lease ?u i = Some l" for i l
  proof
    show "\<not> lease_active l"
      using l ended_leases [of now s i l] get_lease_active [of s i l] by (auto split: if_splits)
    show "lz_epoch l \<le> fc_epoch (ms_fence s)"
      using l assms(1) by (fastforce simp: fence_wf_def lease_fits_def get_lease_end split: if_splits)
  qed
  then show ?thesis using assms(1) unfolding t fence_wf_frame by (intro lowered_wf) auto
qed

lemma acquire_lease_cases:
  assumes "acquire_lease opr s ow k et eid i now = Inr (l, t)"
  shows "\<not> opr \<and> reconciliation_state s = ''ready'' \<and> \<not> fc_active (ms_fence s)
    \<and> (t = s \<or> (get_lease s i = None \<and> t = put_lease i \<lparr>lz_epoch = fc_epoch (ms_fence s), lz_owner = ow,
          lz_kind = k, lz_etype = et, lz_eid = eid, lz_heartbeat = now, lz_released = None\<rparr> s))
    \<and> ls_id l = i \<and> ls_permit l = None
    \<and> (\<exists>r. get_lease t i = Some r \<and> lease_active r \<and> lz_epoch r = ls_epoch l)"
  using assms by (auto simp: acquire_lease_def Let_def split: if_splits option.splits)

lemma acquire_lease_wf: "fence_wf s \<Longrightarrow> acquire_lease opr s ow k et eid i now = Inr (l, t) \<Longrightarrow> fence_wf t"
  using acquire_lease_cases [of opr s ow k et eid i now l t]
  by (auto intro!: fence_wf_put simp: lease_fits_def)

lemma canary_cases:
  assumes "acquire_canary_handoff_lease s ow rel ro i now = Inr (l, t)"
  obtains pid p where "fc_active (ms_fence s)" and "fc_run (ms_fence s) = Some pid" and "pid \<noteq> []"
    and "dict_get (ms_permits s) pid = Some p" and "pm_state p = ''authorized''"
    and "ls_permit l = Some pid" and "get_lease s i = None"
    and "t = put_lease i \<lparr>lz_epoch = fc_epoch (ms_fence s), lz_owner = ow, lz_kind = ''canary_handoff'',
             lz_etype = Some ''release'', lz_eid = Some rel, lz_heartbeat = now, lz_released = None\<rparr>
           (s\<lparr>ms_permits := dict_set pid (p\<lparr>pm_state := ''claimed'', pm_lease := Some i\<rparr>) (ms_permits s)\<rparr>)"
  using assms
  by (auto simp: acquire_canary_handoff_lease_def Let_def present_def split: if_splits option.splits)

lemma canary_wf: "fence_wf s \<Longrightarrow> acquire_canary_handoff_lease s ow rel ro i now = Inr (l, t) \<Longrightarrow> fence_wf t"
  by (erule canary_cases) (auto intro!: fence_wf_put simp: lease_fits_def)

lemma handoff_cases:
  "handoff_lease opr s ow rel ro i now = Inr (l, t) \<Longrightarrow>
   acquire_lease opr s ow ''external-handoff'' (Some ''release'') (Some rel) i now = Inr (l, t)
   \<or> acquire_canary_handoff_lease s ow rel ro i now = Inr (l, t)"
  by (auto simp: handoff_lease_def split: sum.splits if_splits)

lemma mstep_wf: "fence_wf s \<Longrightarrow> fence_wf (mstep s op)"
proof (cases op)
  case (MHandoff opr ow rel ro i now)
  assume wf: "fence_wf s"
  show ?thesis
  proof (cases "handoff_lease opr s ow rel ro i now")
    case (Inl e)
    then show ?thesis using wf MHandoff by (simp add: mkeep2_def)
  next
    case (Inr x)
    then obtain l t where x: "handoff_lease opr s ow rel ro i now = Inr (l, t)" by (cases x) auto
    then have "fence_wf t"
      using handoff_cases [OF x] by (elim disjE) (rule acquire_lease_wf [OF wf] canary_wf [OF wf], assumption)+
    then show ?thesis using x MHandoff by (simp add: mkeep2_def)
  qed
qed (auto simp: mkeep_def mkeep2_def heartbeat_fence_def owns_fence_def heartbeat_lease_def release_lease_def
      complete_canary_handoff_def set_reconciliation_state_def Let_def
    intro: acquire_fence_wf release_fence_wf abort_fence_wf acquire_lease_wf canary_wf
      fence_wf_lease lease_fits_released
    intro!: fence_wf_put
    split: sum.splits option.splits if_splits)

lemma mrun_wf: "fence_wf s \<Longrightarrow> fence_wf (mrun ops s)"
  unfolding mrun_def by (induction ops arbitrary: s) (simp_all add: mstep_wf)

section \<open>The epoch\<close>

lemma epoch_grows: "fc_epoch (ms_fence s) \<le> fc_epoch (ms_fence (mstep s op))"
proof (cases op)
  case (MCanary ow rel ro i now)
  then show ?thesis
    by (cases "acquire_canary_handoff_lease s ow rel ro i now")
      (auto simp: mkeep2_def elim!: canary_cases)
next
  case (MHandoff opr ow rel ro i now)
  then show ?thesis
    by (cases "handoff_lease opr s ow rel ro i now")
      (auto simp: mkeep2_def dest!: handoff_cases acquire_lease_cases elim!: canary_cases)
next
  case (MLease opr ow k et eid i now)
  then show ?thesis
    by (cases "acquire_lease opr s ow k et eid i now") (auto simp: mkeep2_def dest!: acquire_lease_cases)
qed (auto simp: mkeep_def acquire_fence_def heartbeat_fence_def release_fence_def abort_fence_def lowered_def
      heartbeat_lease_def release_lease_def complete_canary_handoff_def set_reconciliation_state_def Let_def
    split: sum.splits option.splits if_splits)

lemma epoch_grows_run: "fc_epoch (ms_fence s) \<le> fc_epoch (ms_fence (mrun ops s))"
  unfolding mrun_def
  by (induction ops arbitrary: s) (auto intro: order_trans [OF epoch_grows])

section \<open>Demonstration states\<close>

definition idle :: mstate where
  "idle = \<lparr>ms_fence = \<lparr>fc_epoch = 0, fc_active = False, fc_owner = None, fc_run = None, fc_reason = None,
             fc_heartbeat = None, fc_released = None\<rparr>,
           ms_leases = [], ms_permits = [(''p1'', \<lparr>pm_release = ''42|nzbgeek'', pm_route = ''sab'',
             pm_state = ''authorized'', pm_expires = ''2026-02'', pm_lease = None, pm_outcome = None\<rparr>)],
           ms_events = [], ms_reconciliation = Some ''ready''\<rparr>"

lemma idle_wf [simp]: "fence_wf idle"
  by (simp add: fence_wf_def idle_def get_lease_def dict_get_def)

section \<open>Properties\<close>

text \<open>C7: A fence stops the work it finds.  A lease granted before a fence was acquired is never honoured
  again: whatever happens after the acquisition (release, abort, later fences, heartbeats, new leases
  under the same id), the fence-token check on it fails.\<close>

theorem fence_stops_older_leases:
  assumes "fence_wf u" and "acquire_lease opr u ow k et eid i n1 = Inr (l, v)"
    and "s = mrun ops v" and "\<not> fc_active (ms_fence s)" and "acquire_fence s fo run re n2 = Inr t"
  shows "\<not> assert_lease_current (mrun ops' t) l n3"
proof -
  note lc = acquire_lease_cases [OF assms(2)]
  obtain r where r: "get_lease v i = Some r" "lz_epoch r = ls_epoch l" using lc by blast
  have "fence_wf v" using acquire_lease_wf [OF assms(1,2)] .
  then have "ls_epoch l \<le> fc_epoch (ms_fence v)"
    using fence_wf_lease [OF _ r(1)] r(2) by (simp add: lease_fits_def)
  also have "\<dots> \<le> fc_epoch (ms_fence s)" using epoch_grows_run assms(3) by simp
  also have "\<dots> < fc_epoch (ms_fence t)"
    using assms(4,5) by (auto simp: acquire_fence_def Let_def split: if_splits)
  also have "\<dots> \<le> fc_epoch (ms_fence (mrun ops' t))" by (rule epoch_grows_run)
  finally show ?thesis by (auto simp: assert_lease_current_def split: option.splits)
qed

theorem fence_stops_older_leases_witness:
  "\<exists>l v t. acquire_lease False idle ''worker'' ''postprocess'' None None ''l1'' ''2026-01'' = Inr (l, v)
     \<and> acquire_fence v ''operator'' ''r1'' ''repair'' ''2026-01'' = Inr t
     \<and> assert_lease_current v l ''2026-01''
     \<and> \<not> assert_lease_current (mrun [MAbort ''operator'' ''done'' True ''2026-01''] t) l ''2026-01''"
proof -
  have "\<not> isl (acquire_lease False idle ''worker'' ''postprocess'' None None ''l1'' ''2026-01'')" by code_simp
  then obtain l v where lv: "acquire_lease False idle ''worker'' ''postprocess'' None None ''l1'' ''2026-01'' = Inr (l, v)"
    by (cases "acquire_lease False idle ''worker'' ''postprocess'' None None ''l1'' ''2026-01''") auto
  then have v: "\<not> fc_active (ms_fence v)" "assert_lease_current v l ''2026-01''"
    by (auto simp: acquire_lease_def idle_def get_lease_def put_lease_def dict_get_def dict_set_def
        assert_lease_current_def lease_active_def Let_def reconciliation_state_def)
  obtain t where t: "acquire_fence v ''operator'' ''r1'' ''repair'' ''2026-01'' = Inr t"
    using v by (auto simp: acquire_fence_def Let_def)
  have "v = mrun [] v" by (simp add: mrun_def)
  from fence_stops_older_leases [OF idle_wf lv this v(1) t] lv v(2) t show ?thesis by blast
qed

text \<open>The fence has one owner and is never lowered over running work.  While it is active every
  acquisition by another owner or run is a conflict that changes nothing; only its owner at its epoch
  can release it, and a release, or an unforced abort, succeeds only when no lease is active.\<close>

theorem fence_is_exclusive_and_drained:
  "(fc_active (ms_fence s) \<and> (fc_owner (ms_fence s) \<noteq> Some ow \<or> fc_run (ms_fence s) \<noteq> Some run)
      \<longrightarrow> acquire_fence s ow run re now \<in> {Inl MConflict, Inl MValueError})
   \<and> (\<forall>t. release_fence s ow run ep now = Inr t \<longrightarrow>
         owns_fence (ms_fence s) ow run ep \<and> active_leases s = [] \<and> \<not> fc_active (ms_fence t))
   \<and> (\<forall>t. abort_fence s ow re False now = Inr t \<longrightarrow>
         fc_active (ms_fence s) \<and> active_leases s = [] \<and> \<not> fc_active (ms_fence t))
   \<and> (\<forall>t i l. abort_fence s ow re True now = Inr t \<longrightarrow> get_lease t i = Some l \<longrightarrow> \<not> lease_active l)"
proof (intro conjI allI impI)
  fix t i l
  assume a: "abort_fence s ow re True now = Inr t" and l: "get_lease t i = Some l"
  have "get_lease t = get_lease (if active_leases s \<noteq> [] then end_leases now s else s)"
    using a by (auto simp: abort_fence_def Let_def split: if_splits)
  then show "\<not> lease_active l"
    using l ended_leases [of now s i l] get_lease_active [of s i l] by (auto split: if_splits)
qed (auto simp: acquire_fence_def release_fence_def abort_fence_def lowered_def Let_def split: if_splits)

theorem fence_is_exclusive_and_drained_witness:
  "acquire_fence (mrun [MAcquire ''a'' ''r1'' ''repair'' ''t''] idle) ''b'' ''r2'' ''repair'' ''t''
   \<in> {Inl MConflict, Inl MValueError}"
proof -
  have "fc_active (ms_fence (mrun [MAcquire ''a'' ''r1'' ''repair'' ''t''] idle))"
    and "fc_owner (ms_fence (mrun [MAcquire ''a'' ''r1'' ''repair'' ''t''] idle)) \<noteq> Some ''b''"
    by code_simp+
  then show ?thesis using fence_is_exclusive_and_drained by blast
qed

text \<open>While a fence is active only the authorised canary crosses it: no ordinary lease is granted, a
  handoff gets a lease only on the authorised, unexpired permit of the fence's own run for exactly its
  release and route, and the fence-token check passes only for a lease that holds that claimed permit.\<close>

theorem only_the_canary_crosses:
  assumes "fc_active (ms_fence s)"
  shows "(\<forall>lt. acquire_lease opr s ow k et eid i now \<noteq> Inr lt)
    \<and> (\<forall>l t. handoff_lease opr s ow rel ro i now = Inr (l, t) \<longrightarrow>
         (\<exists>pid p. fc_run (ms_fence s) = Some pid \<and> dict_get (ms_permits s) pid = Some p
            \<and> pm_release p = rel \<and> pm_route p = ro \<and> pm_state p = ''authorized'' \<and> key_le now (pm_expires p)
            \<and> ls_permit l = Some pid \<and> assert_lease_current t l now))
    \<and> (\<forall>l. assert_lease_current s l now \<longrightarrow>
         (\<exists>pid p. ls_permit l = Some pid \<and> fc_run (ms_fence s) = Some pid
            \<and> dict_get (ms_permits s) pid = Some p \<and> pm_state p = ''claimed'' \<and> pm_lease p = Some (ls_id l)))"
proof (intro conjI allI impI)
  fix l t
  assume "handoff_lease opr s ow rel ro i now = Inr (l, t)"
  moreover have "\<not> acquire_lease opr s ow ''external-handoff'' (Some ''release'') (Some rel) i now = Inr (l, t)"
    using acquire_lease_cases assms by blast
  ultimately have "acquire_canary_handoff_lease s ow rel ro i now = Inr (l, t)"
    using handoff_cases by blast
  then show "\<exists>pid p. fc_run (ms_fence s) = Some pid \<and> dict_get (ms_permits s) pid = Some p
      \<and> pm_release p = rel \<and> pm_route p = ro \<and> pm_state p = ''authorized'' \<and> key_le now (pm_expires p)
      \<and> ls_permit l = Some pid \<and> assert_lease_current t l now"
    by (auto simp: acquire_canary_handoff_lease_def Let_def present_def assert_lease_current_def lease_active_def
        split: if_splits option.splits)
qed (use assms in \<open>auto simp: acquire_lease_def assert_lease_current_def split: if_splits option.splits\<close>)

theorem only_the_canary_crosses_witness:
  "\<exists>pid p. fc_run (ms_fence (mrun [MAcquire ''a'' ''p1'' ''canary'' ''t''] idle)) = Some pid
     \<and> dict_get (ms_permits (mrun [MAcquire ''a'' ''p1'' ''canary'' ''t''] idle)) pid = Some p
     \<and> pm_release p = ''42|nzbgeek''"
proof -
  let ?s = "mrun [MAcquire ''a'' ''p1'' ''canary'' ''t''] idle"
  let ?h = "handoff_lease False ?s ''w'' ''42|nzbgeek'' ''sab'' ''l1'' ''2026-01''"
  have a: "fc_active (ms_fence ?s)" by code_simp
  have "\<not> isl ?h" by code_simp
  then obtain l t where "?h = Inr (l, t)" by (cases ?h) auto
  then show ?thesis using only_the_canary_crosses [OF a] by blast
qed

section \<open>The canary permit\<close>

definition claim_permit :: "string \<Rightarrow> string \<Rightarrow> string \<Rightarrow> string \<Rightarrow> string \<Rightarrow> string \<Rightarrow> mstate \<Rightarrow> bool \<times> mstate" where
  "claim_permit pid ow rel ro i now s =
     (case acquire_canary_handoff_lease s ow rel ro i now of
        Inl e \<Rightarrow> (False, s) | Inr (l, t) \<Rightarrow> (ls_permit l = Some pid, t))"

definition authorized :: "string \<Rightarrow> mstate \<Rightarrow> bool" where
  "authorized pid s \<longleftrightarrow> (case dict_get (ms_permits s) pid of None \<Rightarrow> False | Some p \<Rightarrow> pm_state p = ''authorized'')"

lemma canary_authorized:
  assumes "acquire_canary_handoff_lease s ow rel ro i now = Inr (l, t)"
  shows "\<exists>q. ls_permit l = Some q \<and> authorized q s
    \<and> (\<forall>pid. authorized pid t \<longleftrightarrow> authorized pid s \<and> pid \<noteq> q)"
  using assms by (elim canary_cases) (auto simp: authorized_def dict_get_set split: option.splits)

interpretation permit_claim: cas_claim "\<lambda>_. True" "claim_permit pid ow rel ro i now" "authorized pid"
  for pid ow rel ro i now
proof (unfold_locales, rule TrueI)
  fix s
  {
    assume "fst (claim_permit pid ow rel ro i now s)"
    then obtain l t where c: "acquire_canary_handoff_lease s ow rel ro i now = Inr (l, t)" "ls_permit l = Some pid"
      by (auto simp: claim_permit_def split: sum.splits)
    then show "authorized pid s" and "\<not> authorized pid (snd (claim_permit pid ow rel ro i now s))"
      using canary_authorized [OF c(1)] by (auto simp: claim_permit_def)
  next
    assume "authorized pid (snd (claim_permit pid ow rel ro i now s))"
    then show "authorized pid s"
      using canary_authorized [of s ow rel ro i now]
      by (auto simp: claim_permit_def split: sum.splits)
  }
qed

lemma mstep_authorized: "authorized pid (mstep s op) \<Longrightarrow> authorized pid s"
proof (cases op)
  case (MCanary ow rel ro i now)
  assume "authorized pid (mstep s op)"
  then show ?thesis
    using MCanary canary_authorized [of s ow rel ro i now]
    by (auto simp: mkeep2_def split: sum.splits)
next
  case (MHandoff opr ow rel ro i now)
  assume a: "authorized pid (mstep s op)"
  show ?thesis
  proof (cases "handoff_lease opr s ow rel ro i now")
    case (Inl e)
    then show ?thesis using a MHandoff by (simp add: mkeep2_def)
  next
    case (Inr x)
    then obtain l t where x: "handoff_lease opr s ow rel ro i now = Inr (l, t)" by (cases x) auto
    then have t: "authorized pid t" using a MHandoff by (simp add: mkeep2_def)
    from handoff_cases [OF x] show ?thesis
    proof
      assume "acquire_lease opr s ow ''external-handoff'' (Some ''release'') (Some rel) i now = Inr (l, t)"
      from acquire_lease_cases [OF this] t show ?thesis by (auto simp: authorized_def)
    qed (use canary_authorized t in blast)
  qed
next
  case (MLease opr ow k et eid i now)
  assume a: "authorized pid (mstep s op)"
  show ?thesis
  proof (cases "acquire_lease opr s ow k et eid i now")
    case (Inr x)
    then obtain l t where x: "acquire_lease opr s ow k et eid i now = Inr (l, t)" by (cases x) auto
    from acquire_lease_cases [OF x] a MLease x show ?thesis by (auto simp: authorized_def mkeep2_def)
  qed (use a MLease in \<open>simp add: mkeep2_def\<close>)
next
  case (MAbort ac re force now)
  assume "authorized pid (mstep s op)"
  then show ?thesis
    using MAbort
    by (auto simp: authorized_def mkeep_def abort_fence_def end_leases_def dict_get_def map_of_map Let_def
        split: if_splits option.splits)
qed (auto simp: authorized_def mkeep_def acquire_fence_def heartbeat_fence_def release_fence_def
      heartbeat_lease_def release_lease_def complete_canary_handoff_def set_reconciliation_state_def
      dict_get_set Let_def
    split: sum.splits option.splits if_splits)

lemma mrun_authorized: "authorized pid (mrun ops s) \<Longrightarrow> authorized pid s"
  unfolding mrun_def by (induction ops arbitrary: s) (auto dest: mstep_authorized)

text \<open>A canary permit authorises one handoff, ever: whatever maintenance operations run in between, among
  any number of claims at most one is granted on it.\<close>

theorem permit_used_once:
  "wins (claim_run (claim_permit pid ow rel ro i now) s (map mrun opss)) \<le> 1"
  by (rule permit_claim.at_most_one_win [OF TrueI])
    (auto simp: permit_claim.keeps_closed_def dest: mrun_authorized)

section \<open>The runtime gate\<close>

text \<open>The runtime gate and the claims agree: with the schema ready, the gate shows open exactly when a worker
  with a new lease id is granted a lease, and that lease passes the fence-token check; without the schema
  the gate is closed.\<close>

theorem gate_agrees_with_claims:
  assumes "ow \<noteq> []" and "k \<noteq> []" and "get_lease s i = None"
  shows "gs_blocked (refresh_runtime_state False opr s)
    \<and> ((\<not> gs_blocked (refresh_runtime_state True opr s)) \<longleftrightarrow>
      (\<exists>l t. acquire_lease opr s ow k et eid i now = Inr (l, t) \<and> assert_lease_current t l now))"
  using assms
  by (auto simp: refresh_runtime_state_def acquire_lease_def assert_lease_current_def lease_active_def Let_def)

theorem gate_agrees_with_claims_witness:
  "gs_blocked (refresh_runtime_state False False idle)
    \<and> ((\<not> gs_blocked (refresh_runtime_state True False idle)) \<longleftrightarrow>
      (\<exists>l t. acquire_lease False idle ''w'' ''search'' None None ''l1'' ''t'' = Inr (l, t)
         \<and> assert_lease_current t l ''t''))"
  by (rule gate_agrees_with_claims) (simp_all add: idle_def get_lease_def)

text \<open>The backoff of a fenced command that is requeued is bounded and does not shrink: it lies between 5
  and 60 seconds and is monotone in the attempt count, unreadable and non-positive counts being the
  first attempt.\<close>

theorem retry_delay_bounded:
  "5 \<le> maintenance_retry_delay a \<and> maintenance_retry_delay a \<le> 60
   \<and> (m \<le> n \<longrightarrow> maintenance_retry_delay (Some m) \<le> maintenance_retry_delay (Some n))
   \<and> (m \<le> 1 \<longrightarrow> maintenance_retry_delay (Some m) = maintenance_retry_delay None)"
proof (intro conjI impI)
  have "(1 :: int) \<le> 2 ^ nat x" for x by simp
  then show "5 \<le> maintenance_retry_delay a"
    by (simp add: maintenance_retry_delay_def Let_def)
  show "maintenance_retry_delay a \<le> 60" by (simp add: maintenance_retry_delay_def Let_def)
  assume "m \<le> n"
  then have "nat (min (max 1 m - 1) 4) \<le> nat (min (max 1 n - 1) 4)" by simp
  then have "(2 :: int) ^ nat (min (max 1 m - 1) 4) \<le> 2 ^ nat (min (max 1 n - 1) 4)"
    by (intro power_increasing) simp_all
  then show "maintenance_retry_delay (Some m) \<le> maintenance_retry_delay (Some n)"
    unfolding maintenance_retry_delay_def Let_def option.case
    by (intro min.mono order_refl mult_left_mono) simp_all
qed (simp add: maintenance_retry_delay_def Let_def max_def)

theorem retry_delay_bounded_witness:
  "maintenance_retry_delay (Some 3) \<le> maintenance_retry_delay (Some 7)"
  using retry_delay_bounded [of None 3 7] by simp

section \<open>The residue sweep\<close>

text \<open>The one-time residue sweep of schema version 7 cancels every open item but does not reconcile their
  runs: a run of a well-formed ledger with an open item still reads as running, with no item left that
  could ever close it.\<close>

theorem residue_sweep_strands_runs:
  assumes "ledger_wf s" and "i \<in> set (rl_items s)" and "is_open_item i"
  shows "\<exists>r. get_run (cancel_prebound_residue now s) (ri_run i) = Some r \<and> rr_completion r = RRunning
    \<and> (\<forall>st \<in> set (item_states (cancel_prebound_residue now s) (ri_run i)). outcome_terminal st)
    \<and> list_recoverable_items (cancel_prebound_residue now s) None = []"
proof -
  obtain r where r: "get_run s (ri_run i) = Some r"
    using assms(1,2) unfolding ledger_wf_def base_wf_def by blast
  have ex: "counters_exact (item_states s (ri_run i)) r" using assms(1) r by (auto simp: ledger_wf_def)
  have mem: "ri_state i \<in> set (item_states s (ri_run i))" using assms(2) by (auto simp: item_states_def)
  have "\<not> outcome_terminal (ri_state i)" using assms(3) by (simp add: open_not_terminal)
  then have "length (filter outcome_terminal (item_states s (ri_run i))) < length (item_states s (ri_run i))"
    using mem by (intro length_filter_less)
  then have "rr_completion r = RRunning"
    using ex mem by (auto simp: counters_exact_def completion_of_def)
  moreover have "get_run (cancel_prebound_residue now s) (ri_run i) = Some r"
    using r by (simp add: get_run_def cancel_prebound_residue_def)
  moreover have cancelled: "outcome_terminal ICancelled" by (simp add: outcome_terminal_def)
  ultimately show ?thesis
    using cancelled by (auto simp: item_states_def cancel_prebound_residue_def list_recoverable_items_def
        filter_empty_conv open_not_terminal)
qed

theorem residue_sweep_strands_runs_witness:
  "\<exists>r. get_run (cancel_prebound_residue ''t9'' demo_ledger) ''r1'' = Some r \<and> rr_completion r = RRunning"
proof -
  have "demo_item \<in> set (rl_items demo_ledger)" using the_item_row [OF demo_item_there] by blast
  moreover have "is_open_item demo_item" by code_simp
  ultimately show ?thesis
    using residue_sweep_strands_runs [OF demo_ledger_wf, of demo_item "''t9''"]
    by (auto simp: demo_item_def new_item_def)
qed

end
