(* ===== verification/AttentionPolicy.thy ===== *)
theory AttentionPolicy
  imports Journal
begin

text \<open>
  \<open>comicarr/app/attention/_policy.py\<close>: which failure reasons an operator has to look at.  The same rule is
  written twice, in Python (\<open>is_actionable\<close>) and as a SQL condition (\<open>actionable_reason_condition\<close>); both
  are modelled, and \<open>same\<close> is the database's comparison of two characters under LIKE (equality on PostgreSQL,
  ASCII case-insensitive on SQLite).
\<close>

section \<open>Actions\<close>

datatype aaction = Act_retry | Act_search_again | Act_import | Act_stop_wanting

definition action_of_string :: "string \<Rightarrow> aaction option" where
  "action_of_string s =
     map_of [(''retry'', Act_retry), (''search_again'', Act_search_again), (''import'', Act_import),
             (''stop_wanting'', Act_stop_wanting)] s"

definition TROUBLE_STAGES :: "stage list" where
  "TROUBLE_STAGES = [Failed, Manual_review]"

text \<open>\<open>STAGE_ACTIONS.get(stage, ())\<close>\<close>

definition STAGE_ACTIONS :: "stage \<Rightarrow> aaction list" where
  "STAGE_ACTIONS st =
     (case st of Failed \<Rightarrow> [Act_retry, Act_stop_wanting]
      | Manual_review \<Rightarrow> [Act_import, Act_search_again, Act_stop_wanting]
      | _ \<Rightarrow> [])"

section \<open>Reasons\<close>

text \<open>The wording for the operator.  The source writes an em dash, outside the code points modelled here,
  in one phrase; it is rendered as two hyphens.\<close>

definition REASON_PHRASES :: "(string \<times> string) list" where
  "REASON_PHRASES = [
     (''downloaded_invalid_artifact_command'', ''downloaded file failed post-process checks''),
     (''invalid_recovered_postprocess_command'', ''recovered download has a bad post-process command''),
     (''invalid_postprocess_command'', ''post-process command is invalid''),
     (''postprocess_error'', ''post-processing failed''),
     (''recovered_postprocess_error'', ''recovered download failed post-processing''),
     (''ddl_artifact_state_persistence_error'', ''could not save download state (direct download)''),
     (''torrent_artifact_state_persistence_error'', ''could not save download state (torrent)''),
     (''nzb_artifact_state_persistence_error'', ''could not save download state (NZB)''),
     (''sab_completed_file_not_found'', ''completed download file was not found (path or storage mapping)''),
     (''sab_job_missing_from_client'', ''SABnzbd no longer has this job (removed from queue or history)''),
     (''reserved_without_persisted_acceptance'', ''download reserved but never fully accepted''),
     (''done_signal_without_library_placement'', ''download finished but was never imported into the library''),
     (''route_acceptance_missing_identity'', ''the downloader accepted it without identifying it''),
     (''submission_outcome_unknown'', ''submission result unknown -- check the downloader''),
     (''route_not_restart_safe'', ''this route can't resume after a restart''),
     (''download_failed_no_auto_handling'', ''download failed and auto-handling is off''),
     (''submission_rejected'', ''the downloader rejected the submission''),
     (''recovery_attempts_exhausted'', ''post-processing could not finish after several restarts''),
     (''torrent_monitor_item_rejected'', ''torrent monitor hit an unexpected error on this download''),
     (''nzb_monitor_item_rejected'', ''NZB monitor hit an unexpected error on this download''),
     (''torrent_monitor_unreachable'', ''torrent client was unreachable while the download was still in progress''),
     (''torrent_autosnatch_script_error'', ''the auto-snatch script failed while retrieving a completed torrent'')]"

definition UNMAPPED_REASON_PHRASE :: string where
  "UNMAPPED_REASON_PHRASE = ''something went wrong''"

definition NON_ACTIONABLE_FLAT :: "string list" where
  "NON_ACTIONABLE_FLAT = [''download_gone'', ''download_failed_researching'',
     ''ddl_download_or_artifact_validation_failed'', ''ddl-worker-rejected'', ''ddl_stalled'',
     ''torrent_hash_not_in_client'', ''torrent_invalid_hash'', ''legacy_downloading_without_correlation'',
     ''ambiguous_ddl_acceptance_after_restart'']"

definition NON_ACTIONABLE_COMPOSITE :: "string list" where
  "NON_ACTIONABLE_COMPOSITE = [''immutable_payload_conflict'']"

datatype owed = Blocklist_and_rewant | Rewant | Rewant_and_log | Rewant_if_issue | Owed_none

definition RECONCILIATION :: "(string \<times> owed) list" where
  "RECONCILIATION = [
     (''download_gone'', Blocklist_and_rewant),
     (''ddl_download_or_artifact_validation_failed'', Blocklist_and_rewant),
     (''ddl-worker-rejected'', Rewant),
     (''ddl_stalled'', Rewant),
     (''torrent_hash_not_in_client'', Rewant),
     (''torrent_invalid_hash'', Rewant),
     (''ambiguous_ddl_acceptance_after_restart'', Rewant),
     (''immutable_payload_conflict'', Rewant_and_log),
     (''legacy_downloading_without_correlation'', Rewant_if_issue),
     (''download_failed_researching'', Owed_none)]"

definition KNOWN_BASE_TOKENS :: "string list" where
  "KNOWN_BASE_TOKENS = map fst REASON_PHRASES @ NON_ACTIONABLE_FLAT @ NON_ACTIONABLE_COMPOSITE"

definition base_reason :: "string option \<Rightarrow> string option" where
  "base_reason fail_reason =
     (case fail_reason of None \<Rightarrow> None
      | Some s \<Rightarrow> if s = [] then None
                  else if py_strip s = [] then None
                  else Some (hd (py_split CHR '':'' (py_strip s))))"

definition reason_phrase :: "string option \<Rightarrow> string" where
  "reason_phrase fail_reason =
     (case map_of REASON_PHRASES (case base_reason fail_reason of None \<Rightarrow> [] | Some t \<Rightarrow> t) of
        None \<Rightarrow> UNMAPPED_REASON_PHRASE | Some p \<Rightarrow> p)"

definition is_actionable :: "string option \<Rightarrow> bool" where
  "is_actionable fail_reason =
     (case base_reason fail_reason of None \<Rightarrow> True
      | Some t \<Rightarrow> t \<notin> set NON_ACTIONABLE_FLAT \<and> t \<notin> set NON_ACTIONABLE_COMPOSITE)"

definition reconciliation_for :: "string option \<Rightarrow> owed option" where
  "reconciliation_for fail_reason =
     (case base_reason fail_reason of None \<Rightarrow> None | Some t \<Rightarrow> map_of RECONCILIATION t)"

section \<open>The SQL condition\<close>

fun sql_like :: "(char \<Rightarrow> char \<Rightarrow> bool) \<Rightarrow> string \<Rightarrow> string \<Rightarrow> bool" where
  "sql_like same [] t = (t = [])"
| "sql_like same (p # ps) [] = (p = CHR ''%'' \<and> sql_like same ps [])"
| "sql_like same (p # ps) (c # t) =
     (if p = CHR ''%'' then sql_like same ps (c # t) \<or> sql_like same (p # ps) t
      else (p = CHR ''_'' \<or> same p c) \<and> sql_like same ps t)"

definition non_actionable_tokens :: "string list" where
  "non_actionable_tokens = NON_ACTIONABLE_FLAT @ NON_ACTIONABLE_COMPOSITE"

definition actionable_reason_condition :: "(char \<Rightarrow> char \<Rightarrow> bool) \<Rightarrow> string option \<Rightarrow> bool" where
  "actionable_reason_condition same column =
     (case column of None \<Rightarrow> True
      | Some s \<Rightarrow> \<not> (s \<in> set non_actionable_tokens
                      \<or> list_ex (\<lambda>base. sql_like same (base @ '':%'') s) non_actionable_tokens))"

section \<open>Every exclusion is owed something\<close>

lemma reconciliation_keys:
  "map_of RECONCILIATION t = None \<longleftrightarrow> t \<notin> set NON_ACTIONABLE_FLAT \<and> t \<notin> set NON_ACTIONABLE_COMPOSITE"
  by (auto simp: RECONCILIATION_def NON_ACTIONABLE_FLAT_def NON_ACTIONABLE_COMPOSITE_def map_of_eq_None_iff)

lemma actionable_owes_nothing: "is_actionable r \<longleftrightarrow> reconciliation_for r = None"
  by (simp add: is_actionable_def reconciliation_for_def reconciliation_keys split: option.splits)

section \<open>The two readings of one rule\<close>

lemma sql_like_percent [simp]: "sql_like same ''%'' t"
  by (induction t) simp_all

lemma hd_py_split: "hd (py_split c s) = takeWhile (\<lambda>x. x \<noteq> c) s"
  by (induction c s rule: py_split.induct) (auto split: list.splits)

text \<open>\<open>wild_prefix same t b\<close>: the pattern \<open>b\<close> can consume the token \<open>t\<close>, letter by letter or by its
  underscores, and is then at its end or at an underscore that may stand for the colon after \<open>t\<close>.\<close>

fun wild_prefix :: "string \<Rightarrow> string \<Rightarrow> bool" where
  "wild_prefix [] [] = True"
| "wild_prefix [] (p # ps) = (p = CHR ''_'' \<or> p = CHR '':'')"
| "wild_prefix (c # t) [] = False"
| "wild_prefix (c # t) (p # ps) =
     ((p = CHR ''_'' \<or> py_lower_char p = py_lower_char c) \<and> wild_prefix t ps)"

lemma known_tokens_apart:
  "list_all (\<lambda>b. CHR ''%'' \<notin> set b \<and> CHR '':'' \<notin> set b \<and>
      list_all (\<lambda>t. wild_prefix t b \<longrightarrow> t = b) KNOWN_BASE_TOKENS) non_actionable_tokens"
  by code_simp

definition case_only :: "(char \<Rightarrow> char \<Rightarrow> bool) \<Rightarrow> bool" where
  "case_only same \<longleftrightarrow> (\<forall>c. same c c) \<and> (\<forall>p c. same p c \<longrightarrow> py_lower_char p = py_lower_char c)"

lemma lower_colon: "py_lower_char p = py_lower_char CHR '':'' \<Longrightarrow> p = CHR '':''"
proof -
  assume a: "py_lower_char p = py_lower_char CHR '':''"
  have "(of_char (py_lower_char p) :: nat) = 58" unfolding a by code_simp
  moreover have "(of_char p :: nat) < 256" by (rule nat_of_char_less_256)
  ultimately have "(of_char p :: nat) = 58"
    by (auto simp: py_lower_char_def Let_def split: if_splits)
  then have "(of_char p :: nat) = of_char CHR '':''" by simp
  then show "p = CHR '':''" by (simp only: of_char_eq_iff)
qed

lemma like_needs_wild_prefix:
  assumes "case_only same" and "CHR ''%'' \<notin> set b" and "CHR '':'' \<notin> set t"
  shows "sql_like same (b @ '':%'') (t @ u) \<Longrightarrow> u = [] \<or> hd u = CHR '':'' \<Longrightarrow> wild_prefix t b"
  using assms
proof (induction t b rule: wild_prefix.induct)
  case (2 p ps)
  then show ?case using lower_colon by (cases u) (auto simp: case_only_def)
next
  case (3 c t)
  then have "py_lower_char CHR '':'' = py_lower_char c" by (auto simp: case_only_def)
  then have "c = CHR '':''" using lower_colon [of c] by simp
  with 3 show ?case by simp
next
  case (4 c t p ps)
  then show ?case by (auto simp: case_only_def split: if_splits)
qed simp

lemma like_needs_colon: "CHR ''%'' \<notin> set b \<Longrightarrow> \<not> sql_like same (b @ '':%'') b"
  by (induction b) auto

lemma like_own_token: "case_only same \<Longrightarrow> CHR ''%'' \<notin> set b \<Longrightarrow> sql_like same (b @ '':%'') (b @ CHR '':'' # v)"
  by (induction b) (auto simp: case_only_def)

end
