(* ===== verification/Obligation.thy ===== *)
theory Obligation
  imports Policy JournalPayload
begin

text \<open>
  The obligation part of \<open>comicarr/app/series/queries.py\<close>: finding the one library row an obligation id
  stands for (issue, annual or story-arc entry) and writing an audited intent on it, by UPDATE only.
\<close>

record issue_row =
  is_id :: string
  is_comicid :: "string option"
  is_deleted :: "int option"
  is_status :: "string option"
  is_intent :: "string option"
  is_location :: "string option"

text \<open>The three tables; \<open>is_deleted\<close> is used by annuals only, \<open>is_intent\<close> not by story arcs, whose
  \<open>is_id\<close> is their \<open>IssueArcID\<close>.\<close>

record olib =
  ol_issues :: "issue_row list"
  ol_annuals :: "issue_row list"
  ol_storyarcs :: "issue_row list"

datatype otable = TIssues | TAnnuals | TStoryarcs

definition OBLIGATION_ENTITY_TYPES :: "string \<Rightarrow> string option" where
  "OBLIGATION_ENTITY_TYPES s =
     (if s \<in> {''issue'', ''want''} then Some ''issue''
      else if s \<in> {''annual'', ''want_ann''} then Some ''annual''
      else if s \<in> {''story_arc'', ''storyarc''} then Some ''story_arc'' else None)"

definition normalize_obligation_entity_type :: "pval \<Rightarrow> string option" where
  "normalize_obligation_entity_type v =
     (if pv_empty v then None else OBLIGATION_ENTITY_TYPES (py_lower (py_strip (py_str v))))"

definition undeleted :: "issue_row \<Rightarrow> bool" where
  "undeleted r = (is_deleted r = None \<or> is_deleted r \<noteq> Some 1)"

definition has_issue :: "olib \<Rightarrow> string \<Rightarrow> bool \<Rightarrow> bool" where
  "has_issue l i require_comic_id = list_ex (\<lambda>r. is_id r = i \<and> (require_comic_id \<longrightarrow> is_comicid r \<noteq> None)) (ol_issues l)"

definition has_annual :: "olib \<Rightarrow> string \<Rightarrow> bool" where
  "has_annual l i = list_ex (\<lambda>r. is_id r = i \<and> undeleted r) (ol_annuals l)"

definition has_storyarc :: "olib \<Rightarrow> string \<Rightarrow> bool" where
  "has_storyarc l i = list_ex (\<lambda>r. is_id r = i) (ol_storyarcs l)"

definition resolve_obligation_target :: "olib \<Rightarrow> string \<Rightarrow> pval \<Rightarrow> (otable \<times> string) option" where
  "resolve_obligation_target l i entity =
     (case normalize_obligation_entity_type entity of
        Some n \<Rightarrow>
          if n = ''issue'' then (if has_issue l i True then Some (TIssues, ''issue'') else None)
          else if n = ''annual'' then (if has_annual l i then Some (TAnnuals, ''annual'') else None)
          else if n = ''story_arc'' then (if has_storyarc l i then Some (TStoryarcs, ''story_arc'') else None)
          else None
      | None \<Rightarrow>
          if has_issue l i True then Some (TIssues, ''issue'')
          else if has_annual l i then Some (TAnnuals, ''annual'')
          else if has_storyarc l i then Some (TStoryarcs, ''story_arc'')
          else if has_issue l i False then Some (TIssues, ''issue'')
          else None)"

definition write_rows :: "string \<Rightarrow> (issue_row \<Rightarrow> bool) \<Rightarrow> (issue_row \<Rightarrow> issue_row) \<Rightarrow> issue_row list \<Rightarrow> nat \<times> issue_row list" where
  "write_rows i ok f rows =
     (length (filter (\<lambda>r. is_id r = i \<and> ok r) rows), map (\<lambda>r. if is_id r = i \<and> ok r then f r else r) rows)"

text \<open>\<open>update_obligation_intent\<close>: \<open>Inl\<close> is the \<open>ValueError\<close> of an unaudited or derived intent.\<close>

definition update_obligation_intent ::
  "olib \<Rightarrow> string \<Rightarrow> string \<Rightarrow> string \<Rightarrow> pval \<Rightarrow> lerror + (string option \<times> olib)" where
  "update_obligation_intent l i audit intent entity =
     (case resolve_obligation_target l i entity of
        None \<Rightarrow> Inr (None, l)
      | Some (t, kind) \<Rightarrow>
          (case explicit_intent_values (Some (py_lower intent)) (Some audit) of
             Inl e \<Rightarrow> Inl e
           | Inr (iv, st) \<Rightarrow>
               let both = (\<lambda>r. r\<lparr>is_intent := Some iv, is_status := Some st\<rparr>) in
               (case t of
                  TIssues \<Rightarrow> (case write_rows i (\<lambda>_. True) both (ol_issues l) of
                     (n, rows) \<Rightarrow> Inr (if n \<noteq> 0 then Some kind else None, l\<lparr>ol_issues := rows\<rparr>))
                | TAnnuals \<Rightarrow> (case write_rows i undeleted both (ol_annuals l) of
                     (n, rows) \<Rightarrow> Inr (if n \<noteq> 0 then Some kind else None, l\<lparr>ol_annuals := rows\<rparr>))
                | TStoryarcs \<Rightarrow> (case write_rows i (\<lambda>_. True) (\<lambda>r. r\<lparr>is_status := Some st\<rparr>) (ol_storyarcs l) of
                     (n, rows) \<Rightarrow> Inr (if n \<noteq> 0 then Some kind else None, l\<lparr>ol_storyarcs := rows\<rparr>)))))"

definition ids_of :: "olib \<Rightarrow> string list \<times> string list \<times> string list" where
  "ids_of l = (map is_id (ol_issues l), map is_id (ol_annuals l), map is_id (ol_storyarcs l))"

definition row_written :: "olib \<Rightarrow> string \<Rightarrow> string \<Rightarrow> bool" where
  "row_written l i st \<longleftrightarrow>
     list_ex (\<lambda>r. is_id r = i \<and> is_status r = Some st) (ol_issues l @ ol_annuals l @ ol_storyarcs l)"

lemma write_rows_ids: "(\<And>r. is_id (f r) = is_id r) \<Longrightarrow> map is_id (snd (write_rows i ok f rows)) = map is_id rows"
  by (simp add: write_rows_def)

lemma resolved_exists:
  "resolve_obligation_target l i entity = Some (t, k) \<Longrightarrow>
   (case t of TIssues \<Rightarrow> has_issue l i False | TAnnuals \<Rightarrow> has_annual l i | TStoryarcs \<Rightarrow> has_storyarc l i)"
  by (auto simp: resolve_obligation_target_def has_issue_def list_ex_iff split: option.splits if_splits)

text \<open>An intent write never inserts or removes a row, leaves rows of other ids alone, and succeeds
  exactly when the obligation id resolves to a row.\<close>

lemma update_obligation_result:
  assumes "update_obligation_intent l i audit intent entity = Inr (kind, l')"
  shows "ids_of l' = ids_of l"
    and "kind \<noteq> None \<longleftrightarrow> resolve_obligation_target l i entity \<noteq> None"
    and "kind = None \<Longrightarrow> l' = l"
proof -
  show "ids_of l' = ids_of l"
    using assms
    by (auto simp: update_obligation_intent_def ids_of_def write_rows_def Let_def
        split: option.splits sum.splits otable.splits)
  show k: "kind \<noteq> None \<longleftrightarrow> resolve_obligation_target l i entity \<noteq> None"
    using assms resolved_exists [of l i entity]
    by (auto simp: update_obligation_intent_def write_rows_def Let_def has_issue_def has_annual_def
        has_storyarc_def list_ex_iff filter_empty_conv
        split: option.splits sum.splits otable.splits if_splits)
  show "kind = None \<Longrightarrow> l' = l"
  proof -
    assume "kind = None"
    with k have "resolve_obligation_target l i entity = None" by blast
    then show "l' = l" using assms by (simp add: update_obligation_intent_def)
  qed
qed

lemma written_row:
  "r \<in> set rows \<Longrightarrow> is_id r = i \<Longrightarrow> ok r \<Longrightarrow> is_id (f r) = i \<Longrightarrow> is_status (f r) = Some st \<Longrightarrow>
   \<exists>q \<in> set (map (\<lambda>r. if is_id r = i \<and> ok r then f r else r) rows). is_id q = i \<and> is_status q = Some st"
  by (rule bexI [of _ "f r"]) (auto intro: rev_image_eqI)

lemma update_obligation_written:
  assumes "update_obligation_intent l i audit intent entity = Inr (Some kind, l')"
    and "explicit_intent_values (Some (py_lower intent)) (Some audit) = Inr (iv, st)"
  shows "row_written l' i st"
proof -
  obtain t k where t: "resolve_obligation_target l i entity = Some (t, k)"
    using assms(1) by (cases "resolve_obligation_target l i entity") (auto simp: update_obligation_intent_def)
  note ex = resolved_exists [OF t]
  have no: "(if (length xs \<noteq> 0) then Some k else None) = Some kind \<Longrightarrow> xs \<noteq> []" for xs :: "issue_row list"
    by (cases xs) auto
  note eff = assms(1) [unfolded update_obligation_intent_def t assms(2) Let_def write_rows_def, simplified]
  show ?thesis
  proof (cases t)
    case TIssues
    with ex obtain r where r: "r \<in> set (ol_issues l)" "is_id r = i" by (auto simp: has_issue_def list_ex_iff)
    show ?thesis
      using eff TIssues written_row [of r "ol_issues l" i "\<lambda>_. True" "\<lambda>r. r\<lparr>is_intent := Some iv, is_status := Some st\<rparr>" st] r
      by (auto simp: row_written_def list_ex_iff)
  next
    case TAnnuals
    with ex obtain r where r: "r \<in> set (ol_annuals l)" "is_id r = i" "undeleted r"
      by (auto simp: has_annual_def list_ex_iff)
    show ?thesis
      using eff TAnnuals written_row [of r "ol_annuals l" i undeleted "\<lambda>r. r\<lparr>is_intent := Some iv, is_status := Some st\<rparr>" st] r
      by (auto simp: row_written_def list_ex_iff)
  next
    case TStoryarcs
    with ex obtain r where r: "r \<in> set (ol_storyarcs l)" "is_id r = i" by (auto simp: has_storyarc_def list_ex_iff)
    show ?thesis
      using eff TStoryarcs written_row [of r "ol_storyarcs l" i "\<lambda>_. True" "\<lambda>r. r\<lparr>is_status := Some st\<rparr>" st] r
      by (auto simp: row_written_def list_ex_iff)
  qed
qed

text \<open>Writing the same intent again finds the same row and changes nothing.\<close>

definition same_row_keys :: "olib \<Rightarrow> olib \<Rightarrow> bool" where
  "same_row_keys l l' \<longleftrightarrow>
     (let key = (\<lambda>r. (is_id r, is_comicid r, is_deleted r)) in
      map key (ol_issues l') = map key (ol_issues l) \<and> map key (ol_annuals l') = map key (ol_annuals l)
      \<and> map key (ol_storyarcs l') = map key (ol_storyarcs l))"

lemma list_ex_map_key: "map key xs = map key ys \<Longrightarrow> list_ex (\<lambda>r. P (key r)) xs = list_ex (\<lambda>r. P (key r)) ys"
proof -
  assume k: "map key xs = map key ys"
  have "list_ex (\<lambda>r. P (key r)) zs = list_ex P (map key zs)" for zs by (induction zs) auto
  with k show ?thesis by simp
qed

lemma resolve_same_keys:
  assumes "same_row_keys l l'"
  shows "resolve_obligation_target l' i entity = resolve_obligation_target l i entity"
proof -
  let ?key = "\<lambda>r. (is_id r, is_comicid r, is_deleted r)"
  note k = assms [unfolded same_row_keys_def Let_def]
  have "has_issue l' i q = has_issue l i q" for q
    using list_ex_map_key [of ?key "ol_issues l'" "ol_issues l" "\<lambda>(a, c, d). a = i \<and> (q \<longrightarrow> c \<noteq> None)"] k
    by (simp add: has_issue_def)
  moreover have "has_annual l' i = has_annual l i"
    using list_ex_map_key [of ?key "ol_annuals l'" "ol_annuals l" "\<lambda>(a, c, d). a = i \<and> (d = None \<or> d \<noteq> Some 1)"] k
    by (simp add: has_annual_def undeleted_def)
  moreover have "has_storyarc l' i = has_storyarc l i"
    using list_ex_map_key [of ?key "ol_storyarcs l'" "ol_storyarcs l" "\<lambda>(a, c, d). a = i"] k
    by (simp add: has_storyarc_def)
  ultimately show ?thesis by (simp add: resolve_obligation_target_def)
qed

lemma write_rows_twice:
  "(\<And>r. is_id (f r) = is_id r \<and> ok (f r) = ok r \<and> f (f r) = f r) \<Longrightarrow>
   write_rows i ok f (snd (write_rows i ok f rows)) = write_rows i ok f rows"
proof -
  assume f: "\<And>r. is_id (f r) = is_id r \<and> ok (f r) = ok r \<and> f (f r) = f r"
  have "length (filter (\<lambda>r. is_id r = i \<and> ok r) (map (\<lambda>r. if is_id r = i \<and> ok r then f r else r) rows))
    = length (filter (\<lambda>r. is_id r = i \<and> ok r) rows)"
    by (induction rows) (auto simp: f)
  then show ?thesis by (auto simp: write_rows_def f)
qed

lemma update_obligation_twice:
  assumes "update_obligation_intent l i audit intent entity = Inr (kind, l')"
  shows "update_obligation_intent l' i audit intent entity = Inr (kind, l')"
proof (cases "resolve_obligation_target l i entity")
  case None
  with assms show ?thesis by (auto simp: update_obligation_intent_def)
next
  case (Some tk)
  obtain t k where tk: "tk = (t, k)" by (cases tk)
  obtain iv st where e: "explicit_intent_values (Some (py_lower intent)) (Some audit) = Inr (iv, st)"
    using assms Some tk
    by (cases "explicit_intent_values (Some (py_lower intent)) (Some audit)") (auto simp: update_obligation_intent_def)
  let ?both = "\<lambda>r. r\<lparr>is_intent := Some iv, is_status := Some st\<rparr>"
  have "same_row_keys l l'"
    using assms Some tk e
    by (cases t) (auto simp: update_obligation_intent_def same_row_keys_def write_rows_def Let_def)
  then have res: "resolve_obligation_target l' i entity = Some (t, k)"
    using resolve_same_keys Some tk by simp
  have und: "undeleted (?both r) = undeleted r" for r by (simp add: undeleted_def)
  show ?thesis
    using assms write_rows_twice [of ?both "\<lambda>_. True" i "ol_issues l"]
      write_rows_twice [of ?both undeleted i "ol_annuals l"]
      write_rows_twice [of "\<lambda>r. r\<lparr>is_status := Some st\<rparr>" "\<lambda>_. True" i "ol_storyarcs l"]
    unfolding update_obligation_intent_def res Some tk e Let_def
    by (cases t) (auto simp: case_prod_beta und)
qed

definition others_of :: "string \<Rightarrow> olib \<Rightarrow> issue_row list \<times> issue_row list \<times> issue_row list" where
  "others_of i l =
     (filter (\<lambda>r. is_id r \<noteq> i) (ol_issues l), filter (\<lambda>r. is_id r \<noteq> i) (ol_annuals l),
      filter (\<lambda>r. is_id r \<noteq> i) (ol_storyarcs l))"

lemma map_write_others:
  "(\<And>r. is_id (f r) = is_id r) \<Longrightarrow>
   filter (\<lambda>r. is_id r \<noteq> i) (map (\<lambda>r. if is_id r = i \<and> ok r then f r else r) rows) = filter (\<lambda>r. is_id r \<noteq> i) rows"
  by (induction rows) auto

lemma update_obligation_others:
  assumes "update_obligation_intent l i audit intent entity = Inr (kind, l')"
  shows "others_of i l' = others_of i l"
proof (cases "resolve_obligation_target l i entity")
  case None
  with assms show ?thesis by (simp add: update_obligation_intent_def)
next
  case (Some tk)
  obtain t k where tk: "tk = (t, k)" by (cases tk)
  obtain iv st where e: "explicit_intent_values (Some (py_lower intent)) (Some audit) = Inr (iv, st)"
    using assms Some tk
    by (cases "explicit_intent_values (Some (py_lower intent)) (Some audit)") (auto simp: update_obligation_intent_def)
  show ?thesis
    using assms
    by (cases t) (auto simp: update_obligation_intent_def others_of_def Some tk e Let_def write_rows_def
        map_write_others map_write_others [where ok = "\<lambda>_. True", simplified])
qed

definition owner_kind :: "olib \<Rightarrow> string \<Rightarrow> string" where
  "owner_kind l i =
     (if has_issue l i True then ''issue'' else if has_annual l i then ''annual''
      else if has_storyarc l i then ''story_arc'' else ''issue'')"

lemma update_obligation_kind:
  "update_obligation_intent l i audit intent VNone = Inr (Some kind, l') \<Longrightarrow> kind = owner_kind l i"
  by (auto simp: update_obligation_intent_def resolve_obligation_target_def owner_kind_def
      normalize_obligation_entity_type_def pv_empty_def Let_def
      split: option.splits sum.splits otable.splits prod.splits if_splits)

definition queue_issue :: "olib \<Rightarrow> string \<Rightarrow> string \<Rightarrow> lerror + (string option \<times> olib)" where
  "queue_issue l i audit = update_obligation_intent l i audit ''wanted'' VNone"

definition unqueue_issue :: "olib \<Rightarrow> string \<Rightarrow> string \<Rightarrow> lerror + (string option \<times> olib)" where
  "unqueue_issue l i audit = update_obligation_intent l i audit ''skipped'' VNone"

definition ignore_issue :: "olib \<Rightarrow> string \<Rightarrow> string \<Rightarrow> lerror + (string option \<times> olib)" where
  "ignore_issue l i audit = update_obligation_intent l i audit ''ignored'' VNone"

text \<open>Wanting an id again never inserts a library row and never touches rows of other ids; it goes to the row
  that owns the id: an issue of a series first, then an undeleted annual, then a story-arc entry, and only
  then a leftover phantom issue without a series, so a phantom cannot steal the annual or arc of its id.\<close>

theorem want_goes_to_owner:
  assumes "queue_issue l i audit = Inr (Some kind, l')"
  shows "ids_of l' = ids_of l \<and> others_of i l' = others_of i l \<and> kind = owner_kind l i"
  using assms update_obligation_result(1) update_obligation_others update_obligation_kind
  unfolding queue_issue_def by metis

definition demo_lib :: olib where
  "demo_lib = \<lparr>ol_issues = [\<lparr>is_id = ''9'', is_comicid = None, is_deleted = None, is_status = Some ''Snatched'', is_intent = None, is_location = None\<rparr>],
     ol_annuals = [\<lparr>is_id = ''9'', is_comicid = Some ''7'', is_deleted = Some 0, is_status = Some ''Snatched'', is_intent = None, is_location = None\<rparr>],
     ol_storyarcs = []\<rparr>"

lemma demo_lib_want:
  "queue_issue demo_lib ''9'' ''op'' =
     Inr (Some ''annual'', demo_lib\<lparr>ol_annuals := [\<lparr>is_id = ''9'', is_comicid = Some ''7'', is_deleted = Some 0,
       is_status = Some ''Wanted'', is_intent = Some ''wanted'', is_location = None\<rparr>]\<rparr>)"
  by code_simp

theorem want_goes_to_owner_witness:
  "\<exists>l'. queue_issue demo_lib ''9'' ''op'' = Inr (Some ''annual'', l') \<and> owner_kind demo_lib ''9'' = ''annual''"
  using demo_lib_want want_goes_to_owner [OF demo_lib_want] by metis

end
