(* ===== verification/Reconcile.thy ===== *)
theory Reconcile
  imports AttentionPolicy Obligation
begin

text \<open>
  \<open>comicarr/app/attention/_reconciliation.py\<close> and \<open>_recording.py\<close>: a failure reason hidden from the
  operator's band is owed a re-want of its issue, and, when the release itself is dead, a blocklist entry;
  recording a terminal outcome writes the journal and pays that debt in one transaction.
\<close>

section \<open>State and arguments\<close>

record failed_row =
  fr_status :: string
  fr_comicname :: pval
  fr_issue_number :: pval
  fr_issueid :: "string option"
  fr_comicid :: pval
  fr_date :: string

text \<open>The library tables an intent is written to, and the \<open>failed\<close> table by its unique key
  (ID, Provider, NZBName).\<close>

record rstate =
  rs_lib :: olib
  rs_failed :: "((string \<times> string \<times> string) \<times> failed_row) list"

record rargs =
  ra_reason :: "string option"
  ra_issueid :: "string option"
  ra_provider :: "string option"
  ra_nzbname :: "string option"
  ra_release_id :: "string option"
  ra_hash :: "string option"
  ra_comicid :: "string option"
  ra_comicname :: "string option"
  ra_issue_number :: "string option"
  ra_payload :: pval

text \<open>The clock, \<open>json.loads\<close>, and whether the database accepts the two writes.\<close>

record renv =
  re_loads :: "string \<Rightarrow> pval option"
  re_now :: string
  re_blocklist_up :: bool
  re_rewant_up :: bool

definition RECONCILE_AUDIT_IDENTITY :: string where
  "RECONCILE_AUDIT_IDENTITY = ''system:band-actionability''"

section \<open>Reading the identity off the arguments\<close>

definition payload_dict :: "(string \<Rightarrow> pval option) \<Rightarrow> pval \<Rightarrow> payload" where
  "payload_dict loads p =
     (case p of VDict d \<Rightarrow> d
      | VStr s \<Rightarrow> if s = [] then [] else (case loads s of Some (VDict d) \<Rightarrow> d | _ \<Rightarrow> [])
      | _ \<Rightarrow> [])"

text \<open>The first key whose value is neither \<open>None\<close> nor the empty string.\<close>

fun first_filled :: "payload \<Rightarrow> string list \<Rightarrow> string option" where
  "first_filled d [] = None"
| "first_filled d (k # ks) = (if pv_empty (pv_get d k) then first_filled d ks else Some (py_str (pv_get d k)))"

definition recon_issue_id :: "(string \<Rightarrow> pval option) \<Rightarrow> rargs \<Rightarrow> string option" where
  "recon_issue_id loads a =
     (if present (ra_issueid a) then ra_issueid a
      else first_filled (payload_dict loads (ra_payload a)) [''issueid'', ''IssueID''])"

definition opt_pv :: "string option \<Rightarrow> pval" where
  "opt_pv x = (case x of None \<Rightarrow> VNone | Some s \<Rightarrow> VStr s)"

definition given_or :: "string option \<Rightarrow> pval \<Rightarrow> pval" where
  "given_or x v = (if present x then opt_pv x else v)"

definition filled_text :: "pval \<Rightarrow> string option" where
  "filled_text v = (if pv_empty v then None else Some (py_str v))"

definition release_identity :: "(string \<Rightarrow> pval option) \<Rightarrow> rargs \<Rightarrow> string option \<times> string option \<times> string option" where
  "release_identity loads a =
     (let data = payload_dict loads (ra_payload a);
          di = as_dict (pv_get data ''download_info'');
          rid = given_or (ra_release_id a)
            (pv_or (pv_or (pv_or (pv_or (pv_or (pv_get data ''ddl_id'') (pv_get data ''id'')) (pv_get di ''id''))
               (opt_pv (ra_hash a))) (pv_get data ''hash'')) VNone);
          prov = given_or (ra_provider a) (pv_or (pv_get data ''provider'') (pv_get di ''provider''));
          name = given_or (ra_nzbname a)
            (pv_or (pv_or (pv_get data ''nzbname'') (pv_get data ''filename'')) (pv_get data ''nzb_name''))
      in (filled_text rid, filled_text prov, filled_text name))"

section \<open>The two writes\<close>

definition blocklist_release ::
  "renv \<Rightarrow> rargs \<Rightarrow> string option \<Rightarrow> string \<times> string \<times> string \<Rightarrow> rstate \<Rightarrow> rstate" where
  "blocklist_release e a issueid key s =
     (let data = payload_dict (re_loads e) (ra_payload a) in
      s\<lparr>rs_failed := AList.update key
          \<lparr>fr_status = ''Failed'',
           fr_comicname = given_or (ra_comicname a) (pv_or (pv_get data ''comicname'') (pv_get data ''series'')),
           fr_issue_number = given_or (ra_issue_number a)
             (pv_or (pv_get data ''issuenumber'') (pv_get data ''Issue_Number'')),
           fr_issueid = issueid,
           fr_comicid = given_or (ra_comicid a) (pv_get data ''comicid''),
           fr_date = re_now e\<rparr> (rs_failed s)\<rparr>)"

definition entity_type_from_payload :: "(string \<Rightarrow> pval option) \<Rightarrow> pval \<Rightarrow> string option" where
  "entity_type_from_payload loads p = normalize_obligation_entity_type (pv_get (payload_dict loads p) ''mode'')"

text \<open>\<open>_rewant_issue\<close>: \<open>None\<close> is an exception of the write.\<close>

definition rewant_issue :: "renv \<Rightarrow> string \<Rightarrow> pval \<Rightarrow> rstate \<Rightarrow> (bool \<times> rstate) option" where
  "rewant_issue e i payload s =
     (if \<not> re_rewant_up e then None
      else case update_obligation_intent (rs_lib s) i RECONCILE_AUDIT_IDENTITY ''wanted''
                  (opt_pv (entity_type_from_payload (re_loads e) payload)) of
             Inl _ \<Rightarrow> None
           | Inr (kind, l) \<Rightarrow> Some (kind \<noteq> None, s\<lparr>rs_lib := l\<rparr>))"

definition needs_rewant :: "owed \<Rightarrow> bool" where
  "needs_rewant ob \<longleftrightarrow> ob \<in> {Rewant, Blocklist_and_rewant, Rewant_if_issue, Rewant_and_log}"

definition blocklist_step :: "renv \<Rightarrow> bool \<Rightarrow> rargs \<Rightarrow> string option \<Rightarrow> rstate \<Rightarrow> rstate option" where
  "blocklist_step e strict a issueid s =
     (case release_identity (re_loads e) a of
        (rid, prov, name) \<Rightarrow>
          if present rid \<and> present prov \<and> present name then
            (if re_blocklist_up e then Some (blocklist_release e a issueid (the rid, the prov, the name) s)
             else if strict then None else Some s)
          else Some s)"

definition done_status :: "owed \<Rightarrow> string" where
  "done_status ob = (if ob = Rewant_and_log then ''logged_and_rewanted''
                     else if ob = Blocklist_and_rewant then ''blocklisted_and_rewanted'' else ''rewanted'')"

definition rewant_step :: "renv \<Rightarrow> bool \<Rightarrow> rargs \<Rightarrow> owed \<Rightarrow> string option \<Rightarrow> rstate \<Rightarrow> (string \<times> rstate) option" where
  "rewant_step e strict a ob i s =
     (if \<not> needs_rewant ob then Some (done_status ob, s)
      else if \<not> present i then
        Some (if ob = Rewant_and_log then ''logged_no_issue'' else ''rewanted_no_issue'', s)
      else (case rewant_issue e (the i) (ra_payload a) s of
              None \<Rightarrow> if strict then None else Some (''rewant_failed'', s)
            | Some (ok, s2) \<Rightarrow> Some (if ok then done_status ob else ''rewant_failed'', s2)))"

text \<open>\<open>reconcile_excluded\<close>: \<open>None\<close> is an exception propagated under \<open>strict\<close>; otherwise the status string
  and the state.\<close>

definition reconcile_excluded :: "renv \<Rightarrow> bool \<Rightarrow> rargs \<Rightarrow> rstate \<Rightarrow> (string \<times> rstate) option" where
  "reconcile_excluded e strict a s =
     (case reconciliation_for (ra_reason a) of
        None \<Rightarrow> Some (''noop'', s)
      | Some ob \<Rightarrow>
          if ob = Owed_none then Some (''none'', s)
          else
            let i = recon_issue_id (re_loads e) a
            in (case (if ob = Blocklist_and_rewant then blocklist_step e strict a i s else Some s) of
                  None \<Rightarrow> None
                | Some s1 \<Rightarrow> rewant_step e strict a ob i s1))"

section \<open>Recording a terminal outcome\<close>

datatype entry_kind = Failure "string option" | ManualReview

record entry =
  en_kind :: entry_kind
  en_key :: string
  en_reason :: string
  en_payload :: pval
  en_issueid :: "string option"
  en_provider :: "string option"
  en_dtype :: "string option"
  en_nzbname :: "string option"
  en_release_id :: "string option"
  en_hash :: "string option"
  en_comicid :: "string option"
  en_comicname :: "string option"
  en_issue_number :: "string option"

record record_outcome_t =
  ro_won :: bool
  ro_base_reason :: "string option"
  ro_actionable :: bool
  ro_reconciliation :: string

definition entry_fields :: "entry \<Rightarrow> jfields" where
  "entry_fields en =
     filter (\<lambda>(c, v). present v)
       [(CIssueid, en_issueid en), (CProvider, en_provider en), (CDownloader_type, en_dtype en),
        (CNzbname, en_nzbname en), (CHash, en_hash en)]"

definition entry_args :: "entry \<Rightarrow> rargs" where
  "entry_args en =
     \<lparr>ra_reason = Some (en_reason en), ra_issueid = en_issueid en, ra_provider = en_provider en,
      ra_nzbname = en_nzbname en, ra_release_id = en_release_id en, ra_hash = en_hash en,
      ra_comicid = en_comicid en, ra_comicname = en_comicname en, ra_issue_number = en_issue_number en,
      ra_payload = en_payload en\<rparr>"

text \<open>The journal write of an entry, in the caller's transaction.\<close>

definition entry_transition :: "jenv \<Rightarrow> jrow option \<Rightarrow> jstate \<Rightarrow> entry \<Rightarrow> string \<Rightarrow> jerror + bool \<times> jstate" where
  "entry_transition je race j en when =
     (case en_kind en of
        Failure resolved_as \<Rightarrow>
          mark_failed je race j (en_key en) (Some (en_reason en)) (en_payload en)
            (entry_fields en @ (case resolved_as of None \<Rightarrow> [] | Some st \<Rightarrow> [(CStatus, Some st)])) when
      | ManualReview \<Rightarrow>
          mark_manual_review je race j (en_key en) (en_reason en) (en_payload en) (entry_fields en) when)"

definition record_on_connection ::
  "jenv \<Rightarrow> renv \<Rightarrow> jrow option \<Rightarrow> entry \<Rightarrow> jstate \<times> rstate \<Rightarrow> jerror + record_outcome_t \<times> jstate \<times> rstate" where
  "record_on_connection je e race en s =
     (case entry_transition je race (fst s) en (re_now e) of
        Inl err \<Rightarrow> Inl err
      | Inr (won, j) \<Rightarrow>
          (case reconcile_excluded e True (entry_args en) (snd s) of
             None \<Rightarrow> Inl JOperationalError
           | Some (st, r) \<Rightarrow>
               Inr (\<lparr>ro_won = won, ro_base_reason = base_reason (Some (en_reason en)),
                     ro_actionable = is_actionable (Some (en_reason en)), ro_reconciliation = st\<rparr>, j, r)))"

text \<open>\<open>record\<close> without a connection: one transaction of its own, tried again on a locked database (or one
  that cannot be opened), at most five times.  A raised call is rolled back as a whole.\<close>

definition record_entry ::
  "jenv \<Rightarrow> renv \<Rightarrow> attempt list \<Rightarrow> jrow option \<Rightarrow> entry \<Rightarrow> jstate \<times> rstate
   \<Rightarrow> jerror + record_outcome_t \<times> jstate \<times> rstate" where
  "record_entry je e as race en s = own_attempts 5 as (record_on_connection je e race en s)"

definition after_record :: "jstate \<times> rstate \<Rightarrow> jerror + record_outcome_t \<times> jstate \<times> rstate \<Rightarrow> jstate \<times> rstate" where
  "after_record s x = (case x of Inl _ \<Rightarrow> s | Inr (_, s') \<Rightarrow> s')"

section \<open>Cleaning up phantom issue rows\<close>

text \<open>SQL's three-valued logic: \<open>x IN (SELECT ...)\<close> is unknown when nothing matches and the list holds a
  NULL; a row is selected only when its condition is true.\<close>

definition sql_in :: "string option \<Rightarrow> string option list \<Rightarrow> bool option" where
  "sql_in x ys =
     (if ys = [] then Some False
      else case x of None \<Rightarrow> None
      | Some v \<Rightarrow> if Some v \<in> set ys then Some True else if None \<in> set ys then None else Some False)"

fun sql_or :: "bool option \<Rightarrow> bool option \<Rightarrow> bool option" where
  "sql_or (Some True) b = Some True"
| "sql_or a (Some True) = Some True"
| "sql_or (Some False) (Some False) = Some False"
| "sql_or a b = None"

fun sql_and :: "bool option \<Rightarrow> bool option \<Rightarrow> bool option" where
  "sql_and (Some False) b = Some False"
| "sql_and a (Some False) = Some False"
| "sql_and (Some True) (Some True) = Some True"
| "sql_and a b = None"

definition sql_not :: "bool option \<Rightarrow> bool option" where
  "sql_not a = map_option Not a"

text \<open>The issues table with its nullable id, and the ids the other tables hold.\<close>

record ph_db =
  ph_issues :: "(string option \<times> string option) list"
  ph_annuals :: "string option list"
  ph_storyarcs :: "string option list"
  ph_snatched :: "string option list"
  ph_nzblog :: "string option list"
  ph_run_items :: "string option list"
  ph_backup :: "(string option \<times> string option) list"

definition phantom_filter :: "ph_db \<Rightarrow> string option \<times> string option \<Rightarrow> bool" where
  "phantom_filter d row =
     (let i = fst row;
          referenced = sql_or (sql_or (sql_in i (ph_snatched d)) (sql_in i (ph_nzblog d))) (sql_in i (ph_run_items d))
      in sql_and (sql_and (Some (snd row = None))
             (sql_or (sql_in i (ph_annuals d)) (sql_in i (ph_storyarcs d))))
           (sql_not referenced) = Some True)"

text \<open>The copy is selected with EXISTS, which is never unknown: \<open>a = b\<close> on a NULL just does not match.\<close>

definition sql_exists :: "string option \<Rightarrow> string option list \<Rightarrow> bool" where
  "sql_exists x ys = (x \<noteq> None \<and> x \<in> set ys)"

definition phantom_copied :: "ph_db \<Rightarrow> string option \<times> string option \<Rightarrow> bool" where
  "phantom_copied d row =
     (let i = fst row in
      snd row = None \<and> (sql_exists i (ph_annuals d) \<or> sql_exists i (ph_storyarcs d))
      \<and> \<not> (sql_exists i (ph_snatched d) \<or> sql_exists i (ph_nzblog d) \<or> sql_exists i (ph_run_items d)))"

definition cleanup_phantom_issue_rows :: "ph_db \<Rightarrow> (nat \<times> nat) \<times> ph_db" where
  "cleanup_phantom_issue_rows d =
     (let count = length (filter (phantom_filter d) (ph_issues d)) in
      if count = 0 then ((0, 0), d)
      else ((count, length (filter (phantom_filter d) (ph_issues d))),
            d\<lparr>ph_backup := ph_backup d @ filter (phantom_copied d) (ph_issues d),
              ph_issues := filter (\<lambda>r. \<not> phantom_filter d r) (ph_issues d)\<rparr>))"

end
