(* ===== verification/ReconcileProps.thy ===== *)
theory ReconcileProps
  imports Reconcile JournalProps
begin

text \<open>What the admission policy, the reconciliation of excluded reasons, the recording of terminal outcomes and
  the clean-up of phantom issue rows guarantee, and where they fall short.\<close>

section \<open>Admission\<close>

text \<open>C20: For every failure reason the code knows, written without surrounding white space, the SQL condition
  that fills the band and the Python test that decides on reconciliation agree, on every database whose LIKE
  distinguishes characters at most up to case: no known reason is both hidden from the operator and not
  reconciled, or shown and reconciled.\<close>

theorem admission_agrees:
  assumes "case_only same" and "py_strip r = r" and "base_reason (Some r) = Some t"
    and "t \<in> set KNOWN_BASE_TOKENS"
  shows "actionable_reason_condition same (Some r) = is_actionable (Some r)"
proof -
  have t: "t = takeWhile (\<lambda>x. x \<noteq> CHR '':'') r"
    using assms(2,3) by (auto simp: base_reason_def hd_py_split split: if_splits)
  define u where "u = dropWhile (\<lambda>x. x \<noteq> CHR '':'') r"
  have r: "r = t @ u" by (simp add: t u_def)
  have u: "u = [] \<or> hd u = CHR '':''"
    unfolding u_def using hd_dropWhile [of "\<lambda>x. x \<noteq> CHR '':''" r] by blast
  have nc: "CHR '':'' \<notin> set t" unfolding t using set_takeWhileD by fastforce
  have apart: "CHR ''%'' \<notin> set b" "CHR '':'' \<notin> set b" "wild_prefix t b \<Longrightarrow> t = b"
    if "b \<in> set non_actionable_tokens" for b
    using that known_tokens_apart assms(4) by (auto simp: list_all_iff)
  have like: "sql_like same (b @ '':%'') r \<longleftrightarrow> b = t \<and> u \<noteq> []" if b: "b \<in> set non_actionable_tokens" for b
  proof
    assume l: "sql_like same (b @ '':%'') r"
    have "t = b" using like_needs_wild_prefix [OF assms(1) apart(1) [OF b] nc l [unfolded r] u] apart(3) [OF b] by blast
    moreover have "u \<noteq> []"
    proof
      assume "u = []"
      with l r \<open>t = b\<close> have "sql_like same (b @ '':%'') b" by simp
      then show False using like_needs_colon apart(1) [OF b] by blast
    qed
    ultimately show "b = t \<and> u \<noteq> []" by simp
  next
    assume "b = t \<and> u \<noteq> []"
    then have "r = b @ CHR '':'' # tl u" using r u by (cases u) auto
    then show "sql_like same (b @ '':%'') r" using like_own_token [OF assms(1) apart(1) [OF b]] by simp
  qed
  have mem: "r \<in> set non_actionable_tokens \<Longrightarrow> u = []"
    using apart(2) [of r] u r by (cases u) auto
  have "actionable_reason_condition same (Some r) \<longleftrightarrow> t \<notin> set non_actionable_tokens"
    using like mem r by (auto simp: actionable_reason_condition_def list_ex_iff)
  also have "\<dots> = is_actionable (Some r)"
    using assms(3) by (simp add: is_actionable_def non_actionable_tokens_def)
  finally show ?thesis .
qed

theorem admission_agrees_witness:
  "\<not> actionable_reason_condition (=) (Some ''ddl_stalled:part 3'')
   \<and> actionable_reason_condition (=) (Some ''submission_rejected:http 500'')"
proof -
  have c: "case_only (=)" by (simp add: case_only_def)
  have "py_strip ''ddl_stalled:part 3'' = ''ddl_stalled:part 3''"
    and "base_reason (Some ''ddl_stalled:part 3'') = Some ''ddl_stalled''"
    and "''ddl_stalled'' \<in> set KNOWN_BASE_TOKENS"
    and 1: "\<not> is_actionable (Some ''ddl_stalled:part 3'')" by code_simp+
  note x = admission_agrees [OF c this(1,2,3)]
  have "py_strip ''submission_rejected:http 500'' = ''submission_rejected:http 500''"
    and "base_reason (Some ''submission_rejected:http 500'') = Some ''submission_rejected''"
    and "''submission_rejected'' \<in> set KNOWN_BASE_TOKENS"
    and 2: "is_actionable (Some ''submission_rejected:http 500'')" by code_simp+
  note y = admission_agrees [OF c this(1,2,3)]
  show ?thesis using x y 1 2 by blast
qed

text \<open>Outside the known reasons the two tests disagree: an underscore of a hidden token is a wildcard of
  LIKE, so an unknown reason that should reach the operator is hidden, and a known hidden reason with leading
  white space is shown although it is reconciled.\<close>

theorem admission_disagrees:
  "is_actionable (Some ''ddl-stalled:x'') \<and> \<not> actionable_reason_condition (=) (Some ''ddl-stalled:x'')
   \<and> \<not> is_actionable (Some '' ddl_stalled'') \<and> actionable_reason_condition (=) (Some '' ddl_stalled'')"
  by code_simp

section \<open>Reconciliation\<close>

lemma release_identity_irrelevant: "rs_lib (blocklist_release e a i k s) = rs_lib s"
  by (simp add: blocklist_release_def Let_def)

lemma blocklist_step_lib: "blocklist_step e strict a i s = Some s' \<Longrightarrow> rs_lib s' = rs_lib s"
  by (auto simp: blocklist_step_def release_identity_irrelevant split: prod.splits if_splits)

lemma wanted_values: "explicit_intent_values (Some (py_lower ''wanted'')) (Some RECONCILE_AUDIT_IDENTITY) = Inr (''wanted'', ''Wanted'')"
  by code_simp

lemma rewant_issue_effect:
  assumes "rewant_issue e i p s = Some (ok, s')"
  shows "(if ok then row_written (rs_lib s') i ''Wanted'' else rs_lib s' = rs_lib s) \<and> rs_failed s' = rs_failed s"
proof -
  obtain kind where u: "update_obligation_intent (rs_lib s) i RECONCILE_AUDIT_IDENTITY ''wanted''
        (opt_pv (entity_type_from_payload (re_loads e) p)) = Inr (kind, rs_lib s')"
    and k: "ok = (kind \<noteq> None)" "rs_failed s' = rs_failed s"
    using assms by (auto simp: rewant_issue_def split: if_splits sum.splits)
  show ?thesis
  proof (cases kind)
    case None
    with u k show ?thesis using update_obligation_result(3) by auto
  next
    case (Some x)
    from update_obligation_written [OF u [unfolded Some] wanted_values] k Some show ?thesis by simp
  qed
qed

definition says_rewanted :: "string \<Rightarrow> bool" where
  "says_rewanted st \<longleftrightarrow> st \<in> {''rewanted'', ''blocklisted_and_rewanted'', ''logged_and_rewanted''}"

lemma rewant_step_effect:
  assumes "rewant_step e strict a ob i s1 = Some (st, s')" and "ob \<noteq> Owed_none"
  shows "(if says_rewanted st then present i \<and> row_written (rs_lib s') (the i) ''Wanted'' else rs_lib s' = rs_lib s1)
    \<and> rs_failed s' = rs_failed s1"
proof -
  have nr: "needs_rewant ob" using assms(2) by (cases ob) (simp_all add: needs_rewant_def)
  have d: "says_rewanted (done_status ob)" by (simp add: says_rewanted_def done_status_def)
  have f: "\<not> says_rewanted ''rewant_failed''" "\<not> says_rewanted ''logged_no_issue''" "\<not> says_rewanted ''rewanted_no_issue''"
    by (simp_all add: says_rewanted_def)
  consider (noissue) "\<not> present i" | (raised) "present i" "rewant_issue e (the i) (ra_payload a) s1 = None"
    | (ran) ok s2 where "present i" "rewant_issue e (the i) (ra_payload a) s1 = Some (ok, s2)" by fastforce
  then show ?thesis
  proof cases
    case noissue
    then show ?thesis using assms(1) nr f by (auto simp: rewant_step_def split: if_splits)
  next
    case raised
    then show ?thesis using assms(1) nr f by (auto simp: rewant_step_def split: if_splits)
  next
    case ran
    have "s' = s2" and "st = (if ok then done_status ob else ''rewant_failed'')"
      using assms(1) nr ran by (auto simp: rewant_step_def)
    then show ?thesis using rewant_issue_effect [OF ran(2)] ran(1) d f by (cases ok) simp_all
  qed
qed

text \<open>A successful call either owed nothing or ran the two steps.\<close>

lemma reconcile_cases [consumes 1, case_names quiet owes]:
  assumes "reconcile_excluded e strict a s = Some (st, s')"
  obtains "s' = s" "st \<in> {''noop'', ''none''}"
    "reconciliation_for (ra_reason a) \<in> {None, Some Owed_none}"
  | ob s1 where "reconciliation_for (ra_reason a) = Some ob" "ob \<noteq> Owed_none"
    "(if ob = Blocklist_and_rewant then blocklist_step e strict a (recon_issue_id (re_loads e) a) s else Some s) = Some s1"
    "rewant_step e strict a ob (recon_issue_id (re_loads e) a) s1 = Some (st, s')"
  using assms unfolding reconcile_excluded_def Let_def
  by (auto split: option.splits if_splits)

text \<open>The status a reconciliation returns is true of the library: if it says the issue was re-wanted, the
  library row of the issue named by the arguments, or by the payload, has status Wanted; any other status
  leaves the library tables as they were.\<close>

theorem reconcile_status_is_true:
  assumes "reconcile_excluded e strict a s = Some (st, s')"
  shows "if says_rewanted st
    then present (recon_issue_id (re_loads e) a) \<and> row_written (rs_lib s') (the (recon_issue_id (re_loads e) a)) ''Wanted''
    else rs_lib s' = rs_lib s"
  using assms
proof (cases rule: reconcile_cases)
  case quiet
  then show ?thesis by (auto simp: says_rewanted_def)
next
  case (owes ob s1)
  have "rs_lib s1 = rs_lib s" using owes(3) by (auto dest: blocklist_step_lib split: if_splits)
  then show ?thesis using rewant_step_effect [OF owes(4,2)] by simp
qed

definition demo_renv :: renv where
  "demo_renv = \<lparr>re_loads = (\<lambda>_. None), re_now = ''2026-01-02'', re_blocklist_up = True, re_rewant_up = True\<rparr>"

definition demo_gone :: rargs where
  "demo_gone = \<lparr>ra_reason = Some ''download_gone'', ra_issueid = Some ''9'', ra_provider = Some ''ddl'',
     ra_nzbname = Some ''n'', ra_release_id = Some ''77'', ra_hash = None, ra_comicid = None,
     ra_comicname = None, ra_issue_number = None, ra_payload = VNone\<rparr>"

definition demo_rstate :: rstate where
  "demo_rstate = \<lparr>rs_lib = demo_lib, rs_failed = []\<rparr>"

definition demo_gone_end :: "string \<times> rstate" where
  "demo_gone_end = the (reconcile_excluded demo_renv True demo_gone demo_rstate)"

lemma demo_gone_run: "reconcile_excluded demo_renv True demo_gone demo_rstate = Some (fst demo_gone_end, snd demo_gone_end)"
  by code_simp

theorem reconcile_status_is_true_witness:
  "fst demo_gone_end = ''blocklisted_and_rewanted'' \<and> row_written (rs_lib (snd demo_gone_end)) ''9'' ''Wanted''"
proof -
  have 1: "fst demo_gone_end = ''blocklisted_and_rewanted''" by code_simp
  have 2: "recon_issue_id (re_loads demo_renv) demo_gone = Some ''9''" by code_simp
  show ?thesis
    using reconcile_status_is_true [OF demo_gone_run] 1 2 by (simp add: says_rewanted_def)
qed

text \<open>The same status also claims a blocklist entry that need not exist: with no release id, provider or
  name to key it on, or with a failing write outside a strict call, the call still answers
  \<open>blocklisted_and_rewanted\<close> and the dead release can be snatched again.\<close>

theorem blocklist_status_misreports:
  "(\<exists>s'. reconcile_excluded demo_renv True (demo_gone\<lparr>ra_release_id := None\<rparr>) demo_rstate
           = Some (''blocklisted_and_rewanted'', s') \<and> rs_failed s' = [])
   \<and> (\<exists>s'. reconcile_excluded (demo_renv\<lparr>re_blocklist_up := False\<rparr>) False demo_gone demo_rstate
           = Some (''blocklisted_and_rewanted'', s') \<and> rs_failed s' = [])"
proof -
  let ?a = "the (reconcile_excluded demo_renv True (demo_gone\<lparr>ra_release_id := None\<rparr>) demo_rstate)"
  let ?b = "the (reconcile_excluded (demo_renv\<lparr>re_blocklist_up := False\<rparr>) False demo_gone demo_rstate)"
  have "reconcile_excluded demo_renv True (demo_gone\<lparr>ra_release_id := None\<rparr>) demo_rstate
      = Some (''blocklisted_and_rewanted'', snd ?a)" and "rs_failed (snd ?a) = []" by code_simp+
  moreover have "reconcile_excluded (demo_renv\<lparr>re_blocklist_up := False\<rparr>) False demo_gone demo_rstate
      = Some (''blocklisted_and_rewanted'', snd ?b)" and "rs_failed (snd ?b) = []" by code_simp+
  ultimately show ?thesis by blast
qed

section \<open>Reconciling again changes nothing\<close>

lemma update_twice: "AList.update k v (AList.update k v xs) = AList.update k v xs"
  by (induction xs) auto

lemma blocklist_step_twice:
  "blocklist_step e strict a i s = Some s1 \<Longrightarrow> rs_failed s2 = rs_failed s1 \<Longrightarrow> blocklist_step e strict a i s2 = Some s2"
  by (cases s2) (auto simp: blocklist_step_def blocklist_release_def Let_def update_twice split: prod.splits if_splits)

lemma rewant_issue_twice:
  assumes "rewant_issue e i p s = Some (ok, s')"
  shows "rewant_issue e i p s' = Some (ok, s')"
proof -
  obtain kind where u: "update_obligation_intent (rs_lib s) i RECONCILE_AUDIT_IDENTITY ''wanted''
        (opt_pv (entity_type_from_payload (re_loads e) p)) = Inr (kind, rs_lib s')"
    and k: "ok = (kind \<noteq> None)" "re_rewant_up e"
    using assms by (auto simp: rewant_issue_def split: if_splits sum.splits)
  show ?thesis using update_obligation_twice [OF u] k by (simp add: rewant_issue_def)
qed

lemma rewant_step_twice:
  "rewant_step e strict a ob i s1 = Some (st, s') \<Longrightarrow> rewant_step e strict a ob i s' = Some (st, s')"
  by (auto simp: rewant_step_def rewant_issue_twice split: if_splits option.splits prod.splits)

text \<open>Reconciling the same reason a second time, as the one-shot pass over old rows does after a restart,
  answers the same status and changes neither the library nor the blocklist.\<close>

theorem reconcile_is_idempotent:
  assumes "reconcile_excluded e strict a s = Some (st, s')"
  shows "reconcile_excluded e strict a s' = Some (st, s')"
  using assms
proof (cases rule: reconcile_cases)
  case quiet
  then show ?thesis using assms by simp
next
  case (owes ob s1)
  have "rs_failed s' = rs_failed s1" using rewant_step_effect [OF owes(4,2)] by simp
  then have "(if ob = Blocklist_and_rewant then blocklist_step e strict a (recon_issue_id (re_loads e) a) s'
      else Some s') = Some s'"
    using owes(3) blocklist_step_twice by (auto split: if_splits)
  then show ?thesis
    using owes(1,2) rewant_step_twice [OF owes(4)] by (simp add: reconcile_excluded_def)
qed

theorem reconcile_is_idempotent_witness:
  "reconcile_excluded demo_renv True demo_gone (snd demo_gone_end) = Some demo_gone_end"
  using reconcile_is_idempotent [OF demo_gone_run] by simp

section \<open>Recording\<close>

lemma own_attempts_Inr: "own_attempts n as body = Inr x \<Longrightarrow> body = Inr x"
  by (induction n as body rule: own_attempts.induct) auto

lemma rewant_step_finds:
  assumes "rewant_step e True a ob (Some i) s1 = Some (st, s')" and "ob \<noteq> Owed_none" and "i \<noteq> []"
    and "resolve_obligation_target (rs_lib s1) i (opt_pv (entity_type_from_payload (re_loads e) (ra_payload a))) \<noteq> None"
  shows "says_rewanted st"
proof -
  have nr: "needs_rewant ob" using assms(2) by (cases ob) (simp_all add: needs_rewant_def)
  obtain ok s2 where w: "rewant_issue e i (ra_payload a) s1 = Some (ok, s2)"
    using assms(1,3) nr by (auto simp: rewant_step_def split: option.splits)
  then have "ok"
    using assms(4) update_obligation_result(2) by (fastforce simp: rewant_issue_def split: if_splits sum.splits)
  then show ?thesis using assms(1,3) nr w by (auto simp: rewant_step_def says_rewanted_def done_status_def split: if_splits)
qed


definition demo_entry :: entry where
  "demo_entry = \<lparr>en_kind = Failure None, en_key = ''9|ddl'', en_reason = ''download_gone'', en_payload = VNone,
     en_issueid = Some ''9'', en_provider = Some ''ddl'', en_dtype = None, en_nzbname = Some ''n'',
     en_release_id = Some ''77'', en_hash = None, en_comicid = None, en_comicname = None, en_issue_number = None\<rparr>"

definition placed_lib :: olib where
  "placed_lib = \<lparr>ol_issues = [\<lparr>is_id = ''9'', is_comicid = Some ''7'', is_deleted = None,
     is_status = Some ''Downloaded'', is_intent = None, is_location = Some ''/lib/9.cbz''\<rparr>], ol_annuals = [], ol_storyarcs = []\<rparr>"

definition settled :: "stage \<Rightarrow> jstate \<times> rstate" where
  "settled st = (\<lparr>js_rows = [(''9|ddl'', (blank_row st ''2026-01-01'' PNull)\<lparr>jr_issueid := Some ''9''\<rparr>)],
     js_obligations = [], js_activity = []\<rparr>, \<lparr>rs_lib = placed_lib, rs_failed = []\<rparr>)"

definition demo_record :: "stage \<Rightarrow> jerror + record_outcome_t \<times> jstate \<times> rstate" where
  "demo_record st = record_entry demo_env demo_renv [ALocked] None demo_entry (settled st)"

definition demo_result :: "stage \<Rightarrow> record_outcome_t \<times> jstate \<times> rstate" where
  "demo_result st = projr (demo_record st)"

lemma demo_record_Snatched:
  "demo_record Snatched = Inr (fst (demo_result Snatched), fst (snd (demo_result Snatched)), snd (snd (demo_result Snatched)))"
proof -
  have "isl (demo_record Snatched) = False" by code_simp
  then show ?thesis by (cases "demo_record Snatched") (auto simp: demo_result_def)
qed


text \<open>Reconciliation does not ask who won: a failure reported late, for a release another worker has already
  post-processed, loses the journal transition and changes no journal row, yet the downloaded issue is set back
  to Wanted and its good release is blocklisted.\<close>

theorem late_failure_rewants_done_issue:
  "let r = demo_result Post_processed in
     \<not> ro_won (fst r) \<and> fst (snd r) = fst (settled Post_processed)
     \<and> row_written (rs_lib (snd (settled Post_processed))) ''9'' ''Downloaded''
     \<and> row_written (rs_lib (snd (snd r))) ''9'' ''Wanted''
     \<and> \<not> row_written (rs_lib (snd (snd r))) ''9'' ''Downloaded''
     \<and> map fst (rs_failed (snd (snd r))) = [(''77'', ''ddl'', ''n'')]"
proof -
  let ?r = "demo_result Post_processed"
  have "\<not> ro_won (fst ?r)" by code_simp
  moreover have "js_rows (fst (snd ?r)) = js_rows (fst (settled Post_processed))
      \<and> js_obligations (fst (snd ?r)) = [] \<and> js_activity (fst (snd ?r)) = []" by code_simp
  then have "fst (snd ?r) = fst (settled Post_processed)"
    by (cases "fst (snd ?r)") (simp add: settled_def)
  moreover have "row_written (rs_lib (snd (settled Post_processed))) ''9'' ''Downloaded''" by code_simp
  moreover have "row_written (rs_lib (snd (snd ?r))) ''9'' ''Wanted''" by code_simp
  moreover have "\<not> row_written (rs_lib (snd (snd ?r))) ''9'' ''Downloaded''" by code_simp
  moreover have "map fst (rs_failed (snd (snd ?r))) = [(''77'', ''ddl'', ''n'')]" by code_simp
  ultimately show ?thesis by (simp add: Let_def)
qed

section \<open>Phantom issue rows\<close>

definition ph_references :: "ph_db \<Rightarrow> string option list" where
  "ph_references d = ph_snatched d @ ph_nzblog d @ ph_run_items d"

lemma sql_in_known: "None \<notin> set ys \<Longrightarrow> sql_in (Some v) ys = Some (Some v \<in> set ys)"
  by (auto simp: sql_in_def)

lemma sql_or_known [simp]: "sql_or (Some a) (Some b) = Some (a \<or> b)"
  by (cases a; cases b) simp_all

lemma sql_or_True: "sql_or a b = Some True \<longleftrightarrow> a = Some True \<or> b = Some True"
  by (cases "(a, b)" rule: sql_or.cases) auto

lemma sql_and_True: "sql_and a b = Some True \<longleftrightarrow> a = Some True \<and> b = Some True"
  by (cases "(a, b)" rule: sql_and.cases) auto

lemma sql_or_False: "sql_or a b = Some False \<longleftrightarrow> a = Some False \<and> b = Some False"
  by (cases "(a, b)" rule: sql_or.cases) auto

lemma sql_in_True: "sql_in x ys = Some True \<longleftrightarrow> x \<noteq> None \<and> x \<in> set ys"
  by (auto simp: sql_in_def split: option.splits)

lemma sql_in_False: "sql_in x ys = Some False \<longleftrightarrow> ys = [] \<or> (x \<noteq> None \<and> x \<notin> set ys \<and> None \<notin> set ys)"
  by (auto simp: sql_in_def split: option.splits)

lemma sql_not_True: "sql_not a = Some True \<longleftrightarrow> a = Some False"
  by (cases a) (auto simp: sql_not_def)

lemmas sql3 = sql_or_True sql_and_True sql_or_False sql_in_True sql_in_False sql_not_True

lemma phantom_filter_iff:
  "phantom_filter d row \<longleftrightarrow> phantom_copied d row \<and> None \<notin> set (ph_references d)"
  by (cases "fst row") (auto simp: phantom_filter_def phantom_copied_def sql_exists_def ph_references_def Let_def sql3)

text \<open>When no reference column holds a NULL, the clean-up removes exactly the phantom issue rows nothing
  refers to, and every removed row is in the backup table before it goes.\<close>

theorem phantom_cleanup_exact:
  assumes "None \<notin> set (ph_references d)"
  shows "case cleanup_phantom_issue_rows d of ((copied, deleted), d') \<Rightarrow>
    ph_issues d' = filter (\<lambda>r. \<not> phantom_copied d r) (ph_issues d)
    \<and> ph_backup d' = ph_backup d @ filter (phantom_copied d) (ph_issues d)
    \<and> copied = length (filter (phantom_copied d) (ph_issues d)) \<and> deleted = copied"
proof -
  have "phantom_filter d = phantom_copied d" using assms phantom_filter_iff by blast
  then show ?thesis
    by (auto simp: cleanup_phantom_issue_rows_def Let_def filter_empty_conv filter_id_conv)
qed

definition demo_ph :: "string option list \<Rightarrow> ph_db" where
  "demo_ph sn = \<lparr>ph_issues = [(Some ''9'', None), (Some ''1'', Some ''7'')], ph_annuals = [Some ''9''], ph_storyarcs = [],
     ph_snatched = sn, ph_nzblog = [], ph_run_items = [Some ''4''], ph_backup = []\<rparr>"

theorem phantom_cleanup_exact_witness:
  "ph_issues (snd (cleanup_phantom_issue_rows (demo_ph [Some ''3'']))) = [(Some ''1'', Some ''7'')]
   \<and> ph_backup (snd (cleanup_phantom_issue_rows (demo_ph [Some ''3'']))) = [(Some ''9'', None)]"
proof -
  have 1: "None \<notin> set (ph_references (demo_ph [Some ''3'']))"
    by (simp add: demo_ph_def ph_references_def)
  show ?thesis
    using phantom_cleanup_exact [OF 1]
    by (simp add: case_prod_beta demo_ph_def phantom_copied_def sql_exists_def Let_def)
qed

text \<open>One NULL in a reference column, which the schema allows for the issue ids of the snatched and nzblog
  tables, makes the exclusion test unknown for every row: the clean-up then does nothing at all.\<close>

theorem phantom_cleanup_blocked_by_null:
  assumes "None \<in> set (ph_references d)"
  shows "cleanup_phantom_issue_rows d = ((0, 0), d)"
  using assms phantom_filter_iff by (simp add: cleanup_phantom_issue_rows_def)

theorem phantom_cleanup_blocked_by_null_witness:
  "cleanup_phantom_issue_rows (demo_ph [None, Some ''3'']) = ((0, 0), demo_ph [None, Some ''3''])"
  by (rule phantom_cleanup_blocked_by_null) (simp add: demo_ph_def ph_references_def)

end
