(* ===== verification/TextOrder.thy ===== *)
theory TextOrder
  imports JournalAdmin "HOL-Library.Multiset"
begin

text \<open>
  Stable descending sorting: Python's \<open>sorted(..., key=f, reverse=True)\<close> and SQL's \<open>ORDER BY ... DESC\<close> on
  text keys.  The client of an order needs only that it is total and transitive; the orders in use are the
  text order on stored time stamps and the lexicographic order on pairs of texts.
\<close>

fun ins_desc :: "('k \<Rightarrow> 'k \<Rightarrow> bool) \<Rightarrow> ('a \<Rightarrow> 'k) \<Rightarrow> 'a \<Rightarrow> 'a list \<Rightarrow> 'a list" where
  "ins_desc le f x [] = [x]"
| "ins_desc le f x (y # ys) = (if le (f y) (f x) then x # y # ys else y # ins_desc le f x ys)"

definition sort_desc :: "('k \<Rightarrow> 'k \<Rightarrow> bool) \<Rightarrow> ('a \<Rightarrow> 'k) \<Rightarrow> 'a list \<Rightarrow> 'a list" where
  "sort_desc le f xs = foldr (ins_desc le f) xs []"

definition pair_le :: "string \<times> string \<Rightarrow> string \<times> string \<Rightarrow> bool" where
  "pair_le a b = (if fst a = fst b then str_le (snd a) (snd b) else str_le (fst a) (fst b))"

lemma mset_ins_desc: "mset (ins_desc le f x xs) = {#x#} + mset xs"
  by (induction xs) auto

lemma mset_sort_desc [simp]: "mset (sort_desc le f xs) = mset xs"
  by (induction xs) (simp_all add: sort_desc_def mset_ins_desc)

lemma set_sort_desc [simp]: "set (sort_desc le f xs) = set xs"
  by (rule mset_eq_setD) simp

lemma length_sort_desc [simp]: "length (sort_desc le f xs) = length xs"
  by (rule mset_eq_length) simp

locale text_order =
  fixes le :: "'k \<Rightarrow> 'k \<Rightarrow> bool"
  assumes trans: "le a b \<Longrightarrow> le b c \<Longrightarrow> le a c"
    and connex: "le a b \<or> le b a"
begin

lemma set_ins_desc: "set (ins_desc le f x xs) = insert x (set xs)"
  by (induction xs) auto

lemma ins_desc_sorted:
  "sorted_wrt (\<lambda>x y. le (f y) (f x)) xs \<Longrightarrow> sorted_wrt (\<lambda>x y. le (f y) (f x)) (ins_desc le f a xs)"
proof (induction xs)
  case (Cons y ys)
  then show ?case using connex [of "f a" "f y"] by (auto simp: set_ins_desc intro: trans)
qed simp

lemma sort_desc_sorted: "sorted_wrt (\<lambda>x y. le (f y) (f x)) (sort_desc le f xs)"
  by (induction xs) (simp_all add: sort_desc_def ins_desc_sorted)

text \<open>The first element is the largest.\<close>

lemma sort_desc_hd: "x \<in> set xs \<Longrightarrow> le (f x) (f (hd (sort_desc le f xs)))"
proof -
  assume x: "x \<in> set xs"
  then have "x \<in> set (sort_desc le f xs)" by simp
  then obtain y ys where c: "sort_desc le f xs = y # ys" by (cases "sort_desc le f xs") auto
  have "le (f y) (f y)" using connex by blast
  then show ?thesis using sort_desc_sorted [of f xs] \<open>x \<in> set (sort_desc le f xs)\<close> c by auto
qed

end

lemma str_le_antisym: "str_le a b \<Longrightarrow> str_le b a \<Longrightarrow> a = b"
  by (induction a b rule: str_le.induct) (auto simp: str_le.simps elim: str_le.elims)

lemma pair_le_trans: "pair_le a b \<Longrightarrow> pair_le b c \<Longrightarrow> pair_le a c"
  by (auto simp: pair_le_def split: if_splits dest: str_le_trans str_le_antisym)

lemma pair_le_total: "pair_le a b \<or> pair_le b a"
  using str_le_total [of "fst a" "fst b"] str_le_total [of "snd a" "snd b"] by (auto simp: pair_le_def)

interpretation dates: text_order str_le
  by unfold_locales (rule str_le_trans str_le_total; assumption?)+

interpretation pairs: text_order pair_le
  by unfold_locales (rule pair_le_trans pair_le_total; assumption?)+

end
