(* ===== verification/Resolve.thy ===== *)
theory Resolve
  imports Reconcile TextOrder
begin

text \<open>
  \<open>comicarr/app/attention/_resolution.py\<close>: one operator command on one or many rows of the band.  The journal is
  the state the command owns; everything it asks of other modules goes through the \<open>effects\<close> object, an
  argument of the source's \<open>_resolve\<close>, here a record of functions on a world \<open>'w\<close> in which \<open>None\<close> is a raised
  exception.  A raised exception ends the command; what was written before it stays.
\<close>

section \<open>Contracts\<close>

record health =
  he_success :: bool
  he_error :: "string option"
  he_message :: "string option"

record search_result =
  se_success :: bool
  se_status :: "string option"
  se_error :: "string option"
  se_message :: "string option"
  se_run_id :: "string option"

record import_item =
  im_name :: pval
  im_folder :: pval
  im_issueid :: pval
  im_comicid :: pval
  im_ddl :: bool
  im_oneoff :: bool
  im_provider :: pval
  im_key :: string

record import_result =
  ir_success :: bool
  ir_problem :: "string option"
  ir_message :: "string option"

record 'w effects =
  ef_health :: "'w \<Rightarrow> health option \<times> 'w"
  ef_rewant :: "string \<Rightarrow> string \<Rightarrow> string option \<Rightarrow> 'w \<Rightarrow> (bool \<times> string option) option \<times> 'w"
  ef_search :: "string \<Rightarrow> string \<Rightarrow> string option \<Rightarrow> 'w \<Rightarrow> search_result option \<times> 'w"
  ef_stop :: "string \<Rightarrow> string \<Rightarrow> string option \<Rightarrow> 'w \<Rightarrow> (bool \<times> string option) option \<times> 'w"
  ef_import :: "import_item \<Rightarrow> 'w \<Rightarrow> import_result option \<times> 'w"

record res_item =
  ri_key :: string
  ri_ok :: bool
  ri_status :: "string option"
  ri_problem :: "string option"
  ri_message :: "string option"
  ri_issue_id :: "string option"
  ri_run_id :: "string option"
  ri_stamp :: "bool option"

record res_report =
  rp_action :: aaction
  rp_requested :: nat
  rp_processed :: nat
  rp_succeeded :: nat
  rp_failed :: nat
  rp_capped :: bool
  rp_skipped :: nat
  rp_cap :: nat
  rp_results :: "res_item list"

definition BATCH_CAP :: nat where
  "BATCH_CAP = 25"

definition report_success :: "res_report \<Rightarrow> bool" where
  "report_success r = (rp_succeeded r > 0)"

definition report_partial :: "res_report \<Rightarrow> bool" where
  "report_partial r = (rp_succeeded r > 0 \<and> rp_failed r > 0)"

definition PROBLEM_STATUS :: "string \<Rightarrow> nat option" where
  "PROBLEM_STATUS p =
     map_of [(''row_not_found'', 404), (''not_in_attention'', 409), (''already_resolved'', 409),
       (''action_not_allowed'', 409), (''missing_issue'', 400), (''issue_not_found'', 404),
       (''search_blocked'', 409), (''search_failed'', 500), (''missing_import_source'', 400),
       (''invalid_import_source'', 400), (''import_failed'', 500)] p"

section \<open>One row\<close>

definition failure_item :: "string \<Rightarrow> string \<Rightarrow> string \<Rightarrow> string \<Rightarrow> string option \<Rightarrow> bool option \<Rightarrow> res_item" where
  "failure_item key problem message status issue_id written =
     \<lparr>ri_key = key, ri_ok = False, ri_status = Some status, ri_problem = Some problem, ri_message = Some message,
      ri_issue_id = issue_id, ri_run_id = None, ri_stamp = written\<rparr>"

definition row_payload :: "jrow \<Rightarrow> payload" where
  "row_payload r = as_dict (load_payload (jr_payload r))"

definition row_issue_id :: "jrow \<Rightarrow> string option" where
  "row_issue_id r =
     (if present (jr_issueid r) then jr_issueid r
      else first_filled (row_payload r) [''issueid'', ''IssueID''])"

definition entity_type_from_row :: "jrow \<Rightarrow> string option" where
  "entity_type_from_row r = normalize_obligation_entity_type (pv_get (row_payload r) ''mode'')"

definition admitted_row :: "jstate \<Rightarrow> string \<Rightarrow> res_item + jrow" where
  "admitted_row j key =
     (case read_one j key of
        None \<Rightarrow> Inl (failure_item key ''row_not_found'' ''Journal row not found'' ''failed'' None None)
      | Some r \<Rightarrow>
          if jr_stage r \<notin> set TROUBLE_STAGES
          then Inl (failure_item key ''not_in_attention'' ''Row is not in Needs attention'' ''failed'' None None)
          else if is_resolved (jr_status r)
          then Inl (failure_item key ''already_resolved'' ''Row is already resolved'' ''failed'' None None)
          else Inr r)"

definition text_or :: "string option \<Rightarrow> string option \<Rightarrow> string \<Rightarrow> string" where
  "text_or a b d = (case py_or a b of None \<Rightarrow> d | Some s \<Rightarrow> if s = [] then d else s)"

text \<open>The stamp of a resolved row; the two statuses written here are resolution statuses, so the
  \<open>ValueError\<close> branch is not taken.\<close>

definition stamped_item :: "jstate \<Rightarrow> string \<Rightarrow> string \<Rightarrow> bool \<Rightarrow> string \<Rightarrow> (bool \<Rightarrow> res_item) \<Rightarrow> res_item option \<times> jstate" where
  "stamped_item j key status inc now mk =
     (case stamp_resolution j key status inc now of
        Inl _ \<Rightarrow> (None, j) | Inr (b, j') \<Rightarrow> (Some (mk b), j'))"

definition search_failure :: "string \<Rightarrow> string \<Rightarrow> search_result \<Rightarrow> res_item" where
  "search_failure key i sr =
     (let blocked = (se_status sr = Some ''blocked'') in
      failure_item key (if blocked then ''search_blocked'' else ''search_failed'')
        (text_or (se_error sr) (se_message sr) ''Search could not be queued'')
        (if blocked then ''blocked'' else text_or (se_status sr) None ''failed'') (Some i) (Some False))"

definition retry_or_search ::
  "'w effects \<Rightarrow> string \<Rightarrow> jrow \<Rightarrow> string \<Rightarrow> aaction \<Rightarrow> string \<Rightarrow> jstate \<times> 'w \<Rightarrow> res_item option \<times> jstate \<times> 'w" where
  "retry_or_search ef now r key action actor st =
     (case st of (j, w) \<Rightarrow>
      if \<not> present (row_issue_id r)
      then (Some (failure_item key ''missing_issue'' ''Journal row has no issueid'' ''failed'' None None), j, w)
      else let i = the (row_issue_id r) in
      (case ef_health ef w of
         (None, w1) \<Rightarrow> (None, j, w1)
       | (Some h, w1) \<Rightarrow>
      if \<not> he_success h
      then (Some (failure_item key ''search_blocked'' (text_or (he_error h) (he_message h) ''Search is blocked'')
              ''blocked'' (Some i) None), j, w1)
      else
      (case ef_rewant ef i actor (entity_type_from_row r) w1 of
         (None, w2) \<Rightarrow> (None, j, w2)
       | (Some (ok, kind), w2) \<Rightarrow>
      if \<not> ok
      then (Some (failure_item key ''issue_not_found'' ''No matching issue, annual, or story-arc row to re-want''
              ''failed'' (Some i) (Some False)), j, w2)
      else
      (case ef_search ef i (if action = Act_retry then ''band_retry'' else ''band_search_again'')
              (py_or kind (entity_type_from_row r)) w2 of
         (None, w3) \<Rightarrow> (None, j, w3)
       | (Some sr, w3) \<Rightarrow>
      if \<not> se_success sr
      then (Some (search_failure key i sr), j, w3)
      else
      (case stamped_item j key ''retried'' True now
              (\<lambda>b. \<lparr>ri_key = key, ri_ok = True, ri_status = Some ''retried'', ri_problem = None,
                     ri_message = Some ''Issue re-wanted and search queued'', ri_issue_id = Some i,
                     ri_run_id = se_run_id sr, ri_stamp = Some b\<rparr>) of
         (x, j') \<Rightarrow> (x, j', w3))))))"

definition stop_wanting ::
  "'w effects \<Rightarrow> string \<Rightarrow> jrow \<Rightarrow> string \<Rightarrow> string \<Rightarrow> jstate \<times> 'w \<Rightarrow> res_item option \<times> jstate \<times> 'w" where
  "stop_wanting ef now r key actor st =
     (case st of (j, w) \<Rightarrow>
      if \<not> present (row_issue_id r)
      then (Some (failure_item key ''missing_issue'' ''Journal row has no issueid'' ''failed'' None None), j, w)
      else let i = the (row_issue_id r) in
      (case ef_stop ef i actor (entity_type_from_row r) w of
         (None, w1) \<Rightarrow> (None, j, w1)
       | (Some (ok, kind), w1) \<Rightarrow>
      (case stamped_item j key ''ignored'' False now
              (\<lambda>b. \<lparr>ri_key = key, ri_ok = True, ri_status = Some ''ignored'', ri_problem = None,
                     ri_message = Some (if ok then ''Issue will not be searched again until you want it back''
                                        else ''No library row to un-want; dismissed from Needs attention''),
                     ri_issue_id = Some i, ri_run_id = None, ri_stamp = Some b\<rparr>) of
         (x, j') \<Rightarrow> (x, j', w1))))"

text \<open>The queue item of an import, \<open>None\<close> when its name or folder is missing.\<close>

definition import_item_of :: "jrow \<Rightarrow> string \<Rightarrow> (string option \<times> string option) option \<Rightarrow> import_item option" where
  "import_item_of r key source =
     (let p = row_payload r;
          src = (case source of None \<Rightarrow> (None, None) | Some x \<Rightarrow> x);
          name = pv_or (pv_or (pv_or (opt_pv (fst src)) (pv_get p ''nzb_name'')) (pv_get p ''nzbname'')) (opt_pv (jr_nzbname r));
          folder = pv_or (opt_pv (snd src)) (pv_get p ''nzb_folder'')
      in if \<not> truthy name \<or> \<not> truthy folder then None
         else Some \<lparr>im_name = name, im_folder = folder,
                    im_issueid = pv_or (opt_pv (jr_issueid r)) (pv_get p ''issueid''),
                    im_comicid = pv_get p ''comicid'', im_ddl = truthy (pv_get p ''ddl''),
                    im_oneoff = truthy (pv_get p ''oneoff''),
                    im_provider = pv_or (opt_pv (jr_provider r)) (pv_get p ''provider''), im_key = key\<rparr>)"

definition import_row ::
  "'w effects \<Rightarrow> jrow \<Rightarrow> string \<Rightarrow> (string option \<times> string option) option \<Rightarrow> jstate \<times> 'w
   \<Rightarrow> res_item option \<times> jstate \<times> 'w" where
  "import_row ef r key source st =
     (case st of (j, w) \<Rightarrow>
      (case import_item_of r key source of
         None \<Rightarrow> (Some (failure_item key ''missing_import_source'' ''Missing nzb_name or nzb_folder for import''
                    ''failed'' None None), j, w)
       | Some item \<Rightarrow>
      (case ef_import ef item w of
         (None, w1) \<Rightarrow> (None, j, w1)
       | (Some out, w1) \<Rightarrow>
           if \<not> ir_success out
           then (Some (failure_item key (text_or (ir_problem out) None ''import_failed'')
                   (text_or (ir_message out) None ''Import could not be queued'') ''failed'' None (Some False)), j, w1)
           else (Some \<lparr>ri_key = key, ri_ok = True, ri_status = Some ''queued'', ri_problem = None,
                    ri_message = Some (text_or (ir_message out) None ''Import queued''), ri_issue_id = None,
                    ri_run_id = None, ri_stamp = Some False\<rparr>, j, w1))))"

section \<open>The request\<close>

datatype req_keys = NotASequence | KeySeq "pval list"

datatype req_source = NoSource | NotASource | Source pval pval

record request =
  rq_action :: pval
  rq_keys :: req_keys
  rq_actor :: pval
  rq_source :: req_source

record norm_request =
  nr_action :: aaction
  nr_keys :: "string list"
  nr_actor :: string
  nr_source :: "(string option \<times> string option) option"

text \<open>The loop over the raw keys: stripped, blank ones dropped, duplicates dropped; \<open>None\<close> on a non-string.\<close>

fun clean_keys :: "string list \<Rightarrow> pval list \<Rightarrow> string list option" where
  "clean_keys acc [] = Some acc"
| "clean_keys acc (VStr s # ks) =
     (let k = py_strip s in clean_keys (if k \<noteq> [] \<and> k \<notin> set acc then acc @ [k] else acc) ks)"
| "clean_keys acc (_ # ks) = None"

fun str_or_none :: "pval \<Rightarrow> string option option" where
  "str_or_none VNone = Some None"
| "str_or_none (VStr s) = Some (Some s)"
| "str_or_none _ = None"

definition is_str :: "pval \<Rightarrow> bool" where
  "is_str v = (case v of VStr _ \<Rightarrow> True | _ \<Rightarrow> False)"

definition str_of :: "pval \<Rightarrow> string" where
  "str_of v = (case v of VStr s \<Rightarrow> s | _ \<Rightarrow> [])"

text \<open>\<open>Inl\<close> is the message of \<open>InvalidAttentionRequest\<close>.\<close>

definition normalize_request :: "request \<Rightarrow> string + norm_request" where
  "normalize_request rq =
     (if \<not> is_str (rq_actor rq) then Inl ''actor is required''
      else if py_strip (str_of (rq_actor rq)) = [] then Inl ''actor is required''
      else if \<not> is_str (rq_action rq) then Inl ''unknown action''
      else case action_of_string (py_lower (py_strip (str_of (rq_action rq)))) of
        None \<Rightarrow> Inl ''unknown action''
      | Some action \<Rightarrow>
      (case rq_keys rq of
         NotASequence \<Rightarrow> Inl ''release_keys must be a sequence of strings''
       | KeySeq raw \<Rightarrow>
      (case clean_keys [] raw of
         None \<Rightarrow> Inl ''release_keys must contain only strings''
       | Some keys \<Rightarrow>
      if keys = [] then Inl ''no release_keys supplied''
      else (case rq_source rq of
         NotASource \<Rightarrow> Inl ''import_source must be an ImportSource''
       | NoSource \<Rightarrow> Inr \<lparr>nr_action = action, nr_keys = keys, nr_actor = py_strip (str_of (rq_actor rq)), nr_source = None\<rparr>
       | Source n f \<Rightarrow>
           (case (str_or_none n, str_or_none f) of
              (Some n', Some f') \<Rightarrow>
                if action \<noteq> Act_import \<or> length keys \<noteq> 1
                then Inl ''import_source is valid only for one-key import''
                else Inr \<lparr>nr_action = action, nr_keys = keys, nr_actor = py_strip (str_of (rq_actor rq)),
                          nr_source = Some (n', f')\<rparr>
            | _ \<Rightarrow> Inl ''import_source values must be strings'')))))"

section \<open>One command\<close>

definition action_name :: "aaction \<Rightarrow> string" where
  "action_name a = (case a of Act_retry \<Rightarrow> ''retry'' | Act_search_again \<Rightarrow> ''search_again''
     | Act_import \<Rightarrow> ''import'' | Act_stop_wanting \<Rightarrow> ''stop_wanting'')"

definition stage_name :: "stage \<Rightarrow> string" where
  "stage_name st = (case st of Reserved \<Rightarrow> ''reserved'' | Snatched \<Rightarrow> ''snatched'' | Downloaded \<Rightarrow> ''downloaded''
     | Post_processing \<Rightarrow> ''post_processing'' | Moved \<Rightarrow> ''moved'' | Post_processed \<Rightarrow> ''post_processed''
     | Manual_review \<Rightarrow> ''manual_review'' | Failed \<Rightarrow> ''failed'' | Cancelled \<Rightarrow> ''cancelled'')"

definition resolve_one ::
  "'w effects \<Rightarrow> string \<Rightarrow> norm_request \<Rightarrow> string \<Rightarrow> jstate \<times> 'w \<Rightarrow> res_item option \<times> jstate \<times> 'w" where
  "resolve_one ef now rq key st =
     (case admitted_row (fst st) key of
        Inl f \<Rightarrow> (Some f, st)
      | Inr r \<Rightarrow>
          let a = nr_action rq in
          if a \<notin> set (STAGE_ACTIONS (jr_stage r))
          then (Some (failure_item key ''action_not_allowed''
                  (''Action '' @ action_name a @ '' is not valid for '' @ stage_name (jr_stage r) @ '' rows'')
                  ''failed'' None None), st)
          else if a = Act_retry \<or> a = Act_search_again then retry_or_search ef now r key a (nr_actor rq) st
          else if a = Act_stop_wanting then stop_wanting ef now r key (nr_actor rq) st
          else import_row ef r key (nr_source rq) st)"

text \<open>\<open>_batch_order\<close>: keys that have a row are ranked by their last update, newest first, and put back into
  the places such keys had; keys without a row keep their place.\<close>

definition stamp_of :: "jstate \<Rightarrow> string \<Rightarrow> bool \<times> string \<times> string" where
  "stamp_of j key =
     (case read_one j key of None \<Rightarrow> (False, [], key) | Some r \<Rightarrow> (True, jr_updated r, key))"

fun fill_ranked :: "(bool \<times> string \<times> string) list \<Rightarrow> (bool \<times> string \<times> string) list \<Rightarrow> string list" where
  "fill_ranked [] rs = []"
| "fill_ranked ((True, u, k) # xs) (r # rs) = snd (snd r) # fill_ranked xs rs"
| "fill_ranked ((b, u, k) # xs) rs = k # fill_ranked xs rs"

definition batch_order :: "jstate \<Rightarrow> string list \<Rightarrow> string list" where
  "batch_order j keys =
     (let stamped = map (stamp_of j) keys
      in fill_ranked stamped (sort_desc str_le (\<lambda>x. fst (snd x)) (filter fst stamped)))"

fun resolve_all ::
  "'w effects \<Rightarrow> string \<Rightarrow> norm_request \<Rightarrow> string list \<Rightarrow> jstate \<times> 'w \<Rightarrow> res_item list option \<times> jstate \<times> 'w" where
  "resolve_all ef now rq [] st = (Some [], st)"
| "resolve_all ef now rq (k # ks) st =
     (case resolve_one ef now rq k st of
        (None, st1) \<Rightarrow> (None, st1)
      | (Some x, st1) \<Rightarrow>
          (case resolve_all ef now rq ks st1 of
             (None, st2) \<Rightarrow> (None, st2)
           | (Some xs, st2) \<Rightarrow> (Some (x # xs), st2)))"

definition make_report :: "norm_request \<Rightarrow> string list \<Rightarrow> res_item list \<Rightarrow> res_report" where
  "make_report nr ordered results =
     (let processed = take BATCH_CAP ordered;
          succeeded = length (filter ri_ok results);
          skipped = length ordered - length processed
      in \<lparr>rp_action = nr_action nr, rp_requested = length ordered, rp_processed = length processed,
          rp_succeeded = succeeded, rp_failed = length results - succeeded, rp_capped = (skipped > 0),
          rp_skipped = skipped, rp_cap = BATCH_CAP, rp_results = results\<rparr>)"

text \<open>\<open>resolve\<close>: \<open>Inl\<close> is the rejected request; \<open>Inr (None, _)\<close> an exception of an effect.\<close>

definition resolve_command ::
  "'w effects \<Rightarrow> string \<Rightarrow> request \<Rightarrow> jstate \<times> 'w \<Rightarrow> string + res_report option \<times> jstate \<times> 'w" where
  "resolve_command ef now rq st =
     (case normalize_request rq of
        Inl msg \<Rightarrow> Inl msg
      | Inr nr \<Rightarrow>
          (let ordered = batch_order (fst st) (nr_keys nr) in
           case resolve_all ef now nr (take BATCH_CAP ordered) st of
             (None, st') \<Rightarrow> Inr (None, st')
           | (Some xs, st') \<Rightarrow> Inr (Some (make_report nr ordered xs), st')))"

section \<open>The production effects\<close>

text \<open>\<open>_RuntimeResolutionEffects\<close>: re-wanting and un-wanting write the library tables; the route health, the
  search queue and the import queue belong to services outside this development and act on \<open>wo_rest\<close>.\<close>

record 'x world =
  wo_lib :: olib
  wo_rest :: 'x

definition on_rest :: "('x \<Rightarrow> 'r option \<times> 'x) \<Rightarrow> 'x world \<Rightarrow> 'r option \<times> 'x world" where
  "on_rest f w = (case f (wo_rest w) of (r, x) \<Rightarrow> (r, w\<lparr>wo_rest := x\<rparr>))"

definition intent_effect ::
  "string \<Rightarrow> string \<Rightarrow> string \<Rightarrow> string option \<Rightarrow> 'x world \<Rightarrow> (bool \<times> string option) option \<times> 'x world" where
  "intent_effect intent i actor kind w =
     (case update_obligation_intent (wo_lib w) i actor intent (opt_pv kind) of
        Inl _ \<Rightarrow> (None, w)
      | Inr (k, l) \<Rightarrow> (Some (k \<noteq> None, k), w\<lparr>wo_lib := l\<rparr>))"

definition runtime_effects ::
  "('x \<Rightarrow> health option \<times> 'x) \<Rightarrow> (string \<Rightarrow> string \<Rightarrow> string option \<Rightarrow> 'x \<Rightarrow> search_result option \<times> 'x)
   \<Rightarrow> (import_item \<Rightarrow> 'x \<Rightarrow> import_result option \<times> 'x) \<Rightarrow> 'x world effects" where
  "runtime_effects h s imp =
     \<lparr>ef_health = on_rest h, ef_rewant = intent_effect ''wanted'',
      ef_search = (\<lambda>i trigger kind. on_rest (s i trigger kind)), ef_stop = intent_effect ''ignored'',
      ef_import = (\<lambda>item. on_rest (imp item))\<rparr>"

end
