(* ===== verification/ResolveProps.thy ===== *)
theory ResolveProps
  imports Resolve
begin

text \<open>What an operator command guarantees: the order in which a batch is worked off, the arithmetic of its report,
  its effect on the band as an abstract set of keys, and its effect on the library through the production
  effects.\<close>

section \<open>Cleaned keys\<close>

lemma clean_keys_ok:
  "clean_keys acc ks = Some out \<Longrightarrow> distinct acc \<Longrightarrow> [] \<notin> set acc \<Longrightarrow> distinct out \<and> [] \<notin> set out"
proof (induction acc ks rule: clean_keys.induct)
  case (2 acc s ks)
  let ?acc = "if py_strip s \<noteq> [] \<and> py_strip s \<notin> set acc then acc @ [py_strip s] else acc"
  have "distinct ?acc" and "[] \<notin> set ?acc" using 2(3,4) by auto
  then show ?case using 2(1) [OF refl] 2(2) by (simp add: Let_def)
qed auto

lemma normalized_keys:
  assumes "normalize_request rq = Inr nr"
  shows "distinct (nr_keys nr) \<and> [] \<notin> set (nr_keys nr) \<and> nr_keys nr \<noteq> []"
proof -
  obtain raw where raw: "rq_keys rq = KeySeq raw" and k: "clean_keys [] raw = Some (nr_keys nr)" "nr_keys nr \<noteq> []"
    using assms
    by (auto simp: normalize_request_def split: if_splits option.splits req_keys.splits req_source.splits)
  then show ?thesis using clean_keys_ok [OF k(1)] by simp
qed

section \<open>The order of a batch\<close>

lemma fill_ranked_mset:
  "length rs = length (filter fst xs) \<Longrightarrow>
   mset (fill_ranked xs rs) = mset (map (snd \<circ> snd) (filter (Not \<circ> fst) xs)) + mset (map (snd \<circ> snd) rs)"
  by (induction xs rs rule: fill_ranked.induct) auto

lemma fill_ranked_filter:
  "length rs = length (filter fst xs) \<Longrightarrow> \<forall>x \<in> set xs \<union> set rs. P (snd (snd x)) = fst x \<Longrightarrow> \<forall>x \<in> set rs. fst x \<Longrightarrow>
   filter P (fill_ranked xs rs) = map (snd \<circ> snd) rs"
  by (induction xs rs rule: fill_ranked.induct) auto

lemma fill_ranked_fixed:
  "length rs = length (filter fst xs) \<Longrightarrow>
   list_all2 (\<lambda>x k. fst x \<or> k = snd (snd x)) xs (fill_ranked xs rs)"
  by (induction xs rs rule: fill_ranked.induct) (auto split: if_splits)

definition updated_of :: "jstate \<Rightarrow> string \<Rightarrow> string" where
  "updated_of j k = (case read_one j k of None \<Rightarrow> [] | Some r \<Rightarrow> jr_updated r)"

definition known_key :: "jstate \<Rightarrow> string \<Rightarrow> bool" where
  "known_key j k = (read_one j k \<noteq> None)"

lemma stamp_of_simps [simp]:
  "fst (stamp_of j k) = known_key j k" "snd (snd (stamp_of j k)) = k" "fst (snd (stamp_of j k)) = updated_of j k"
  by (simp_all add: stamp_of_def known_key_def updated_of_def split: option.splits)

lemma batch_order_mset: "mset (batch_order j keys) = mset keys"
proof -
  let ?xs = "map (stamp_of j) keys"
  let ?rs = "sort_desc str_le (\<lambda>x. fst (snd x)) (filter fst ?xs)"
  have b: "batch_order j keys = fill_ranked ?xs ?rs" by (simp add: batch_order_def Let_def)
  have len: "length ?rs = length (filter fst ?xs)" by simp
  have m: "mset (map (snd \<circ> snd) ?rs) = mset (filter (known_key j) keys)"
  proof -
    have "mset (map (snd \<circ> snd) ?rs) = image_mset (snd \<circ> snd) (mset ?rs)" by (rule mset_map)
    also have "\<dots> = mset (map (snd \<circ> snd) (filter fst ?xs))" by (simp only: mset_sort_desc mset_map)
    also have "map (snd \<circ> snd) (filter fst ?xs) = filter (known_key j) keys" by (induction keys) auto
    finally show ?thesis .
  qed
  have n: "map (snd \<circ> snd) (filter (Not \<circ> fst) ?xs) = filter (\<lambda>k. \<not> known_key j k) keys"
    by (induction keys) auto
  have "mset (batch_order j keys) = mset (filter (\<lambda>k. \<not> known_key j k) keys) + mset (filter (known_key j) keys)"
    unfolding b fill_ranked_mset [OF len] n m ..
  then show "mset (batch_order j keys) = mset keys"
    using multiset_partition [of "mset keys" "known_key j"] by (simp add: mset_filter add.commute)
qed

text \<open>The batch is worked off in a permutation of the keys given: keys without a journal row stay where they
  were, and the keys with a row come newest update first, so a cap never drops a newer row for an older one.\<close>

theorem batch_order_newest_first:
  "mset (batch_order j keys) = mset keys
   \<and> list_all2 (\<lambda>k k'. known_key j k \<or> k' = k) keys (batch_order j keys)
   \<and> sorted_wrt (\<lambda>k k'. str_le (updated_of j k') (updated_of j k)) (filter (known_key j) (batch_order j keys))"
proof -
  let ?xs = "map (stamp_of j) keys"
  let ?rs = "sort_desc str_le (\<lambda>x. fst (snd x)) (filter fst ?xs)"
  have b: "batch_order j keys = fill_ranked ?xs ?rs" by (simp add: batch_order_def Let_def)
  have len: "length ?rs = length (filter fst ?xs)" by simp
  have 1: "mset (batch_order j keys) = mset keys" by (rule batch_order_mset)
  have "list_all2 (\<lambda>x k. fst x \<or> k = snd (snd x)) ?xs (batch_order j keys)"
    unfolding b by (rule fill_ranked_fixed [OF len])
  then have 2: "list_all2 (\<lambda>k k'. known_key j k \<or> k' = k) keys (batch_order j keys)"
    by (simp add: list.rel_map)
  have f: "filter (known_key j) (batch_order j keys) = map (snd \<circ> snd) ?rs"
    unfolding b by (rule fill_ranked_filter [OF len]) auto
  have u: "\<forall>x \<in> set ?rs. fst (snd x) = updated_of j (snd (snd x))"
    by (auto simp only: set_sort_desc set_filter set_map stamp_of_simps)
  have "sorted_wrt (\<lambda>x y. str_le (fst (snd y)) (fst (snd x))) ?rs" by (rule dates.sort_desc_sorted)
  then have "sorted_wrt (\<lambda>x y. str_le (updated_of j (snd (snd y))) (updated_of j (snd (snd x)))) ?rs"
    by (rule sorted_wrt_mono_rel [rotated]) (use u in auto)
  then have 3: "sorted_wrt (\<lambda>k k'. str_le (updated_of j k') (updated_of j k)) (filter (known_key j) (batch_order j keys))"
    unfolding f by (simp add: sorted_wrt_map)
  show ?thesis using 1 2 3 by blast
qed

section \<open>One row\<close>

definition band :: "jstate \<Rightarrow> string set" where
  "band j = {k. \<exists>r. js_row j k = Some r \<and> jr_stage r \<in> set TROUBLE_STAGES \<and> \<not> is_resolved (jr_status r)}"

lemma admitted_iff: "admitted_row j k = Inr r \<longleftrightarrow>
    js_row j k = Some r \<and> jr_stage r \<in> set TROUBLE_STAGES \<and> \<not> is_resolved (jr_status r)"
  by (auto simp: admitted_row_def read_one_def split: option.splits)

lemma admitted_in_band: "admitted_row j k = Inr r \<Longrightarrow> k \<in> band j"
  by (auto simp: band_def admitted_iff)

lemma stamped_item_effect:
  assumes "admitted_row j k = Inr r" and "k \<noteq> []" and "st \<in> set RESOLVED_STATUSES"
  obtains j' where "stamped_item j k st inc now mk = (Some (mk True), j')" and "band j' = band j - {k}"
    and "\<And>k'. k' \<noteq> k \<Longrightarrow> js_row j' k' = js_row j k'"
proof -
  let ?r = "r\<lparr>jr_status := Some st, jr_updated := now,
     jr_retry_count := (if inc then Some ((case jr_retry_count r of None \<Rightarrow> 0 | Some n \<Rightarrow> n) + 1) else jr_retry_count r)\<rparr>"
  have "stamp_resolution j k st inc now = Inr (True, js_put k ?r j)"
    using assms by (auto simp: admitted_iff stamp_resolution_def TROUBLE_STAGES_def BAND_STAGES_def)
  then have "stamped_item j k st inc now mk = (Some (mk True), js_put k ?r j)" by (simp add: stamped_item_def)
  moreover have g: "js_row (js_put k ?r j) k' = (if k' = k then Some ?r else js_row j k')" for k'
    by (simp add: js_row_def js_put_def dict_get_set)
  moreover have "band (js_put k ?r j) = band j - {k}"
    using assms(3) by (auto simp: band_def g is_resolved_def)
  ultimately show ?thesis using that [of "js_put k ?r j"] by simp
qed

definition removes :: "norm_request \<Rightarrow> res_item \<Rightarrow> bool" where
  "removes rq x \<longleftrightarrow> ri_ok x \<and> nr_action rq \<noteq> Act_import"

definition step_ok :: "norm_request \<Rightarrow> string \<Rightarrow> jstate \<Rightarrow> res_item option \<Rightarrow> jstate \<Rightarrow> bool" where
  "step_ok rq k j x j' \<longleftrightarrow>
     (case x of None \<Rightarrow> band j' = band j
      | Some item \<Rightarrow> ri_key item = k
          \<and> band j' = (if removes rq item then band j - {k} else band j)
          \<and> (ri_ok item \<longrightarrow> k \<in> band j \<and> (\<exists>r. js_row j k = Some r \<and> nr_action rq \<in> set (STAGE_ACTIONS (jr_stage r))))
          \<and> (\<not> removes rq item \<longrightarrow> j' = j))"

lemma failed_step: "step_ok rq k j (Some (failure_item k p m st i wr)) j"
  by (simp add: step_ok_def removes_def failure_item_def)

lemma failed_search: "step_ok rq k j (Some (search_failure k i sr)) j"
  by (simp add: search_failure_def Let_def failed_step del: if_split)

lemma raised_step: "step_ok rq k j None j"
  by (simp add: step_ok_def)

lemma stamped_step:
  assumes "admitted_row j k = Inr r" and "k \<noteq> []" and "nr_action rq \<in> set (STAGE_ACTIONS (jr_stage r))"
    and "st \<in> set RESOLVED_STATUSES" and "nr_action rq \<noteq> Act_import"
    and "stamped_item j k st inc now mk = (x, j')" and "ri_key (mk True) = k" and "ri_ok (mk True)"
  shows "step_ok rq k j x j'"
proof -
  obtain j2 where "stamped_item j k st inc now mk = (Some (mk True), j2)" and "band j2 = band j - {k}"
    using stamped_item_effect [OF assms(1,2,4)] by metis
  then have "x = Some (mk True)" and "band j' = band j - {k}" using assms(6) by simp_all
  moreover have "k \<in> band j" and "js_row j k = Some r" using assms(1) admitted_in_band by (auto simp: admitted_iff)
  ultimately show ?thesis using assms(3,5,7,8) by (simp add: step_ok_def removes_def)
qed

lemma retry_step:
  assumes "admitted_row j k = Inr r" and "k \<noteq> []" and "nr_action rq \<in> set (STAGE_ACTIONS (jr_stage r))"
    and "nr_action rq = Act_retry \<or> nr_action rq = Act_search_again"
    and "retry_or_search ef now r k a actor (j, w) = (x, j', w')"
  shows "step_ok rq k j x j'"
proof -
  have row: "js_row j k = Some r" and b: "k \<in> band j" using assms(1) admitted_in_band by (auto simp: admitted_iff)
  have good: "step_ok rq k j y j2" if "stamped_item j k ''retried'' True now mk = (y, j2)"
      and "ri_key (mk True) = k" "ri_ok (mk True)" for mk y j2
    by (rule stamped_step [OF assms(1,2,3) _ _ that]) (use assms(4) in \<open>auto simp: RESOLVED_STATUSES_def\<close>)
  show ?thesis
  proof (cases "present (row_issue_id r)")
    case False
    with assms(5) show ?thesis by (auto simp: retry_or_search_def failed_step)
  next
    case iss: True
    obtain h w1 where h: "ef_health ef w = (h, w1)" by (cases "ef_health ef w")
    show ?thesis
    proof (cases "\<exists>y. h = Some y \<and> he_success y")
      case False
      with assms(5) iss h show ?thesis
        by (cases h) (auto simp: retry_or_search_def failed_step raised_step)
    next
      case True
      then obtain y where y: "h = Some y" "he_success y" by blast
      obtain v w2 where v: "ef_rewant ef (the (row_issue_id r)) actor (entity_type_from_row r) w1 = (v, w2)"
        by (cases "ef_rewant ef (the (row_issue_id r)) actor (entity_type_from_row r) w1")
      show ?thesis
      proof (cases "\<exists>kind. v = Some (True, kind)")
        case False
        with assms(5) iss h y v show ?thesis
          by (cases v) (auto simp: retry_or_search_def failed_step raised_step)
      next
        case True
        then obtain kind where kind: "v = Some (True, kind)" by blast
        obtain q w3 where q: "ef_search ef (the (row_issue_id r))
            (if a = Act_retry then ''band_retry'' else ''band_search_again'') (py_or kind (entity_type_from_row r)) w2 = (q, w3)"
          by (metis surj_pair)
        show ?thesis
        proof (cases "\<exists>z. q = Some z \<and> se_success z")
          case False
          have "j' = j \<and> (x = None \<or> (\<exists>z i. x = Some (search_failure k i z)))"
          proof (cases q)
            case None
            then show ?thesis using assms(5) iss h y v kind q by (simp add: retry_or_search_def Let_def)
          next
            case (Some z)
            with False have "\<not> se_success z" by simp
            then have "x = Some (search_failure k (the (row_issue_id r)) z) \<and> j' = j"
              using assms(5) iss h y v kind q Some by (simp add: retry_or_search_def Let_def)
            then show ?thesis by blast
          qed
          then show ?thesis using failed_search raised_step by auto
        next
          case True
          then obtain z where z: "q = Some z" "se_success z" by blast
          let ?mk = "\<lambda>b. \<lparr>ri_key = k, ri_ok = True, ri_status = Some ''retried'', ri_problem = None,
             ri_message = Some ''Issue re-wanted and search queued'', ri_issue_id = Some (the (row_issue_id r)),
             ri_run_id = se_run_id z, ri_stamp = Some b\<rparr>"
          have "stamped_item j k ''retried'' True now ?mk = (x, j')"
            using assms(5) iss h y v kind q z
            by (simp add: retry_or_search_def Let_def split: prod.splits)
          then show ?thesis by (rule good) simp_all
        qed
      qed
    qed
  qed
qed

lemma stop_step:
  assumes "admitted_row j k = Inr r" and "k \<noteq> []" and "nr_action rq \<in> set (STAGE_ACTIONS (jr_stage r))"
    and "nr_action rq = Act_stop_wanting"
    and "stop_wanting ef now r k actor (j, w) = (x, j', w')"
  shows "step_ok rq k j x j'"
proof -
  have row: "js_row j k = Some r" and b: "k \<in> band j" using assms(1) admitted_in_band by (auto simp: admitted_iff)
  have good: "step_ok rq k j y j2" if "stamped_item j k ''ignored'' False now mk = (y, j2)"
      and "ri_key (mk True) = k" "ri_ok (mk True)" for mk y j2
    by (rule stamped_step [OF assms(1,2,3) _ _ that]) (use assms(4) in \<open>auto simp: RESOLVED_STATUSES_def\<close>)
  show ?thesis
  proof (cases "present (row_issue_id r)")
    case False
    with assms(5) show ?thesis by (auto simp: stop_wanting_def failed_step)
  next
    case iss: True
    obtain v w1 where v: "ef_stop ef (the (row_issue_id r)) actor (entity_type_from_row r) w = (v, w1)"
      by (metis surj_pair)
    show ?thesis
    proof (cases v)
      case None
      with assms(5) iss v show ?thesis by (auto simp: stop_wanting_def raised_step)
    next
      case (Some okk)
      obtain ok kind where ok: "okk = (ok, kind)" by (cases okk)
      let ?mk = "\<lambda>b. \<lparr>ri_key = k, ri_ok = True, ri_status = Some ''ignored'', ri_problem = None,
         ri_message = Some (if ok then ''Issue will not be searched again until you want it back''
                            else ''No library row to un-want; dismissed from Needs attention''),
         ri_issue_id = Some (the (row_issue_id r)), ri_run_id = None, ri_stamp = Some b\<rparr>"
      have "stamped_item j k ''ignored'' False now ?mk = (x, j')"
        using assms(5) iss v Some ok by (cases ok) (simp_all add: stop_wanting_def Let_def split: prod.splits)
      then show ?thesis by (rule good) simp_all
    qed
  qed
qed

lemma import_step:
  assumes "admitted_row j k = Inr r" and "nr_action rq \<in> set (STAGE_ACTIONS (jr_stage r))"
    and "nr_action rq = Act_import" and "import_row ef r k src (j, w) = (x, j', w')"
  shows "step_ok rq k j x j'"
proof (cases "import_item_of r k src")
  case None
  with assms(4) show ?thesis by (auto simp: import_row_def failed_step)
next
  case (Some item)
  obtain out w1 where o: "ef_import ef item w = (out, w1)" by (cases "ef_import ef item w")
  have row: "js_row j k = Some r" and b: "k \<in> band j" using assms(1) admitted_in_band by (auto simp: admitted_iff)
  show ?thesis
  proof (cases out)
    case None
    with assms(4) Some o have "x = None \<and> j' = j" by (simp add: import_row_def)
    then show ?thesis using raised_step by simp
  next
    case out: (Some y)
    show ?thesis
    proof (cases "ir_success y")
      case False
      with assms(4) Some o out have "(\<exists>p m. x = Some (failure_item k p m ''failed'' None (Some False))) \<and> j' = j"
        by (simp add: import_row_def) metis
      then show ?thesis using failed_step by auto
    next
      case True
      with assms(4) Some o out have "(\<exists>m. x = Some \<lparr>ri_key = k, ri_ok = True, ri_status = Some ''queued'',
          ri_problem = None, ri_message = Some m, ri_issue_id = None, ri_run_id = None, ri_stamp = Some False\<rparr>) \<and> j' = j"
        by (simp add: import_row_def) metis
      then show ?thesis using b row assms(2,3) by (auto simp: step_ok_def removes_def)
    qed
  qed
qed

lemma resolve_one_step:
  assumes "k \<noteq> []" and "resolve_one ef now rq k (j, w) = (x, j', w')"
  shows "step_ok rq k j x j'"
proof (cases "admitted_row j k")
  case (Inl f)
  then have "x = Some f" "j' = j" and "\<exists>p m. f = failure_item k p m ''failed'' None None"
    using assms(2) by (auto simp: resolve_one_def admitted_row_def split: option.splits if_splits)
  then show ?thesis using failed_step by auto
next
  case (Inr r)
  show ?thesis
  proof (cases "nr_action rq \<in> set (STAGE_ACTIONS (jr_stage r))")
    case False
    then show ?thesis using assms(2) Inr failed_step by (auto simp: resolve_one_def Let_def)
  next
    case True
    then have eq: "resolve_one ef now rq k (j, w) =
        (if nr_action rq = Act_retry \<or> nr_action rq = Act_search_again
         then retry_or_search ef now r k (nr_action rq) (nr_actor rq) (j, w)
         else if nr_action rq = Act_stop_wanting then stop_wanting ef now r k (nr_actor rq) (j, w)
         else import_row ef r k (nr_source rq) (j, w))"
      using Inr by (simp add: resolve_one_def Let_def)
    show ?thesis
    proof (cases "nr_action rq")
      case Act_retry
      show ?thesis by (rule retry_step [OF Inr assms(1) True]) (use assms(2) eq Act_retry in simp_all)
    next
      case Act_search_again
      show ?thesis by (rule retry_step [OF Inr assms(1) True]) (use assms(2) eq Act_search_again in simp_all)
    next
      case Act_import
      show ?thesis by (rule import_step [OF Inr True]) (use assms(2) eq Act_import in simp_all)
    next
      case Act_stop_wanting
      show ?thesis by (rule stop_step [OF Inr assms(1) True]) (use assms(2) eq Act_stop_wanting in simp_all)
    qed
  qed
qed

section \<open>A whole command\<close>

text \<open>The abstract command: each answered item that is not an import takes its key out of a set of keys.\<close>

definition abs_resolve :: "norm_request \<Rightarrow> res_item list \<Rightarrow> string set \<Rightarrow> string set" where
  "abs_resolve rq items b = b - set (map ri_key (filter (removes rq) items))"

lemma resolve_all_run:
  "resolve_all ef now rq ks (j, w) = (Some xs, j', w') \<Longrightarrow> [] \<notin> set ks \<Longrightarrow>
   map ri_key xs = ks \<and> band j' = abs_resolve rq xs (band j) \<and> set (map ri_key (filter ri_ok xs)) \<subseteq> band j"
proof (induction ks arbitrary: j w xs)
  case Nil
  then show ?case by (simp add: abs_resolve_def)
next
  case (Cons k ks)
  obtain x j1 w1 where one: "resolve_one ef now rq k (j, w) = (x, j1, w1)" by (metis surj_pair)
  obtain y where x: "x = Some y" using Cons.prems(1) one by (cases x) auto
  obtain ys where rest: "resolve_all ef now rq ks (j1, w1) = (Some ys, j', w')" and xs: "xs = y # ys"
    using Cons.prems(1) one x by (auto split: prod.splits option.splits)
  have st: "step_ok rq k j (Some y) j1" by (rule resolve_one_step [OF _ one [unfolded x]]) (use Cons.prems(2) in auto)
  have ih: "map ri_key ys = ks \<and> band j' = abs_resolve rq ys (band j1) \<and> set (map ri_key (filter ri_ok ys)) \<subseteq> band j1"
    using Cons.IH [OF rest] Cons.prems(2) by simp
  have b: "ri_key y = k" "band j1 = (if removes rq y then band j - {k} else band j)" "ri_ok y \<Longrightarrow> k \<in> band j"
    using st by (auto simp: step_ok_def)
  then have "band j1 \<subseteq> band j" by auto
  with ih b xs show ?case by (auto simp: abs_resolve_def)
qed

text \<open>C22: A command refines its abstract specification on the band as a set of keys: it removes exactly the keys
  it answered with success, an import excepted, whose row stays until the import is done; success is only
  answered for keys that were in the band, and no other key enters or leaves.\<close>

theorem command_refines_band:
  assumes "resolve_command ef now rq (j, w) = Inr (Some rep, j', w')" and "normalize_request rq = Inr nr"
  shows "band j' = abs_resolve nr (rp_results rep) (band j)
    \<and> set (map ri_key (filter ri_ok (rp_results rep))) \<subseteq> band j
    \<and> map ri_key (rp_results rep) = take BATCH_CAP (batch_order j (nr_keys nr))"
proof -
  obtain xs where run: "resolve_all ef now nr (take BATCH_CAP (batch_order j (nr_keys nr))) (j, w) = (Some xs, j', w')"
    and rep: "rep = make_report nr (batch_order j (nr_keys nr)) xs"
    using assms by (auto simp: resolve_command_def Let_def split: prod.splits option.splits)
  have "mset (batch_order j (nr_keys nr)) = mset (nr_keys nr)" using batch_order_mset .
  then have "set (batch_order j (nr_keys nr)) = set (nr_keys nr)" by (rule mset_eq_setD)
  then have "[] \<notin> set (take BATCH_CAP (batch_order j (nr_keys nr)))"
    using normalized_keys [OF assms(2)] set_take_subset by fastforce
  from resolve_all_run [OF run this] rep show ?thesis by (simp add: make_report_def Let_def)
qed

text \<open>The report adds up: it works off at most 25 of the distinct keys requested, each exactly once, says how
  many were left for the cap, and every processed key is counted as either succeeded or failed.\<close>

theorem report_adds_up:
  assumes "resolve_command ef now rq (j, w) = Inr (Some rep, j', w')" and "normalize_request rq = Inr nr"
  shows "rp_requested rep = length (nr_keys nr) \<and> rp_processed rep = min (length (nr_keys nr)) 25
    \<and> rp_processed rep + rp_skipped rep = rp_requested rep \<and> rp_capped rep = (25 < length (nr_keys nr))
    \<and> rp_succeeded rep + rp_failed rep = rp_processed rep
    \<and> distinct (map ri_key (rp_results rep)) \<and> set (map ri_key (rp_results rep)) \<subseteq> set (nr_keys nr)"
proof -
  let ?o = "batch_order j (nr_keys nr)"
  obtain xs where run: "resolve_all ef now nr (take BATCH_CAP ?o) (j, w) = (Some xs, j', w')"
    and rep: "rep = make_report nr ?o xs"
    using assms by (auto simp: resolve_command_def Let_def split: prod.splits option.splits)
  have m: "mset ?o = mset (nr_keys nr)" using batch_order_mset .
  have len: "length ?o = length (nr_keys nr)" using m by (rule mset_eq_length)
  have st: "set ?o = set (nr_keys nr)" using m by (rule mset_eq_setD)
  have di: "distinct ?o" using mset_eq_imp_distinct_iff [OF m] normalized_keys [OF assms(2)] by simp
  have "[] \<notin> set (take BATCH_CAP ?o)"
    using st normalized_keys [OF assms(2)] set_take_subset by fastforce
  then have keys: "map ri_key xs = take BATCH_CAP ?o" using resolve_all_run [OF run] by blast
  then have lx: "length xs = min (length (nr_keys nr)) 25"
    using len by (metis BATCH_CAP_def length_map length_take min.commute)
  have le: "length (filter ri_ok xs) \<le> length xs" by (rule length_filter_le)
  have rq: "rp_requested rep = length (nr_keys nr)" "rp_processed rep = min (length (nr_keys nr)) 25"
    "rp_skipped rep = length (nr_keys nr) - min (length (nr_keys nr)) 25"
    "rp_capped rep = (0 < length (nr_keys nr) - min (length (nr_keys nr)) 25)"
    "rp_succeeded rep = length (filter ri_ok xs)" "rp_failed rep = length xs - length (filter ri_ok xs)"
    "rp_results rep = xs"
    unfolding rep make_report_def Let_def by (simp_all add: len BATCH_CAP_def min.commute)
  have "distinct (map ri_key (rp_results rep)) \<and> set (map ri_key (rp_results rep)) \<subseteq> set (nr_keys nr)"
    unfolding rq keys using di st set_take_subset [of BATCH_CAP ?o] by (simp add: distinct_take)
  moreover have "rp_processed rep + rp_skipped rep = rp_requested rep" and "rp_capped rep = (25 < length (nr_keys nr))"
    and "rp_succeeded rep + rp_failed rep = rp_processed rep"
    unfolding rq using lx le by linarith+
  ultimately show ?thesis using rq(1,2) by blast
qed

section \<open>The library behind a command\<close>

text \<open>What a command relies on in the effects it is given: a successful re-want or un-want leaves the row with the
  status asked for, and queueing a search keeps it.\<close>

locale resolution_effects =
  fixes ef :: "'w effects" and has_status :: "string \<Rightarrow> string \<Rightarrow> 'w \<Rightarrow> bool"
  assumes rewant_sets: "py_strip actor \<noteq> [] \<Longrightarrow> ef_rewant ef i actor kind w = (Some (True, k), w') \<Longrightarrow> has_status i ''Wanted'' w'"
    and stop_sets: "py_strip actor \<noteq> [] \<Longrightarrow> ef_stop ef i actor kind w = (Some (True, k), w') \<Longrightarrow> has_status i ''Ignored'' w'"
    and search_keeps: "ef_search ef i trigger kind w = (x, w') \<Longrightarrow> has_status q st w \<Longrightarrow> has_status q st w'"
begin

lemma retried_is_wanted:
  assumes "retry_or_search ef now r k a actor (j, w) = (Some item, j', w')" and "ri_ok item" and "py_strip actor \<noteq> []"
  shows "has_status (the (row_issue_id r)) ''Wanted'' w'"
proof -
  let ?i = "the (row_issue_id r)"
  have iss: "present (row_issue_id r)"
    by (rule ccontr) (use assms(1,2) in \<open>auto simp: retry_or_search_def failure_item_def\<close>)
  obtain h0 w1 where h0: "ef_health ef w = (h0, w1)" by (metis surj_pair)
  obtain h where h: "h0 = Some h" using assms(1) iss h0 by (cases h0) (auto simp: retry_or_search_def)
  have hs: "he_success h"
    by (rule ccontr) (use assms(1,2) iss h0 h in \<open>auto simp: retry_or_search_def failure_item_def\<close>)
  obtain v0 w2 where v0: "ef_rewant ef ?i actor (entity_type_from_row r) w1 = (v0, w2)" by (metis surj_pair)
  obtain ok kind where ok: "v0 = Some (ok, kind)"
    using assms(1) iss h0 h hs v0 by (cases v0) (auto simp: retry_or_search_def)
  have "ok"
    by (rule ccontr) (use assms(1,2) iss h0 h hs v0 ok in \<open>auto simp: retry_or_search_def failure_item_def\<close>)
  then have v: "ef_rewant ef ?i actor (entity_type_from_row r) w1 = (Some (True, kind), w2)" using v0 ok by simp
  obtain q w3 where q: "ef_search ef ?i (if a = Act_retry then ''band_retry'' else ''band_search_again'')
      (py_or kind (entity_type_from_row r)) w2 = (q, w3)" by (metis surj_pair)
  have "w' = w3"
  proof (cases q)
    case None
    then show ?thesis using assms(1) h0 h iss hs v q by (simp add: retry_or_search_def Let_def)
  next
    case (Some z)
    then show ?thesis using assms(1) h0 h iss hs v q
      by (cases "se_success z") (auto simp: retry_or_search_def Let_def split: prod.splits)
  qed
  then show ?thesis using search_keeps [OF q rewant_sets [OF assms(3) v]] by simp
qed

lemma stopped_is_ignored:
  assumes "stop_wanting ef now r k actor (j, w) = (Some item, j', w')" and "ri_ok item" and "py_strip actor \<noteq> []"
    and "ri_message item = Some ''Issue will not be searched again until you want it back''"
  shows "has_status (the (row_issue_id r)) ''Ignored'' w'"
proof -
  let ?i = "the (row_issue_id r)"
  obtain v w1 where v: "ef_stop ef ?i actor (entity_type_from_row r) w = (v, w1)" by (metis surj_pair)
  have iss: "present (row_issue_id r)"
    using assms(1,2) by (auto simp: stop_wanting_def failure_item_def split: if_splits)
  obtain ok kind where ok: "v = Some (ok, kind)"
    using assms(1) iss v by (cases v) (auto simp: stop_wanting_def)
  have "w' = w1 \<and> ok"
    using assms iss v ok
    by (cases ok) (auto simp: stop_wanting_def stamped_item_def split: prod.splits sum.splits)
  then show ?thesis using stop_sets [OF assms(3)] v ok by auto
qed

end

definition lib_status :: "string \<Rightarrow> string \<Rightarrow> 'x world \<Rightarrow> bool" where
  "lib_status i st w = row_written (wo_lib w) i st"

lemma intent_effect_sets:
  assumes "intent_effect intent i actor kind w = (Some (True, k), w')"
    and "explicit_intent_values (Some (py_lower intent)) (Some actor) = Inr (iv, st)"
  shows "lib_status i st w'"
proof -
  obtain c l where u: "update_obligation_intent (wo_lib w) i actor intent (opt_pv kind) = Inr (c, l)"
    and c: "c \<noteq> None" and w': "w' = w\<lparr>wo_lib := l\<rparr>"
    using assms(1)
    by (cases "update_obligation_intent (wo_lib w) i actor intent (opt_pv kind)") (auto simp: intent_effect_def)
  then obtain x where "c = Some x" by blast
  then show ?thesis using update_obligation_written assms(2) u w' by (auto simp: lib_status_def)
qed

lemma intent_values_of:
  assumes "py_strip actor \<noteq> []"
  shows "explicit_intent_values (Some (py_lower ''wanted'')) (Some actor) = Inr (''wanted'', ''Wanted'')"
    and "explicit_intent_values (Some (py_lower ''ignored'')) (Some actor) = Inr (''ignored'', ''Ignored'')"
proof -
  have "parse_intent (Some (py_lower ''wanted'')) = Wanted" and "parse_intent (Some (py_lower ''ignored'')) = Ignored"
    by code_simp+
  then show "explicit_intent_values (Some (py_lower ''wanted'')) (Some actor) = Inr (''wanted'', ''Wanted'')"
    and "explicit_intent_values (Some (py_lower ''ignored'')) (Some actor) = Inr (''ignored'', ''Ignored'')"
    using assms by (simp_all add: explicit_intent_values_def Let_def LEGACY_EXPLICIT_STATUS_def intent_value_def)
qed

interpretation runtime: resolution_effects "runtime_effects h s imp" lib_status for h s imp
proof unfold_locales
  fix actor i kind w k w'
  assume a: "py_strip actor \<noteq> []"
  show "ef_rewant (runtime_effects h s imp) i actor kind w = (Some (True, k), w') \<Longrightarrow> lib_status i ''Wanted'' w'"
    using intent_effect_sets intent_values_of(1) [OF a] by (fastforce simp: runtime_effects_def)
  show "ef_stop (runtime_effects h s imp) i actor kind w = (Some (True, k), w') \<Longrightarrow> lib_status i ''Ignored'' w'"
    using intent_effect_sets intent_values_of(2) [OF a] by (fastforce simp: runtime_effects_def)
next
  fix i trigger kind w x w' q st
  show "ef_search (runtime_effects h s imp) i trigger kind w = (x, w') \<Longrightarrow> lib_status q st w \<Longrightarrow> lib_status q st w'"
    by (auto simp: runtime_effects_def on_rest_def lib_status_def split: prod.splits)
qed

text \<open>With the production effects, a row answered as retried belongs to an issue whose library row is Wanted
  when the command returns, whatever the search service does with its queue, so the search that was queued
  finds something to search for.\<close>

theorem retried_row_is_wanted:
  assumes "normalize_request rq = Inr nr" and "nr_action nr = Act_retry \<or> nr_action nr = Act_search_again"
    and "resolve_one (runtime_effects h s imp) now nr k (j, w) = (Some item, j', w')" and "ri_ok item"
  shows "\<exists>r. js_row j k = Some r \<and> k \<in> band j \<and> lib_status (the (row_issue_id r)) ''Wanted'' w'"
proof -
  obtain r where r: "admitted_row j k = Inr r"
    using assms(3,4) by (cases "admitted_row j k") (auto simp: resolve_one_def admitted_row_def failure_item_def
        split: option.splits if_splits)
  have "nr_action nr \<in> set (STAGE_ACTIONS (jr_stage r))"
    by (rule ccontr) (use assms(3,4) r in \<open>auto simp: resolve_one_def failure_item_def Let_def\<close>)
  then have run: "retry_or_search (runtime_effects h s imp) now r k (nr_action nr) (nr_actor nr) (j, w) = (Some item, j', w')"
    using assms(2,3) r by (auto simp: resolve_one_def Let_def)
  have "py_strip (nr_actor nr) \<noteq> []"
    using assms(1)
    by (auto simp: normalize_request_def split: if_splits option.splits req_keys.splits req_source.splits)
  from runtime.retried_is_wanted [OF run assms(4) this] show ?thesis
    using r admitted_in_band by (auto simp: admitted_iff)
qed

definition demo_band :: jstate where
  "demo_band = \<lparr>js_rows =
     [(''9|geek'', (blank_row Failed ''2026-01-01'' PNull)\<lparr>jr_issueid := Some ''9'', jr_fail_reason := Some ''submission_rejected''\<rparr>),
      (''8|geek'', (blank_row Failed ''2026-01-05'' PNull)\<lparr>jr_issueid := Some ''8''\<rparr>)],
     js_obligations = [], js_activity = []\<rparr>"

definition demo_world :: "nat world" where
  "demo_world = \<lparr>wo_lib = demo_lib, wo_rest = 0\<rparr>"

definition demo_effects :: "nat world effects" where
  "demo_effects = runtime_effects
     (\<lambda>n. (Some \<lparr>he_success = True, he_error = None, he_message = None\<rparr>, n))
     (\<lambda>i trigger kind n. (Some \<lparr>se_success = True, se_status = None, se_error = None, se_message = None,
        se_run_id = Some ''r''\<rparr>, n + 1))
     (\<lambda>item n. (None, n))"

definition demo_request :: request where
  "demo_request = \<lparr>rq_action = VStr '' Retry'', rq_keys = KeySeq [VStr ''9|geek '', VStr ''none'', VStr ''8|geek'', VStr ''9|geek''],
     rq_actor = VStr ''op'', rq_source = NoSource\<rparr>"

definition demo_norm :: norm_request where
  "demo_norm = \<lparr>nr_action = Act_retry, nr_keys = [''9|geek'', ''none'', ''8|geek''], nr_actor = ''op'', nr_source = None\<rparr>"

lemma demo_norm_is: "normalize_request demo_request = Inr demo_norm"
  by code_simp

definition demo_run :: "res_report option \<times> jstate \<times> nat world" where
  "demo_run = projr (resolve_command demo_effects ''2026-02-01'' demo_request (demo_band, demo_world))"

lemma demo_run_is:
  "resolve_command demo_effects ''2026-02-01'' demo_request (demo_band, demo_world)
     = Inr (Some (the (fst demo_run)), fst (snd demo_run), snd (snd demo_run))"
proof -
  have "\<not> isl (resolve_command demo_effects ''2026-02-01'' demo_request (demo_band, demo_world))" by code_simp
  moreover have "fst demo_run \<noteq> None" by code_simp
  ultimately show ?thesis
    by (cases "resolve_command demo_effects ''2026-02-01'' demo_request (demo_band, demo_world)")
      (auto simp: demo_run_def)
qed

lemma demo_run_items:
  "map ri_key (rp_results (the (fst demo_run))) = [''8|geek'', ''none'', ''9|geek'']
   \<and> map ri_ok (rp_results (the (fst demo_run))) = [False, False, True]"
  by code_simp

theorem command_refines_band_witness:
  "''9|geek'' \<in> band demo_band
   \<and> band (fst (snd demo_run)) = abs_resolve demo_norm (rp_results (the (fst demo_run))) (band demo_band)"
proof -
  obtain a b c where xs: "rp_results (the (fst demo_run)) = [a, b, c]"
    and "ri_key c = ''9|geek''" "ri_ok c"
    using demo_run_items by (auto simp: map_eq_Cons_conv)
  then have "''9|geek'' \<in> set (map ri_key (filter ri_ok (rp_results (the (fst demo_run)))))" by auto
  then show ?thesis using command_refines_band [OF demo_run_is demo_norm_is] by blast
qed

theorem report_adds_up_witness:
  "rp_requested (the (fst demo_run)) = 3 \<and> rp_skipped (the (fst demo_run)) = 0"
  using report_adds_up [OF demo_run_is demo_norm_is] by (simp add: demo_norm_def)

definition demo_one :: "res_item option \<times> jstate \<times> nat world" where
  "demo_one = resolve_one demo_effects ''2026-02-01'' demo_norm ''9|geek'' (demo_band, demo_world)"

theorem retried_row_is_wanted_witness:
  "''9|geek'' \<in> band demo_band \<and> row_written (wo_lib (snd (snd demo_one))) ''9'' ''Wanted''"
proof -
  have "fst demo_one = Some (the (fst demo_one))" and ok: "ri_ok (the (fst demo_one))" by code_simp+
  then have "demo_one = (Some (the (fst demo_one)), fst (snd demo_one), snd (snd demo_one))" by (metis prod.collapse)
  then have one: "resolve_one demo_effects ''2026-02-01'' demo_norm ''9|geek'' (demo_band, demo_world)
      = (Some (the (fst demo_one)), fst (snd demo_one), snd (snd demo_one))" by (simp add: demo_one_def)
  have act: "nr_action demo_norm = Act_retry \<or> nr_action demo_norm = Act_search_again" by (simp add: demo_norm_def)
  obtain r where r: "js_row demo_band ''9|geek'' = Some r" and b: "''9|geek'' \<in> band demo_band"
    and l: "lib_status (the (row_issue_id r)) ''Wanted'' (snd (snd demo_one))"
    using retried_row_is_wanted [OF demo_norm_is act one [unfolded demo_effects_def] ok] by blast
  have "row_issue_id (the (js_row demo_band ''9|geek'')) = Some ''9''" by code_simp
  then show ?thesis using r b l by (simp add: lib_status_def)
qed

end
