(* ===== verification/AttentionGroups.thy ===== *)
theory AttentionGroups
  imports Resolve
begin

text \<open>
  \<open>comicarr/app/attention/_read.py\<close> and \<open>_grouping.py\<close>: the band an operator sees.  Rows are admitted by one
  condition, scoped to an issue, annual or series, ordered newest first, and gathered into groups by series and
  base reason.
\<close>

section \<open>Admitted rows\<close>

definition unresolved_condition :: "(char \<Rightarrow> char \<Rightarrow> bool) \<Rightarrow> jrow \<Rightarrow> bool" where
  "unresolved_condition same r \<longleftrightarrow>
     jr_stage r \<in> set TROUBLE_STAGES \<and> (jr_status r = None \<or> \<not> is_resolved (jr_status r))
     \<and> actionable_reason_condition same (jr_fail_reason r)"

text \<open>A scope as the caller gives it, and normalised; \<open>Inl\<close> is the message of the \<open>ValueError\<close>.\<close>

definition SCOPE_TYPES :: "string list" where
  "SCOPE_TYPES = [''issue'', ''annual'', ''series'']"

definition normalize_scope :: "(pval \<times> pval) option \<Rightarrow> string + (string \<times> string) option" where
  "normalize_scope scope =
     (case scope of None \<Rightarrow> Inr None
      | Some (t, i) \<Rightarrow>
          if t = VNone \<or> i = VNone then Inl ''scope_type and scope_id must be provided together''
          else let t' = py_lower (py_strip (py_str t)); i' = py_strip (py_str i) in
            if t' = [] \<or> i' = [] then Inl ''scope_type and scope_id must be provided together''
            else if t' \<notin> set SCOPE_TYPES then Inl ''scope_type must be one of: issue, annual, series''
            else Inr (Some (t', i')))"

definition series_member_issue_ids :: "olib \<Rightarrow> string \<Rightarrow> string list" where
  "series_member_issue_ids l sid =
     map is_id (filter (\<lambda>r. is_comicid r = Some sid) (ol_issues l))
     @ map is_id (filter (\<lambda>r. is_comicid r = Some sid) (ol_annuals l))"

definition scope_condition :: "olib \<Rightarrow> string \<times> string \<Rightarrow> jrow \<Rightarrow> bool" where
  "scope_condition l sc r =
     (if fst sc \<in> {''issue'', ''annual''} then jr_issueid r = Some (snd sc)
      else (case jr_issueid r of None \<Rightarrow> False | Some i \<Rightarrow> i \<in> set (series_member_issue_ids l (snd sc))))"

definition list_rows ::
  "(char \<Rightarrow> char \<Rightarrow> bool) \<Rightarrow> olib \<Rightarrow> jstate \<Rightarrow> (pval \<times> pval) option \<Rightarrow> string + (string \<times> jrow) list" where
  "list_rows same l j scope =
     (case normalize_scope scope of
        Inl e \<Rightarrow> Inl e
      | Inr sc \<Rightarrow> Inr (sort_desc pair_le (\<lambda>(k, r). (jr_updated r, k))
          (filter (\<lambda>(k, r). unresolved_condition same r
             \<and> (case sc of None \<Rightarrow> True | Some x \<Rightarrow> scope_condition l x r)) (js_rows j))))"

section \<open>Labels\<close>

text \<open>\<open>_text\<close>: the stripped text of a value, \<open>None\<close> when nothing is left.\<close>

definition text_of :: "pval \<Rightarrow> string option" where
  "text_of v = (if pv_empty v then None else if py_strip (py_str v) = [] then None else Some (py_strip (py_str v)))"

definition some_text :: "string option \<Rightarrow> string" where
  "some_text t = (case t of None \<Rightarrow> [] | Some s \<Rightarrow> s)"

definition short_release_key :: "string \<Rightarrow> string" where
  "short_release_key rk =
     (let key = some_text (text_of (VStr rk)); tail = last (py_split CHR ''|'' key)
      in if tail \<noteq> [] then take 24 tail else take 24 key)"

definition payload_text :: "payload \<Rightarrow> string \<Rightarrow> string \<Rightarrow> string option" where
  "payload_text p k1 k2 = py_or (text_of (pv_get p k1)) (text_of (pv_get p k2))"

definition series_key :: "payload \<Rightarrow> string \<Rightarrow> string \<times> bool" where
  "series_key p rk =
     (case payload_text p ''comicid'' ''ComicID'' of
        Some c \<Rightarrow> (c, True)
      | None \<Rightarrow> (some_text (text_of (VStr rk)), False))"

definition group_key :: "string \<Rightarrow> string option \<Rightarrow> string" where
  "group_key identity token = identity @ ''|'' @ some_text token"

definition series_label :: "payload \<Rightarrow> string \<Rightarrow> bool \<Rightarrow> string" where
  "series_label p rk has_comicid =
     (case payload_text p ''comicname'' ''ComicName'' of
        Some n \<Rightarrow> n
      | None \<Rightarrow>
          if has_comicid then ''Series '' @ some_text (payload_text p ''comicid'' ''ComicID'')
          else (case payload_text p ''nzbname'' ''nzb_name'' of
                  Some n \<Rightarrow> n | None \<Rightarrow> short_release_key rk))"

definition member_label :: "string \<Rightarrow> jrow \<Rightarrow> payload \<Rightarrow> string" where
  "member_label rk r p =
     (case (payload_text p ''comicname'' ''ComicName'', payload_text p ''issuenumber'' ''Issue_Number'') of
        (Some n, Some i) \<Rightarrow> n @ '' #'' @ i
      | (Some n, None) \<Rightarrow> n
      | (None, _) \<Rightarrow>
          (case py_or (payload_text p ''nzbname'' ''nzb_name'') (text_of (opt_pv (jr_nzbname r))) of
             Some n \<Rightarrow> n
           | None \<Rightarrow>
               (case py_or (text_of (opt_pv (jr_issueid r))) (text_of (pv_get p ''issueid'')) of
                  Some i \<Rightarrow> ''issue '' @ i
                | None \<Rightarrow> short_release_key rk)))"

section \<open>Groups\<close>

record member =
  mb_key :: string
  mb_label :: string
  mb_issue_id :: "string option"
  mb_stage :: stage
  mb_actions :: "aaction list"
  mb_updated :: string

record bucket =
  bk_key :: string
  bk_comicid :: "string option"
  bk_label :: string
  bk_reason :: "string option"
  bk_phrase :: string
  bk_count :: nat
  bk_newest :: string
  bk_oldest :: string
  bk_members :: "member list"
  bk_stages :: "stage list"

record group =
  gp_key :: string
  gp_comicid :: "string option"
  gp_label :: string
  gp_reason :: "string option"
  gp_phrase :: string
  gp_count :: nat
  gp_newest :: string
  gp_oldest :: string
  gp_stage :: string
  gp_actions :: "aaction list"
  gp_members :: "member list"

record view =
  vw_groups :: "group list"
  vw_total :: nat
  vw_member_total :: nat

definition str_less :: "string \<Rightarrow> string \<Rightarrow> bool" where
  "str_less a b = (\<not> str_le b a)"

definition member_of :: "string \<times> jrow \<Rightarrow> member" where
  "member_of kr =
     (case kr of (k, r) \<Rightarrow>
        \<lparr>mb_key = k, mb_label = member_label k r (row_payload r),
         mb_issue_id = py_or (text_of (opt_pv (jr_issueid r))) (text_of (pv_get (row_payload r) ''issueid'')),
         mb_stage = jr_stage r, mb_actions = STAGE_ACTIONS (jr_stage r), mb_updated = jr_updated r\<rparr>)"

definition row_updated :: "jrow \<Rightarrow> string" where
  "row_updated r = some_text (text_of (VStr (jr_updated r)))"

definition new_bucket :: "string \<times> jrow \<Rightarrow> string \<Rightarrow> bucket" where
  "new_bucket kr key =
     (case kr of (k, r) \<Rightarrow>
        (let p = row_payload r; (identity, has) = series_key p k in
         \<lparr>bk_key = key, bk_comicid = (if has then Some identity else None), bk_label = series_label p k has,
          bk_reason = base_reason (jr_fail_reason r), bk_phrase = reason_phrase (jr_fail_reason r), bk_count = 0,
          bk_newest = row_updated r, bk_oldest = row_updated r, bk_members = [], bk_stages = []\<rparr>))"

definition join_bucket :: "string \<times> jrow \<Rightarrow> bucket \<Rightarrow> bucket" where
  "join_bucket kr b =
     (let u = row_updated (snd kr) in
      b\<lparr>bk_count := bk_count b + 1,
        bk_members := bk_members b @ [member_of kr],
        bk_stages := (if jr_stage (snd kr) \<in> set (bk_stages b) then bk_stages b else bk_stages b @ [jr_stage (snd kr)]),
        bk_newest := (if str_less (bk_newest b) u then u else bk_newest b),
        bk_oldest := (if bk_oldest b = [] \<or> (u \<noteq> [] \<and> str_less u (bk_oldest b)) then u else bk_oldest b)\<rparr>)"

definition row_group_key :: "string \<times> jrow \<Rightarrow> string" where
  "row_group_key kr =
     (case kr of (k, r) \<Rightarrow> group_key (fst (series_key (row_payload r) k)) (base_reason (jr_fail_reason r)))"

text \<open>The dictionary \<open>buckets\<close> is insertion ordered, so it is also the list \<open>order\<close>.\<close>

definition add_row :: "string \<times> jrow \<Rightarrow> bucket dict \<Rightarrow> bucket dict" where
  "add_row kr bs =
     (let key = row_group_key kr;
          b = (case dict_get bs key of None \<Rightarrow> new_bucket kr key | Some b \<Rightarrow> b)
      in dict_set key (join_bucket kr b) bs)"

definition available_actions :: "stage list \<Rightarrow> aaction list" where
  "available_actions stages = (case stages of [s] \<Rightarrow> STAGE_ACTIONS s | _ \<Rightarrow> [])"

definition stage_of_group :: "stage list \<Rightarrow> string" where
  "stage_of_group stages = (case stages of [s] \<Rightarrow> stage_name s | _ \<Rightarrow> ''mixed'')"

definition group_of :: "bucket \<Rightarrow> group" where
  "group_of b =
     \<lparr>gp_key = bk_key b, gp_comicid = bk_comicid b, gp_label = bk_label b, gp_reason = bk_reason b,
      gp_phrase = bk_phrase b, gp_count = bk_count b, gp_newest = bk_newest b, gp_oldest = bk_oldest b,
      gp_stage = stage_of_group (bk_stages b), gp_actions = available_actions (bk_stages b),
      gp_members = bk_members b\<rparr>"

definition build_groups :: "(string \<times> jrow) list \<Rightarrow> group list" where
  "build_groups rows =
     sort_desc pair_le (\<lambda>g. (gp_newest g, gp_key g)) (map (\<lambda>(k, b). group_of b) (fold add_row rows []))"

definition read_view ::
  "(char \<Rightarrow> char \<Rightarrow> bool) \<Rightarrow> olib \<Rightarrow> jstate \<Rightarrow> (pval \<times> pval) option \<Rightarrow> string + view" where
  "read_view same l j scope =
     (case list_rows same l j scope of
        Inl e \<Rightarrow> Inl e
      | Inr rows \<Rightarrow>
          let gs = build_groups rows in
          Inr \<lparr>vw_groups = gs, vw_total = length gs, vw_member_total = sum_list (map gp_count gs)\<rparr>)"

section \<open>The dictionary of buckets\<close>

definition bucket_ok :: "string \<times> bucket \<Rightarrow> bool" where
  "bucket_ok kb \<longleftrightarrow>
     bk_key (snd kb) = fst kb \<and> bk_count (snd kb) = length (bk_members (snd kb))
     \<and> set (bk_stages (snd kb)) = mb_stage ` set (bk_members (snd kb)) \<and> distinct (bk_stages (snd kb))
     \<and> (\<forall>m \<in> set (bk_members (snd kb)). str_le (some_text (text_of (VStr (mb_updated m)))) (bk_newest (snd kb)))"

lemma str_le_refl [simp]: "str_le a a"
  using str_le_total by blast

lemma join_bucket_ok: "bucket_ok (k, b) \<Longrightarrow> bucket_ok (k, join_bucket kr b)"
proof -
  assume b: "bucket_ok (k, b)"
  have n: "str_le (bk_newest b) (bk_newest (join_bucket kr b))" "str_le (row_updated (snd kr)) (bk_newest (join_bucket kr b))"
    using str_le_total by (auto simp: join_bucket_def Let_def str_less_def)
  have "\<forall>m \<in> set (bk_members b). str_le (some_text (text_of (VStr (mb_updated m)))) (bk_newest (join_bucket kr b))"
    using b str_le_trans [OF _ n(1)] by (simp add: bucket_ok_def)
  moreover have "some_text (text_of (VStr (mb_updated (member_of kr)))) = row_updated (snd kr)"
    and "mb_stage (member_of kr) = jr_stage (snd kr)"
    by (simp_all add: member_of_def row_updated_def split: prod.splits)
  moreover have "bk_members (join_bucket kr b) = bk_members b @ [member_of kr]"
    and "bk_count (join_bucket kr b) = bk_count b + 1" and "bk_key (join_bucket kr b) = bk_key b"
    and "bk_stages (join_bucket kr b) = (if jr_stage (snd kr) \<in> set (bk_stages b) then bk_stages b
           else bk_stages b @ [jr_stage (snd kr)])"
    by (simp_all add: join_bucket_def Let_def)
  ultimately show ?thesis using b n(2) by (auto simp: bucket_ok_def)
qed

lemma new_bucket_ok: "bucket_ok (k, new_bucket kr k)"
  by (simp add: bucket_ok_def new_bucket_def Let_def split: prod.splits)

lemma concat_update:
  "f b' = f (case map_of al k of None \<Rightarrow> nb | Some b \<Rightarrow> b) @ [x] \<Longrightarrow> f nb = [] \<Longrightarrow>
   mset (concat (map (\<lambda>(k, b). f b) (AList.update k b' al))) = mset (concat (map (\<lambda>(k, b). f b) al)) + {#x#}"
  by (induction al) (auto split: if_splits)

definition member_keys :: "bucket dict \<Rightarrow> string list" where
  "member_keys bs = concat (map (\<lambda>(k, b). map mb_key (bk_members b)) bs)"

lemma add_row_members: "mset (member_keys (add_row kr bs)) = mset (member_keys bs) + {#fst kr#}"
proof -
  let ?k = "row_group_key kr"
  have j: "map mb_key (bk_members (join_bucket kr b)) = map mb_key (bk_members b) @ [fst kr]" for b
    by (simp add: join_bucket_def Let_def member_of_def split: prod.splits)
  have n: "bk_members (new_bucket kr ?k) = []"
    by (simp add: new_bucket_def Let_def split: prod.splits)
  show ?thesis
    unfolding member_keys_def add_row_def Let_def dict_set_def dict_get_def
    by (rule concat_update [where nb = "new_bucket kr ?k"]) (simp_all add: j n)
qed

definition buckets_ok :: "bucket dict \<Rightarrow> bool" where
  "buckets_ok bs \<longleftrightarrow> dict_ok bs \<and> (\<forall>kb \<in> set bs. bucket_ok kb)"

lemma add_row_ok:
  assumes "buckets_ok bs"
  shows "buckets_ok (add_row kr bs)"
proof -
  let ?k = "row_group_key kr"
  have "bucket_ok (?k, case dict_get bs ?k of None \<Rightarrow> new_bucket kr ?k | Some b \<Rightarrow> b)"
    using assms new_bucket_ok by (auto simp: buckets_ok_def dict_get_def dest: map_of_SomeD split: option.splits)
  then have "bucket_ok (?k, join_bucket kr (case dict_get bs ?k of None \<Rightarrow> new_bucket kr ?k | Some b \<Rightarrow> b))"
    by (rule join_bucket_ok)
  moreover have "set (dict_set k v bs) \<subseteq> insert (k, v) (set bs)" for k and v :: bucket
    by (induction bs) (auto simp: dict_set_def split: if_splits)
  ultimately show ?thesis using assms unfolding buckets_ok_def add_row_def Let_def
    by (metis (no_types, lifting) dict_ok_set insertE subsetD)
qed

lemma fold_rows:
  "buckets_ok bs \<Longrightarrow> buckets_ok (fold add_row rows bs)
     \<and> mset (member_keys (fold add_row rows bs)) = mset (member_keys bs) + mset (map fst rows)"
proof (induction rows arbitrary: bs)
  case (Cons kr rows)
  then show ?case using Cons.IH [OF add_row_ok [OF Cons.prems, of kr]] by (simp add: add_row_members)
qed simp

end
