(* ===== verification/AttentionGroupsProps.thy ===== *)
theory AttentionGroupsProps
  imports AttentionGroups ResolveProps
begin

text \<open>What the operator's view guarantees: the groups are the partition of the admitted rows by series and base
  reason, newest first, and every action a group offers is one the resolver accepts for each of its members.\<close>

section \<open>The partition\<close>

lemma add_row_get: "dict_get (add_row kr bs) k =
    (if k = row_group_key kr
     then Some (join_bucket kr (case dict_get bs k of None \<Rightarrow> new_bucket kr k | Some b \<Rightarrow> b))
     else dict_get bs k)"
  by (auto simp: add_row_def Let_def dict_get_set)

lemma join_members: "bk_members (join_bucket kr b) = bk_members b @ [member_of kr]"
  by (simp add: join_bucket_def Let_def)

lemma new_members: "bk_members (new_bucket kr k) = []"
  by (simp add: new_bucket_def Let_def split: prod.splits)

lemma bucket_members:
  "(case dict_get (fold add_row rows []) k of None \<Rightarrow> [] | Some b \<Rightarrow> bk_members b)
     = map member_of (filter (\<lambda>kr. row_group_key kr = k) rows)
   \<and> (dict_get (fold add_row rows []) k \<noteq> None \<longleftrightarrow> k \<in> row_group_key ` set rows)"
proof (induction rows rule: rev_induct)
  case (snoc kr rows)
  then show ?case
    by (cases "dict_get (fold add_row rows []) k") (auto simp: add_row_get join_members new_members)
qed simp

lemma buckets_of_rows: "buckets_ok (fold add_row rows [])"
  using fold_rows [of "[]" rows] by (simp add: buckets_ok_def)

lemma in_groups:
  assumes "g \<in> set (build_groups rows)"
  obtains b where "g = group_of b" and "dict_get (fold add_row rows []) (bk_key b) = Some b" and "bucket_ok (bk_key b, b)"
proof -
  obtain k b where kb: "(k, b) \<in> set (fold add_row rows [])" and g: "g = group_of b"
    using assms by (auto simp: build_groups_def)
  then have "bucket_ok (k, b)" using buckets_of_rows [of rows] by (auto simp: buckets_ok_def)
  moreover from this have "k = bk_key b" by (simp add: bucket_ok_def)
  moreover have "dict_get (fold add_row rows []) k = Some b"
    using kb buckets_of_rows [of rows] by (simp add: buckets_ok_def dict_ok_def dict_get_def)
  ultimately show ?thesis using that g by blast
qed

lemma mset_group_keys: "mset (map gp_key (build_groups rows)) = mset (map fst (fold add_row rows []))"
proof -
  have "mset (map gp_key (build_groups rows)) = image_mset gp_key (mset (map (\<lambda>(k, b). group_of b) (fold add_row rows [])))"
    unfolding build_groups_def by (simp only: mset_map mset_sort_desc)
  also have "\<dots> = mset (map (\<lambda>kb. bk_key (snd kb)) (fold add_row rows []))"
    by (simp add: multiset.map_comp comp_def group_of_def case_prod_beta)
  also have "map (\<lambda>kb. bk_key (snd kb)) (fold add_row rows []) = map fst (fold add_row rows [])"
    using buckets_of_rows [of rows] by (auto simp: buckets_ok_def bucket_ok_def)
  finally show ?thesis .
qed

definition is_group_of :: "(string \<times> jrow) list \<Rightarrow> group \<Rightarrow> bool" where
  "is_group_of rows g \<longleftrightarrow>
     gp_members g = map member_of (filter (\<lambda>kr. row_group_key kr = gp_key g) rows)
     \<and> gp_count g = length (gp_members g)"

lemma group_is_class: "g \<in> set (build_groups rows) \<Longrightarrow> is_group_of rows g"
proof -
  assume "g \<in> set (build_groups rows)"
  then obtain b where b: "g = group_of b" "dict_get (fold add_row rows []) (bk_key b) = Some b" "bucket_ok (bk_key b, b)"
    by (rule in_groups)
  then show ?thesis
    using bucket_members [of rows "bk_key b"] by (simp add: is_group_of_def group_of_def bucket_ok_def)
qed

text \<open>The groups are the partition of the rows by series identity and base reason: one group per key that
  occurs, no key twice, and a group's members are exactly the rows of its key, in the order of the rows, as
  many as it counts.\<close>

theorem groups_partition_rows:
  "set (map gp_key (build_groups rows)) = row_group_key ` set rows
   \<and> distinct (map gp_key (build_groups rows)) \<and> list_all (is_group_of rows) (build_groups rows)"
proof (intro conjI)
  have d: "distinct (map fst (fold add_row rows []))"
    using buckets_of_rows [of rows] by (simp add: buckets_ok_def dict_ok_def)
  show "distinct (map gp_key (build_groups rows))"
    using mset_eq_imp_distinct_iff [OF mset_group_keys] d by blast
  have "set (map gp_key (build_groups rows)) = set (map fst (fold add_row rows []))"
    by (rule mset_eq_setD [OF mset_group_keys])
  also have "\<dots> = {k. dict_get (fold add_row rows []) k \<noteq> None}"
    by (auto simp: dict_get_def map_of_eq_None_iff)
  also have "\<dots> = row_group_key ` set rows" using bucket_members [of rows] by auto
  finally show "set (map gp_key (build_groups rows)) = row_group_key ` set rows" .
  show "list_all (is_group_of rows) (build_groups rows)"
    using group_is_class by (simp add: list_all_iff)
qed

text \<open>Groups come newest first, by the newest update among their members and then by key.\<close>

theorem groups_newest_first:
  "sorted_wrt (\<lambda>g h. pair_le (gp_newest h, gp_key h) (gp_newest g, gp_key g)) (build_groups rows)
   \<and> list_all (\<lambda>g. list_all (\<lambda>m. str_le (some_text (text_of (VStr (mb_updated m)))) (gp_newest g)) (gp_members g))
       (build_groups rows)"
proof (intro conjI)
  show "sorted_wrt (\<lambda>g h. pair_le (gp_newest h, gp_key h) (gp_newest g, gp_key g)) (build_groups rows)"
    unfolding build_groups_def by (rule pairs.sort_desc_sorted)
  show "list_all (\<lambda>g. list_all (\<lambda>m. str_le (some_text (text_of (VStr (mb_updated m)))) (gp_newest g)) (gp_members g))
       (build_groups rows)"
    by (auto simp: list_all_iff group_of_def bucket_ok_def elim!: in_groups)
qed

section \<open>The view and the resolver\<close>

lemma listed_row:
  assumes "list_rows same l j scope = Inr rows" and "dict_ok (js_rows j)" and "(k, r) \<in> set rows"
  shows "admitted_row j k = Inr r \<and> actionable_reason_condition same (jr_fail_reason r)"
proof -
  have "(k, r) \<in> set (js_rows j)" and u: "unresolved_condition same r"
    using assms(1,3) by (auto simp: list_rows_def split: sum.splits)
  then have "js_row j k = Some r" using assms(2) by (simp add: js_row_def dict_get_def dict_ok_def)
  with u show ?thesis by (auto simp: admitted_iff unresolved_condition_def is_resolved_def)
qed

text \<open>The view and the command path agree: every action a group offers is accepted for each of its members,
  which is an unresolved row of the band, so a click is never answered with row not found, not in attention,
  already resolved or action not allowed unless something else changed the row in between.\<close>

theorem offered_actions_are_accepted:
  assumes "read_view same l j scope = Inr v" and "dict_ok (js_rows j)"
    and "g \<in> set (vw_groups v)" and "m \<in> set (gp_members g)" and "a \<in> set (gp_actions g)"
  shows "\<exists>r. admitted_row j (mb_key m) = Inr r \<and> a \<in> set (STAGE_ACTIONS (jr_stage r))"
proof -
  obtain rows where rows: "list_rows same l j scope = Inr rows" and g: "g \<in> set (build_groups rows)"
    using assms(1,3) by (auto simp: read_view_def Let_def split: sum.splits)
  have "is_group_of rows g" using group_is_class g by blast
  then obtain kr where kr: "kr \<in> set rows" "m = member_of kr" using assms(4) by (auto simp: is_group_of_def)
  obtain k r where k: "kr = (k, r)" by (cases kr)
  have adm: "admitted_row j k = Inr r" using listed_row [OF rows assms(2)] kr k by blast
  obtain b where b: "g = group_of b" "bucket_ok (bk_key b, b)" using g by (rule in_groups)
  obtain st where st: "bk_stages b = [st]" and a: "a \<in> set (STAGE_ACTIONS st)"
    using assms(5) b by (auto simp: group_of_def available_actions_def split: list.splits)
  have "mb_stage m \<in> set (bk_stages b)" using b assms(4) by (auto simp: bucket_ok_def group_of_def)
  then have "jr_stage r = st" using st kr k by (simp add: member_of_def)
  then show ?thesis using adm a kr k by (auto simp: member_of_def)
qed

lemma mset_concat_map: "mset (concat (map f xs)) = (\<Sum>x \<in># mset xs. mset (f x))"
  by (induction xs) auto

text \<open>The totals of a view are the number of its groups and the number of admitted rows in scope: grouping
  neither loses nor repeats an obligation.\<close>

theorem view_counts_every_row:
  assumes "list_rows same l j scope = Inr rows"
  shows "\<exists>v. read_view same l j scope = Inr v \<and> vw_member_total v = length rows \<and> vw_total v = length (vw_groups v)
    \<and> mset (concat (map (map mb_key \<circ> gp_members) (vw_groups v))) = mset (map fst rows)"
proof -
  have c: "mset (concat (map F (build_groups rows))) = mset (concat (map (\<lambda>(k, b). F (group_of b)) (fold add_row rows [])))"
    for F :: "group \<Rightarrow> string list"
    by (simp add: mset_concat_map build_groups_def multiset.map_comp comp_def case_prod_beta)
  have keys: "mset (concat (map (map mb_key \<circ> gp_members) (build_groups rows))) = mset (map fst rows)"
    using c [of "map mb_key \<circ> gp_members"] fold_rows [of "[]" rows]
    by (simp add: member_keys_def buckets_ok_def group_of_def comp_def case_prod_beta)
  have "sum_list (map gp_count (build_groups rows)) = length (concat (map (map mb_key \<circ> gp_members) (build_groups rows)))"
    using group_is_class
    by (simp add: length_concat comp_def) (metis (mono_tags, lifting) is_group_of_def map_eq_conv)
  also have "\<dots> = length rows" using mset_eq_length [OF keys] by simp
  finally show ?thesis using assms keys by (simp add: read_view_def Let_def)
qed

definition demo_rows :: "(string \<times> jrow) list" where
  "demo_rows = projr (list_rows (=) demo_lib demo_band None)"

lemma demo_rows_listed: "list_rows (=) demo_lib demo_band None = Inr demo_rows"
  by (simp add: demo_rows_def list_rows_def normalize_scope_def)

definition demo_view :: view where
  "demo_view = projr (read_view (=) demo_lib demo_band None)"

lemma demo_view_read: "read_view (=) demo_lib demo_band None = Inr demo_view"
  by (simp add: demo_view_def read_view_def demo_rows_listed Let_def)

theorem view_counts_every_row_witness: "vw_member_total demo_view = 2 \<and> vw_total demo_view = 2"
proof -
  have "length demo_rows = 2" and "length (vw_groups demo_view) = 2" by code_simp+
  moreover obtain v where "read_view (=) demo_lib demo_band None = Inr v" "vw_member_total v = length demo_rows"
      "vw_total v = length (vw_groups v)"
    using view_counts_every_row [OF demo_rows_listed] by blast
  ultimately show ?thesis using demo_view_read by simp
qed

definition demo_group :: group where
  "demo_group = hd (vw_groups demo_view)"

theorem offered_actions_are_accepted_witness:
  "\<exists>r. admitted_row demo_band ''8|geek'' = Inr r \<and> Act_retry \<in> set (STAGE_ACTIONS (jr_stage r))"
proof -
  have d: "dict_ok (js_rows demo_band)" by (simp add: dict_ok_def demo_band_def)
  have g: "vw_groups demo_view \<noteq> []" by code_simp
  have ks: "map mb_key (gp_members demo_group) = [''8|geek'']" and a: "Act_retry \<in> set (gp_actions demo_group)"
    by code_simp+
  then obtain m where m: "gp_members demo_group = [m]" "mb_key m = ''8|geek''" by (auto simp: map_eq_Cons_conv)
  have "demo_group \<in> set (vw_groups demo_view)" using g by (simp add: demo_group_def)
  from offered_actions_are_accepted [OF demo_view_read d this _ a, of m] m show ?thesis by simp
qed

end
