(* ===== verification/RecoveryClassify.thy ===== *)
theory RecoveryClassify
  imports Reconcile
begin

text \<open>
  \<open>comicarr/app/downloads/recovery_classify.py\<close>: what became of an open download while the application was down.
  The verdict combines the answer of the download client with the done-signals the library keeps, since a client
  whose history was pruned answers "absent" for finished work.  The clients are parameters; \<open>None\<close> as an answer
  is a raised exception.
\<close>

section \<open>State and evidence\<close>

record ddl_row =
  dd_id :: "string option"
  dd_issueid :: "string option"
  dd_status :: "string option"
  dd_link :: "string option"
  dd_mainlink :: "string option"
  dd_filename :: "string option"
  dd_comicid :: "string option"

text \<open>The tables the classification reads, with whether a lookup in each of them succeeds.\<close>

record cdb =
  cd_lib :: olib
  cd_nzblog :: "(string option \<times> string option) list"
  cd_ddl :: "ddl_row list"
  cd_library_up :: bool
  cd_nzblog_up :: bool
  cd_ddl_up :: bool

datatype verdict = STILL | COMPLETE | GONE | UNKNOWN

record details =
  dt_verdict :: verdict
  dt_location :: pval
  dt_name :: pval
  dt_failed :: pval
  dt_nzo_id :: pval
  dt_raw :: "string option"

section \<open>Done signals\<close>

definition journal_stage_done :: "jrow \<Rightarrow> bool" where
  "journal_stage_done r = (STAGE_RANK Post_processing \<le> STAGE_RANK (jr_stage r))"

definition PLACED_STATUSES :: "string list" where
  "PLACED_STATUSES = [''Downloaded'', ''Post-Processed'']"

definition first_with_id :: "string \<Rightarrow> issue_row list \<Rightarrow> issue_row list" where
  "first_with_id i rows = (case find (\<lambda>r. is_id r = i) rows of None \<Rightarrow> [] | Some r \<Rightarrow> [r])"

text \<open>\<open>_library_rows\<close>; the arc signal is \<open>Some True\<close> for a story arc, \<open>Some False\<close> for a plain issue, \<open>None\<close>
  when the caller could not tell.\<close>

definition library_rows :: "cdb \<Rightarrow> string \<Rightarrow> bool option \<Rightarrow> issue_row list option" where
  "library_rows d i story_arc =
     (if \<not> cd_library_up d then None
      else Some ((if story_arc \<noteq> Some False then first_with_id i (ol_storyarcs (cd_lib d)) else [])
              @ (if story_arc \<noteq> Some True
                 then first_with_id i (ol_issues (cd_lib d)) @ first_with_id i (ol_annuals (cd_lib d)) else [])))"

definition status_or_empty :: "issue_row \<Rightarrow> string" where
  "status_or_empty r = (case is_status r of None \<Rightarrow> [] | Some s \<Rightarrow> s)"

definition library_status_done :: "cdb \<Rightarrow> string option \<Rightarrow> bool option \<Rightarrow> bool" where
  "library_status_done d issueid story_arc =
     (case issueid of None \<Rightarrow> False
      | Some i \<Rightarrow> (case library_rows d i story_arc of
                     None \<Rightarrow> False
                   | Some recs \<Rightarrow> list_ex (\<lambda>r. status_or_empty r \<in> set PLACED_STATUSES) recs))"

definition nzblog_has :: "cdb \<Rightarrow> string \<Rightarrow> string option \<Rightarrow> bool" where
  "nzblog_has d i provider = list_ex (\<lambda>(a, p). a = Some i \<and> (present provider \<longrightarrow> p = provider)) (cd_nzblog d)"

definition nzblog_present :: "cdb \<Rightarrow> string option \<Rightarrow> string option \<Rightarrow> bool option \<Rightarrow> bool option" where
  "nzblog_present d issueid provider story_arc =
     (case issueid of None \<Rightarrow> None
      | Some i \<Rightarrow>
          if \<not> cd_nzblog_up d then None
          else (case story_arc of
                  Some False \<Rightarrow> Some (nzblog_has d i provider)
                | Some True \<Rightarrow> Some (nzblog_has d i provider \<or> nzblog_has d (CHR ''S'' # i) provider)
                | None \<Rightarrow> if nzblog_has d i provider then Some True
                           else Some (nzblog_has d (CHR ''S'' # i) provider)))"

definition row_shows_placement :: "issue_row \<Rightarrow> bool" where
  "row_shows_placement r =
     (status_or_empty r \<in> set PLACED_STATUSES
      \<or> py_strip (case is_location r of None \<Rightarrow> [] | Some s \<Rightarrow> s) \<noteq> [])"

definition payload_story_arc :: "pval \<Rightarrow> bool option" where
  "payload_story_arc p =
     (case p of VDict d \<Rightarrow> map_option (\<lambda>m. m = VStr ''story_arc'') (dict_get d ''mode'') | _ \<Rightarrow> None)"

definition row_story_arc :: "jrow \<Rightarrow> bool option" where
  "row_story_arc r = payload_story_arc (load_payload (jr_payload r))"

definition has_library_placement :: "cdb \<Rightarrow> jrow \<Rightarrow> pval \<Rightarrow> bool" where
  "has_library_placement d r payload =
     (case jr_issueid r of None \<Rightarrow> False
      | Some i \<Rightarrow>
          (case library_rows d i (payload_story_arc (if payload = VNone then load_payload (jr_payload r) else payload)) of
             None \<Rightarrow> False | Some recs \<Rightarrow> list_ex row_shows_placement recs))"

definition REOPEN_SAFE_STATUSES :: "string list" where
  "REOPEN_SAFE_STATUSES = [[], ''Snatched'', ''Wanted'', ''Failed'']"

definition false_terminal_reopen_candidate :: "cdb \<Rightarrow> jrow \<Rightarrow> pval \<Rightarrow> bool" where
  "false_terminal_reopen_candidate d r payload =
     (if jr_stage r \<noteq> Post_processed then False
      else case jr_issueid r of None \<Rightarrow> False
      | Some i \<Rightarrow>
          if is_synthetic_oneoff (Some i) then False
          else (case library_rows d i (payload_story_arc (if payload = VNone then load_payload (jr_payload r) else payload)) of
                  None \<Rightarrow> False
                | Some recs \<Rightarrow> recs \<noteq> []
                    \<and> list_all (\<lambda>q. \<not> row_shows_placement q \<and> status_or_empty q \<in> set REOPEN_SAFE_STATUSES) recs))"

definition has_done_signal :: "cdb \<Rightarrow> jrow \<Rightarrow> bool" where
  "has_done_signal d r =
     (if journal_stage_done r then True
      else if library_status_done d (jr_issueid r) (row_story_arc r) then True
      else if is_synthetic_oneoff (jr_issueid r) then False
      else nzblog_present d (jr_issueid r) (jr_provider r) (row_story_arc r) = Some False)"

section \<open>Probes\<close>

definition row_payload_or :: "jrow \<Rightarrow> payload" where
  "row_payload_or r = as_dict (load_payload (jr_payload r))"

text \<open>\<open>info h\<close> stands for \<open>torrentinfo(torrent_hash=h)\<close>.\<close>

definition probe_torrent :: "(string \<Rightarrow> pval option) \<Rightarrow> jrow \<Rightarrow> pval" where
  "probe_torrent info r =
     VStr (if \<not> present (jr_hash r) then ''unreachable''
       else case info (the (jr_hash r)) of
         Some (VDict d) \<Rightarrow>
           (let s = pv_get d ''snatch_status'' in
            if s = VStr ''NOT FOUND'' then ''absent''
            else if s = VStr ''IN PROGRESS'' then ''still''
            else if s = VStr ''MONITOR COMPLETE'' \<or> s = VStr ''MONITOR STARTING'' then ''complete''
            else if s = VStr ''MONITOR ERROR'' \<or> s = VStr ''MONITOR FAIL'' then ''unreachable''
            else ''absent'')
       | _ \<Rightarrow> ''unreachable'')"

text \<open>The SABnzbd and NZBGet clients.\<close>

record sab_client =
  sc_names :: "payload \<Rightarrow> jrow \<Rightarrow> string list option"
  sc_match :: "string list \<Rightarrow> payload \<Rightarrow> pval option"
  sc_queue :: "string \<Rightarrow> bool option"
  sc_history :: "string \<Rightarrow> bool \<Rightarrow> pval option"

definition sab_client_id :: "payload \<Rightarrow> string option" where
  "sab_client_id p =
     (let di = as_dict (pv_get p ''download_info'') in
      if \<not> pv_empty (pv_get p ''nzo_id'') then Some (py_str (pv_get p ''nzo_id''))
      else if \<not> pv_empty (pv_get di ''nzo_id'') then Some (py_str (pv_get di ''nzo_id''))
      else if \<not> pv_empty (pv_get di ''id'') \<and> py_startswith (py_str (pv_get di ''id'')) ''SABnzbd_nzo''
      then Some (py_str (pv_get di ''id'')) else None)"

text \<open>The slot matched by name is known through its \<open>nzo_id\<close>, \<open>VNone\<close> when there is none.\<close>

definition sab_lookup_id :: "sab_client \<Rightarrow> jrow \<Rightarrow> payload \<Rightarrow> string list \<Rightarrow> string + pval" where
  "sab_lookup_id c r p names =
     (if present (sab_client_id p) then Inr (VStr (the (sab_client_id p)))
      else if names = [] then Inl ''unprobeable''
      else (case sc_match c names p of
              None \<Rightarrow> Inl ''unreachable''
            | Some v \<Rightarrow> if truthy v then Inr v else Inl ''unprobeable''))"

definition sab_history_or_queue :: "sab_client \<Rightarrow> bool \<Rightarrow> jrow \<Rightarrow> pval" where
  "sab_history_or_queue c keep_history r =
     (let p = row_payload_or r in
      case sc_names c p r of
        None \<Rightarrow> VStr ''unreachable''
      | Some names \<Rightarrow>
          (case sab_lookup_id c r p names of
             Inl raw \<Rightarrow> VStr raw
           | Inr nzo \<Rightarrow>
               (case sc_queue c (py_str nzo) of
                  None \<Rightarrow> VStr ''unreachable''
                | Some True \<Rightarrow> VStr ''still''
                | Some False \<Rightarrow>
                    (case sc_history c (py_str nzo) keep_history of
                       None \<Rightarrow> VStr ''unreachable''
                     | Some (VDict d) \<Rightarrow>
                         if truthy (pv_get d ''nzo_id'') then VDict d else VDict (dict_set ''nzo_id'' nzo d)
                     | Some v \<Rightarrow> v))))"

definition nzbget_history :: "(string \<Rightarrow> pval option) \<Rightarrow> jrow \<Rightarrow> pval" where
  "nzbget_history history r =
     (let p = row_payload_or r;
          nzbid = pv_or (pv_get p ''NZBID'') (pv_get (as_dict (pv_get p ''download_info'')) ''NZBID'')
      in if \<not> truthy nzbid then VStr ''unprobeable''
         else case history (py_str nzbid) of None \<Rightarrow> VStr ''unreachable'' | Some v \<Rightarrow> v)"

text \<open>\<open>_nzstat_to_raw\<close> on the dictionary a client's history check returned.\<close>

definition nzstat_to_raw :: "payload \<Rightarrow> string" where
  "nzstat_to_raw d =
     (let s = pv_get d ''status'' in
      if s = VBool True then ''complete''
      else if s = VStr ''double-pp'' then ''complete''
      else if s = VStr ''queue_paused'' then ''still''
      else if s = VStr ''failed_no_auto_handling'' then ''failed_no_auto_handling''
      else if s = VBool False then ''absent''
      else if s = VStr ''nzb removed'' then ''absent''
      else if (case s of VStr t \<Rightarrow> py_startswith t ''unhandled status of:'' | _ \<Rightarrow> False) then ''still''
      else if s = VStr ''file not found'' then ''unplaced''
      else if s = VStr ''failed_in_sab'' then ''absent''
      else ''unreachable'')"

definition RAW_PROBE_STATES :: "string list" where
  "RAW_PROBE_STATES = [''still'', ''complete'', ''absent'', ''unreachable'', ''unprobeable'']"

text \<open>\<open>_probe_evidence\<close>: raw state, location, name, failed, nzo id.\<close>

definition probe_evidence :: "pval \<Rightarrow> string \<times> pval \<times> pval \<times> pval \<times> pval" where
  "probe_evidence raw =
     (case raw of
        VStr s \<Rightarrow> (s, VNone, VNone, VNone, VNone)
      | VDict d \<Rightarrow>
          ((case pv_get d ''status'' of VStr s \<Rightarrow> if s \<in> set RAW_PROBE_STATES then s else nzstat_to_raw d
              | _ \<Rightarrow> nzstat_to_raw d),
           pv_get d ''location'', pv_get d ''name'', pv_get d ''failed'', pv_get d ''nzo_id'')
      | _ \<Rightarrow> (''unreachable'', VNone, VNone, VNone, VNone))"

text \<open>\<open>head\<close> and \<open>get\<close> stand for the two HTTP requests, by status code.\<close>

definition ddl_link_alive :: "(string \<Rightarrow> nat option) \<Rightarrow> (string \<Rightarrow> nat option) \<Rightarrow> string option \<Rightarrow> bool option" where
  "ddl_link_alive head get link =
     (if \<not> present link then None
      else case head (the link) of
        None \<Rightarrow> None
      | Some code \<Rightarrow> if code = 405 then map_option (\<lambda>c. c < 400) (get (the link)) else Some (code < 400))"

definition find_ddl :: "cdb \<Rightarrow> pval \<Rightarrow> string option \<Rightarrow> ddl_row option" where
  "find_ddl d ddl_id issueid =
     (if truthy ddl_id then find (\<lambda>q. dd_id q = Some (py_str ddl_id)) (cd_ddl d)
      else find (\<lambda>q. dd_issueid q = issueid) (cd_ddl d))"

definition probe_ddl :: "(string \<Rightarrow> nat option) \<Rightarrow> (string \<Rightarrow> nat option) \<Rightarrow> cdb \<Rightarrow> jrow \<Rightarrow> pval" where
  "probe_ddl head get d r =
     (let p = row_payload_or r;
          ddl_id = pv_or (pv_or (pv_get p ''ddl_id'') (pv_get p ''id'')) (pv_get (as_dict (pv_get p ''download_info'')) ''id'')
      in VStr (if \<not> truthy ddl_id \<and> jr_issueid r = None then ''absent''
         else if \<not> cd_ddl_up d then ''unreachable''
         else case find_ddl d ddl_id (jr_issueid r) of
           None \<Rightarrow> ''absent''
         | Some q \<Rightarrow>
             if dd_status q = Some ''Completed'' then ''complete''
             else if dd_status q = Some ''Downloading'' then
               (case ddl_link_alive head get (py_or (dd_link q) (dd_mainlink q)) of
                  None \<Rightarrow> ''unreachable'' | Some a \<Rightarrow> if a then ''still'' else ''absent'')
             else ''absent''))"

section \<open>Which probe\<close>

record clients =
  cl_torrentinfo :: "string \<Rightarrow> pval option"
  cl_sab :: sab_client
  cl_nzbget :: "string \<Rightarrow> pval option"
  cl_head :: "string \<Rightarrow> nat option"
  cl_get :: "string \<Rightarrow> nat option"
  cl_use_sab :: bool
  cl_use_nzbget :: bool

definition probe_nzb :: "clients \<Rightarrow> bool \<Rightarrow> jrow \<Rightarrow> pval" where
  "probe_nzb c keep_history r =
     (if cl_use_sab c then sab_history_or_queue (cl_sab c) keep_history r
      else if cl_use_nzbget c then nzbget_history (cl_nzbget c) r else VStr ''unreachable'')"

definition default_probes :: "clients \<Rightarrow> cdb \<Rightarrow> bool \<Rightarrow> string \<Rightarrow> (jrow \<Rightarrow> pval option) option" where
  "default_probes c d keep_history kind =
     (if kind \<in> {''torrent'', ''rtorrent'', ''deluge''} then Some (\<lambda>r. Some (probe_torrent (cl_torrentinfo c) r))
      else if kind = ''nzb'' then Some (\<lambda>r. Some (probe_nzb c keep_history r))
      else if kind \<in> {''sab'', ''sabnzbd''} then Some (\<lambda>r. Some (sab_history_or_queue (cl_sab c) keep_history r))
      else if kind = ''nzbget'' then Some (\<lambda>r. Some (nzbget_history (cl_nzbget c) r))
      else if kind \<in> {''ddl'', ''DDL''} then Some (\<lambda>r. Some (probe_ddl (cl_head c) (cl_get c) d r))
      else None)"

definition DEFAULT_PROBE_KINDS :: "string list" where
  "DEFAULT_PROBE_KINDS = [''torrent'', ''rtorrent'', ''deluge'', ''nzb'', ''sab'', ''sabnzbd'', ''nzbget'', ''ddl'', ''DDL'']"

definition resolve_downloader :: "jrow \<Rightarrow> pval \<Rightarrow> string" where
  "resolve_downloader r payload =
     (let p = as_dict (if payload = VNone then load_payload (jr_payload r) else payload);
          route = py_lower (py_strip (py_str (pv_or (pv_get p ''route'') (VStr []))));
          prov = py_lower (py_str (pv_or (pv_get (as_dict (pv_get p ''download_info'')) ''provider'') (VStr [])))
      in if route \<in> set DEFAULT_PROBE_KINDS then route
         else if present (jr_downloader_type r) then the (jr_downloader_type r)
         else if pv_get p ''ddl'' = VBool True then ''ddl''
         else if prov = ''ddl'' then ''ddl''
         else if present (jr_hash r) then ''torrent'' else ''nzb'')"

section \<open>The verdict\<close>

definition empty_details :: "verdict \<Rightarrow> details" where
  "empty_details v = \<lparr>dt_verdict = v, dt_location = VNone, dt_name = VNone, dt_failed = VNone, dt_nzo_id = VNone, dt_raw = None\<rparr>"

definition verdict_of :: "cdb \<Rightarrow> jrow \<Rightarrow> string \<Rightarrow> verdict" where
  "verdict_of d r raw =
     (if raw = ''still'' then STILL
      else if raw = ''complete'' then COMPLETE
      else if raw = ''unreachable'' then UNKNOWN
      else if raw = ''failed_no_auto_handling'' then GONE
      else if raw = ''unplaced'' then UNKNOWN
      else if has_done_signal d r then COMPLETE
      else if raw = ''unprobeable'' then UNKNOWN
      else GONE)"

text \<open>\<open>probes\<close> is the source's own argument: a probe by downloader type.\<close>

definition classify_details :: "(string \<Rightarrow> (jrow \<Rightarrow> pval option) option) \<Rightarrow> cdb \<Rightarrow> jrow \<Rightarrow> pval \<Rightarrow> details" where
  "classify_details probes d r payload =
     (case probes (resolve_downloader r payload) of
        None \<Rightarrow> empty_details UNKNOWN
      | Some probe \<Rightarrow>
          (case probe r of
             None \<Rightarrow> empty_details UNKNOWN
           | Some raw \<Rightarrow>
               (case probe_evidence raw of
                  (st, loc, nam, fld, nzo) \<Rightarrow>
                    \<lparr>dt_verdict = verdict_of d r st, dt_location = loc, dt_name = nam, dt_failed = fld,
                     dt_nzo_id = nzo, dt_raw = Some st\<rparr>)))"

definition classify :: "(string \<Rightarrow> (jrow \<Rightarrow> pval option) option) \<Rightarrow> cdb \<Rightarrow> jrow \<Rightarrow> pval \<Rightarrow> verdict" where
  "classify probes d r payload = dt_verdict (classify_details probes d r payload)"

end
