(* ===== verification/ClassifyProps.thy ===== *)
theory ClassifyProps
  imports RecoveryClassify JournalProps
begin

text \<open>
  The properties of the start-up classification of open downloads: what a verdict of \<open>gone\<close>, which gives the
  download up, rests on, and what absence of evidence may not prove.
\<close>

section \<open>Verdicts\<close>

lemma verdict_gone_iff:
  "verdict_of d r st = GONE \<longleftrightarrow>
     st = ''failed_no_auto_handling''
     \<or> (st \<notin> {''still'', ''complete'', ''unreachable'', ''unplaced'', ''unprobeable''} \<and> \<not> has_done_signal d r)"
  by (auto simp: verdict_of_def)

lemma verdict_complete_iff:
  "verdict_of d r st = COMPLETE \<longleftrightarrow>
     st = ''complete''
     \<or> (st \<notin> {''still'', ''unreachable'', ''unplaced'', ''failed_no_auto_handling''} \<and> has_done_signal d r)"
  by (auto simp: verdict_of_def)

lemma verdict_silent:
  assumes "st \<in> {''unreachable'', ''unprobeable''}"
  shows "verdict_of d r st \<in> {UNKNOWN, COMPLETE}"
    and "verdict_of d r st = COMPLETE \<Longrightarrow> has_done_signal d r"
  using assms by (auto simp: verdict_of_def split: if_splits)

lemma classify_cases:
  obtains "classify probes d r p = UNKNOWN" and "\<And>probe. probes (resolve_downloader r p) = Some probe \<Longrightarrow> probe r = None"
  | probe raw where "probes (resolve_downloader r p) = Some probe" "probe r = Some raw"
      "classify probes d r p = verdict_of d r (fst (probe_evidence raw))"
      "dt_raw (classify_details probes d r p) = Some (fst (probe_evidence raw))"
proof (cases "probes (resolve_downloader r p)")
  case None
  then show ?thesis using that(1) by (simp add: classify_def classify_details_def empty_details_def)
next
  case (Some probe)
  show ?thesis
  proof (cases "probe r")
    case None
    then show ?thesis using Some that(1) by (simp add: classify_def classify_details_def empty_details_def)
  next
    case (Some raw)
    with \<open>probes (resolve_downloader r p) = Some probe\<close> show ?thesis
      using that(2) [of probe raw] by (simp add: classify_def classify_details_def split: prod.splits)
  qed
qed


definition demo_cdb :: cdb where
  "demo_cdb = \<lparr>cd_lib = \<lparr>ol_issues = [\<lparr>is_id = ''42'', is_comicid = Some ''7'', is_deleted = None,
       is_status = Some ''Snatched'', is_intent = None, is_location = None\<rparr>], ol_annuals = [], ol_storyarcs = []\<rparr>,
     cd_nzblog = [(Some ''42'', Some ''nzbgeek'')], cd_ddl = [], cd_library_up = True, cd_nzblog_up = True,
     cd_ddl_up = True\<rparr>"

definition answering :: "string \<Rightarrow> string \<Rightarrow> (jrow \<Rightarrow> pval option) option" where
  "answering a k = Some (\<lambda>_. Some (VStr a))"

lemma demo_gone: "classify (answering ''absent'') demo_cdb (demo_row Snatched) VNone = GONE"
  by code_simp


section \<open>Outages\<close>

text \<open>No client answers: every call raises.\<close>

definition outage :: "clients \<Rightarrow> bool" where
  "outage c \<longleftrightarrow> cl_torrentinfo c = (\<lambda>_. None) \<and> cl_nzbget c = (\<lambda>_. None)
     \<and> sc_names (cl_sab c) = (\<lambda>_ _. None) \<and> sc_match (cl_sab c) = (\<lambda>_ _. None)
     \<and> sc_queue (cl_sab c) = (\<lambda>_. None) \<and> sc_history (cl_sab c) = (\<lambda>_ _. None)"

lemma outage_torrent: "outage c \<Longrightarrow> probe_torrent (cl_torrentinfo c) r = VStr ''unreachable''"
  by (simp add: outage_def probe_torrent_def)

lemma outage_sab: "outage c \<Longrightarrow> sab_history_or_queue (cl_sab c) k r = VStr ''unreachable''"
  by (simp add: outage_def sab_history_or_queue_def)

lemma outage_nzbget:
  "outage c \<Longrightarrow> nzbget_history (cl_nzbget c) r \<in> {VStr ''unreachable'', VStr ''unprobeable''}"
  by (simp add: outage_def nzbget_history_def Let_def)

lemma outage_nzb: "outage c \<Longrightarrow> probe_nzb c k r \<in> {VStr ''unreachable'', VStr ''unprobeable''}"
  using outage_nzbget by (auto simp: probe_nzb_def outage_sab)

lemma outage_probe:
  assumes "outage c" and "default_probes c d k kind = Some probe" and "kind \<notin> {''ddl'', ''DDL''}"
  shows "probe r \<in> {Some (VStr ''unreachable''), Some (VStr ''unprobeable'')}"
  using assms outage_nzb [OF assms(1)] outage_nzbget [OF assms(1)]
  by (auto simp: default_probes_def outage_torrent outage_sab split: if_splits)

text \<open>An outage never buries a download: while no torrent or NZB client answers, the production
  probes give every row that is not a DDL row the verdict "unknown", or "complete" on a done-signal of its own, never
  "gone" and never "still".\<close>

theorem outage_never_buries:
  assumes "outage c" and "resolve_downloader r p \<notin> {''ddl'', ''DDL''}"
  shows "classify (default_probes c d keep) d r p \<in> {UNKNOWN, COMPLETE}
    \<and> (classify (default_probes c d keep) d r p = COMPLETE \<longrightarrow> has_done_signal d r)"
proof (rule classify_cases [of "default_probes c d keep" d r p])
  assume "classify (default_probes c d keep) d r p = UNKNOWN"
  then show ?thesis by simp
next
  fix probe raw
  assume a: "default_probes c d keep (resolve_downloader r p) = Some probe" "probe r = Some raw"
    "classify (default_probes c d keep) d r p = verdict_of d r (fst (probe_evidence raw))"
  have "raw \<in> {VStr ''unreachable'', VStr ''unprobeable''}"
    using outage_probe [OF assms(1) a(1) assms(2), of r] a(2) by auto
  then have "fst (probe_evidence raw) \<in> {''unreachable'', ''unprobeable''}" by (auto simp: probe_evidence_def)
  from verdict_silent [OF this, of d r] a(3) show ?thesis by simp
qed

definition dead_clients :: clients where
  "dead_clients = \<lparr>cl_torrentinfo = (\<lambda>_. None),
     cl_sab = \<lparr>sc_names = (\<lambda>_ _. None), sc_match = (\<lambda>_ _. None), sc_queue = (\<lambda>_. None), sc_history = (\<lambda>_ _. None)\<rparr>,
     cl_nzbget = (\<lambda>_. None), cl_head = (\<lambda>_. None), cl_get = (\<lambda>_. None), cl_use_sab = True, cl_use_nzbget = False\<rparr>"

theorem outage_never_buries_witness:
  "classify (default_probes dead_clients demo_cdb False) demo_cdb (demo_row Snatched) VNone \<noteq> GONE"
proof -
  have "outage dead_clients" by (simp add: outage_def dead_clients_def)
  moreover have "resolve_downloader (demo_row Snatched) VNone \<notin> {''ddl'', ''DDL''}" by code_simp
  ultimately show ?thesis
    using outage_never_buries [of dead_clients "demo_row Snatched" VNone demo_cdb False] by auto
qed

section \<open>One-offs and false terminals\<close>

text \<open>For a one-off, whose issue id does not survive a restart, the nzblog table is no evidence
  at all: neither the done-signal nor the verdict depends on it.\<close>

theorem oneoff_ignores_nzblog:
  assumes "is_synthetic_oneoff (jr_issueid r)"
  shows "has_done_signal (d\<lparr>cd_nzblog := log, cd_nzblog_up := up\<rparr>) r = has_done_signal d r
    \<and> classify probes (d\<lparr>cd_nzblog := log, cd_nzblog_up := up\<rparr>) r p = classify probes d r p"
proof -
  have h: "has_done_signal (d\<lparr>cd_nzblog := log, cd_nzblog_up := up\<rparr>) r = has_done_signal d r"
    using assms by (simp add: has_done_signal_def library_status_done_def library_rows_def
        split: option.splits)
  then show ?thesis
    by (simp add: classify_def classify_details_def verdict_of_def split: option.splits prod.splits)
qed

theorem oneoff_ignores_nzblog_witness:
  "classify (answering ''absent'') demo_cdb (demo_row Snatched\<lparr>jr_issueid := None\<rparr>) VNone
   = classify (answering ''absent'') (demo_cdb\<lparr>cd_nzblog := [], cd_nzblog_up := True\<rparr>) (demo_row Snatched\<lparr>jr_issueid := None\<rparr>) VNone"
proof -
  have "is_synthetic_oneoff (jr_issueid (demo_row Snatched\<lparr>jr_issueid := None\<rparr>))"
    by (simp add: is_synthetic_oneoff_def)
  then show ?thesis
    using oneoff_ignores_nzblog [where r = "demo_row Snatched\<lparr>jr_issueid := None\<rparr>" and d = demo_cdb and log = "[]"
        and up = True and probes = "answering ''absent''" and p = VNone]
    by simp
qed

lemma reopen_candidate_rows:
  assumes "false_terminal_reopen_candidate d r p"
  obtains i recs where "jr_stage r = Post_processed" "jr_issueid r = Some i" "\<not> is_synthetic_oneoff (Some i)"
    "library_rows d i (payload_story_arc (if p = VNone then load_payload (jr_payload r) else p)) = Some recs"
    "recs \<noteq> []" "\<And>q. q \<in> set recs \<Longrightarrow> \<not> row_shows_placement q \<and> status_or_empty q \<in> set REOPEN_SAFE_STATUSES"
  using assms
  by (auto simp: false_terminal_reopen_candidate_def list_all_iff 
      split: if_splits option.splits)

lemma first_with_id_from: "q \<in> set (first_with_id i rows) \<Longrightarrow> q \<in> set rows \<and> is_id q = i"
  by (cases "find (\<lambda>r. is_id r = i) rows") (auto simp: first_with_id_def find_Some_iff)

lemma library_rows_from:
  assumes "library_rows d i arc = Some recs" and "q \<in> set recs"
  shows "is_id q = i \<and> q \<in> set (ol_issues (cd_lib d)) \<union> set (ol_annuals (cd_lib d)) \<union> set (ol_storyarcs (cd_lib d))"
  using assms first_with_id_from by (fastforce simp: library_rows_def split: if_splits)

text \<open>The back-fill reopens only what the library contradicts: a candidate is a post-processed
  row of a real issue the library still tracks, without placement on any of its rows, in a status no operator chose.
  Placement evidence, an unreadable library or a removed series all leave the row terminal.\<close>

theorem reopen_only_what_library_contradicts:
  assumes "false_terminal_reopen_candidate d r p"
  shows "jr_stage r = Post_processed \<and> \<not> is_synthetic_oneoff (jr_issueid r) \<and> cd_library_up d
    \<and> \<not> has_library_placement d r p
    \<and> (\<exists>i q. jr_issueid r = Some i \<and> is_id q = i \<and> status_or_empty q \<in> {[], ''Snatched'', ''Wanted'', ''Failed''}
         \<and> q \<in> set (ol_issues (cd_lib d)) \<union> set (ol_annuals (cd_lib d)) \<union> set (ol_storyarcs (cd_lib d)))"
proof -
  obtain i recs where r: "jr_stage r = Post_processed" "jr_issueid r = Some i" "\<not> is_synthetic_oneoff (Some i)"
    and lr: "library_rows d i (payload_story_arc (if p = VNone then load_payload (jr_payload r) else p)) = Some recs"
    and ne: "recs \<noteq> []"
    and q: "\<And>q. q \<in> set recs \<Longrightarrow> \<not> row_shows_placement q \<and> status_or_empty q \<in> set REOPEN_SAFE_STATUSES"
    using reopen_candidate_rows [OF assms] by blast
  have up: "cd_library_up d" using lr by (auto simp: library_rows_def split: if_splits)
  have np: "\<not> has_library_placement d r p"
    using r(2) lr q by (auto simp: has_library_placement_def list_ex_iff)
  obtain x where x: "x \<in> set recs" using ne by (cases recs) auto
  have "status_or_empty x \<in> {[], ''Snatched'', ''Wanted'', ''Failed''}"
    using q [OF x] by (simp add: REOPEN_SAFE_STATUSES_def)
  then show ?thesis using r up np library_rows_from [OF lr x] by auto
qed

theorem reopen_only_what_library_contradicts_witness:
  "\<not> has_library_placement demo_cdb (demo_row Post_processed) VNone"
proof -
  have "false_terminal_reopen_candidate demo_cdb (demo_row Post_processed) VNone" by code_simp
  from reopen_only_what_library_contradicts [OF this] show ?thesis by blast
qed

end
