(* ===== verification/PPCommands.thy ===== *)
theory PPCommands
  imports JournalPayload
begin

text \<open>
  \<open>comicarr/app/downloads/pp_commands.py\<close>: the boundary a post-processing command has to pass before files are
  touched.  \<open>Path.expanduser().resolve()\<close> and \<open>Path.exists()\<close> are questions to the file system, \<open>fs_resolve\<close>
  (the parts of the canonical absolute path) and \<open>fs_exists\<close>.
\<close>

record fsys =
  fs_resolve :: "string \<Rightarrow> string list"
  fs_exists :: "string list \<Rightarrow> bool"

text \<open>The message of a \<open>PostProcessCommandError\<close>.\<close>

type_synonym pp_error = string

section \<open>Configured folders\<close>

text \<open>\<open>str.splitlines\<close>: line feed, vertical tab, form feed, carriage return (with its line feed), the separators
  28 to 30 and 133 end a line; a final line end opens no further line.\<close>

definition is_line_end :: "char \<Rightarrow> bool" where
  "is_line_end c = (let n = (of_char c :: nat) in (10 \<le> n \<and> n \<le> 13) \<or> (28 \<le> n \<and> n \<le> 30) \<or> n = 133)"

fun splitlines_from :: "string \<Rightarrow> string \<Rightarrow> string list" where
  "splitlines_from cur [] = (if cur = [] then [] else [cur])"
| "splitlines_from cur [c] = (if is_line_end c then [cur] else [cur @ [c]])"
| "splitlines_from cur (c # d # s) =
     (if c = CHR 0x0D \<and> d = CHR 0x0A then cur # splitlines_from [] s
      else if is_line_end c then cur # splitlines_from [] (d # s)
      else splitlines_from (cur @ [c]) (d # s))"

definition py_splitlines :: "string \<Rightarrow> string list" where
  "py_splitlines s = splitlines_from [] s"

definition py_isabs :: "string \<Rightarrow> bool" where
  "py_isabs s = py_startswith s ''/''"

text \<open>The configuration values read here; \<open>None\<close> is a value that is absent or not text.\<close>

record pp_config =
  pc_additional :: "string option"
  pc_check_folder :: "string option"
  pc_roots :: "string option list"
  pc_route_savepaths :: "string list"

fun add_folders :: "string list \<Rightarrow> string list \<Rightarrow> string list" where
  "add_folders acc [] = acc"
| "add_folders acc (l # ls) =
     (let f = py_strip l in add_folders (if f \<noteq> [] \<and> py_isabs f \<and> f \<notin> set acc then acc @ [f] else acc) ls)"

definition additional_check_folders :: "pp_config \<Rightarrow> string list" where
  "additional_check_folders c =
     (case pc_additional c of None \<Rightarrow> []
      | Some raw \<Rightarrow> if py_lower (py_strip raw) \<in> {[], ''none''} then [] else add_folders [] (py_splitlines raw))"

definition monitored_folders :: "pp_config \<Rightarrow> string list" where
  "monitored_folders c =
     (case pc_check_folder c of None \<Rightarrow> []
      | Some p \<Rightarrow>
          if py_strip p = [] \<or> py_lower (py_strip p) = ''none'' then []
          else py_strip p # filter (\<lambda>f. f \<noteq> py_strip p) (additional_check_folders c))"

text \<open>\<open>configured_roots\<close>: the configured directories that are set, the additional folders and the save paths of
  the torrent routes.\<close>

definition configured_roots :: "pp_config \<Rightarrow> string list" where
  "configured_roots c =
     map the (filter (\<lambda>v. present v \<and> py_lower (py_strip (the v)) \<noteq> ''none'') (pc_roots c))
     @ additional_check_folders c @ filter (\<lambda>p. p \<noteq> []) (pc_route_savepaths c)"

section \<open>Paths\<close>

definition canonical_path :: "fsys \<Rightarrow> pval \<Rightarrow> string \<Rightarrow> pp_error + string list" where
  "canonical_path fs v what =
     (let raw = py_strip (py_str v) in
      if v = VNone \<or> raw = [] then Inl (what @ '' is required'')
      else if CHR 0x00 \<in> set raw \<or> CHR 0x5C \<in> set raw then Inl (what @ '' contains an unsafe path separator'')
      else if ''..'' \<in> set (py_split CHR ''/'' raw) then Inl (what @ '' contains traversal'')
      else Inr (fs_resolve fs raw))"

fun canonical_paths :: "fsys \<Rightarrow> string list \<Rightarrow> pp_error + string list list" where
  "canonical_paths fs [] = Inr []"
| "canonical_paths fs (r # rs) =
     (case canonical_path fs (VStr r) ''post-processing root'' of
        Inl e \<Rightarrow> Inl e
      | Inr p \<Rightarrow> (case canonical_paths fs rs of Inl e \<Rightarrow> Inl e | Inr ps \<Rightarrow> Inr (p # ps)))"

definition contains_path :: "string list \<Rightarrow> string list \<Rightarrow> bool" where
  "contains_path root candidate = prefix root candidate"

definition path_str :: "string list \<Rightarrow> string" where
  "path_str p = CHR ''/'' # py_join CHR ''/'' p"

text \<open>\<open>roots or configured_roots()\<close>: an empty list of roots means the configured ones.\<close>

definition validate_mapped_path ::
  "fsys \<Rightarrow> pp_config \<Rightarrow> pval \<Rightarrow> string list \<Rightarrow> bool \<Rightarrow> pp_error + string list" where
  "validate_mapped_path fs c path roots require_exists =
     (case canonical_path fs path ''nzb_folder'' of
        Inl e \<Rightarrow> Inl e
      | Inr candidate \<Rightarrow>
          if require_exists \<and> \<not> fs_exists fs candidate then Inl ''nzb_folder does not exist''
          else (case canonical_paths fs (if roots = [] then configured_roots c else roots) of
             Inl e \<Rightarrow> Inl e
           | Inr allowed \<Rightarrow>
               if allowed = [] then Inl ''no post-processing route root is configured''
               else if \<not> list_ex (\<lambda>r. contains_path r candidate) allowed
               then Inl ''nzb_folder is outside configured post-processing roots''
               else Inr candidate))"

definition validate_basename :: "pval \<Rightarrow> pp_error + string" where
  "validate_basename v =
     (let name = py_strip (py_str v) in
      if v = VNone \<or> name = [] then Inl ''nzb_name is required''
      else if 1024 < length name then Inl ''nzb_name is too long''
      else if CHR 0x00 \<in> set name \<or> CHR 0x5C \<in> set name \<or> CHR ''/'' \<in> set name then Inl ''nzb_name must be a basename''
      else if name \<in> {''.'', ''..''} then Inl ''nzb_name must be a safe basename''
      else Inr name)"

section \<open>Flags and the command\<close>

definition is_boolean_flag :: "pval \<Rightarrow> bool" where
  "is_boolean_flag v =
     (case v of VNone \<Rightarrow> True | VBool _ \<Rightarrow> True | VInt i \<Rightarrow> i = 0 \<or> i = 1
      | VStr s \<Rightarrow> s = ''0'' \<or> s = ''1'' | _ \<Rightarrow> False)"

definition is_failed_download :: "pval \<Rightarrow> bool" where
  "is_failed_download v =
     (case v of VBool b \<Rightarrow> b | VInt i \<Rightarrow> i = 1 | VStr s \<Rightarrow> s = ''1'' | _ \<Rightarrow> False)"

definition has_key :: "payload \<Rightarrow> string \<Rightarrow> bool" where
  "has_key d k = (dict_get d k \<noteq> None)"

definition flag_error :: "payload \<Rightarrow> pp_error option" where
  "flag_error d =
     map_option (\<lambda>k. k @ '' must be boolean'')
       (find (\<lambda>k. has_key d k \<and> \<not> is_boolean_flag (pv_get d k)) [''failed'', ''apicall'', ''ddl'', ''oneoff''])"

definition id_error :: "payload \<Rightarrow> pp_error option" where
  "id_error d =
     map_option (\<lambda>k. k @ '' cannot be blank'')
       (find (\<lambda>k. pv_get d k \<noteq> VNone \<and> py_strip (py_str (pv_get d k)) = []) [''issueid'', ''comicid''])"

definition is_dict :: "pval \<Rightarrow> bool" where
  "is_dict v = (case v of VDict _ \<Rightarrow> True | _ \<Rightarrow> False)"

text \<open>The tail of \<open>validate_postprocess_item\<close>, after the folder has been stored: identities, download
  information and release key.\<close>

definition check_command :: "payload \<Rightarrow> pp_error + payload" where
  "check_command d =
     (case id_error d of
        Some e \<Rightarrow> Inl e
      | None \<Rightarrow>
          if pv_get d ''download_info'' \<noteq> VNone \<and> \<not> is_dict (pv_get d ''download_info'')
          then Inl ''download_info must be an object''
          else let rk = pv_get d ''journal_release_key'' in
            if rk = VNone then Inr d
            else if py_strip (py_str rk) = [] \<or> 1024 < length (py_str rk) \<or> CHR 0x00 \<in> set (py_str rk)
            then Inl ''journal_release_key is invalid''
            else Inr (dict_set ''journal_release_key'' (VStr (py_str rk)) d))"

definition command_folder ::
  "fsys \<Rightarrow> pp_config \<Rightarrow> string list \<Rightarrow> bool \<Rightarrow> payload \<Rightarrow> pp_error + string list" where
  "command_folder fs c roots require_exists d =
     (if is_failed_download (pv_get d ''failed'') then canonical_path fs (pv_get d ''nzb_folder'') ''nzb_folder''
      else validate_mapped_path fs c (pv_get d ''nzb_folder'') roots require_exists)"

definition store_folder :: "string list \<Rightarrow> payload \<Rightarrow> payload" where
  "store_folder folder d =
     (let d2 = dict_set ''nzb_folder'' (VStr (path_str folder)) d in
      if has_key d2 ''failed'' then dict_set ''failed'' (VBool (is_failed_download (pv_get d ''failed''))) d2 else d2)"

definition validate_postprocess_item ::
  "fsys \<Rightarrow> pp_config \<Rightarrow> string list \<Rightarrow> bool \<Rightarrow> pval \<Rightarrow> pp_error + payload" where
  "validate_postprocess_item fs c roots require_exists item =
     (case item of
        VDict d0 \<Rightarrow>
          (case validate_basename (pv_get d0 ''nzb_name'') of
             Inl e \<Rightarrow> Inl e
           | Inr name \<Rightarrow>
               let d1 = dict_set ''nzb_name'' (VStr name) d0 in
               (case flag_error d1 of
                  Some e \<Rightarrow> Inl e
                | None \<Rightarrow>
                    (case command_folder fs c roots require_exists d1 of
                       Inl e \<Rightarrow> Inl e
                     | Inr folder \<Rightarrow> check_command (store_folder folder d1))))
      | _ \<Rightarrow> Inl ''post-processing command must be an object'')"

end
