(* ===== verification/PPCommandsProps.thy ===== *)
theory PPCommandsProps
  imports PPCommands
begin

text \<open>
  The properties of the command boundary: where an accepted command may read from, that accepting it once more
  changes nothing, and the folder monitor's scan list.
\<close>

section \<open>Dictionaries and paths\<close>

lemma dict_set_id: "dict_get d k = Some v \<Longrightarrow> dict_set k v d = d"
  unfolding dict_get_def dict_set_def by (induction d) (auto split: if_splits)

lemma has_key_set: "has_key (dict_set k v d) j \<longleftrightarrow> j = k \<or> has_key d j"
  by (simp add: has_key_def dict_get_set)

lemma pv_get_key: "pv_get d k = v \<Longrightarrow> v \<noteq> VNone \<Longrightarrow> dict_get d k = Some v"
  by (auto simp: pv_get_def split: option.splits)

definition plain_name :: "string \<Rightarrow> bool" where
  "plain_name s \<longleftrightarrow> s \<noteq> [] \<and> py_strip s = s \<and> length s \<le> 1024
     \<and> {CHR 0x00, CHR 0x5C, CHR ''/''} \<inter> set s = {} \<and> s \<notin> {''.'', ''..''}"

lemma validate_basename_iff:
  "validate_basename v = Inr name \<longleftrightarrow> v \<noteq> VNone \<and> name = py_strip (py_str v) \<and> plain_name name"
  by (auto simp: validate_basename_def plain_name_def Let_def not_less)

lemma py_str_VStr [simp]: "py_str (VStr s) = s"
  by (simp add: py_str_def)

lemma basename_again: "plain_name name \<Longrightarrow> validate_basename (VStr name) = Inr name"
  by (simp add: validate_basename_iff plain_name_def)

definition plain_path :: "string \<Rightarrow> bool" where
  "plain_path s \<longleftrightarrow> py_strip s = s \<and> {CHR 0x00, CHR 0x5C} \<inter> set s = {} \<and> ''..'' \<notin> set (py_split CHR ''/'' s)"

lemma canonical_path_Inr:
  "canonical_path fs v what = Inr p \<Longrightarrow> p = fs_resolve fs (py_strip (py_str v))"
  by (auto simp: canonical_path_def Let_def split: if_splits)

lemma canonical_path_again:
  assumes "plain_path (path_str p)" and "fs_resolve fs (path_str p) = p"
  shows "canonical_path fs (VStr (path_str p)) what = Inr p"
proof -
  have "path_str p \<noteq> []" by (simp add: path_str_def)
  then show ?thesis using assms by (simp add: canonical_path_def plain_path_def)
qed

lemma canonical_paths_Inr:
  "canonical_paths fs rs = Inr ps \<Longrightarrow> ps = map (\<lambda>r. fs_resolve fs (py_strip r)) rs"
proof (induction rs arbitrary: ps)
  case (Cons r rs)
  then show ?case using canonical_path_Inr [of fs "VStr r"] by (auto split: sum.splits)
qed simp

lemma mapped_path_Inr:
  assumes "validate_mapped_path fs c v roots req = Inr p"
  shows "canonical_path fs v ''nzb_folder'' = Inr p" and "req \<longrightarrow> fs_exists fs p"
    and "\<exists>r \<in> set (if roots = [] then configured_roots c else roots). prefix (fs_resolve fs (py_strip r)) p"
proof -
  show c: "canonical_path fs v ''nzb_folder'' = Inr p" and "req \<longrightarrow> fs_exists fs p"
    using assms by (auto simp: validate_mapped_path_def Let_def split: sum.splits if_splits)
  show "\<exists>r \<in> set (if roots = [] then configured_roots c else roots). prefix (fs_resolve fs (py_strip r)) p"
  proof -
    obtain ps where ps: "canonical_paths fs (if roots = [] then configured_roots c else roots) = Inr ps"
      and l: "list_ex (\<lambda>r. contains_path r p) ps"
      using assms c by (auto simp: validate_mapped_path_def split: sum.splits if_splits)
    show ?thesis using l canonical_paths_Inr [OF ps] by (auto simp: list_ex_iff contains_path_def)
  qed
qed

lemma mapped_path_again:
  assumes "validate_mapped_path fs c v roots req = Inr p"
    and "plain_path (path_str p)" and "fs_resolve fs (path_str p) = p"
  shows "validate_mapped_path fs c (VStr (path_str p)) roots req = Inr p"
  using assms mapped_path_Inr(1) [OF assms(1)] canonical_path_again [OF assms(2,3)]
  by (simp add: validate_mapped_path_def)

section \<open>Accepted commands\<close>

lemma validate_Inr:
  assumes "validate_postprocess_item fs c roots req item = Inr cmd"
  obtains d0 name folder where "item = VDict d0" "validate_basename (pv_get d0 ''nzb_name'') = Inr name"
    "flag_error (dict_set ''nzb_name'' (VStr name) d0) = None"
    "command_folder fs c roots req (dict_set ''nzb_name'' (VStr name) d0) = Inr folder"
    "check_command (store_folder folder (dict_set ''nzb_name'' (VStr name) d0)) = Inr cmd"
  using assms by (auto simp: validate_postprocess_item_def Let_def split: pval.splits sum.splits option.splits)

lemma check_command_keeps:
  assumes "check_command d = Inr d'" and "k \<noteq> ''journal_release_key''"
  shows "pv_get d' k = pv_get d k" and "has_key d' k = has_key d k"
  using assms by (auto simp: check_command_def Let_def pv_get_set has_key_set split: option.splits if_splits)

lemma store_folder_get:
  "pv_get (store_folder p d) ''nzb_name'' = pv_get d ''nzb_name''"
  "pv_get (store_folder p d) ''nzb_folder'' = VStr (path_str p)"
  "has_key (store_folder p d) ''failed'' = has_key d ''failed''"
  "has_key d ''failed'' \<Longrightarrow> pv_get (store_folder p d) ''failed'' = VBool (is_failed_download (pv_get d ''failed''))"
  "\<not> has_key d ''failed'' \<Longrightarrow> pv_get (store_folder p d) ''failed'' = VNone"
  by (auto simp: store_folder_def Let_def pv_get_set has_key_set) (simp add: has_key_def pv_get_def)

lemma no_failed_key: "\<not> has_key d ''failed'' \<Longrightarrow> \<not> is_failed_download (pv_get d ''failed'')"
  by (simp add: has_key_def pv_get_def is_failed_download_def)


definition demo_fs :: fsys where
  "demo_fs = \<lparr>fs_resolve = (\<lambda>s. filter (\<lambda>q. q \<noteq> []) (py_split CHR ''/'' s)), fs_exists = (\<lambda>_. True)\<rparr>"

definition demo_conf :: pp_config where
  "demo_conf = \<lparr>pc_additional = None, pc_check_folder = None, pc_roots = [Some ''/dl''], pc_route_savepaths = []\<rparr>"

definition demo_item :: payload where
  "demo_item = [(''nzb_name'', VStr '' a.cbz''), (''nzb_folder'', VStr ''/dl//x/''), (''failed'', VStr ''0'')]"

definition demo_cmd :: payload where
  "demo_cmd = [(''nzb_name'', VStr ''a.cbz''), (''nzb_folder'', VStr ''/dl/x''), (''failed'', VBool False)]"

lemma demo_valid: "validate_postprocess_item demo_fs demo_conf [] True (VDict demo_item) = Inr demo_cmd"
  by code_simp


section \<open>Validating once more\<close>

lemma id_error_None_iff:
  "id_error d = None \<longleftrightarrow>
     (\<forall>k \<in> {''issueid'', ''comicid''}. pv_get d k = VNone \<or> py_strip (py_str (pv_get d k)) \<noteq> [])"
  by (auto simp: id_error_def find_None_iff)

lemma check_command_again:
  assumes "check_command d = Inr d'"
  shows "check_command d' = Inr d'"
proof -
  have i: "id_error d' = None" and di: "pv_get d' ''download_info'' = pv_get d ''download_info''"
    using assms check_command_keeps [OF assms, of "''issueid''"] check_command_keeps [OF assms, of "''comicid''"]
      check_command_keeps [OF assms, of "''download_info''"]
    by (auto simp: id_error_None_iff) (auto simp: check_command_def id_error_None_iff split: option.splits)
  show ?thesis
  proof (cases "pv_get d ''journal_release_key'' = VNone")
    case True
    then have "d' = d" using assms by (auto simp: check_command_def Let_def split: option.splits if_splits)
    then show ?thesis using assms by simp
  next
    case False
    let ?s = "py_str (pv_get d ''journal_release_key'')"
    have d': "d' = dict_set ''journal_release_key'' (VStr ?s) d" and ok: "\<not> (py_strip ?s = [] \<or> 1024 < length ?s \<or> CHR 0x00 \<in> set ?s)"
      and dd: "\<not> (pv_get d ''download_info'' \<noteq> VNone \<and> \<not> is_dict (pv_get d ''download_info''))"
      using assms False by (auto simp: check_command_def Let_def split: option.splits if_splits)
    have "pv_get d' ''journal_release_key'' = VStr ?s" by (simp add: d' pv_get_set)
    moreover have "dict_set ''journal_release_key'' (VStr ?s) d' = d'" by (rule dict_set_id) (simp add: d')
    ultimately show ?thesis using i di ok dd by (simp add: check_command_def)
  qed
qed

lemma flag_error_None_iff:
  "flag_error d = None \<longleftrightarrow>
     (\<forall>k \<in> {''failed'', ''apicall'', ''ddl'', ''oneoff''}. has_key d k \<longrightarrow> is_boolean_flag (pv_get d k))"
  by (auto simp: flag_error_def find_None_iff)

lemma flag_error_stored:
  assumes "flag_error d = None" and "check_command (store_folder p d) = Inr d'"
  shows "flag_error d' = None"
proof -
  have "has_key (store_folder p d) k = has_key d k \<and> pv_get (store_folder p d) k = pv_get d k"
    if "k \<in> {''apicall'', ''ddl'', ''oneoff''}" for k
    using that by (auto simp: store_folder_def Let_def pv_get_set has_key_set)
  moreover have "is_boolean_flag (VBool b)" for b by (simp add: is_boolean_flag_def)
  ultimately show ?thesis
    using assms(1) check_command_keeps [OF assms(2)] store_folder_get [where p = p and d = d]
    unfolding flag_error_None_iff by (auto simp del: store_folder_get)
qed

lemma is_failed_VBool [simp]: "is_failed_download (VBool b) = b" "\<not> is_failed_download VNone"
  by (simp_all add: is_failed_download_def)

text \<open>Validation is idempotent: recovery validates a command before it queues it and the worker
  validates it again, and the second pass accepts it unchanged, provided the file system resolves a resolved path to
  itself and the stored path has no character the first check refuses.\<close>

theorem validation_is_idempotent:
  assumes "validate_postprocess_item fs c roots req item = Inr cmd"
    and "\<And>raw. fs_resolve fs (path_str (fs_resolve fs raw)) = fs_resolve fs raw"
    and "plain_path (py_str (pv_get cmd ''nzb_folder''))"
  shows "validate_postprocess_item fs c roots req (VDict cmd) = Inr cmd"
proof -
  obtain d0 name folder where b: "validate_basename (pv_get d0 ''nzb_name'') = Inr name"
    and fe: "flag_error (dict_set ''nzb_name'' (VStr name) d0) = None"
    and f: "command_folder fs c roots req (dict_set ''nzb_name'' (VStr name) d0) = Inr folder"
    and k: "check_command (store_folder folder (dict_set ''nzb_name'' (VStr name) d0)) = Inr cmd"
    using validate_Inr [OF assms(1)] by metis
  define d where "d = dict_set ''nzb_name'' (VStr name) d0"
  note f = f [folded d_def] and fe = fe [folded d_def] and k = k [folded d_def]
  have get: "pv_get cmd ''nzb_name'' = VStr name" "pv_get cmd ''nzb_folder'' = VStr (path_str folder)"
    "has_key cmd ''failed'' = has_key d ''failed''"
    "pv_get cmd ''failed'' = (if has_key d ''failed'' then VBool (is_failed_download (pv_get d ''failed'')) else VNone)"
    by (simp_all add: check_command_keeps [OF k] store_folder_get) (simp add: d_def pv_get_set)
  have fl: "is_failed_download (pv_get cmd ''failed'') = is_failed_download (pv_get d ''failed'')"
    using get(4) no_failed_key [of d] by simp
  have cp: "canonical_path fs (pv_get d ''nzb_folder'') ''nzb_folder'' = Inr folder"
    using f mapped_path_Inr(1) by (auto simp: command_folder_def split: if_splits)
  have res: "fs_resolve fs (path_str folder) = folder"
    using canonical_path_Inr [OF cp] assms(2) by simp
  have pl: "plain_path (path_str folder)" using assms(3) get(2) by simp
  have cf: "command_folder fs c roots req cmd = Inr folder"
    using f fl canonical_path_again [OF pl res] mapped_path_again [OF _ pl res]
    by (auto simp: command_folder_def get(2) split: if_splits)
  have nm: "dict_set ''nzb_name'' (VStr name) cmd = cmd"
    by (rule dict_set_id, rule pv_get_key [OF get(1)]) simp
  have st: "store_folder folder cmd = cmd"
  proof -
    have "dict_set ''nzb_folder'' (VStr (path_str folder)) cmd = cmd"
      by (rule dict_set_id, rule pv_get_key [OF get(2)]) simp
    moreover have "dict_set ''failed'' (VBool (is_failed_download (pv_get cmd ''failed''))) cmd = cmd" if "has_key cmd ''failed''"
      by (rule dict_set_id, rule pv_get_key) (use that get(3,4) fl in simp_all)
    ultimately show ?thesis by (simp add: store_folder_def)
  qed
  have bn: "validate_basename (pv_get cmd ''nzb_name'') = Inr name"
    unfolding get(1) by (rule basename_again) (use b validate_basename_iff in blast)
  show ?thesis
    using bn nm flag_error_stored [OF fe k] cf st check_command_again [OF k]
    by (simp add: validate_postprocess_item_def)
qed

lemma split_join:
  "(\<And>p. p \<in> set ps \<Longrightarrow> c \<notin> set p) \<Longrightarrow> ps \<noteq> [] \<Longrightarrow> py_split c (py_join c ps) = ps"
proof (induction c ps rule: py_join.induct)
  case (2 c p)
  then show ?case by (induction p) auto
next
  case (3 c p q ps)
  have "py_split c (p @ c # t) = p # py_split c t" if "c \<notin> set p" for t p
    using that by (induction p) auto
  then show ?case using 3 by simp
qed simp

lemma split_parts: "p \<in> set (py_split c s) \<Longrightarrow> c \<notin> set p"
proof (induction c s arbitrary: p rule: py_split.induct)
  case (2 c x s)
  then show ?case by (cases "py_split c s") (auto split: if_splits)
qed simp

lemma demo_resolve_idem: "fs_resolve demo_fs (path_str (fs_resolve demo_fs raw)) = fs_resolve demo_fs raw"
proof (cases "fs_resolve demo_fs raw = []")
  case True
  then show ?thesis by (simp add: demo_fs_def path_str_def)
next
  case False
  have "py_split CHR ''/'' (py_join CHR ''/'' (fs_resolve demo_fs raw)) = fs_resolve demo_fs raw"
    using False split_parts by (intro split_join) (auto simp: demo_fs_def)
  then show ?thesis by (simp add: demo_fs_def path_str_def comp_def)
qed

theorem validation_is_idempotent_witness:
  "validate_postprocess_item demo_fs demo_conf [] True (VDict demo_cmd) = Inr demo_cmd"
proof -
  have "plain_path (py_str (pv_get demo_cmd ''nzb_folder''))" by code_simp
  with validation_is_idempotent [OF demo_valid demo_resolve_idem] show ?thesis by simp
qed

section \<open>The folder monitor\<close>

lemma add_folders_spec:
  "distinct acc \<Longrightarrow> distinct (add_folders acc ls)
    \<and> set (add_folders acc ls) = set acc \<union> {f \<in> py_strip ` set ls. f \<noteq> [] \<and> py_isabs f}"
  by (induction ls arbitrary: acc) (auto simp: Let_def)

lemma additional_spec:
  "distinct (additional_check_folders c)
   \<and> (\<forall>f \<in> set (additional_check_folders c). f \<noteq> [] \<and> py_isabs f \<and> py_strip f = f)"
  using add_folders_spec [of "[]"] by (auto simp: additional_check_folders_def split: option.splits)

text \<open>The folder monitor scans no folder twice: its list is without duplicates, starts with the
  check folder, and continues with exactly the absolute lines of the additional folders that differ from it; with
  no check folder configured it is empty.\<close>

theorem monitored_folders_scan_once:
  "distinct (monitored_folders c)
   \<and> (monitored_folders c = [] \<longleftrightarrow>
        pc_check_folder c = None \<or> py_strip (the (pc_check_folder c)) = []
        \<or> py_lower (py_strip (the (pc_check_folder c))) = ''none'')
   \<and> (monitored_folders c \<noteq> [] \<longrightarrow>
        hd (monitored_folders c) = py_strip (the (pc_check_folder c))
        \<and> set (tl (monitored_folders c)) = set (additional_check_folders c) - {hd (monitored_folders c)}
        \<and> (\<forall>f \<in> set (tl (monitored_folders c)). py_isabs f \<and> py_strip f = f))"
  using additional_spec [of c] by (auto simp: monitored_folders_def split: option.splits)

definition demo_folders :: pp_config where
  "demo_folders = \<lparr>pc_additional = Some (''/b'' @ [CHR 0x0A] @ '' /a'' @ [CHR 0x0A] @ ''rel'' @ [CHR 0x0A] @ ''/b''),
     pc_check_folder = Some '' /a'', pc_roots = [], pc_route_savepaths = []\<rparr>"

theorem monitored_folders_scan_once_witness:
  "monitored_folders demo_folders = [''/a'', ''/b''] \<and> distinct (monitored_folders demo_folders)"
proof -
  have "monitored_folders demo_folders = [''/a'', ''/b'']" by code_simp
  with monitored_folders_scan_once [of demo_folders] show ?thesis by blast
qed

end
