(* ===== verification/DDLCommand.thy ===== *)
theory DDLCommand
  imports JournalPayload
begin

text \<open>
  \<open>comicarr/app/downloads/ddl_commands.py\<close>: the command of the direct-download worker, rebuilt from a journal
  payload, a queue item or a \<open>ddl_info\<close> row.  \<open>json.loads\<close> and \<open>json.dumps\<close> are parameters.
\<close>

section \<open>Values\<close>

text \<open>A field of the raw mapping: a payload value or a list.\<close>

datatype cval = CV pval | CList "pval list"

type_synonym cmapping = "cval dict"

definition cget :: "cmapping \<Rightarrow> string \<Rightarrow> cval" where
  "cget d k = (case dict_get d k of None \<Rightarrow> CV VNone | Some v \<Rightarrow> v)"

fun list_repr :: "pval list \<Rightarrow> string" where
  "list_repr [] = []"
| "list_repr [p] = py_repr p"
| "list_repr (p # ps) = py_repr p @ '', '' @ list_repr ps"

definition cstr :: "cval \<Rightarrow> string" where
  "cstr v = (case v of CV p \<Rightarrow> py_str p | CList ps \<Rightarrow> ''['' @ list_repr ps @ '']'')"

definition GETCOMICS_LINK_TYPES :: "string list" where
  "GETCOMICS_LINK_TYPES = [''GC-Main'', ''GC-Mirror'', ''GC-Mega'', ''GC-Media'', ''GC-Pixel'']"

definition EXTERNAL_LINK_TYPES :: "string list" where
  "EXTERNAL_LINK_TYPES = [''Mega'', ''Mega Link'', ''GC-Mega'']"

definition LINK_TYPE_ALIASES :: "string \<Rightarrow> string" where
  "LINK_TYPE_ALIASES s = (if s = ''GC_Mirror'' then ''GC-Mirror'' else s)"

definition required_text :: "cmapping \<Rightarrow> string \<Rightarrow> string + string" where
  "required_text d k =
     (if cget d k = CV VNone \<or> py_strip (cstr (cget d k)) = [] then Inl (''Missing required DDL field: '' @ k)
      else Inr (py_strip (cstr (cget d k))))"

definition optional_text :: "cval \<Rightarrow> string option" where
  "optional_text v = (if v = CV VNone \<or> py_strip (cstr v) = [] then None else Some (py_strip (cstr v)))"

definition py_int_of :: "pval \<Rightarrow> int option" where
  "py_int_of v = (case v of VInt i \<Rightarrow> Some i | VBool b \<Rightarrow> Some (if b then 1 else 0) | VStr s \<Rightarrow> py_int s | _ \<Rightarrow> None)"

definition is_null_text :: "cval \<Rightarrow> bool" where
  "is_null_text v = (case v of CV VNone \<Rightarrow> True | CV (VStr s) \<Rightarrow> s = [] \<or> py_lower (py_strip s) \<in> {''none'', ''null''} | _ \<Rightarrow> False)"

definition optional_nonnegative_int :: "cval \<Rightarrow> string \<Rightarrow> string + int option" where
  "optional_nonnegative_int v k =
     (if is_null_text v then Inr None
      else case (case v of CV p \<Rightarrow> py_int_of p | CList _ \<Rightarrow> None) of
        None \<Rightarrow> Inl (''Invalid integer DDL field: '' @ k)
      | Some i \<Rightarrow> if i < 0 then Inl (''DDL field must be non-negative: '' @ k) else Inr (Some i))"

definition bool_value :: "cval \<Rightarrow> string \<Rightarrow> string + bool" where
  "bool_value v k =
     (case v of
        CV (VStr s) \<Rightarrow>
          if py_lower (py_strip s) \<in> {''1'', ''true'', ''yes'', ''on''} then Inr True
          else if py_lower (py_strip s) \<in> {[], ''0'', ''false'', ''no'', ''off'', ''none''} then Inr False
          else Inl (''Invalid boolean DDL field: '' @ k)
      | CV p \<Rightarrow> Inr (truthy p)
      | CList ps \<Rightarrow> Inr (ps \<noteq> []))"

text \<open>Objects JSON cannot write are the opaque ones.\<close>

fun json_writable :: "pval \<Rightarrow> bool" and json_writable_items :: "(string \<times> pval) list \<Rightarrow> bool" where
  "json_writable (VObj s) = False"
| "json_writable (VDict d) = json_writable_items d"
| "json_writable _ = True"
| "json_writable_items [] = True"
| "json_writable_items ((k, v) # r) = (json_writable v \<and> json_writable_items r)"

definition json_value :: "(string \<Rightarrow> cval option) \<Rightarrow> cval \<Rightarrow> string \<Rightarrow> string + cval" where
  "json_value loads v k =
     (case v of
        CV VNone \<Rightarrow> Inr (CV VNone)
      | CV (VStr s) \<Rightarrow>
          if s = [] then Inr (CV VNone)
          else (case loads s of None \<Rightarrow> Inl (''Invalid persisted JSON DDL field: '' @ k) | Some w \<Rightarrow> Inr w)
      | CV p \<Rightarrow> if json_writable p then Inr v else Inl (''DDL field is not JSON serializable: '' @ k)
      | CList ps \<Rightarrow> if list_all json_writable ps then Inr v else Inl (''DDL field is not JSON serializable: '' @ k))"

section \<open>The command\<close>

record ddl_command =
  dc_id :: string
  dc_link :: string
  dc_site :: string
  dc_series :: string
  dc_year :: "string option"
  dc_size :: "string option"
  dc_comicid :: string
  dc_issueid :: string
  dc_oneoff :: bool
  dc_link_type :: string
  dc_filename :: "string option"
  dc_mainlink :: "string option"
  dc_comicinfo :: "payload list option"
  dc_packinfo :: "payload option"
  dc_remote_filesize :: int
  dc_resume :: "int option"
  dc_issues :: "string option"
  dc_pack :: bool

definition lower_keys :: "cmapping \<Rightarrow> cmapping" where
  "lower_keys raw = foldl (\<lambda>d (k, v). dict_set (py_lower k) v d) [] raw"

definition link_type_error :: "string \<Rightarrow> string \<Rightarrow> string option" where
  "link_type_error site link_type =
     (if site = ''DDL(GetComics)'' then
        (if link_type \<in> set GETCOMICS_LINK_TYPES then None else Some (''Unsupported GetComics DDL link type: '' @ link_type))
      else if site = ''DDL(External)'' then
        (if link_type \<in> set EXTERNAL_LINK_TYPES then None else Some (''Unsupported external DDL link type: '' @ link_type))
      else Some (''Unsupported DDL site: '' @ site))"

definition dict_of :: "pval \<Rightarrow> payload option" where
  "dict_of v = (case v of VDict d \<Rightarrow> Some d | _ \<Rightarrow> None)"

definition comicinfo_of :: "cval \<Rightarrow> string + payload list option" where
  "comicinfo_of v =
     (case v of
        CV VNone \<Rightarrow> Inr None
      | CList ps \<Rightarrow> if list_all (\<lambda>p. dict_of p \<noteq> None) ps then Inr (Some (map as_dict ps))
                     else Inl ''Invalid DDL field: comicinfo must be a list of objects''
      | _ \<Rightarrow> Inl ''Invalid DDL field: comicinfo must be a list of objects'')"

definition packinfo_of :: "cval \<Rightarrow> string + payload option" where
  "packinfo_of v =
     (case v of CV VNone \<Rightarrow> Inr None | CV (VDict d) \<Rightarrow> Inr (Some d)
      | _ \<Rightarrow> Inl ''Invalid DDL field: packinfo must be an object'')"

definition site_error :: "string \<Rightarrow> string option \<Rightarrow> string option \<Rightarrow> payload list option \<Rightarrow> string option" where
  "site_error site mainlink filename comicinfo =
     (if site = ''DDL(GetComics)'' then
        (if mainlink = None then Some ''Missing required DDL field: mainlink''
         else if comicinfo = None \<or> comicinfo = Some [] then Some ''Missing required DDL field: comicinfo'' else None)
      else if filename = None then Some ''Missing required DDL field: filename'' else None)"

fun first_error :: "('e + 'a) \<Rightarrow> ('a \<Rightarrow> 'e + 'b) \<Rightarrow> 'e + 'b" where
  "first_error (Inl e) f = Inl e"
| "first_error (Inr x) f = f x"

definition fail_on :: "string option \<Rightarrow> string + unit" where
  "fail_on e = (case e of None \<Rightarrow> Inr () | Some m \<Rightarrow> Inl m)"

definition cget_or :: "cmapping \<Rightarrow> string \<Rightarrow> cval \<Rightarrow> cval" where
  "cget_or d k v = (case dict_get d k of None \<Rightarrow> v | Some x \<Rightarrow> x)"

text \<open>\<open>DDLCommand.from_mapping\<close> on a mapping; the fields in the order their errors are raised.\<close>

definition from_mapping :: "(string \<Rightarrow> cval option) \<Rightarrow> cmapping \<Rightarrow> string + ddl_command" where
  "from_mapping loads raw =
     (let d = lower_keys raw in
      first_error (required_text d ''link_type'') (\<lambda>raw_type.
      let link_type = LINK_TYPE_ALIASES raw_type in
      first_error (required_text d ''site'') (\<lambda>site.
      first_error (fail_on (link_type_error site link_type)) (\<lambda>_.
      first_error (json_value loads (cget d ''comicinfo'') ''comicinfo'') (\<lambda>ci0.
      first_error (json_value loads (cget d ''packinfo'') ''packinfo'') (\<lambda>pi0.
      first_error (comicinfo_of ci0) (\<lambda>comicinfo.
      first_error (packinfo_of pi0) (\<lambda>packinfo.
      let mainlink = optional_text (cget d ''mainlink''); filename = optional_text (cget d ''filename'') in
      first_error (fail_on (site_error site mainlink filename comicinfo)) (\<lambda>_.
      first_error (optional_nonnegative_int (cget d ''remote_filesize'') ''remote_filesize'') (\<lambda>size.
      first_error (required_text d ''id'') (\<lambda>i.
      first_error (required_text d ''link'') (\<lambda>link.
      first_error (required_text d ''series'') (\<lambda>series.
      first_error (required_text d ''comicid'') (\<lambda>comicid.
      first_error (required_text d ''issueid'') (\<lambda>issueid.
      first_error (bool_value (cget_or d ''oneoff'' (CV (VBool False))) ''oneoff'') (\<lambda>oneoff.
      first_error (optional_nonnegative_int (cget d ''resume'') ''resume'') (\<lambda>resume.
      first_error (bool_value (cget_or d ''pack'' (CV (VBool False))) ''pack'') (\<lambda>pack.
      Inr \<lparr>dc_id = i, dc_link = link, dc_site = site, dc_series = series, dc_year = optional_text (cget d ''year''),
        dc_size = optional_text (cget d ''size''), dc_comicid = comicid, dc_issueid = issueid, dc_oneoff = oneoff,
        dc_link_type = link_type, dc_filename = filename, dc_mainlink = mainlink, dc_comicinfo = comicinfo,
        dc_packinfo = packinfo, dc_remote_filesize = (case size of None \<Rightarrow> 0 | Some n \<Rightarrow> n), dc_resume = resume,
        dc_issues = optional_text (cget d ''issues''), dc_pack = pack\<rparr>))))))))))))))))))"

section \<open>Writing it down\<close>

definition opt_cv :: "string option \<Rightarrow> cval" where
  "opt_cv x = (case x of None \<Rightarrow> CV VNone | Some s \<Rightarrow> CV (VStr s))"

definition opt_int :: "int option \<Rightarrow> cval" where
  "opt_int x = (case x of None \<Rightarrow> CV VNone | Some i \<Rightarrow> CV (VInt i))"

definition opt_list :: "payload list option \<Rightarrow> cval" where
  "opt_list x = (case x of None \<Rightarrow> CV VNone | Some ds \<Rightarrow> CList (map VDict ds))"

definition opt_dict :: "payload option \<Rightarrow> cval" where
  "opt_dict x = (case x of None \<Rightarrow> CV VNone | Some d \<Rightarrow> CV (VDict d))"

definition to_queue_item :: "ddl_command \<Rightarrow> cmapping" where
  "to_queue_item c =
     [(''id'', CV (VStr (dc_id c))), (''link'', CV (VStr (dc_link c))), (''site'', CV (VStr (dc_site c))),
      (''series'', CV (VStr (dc_series c))), (''year'', opt_cv (dc_year c)), (''size'', opt_cv (dc_size c)),
      (''comicid'', CV (VStr (dc_comicid c))), (''issueid'', CV (VStr (dc_issueid c))), (''oneoff'', CV (VBool (dc_oneoff c))),
      (''link_type'', CV (VStr (dc_link_type c))), (''filename'', opt_cv (dc_filename c)), (''mainlink'', opt_cv (dc_mainlink c)),
      (''comicinfo'', opt_list (dc_comicinfo c)), (''packinfo'', opt_dict (dc_packinfo c)),
      (''remote_filesize'', CV (VInt (dc_remote_filesize c))), (''resume'', opt_int (dc_resume c)),
      (''issues'', opt_cv (dc_issues c)), (''pack'', CV (VBool (dc_pack c)))]"

text \<open>\<open>json.dumps\<close> of the two structured fields.\<close>

definition dumped :: "(cval \<Rightarrow> string) \<Rightarrow> cval \<Rightarrow> cval" where
  "dumped dumps v = (if v = CV VNone then CV VNone else CV (VStr (dumps v)))"

definition to_persisted_values :: "(cval \<Rightarrow> string) \<Rightarrow> string \<Rightarrow> string \<Rightarrow> ddl_command \<Rightarrow> cmapping" where
  "to_persisted_values dumps now status c =
     [(''series'', CV (VStr (dc_series c))), (''year'', opt_cv (dc_year c)), (''filename'', opt_cv (dc_filename c)),
      (''size'', opt_cv (dc_size c)), (''issueid'', CV (VStr (dc_issueid c))), (''comicid'', CV (VStr (dc_comicid c))),
      (''link'', CV (VStr (dc_link c))), (''status'', CV (VStr status)),
      (''remote_filesize'', CV (VStr (py_str_int (dc_remote_filesize c)))), (''updated_date'', CV (VStr now)),
      (''mainlink'', opt_cv (dc_mainlink c)), (''issues'', opt_cv (dc_issues c)), (''site'', CV (VStr (dc_site c))),
      (''pack'', CV (VInt (if dc_pack c then 1 else 0))), (''link_type'', CV (VStr (dc_link_type c))),
      (''oneoff'', CV (VInt (if dc_oneoff c then 1 else 0))), (''resume'', opt_int (dc_resume c)),
      (''comicinfo'', dumped dumps (opt_list (dc_comicinfo c))), (''packinfo'', dumped dumps (opt_dict (dc_packinfo c)))]"

end
