(* ===== verification/DDLCommandProps.thy ===== *)
theory DDLCommandProps
  imports DDLCommand
begin

text \<open>
  The properties of the direct-download command: what is accepted survives the queue and the \<open>ddl_info\<close> row, so a
  restart rebuilds the command that was lost.
\<close>

section \<open>Decimal numbers\<close>

lemma nat_digits_digit: "c \<in> set (nat_digits n) \<Longrightarrow> is_digit c"
proof (induction n rule: nat_digits.induct)
  case (1 n)
  have d: "is_digit (char_of (48 + m))" if "m < (10::nat)" for m
    using that by (simp add: is_digit_def)
  show ?case
  proof (cases "n < 10")
    case True
    with 1 d show ?thesis by (simp add: nat_digits.simps [of n])
  next
    case False
    with 1 d [of "n mod 10"] show ?thesis by (auto simp: nat_digits.simps [of n])
  qed
qed

lemma nat_digits_nonempty [simp]: "nat_digits n \<noteq> []"
  by (subst nat_digits.simps) simp

lemma int_digits_append:
  "(\<And>c. c \<in> set s \<Longrightarrow> is_digit c) \<Longrightarrow> int_digits acc (s @ t) = int_digits (foldl (\<lambda>a c. a * 10 + digit_val c) acc s) t"
  by (induction s arbitrary: acc) simp_all

lemma nat_digits_value: "foldl (\<lambda>a c. a * 10 + digit_val c) 0 (nat_digits n) = int n"
proof (induction n rule: nat_digits.induct)
  case (1 n)
  have d: "digit_val (char_of (48 + m)) = int m" if "m < (10::nat)" for m
  proof -
    have "(of_char (char_of (48 + m)) :: int) = int (of_char (char_of (48 + m)))" by (simp only: of_nat_of_char)
    then show ?thesis using that by (simp add: digit_val_def)
  qed
  show ?case
  proof (cases "n < 10")
    case True
    with d show ?thesis by (simp add: nat_digits.simps [of n])
  next
    case False
    then have "foldl (\<lambda>a c. a * 10 + digit_val c) 0 (nat_digits n) = int (n div 10) * 10 + int (n mod 10)"
      using 1 d [of "n mod 10"] by (subst nat_digits.simps) simp
    also have "\<dots> = int (n div 10 * 10 + n mod 10)" by (simp only: of_nat_add of_nat_mult of_nat_numeral)
    also have "\<dots> = int n" by (simp only: div_mult_mod_eq)
    finally show ?thesis .
  qed
qed

lemma digit_not_space: "is_digit c \<Longrightarrow> \<not> py_isspace c \<and> c \<noteq> CHR ''-'' \<and> c \<noteq> CHR ''+''"
  by (auto simp: is_digit_def py_isspace_def Let_def)

lemma strip_no_space:
  assumes "\<And>c. c \<in> set s \<Longrightarrow> \<not> py_isspace c"
  shows "py_strip s = s"
proof -
  have "dropWhile py_isspace t = t" if "set t \<subseteq> set s" for t using that assms by (cases t) auto
  from this [of s] this [of "rev s"] show ?thesis by (simp add: py_strip_def py_lstrip_def py_rstrip_def)
qed

lemma py_int_str: "0 \<le> i \<Longrightarrow> py_int (py_str_int i) = Some i"
proof -
  assume i: "0 \<le> i"
  let ?t = "nat_digits (nat i)"
  have dig: "is_digit c" if "c \<in> set ?t" for c using that by (rule nat_digits_digit)
  have st: "py_strip ?t = ?t" using dig digit_not_space by (intro strip_no_space) blast
  have hd: "is_digit (hd ?t)" using dig hd_in_set [OF nat_digits_nonempty] by blast
  have "int_digits 0 ?t = Some (int (nat i))"
    using int_digits_append [of ?t 0 "[]"] dig nat_digits_value [of "nat i"] by simp
  then show ?thesis using i st hd digit_not_space [OF hd] by (simp add: py_str_int_def py_int_def)
qed

section \<open>Accepted commands\<close>

definition trimmed :: "string \<Rightarrow> bool" where
  "trimmed s \<longleftrightarrow> s \<noteq> [] \<and> py_strip s = s"

definition trimmed_opt :: "string option \<Rightarrow> bool" where
  "trimmed_opt x \<longleftrightarrow> (case x of None \<Rightarrow> True | Some s \<Rightarrow> trimmed s)"

definition writable :: "cval \<Rightarrow> bool" where
  "writable v = (case v of CV p \<Rightarrow> json_writable p | CList ps \<Rightarrow> list_all json_writable ps)"

definition ddl_valid :: "ddl_command \<Rightarrow> bool" where
  "ddl_valid c \<longleftrightarrow>
     trimmed (dc_id c) \<and> trimmed (dc_link c) \<and> trimmed (dc_site c) \<and> trimmed (dc_series c) \<and> trimmed (dc_comicid c)
     \<and> trimmed (dc_issueid c) \<and> trimmed (dc_link_type c) \<and> trimmed_opt (dc_year c) \<and> trimmed_opt (dc_size c)
     \<and> trimmed_opt (dc_filename c) \<and> trimmed_opt (dc_mainlink c) \<and> trimmed_opt (dc_issues c)
     \<and> link_type_error (dc_site c) (dc_link_type c) = None
     \<and> site_error (dc_site c) (dc_mainlink c) (dc_filename c) (dc_comicinfo c) = None
     \<and> 0 \<le> dc_remote_filesize c \<and> (\<forall>n. dc_resume c = Some n \<longrightarrow> 0 \<le> n)
     \<and> writable (opt_list (dc_comicinfo c)) \<and> writable (opt_dict (dc_packinfo c))"

lemma first_error_Inr: "first_error x f = Inr y \<longleftrightarrow> (\<exists>a. x = Inr a \<and> f a = Inr y)"
  by (cases x) simp_all

lemma fail_on_Inr: "fail_on e = Inr u \<longleftrightarrow> e = None"
  by (cases e) (simp_all add: fail_on_def)

lemma required_text_trimmed: "required_text d k = Inr s \<Longrightarrow> trimmed s"
  by (auto simp: required_text_def trimmed_def split: if_splits)

lemma optional_text_trimmed: "trimmed_opt (optional_text v)"
  by (simp add: optional_text_def trimmed_opt_def trimmed_def)

lemma nonnegative: "optional_nonnegative_int v k = Inr (Some n) \<Longrightarrow> 0 \<le> n"
  by (auto simp: optional_nonnegative_int_def split: if_splits option.splits cval.splits)

lemma alias_trimmed: "trimmed s \<Longrightarrow> trimmed (LINK_TYPE_ALIASES s)"
proof -
  have "trimmed ''GC-Mirror''" by code_simp
  then show "trimmed s \<Longrightarrow> trimmed (LINK_TYPE_ALIASES s)" by (simp add: LINK_TYPE_ALIASES_def)
qed

lemma alias_done: "link_type_error site t = None \<Longrightarrow> LINK_TYPE_ALIASES t = t"
  by (auto simp: link_type_error_def LINK_TYPE_ALIASES_def GETCOMICS_LINK_TYPES_def EXTERNAL_LINK_TYPES_def split: if_splits)

text \<open>\<open>json.loads\<close> returns JSON values.\<close>

definition json_loader :: "(string \<Rightarrow> cval option) \<Rightarrow> bool" where
  "json_loader loads \<longleftrightarrow> (\<forall>s w. loads s = Some w \<longrightarrow> writable w)"

lemma json_value_writable:
  assumes "json_loader loads" and "json_value loads v k = Inr w"
  shows "writable w"
proof (cases v)
  case (CList ps)
  then show ?thesis using assms(2) by (auto simp: json_value_def writable_def split: if_splits)
next
  case (CV p)
  show ?thesis
  proof (cases p)
    case (VStr t)
    then show ?thesis using assms CV
      by (auto simp: json_value_def json_loader_def split: if_splits option.splits) (simp add: writable_def)
  qed (use assms(2) CV in \<open>auto simp: json_value_def writable_def split: if_splits\<close>)
qed

lemma dict_of_Some: "dict_of p \<noteq> None \<Longrightarrow> VDict (as_dict p) = p"
  by (cases p) (simp_all add: dict_of_def)

lemma comicinfo_of_Inr: "comicinfo_of v = Inr x \<Longrightarrow> opt_list x = v"
  by (auto simp: comicinfo_of_def opt_list_def list_all_iff dict_of_Some comp_def
      intro!: map_idI split: cval.splits pval.splits if_splits)

lemma packinfo_of_Inr: "packinfo_of v = Inr x \<Longrightarrow> opt_dict x = v"
  by (auto simp: packinfo_of_def opt_dict_def split: cval.splits pval.splits)

lemma from_mapping_valid:
  assumes "json_loader loads" and "from_mapping loads raw = Inr c"
  shows "ddl_valid c"
proof -
  define d where "d = lower_keys raw"
  obtain raw_type ci0 pi0 sz where rt: "required_text d ''link_type'' = Inr raw_type"
    and lt: "dc_link_type c = LINK_TYPE_ALIASES raw_type"
    and texts: "required_text d ''site'' = Inr (dc_site c)" "required_text d ''id'' = Inr (dc_id c)"
      "required_text d ''link'' = Inr (dc_link c)" "required_text d ''series'' = Inr (dc_series c)"
      "required_text d ''comicid'' = Inr (dc_comicid c)" "required_text d ''issueid'' = Inr (dc_issueid c)"
    and e1: "link_type_error (dc_site c) (dc_link_type c) = None"
    and ci: "json_value loads (cget d ''comicinfo'') ''comicinfo'' = Inr ci0" "comicinfo_of ci0 = Inr (dc_comicinfo c)"
    and pk: "json_value loads (cget d ''packinfo'') ''packinfo'' = Inr pi0" "packinfo_of pi0 = Inr (dc_packinfo c)"
    and e2: "site_error (dc_site c) (dc_mainlink c) (dc_filename c) (dc_comicinfo c) = None"
    and sz: "optional_nonnegative_int (cget d ''remote_filesize'') ''remote_filesize'' = Inr sz"
      "dc_remote_filesize c = (case sz of None \<Rightarrow> 0 | Some n \<Rightarrow> n)"
    and rs: "optional_nonnegative_int (cget d ''resume'') ''resume'' = Inr (dc_resume c)"
    and opts: "dc_year c = optional_text (cget d ''year'')" "dc_size c = optional_text (cget d ''size'')"
      "dc_filename c = optional_text (cget d ''filename'')" "dc_mainlink c = optional_text (cget d ''mainlink'')"
      "dc_issues c = optional_text (cget d ''issues'')"
    using assms(2) unfolding from_mapping_def Let_def d_def [symmetric] first_error_Inr fail_on_Inr by auto
  have "trimmed (dc_link_type c)" using required_text_trimmed [OF rt] alias_trimmed lt by simp
  moreover have "0 \<le> dc_remote_filesize c" using sz nonnegative by (cases sz) auto
  moreover have "\<forall>n. dc_resume c = Some n \<longrightarrow> 0 \<le> n" using rs nonnegative by metis
  moreover have "writable (opt_list (dc_comicinfo c))"
    using json_value_writable [OF assms(1) ci(1)] comicinfo_of_Inr [OF ci(2)] by simp
  moreover have "writable (opt_dict (dc_packinfo c))"
    using json_value_writable [OF assms(1) pk(1)] packinfo_of_Inr [OF pk(2)] by simp
  ultimately show ?thesis
    using texts [THEN required_text_trimmed] e1 e2 opts optional_text_trimmed by (simp add: ddl_valid_def)
qed

section \<open>Reading back\<close>

lemma dict_set_new: "k \<notin> fst ` set d \<Longrightarrow> dict_set k v d = d @ [(k, v)]"
  unfolding dict_set_def by (induction d) auto

lemma lower_keys_from:
  "distinct (map fst (acc @ raw)) \<Longrightarrow> (\<And>k. k \<in> fst ` set raw \<Longrightarrow> py_lower k = k) \<Longrightarrow>
   foldl (\<lambda>d (k, v). dict_set (py_lower k) v d) acc raw = acc @ raw"
proof (induction raw arbitrary: acc)
  case (Cons kv raw)
  obtain k v where kv: "kv = (k, v)" by (cases kv)
  have "dict_set (py_lower k) v acc = acc @ [(k, v)]"
    using Cons.prems kv by (subst dict_set_new) auto
  with Cons kv show ?case by simp
qed simp

lemma lower_keys_id:
  "distinct (map fst raw) \<Longrightarrow> list_all (\<lambda>k. py_lower k = k) (map fst raw) \<Longrightarrow> lower_keys raw = raw"
  using lower_keys_from [of "[]" raw] by (auto simp: lower_keys_def list_all_iff)

lemma read_text: "cget d k = CV (VStr s) \<Longrightarrow> trimmed s \<Longrightarrow> required_text d k = Inr s"
  by (simp add: required_text_def cstr_def trimmed_def py_str_def)

lemma read_optional: "trimmed_opt x \<Longrightarrow> optional_text (opt_cv x) = x"
  by (cases x) (simp_all add: optional_text_def opt_cv_def cstr_def py_str_def trimmed_opt_def trimmed_def)

lemma read_int: "0 \<le> i \<Longrightarrow> optional_nonnegative_int (CV (VInt i)) k = Inr (Some i)"
  by (simp add: optional_nonnegative_int_def is_null_text_def py_int_of_def)

lemma read_opt_int: "(\<And>i. x = Some i \<Longrightarrow> 0 \<le> i) \<Longrightarrow> optional_nonnegative_int (opt_int x) k = Inr x"
  using read_int by (cases x) (simp_all add: opt_int_def optional_nonnegative_int_def is_null_text_def py_int_of_def)

lemma py_str_int_plain:
  assumes "0 \<le> i"
  shows "py_str_int i \<noteq> [] \<and> py_lower (py_strip (py_str_int i)) \<notin> {''none'', ''null''}"
proof -
  have dig: "is_digit c" if "c \<in> set (py_str_int i)" for c
    using that assms nat_digits_digit by (simp add: py_str_int_def)
  have ne: "py_str_int i \<noteq> []" using assms by (simp add: py_str_int_def)
  have st: "py_strip (py_str_int i) = py_str_int i" using dig digit_not_space by (intro strip_no_space) blast
  have "py_lower_char (hd (py_str_int i)) \<noteq> CHR ''n''"
    using dig [OF hd_in_set [OF ne]] by (auto simp: is_digit_def py_lower_char_def Let_def)
  then have "hd (py_lower (py_str_int i)) \<noteq> CHR ''n''" using ne by (simp add: py_lower_def hd_map)
  then show ?thesis using ne st by auto
qed

lemma read_int_text: "0 \<le> i \<Longrightarrow> optional_nonnegative_int (CV (VStr (py_str_int i))) k = Inr (Some i)"
  using py_str_int_plain [of i] py_int_str [of i]
  by (simp add: optional_nonnegative_int_def is_null_text_def py_int_of_def)

lemma read_bool: "bool_value (CV (VBool b)) k = Inr b" "bool_value (CV (VInt (if b then 1 else 0))) k = Inr b"
  by (simp_all add: bool_value_def)

lemma read_json: "writable (opt_list x) \<Longrightarrow> json_value loads (opt_list x) k = Inr (opt_list x)"
  "writable (opt_dict y) \<Longrightarrow> json_value loads (opt_dict y) k = Inr (opt_dict y)"
  by (cases x, simp_all add: json_value_def opt_list_def writable_def)
    (cases y, simp_all add: json_value_def opt_dict_def writable_def)

lemma read_structs: "comicinfo_of (opt_list x) = Inr x" "packinfo_of (opt_dict y) = Inr y"
  by (cases x, simp_all add: comicinfo_of_def opt_list_def list_all_iff dict_of_def comp_def)
    (cases y, simp_all add: packinfo_of_def opt_dict_def)

lemma queue_item_lower: "lower_keys (to_queue_item c) = to_queue_item c"
  by (rule lower_keys_id) (simp_all add: to_queue_item_def py_lower_def py_lower_char_def)

lemma cget_key: "dict_get d k = Some v \<Longrightarrow> cget d k = v"
  by (simp add: cget_def)

lemma queue_item_get:
  "cget (to_queue_item c) ''link_type'' = CV (VStr (dc_link_type c))" "cget (to_queue_item c) ''site'' = CV (VStr (dc_site c))"
  "cget (to_queue_item c) ''comicinfo'' = opt_list (dc_comicinfo c)" "cget (to_queue_item c) ''packinfo'' = opt_dict (dc_packinfo c)"
  "cget (to_queue_item c) ''mainlink'' = opt_cv (dc_mainlink c)" "cget (to_queue_item c) ''filename'' = opt_cv (dc_filename c)"
  "cget (to_queue_item c) ''remote_filesize'' = CV (VInt (dc_remote_filesize c))" "cget (to_queue_item c) ''id'' = CV (VStr (dc_id c))"
  "cget (to_queue_item c) ''link'' = CV (VStr (dc_link c))" "cget (to_queue_item c) ''series'' = CV (VStr (dc_series c))"
  "cget (to_queue_item c) ''comicid'' = CV (VStr (dc_comicid c))" "cget (to_queue_item c) ''issueid'' = CV (VStr (dc_issueid c))"
  "cget_or (to_queue_item c) ''oneoff'' v = CV (VBool (dc_oneoff c))" "cget (to_queue_item c) ''resume'' = opt_int (dc_resume c)"
  "cget_or (to_queue_item c) ''pack'' v = CV (VBool (dc_pack c))" "cget (to_queue_item c) ''year'' = opt_cv (dc_year c)"
  "cget (to_queue_item c) ''size'' = opt_cv (dc_size c)" "cget (to_queue_item c) ''issues'' = opt_cv (dc_issues c)"
  by (simp_all add: cget_def cget_or_def dict_get_def to_queue_item_def)

text \<open>A mapping that shows the fields of a valid command reads as that command.\<close>

lemma from_mapping_reads:
  assumes "ddl_valid c" and "d = lower_keys raw"
    and "cget d ''link_type'' = CV (VStr (dc_link_type c))" "cget d ''site'' = CV (VStr (dc_site c))"
    and "json_value loads (cget d ''comicinfo'') ''comicinfo'' = Inr (opt_list (dc_comicinfo c))"
    and "json_value loads (cget d ''packinfo'') ''packinfo'' = Inr (opt_dict (dc_packinfo c))"
    and "cget d ''mainlink'' = opt_cv (dc_mainlink c)" "cget d ''filename'' = opt_cv (dc_filename c)"
    and "optional_nonnegative_int (cget d ''remote_filesize'') ''remote_filesize'' = Inr (Some (dc_remote_filesize c))"
    and "cget d ''id'' = CV (VStr (dc_id c))" "cget d ''link'' = CV (VStr (dc_link c))" "cget d ''series'' = CV (VStr (dc_series c))"
    and "cget d ''comicid'' = CV (VStr (dc_comicid c))" "cget d ''issueid'' = CV (VStr (dc_issueid c))"
    and "bool_value (cget_or d ''oneoff'' (CV (VBool False))) ''oneoff'' = Inr (dc_oneoff c)"
    and "cget d ''resume'' = opt_int (dc_resume c)"
    and "bool_value (cget_or d ''pack'' (CV (VBool False))) ''pack'' = Inr (dc_pack c)"
    and "cget d ''year'' = opt_cv (dc_year c)" "cget d ''size'' = opt_cv (dc_size c)" "cget d ''issues'' = opt_cv (dc_issues c)"
  shows "from_mapping loads raw = Inr c"
proof -
  have v: "trimmed (dc_id c)" "trimmed (dc_link c)" "trimmed (dc_site c)" "trimmed (dc_series c)" "trimmed (dc_comicid c)"
    "trimmed (dc_issueid c)" "trimmed (dc_link_type c)" "trimmed_opt (dc_year c)" "trimmed_opt (dc_size c)"
    "trimmed_opt (dc_filename c)" "trimmed_opt (dc_mainlink c)" "trimmed_opt (dc_issues c)"
    "link_type_error (dc_site c) (dc_link_type c) = None"
    "site_error (dc_site c) (dc_mainlink c) (dc_filename c) (dc_comicinfo c) = None"
    "\<And>n. dc_resume c = Some n \<Longrightarrow> 0 \<le> n"
    using assms(1) by (simp_all add: ddl_valid_def)
  note texts = read_text [OF assms(3) v(7)] read_text [OF assms(4) v(3)] read_text [OF assms(10) v(1)]
    read_text [OF assms(11) v(2)] read_text [OF assms(12) v(4)] read_text [OF assms(13) v(5)] read_text [OF assms(14) v(6)]
  note opts = v(8-12) [THEN read_optional]
  have resume: "optional_nonnegative_int (cget d ''resume'') ''resume'' = Inr (dc_resume c)"
    using read_opt_int v(15) assms(16) by metis
  have ok: "fail_on None = Inr ()" by (simp add: fail_on_def)
  show ?thesis
    unfolding from_mapping_def Let_def assms(2) [symmetric]
    by (simp add: texts alias_done [OF v(13)] v(13,14) ok assms(5-9,15,17-20) read_structs opts resume)
qed

text \<open>A command survives the queue: reading back the queue item of an accepted command gives the
  same command, field by field, so the worker and a restart see what was accepted.\<close>

theorem queue_item_round_trips:
  assumes "json_loader loads" and "from_mapping loads raw = Inr c"
  shows "from_mapping loads (to_queue_item c) = Inr c"
proof -
  have v: "ddl_valid c" by (rule from_mapping_valid [OF assms])
  then have w: "writable (opt_list (dc_comicinfo c))" "writable (opt_dict (dc_packinfo c))" "0 \<le> dc_remote_filesize c"
    by (simp_all add: ddl_valid_def)
  show ?thesis
    by (rule from_mapping_reads [OF v queue_item_lower [symmetric]])
      (simp_all add: queue_item_get read_json w read_int read_bool)
qed

lemma persisted_lower:
  "lower_keys ((''ID'', v) # to_persisted_values dumps now status c) = (''id'', v) # to_persisted_values dumps now status c"
proof -
  let ?r = "(''id'', v) # to_persisted_values dumps now status c"
  have "lower_keys ((''ID'', v) # to_persisted_values dumps now status c) = lower_keys ?r"
  proof -
    have "py_lower ''ID'' = ''id''" "py_lower ''id'' = ''id''" by code_simp+
    then show ?thesis by (simp add: lower_keys_def)
  qed
  also have "\<dots> = ?r"
    by (rule lower_keys_id) (simp_all add: to_persisted_values_def py_lower_def py_lower_char_def)
  finally show ?thesis .
qed

lemma read_dumped:
  assumes "v \<noteq> CV VNone \<Longrightarrow> dumps v \<noteq> [] \<and> loads (dumps v) = Some v"
  shows "json_value loads (dumped dumps v) k = Inr v"
  using assms by (simp add: dumped_def json_value_def)

text \<open>A command survives a restart: the \<open>ddl_info\<close> row an accepted command is persisted as reads back
  as the same command, the numbers and flags stored as text and integers included, provided the JSON library reads
  what it wrote.\<close>

theorem persisted_row_round_trips:
  assumes "json_loader loads" and "from_mapping loads raw = Inr c"
    and "\<And>v. v \<in> {opt_list (dc_comicinfo c), opt_dict (dc_packinfo c)} \<Longrightarrow> v \<noteq> CV VNone \<Longrightarrow>
      dumps v \<noteq> [] \<and> loads (dumps v) = Some v"
  shows "from_mapping loads ((''ID'', CV (VStr (dc_id c))) # to_persisted_values dumps now status c) = Inr c"
proof -
  have v: "ddl_valid c" by (rule from_mapping_valid [OF assms(1,2)])
  then have w: "0 \<le> dc_remote_filesize c"
    by (simp_all add: ddl_valid_def)
  have js: "json_value loads (dumped dumps (opt_list (dc_comicinfo c))) k = Inr (opt_list (dc_comicinfo c))"
    "json_value loads (dumped dumps (opt_dict (dc_packinfo c))) k = Inr (opt_dict (dc_packinfo c))" for k
    by (rule read_dumped, rule assms(3); simp)+
  show ?thesis
    by (rule from_mapping_reads [OF v persisted_lower [symmetric]])
      (simp_all add: cget_def cget_or_def dict_get_def to_persisted_values_def js w read_int_text read_bool)
qed

definition demo_ddl :: cmapping where
  "demo_ddl = [(''ID'', CV (VInt 7)), (''link'', CV (VStr '' /l '')), (''site'', CV (VStr ''DDL(GetComics)'')),
     (''series'', CV (VStr ''S'')), (''comicid'', CV (VStr ''1'')), (''issueid'', CV (VStr ''42'')), (''pack'', CV (VStr ''yes'')),
     (''link_type'', CV (VStr ''GC_Mirror'')), (''mainlink'', CV (VStr ''/m'')), (''remote_filesize'', CV (VStr '' 12 '')),
     (''comicinfo'', CV (VStr ''[{}]''))]"

definition demo_loads :: "string \<Rightarrow> cval option" where
  "demo_loads s = (if s = ''[{}]'' then Some (CList [VDict []]) else None)"

definition demo_dumps :: "cval \<Rightarrow> string" where
  "demo_dumps v = ''[{}]''"

definition demo_ddl_command :: ddl_command where
  "demo_ddl_command = \<lparr>dc_id = ''7'', dc_link = ''/l'', dc_site = ''DDL(GetComics)'', dc_series = ''S'', dc_year = None,
     dc_size = None, dc_comicid = ''1'', dc_issueid = ''42'', dc_oneoff = False, dc_link_type = ''GC-Mirror'',
     dc_filename = None, dc_mainlink = Some ''/m'', dc_comicinfo = Some [[]], dc_packinfo = None, dc_remote_filesize = 12,
     dc_resume = None, dc_issues = None, dc_pack = True\<rparr>"

lemma demo_ddl_read: "from_mapping demo_loads demo_ddl = Inr demo_ddl_command"
  by code_simp

lemma demo_loader: "json_loader demo_loads"
  by (auto simp: json_loader_def demo_loads_def writable_def split: if_splits)

theorem queue_item_round_trips_witness:
  "from_mapping demo_loads (to_queue_item demo_ddl_command) = Inr demo_ddl_command"
  by (rule queue_item_round_trips [OF demo_loader demo_ddl_read])

theorem persisted_row_round_trips_witness:
  "from_mapping demo_loads ((''ID'', CV (VStr ''7'')) # to_persisted_values demo_dumps ''2026'' ''Queued'' demo_ddl_command)
   = Inr demo_ddl_command"
proof -
  have "from_mapping demo_loads ((''ID'', CV (VStr (dc_id demo_ddl_command))) # to_persisted_values demo_dumps ''2026'' ''Queued'' demo_ddl_command)
      = Inr demo_ddl_command"
    by (rule persisted_row_round_trips [OF demo_loader demo_ddl_read])
      (auto simp: demo_ddl_command_def opt_list_def opt_dict_def demo_dumps_def demo_loads_def)
  then show ?thesis by (simp add: demo_ddl_command_def)
qed

end
