(* ===== verification/PostProcess.thy ===== *)
theory PostProcess
  imports RecoveryClassify PPCommands Maintenance RunLedger DDLCommand
begin

text \<open>
  \<open>comicarr/app/downloads/postprocessing.py\<close> and \<open>_postprocess_completion.py\<close>: running a post-processing
  command, continuing one after a restart, and the closing write, over the journal, the library, the nzblog anchors
  and the maintenance leases together.  The processor itself is a parameter that may change anything and may raise.
\<close>

section \<open>World and environment\<close>

record nzb_row =
  nz_issueid :: "string option"
  nz_provider :: "string option"
  nz_name :: "string option"
  nz_sarc :: "string option"

record snatch_row =
  sn_issueid :: "string option"
  sn_comicname :: "string option"
  sn_number :: "string option"
  sn_size :: "int option"
  sn_date :: "string option"
  sn_status :: "string option"
  sn_folder :: "string option"
  sn_comicid :: "string option"
  sn_provider :: "string option"
  sn_hash :: "string option"
  sn_crc :: "string option"

text \<open>What the processor returns: nothing, one object, or a list of them.\<close>

datatype xval = XNone | XOne pval | XEntries "pval list"

text \<open>\<open>pw_locked\<close>: another thread holds \<open>APILOCK\<close>; \<open>pw_budget\<close>: the count of \<open>_RECOVERY_BUDGET\<close> inside a
  start-up pass; the queues are lists, oldest item first.\<close>

record pworld =
  pw_journal :: jstate
  pw_recon :: rstate
  pw_nzblog :: "nzb_row list"
  pw_snatched :: "snatch_row list"
  pw_ddl :: "ddl_row list"
  pw_maint :: mstate
  pw_locked :: bool
  pw_budget :: "nat option"
  pw_pp_queue :: "payload list"
  pw_torrent_queue :: "payload list"
  pw_nzb_queue :: "payload list"
  pw_sab_removed :: "(string \<times> string) list"
  pw_stuck :: "string list"

text \<open>\<open>pe_attempts\<close> is the database's mood at each transaction of its own, \<open>pe_lease\<close> the fresh lease id,
  \<open>pe_ddl_item\<close> a whole row of \<open>ddl_info\<close> by id.\<close>

record penv =
  pe_loads :: "string \<Rightarrow> pval option"
  pe_sha :: "payload \<Rightarrow> string"
  pe_comics :: "crow list"
  pe_verified :: "string option \<Rightarrow> string option \<Rightarrow> string list \<Rightarrow> bool"
  pe_now :: string
  pe_blocklist_up :: bool
  pe_rewant_up :: bool
  pe_attempts :: "attempt list"
  pe_library_up :: bool
  pe_nzblog_up :: bool
  pe_ddl_up :: bool
  pe_snatched_up :: bool
  pe_ddl_item :: "string \<Rightarrow> cmapping option"
  pe_fs :: fsys
  pe_conf :: pp_config
  pe_lease :: string
  pe_operator :: bool

text \<open>The processor: it raises (an exception class name) or returns, and may have changed anything.\<close>

type_synonym processor = "payload \<Rightarrow> pworld \<Rightarrow> (string + xval) \<times> pworld"

text \<open>What the other components see of the world.\<close>

definition lrow_of :: "issue_row \<Rightarrow> lrow" where
  "lrow_of r = \<lparr>lr_issueid = is_id r, lr_comicid = is_comicid r, lr_status = is_status r,
     lr_location = is_location r, lr_deleted = is_deleted r\<rparr>"

definition jenv_of :: "penv \<Rightarrow> pworld \<Rightarrow> jenv" where
  "jenv_of env w =
     (let l = rs_lib (pw_recon w) in
      \<lparr>je_loads = pe_loads env, je_issues = map lrow_of (ol_issues l), je_annuals = map lrow_of (ol_annuals l),
       je_storyarcs = map lrow_of (ol_storyarcs l), je_comics = pe_comics env, je_verified = pe_verified env\<rparr>)"

definition renv_of :: "penv \<Rightarrow> renv" where
  "renv_of env = \<lparr>re_loads = pe_loads env, re_now = pe_now env, re_blocklist_up = pe_blocklist_up env,
     re_rewant_up = pe_rewant_up env\<rparr>"

definition cdb_of :: "penv \<Rightarrow> pworld \<Rightarrow> cdb" where
  "cdb_of env w = \<lparr>cd_lib = rs_lib (pw_recon w), cd_nzblog = map (\<lambda>n. (nz_issueid n, nz_provider n)) (pw_nzblog w),
     cd_ddl = pw_ddl w, cd_library_up = pe_library_up env, cd_nzblog_up = pe_nzblog_up env, cd_ddl_up = pe_ddl_up env\<rparr>"

definition jrow_of :: "pworld \<Rightarrow> string \<Rightarrow> jrow option" where
  "jrow_of w key = js_row (pw_journal w) key"

fun jerror_name :: "jerror \<Rightarrow> string" where
  "jerror_name JValueError = ''ValueError''"
| "jerror_name JTypeError = ''TypeError''"
| "jerror_name JOperationalError = ''OperationalError''"

fun merror_name :: "merror \<Rightarrow> string" where
  "merror_name MValueError = ''ValueError''"
| "merror_name MConflict = ''MaintenanceConflict''"
| "merror_name MBlocked = ''MaintenanceBlocked''"
| "merror_name MIntegrityError = ''IntegrityError''"

text \<open>\<open>journal.record_transition\<close> without a connection; an exception leaves the world as it was.\<close>

definition transition_own ::
  "penv \<Rightarrow> pworld \<Rightarrow> string \<Rightarrow> string \<Rightarrow> pval \<Rightarrow> jfields \<Rightarrow> jerror + bool \<times> pworld" where
  "transition_own env w key stage payload fs =
     (case record_transition_own (jenv_of env w) (pe_attempts env) None (pw_journal w) key stage payload fs (pe_now env) of
        Inl e \<Rightarrow> Inl e
      | Inr (won, j) \<Rightarrow> Inr (won, w\<lparr>pw_journal := j\<rparr>))"

definition record_own :: "penv \<Rightarrow> pworld \<Rightarrow> entry \<Rightarrow> jerror + record_outcome_t \<times> pworld" where
  "record_own env w en =
     (case record_entry (jenv_of env w) (renv_of env) (pe_attempts env) None en (pw_journal w, pw_recon w) of
        Inl e \<Rightarrow> Inl e
      | Inr (ro, j, r) \<Rightarrow> Inr (ro, w\<lparr>pw_journal := j, pw_recon := r\<rparr>))"

definition blank_entry :: "entry_kind \<Rightarrow> string \<Rightarrow> string \<Rightarrow> pval \<Rightarrow> entry" where
  "blank_entry kind key reason payload =
     \<lparr>en_kind = kind, en_key = key, en_reason = reason, en_payload = payload, en_issueid = None, en_provider = None,
      en_dtype = None, en_nzbname = None, en_release_id = None, en_hash = None, en_comicid = None,
      en_comicname = None, en_issue_number = None\<rparr>"

section \<open>The closing write\<close>

definition opt_str :: "string option \<Rightarrow> string" where
  "opt_str x = (case x of None \<Rightarrow> ''None'' | Some s \<Rightarrow> s)"

definition is_story_arc_obligation :: "penv \<Rightarrow> pworld \<Rightarrow> string option \<Rightarrow> bool option" where
  "is_story_arc_obligation env w issueid =
     (case issueid of None \<Rightarrow> None
      | Some i \<Rightarrow> if pe_library_up env then Some (first_with_id i (ol_storyarcs (rs_lib (pw_recon w))) \<noteq> []) else None)"

definition anchor_matches :: "penv \<Rightarrow> pworld \<Rightarrow> jrow \<Rightarrow> pval \<Rightarrow> nzb_row \<Rightarrow> bool" where
  "anchor_matches env w r payload n =
     (let i = opt_str (jr_issueid r);
          plain = (nz_issueid n = Some i);
          either = (plain \<or> nz_issueid n = Some (CHR ''S'' # i));
          arc = (case payload_story_arc payload of Some a \<Rightarrow> Some a | None \<Rightarrow> is_story_arc_obligation env w (jr_issueid r));
          name = (case payload of VDict d \<Rightarrow> pv_or (pv_get d ''nzbname'') (pv_get d ''nzb_name'') | _ \<Rightarrow> VNone)
      in (if arc = Some False then plain
          else if arc = Some True then either
          else if truthy name then either \<and> nz_name n = Some (py_str name)
          else plain)
         \<and> (present (jr_provider r) \<longrightarrow> nz_provider n = jr_provider r))"

definition delete_anchor :: "penv \<Rightarrow> jrow \<Rightarrow> pval \<Rightarrow> pworld \<Rightarrow> pworld" where
  "delete_anchor env r payload w = w\<lparr>pw_nzblog := filter (\<lambda>n. \<not> anchor_matches env w r payload n) (pw_nzblog w)\<rparr>"

text \<open>\<open>finish_obligation\<close>: both writes in one transaction, so an exception undoes the deletion too.\<close>

definition finish_obligation :: "penv \<Rightarrow> string \<Rightarrow> jrow \<Rightarrow> pval \<Rightarrow> pworld \<Rightarrow> jerror + pworld" where
  "finish_obligation env key r payload w =
     (case record_transition (jenv_of env w) None (pw_journal w) key ''post_processed'' payload
             [(CIssueid, jr_issueid r), (CProvider, jr_provider r)] (pe_now env) of
        Inl e \<Rightarrow> Inl e
      | Inr (_, j) \<Rightarrow> Inr ((delete_anchor env r payload w)\<lparr>pw_journal := j\<rparr>))"

definition obligation_already_fulfilled :: "penv \<Rightarrow> pworld \<Rightarrow> jrow \<Rightarrow> bool" where
  "obligation_already_fulfilled env w r =
     (if \<not> present (jr_issueid r) \<or> \<not> pe_library_up env then False
      else case first_with_id (the (jr_issueid r)) (ol_issues (rs_lib (pw_recon w))) of
        [] \<Rightarrow> False
      | q # _ \<Rightarrow>
          if is_status q \<noteq> Some ''Downloaded'' then False
          else (case find (\<lambda>c. cr_comicid c = opt_str (is_comicid q)) (pe_comics env) of
                  None \<Rightarrow> False
                | Some c \<Rightarrow> pe_verified env (cr_location c) (is_location q) []))"

section \<open>Helpers of a run\<close>

record pp_result =
  pr_status :: string
  pr_value :: xval
  pr_action :: "string option"

definition result :: "string \<Rightarrow> string option \<Rightarrow> pp_result" where
  "result status action = \<lparr>pr_status = status, pr_value = XNone, pr_action = action\<rparr>"

definition execute :: "processor \<Rightarrow> payload \<Rightarrow> pworld \<Rightarrow> (string + xval) \<times> pworld" where
  "execute exec item w =
     (if pv_get item ''source'' \<in> {VStr ''compat'', VStr ''monitor''} \<and> truthy (pv_get item ''failed'')
      then (Inr XNone, w) else exec item w)"

definition is_unjournaled :: "payload \<Rightarrow> bool" where
  "is_unjournaled item \<longleftrightarrow>
     pv_get item ''source'' \<in> {VStr ''manual'', VStr ''compat'', VStr ''monitor''}
     \<and> \<not> truthy (pv_get item ''journal_release_key'')"

definition stamp_attention_import :: "penv \<Rightarrow> payload \<Rightarrow> bool \<Rightarrow> pworld \<Rightarrow> pworld" where
  "stamp_attention_import env item succeeded w =
     (let band = pv_get item ''attention_release_key''; attempt_key = pv_get item ''journal_release_key'' in
      if \<not> truthy band then w
      else if \<not> succeeded \<and> truthy attempt_key \<and> py_str band = py_str attempt_key then w
      else (case stamp_resolution (pw_journal w) (py_str band) ''imported'' False (pe_now env) of
              Inl _ \<Rightarrow> w | Inr (_, j) \<Rightarrow> w\<lparr>pw_journal := j\<rparr>))"

definition failed_import_redrive :: "payload \<Rightarrow> string option \<Rightarrow> pworld \<Rightarrow> bool" where
  "failed_import_redrive item key w =
     (present key \<and> py_in ''|import:'' (the key) \<and> truthy (pv_get item ''attention_release_key'')
      \<and> (case jrow_of w (the key) of
           None \<Rightarrow> False
         | Some r \<Rightarrow> \<not> is_resolved (jr_status r) \<and> jr_stage r = Manual_review))"

text \<open>\<open>_quarantine\<close>: swallows every exception of its own.\<close>

definition quarantine_item :: "penv \<Rightarrow> pval \<Rightarrow> string \<Rightarrow> string option \<Rightarrow> pworld \<Rightarrow> pworld" where
  "quarantine_item env it reason key w =
     (case it of
        VDict item \<Rightarrow>
          if is_unjournaled item \<and> \<not> present key then w
          else
            let given = (if present key then Some (the key)
                         else if truthy (pv_get item ''journal_release_key'') then Some (py_str (pv_get item ''journal_release_key''))
                         else None);
                k = (case given of Some g \<Rightarrow> g | None \<Rightarrow> derive_release_key (pe_sha env) item);
                en = (blank_entry ManualReview k reason (VDict item))
                       \<lparr>en_issueid := pv_text (pv_get item ''issueid''), en_provider := pv_text (pv_get item ''provider'')\<rparr>
            in (case record_own env w en of Inl _ \<Rightarrow> w | Inr (_, w') \<Rightarrow> w')
      | _ \<Rightarrow> w)"

definition pp_command :: "string \<Rightarrow> jrow \<Rightarrow> pval \<Rightarrow> payload" where
  "pp_command key r payload =
     (let p = as_dict payload; g = pv_get p;
          dflt = (\<lambda>k v. if has_key p k then g k else v)
      in [(''nzb_name'', pv_or (pv_or (g ''nzb_name'') (g ''nzbname'')) (opt_pv (jr_nzbname r))),
          (''nzb_folder'', g ''nzb_folder''),
          (''failed'', dflt ''failed'' (VBool False)),
          (''issueid'', pv_or (g ''issueid'') (opt_pv (jr_issueid r))),
          (''comicid'', g ''comicid''),
          (''provider'', opt_pv (jr_provider r)),
          (''apicall'', dflt ''apicall'' (VBool True)),
          (''ddl'', dflt ''ddl'' (VBool False)),
          (''download_info'', g ''download_info''),
          (''journal_release_key'', VStr key)])"

text \<open>\<open>int((payload or {}).get("recovery_count") or 0)\<close>, zero when it is not a number.\<close>

definition recovery_count :: "pval \<Rightarrow> int" where
  "recovery_count payload =
     (case pv_or (pv_get (as_dict payload) ''recovery_count'') (VInt 0) of
        VInt i \<Rightarrow> i | VBool b \<Rightarrow> (if b then 1 else 0)
      | VStr s \<Rightarrow> (case py_int s of None \<Rightarrow> 0 | Some i \<Rightarrow> i)
      | _ \<Rightarrow> 0)"

definition legacy_stop_result :: "xval \<Rightarrow> bool" where
  "legacy_stop_result v =
     (case (case v of XNone \<Rightarrow> [] | XOne (VDict d) \<Rightarrow> [VDict d] | XOne _ \<Rightarrow> [] | XEntries es \<Rightarrow> es) of
        VDict d # _ \<Rightarrow> pv_get d ''mode'' = VStr ''stop'' | _ \<Rightarrow> False)"

definition claim_pp_recovery :: "penv \<Rightarrow> string \<Rightarrow> payload \<Rightarrow> pval \<Rightarrow> pworld \<Rightarrow> jerror + bool \<times> pworld" where
  "claim_pp_recovery env key item payload w =
     (if int MAX_RECOVERY_ATTEMPTS \<le> recovery_count payload
      then Inr (False, quarantine_item env (VDict item) ''recovery_attempts_exhausted:post_processing'' (Some key) w)
      else (case transition_own env w key ''post_processing''
                   (VDict (dict_set ''recovery_count'' (VInt (recovery_count payload + 1)) (as_dict payload))) [] of
              Inl e \<Rightarrow> Inl e
            | Inr (_, w') \<Rightarrow> Inr (True, w')))"

definition unfinished_payload :: "xval \<Rightarrow> payload \<Rightarrow> payload" where
  "unfinished_payload v p =
     (if legacy_stop_result v then dict_set ''fail_detail'' (VStr ''postprocess_stopped'') p
      else if has_key p ''fail_detail'' then p else dict_set ''fail_detail'' (VStr ''postprocess_unfinished'') p)"

text \<open>\<open>_try_note_unfinished_claim\<close>\<close>

definition note_unfinished_claim :: "penv \<Rightarrow> string option \<Rightarrow> xval \<Rightarrow> pworld \<Rightarrow> pworld" where
  "note_unfinished_claim env key v w =
     (if \<not> present key then w
      else case jrow_of w (the key) of
        None \<Rightarrow> w
      | Some r \<Rightarrow>
          if jr_stage r \<noteq> Post_processing then w
          else (case transition_own env w (the key) ''post_processing''
                       (VDict (unfinished_payload v (as_dict (load_payload (jr_payload r))))) [] of
                  Inl _ \<Rightarrow> w | Inr (_, w') \<Rightarrow> w'))"

text \<open>The outer \<open>finally\<close>: the lease and the lock are given back.\<close>

definition drop_lease :: "penv \<Rightarrow> pworld \<Rightarrow> pworld" where
  "drop_lease env w = w\<lparr>pw_maint := snd (release_lease (pw_maint w) (pe_lease env) (pe_now env)), pw_locked := False\<rparr>"

definition take_lease :: "penv \<Rightarrow> string \<Rightarrow> string \<Rightarrow> string option \<Rightarrow> pworld \<Rightarrow> merror + lease \<times> pworld" where
  "take_lease env owner kind eid w =
     (case acquire_lease (pe_operator env) (pw_maint w) owner kind (Some ''release'') eid (pe_lease env) (pe_now env) of
        Inl e \<Rightarrow> Inl e
      | Inr (l, m) \<Rightarrow> Inr (l, w\<lparr>pw_maint := m\<rparr>))"

section \<open>New work\<close>

definition CLAIM_KEYS :: "string list" where
  "CLAIM_KEYS = [''nzb_name'', ''nzb_folder'', ''failed'', ''issueid'', ''comicid'', ''provider'', ''apicall'', ''ddl'',
     ''download_info'', ''attention_release_key'']"

definition run_key :: "penv \<Rightarrow> payload \<Rightarrow> string option" where
  "run_key env item =
     (if is_unjournaled item then None
      else if truthy (pv_get item ''journal_release_key'') then Some (py_str (pv_get item ''journal_release_key''))
      else Some (derive_release_key (pe_sha env) [(''issueid'', pv_get item ''issueid''),
             (''comicid'', pv_get item ''comicid''), (''nzbname'', pv_get item ''nzb_name'')]))"

definition run_claim :: "penv \<Rightarrow> payload \<Rightarrow> string \<Rightarrow> pworld \<Rightarrow> jerror + bool \<times> pworld" where
  "run_claim env item key w =
     transition_own env w key ''post_processing'' (VDict (map (\<lambda>k. (k, pv_get item k)) CLAIM_KEYS))
       [(CIssueid, pv_text (pv_get item ''issueid'')), (CProvider, pv_text (pv_get item ''provider''))]"

definition run_failed :: "penv \<Rightarrow> payload \<Rightarrow> string \<Rightarrow> string option \<Rightarrow> pworld \<Rightarrow> pp_result \<times> pworld" where
  "run_failed env item reason key w =
     (result ''failed'' None, stamp_attention_import env item False (quarantine_item env (VDict item) reason key w))"

text \<open>The \<open>except\<close> clauses, by class name.\<close>

definition run_raised :: "penv \<Rightarrow> payload \<Rightarrow> string \<Rightarrow> string option \<Rightarrow> pworld \<Rightarrow> pp_result \<times> pworld" where
  "run_raised env item name key w =
     (if name = ''MaintenanceBlocked'' then (result ''busy'' (Some ''retry''), w)
      else if name = ''PostProcessCommandError'' then run_failed env item (''invalid_postprocess_command:'' @ name) key w
      else run_failed env item (''postprocess_error:'' @ name) key w)"

definition run_processor :: "processor \<Rightarrow> penv \<Rightarrow> payload \<Rightarrow> string option \<Rightarrow> pworld \<Rightarrow> pp_result \<times> pworld" where
  "run_processor exec env item key w =
     (let item' = dict_set ''journal_release_key'' (opt_pv key) item in
      case execute exec item' w of
        (Inl name, w') \<Rightarrow> run_raised env item' name key w'
      | (Inr v, w') \<Rightarrow>
          (\<lparr>pr_status = ''processed'', pr_value = v, pr_action = None\<rparr>,
           if is_unjournaled item then w'
           else stamp_attention_import env item' True (note_unfinished_claim env key v w')))"

definition run_leased :: "processor \<Rightarrow> penv \<Rightarrow> payload \<Rightarrow> string option \<Rightarrow> pworld \<Rightarrow> pp_result \<times> pworld" where
  "run_leased exec env item0 key w =
     (case validate_postprocess_item (pe_fs env) (pe_conf env) [] True (VDict item0) of
        Inl _ \<Rightarrow> run_raised env item0 ''PostProcessCommandError'' key w
      | Inr item \<Rightarrow>
          if is_unjournaled item0 then run_processor exec env item None w
          else (case run_claim env item (the key) w of
              Inl _ \<Rightarrow>
                if truthy (pv_get item ''journal_release_key'') then (result ''busy'' (Some ''retry''), w)
                else run_processor exec env item None w
            | Inr (won, w') \<Rightarrow>
                if \<not> won \<and> \<not> failed_import_redrive item key w' then (result ''duplicate'' None, w')
                else run_processor exec env item key w'))"

text \<open>\<open>run\<close>\<close>

definition run_pp :: "processor \<Rightarrow> penv \<Rightarrow> pval \<Rightarrow> pworld \<Rightarrow> pp_result \<times> pworld" where
  "run_pp exec env request w =
     (case validate_postprocess_item (pe_fs env) (pe_conf env) [] True request of
        Inl _ \<Rightarrow> (result ''failed'' None,
                    quarantine_item env request ''invalid_postprocess_command:PostProcessCommandError'' None w)
      | Inr item \<Rightarrow>
          let key = run_key env item in
          if pw_locked w then (result ''busy'' (Some ''retry''), w)
          else (case take_lease env ''postprocess-worker'' ''postprocess'' key (w\<lparr>pw_locked := True\<rparr>) of
              Inl e \<Rightarrow>
                (case run_raised env item (merror_name e) key w of (r, w2) \<Rightarrow> (r, w2\<lparr>pw_locked := False\<rparr>))
            | Inr (l, w1) \<Rightarrow>
                (case (if assert_lease_current (pw_maint w1) l (pe_now env) then run_leased exec env item key w1
                       else run_raised env item ''MaintenanceBlocked'' key w1) of
                   (r, w2) \<Rightarrow> (r, drop_lease env w2))))"

section \<open>Continuing after a restart\<close>

definition MAX_INLINE_PP_REDRIVE_PER_PASS :: nat where
  "MAX_INLINE_PP_REDRIVE_PER_PASS = 5"

definition recover_failed :: "penv \<Rightarrow> string \<Rightarrow> payload \<Rightarrow> string \<Rightarrow> pworld \<Rightarrow> pp_result \<times> pworld" where
  "recover_failed env key item reason w =
     (result ''failed'' (Some ''post_processing-manual-review''), quarantine_item env (VDict item) reason (Some key) w)"

text \<open>From the command on: an exception is recorded against the release.\<close>

definition recover_redrive :: "processor \<Rightarrow> penv \<Rightarrow> string \<Rightarrow> payload \<Rightarrow> pworld \<Rightarrow> pp_result \<times> pworld" where
  "recover_redrive exec env key item w =
     (case execute exec item (w\<lparr>pw_budget := map_option Suc (pw_budget w)\<rparr>) of
        (Inl name, w') \<Rightarrow>
          if name = ''MaintenanceBlocked'' then (result ''busy'' (Some ''post_processing-busy''), w')
          else recover_failed env key item (''recovered_postprocess_error:'' @ name) w'
      | (Inr v, w') \<Rightarrow>
          (\<lparr>pr_status = ''processed'', pr_value = v, pr_action = Some ''post_processing-redrive''\<rparr>,
           note_unfinished_claim env (Some key) v w'))"

definition recover_item :: "processor \<Rightarrow> penv \<Rightarrow> string \<Rightarrow> payload \<Rightarrow> pval \<Rightarrow> pworld \<Rightarrow> pp_result \<times> pworld" where
  "recover_item exec env key item0 payload w =
     (case validate_postprocess_item (pe_fs env) (pe_conf env) [] True (VDict item0) of
        Inl _ \<Rightarrow> recover_failed env key item0 ''invalid_recovered_postprocess_command:PostProcessCommandError'' w
      | Inr item \<Rightarrow>
          (case claim_pp_recovery env key item payload w of
             Inl e \<Rightarrow> recover_failed env key item (''recovered_postprocess_error:'' @ jerror_name e) w
           | Inr (False, w') \<Rightarrow> (result ''failed'' (Some ''post_processing-manual-review''), w')
           | Inr (True, w') \<Rightarrow> recover_redrive exec env key item w'))"

definition recover_leased :: "processor \<Rightarrow> penv \<Rightarrow> string \<Rightarrow> pworld \<Rightarrow> (string + pp_result) \<times> pworld" where
  "recover_leased exec env key w =
     (case jrow_of w key of
        None \<Rightarrow> (Inr (result ''ignored'' (Some ''ignored'')), w)
      | Some r \<Rightarrow>
          let payload = load_payload (jr_payload r) in
          if jr_stage r \<notin> {Moved, Post_processing} then (Inr (result ''ignored'' (Some ''ignored'')), w)
          else if jr_stage r = Moved \<or> obligation_already_fulfilled env w r then
            (case finish_obligation env key r payload w of
               Inl e \<Rightarrow> (Inl (jerror_name e), w)
             | Inr w' \<Rightarrow> (Inr (result ''processed'' (Some (if jr_stage r = Moved then ''moved-finish-dbfacts''
                                 else ''post_processing-already-fulfilled''))), w'))
          else if (case pw_budget w of None \<Rightarrow> False | Some n \<Rightarrow> MAX_INLINE_PP_REDRIVE_PER_PASS \<le> n)
          then (Inr (result ''busy'' (Some ''skip-pp-cap-deferred'')), w)
          else (case recover_item exec env key (pp_command key r payload) payload w of (res, w') \<Rightarrow> (Inr res, w')))"

definition recover :: "processor \<Rightarrow> penv \<Rightarrow> string \<Rightarrow> pworld \<Rightarrow> (string + pp_result) \<times> pworld" where
  "recover exec env key w =
     (if pw_locked w then (Inr (result ''busy'' (Some ''post_processing-busy'')), w)
      else (case take_lease env ''startup-recovery'' ''postprocess-redrive'' (Some key) (w\<lparr>pw_locked := True\<rparr>) of
          Inl e \<Rightarrow> (if e = MBlocked then Inr (result ''busy'' (Some ''post_processing-busy'')) else Inl (merror_name e), w)
        | Inr (l, w1) \<Rightarrow>
            (case (if assert_lease_current (pw_maint w1) l (pe_now env) then recover_leased exec env key w1
                   else (Inr (result ''busy'' (Some ''post_processing-busy'')), w1)) of
               (res, w2) \<Rightarrow> (res, drop_lease env w2))))"

end
