(* ===== verification/PostProcessProps.thy ===== *)
theory PostProcessProps
  imports PostProcess PPCommandsProps ClassifyProps
begin

text \<open>
  The properties of running and continuing post-processing: finished work is not processed again, a claimed release
  is processed once, and a release whose processing never finishes is driven a bounded number of times and then
  handed to an operator.
\<close>

section \<open>Parking a row\<close>

lemma manual_review_stage [simp]: "stage_of_string ''manual_review'' = Some Manual_review"
  "stage_of_string ''post_processing'' = Some Post_processing" "stage_of_string ''post_processed'' = Some Post_processed"
  by (simp_all add: stage_of_string_def)

lemma open_rank: "\<not> is_terminal st \<Longrightarrow> STAGE_RANK st < STAGE_RANK Manual_review"
  by (cases st) (simp_all add: is_terminal_def TERMINAL_STAGES_def)

lemma quarantine_stage:
  "js_row s key = Some r \<Longrightarrow> \<not> is_terminal (jr_stage r) \<Longrightarrow>
   \<exists>q. js_row (quarantine s key r c when fs p) key = Some q \<and> jr_stage q = Manual_review"
  by (simp add: quarantine_def Let_def quarantine_row_def)

lemma advance_wins:
  assumes "js_row s key = Some r" and "\<not> is_terminal (jr_stage r)" and "jr_rank r < STAGE_RANK st"
  shows "\<exists>t q. advance_or_reset e s key r st when fs pj = Inr (True, t) \<and> js_row t key = Some q \<and> jr_stage q = st"
  using assms by (simp add: advance_or_reset_def guarded_advance_def)

text \<open>A transition of an open row to a later stage either wins or parks the row.\<close>

lemma later_transition:
  assumes "journal_wf s" and "js_row s key = Some r" and "\<not> is_terminal (jr_stage r)"
    and "stage_of_string stage = Some st" and "jr_stage r < st"
  shows "\<exists>won t q. record_transition e None s key stage p fs when = Inr (won, t) \<and> js_row t key = Some q
    \<and> jr_stage q \<in> {st, Manual_review}"
proof -
  let ?p = "sanitize_payload (je_loads e) p"
  have rk: "jr_rank r < STAGE_RANK st"
    using journal_wfD [OF assms(1,2)] assms(5) STAGE_RANK_less by simp
  then have ne: "jr_rank r \<noteq> STAGE_RANK st" by simp
  have "\<exists>won t q. transition_existing e s key r st fs ?p when = Inr (won, t) \<and> js_row t key = Some q
      \<and> jr_stage q \<in> {st, Manual_review}"
  proof (cases "transition_conflict e r st fs ?p")
    case None
    obtain t q where "advance_or_reset e s key r st when fs
        (dump_payload (Some (fst (merge_payload (transition_payload e r st) ?p)))) = Inr (True, t)"
      "js_row t key = Some q" "jr_stage q = st"
      using advance_wins [OF assms(2,3) rk] by blast
    with None ne show ?thesis by (simp add: transition_existing_def Let_def) blast
  next
    case (Some c)
    then show ?thesis using quarantine_stage [OF assms(2,3)] by (simp add: transition_existing_def Let_def) blast
  qed
  then show ?thesis using assms(2,4) by (auto simp: record_transition_def apply_transition_def Let_def)
qed

lemma own_attempts_cases: "own_attempts n as body \<in> {Inl JOperationalError, body}"
  by (induction n as body rule: own_attempts.induct) auto

definition healthy :: "penv \<Rightarrow> bool" where
  "healthy env \<longleftrightarrow> pe_attempts env = []"

lemma own_healthy: "healthy env \<Longrightarrow> own_attempts 5 (pe_attempts env) body = body"
  by (simp add: healthy_def eval_nat_numeral)

text \<open>A reason shown to the operator owes nothing, so recording it cannot fail on the library.\<close>

lemma record_own_parks:
  assumes "healthy env" and "journal_wf (pw_journal w)" and "jrow_of w key = Some r" and "\<not> is_terminal (jr_stage r)"
    and "en_kind en = ManualReview" and "en_key en = key" and "reconciliation_for (Some (en_reason en)) = None"
  shows "\<exists>ro w' q. record_own env w en = Inr (ro, w') \<and> jrow_of w' key = Some q \<and> jr_stage q = Manual_review"
proof -
  have lt: "jr_stage r < Manual_review"
    using open_rank [OF assms(4)] by (simp only: STAGE_RANK_less)
  obtain won t q where t: "entry_transition (jenv_of env w) None (pw_journal w) en (re_now (renv_of env)) = Inr (won, t)"
      "js_row t key = Some q" "jr_stage q = Manual_review"
    using later_transition [OF assms(2) assms(3) [unfolded jrow_of_def] assms(4) manual_review_stage(1) lt] assms(5,6)
    by (simp add: entry_transition_def mark_manual_review_def) blast
  have "reconcile_excluded (renv_of env) True (entry_args en) (pw_recon w) = Some (''noop'', pw_recon w)"
    using assms(7) by (simp add: reconcile_excluded_def entry_args_def)
  then show ?thesis
    using t
    by (simp add: own_healthy [OF assms(1)] record_own_def record_entry_def record_on_connection_def jrow_of_def)
qed

lemma quarantine_item_parks:
  assumes "healthy env" and "journal_wf (pw_journal w)" and "jrow_of w key = Some r" and "\<not> is_terminal (jr_stage r)"
    and "key \<noteq> []" and "reconciliation_for (Some reason) = None"
  shows "\<exists>q. jrow_of (quarantine_item env (VDict item) reason (Some key) w) key = Some q \<and> jr_stage q = Manual_review"
proof -
  let ?en = "(blank_entry ManualReview key reason (VDict item))
     \<lparr>en_issueid := pv_text (pv_get item ''issueid''), en_provider := pv_text (pv_get item ''provider'')\<rparr>"
  obtain ro w' q where "record_own env w ?en = Inr (ro, w')" "jrow_of w' key = Some q" "jr_stage q = Manual_review"
    using record_own_parks [OF assms(1-4), of ?en] assms(6) by (auto simp: blank_entry_def)
  then show ?thesis using assms(5) by (simp add: quarantine_item_def)
qed

section \<open>Continuing\<close>

lemma take_lease_Inr:
  assumes "take_lease env owner kind eid w = Inr (l, w1)"
  obtains m where "w1 = w\<lparr>pw_maint := m\<rparr>"
  using assms by (auto simp: take_lease_def split: sum.splits prod.splits)

lemma drop_lease_frame [simp]:
  "pw_journal (drop_lease env w) = pw_journal w" "pw_recon (drop_lease env w) = pw_recon w"
  "pw_nzblog (drop_lease env w) = pw_nzblog w" "jrow_of (drop_lease env w) key = jrow_of w key"
  by (simp_all add: drop_lease_def jrow_of_def)

lemma maint_frame [simp]:
  "jrow_of (w\<lparr>pw_maint := m\<rparr>) key = jrow_of w key" "jrow_of (w\<lparr>pw_locked := b\<rparr>) key = jrow_of w key"
  "jrow_of (w\<lparr>pw_budget := c\<rparr>) key = jrow_of w key"
  "obligation_already_fulfilled env (w\<lparr>pw_maint := m\<rparr>) r = obligation_already_fulfilled env w r"
  "obligation_already_fulfilled env (w\<lparr>pw_locked := b\<rparr>) r = obligation_already_fulfilled env w r"
  by (simp_all add: jrow_of_def obligation_already_fulfilled_def)


section \<open>New work on a claimed release\<close>

lemma forward_never_raises:
  assumes "stage_of_string stage = Some st" and "st \<notin> set RESNATCH_STAGES"
  shows "\<exists>won t. record_transition e None s key stage p fs when = Inr (won, t)"
proof -
  have reset: "\<exists>won t. try_reset_terminal_attempt e s key st when fs pj = Inr (won, t)" for pj
    using assms(2) by (auto simp: try_reset_terminal_attempt_def split: option.splits)
  have adv: "\<exists>won t. advance_or_reset e s key r st when fs pj = Inr (won, t)" for r pj
    using reset by (auto simp: advance_or_reset_def split: prod.splits bool.splits)
  have ex: "\<exists>won t. transition_existing e s key r st fs pl when = Inr (won, t)" for r pl
    using adv [of r] by (auto simp: transition_existing_def Let_def split: option.splits)
  have "\<exists>won t. apply_transition e None s key st fs (sanitize_payload (je_loads e) p) when = Inr (won, t)"
    using ex by (cases "js_row s key") (auto simp: apply_transition_def insert_or_race_def)
  then show ?thesis using assms(1) by (auto simp: record_transition_def)
qed

text \<open>A claim of post-processing on a row that has got there never wins.\<close>

lemma claim_lost:
  assumes "journal_wf s" and "js_row s key = Some r" and "Post_processing \<le> jr_stage r"
  shows "\<exists>t. record_transition e None s key ''post_processing'' p fs when = Inr (False, t)"
proof -
  have nr: "Post_processing \<notin> set RESNATCH_STAGES" by (simp add: RESNATCH_STAGES_def)
  obtain won t where t: "record_transition e None s key ''post_processing'' p fs when = Inr (won, t)"
    using forward_never_raises [OF manual_review_stage(2) nr] by blast
  have "row_effect e Post_processing (Some r) won (js_row t key)"
    using record_transition_effect [OF t manual_review_stage(2)] assms(2) by simp
  moreover have "\<not> jr_rank r < STAGE_RANK Post_processing"
    using journal_wfD [OF assms(1,2)] assms(3) by (simp add: STAGE_RANK_less not_less del: STAGE_RANK.simps)
  ultimately have "\<not> won" using nr by (auto elim: effect_from_some)
  with t show ?thesis by simp
qed


section \<open>A release whose processing never finishes\<close>

text \<open>Merging a payload into itself, but for one key that is no identity, changes that key only.\<close>

lemma merge_nested_id:
  "(\<And>k v. (k, v) \<in> set r \<Longrightarrow> dict_get m k = Some v) \<Longrightarrow> merge_nested m r = (m, None)"
proof (induction r)
  case (Cons kv r)
  obtain k v where kv: "kv = (k, v)" by (cases kv)
  have g: "dict_get m k = Some v" using Cons.prems kv by simp
  then have "\<not> immutable_clash k (pv_get m k) v" by (simp add: immutable_clash_def pv_get_def)
  with Cons kv show ?case by (simp add: dict_set_id [OF g])
qed simp

lemma merge_items_one:
  assumes "k \<notin> set IMMUTABLE_PAYLOAD_KEYS" and "k \<noteq> ''download_info''" and "v \<noteq> VNone"
    and "\<And>j x. (j, x) \<in> set r \<Longrightarrow> dict_get m j = Some x \<or> (j = k \<and> x = v)"
    and "\<And>n. dict_get m ''download_info'' = Some (VDict n) \<Longrightarrow> dict_ok n" and "dict_ok r"
  shows "merge_items m r = (if (k, v) \<in> set r then dict_set k v m else m, None)"
  using assms(4-6)
proof (induction r arbitrary: m)
  case Nil
  then show ?case by simp
next
  case (Cons jx r)
  obtain j x where jx: "jx = (j, x)" by (cases jx)
  show ?case
  proof (cases "j = k \<and> x = v")
    case True
    have "merge_items m (jx # r) = merge_items (dict_set k v m) r"
      using True jx assms(1-3) by (auto simp: immutable_clash_def split: pval.splits)
    also have "\<dots> = (if (k, v) \<in> set r then dict_set k v (dict_set k v m) else dict_set k v m, None)"
      using Cons.prems assms(2) True jx
      by (intro Cons.IH) (auto simp: dict_get_set dict_ok_def image_iff split: if_splits)
    also have "dict_set k v (dict_set k v m) = dict_set k v m" by (rule dict_set_id) simp
    finally show ?thesis using True jx by simp
  next
    case False
    then have g: "dict_get m j = Some x" using Cons.prems(1) jx by auto
    have nc: "\<not> immutable_clash j (pv_get m j) x" using g by (simp add: immutable_clash_def pv_get_def)
    have "merge_items m (jx # r) = merge_items m r"
    proof (cases "j = ''download_info'' \<and> (\<exists>n. x = VDict n)")
      case di: True
      then obtain n where n: "j = ''download_info''" "x = VDict n" by blast
      have "dict_ok n" using Cons.prems(2) g n by simp
      then have "merge_nested n n = (n, None)"
        by (intro merge_nested_id) (simp add: dict_get_def dict_ok_def)
      moreover have "as_dict (pv_get m j) = n" using g n by (simp add: pv_get_def)
      ultimately show ?thesis using nc jx n dict_set_id [OF g] by simp
    next
      case False
      then show ?thesis using nc jx dict_set_id [OF g] by (auto split: bool.splits pval.splits)
    qed
    also have "\<dots> = (if (k, v) \<in> set r then dict_set k v m else m, None)"
      using Cons.prems by (intro Cons.IH) (auto simp: dict_ok_def)
    finally show ?thesis using False jx by (auto split: if_splits)
  qed
qed

lemma dict_set_in: "(j, x) \<in> set (dict_set k v d) \<Longrightarrow> (j, x) = (k, v) \<or> (j, x) \<in> set d"
  unfolding dict_set_def by (induction d) (auto split: if_splits)

lemma dict_set_member: "(k, v) \<in> set (dict_set k v d)"
  unfolding dict_set_def by (induction d) auto

lemma dict_get_member: "dict_ok d \<Longrightarrow> (j, x) \<in> set d \<Longrightarrow> dict_get d j = Some x"
  by (simp add: dict_ok_def dict_get_def)

lemma items_ok_set: "list_all item_ok d \<Longrightarrow> item_ok (k, v) \<Longrightarrow> list_all item_ok (dict_set k v d)"
  by (auto simp: list_all_iff dest!: dict_set_in)

text \<open>A stored payload as the journal keeps it.\<close>

definition stored :: "payload \<Rightarrow> bool" where
  "stored d \<longleftrightarrow> payload_ok d \<and> dict_ok d \<and> (\<forall>n. dict_get d ''download_info'' = Some (VDict n) \<longrightarrow> dict_ok n)"

lemma same_stage_write:
  assumes "journal_wf s" and "js_row s key = Some r" and "jr_stage r = Post_processing"
    and "load_payload (jr_payload r) = VDict d" and "stored d"
    and k: "k \<in> set PAYLOAD_KEYS" "k \<notin> set IMMUTABLE_PAYLOAD_KEYS" "k \<noteq> ''download_info''" and v: "scalar_ok v" "v \<noteq> VNone"
    and y: "sanitize_payload (je_loads e) p = Some y" "dict_ok y"
      "\<And>j x. (j, x) \<in> set y \<Longrightarrow> dict_get d j = Some x \<or> (j = k \<and> x = v)"
  shows "\<exists>t q. record_transition e None s key ''post_processing'' p [] when = Inr (False, t)
    \<and> js_row t key = Some q \<and> jr_stage q = Post_processing
    \<and> load_payload (jr_payload q) = VDict (if (k, v) \<in> set y then dict_set k v d else d)"
proof -
  have ok: "list_all item_ok d" "dict_ok d" using assms(5) by (simp_all add: stored_def payload_ok_def)
  have nr: "Post_processing \<notin> set RESNATCH_STAGES" by (simp add: RESNATCH_STAGES_def)
  have ex: "existing_payload e (Some r) = Some d"
    using assms(4,5) sanitize_id by (simp add: existing_payload_def stored_def)
  let ?m = "if (k, v) \<in> set y then dict_set k v d else d"
  have "merge_items d y = (?m, None)"
  proof (rule merge_items_one [OF k(2,3) v(2)])
    show "dict_get d j = Some x \<or> j = k \<and> x = v" if "(j, x) \<in> set y" for j x using y(3) that .
  qed (use assms(5) y(2) in \<open>auto simp: stored_def\<close>)
  then have mg: "merge_payload (transition_payload e r Post_processing) (Some y) = (?m, None)"
    using ex nr by (simp add: merge_payload_def transition_payload_def kept_payload_def new_attempt_def)
  have nc: "transition_conflict e r Post_processing [] (Some y) = None"
    using mg by (simp add: transition_conflict_def field_conflict_def col_clash_def field_get_def find_None_iff)
  have kp: "dump_payload (transition_payload e r Post_processing) = PJson (VDict d)"
    using ex nr ok json_back_ok [of d] by (simp add: transition_payload_def kept_payload_def new_attempt_def dump_payload_def)
  have iv: "item_ok (k, v)" using k v by (simp add: item_ok_def)
  have pj: "dump_payload (Some ?m) = PJson (VDict ?m)"
    using ok(1) items_ok_set [OF ok(1) iv] by (simp add: dump_payload_def json_back_ok)
  have nt: "\<not> is_terminal (jr_stage r)" using assms(3) by (simp add: is_terminal_def TERMINAL_STAGES_def)
  have rk: "jr_rank r = STAGE_RANK Post_processing" using journal_wfD [OF assms(1,2)] assms(3) by simp
  have "transition_existing e s key r Post_processing [] (Some y) when
      = Inr (enrich_same_stage s key r when (PJson (VDict d)) (PJson (VDict ?m)))"
    using nc mg kp pj rk by (simp add: transition_existing_def Let_def)
  moreover have "\<exists>t q. enrich_same_stage s key r when (PJson (VDict d)) (PJson (VDict ?m)) = (False, t)
      \<and> js_row t key = Some q \<and> jr_stage q = Post_processing \<and> load_payload (jr_payload q) = VDict ?m"
    using nt assms(2-4) by (auto simp: enrich_same_stage_def)
  ultimately show ?thesis
    using assms(2) y(1) by (auto simp: record_transition_def apply_transition_def)
qed

lemma recovery_count_set [simp]: "recovery_count (VDict (dict_set ''recovery_count'' (VInt i) d)) = i"
  by (simp add: recovery_count_def pv_or_def pv_get_set)

lemma recovery_count_other [simp]:
  "recovery_count (VDict (dict_set ''fail_detail'' v d)) = recovery_count (VDict d)"
  by (simp add: recovery_count_def pv_or_def pv_get_set)

lemma transition_own_same:
  assumes "journal_wf (pw_journal w)" and "jrow_of w key = Some r" and "jr_stage r = Post_processing"
    and "load_payload (jr_payload r) = VDict d" and "stored d"
    and "k \<in> set PAYLOAD_KEYS" "k \<notin> set IMMUTABLE_PAYLOAD_KEYS" "k \<noteq> ''download_info''" and "scalar_ok v" "v \<noteq> VNone"
    and "sanitize_payload (pe_loads env) p = Some y" "dict_ok y"
    and "\<And>j x. (j, x) \<in> set y \<Longrightarrow> dict_get d j = Some x \<or> (j = k \<and> x = v)"
    and "transition_own env w key ''post_processing'' p [] = Inr (b, w')"
  shows "\<exists>q. jrow_of w' key = Some q \<and> jr_stage q = Post_processing
    \<and> load_payload (jr_payload q) = VDict (if (k, v) \<in> set y then dict_set k v d else d)"
proof -
  have l: "je_loads (jenv_of env w) = pe_loads env" by (simp add: jenv_of_def Let_def)
  obtain t q where t: "record_transition (jenv_of env w) None (pw_journal w) key ''post_processing'' p [] (pe_now env) = Inr (False, t)"
    "js_row t key = Some q" "jr_stage q = Post_processing"
    "load_payload (jr_payload q) = VDict (if (k, v) \<in> set y then dict_set k v d else d)"
    using same_stage_write [OF assms(1) assms(2) [unfolded jrow_of_def] assms(3-10) _ assms(12) assms(13), of "jenv_of env w" p "pe_now env"]
      assms(11) l by auto
  then have "w' = w\<lparr>pw_journal := t\<rparr>"
    using assms(14) own_attempts_cases [of 5 "pe_attempts env" "Inr (False, t) :: jerror + bool \<times> jstate"]
    by (auto simp: transition_own_def record_transition_own_def)
  with t show ?thesis by (simp add: jrow_of_def)
qed

lemma set_member_cases:
  "dict_ok d \<Longrightarrow> (j, x) \<in> set (dict_set k v d) \<Longrightarrow> dict_get d j = Some x \<or> (j = k \<and> x = v)"
  using dict_get_member [of "dict_set k v d" j x] by (auto simp: dict_get_set split: if_splits)

lemma sanitize_prefix:
  assumes "list_all item_ok d" and "dict_ok d"
  shows "\<exists>y. sanitize_payload loads (VDict d) = Some y \<and> set y \<subseteq> set d \<and> dict_ok y"
proof -
  obtain ys zs where d: "d = ys @ zs" and y: "bound_items [] d = ys"
    using bound_items_prefix [of d "[]"] by auto
  then have "sanitize_payload loads (VDict d) = Some ys"
    using clean_items_id [OF assms(1)] by (cases d) (simp_all add: sanitize_payload_def)
  moreover have "dict_ok ys" using assms(2) d by (simp add: dict_ok_def)
  ultimately show ?thesis using d by auto
qed

lemma claim_counts:
  assumes "journal_wf (pw_journal w)" and "jrow_of w key = Some r" and "jr_stage r = Post_processing"
    and "load_payload (jr_payload r) = VDict d" and "stored d"
    and "payload_ok (dict_set ''recovery_count'' (VInt (recovery_count (VDict d) + 1)) d)"
    and "claim_pp_recovery env key item (VDict d) w = Inr (True, w')"
  shows "recovery_count (VDict d) < int MAX_RECOVERY_ATTEMPTS
    \<and> (\<exists>q. jrow_of w' key = Some q \<and> jr_stage q = Post_processing
        \<and> load_payload (jr_payload q) = VDict (dict_set ''recovery_count'' (VInt (recovery_count (VDict d) + 1)) d))"
proof -
  let ?v = "VInt (recovery_count (VDict d) + 1)"
  let ?d = "dict_set ''recovery_count'' ?v d"
  have lt: "recovery_count (VDict d) < int MAX_RECOVERY_ATTEMPTS"
    using assms(7) by (auto simp: claim_pp_recovery_def split: if_splits)
  then obtain b where t: "transition_own env w key ''post_processing'' (VDict ?d) [] = Inr (b, w')"
    using assms(7) by (auto simp: claim_pp_recovery_def split: if_splits sum.splits)
  have k: "''recovery_count'' \<in> set PAYLOAD_KEYS" "''recovery_count'' \<notin> set IMMUTABLE_PAYLOAD_KEYS"
    by (simp_all add: PAYLOAD_KEYS_def IMMUTABLE_PAYLOAD_KEYS_def)
  have "\<exists>q. jrow_of w' key = Some q \<and> jr_stage q = Post_processing
      \<and> load_payload (jr_payload q) = VDict (if (''recovery_count'', ?v) \<in> set ?d then ?d else d)"
    by (rule transition_own_same [OF assms(1-5) k _ _ _ sanitize_id [OF assms(6)] _ _ t])
      (use assms(5) in \<open>auto simp: stored_def dest: set_member_cases\<close>)
  with lt show ?thesis by (simp add: dict_set_member)
qed

lemma transition_own_cases:
  assumes "transition_own env w key stage p fs = Inr (b, w')"
  obtains t where "record_transition (jenv_of env w) None (pw_journal w) key stage p fs (pe_now env) = Inr (b, t)"
    "w' = w\<lparr>pw_journal := t\<rparr>"
proof -
  let ?x = "record_transition (jenv_of env w) None (pw_journal w) key stage p fs (pe_now env)"
  have "own_attempts 5 (pe_attempts env) ?x \<in> {Inl JOperationalError, ?x}" by (rule own_attempts_cases)
  then have "record_transition_own (jenv_of env w) (pe_attempts env) None (pw_journal w) key stage p fs (pe_now env) = ?x"
    using assms by (auto simp: transition_own_def record_transition_own_def split: option.splits)
  then show ?thesis using that assms by (auto simp: transition_own_def split: sum.splits)
qed

lemma transition_own_wf:
  "journal_wf (pw_journal w) \<Longrightarrow> transition_own env w key stage p fs = Inr (b, w') \<Longrightarrow> journal_wf (pw_journal w')"
  by (erule transition_own_cases) (auto dest: record_transition_wf)

lemma claim_wf:
  "journal_wf (pw_journal w) \<Longrightarrow> claim_pp_recovery env key item p w = Inr (True, w') \<Longrightarrow> journal_wf (pw_journal w')"
  by (auto simp: claim_pp_recovery_def split: if_splits sum.splits dest: transition_own_wf)

lemma note_keeps_count:
  assumes "journal_wf (pw_journal w)" and "jrow_of w key = Some r" and "jr_stage r = Post_processing"
    and "load_payload (jr_payload r) = VDict d" and "stored d"
  shows "\<exists>q d'. jrow_of (note_unfinished_claim env (Some key) v w) key = Some q \<and> jr_stage q = Post_processing
    \<and> load_payload (jr_payload q) = VDict d' \<and> recovery_count (VDict d') = recovery_count (VDict d)"
proof (cases "key = [] \<or> (\<exists>e. transition_own env w key ''post_processing'' (VDict (unfinished_payload v d)) [] = Inl e)")
  case True
  then have "note_unfinished_claim env (Some key) v w = w" using assms by (auto simp: note_unfinished_claim_def)
  then show ?thesis using assms by auto
next
  case False
  then obtain b w' where t: "transition_own env w key ''post_processing'' (VDict (unfinished_payload v d)) [] = Inr (b, w')"
    by (metis sum.exhaust surj_pair)
  then have n: "note_unfinished_claim env (Some key) v w = w'" using False assms by (simp add: note_unfinished_claim_def)
  have k: "''fail_detail'' \<in> set PAYLOAD_KEYS" "''fail_detail'' \<notin> set IMMUTABLE_PAYLOAD_KEYS"
    by (simp_all add: PAYLOAD_KEYS_def IMMUTABLE_PAYLOAD_KEYS_def)
  define t where "t = (if legacy_stop_result v then ''postprocess_stopped'' else ''postprocess_unfinished'')"
  have so: "scalar_ok (VStr t)" by (simp add: t_def MAX_PAYLOAD_STRING_def)
  have io: "item_ok (''fail_detail'', VStr t)" using so k by (simp add: item_ok_def)
  have up: "unfinished_payload v d = d \<or> unfinished_payload v d = dict_set ''fail_detail'' (VStr t) d"
    by (auto simp: unfinished_payload_def t_def)
  have ok: "list_all item_ok (unfinished_payload v d)" "dict_ok (unfinished_payload v d)"
    using up assms(5) items_ok_set [OF _ io] by (auto simp: stored_def payload_ok_def)
  obtain y where y: "sanitize_payload (pe_loads env) (VDict (unfinished_payload v d)) = Some y"
    "set y \<subseteq> set (unfinished_payload v d)" "dict_ok y"
    using sanitize_prefix [OF ok] by blast
  have mem: "dict_get d j = Some x \<or> (j = ''fail_detail'' \<and> x = VStr t)" if "(j, x) \<in> set y" for j x
    using that y(2) up assms(5) set_member_cases [of d j x "''fail_detail''" "VStr t"] dict_get_member [of d j x]
    by (auto simp: stored_def)
  have "\<exists>q. jrow_of w' key = Some q \<and> jr_stage q = Post_processing
      \<and> load_payload (jr_payload q) = VDict (if (''fail_detail'', VStr t) \<in> set y then dict_set ''fail_detail'' (VStr t) d else d)"
    by (rule transition_own_same [OF assms k _ so _ y(1,3) mem t]) simp_all
  with n show ?thesis by auto
qed

lemma recover_inner:
  assumes "recover exec env key w = (res, w')" and "res \<noteq> Inr (result ''busy'' (Some ''post_processing-busy''))"
    and "\<And>name. res \<noteq> Inl name"
  obtains m w2 where "recover_leased exec env key (w\<lparr>pw_locked := True, pw_maint := m\<rparr>) = (res, w2)"
    "w' = drop_lease env w2"
proof -
  have lk: "\<not> pw_locked w" using assms(1,2) by (auto simp: recover_def)
  show ?thesis
  proof (cases "take_lease env ''startup-recovery'' ''postprocess-redrive'' (Some key) (w\<lparr>pw_locked := True\<rparr>)")
    case (Inl e)
    then show ?thesis using assms lk by (auto simp: recover_def split: if_splits)
  next
    case (Inr lw)
    obtain l m where lw: "lw = (l, w\<lparr>pw_locked := True, pw_maint := m\<rparr>)"
      using Inr take_lease_Inr by (metis surj_pair)
    show ?thesis
    proof (cases "assert_lease_current m l (pe_now env)")
      case True
      obtain r w2 where "recover_leased exec env key (w\<lparr>pw_locked := True, pw_maint := m\<rparr>) = (r, w2)" by force
      with True Inr lw lk assms(1) that [of m w2] show ?thesis by (simp add: recover_def)
    next
      case False
      then show ?thesis using Inr lw lk assms(1,2) by (simp add: recover_def)
    qed
  qed
qed

lemma result_action [simp]: "pr_action (result st a) = a"
  by (simp add: result_def)

lemma redrive_cases:
  assumes "recover exec env key w = (Inr res, w')" and "pr_action res = Some ''post_processing-redrive''"
  obtains m r item w1 w2 where "jrow_of w key = Some r" "jr_stage r = Post_processing"
    "\<not> obligation_already_fulfilled env w r"
    "claim_pp_recovery env key item (load_payload (jr_payload r)) (w\<lparr>pw_locked := True, pw_maint := m\<rparr>) = Inr (True, w1)"
    "recover_redrive exec env key item w1 = (res, w2)" "w' = drop_lease env w2"
proof -
  have "Inr res \<noteq> Inr (result ''busy'' (Some ''post_processing-busy''))" using assms(2) by auto
  then obtain m w2 where rl: "recover_leased exec env key (w\<lparr>pw_locked := True, pw_maint := m\<rparr>) = (Inr res, w2)"
    and w': "w' = drop_lease env w2"
    by (rule recover_inner [OF assms(1)]) simp
  let ?w = "w\<lparr>pw_locked := True, pw_maint := m\<rparr>"
  obtain r where r: "jrow_of w key = Some r"
  proof (cases "jrow_of w key")
    case None
    with rl have "res = result ''ignored'' (Some ''ignored'')" by (simp add: recover_leased_def)
    with assms(2) show ?thesis by simp
  qed (use that in blast)
  let ?p = "load_payload (jr_payload r)"
  have a: "jr_stage r \<in> {Moved, Post_processing}"
  proof (rule ccontr)
    assume "jr_stage r \<notin> {Moved, Post_processing}"
    with rl r have "res = result ''ignored'' (Some ''ignored'')" by (simp add: recover_leased_def)
    with assms(2) show False by simp
  qed
  have b: "\<not> (jr_stage r = Moved \<or> obligation_already_fulfilled env w r)"
  proof
    assume h: "jr_stage r = Moved \<or> obligation_already_fulfilled env w r"
    show False
    proof (cases "finish_obligation env key r ?p ?w")
      case (Inl e)
      with rl r a h show False by (auto simp: recover_leased_def)
    next
      case (Inr u)
      with rl r a h assms(2) show False by (auto simp: recover_leased_def)
    qed
  qed
  have c: "\<not> (case pw_budget w of None \<Rightarrow> False | Some n \<Rightarrow> MAX_INLINE_PP_REDRIVE_PER_PASS \<le> n)"
  proof
    assume "case pw_budget w of None \<Rightarrow> False | Some n \<Rightarrow> MAX_INLINE_PP_REDRIVE_PER_PASS \<le> n"
    with rl r a b have "res = result ''busy'' (Some ''skip-pp-cap-deferred'')" by (simp add: recover_leased_def)
    with assms(2) show False by simp
  qed
  have st: "jr_stage r = Post_processing" "\<not> obligation_already_fulfilled env w r" using a b by auto
  have ri: "recover_item exec env key (pp_command key r ?p) ?p ?w = (res, w2)"
    using rl r a b c by (simp add: recover_leased_def Let_def split: prod.splits)
  obtain item w1 where "claim_pp_recovery env key item (load_payload (jr_payload r)) ?w = Inr (True, w1)"
    "recover_redrive exec env key item w1 = (res, w2)"
    using ri assms(2)
    by (auto simp: recover_item_def recover_failed_def split: sum.splits prod.splits bool.splits)
  with that r st w' show ?thesis by blast
qed

text \<open>Every re-drive after a restart is counted before the processor runs: with a stored payload
  that has room for the counter, a pass that re-drives found fewer than \<open>MAX_RECOVERY_ATTEMPTS\<close> on record, and when
  the processor stops without touching the journal the row is left in post-processing with one more.\<close>

theorem redrive_is_counted:
  assumes "journal_wf (pw_journal w)" and "jrow_of w key = Some r" and "load_payload (jr_payload r) = VDict d"
    and "stored d" and "stored (dict_set ''recovery_count'' (VInt (recovery_count (VDict d) + 1)) d)"
    and "\<And>i u. pw_journal (snd (exec i u)) = pw_journal u"
    and "recover exec env key w = (Inr res, w')" and "pr_action res = Some ''post_processing-redrive''"
  shows "recovery_count (VDict d) < int MAX_RECOVERY_ATTEMPTS
    \<and> (\<exists>q. jrow_of w' key = Some q \<and> jr_stage q = Post_processing
        \<and> recovery_count (load_payload (jr_payload q)) = recovery_count (VDict d) + 1)"
proof -
  obtain m item w1 w2 where st: "jr_stage r = Post_processing"
    and cl: "claim_pp_recovery env key item (VDict d) (w\<lparr>pw_locked := True, pw_maint := m\<rparr>) = Inr (True, w1)"
    and rd: "recover_redrive exec env key item w1 = (res, w2)" and w': "w' = drop_lease env w2"
    using redrive_cases [OF assms(7,8)] assms(2,3) by (metis option.inject)
  let ?d = "dict_set ''recovery_count'' (VInt (recovery_count (VDict d) + 1)) d"
  have pk: "payload_ok ?d" using assms(5) by (simp add: stored_def)
  obtain q where lt: "recovery_count (VDict d) < int MAX_RECOVERY_ATTEMPTS"
    and q: "jrow_of w1 key = Some q" "jr_stage q = Post_processing" "load_payload (jr_payload q) = VDict ?d"
    using claim_counts [OF _ _ st assms(3,4) pk cl] assms(1,2) by auto
  have wf1: "journal_wf (pw_journal w1)" using claim_wf [OF _ cl] assms(1) by simp
  have sd: "stored ?d" by (rule assms(5))
  obtain x u where e: "execute exec item (w1\<lparr>pw_budget := map_option Suc (pw_budget w1)\<rparr>) = (x, u)" by force
  have ju: "pw_journal u = pw_journal w1"
    using e assms(6) [of item "w1\<lparr>pw_budget := map_option Suc (pw_budget w1)\<rparr>"] by (auto simp: execute_def split: if_splits)
  have qu: "jrow_of u key = Some q" "journal_wf (pw_journal u)" using q(1) wf1 ju by (simp_all add: jrow_of_def)
  have w2: "w2 = note_unfinished_claim env (Some key) v u" if "x = Inr v" for v
    using rd e that by (auto simp: recover_redrive_def)
  obtain v where "x = Inr v"
    using rd e assms(8) by (cases x) (auto simp: recover_redrive_def recover_failed_def split: if_splits)
  with lt w' w2 note_keeps_count [OF qu(2,1) q(2,3) sd, of env v] show ?thesis by auto
qed

text \<open>Nothing stands in the way of a lease.\<close>

definition gate_open :: "penv \<Rightarrow> pworld \<Rightarrow> bool" where
  "gate_open env w \<longleftrightarrow> \<not> pw_locked w \<and> \<not> pe_operator env \<and> reconciliation_state (pw_maint w) = ''ready''
     \<and> \<not> fc_active (ms_fence (pw_maint w)) \<and> get_lease (pw_maint w) (pe_lease env) = None"

lemma get_put_lease [simp]: "get_lease (put_lease i l s) i = Some l"
  by (simp add: get_lease_def put_lease_def)

lemma put_lease_fence [simp]: "ms_fence (put_lease i l s) = ms_fence s"
  by (simp add: put_lease_def)

lemma gate_open_lease:
  assumes "gate_open env w" and "owner \<noteq> []" and "kind \<noteq> []"
  shows "\<exists>l m. take_lease env owner kind eid (w\<lparr>pw_locked := True\<rparr>) = Inr (l, w\<lparr>pw_locked := True, pw_maint := m\<rparr>)
    \<and> assert_lease_current m l (pe_now env)"
proof -
  let ?s = "pw_maint w" and ?i = "pe_lease env" and ?now = "pe_now env"
  let ?row = "\<lparr>lz_epoch = fc_epoch (ms_fence ?s), lz_owner = owner, lz_kind = kind, lz_etype = Some ''release'',
      lz_eid = eid, lz_heartbeat = ?now, lz_released = None\<rparr>"
  let ?l = "\<lparr>ls_id = ?i, ls_epoch = fc_epoch (ms_fence ?s), ls_owner = owner, ls_kind = kind,
      ls_etype = Some ''release'', ls_eid = eid, ls_permit = None\<rparr>"
  have "acquire_lease (pe_operator env) ?s owner kind (Some ''release'') eid ?i ?now = Inr (?l, put_lease ?i ?row ?s)"
    using assms by (simp add: gate_open_def acquire_lease_def lease_active_def)
  moreover have "assert_lease_current (put_lease ?i ?row ?s) ?l ?now"
    using assms(1) by (simp add: gate_open_def assert_lease_current_def lease_active_def)
  ultimately show ?thesis by (auto simp: take_lease_def)
qed

text \<open>C27: A release that was re-driven \<open>MAX_RECOVERY_ATTEMPTS\<close> times is not tried again: with the gate
  open and the database answering, the next pass hands it to an operator, its row ending in manual review, whatever
  the processor would do and whether or not its command is still valid.\<close>

theorem exhausted_goes_to_operator:
  assumes "gate_open env w" and "healthy env" and "key \<noteq> []" and "journal_wf (pw_journal w)"
    and "jrow_of w key = Some r" and "jr_stage r = Post_processing" and "\<not> obligation_already_fulfilled env w r"
    and "int MAX_RECOVERY_ATTEMPTS \<le> recovery_count (load_payload (jr_payload r))"
    and "pw_budget w = None \<or> the (pw_budget w) < MAX_INLINE_PP_REDRIVE_PER_PASS"
  shows "\<exists>res w' q. recover exec env key w = (Inr res, w') \<and> pr_action res = Some ''post_processing-manual-review''
    \<and> jrow_of w' key = Some q \<and> jr_stage q = Manual_review"
proof -
  obtain l m where lease: "take_lease env ''startup-recovery'' ''postprocess-redrive'' (Some key) (w\<lparr>pw_locked := True\<rparr>)
      = Inr (l, w\<lparr>pw_locked := True, pw_maint := m\<rparr>)" and cur: "assert_lease_current m l (pe_now env)"
    using gate_open_lease [OF assms(1), of "''startup-recovery''" "''postprocess-redrive''" "Some key"] by auto
  let ?w = "w\<lparr>pw_locked := True, pw_maint := m\<rparr>" and ?p = "load_payload (jr_payload r)"
  have nt: "\<not> is_terminal (jr_stage r)" using assms(6) by (simp add: is_terminal_def TERMINAL_STAGES_def)
  have park: "\<exists>q. jrow_of (quarantine_item env (VDict it) reason (Some key) ?w) key = Some q \<and> jr_stage q = Manual_review"
    if "reconciliation_for (Some reason) = None" for it reason
    using quarantine_item_parks [OF assms(2) _ _ nt assms(3) that] assms(4,5) by simp
  have reasons: "reconciliation_for (Some ''invalid_recovered_postprocess_command:PostProcessCommandError'') = None"
    "reconciliation_for (Some ''recovery_attempts_exhausted:post_processing'') = None" by code_simp+
  obtain res u q where item: "recover_item exec env key (pp_command key r ?p) ?p ?w = (res, u)"
    "pr_action res = Some ''post_processing-manual-review''" "jrow_of u key = Some q" "jr_stage q = Manual_review"
  proof (cases "validate_postprocess_item (pe_fs env) (pe_conf env) [] True (VDict (pp_command key r ?p))")
    case (Inl e)
    obtain q where q: "jrow_of (quarantine_item env (VDict (pp_command key r ?p))
        ''invalid_recovered_postprocess_command:PostProcessCommandError'' (Some key) ?w) key = Some q" "jr_stage q = Manual_review"
      using park [OF reasons(1)] by blast
    show ?thesis by (rule that [of "result ''failed'' (Some ''post_processing-manual-review'')", OF _ _ q]) (simp_all add: Inl recover_item_def recover_failed_def)
  next
    case (Inr it)
    obtain q where q: "jrow_of (quarantine_item env (VDict it)
        ''recovery_attempts_exhausted:post_processing'' (Some key) ?w) key = Some q" "jr_stage q = Manual_review"
      using park [OF reasons(2)] by blast
    show ?thesis by (rule that [of "result ''failed'' (Some ''post_processing-manual-review'')", OF _ _ q]) (use assms(8) in \<open>simp_all add: Inr recover_item_def claim_pp_recovery_def\<close>)
  qed
  have budget: "\<not> (case pw_budget w of None \<Rightarrow> False | Some n \<Rightarrow> MAX_INLINE_PP_REDRIVE_PER_PASS \<le> n)"
    using assms(9) by (auto split: option.splits)
  have "recover_leased exec env key ?w = (Inr res, u)"
    using item(1) budget assms(5-7) by (simp add: recover_leased_def Let_def)
  moreover have "\<not> pw_locked w" using assms(1) by (simp add: gate_open_def)
  ultimately have "recover exec env key w = (Inr res, drop_lease env u)"
    using lease cur by (simp add: recover_def)
  with item show ?thesis by simp
qed

section \<open>Closing a moved release\<close>

lemma merge_items_self:
  assumes "stored d"
  shows "merge_items d d = (d, None)"
proof -
  have "merge_items d d = (if (''fail_detail'', VStr []) \<in> set d then dict_set ''fail_detail'' (VStr []) d else d, None)"
    using assms by (intro merge_items_one) (auto simp: stored_def IMMUTABLE_PAYLOAD_KEYS_def dict_get_member)
  moreover have "dict_set ''fail_detail'' (VStr []) d = d" if "(''fail_detail'', VStr []) \<in> set d"
    using that assms by (intro dict_set_id) (simp add: stored_def dict_get_member)
  ultimately show ?thesis by simp
qed

lemma close_wins:
  assumes "journal_wf s" and "js_row s key = Some r" and "jr_stage r = Moved"
    and "load_payload (jr_payload r) = VDict d" and "stored d"
  shows "\<exists>t q. record_transition e None s key ''post_processed'' (VDict d) [(CIssueid, jr_issueid r), (CProvider, jr_provider r)] when
      = Inr (True, t) \<and> js_row t key = Some q \<and> jr_stage q = Post_processed"
proof -
  let ?fs = "[(CIssueid, jr_issueid r), (CProvider, jr_provider r)]"
  have nr: "Post_processed \<notin> set RESNATCH_STAGES" by (simp add: RESNATCH_STAGES_def)
  have sd: "sanitize_payload loads (VDict d) = Some d" for loads using assms(5) sanitize_id by (simp add: stored_def)
  have tp: "transition_payload e r Post_processed = Some d"
    using sd assms(4) nr by (simp add: transition_payload_def kept_payload_def new_attempt_def existing_payload_def)
  have "\<not> col_clash ?fs r c" if "c \<in> {CIssueid, CProvider, CDownloader_type, CHash}" for c
    using that by (auto simp: col_clash_def field_get_def)
  then have "field_conflict b ?fs r = None" for b by (simp add: field_conflict_def find_None_iff)
  then have nc: "transition_conflict e r Post_processed ?fs (Some d) = None"
    using tp merge_items_self [OF assms(5)] by (simp add: transition_conflict_def merge_payload_def)
  have nt: "\<not> is_terminal (jr_stage r)" using assms(3) by (simp add: is_terminal_def TERMINAL_STAGES_def)
  have rk: "jr_rank r < STAGE_RANK Post_processed" using journal_wfD [OF assms(1,2)] assms(3) by simp
  then have ne: "jr_rank r \<noteq> STAGE_RANK Post_processed" by simp
  obtain t q where "advance_or_reset e s key r Post_processed when ?fs (dump_payload (Some (fst (merge_payload (Some d) (Some d)))))
      = Inr (True, t)" "js_row t key = Some q" "jr_stage q = Post_processed"
    using advance_wins [OF assms(2) nt rk] by blast
  then have "transition_existing e s key r Post_processed ?fs (Some d) when = Inr (True, t)"
    using nc tp ne by (simp add: transition_existing_def Let_def)
  then show ?thesis
    using assms(2) sd \<open>js_row t key = Some q\<close> \<open>jr_stage q = Post_processed\<close>
    by (auto simp: record_transition_def apply_transition_def Let_def js_row_def)
qed

text \<open>A release whose files were moved before the restart is closed without the processor: its row
  becomes post-processed in the same transaction that deletes its nzblog anchor, no matching anchor is left, and the
  library tables are not touched.\<close>

theorem moved_work_is_closed:
  assumes "gate_open env w" and "journal_wf (pw_journal w)" and "jrow_of w key = Some r" and "jr_stage r = Moved"
    and "load_payload (jr_payload r) = VDict d" and "stored d"
  shows "\<exists>w' q. recover exec env key w = (Inr (result ''processed'' (Some ''moved-finish-dbfacts'')), w')
    \<and> jrow_of w' key = Some q \<and> jr_stage q = Post_processed \<and> pw_recon w' = pw_recon w
    \<and> (\<forall>n. n \<in> set (pw_nzblog w') \<longleftrightarrow> n \<in> set (pw_nzblog w) \<and> \<not> anchor_matches env w r (VDict d) n)"
proof -
  obtain l m where lease: "take_lease env ''startup-recovery'' ''postprocess-redrive'' (Some key) (w\<lparr>pw_locked := True\<rparr>)
      = Inr (l, w\<lparr>pw_locked := True, pw_maint := m\<rparr>)" and cur: "assert_lease_current m l (pe_now env)"
    using gate_open_lease [OF assms(1), of "''startup-recovery''" "''postprocess-redrive''" "Some key"] by auto
  let ?w = "w\<lparr>pw_locked := True, pw_maint := m\<rparr>"
  have arc: "is_story_arc_obligation env ?w = is_story_arc_obligation env w"
    by (simp add: fun_eq_iff is_story_arc_obligation_def split: option.split)
  have am: "anchor_matches env ?w = anchor_matches env w" unfolding fun_eq_iff anchor_matches_def arc by simp
  obtain t q where t: "record_transition (jenv_of env ?w) None (pw_journal w) key ''post_processed'' (VDict d)
      [(CIssueid, jr_issueid r), (CProvider, jr_provider r)] (pe_now env) = Inr (True, t)" "js_row t key = Some q"
      "jr_stage q = Post_processed"
    using close_wins [OF assms(2) assms(3) [unfolded jrow_of_def] assms(4-6)] by blast
  then have f: "finish_obligation env key r (VDict d) ?w = Inr ((delete_anchor env r (VDict d) ?w)\<lparr>pw_journal := t\<rparr>)"
    by (simp add: finish_obligation_def)
  let ?u = "(delete_anchor env r (VDict d) ?w)\<lparr>pw_journal := t\<rparr>"
  have rl: "recover_leased exec env key ?w = (Inr (result ''processed'' (Some ''moved-finish-dbfacts'')), ?u)"
    using f assms(3-5) by (simp add: recover_leased_def)
  have "\<not> pw_locked w" using assms(1) by (simp add: gate_open_def)
  then have "recover exec env key w = (Inr (result ''processed'' (Some ''moved-finish-dbfacts'')), drop_lease env ?u)"
    using lease cur rl by (simp add: recover_def)
  moreover have "jrow_of ?u key = Some q" using t(2) by (simp add: jrow_of_def)
  ultimately show ?thesis using t(3) by (auto simp: delete_anchor_def am)
qed

section \<open>Instances\<close>

definition demo_penv :: penv where
  "demo_penv = \<lparr>pe_loads = (\<lambda>_. None), pe_sha = (\<lambda>_. ''0''), pe_comics = [\<lparr>cr_comicid = ''7'', cr_location = Some ''/lib'', cr_retained = []\<rparr>],
     pe_verified = (\<lambda>_ _ _. True), pe_now = ''2026-02-01 00:00:00'', pe_blocklist_up = True, pe_rewant_up = True,
     pe_attempts = [], pe_library_up = True, pe_nzblog_up = True, pe_ddl_up = True, pe_snatched_up = True, pe_ddl_item = (\<lambda>_. None), pe_fs = demo_fs, pe_conf = demo_conf,
     pe_lease = ''L'', pe_operator = False\<rparr>"

definition demo_payload :: "int \<Rightarrow> payload" where
  "demo_payload n = [(''nzb_name'', VStr ''a.cbz''), (''nzb_folder'', VStr ''/dl/x''), (''recovery_count'', VInt n)]"

definition demo_world :: "stage \<Rightarrow> string \<Rightarrow> int \<Rightarrow> pworld" where
  "demo_world st status n =
     \<lparr>pw_journal = \<lparr>js_rows = [(''42|nzbgeek'', (demo_row st)\<lparr>jr_payload := PJson (VDict (demo_payload n))\<rparr>)],
        js_obligations = [], js_activity = []\<rparr>,
      pw_recon = \<lparr>rs_lib = \<lparr>ol_issues = [\<lparr>is_id = ''42'', is_comicid = Some ''7'', is_deleted = None, is_status = Some status,
        is_intent = None, is_location = Some ''/lib/42.cbz''\<rparr>], ol_annuals = [], ol_storyarcs = []\<rparr>, rs_failed = []\<rparr>,
      pw_nzblog = [\<lparr>nz_issueid = Some ''42'', nz_provider = Some ''nzbgeek'', nz_name = None, nz_sarc = None\<rparr>], pw_snatched = [], pw_ddl = [],
      pw_maint = \<lparr>ms_fence = \<lparr>fc_epoch = 0, fc_active = False, fc_owner = None, fc_run = None, fc_reason = None,
        fc_heartbeat = None, fc_released = None\<rparr>, ms_leases = [], ms_permits = [], ms_events = [], ms_reconciliation = Some ''ready''\<rparr>,
      pw_locked = False, pw_budget = None, pw_pp_queue = [], pw_torrent_queue = [], pw_nzb_queue = [], pw_sab_removed = [],
      pw_stuck = []\<rparr>"

definition stopping :: processor where
  "stopping item w = (Inr (XOne (VDict [(''mode'', VStr ''stop'')])), w)"

definition crashing :: processor where
  "crashing item w = (Inl ''OSError'', w)"

lemma demo_world_wf: "journal_wf (pw_journal (demo_world st status n))"
  by (simp add: journal_wf_def demo_world_def js_row_def dict_get_def dict_ok_def row_wf_def demo_row_def blank_row_def)

lemma demo_world_row:
  "jrow_of (demo_world st status n) ''42|nzbgeek'' = Some ((demo_row st)\<lparr>jr_payload := PJson (VDict (demo_payload n))\<rparr>)"
  by (simp add: jrow_of_def demo_world_def js_row_def dict_get_def)

lemma demo_row_stage [simp]: "jr_stage (demo_row st) = st"
  by (simp add: demo_row_def blank_row_def)


definition demo_again :: payload where
  "demo_again = [(''nzb_name'', VStr ''a.cbz''), (''nzb_folder'', VStr ''/dl/x''), (''journal_release_key'', VStr ''42|nzbgeek'')]"


lemma demo_stored: "stored (demo_payload n)" if "n \<in> {0, 1}" for n
proof -
  have "length (json_dumps (VDict (demo_payload 0))) \<le> MAX_PAYLOAD_BYTES"
    "length (json_dumps (VDict (demo_payload 1))) \<le> MAX_PAYLOAD_BYTES" by code_simp+
  then have "payload_ok (demo_payload 0)" "payload_ok (demo_payload 1)"
    by (simp_all add: payload_ok_def item_ok_def demo_payload_def PAYLOAD_KEYS_def MAX_PAYLOAD_STRING_def)
  moreover have "dict_get (demo_payload n) ''download_info'' = None" by (simp add: demo_payload_def dict_get_def)
  ultimately show ?thesis using that by (auto simp: stored_def demo_payload_def dict_ok_def)
qed

lemma demo_not_fulfilled:
  "\<not> obligation_already_fulfilled demo_penv (demo_world Post_processing ''Snatched'' n)
     ((demo_row Post_processing)\<lparr>jr_payload := PJson (VDict (demo_payload n))\<rparr>)"
  by (simp add: obligation_already_fulfilled_def demo_world_def first_with_id_def demo_row_def blank_row_def)

lemma redrive_happens:
  assumes "gate_open env w" and "healthy env" and "jrow_of w key = Some r" and "jr_stage r = Post_processing"
    and "\<not> obligation_already_fulfilled env w r" and "pw_budget w = None"
    and "recovery_count (load_payload (jr_payload r)) < int MAX_RECOVERY_ATTEMPTS"
    and "validate_postprocess_item (pe_fs env) (pe_conf env) [] True (VDict (pp_command key r (load_payload (jr_payload r)))) = Inr it"
    and "\<And>u. \<exists>v. execute exec it u = (Inr v, u)"
  shows "\<exists>res w'. recover exec env key w = (Inr res, w') \<and> pr_action res = Some ''post_processing-redrive''"
proof -
  obtain l m where lease: "take_lease env ''startup-recovery'' ''postprocess-redrive'' (Some key) (w\<lparr>pw_locked := True\<rparr>)
      = Inr (l, w\<lparr>pw_locked := True, pw_maint := m\<rparr>)" and cur: "assert_lease_current m l (pe_now env)"
    using gate_open_lease [OF assms(1), of "''startup-recovery''" "''postprocess-redrive''" "Some key"] by auto
  let ?w = "w\<lparr>pw_locked := True, pw_maint := m\<rparr>" and ?p = "load_payload (jr_payload r)"
  have nr: "Post_processing \<notin> set RESNATCH_STAGES" by (simp add: RESNATCH_STAGES_def)
  obtain b u where "transition_own env ?w key ''post_processing''
      (VDict (dict_set ''recovery_count'' (VInt (recovery_count ?p + 1)) (as_dict ?p))) [] = Inr (b, u)"
    using forward_never_raises [OF manual_review_stage(2) nr, of "jenv_of env ?w" "pw_journal w" key
        "VDict (dict_set ''recovery_count'' (VInt (recovery_count ?p + 1)) (as_dict ?p))" "[]" "pe_now env"]
    by (auto simp: transition_own_def record_transition_own_def own_healthy [OF assms(2)])
  then have cl: "claim_pp_recovery env key it ?p ?w = Inr (True, u)" using assms(7) by (simp add: claim_pp_recovery_def)
  obtain v where ex: "execute exec it (u\<lparr>pw_budget := map_option Suc (pw_budget u)\<rparr>) = (Inr v, u\<lparr>pw_budget := map_option Suc (pw_budget u)\<rparr>)"
    using assms(9) by blast
  have "\<exists>res x. recover_item exec env key (pp_command key r ?p) ?p ?w = (res, x) \<and> pr_action res = Some ''post_processing-redrive''"
    using assms(8) cl ex by (simp add: recover_item_def recover_redrive_def)
  then obtain res x where ri: "recover_item exec env key (pp_command key r ?p) ?p ?w = (res, x)"
    "pr_action res = Some ''post_processing-redrive''" by blast
  have "recover_leased exec env key ?w = (Inr res, x)"
    using ri(1) assms(3-6) by (simp add: recover_leased_def Let_def)
  moreover have "\<not> pw_locked w" using assms(1) by (simp add: gate_open_def)
  ultimately have "recover exec env key w = (Inr res, drop_lease env x)"
    using lease cur by (simp add: recover_def)
  with ri(2) show ?thesis by blast
qed

lemma demo_gate: "gate_open demo_penv (demo_world st status n)"
  by (simp add: gate_open_def demo_world_def demo_penv_def reconciliation_state_def get_lease_def)

lemma demo_healthy: "healthy demo_penv"
  by (simp add: healthy_def demo_penv_def)

lemma demo_stopping: "\<exists>v. execute stopping it u = (Inr v, u)"
  by (simp add: execute_def stopping_def)

theorem redrive_is_counted_witness:
  "\<exists>q. jrow_of (snd (recover stopping demo_penv ''42|nzbgeek'' (demo_world Post_processing ''Snatched'' 0))) ''42|nzbgeek'' = Some q
     \<and> recovery_count (load_payload (jr_payload q)) = 1"
proof -
  let ?r = "(demo_row Post_processing)\<lparr>jr_payload := PJson (VDict (demo_payload 0))\<rparr>"
  have rc: "recovery_count (VDict (demo_payload 0)) = 0" by code_simp
  have up: "dict_set ''recovery_count'' (VInt 1) (demo_payload 0) = demo_payload 1"
    by (simp add: demo_payload_def dict_set_def)
  have ld: "load_payload (jr_payload ?r) = VDict (demo_payload 0)" by simp
  have "\<exists>it. validate_postprocess_item (pe_fs demo_penv) (pe_conf demo_penv) [] True
      (VDict (pp_command ''42|nzbgeek'' ?r (load_payload (jr_payload ?r)))) = Inr it"
    unfolding ld by (rule exI, code_simp)
  then obtain it where it: "validate_postprocess_item (pe_fs demo_penv) (pe_conf demo_penv) [] True
      (VDict (pp_command ''42|nzbgeek'' ?r (load_payload (jr_payload ?r)))) = Inr it" by blast
  have b: "pw_budget (demo_world Post_processing ''Snatched'' 0) = None" by (simp add: demo_world_def)
  have lt: "recovery_count (load_payload (jr_payload ?r)) < int MAX_RECOVERY_ATTEMPTS"
    by (simp add: rc MAX_RECOVERY_ATTEMPTS_def)
  have stg: "jr_stage ?r = Post_processing" by simp
  obtain res w' where x: "recover stopping demo_penv ''42|nzbgeek'' (demo_world Post_processing ''Snatched'' 0) = (Inr res, w')"
    "pr_action res = Some ''post_processing-redrive''"
    using redrive_happens [OF demo_gate demo_healthy demo_world_row stg demo_not_fulfilled b lt it demo_stopping] by blast
  have st: "pw_journal (snd (stopping i u)) = pw_journal u" for i u by (simp add: stopping_def)
  have s1: "stored (dict_set ''recovery_count'' (VInt (recovery_count (VDict (demo_payload 0)) + 1)) (demo_payload 0))"
    using demo_stored [of 1] by (simp add: rc up)
  have s0: "stored (demo_payload 0)" using demo_stored [of 0] by simp
  from redrive_is_counted [OF demo_world_wf demo_world_row ld s0 s1 st x] rc x(1) show ?thesis by auto
qed

theorem exhausted_goes_to_operator_witness:
  "\<exists>q. jrow_of (snd (recover crashing demo_penv ''42|nzbgeek'' (demo_world Post_processing ''Snatched'' 3))) ''42|nzbgeek'' = Some q
     \<and> jr_stage q = Manual_review"
proof -
  let ?w = "demo_world Post_processing ''Snatched'' 3"
  have rc: "recovery_count (load_payload (jr_payload ((demo_row Post_processing)\<lparr>jr_payload := PJson (VDict (demo_payload 3))\<rparr>))) = 3"
    by code_simp
  have b: "pw_budget ?w = None \<or> the (pw_budget ?w) < MAX_INLINE_PP_REDRIVE_PER_PASS" by (simp add: demo_world_def)
  have ge: "int MAX_RECOVERY_ATTEMPTS \<le> recovery_count (load_payload (jr_payload ((demo_row Post_processing)\<lparr>jr_payload := PJson (VDict (demo_payload 3))\<rparr>)))"
    by (simp only: rc) (simp add: MAX_RECOVERY_ATTEMPTS_def)
  have stg: "jr_stage ((demo_row Post_processing)\<lparr>jr_payload := PJson (VDict (demo_payload 3))\<rparr>) = Post_processing" by simp
  have key: "''42|nzbgeek'' \<noteq> []" by simp
  obtain res w' q where "recover crashing demo_penv ''42|nzbgeek'' ?w = (Inr res, w')"
    "jrow_of w' ''42|nzbgeek'' = Some q" "jr_stage q = Manual_review"
    using exhausted_goes_to_operator [OF demo_gate demo_healthy key demo_world_wf demo_world_row stg demo_not_fulfilled ge b] by blast
  then show ?thesis by auto
qed

theorem moved_work_is_closed_witness:
  "\<exists>w' q. recover crashing demo_penv ''42|nzbgeek'' (demo_world Moved ''Snatched'' 0)
       = (Inr (result ''processed'' (Some ''moved-finish-dbfacts'')), w')
     \<and> jrow_of w' ''42|nzbgeek'' = Some q \<and> jr_stage q = Post_processed \<and> pw_nzblog w' = []"
proof -
  let ?r = "(demo_row Moved)\<lparr>jr_payload := PJson (VDict (demo_payload 0))\<rparr>"
  have l: "load_payload (jr_payload ?r) = VDict (demo_payload 0)" "jr_stage ?r = Moved" by simp_all
  have s0: "stored (demo_payload 0)" using demo_stored [of 0] by simp
  have a: "anchor_matches demo_penv (demo_world Moved ''Snatched'' 0) ?r (VDict (demo_payload 0))
      \<lparr>nz_issueid = Some ''42'', nz_provider = Some ''nzbgeek'', nz_name = None, nz_sarc = None\<rparr>" by code_simp
  have nz: "pw_nzblog (demo_world Moved ''Snatched'' 0) = [\<lparr>nz_issueid = Some ''42'', nz_provider = Some ''nzbgeek'', nz_name = None, nz_sarc = None\<rparr>]"
    by (simp add: demo_world_def)
  obtain w' q where r: "recover crashing demo_penv ''42|nzbgeek'' (demo_world Moved ''Snatched'' 0)
       = (Inr (result ''processed'' (Some ''moved-finish-dbfacts'')), w')" "jrow_of w' ''42|nzbgeek'' = Some q" "jr_stage q = Post_processed"
    and n: "\<forall>n. n \<in> set (pw_nzblog w') \<longleftrightarrow> n \<in> set (pw_nzblog (demo_world Moved ''Snatched'' 0))
      \<and> \<not> anchor_matches demo_penv (demo_world Moved ''Snatched'' 0) ?r (VDict (demo_payload 0)) n"
    using moved_work_is_closed [OF demo_gate demo_world_wf demo_world_row l(2,1) s0] by blast
  have "x \<notin> set (pw_nzblog w')" for x
  proof
    assume "x \<in> set (pw_nzblog w')"
    note h = n [THEN spec, THEN iffD1, OF this]
    have "x = \<lparr>nz_issueid = Some ''42'', nz_provider = Some ''nzbgeek'', nz_name = None, nz_sarc = None\<rparr>"
      using h [THEN conjunct1] nz by simp
    then show False using h [THEN conjunct2] a by (simp only: not_True_eq_False)
  qed
  then have "pw_nzblog w' = []" by (cases "pw_nzblog w'") auto
  with r show ?thesis by blast
qed

end
