(* ===== verification/Recovery.thy ===== *)
theory Recovery
  imports PostProcess
begin

text \<open>
  \<open>comicarr/app/downloads/recovery.py\<close> with \<open>apply_verdict\<close> of \<open>recovery_classify.py\<close> and the band pass of
  \<open>attention/_reconciliation.py\<close>: the replay that runs once at start-up.  It repairs keys and anchors, reopens what
  the library contradicts, and resolves every open row on the verdict of its download client.
\<close>

section \<open>Records of an outcome\<close>

text \<open>A step may raise (an exception class name) after some of its writes are committed.\<close>

type_synonym 'a act = "(string + 'a) \<times> pworld"

definition recorded :: "penv \<Rightarrow> entry \<Rightarrow> 'a \<Rightarrow> pworld \<Rightarrow> 'a act" where
  "recorded env en a w = (case record_own env w en of Inl e \<Rightarrow> (Inl (jerror_name e), w) | Inr (_, w') \<Rightarrow> (Inr a, w'))"

definition row_entry :: "entry_kind \<Rightarrow> string \<Rightarrow> jrow \<Rightarrow> string \<Rightarrow> pval \<Rightarrow> entry" where
  "row_entry kind key r reason payload =
     (blank_entry kind key reason payload)\<lparr>en_issueid := jr_issueid r, en_provider := jr_provider r\<rparr>"

definition nzb_name_of :: "jrow \<Rightarrow> pval \<Rightarrow> pval" where
  "nzb_name_of r payload =
     (let p = as_dict payload in pv_or (pv_or (opt_pv (jr_nzbname r)) (pv_get p ''nzbname'')) (pv_get p ''nzb_name''))"

section \<open>Direct downloads without an anchor\<close>

fun upsert_ddl_status :: "string \<Rightarrow> string \<Rightarrow> ddl_row list \<Rightarrow> ddl_row list" where
  "upsert_ddl_status i st [] =
     [\<lparr>dd_id = Some i, dd_issueid = None, dd_status = Some st, dd_link = None, dd_mainlink = None, dd_filename = None, dd_comicid = None\<rparr>]"
| "upsert_ddl_status i st (q # qs) =
     (if dd_id q = Some i then q\<lparr>dd_status := Some st\<rparr> # qs else q # upsert_ddl_status i st qs)"

definition payload_ddl_id :: "payload \<Rightarrow> pval" where
  "payload_ddl_id p = pv_or (pv_or (pv_get p ''ddl_id'') (pv_get p ''id'')) (pv_get (as_dict (pv_get p ''download_info'')) ''id'')"

definition ddl_journal_anchors :: "pworld \<Rightarrow> ddl_row \<Rightarrow> string list" where
  "ddl_journal_anchors w q =
     map fst (filter (\<lambda>(k, r). jr_issueid r = Some (opt_str (dd_issueid q)) \<and> jr_downloader_type r = Some ''ddl''
         \<and> py_str (pv_or (payload_ddl_id (as_dict (load_payload (jr_payload r)))) (VStr [])) = opt_str (dd_id q))
       (js_rows (pw_journal w)))"

definition unanchored_entry :: "penv \<Rightarrow> ddl_row \<Rightarrow> entry" where
  "unanchored_entry env q =
     (blank_entry ManualReview
        (release_key (pe_sha env) (dd_issueid q) (Some ''DDL'') (dd_filename q) None
           (case dd_id q of None \<Rightarrow> DNone | Some i \<Rightarrow> DScalar i))
        ''legacy_downloading_without_correlation''
        (VDict [(''issueid'', opt_pv (dd_issueid q)), (''comicid'', opt_pv (dd_comicid q)), (''provider'', VStr ''DDL''),
           (''ddl_id'', opt_pv (dd_id q)), (''filename'', opt_pv (dd_filename q)), (''ddl'', VBool True)]))
       \<lparr>en_issueid := dd_issueid q, en_provider := Some ''DDL'', en_dtype := Some ''ddl'', en_nzbname := dd_filename q,
        en_release_id := dd_id q, en_comicid := dd_comicid q\<rparr>"

definition quarantine_unanchored_ddl_row :: "penv \<Rightarrow> ddl_row \<Rightarrow> pworld \<Rightarrow> unit act" where
  "quarantine_unanchored_ddl_row env q w =
     (case recorded env (unanchored_entry env q) () w of
        (Inl e, w') \<Rightarrow> (Inl e, w')
      | (Inr _, w') \<Rightarrow> (Inr (), w'\<lparr>pw_ddl := upsert_ddl_status (opt_str (dd_id q)) ''Manual Review'' (pw_ddl w')\<rparr>))"

fun legacy_ddl_loop :: "penv \<Rightarrow> ddl_row list \<Rightarrow> nat \<Rightarrow> pworld \<Rightarrow> nat act" where
  "legacy_ddl_loop env [] n w = (Inr n, w)"
| "legacy_ddl_loop env (q # qs) n w =
     (if ddl_journal_anchors w q \<noteq> [] then legacy_ddl_loop env qs n w
      else (case quarantine_unanchored_ddl_row env q w of
              (Inl e, w') \<Rightarrow> (Inl e, w')
            | (Inr _, w') \<Rightarrow> legacy_ddl_loop env qs (Suc n) w'))"

definition reconcile_legacy_ddl_downloading :: "penv \<Rightarrow> pworld \<Rightarrow> nat act" where
  "reconcile_legacy_ddl_downloading env w =
     legacy_ddl_loop env (filter (\<lambda>q. dd_status q = Some ''Downloading'') (pw_ddl w)) 0 w"

section \<open>Lost anchors\<close>

definition has_advanced_sibling :: "penv \<Rightarrow> pworld \<Rightarrow> string \<Rightarrow> string \<Rightarrow> bool" where
  "has_advanced_sibling env w issueid provider =
     (\<not> pe_snatched_up env
      \<or> list_ex (\<lambda>s. sn_issueid s = Some issueid \<and> sn_provider s = Some provider
            \<and> sn_status s \<in> {Some ''Downloaded'', Some ''Post-Processed''}) (pw_snatched w))"

definition find_nzb :: "pworld \<Rightarrow> string \<Rightarrow> string \<Rightarrow> nzb_row option" where
  "find_nzb w i provider = find (\<lambda>n. nz_issueid n = Some i \<and> nz_provider n = Some provider) (pw_nzblog w)"

definition anchor_nzb :: "penv \<Rightarrow> pworld \<Rightarrow> bool option \<Rightarrow> string \<Rightarrow> string \<Rightarrow> nzb_row option" where
  "anchor_nzb env w arc i provider =
     (if \<not> pe_nzblog_up env then None
      else case arc of
        Some True \<Rightarrow> find (\<lambda>n. nz_issueid n \<in> {Some i, Some (CHR ''S'' # i)} \<and> nz_provider n = Some provider) (pw_nzblog w)
      | Some False \<Rightarrow> find_nzb w i provider
      | None \<Rightarrow> (case find_nzb w i provider of None \<Rightarrow> find_nzb w (CHR ''S'' # i) provider | Some n \<Rightarrow> Some n))"

definition snatch_dict :: "snatch_row \<Rightarrow> payload" where
  "snatch_dict s =
     [(''IssueID'', opt_pv (sn_issueid s)), (''ComicName'', opt_pv (sn_comicname s)), (''Issue_Number'', opt_pv (sn_number s)),
      (''Size'', case sn_size s of None \<Rightarrow> VNone | Some n \<Rightarrow> VInt n), (''DateAdded'', opt_pv (sn_date s)),
      (''Status'', opt_pv (sn_status s)), (''FolderName'', opt_pv (sn_folder s)), (''ComicID'', opt_pv (sn_comicid s)),
      (''Provider'', opt_pv (sn_provider s)), (''Hash'', opt_pv (sn_hash s)), (''crc'', opt_pv (sn_crc s))]"

definition anchor_key :: "penv \<Rightarrow> snatch_row \<Rightarrow> string option \<Rightarrow> string" where
  "anchor_key env s name =
     release_key (pe_sha env) (sn_issueid s) (sn_provider s) name (sn_hash s)
       (if present (sn_hash s) then DScalar (the (sn_hash s))
        else if present name then DScalar (the name) else DDict (snatch_dict s))"

definition anchor_payload :: "snatch_row \<Rightarrow> string option \<Rightarrow> bool \<Rightarrow> payload" where
  "anchor_payload s name is_ddl =
     [(''issueid'', opt_pv (sn_issueid s)), (''comicid'', opt_pv (sn_comicid s)), (''provider'', opt_pv (sn_provider s)),
      (''hash'', opt_pv (sn_hash s)), (''nzbname'', opt_pv name), (''comicname'', opt_pv (sn_comicname s)),
      (''issuenumber'', opt_pv (sn_number s))]
     @ (if is_ddl then [(''ddl'', VBool True), (''download_info'', VDict [(''provider'', VStr ''DDL'')])] else [])"

definition anchor_due :: "penv \<Rightarrow> pworld \<Rightarrow> string \<Rightarrow> string \<Rightarrow> string \<Rightarrow> bool option \<Rightarrow> bool" where
  "anchor_due env w key i provider arc =
     (jrow_of w key = None \<and> \<not> has_advanced_sibling env w i provider
      \<and> (is_synthetic_oneoff (Some i) \<or> nzblog_present (cdb_of env w) (Some i) (Some provider) arc = Some True))"

definition reconstruct_anchor :: "penv \<Rightarrow> snatch_row \<Rightarrow> pworld \<Rightarrow> bool \<times> pworld" where
  "reconstruct_anchor env s w =
     (case (sn_issueid s, sn_provider s) of
        (Some i, Some provider) \<Rightarrow>
          let arc = is_story_arc_obligation env w (Some i);
              name = (case anchor_nzb env w arc i provider of Some n \<Rightarrow> nz_name n | None \<Rightarrow> sn_folder s);
              key = anchor_key env s name;
              is_ddl = py_in ''ddl'' (py_lower provider);
              dtype = (if present (sn_hash s) then ''torrent'' else if is_ddl then ''ddl'' else ''nzb'')
          in if \<not> anchor_due env w key i provider arc then (False, w)
             else (case transition_own env w key ''snatched'' (VDict (anchor_payload s name is_ddl))
                     [(CIssueid, Some i), (CProvider, Some provider), (CDownloader_type, Some dtype),
                      (CNzbname, sn_folder s), (CHash, sn_hash s)] of
                 Inl _ \<Rightarrow> (False, w) | Inr (_, w') \<Rightarrow> (True, w'))
      | _ \<Rightarrow> (False, w))"

fun anchor_loop :: "penv \<Rightarrow> snatch_row list \<Rightarrow> nat \<Rightarrow> pworld \<Rightarrow> nat \<times> pworld" where
  "anchor_loop env [] n w = (n, w)"
| "anchor_loop env (s # ss) n w =
     (case reconstruct_anchor env s w of (b, w') \<Rightarrow> anchor_loop env ss (if b then Suc n else n) w')"

definition reconstruct_anchors :: "penv \<Rightarrow> pworld \<Rightarrow> nat \<times> pworld" where
  "reconstruct_anchors env w =
     (if pe_snatched_up env then anchor_loop env (filter (\<lambda>s. sn_status s = Some ''Snatched'') (pw_snatched w)) 0 w else (0, w))"

section \<open>False terminals\<close>

definition reopen_one :: "penv \<Rightarrow> string \<times> jrow \<Rightarrow> pworld \<Rightarrow> bool \<times> pworld" where
  "reopen_one env kr w =
     (if \<not> false_terminal_reopen_candidate (cdb_of env w) (snd kr) (load_payload (jr_payload (snd kr))) then (False, w)
      else case reopen_false_terminal (pw_journal w) (fst kr) (pe_now env) of (b, j) \<Rightarrow> (b, w\<lparr>pw_journal := j\<rparr>))"

fun reopen_loop :: "penv \<Rightarrow> (string \<times> jrow) list \<Rightarrow> nat \<Rightarrow> pworld \<Rightarrow> nat \<times> pworld" where
  "reopen_loop env [] n w = (n, w)"
| "reopen_loop env (kr # krs) n w = (case reopen_one env kr w of (b, w') \<Rightarrow> reopen_loop env krs (if b then Suc n else n) w')"

definition reclassify_false_terminal_imports :: "penv \<Rightarrow> pworld \<Rightarrow> nat \<times> pworld" where
  "reclassify_false_terminal_imports env w =
     reopen_loop env (filter (\<lambda>(k, r). jr_stage r = Post_processed) (js_rows (pw_journal w))) 0 w"

section \<open>Commands rebuilt from a row\<close>

definition merge_completion_evidence :: "pval \<Rightarrow> details \<Rightarrow> payload" where
  "merge_completion_evidence payload d =
     (let m0 = as_dict payload;
          m1 = (if truthy (dt_location d) then dict_set ''nzb_folder'' (VStr (py_str (dt_location d))) m0 else m0);
          m2 = (if truthy (dt_name d) \<and> \<not> truthy (pv_get m1 ''nzb_name'') \<and> \<not> truthy (pv_get m1 ''nzbname'')
                then dict_set ''nzb_name'' (dt_name d) m1 else m1);
          m3 = (if dt_failed d \<noteq> VNone then dict_set ''failed'' (VBool (truthy (dt_failed d))) m2 else m2);
          nzo = VStr (py_str (dt_nzo_id d))
      in if truthy (dt_nzo_id d) \<and> \<not> truthy (pv_get m3 ''nzo_id'') then
           let m4 = dict_set ''nzo_id'' nzo m3; di = as_dict (pv_get m4 ''download_info'') in
           dict_set ''download_info'' (VDict (if has_key di ''nzo_id'' then di else dict_set ''nzo_id'' nzo di)) m4
         else m3)"

text \<open>\<open>release_sab_history\<close>: the client is asked to drop the entry; its answer is ignored.\<close>

definition release_sab_history :: "pval \<Rightarrow> bool \<Rightarrow> pworld \<Rightarrow> pworld" where
  "release_sab_history nzo failed w =
     (if truthy nzo then w\<lparr>pw_sab_removed := pw_sab_removed w @ [(py_str nzo, if failed then ''Failed'' else ''Completed'')]\<rparr>
      else w)"

definition pp_item_from_row :: "string \<Rightarrow> jrow \<Rightarrow> pval \<Rightarrow> payload" where
  "pp_item_from_row key r payload =
     (let p = as_dict payload; g = pv_get p in
      [(''nzb_name'', pv_or (pv_or (g ''nzb_name'') (g ''nzbname'')) (opt_pv (jr_nzbname r))),
       (''nzb_folder'', g ''nzb_folder''),
       (''failed'', VBool (truthy (g ''failed''))),
       (''issueid'', pv_or (g ''issueid'') (opt_pv (jr_issueid r))),
       (''comicid'', g ''comicid''),
       (''apicall'', if has_key p ''apicall'' then g ''apicall'' else VBool True),
       (''ddl'', VBool (truthy (g ''ddl''))),
       (''download_info'', g ''download_info''),
       (''journal_release_key'', VStr key)])"

datatype resume_kind = RDdl | RTorrent | RNzb

definition row_is_ddl :: "jrow \<Rightarrow> payload \<Rightarrow> bool" where
  "row_is_ddl r p =
     (py_lower (case jr_downloader_type r of None \<Rightarrow> [] | Some s \<Rightarrow> s) = ''ddl''
      \<or> pv_get p ''ddl'' = VBool True
      \<or> py_lower (py_str (pv_or (pv_or (pv_get p ''provider'') (opt_pv (jr_provider r))) (VStr []))) = ''ddl''
      \<or> py_lower (py_str (pv_or (pv_get (as_dict (pv_get p ''download_info'')) ''provider'') (VStr []))) = ''ddl'')"

text \<open>The id of the direct-download command: of the payload read as a command, of the \<open>ddl_info\<close> row read as
  one, or the id the payload names.\<close>

definition resume_ddl_id :: "penv \<Rightarrow> payload \<Rightarrow> pval" where
  "resume_ddl_id env p =
     (let loads = (\<lambda>s. map_option CV (pe_loads env s)); ddl_id = pv_or (payload_ddl_id p) VNone in
      case from_mapping loads (map (\<lambda>(k, v). (k, CV v)) p) of
        Inr c \<Rightarrow> VStr (dc_id c)
      | Inl _ \<Rightarrow>
          (case (if truthy ddl_id then pe_ddl_item env (py_str ddl_id) else None) of
             None \<Rightarrow> ddl_id
           | Some durable \<Rightarrow> (case from_mapping loads durable of Inr c \<Rightarrow> VStr (dc_id c) | Inl _ \<Rightarrow> ddl_id)))"

definition resume_torrent_item :: "string \<Rightarrow> jrow \<Rightarrow> payload \<Rightarrow> payload" where
  "resume_torrent_item key r p =
     [(''issueid'', pv_or (pv_get p ''issueid'') (opt_pv (jr_issueid r))), (''comicid'', pv_get p ''comicid''),
      (''hash'', pv_or (pv_get p ''hash'') (opt_pv (jr_hash r))), (''provider'', pv_or (pv_get p ''provider'') (opt_pv (jr_provider r))),
      (''nzbname'', pv_or (pv_get p ''nzbname'') (opt_pv (jr_nzbname r))), (''journal_release_key'', VStr key),
      (''clientmode'', VStr (py_lower (case jr_downloader_type r of None \<Rightarrow> [] | Some s \<Rightarrow> s)))]"

text \<open>Without the API key in the queue query.\<close>

definition resume_nzb_item :: "string \<Rightarrow> jrow \<Rightarrow> payload \<Rightarrow> payload" where
  "resume_nzb_item key r p =
     (let di = as_dict (pv_get p ''download_info'');
          downloader = VStr (py_lower (case jr_downloader_type r of None \<Rightarrow> [] | Some s \<Rightarrow> s));
          route = py_lower (py_str (pv_or (pv_or (pv_get p ''route'') downloader) (VStr [])));
          nzo = pv_or (pv_get p ''nzo_id'') (pv_get di ''nzo_id'');
          base = [(''issueid'', pv_or (pv_get p ''issueid'') (opt_pv (jr_issueid r))), (''comicid'', pv_get p ''comicid''),
                  (''apicall'', VBool True),
                  (''download_info'', pv_or (pv_get p ''download_info'') (VDict [(''provider'', opt_pv (jr_provider r))])),
                  (''journal_release_key'', VStr key), (''clientmode'', VStr route)]
      in if route \<in> {''sab'', ''sabnzbd''} then
           dict_set ''clientmode'' (VStr ''sabnzbd'') base
             @ [(''nzo_id'', nzo), (''queue'', VDict [(''mode'', VStr ''queue''), (''search'', nzo), (''output'', VStr ''json'')])]
         else if route = ''nzbget'' then base @ [(''NZBID'', pv_or (pv_get p ''NZBID'') (pv_get di ''NZBID''))]
         else base)"

definition resume_kind_of :: "jrow \<Rightarrow> payload \<Rightarrow> resume_kind" where
  "resume_kind_of r p =
     (if row_is_ddl r p then RDdl
      else if py_lower (case jr_downloader_type r of None \<Rightarrow> [] | Some s \<Rightarrow> s) = ''torrent'' \<or> present (jr_hash r) then RTorrent
      else RNzb)"

section \<open>Verdicts applied\<close>

definition gone_entry :: "string \<Rightarrow> jrow \<Rightarrow> entry" where
  "gone_entry key r =
     (let payload = load_payload (jr_payload r); p = as_dict payload in
      (row_entry (Failure None) key r ''download_gone'' payload)
        \<lparr>en_dtype := jr_downloader_type r,
         en_nzbname := pv_text (pv_or (pv_or (opt_pv (jr_nzbname r)) (pv_get p ''nzbname'')) (pv_get p ''filename'')),
         en_release_id := pv_text (pv_or (pv_get (as_dict (pv_get p ''download_info'')) ''id'') VNone), en_hash := jr_hash r\<rparr>)"

text \<open>\<open>apply_verdict\<close> for "gone"; for the other verdicts it does nothing.\<close>

definition apply_gone :: "penv \<Rightarrow> string \<Rightarrow> jrow \<Rightarrow> pworld \<Rightarrow> unit act" where
  "apply_gone env key r w =
     (let ddl_id = pv_or (pv_get (as_dict (pv_get (as_dict (load_payload (jr_payload r))) ''download_info'')) ''id'') VNone;
          w1 = (if ddl_id = VNone then w
                else w\<lparr>pw_stuck := List.insert (py_str ddl_id) (pw_stuck w),
                       pw_ddl := (if pe_ddl_up env then upsert_ddl_status (py_str ddl_id) ''Failed'' (pw_ddl w) else pw_ddl w)\<rparr>)
      in recorded env (gone_entry key r) () w1)"

definition failed_completion_entry :: "string \<Rightarrow> jrow \<Rightarrow> pval \<Rightarrow> details \<Rightarrow> entry" where
  "failed_completion_entry key r payload d =
     (row_entry (Failure None) key r ''download_failed_no_auto_handling'' payload)
       \<lparr>en_dtype := jr_downloader_type r, en_hash := jr_hash r,
        en_nzbname := pv_text (pv_or (pv_or (opt_pv (jr_nzbname r)) (dt_name d)) (pv_get (as_dict payload) ''nzbname''))\<rparr>"

definition named_review :: "string \<Rightarrow> jrow \<Rightarrow> string \<Rightarrow> pval \<Rightarrow> pval \<Rightarrow> entry" where
  "named_review key r reason payload name =
     (row_entry ManualReview key r reason payload)\<lparr>en_dtype := jr_downloader_type r, en_nzbname := pv_text name\<rparr>"

definition resolve_still :: "penv \<Rightarrow> string \<Rightarrow> jrow \<Rightarrow> pval \<Rightarrow> pworld \<Rightarrow> string act" where
  "resolve_still env key r payload w =
     (let p = as_dict payload in
      case resume_kind_of r p of
        RTorrent \<Rightarrow> (Inr ''still-reenqueued'', w\<lparr>pw_torrent_queue := pw_torrent_queue w @ [resume_torrent_item key r p]\<rparr>)
      | RNzb \<Rightarrow> (Inr ''still-reenqueued'', w\<lparr>pw_nzb_queue := pw_nzb_queue w @ [resume_nzb_item key r p]\<rparr>)
      | RDdl \<Rightarrow>
          let i = resume_ddl_id env p;
              en = (row_entry ManualReview key r ''ambiguous_ddl_acceptance_after_restart'' payload)
                     \<lparr>en_dtype := Some ''ddl'', en_release_id := pv_text i,
                      en_nzbname := pv_text (pv_or (pv_or (opt_pv (jr_nzbname r)) (pv_get p ''filename'')) (pv_get p ''nzbname''))\<rparr>
          in (case recorded env en () w of
                (Inl e, w') \<Rightarrow> (Inl e, w')
              | (Inr _, w') \<Rightarrow>
                  (Inr ''still-reenqueued'',
                   if truthy i then w'\<lparr>pw_ddl := upsert_ddl_status (py_str i) ''Manual Review'' (pw_ddl w')\<rparr> else w')))"

definition enqueue_pp :: "payload \<Rightarrow> pworld \<Rightarrow> pworld" where
  "enqueue_pp item w = w\<lparr>pw_pp_queue := pw_pp_queue w @ [item]\<rparr>"

definition resolve_complete :: "penv \<Rightarrow> string \<Rightarrow> jrow \<Rightarrow> pval \<Rightarrow> details \<Rightarrow> pworld \<Rightarrow> string act" where
  "resolve_complete env key r payload0 d w =
     (let payload = merge_completion_evidence payload0 d in
      case validate_postprocess_item (pe_fs env) (pe_conf env) (configured_roots (pe_conf env)) True
             (VDict (pp_item_from_row key r (VDict payload))) of
        Inl _ \<Rightarrow> recorded env (named_review key r ''invalid_recovered_postprocess_command:PostProcessCommandError''
                    (VDict payload) (nzb_name_of r (VDict payload))) ''complete-manual-review'' w
      | Inr item \<Rightarrow>
          (case transition_own env w key ''downloaded'' (VDict payload)
                  [(CIssueid, jr_issueid r), (CProvider, jr_provider r), (CDownloader_type, jr_downloader_type r)] of
             Inl e \<Rightarrow> (Inl (jerror_name e), w)
           | Inr (_, w') \<Rightarrow> (Inr ''complete-pp-enqueued'',
               release_sab_history (dt_nzo_id d) (truthy (pv_get payload ''failed'')) (enqueue_pp item w'))))"

definition resolve_unknown :: "penv \<Rightarrow> string \<Rightarrow> jrow \<Rightarrow> pval \<Rightarrow> bool \<Rightarrow> pworld \<Rightarrow> string act" where
  "resolve_unknown env key r payload done_without_placement w =
     (if done_without_placement
      then recorded env (named_review key r ''done_signal_without_library_placement'' payload (nzb_name_of r payload))
             ''done-unplaced-manual-review'' w
      else (Inr ''unknown-unchanged'', w))"

text \<open>A snatched row without a library placement, or without a done-signal.\<close>

definition resolve_classified :: "penv \<Rightarrow> string \<Rightarrow> jrow \<Rightarrow> pval \<Rightarrow> details \<Rightarrow> bool \<Rightarrow> pworld \<Rightarrow> string act" where
  "resolve_classified env key r payload d done_without_placement w =
     (if dt_raw d = Some ''failed_no_auto_handling'' then
        (case recorded env (failed_completion_entry key r payload d) () w of
           (Inl e, w') \<Rightarrow> (Inl e, w')
         | (Inr _, w') \<Rightarrow> (Inr ''failed-no-auto-handling'', release_sab_history (dt_nzo_id d) True w'))
      else if dt_raw d = Some ''unplaced'' then
        (let merged = VDict (merge_completion_evidence payload d) in
         recorded env (named_review key r ''done_signal_without_library_placement'' merged (nzb_name_of r merged))
           ''file-not-found-manual-review'' w)
      else (case dt_verdict d of
          GONE \<Rightarrow> (case apply_gone env key r w of (Inl e, w') \<Rightarrow> (Inl e, w') | (Inr _, w') \<Rightarrow> (Inr ''gone-failed'', w'))
        | UNKNOWN \<Rightarrow> resolve_unknown env key r payload done_without_placement w
        | COMPLETE \<Rightarrow> resolve_complete env key r payload d w
        | STILL \<Rightarrow> resolve_still env key r payload w))"

text \<open>The client probes of a pass, given the tables they may read.\<close>

type_synonym prober = "cdb \<Rightarrow> string \<Rightarrow> (jrow \<Rightarrow> pval option) option"

definition resolve_snatched :: "prober \<Rightarrow> penv \<Rightarrow> string \<Rightarrow> jrow \<Rightarrow> pworld \<Rightarrow> string act" where
  "resolve_snatched probes env key r w =
     (let d = cdb_of env w; payload = load_payload (jr_payload r) in
      if has_done_signal d r \<and> has_library_placement d r payload then
        (case transition_own env w key ''post_processed'' VNone [(CIssueid, jr_issueid r), (CProvider, jr_provider r)] of
           Inl e \<Rightarrow> (Inl (jerror_name e), w) | Inr (_, w') \<Rightarrow> (Inr ''done-check'', w'))
      else resolve_classified env key r payload (classify_details (probes d) d r payload) (has_done_signal d r) w)"

definition resolve_downloaded :: "penv \<Rightarrow> string \<Rightarrow> jrow \<Rightarrow> pworld \<Rightarrow> string act" where
  "resolve_downloaded env key r w =
     (let payload = load_payload (jr_payload r) in
      case validate_postprocess_item (pe_fs env) (pe_conf env) (configured_roots (pe_conf env)) True
             (VDict (pp_item_from_row key r payload)) of
        Inl _ \<Rightarrow> recorded env (row_entry ManualReview key r ''downloaded_invalid_artifact_command:PostProcessCommandError'' payload)
                    ''downloaded-manual-review'' w
      | Inr item \<Rightarrow> (Inr ''downloaded-pp-enqueued'', enqueue_pp item w))"

text \<open>\<open>_resolve_row\<close>: the row is read again, and skipped when a worker got ahead of the snapshot.\<close>

definition resolve_row :: "processor \<Rightarrow> prober \<Rightarrow> penv \<Rightarrow> string \<times> jrow \<Rightarrow> pworld \<Rightarrow> string act" where
  "resolve_row exec probes env snap w =
     (case jrow_of w (fst snap) of
        None \<Rightarrow> (Inr ''skip-vanished'', w)
      | Some r \<Rightarrow>
          if is_terminal (jr_stage r) then (Inr ''skip-terminal'', w)
          else if STAGE_RANK (jr_stage (snd snap)) < STAGE_RANK (jr_stage r) then (Inr ''skip-advanced'', w)
          else if jr_stage r = Reserved then
            recorded env ((row_entry ManualReview (fst snap) r ''reserved_without_persisted_acceptance'' (load_payload (jr_payload r)))
                \<lparr>en_dtype := jr_downloader_type r\<rparr>) ''reserved-manual-review'' w
          else if jr_stage r \<in> {Moved, Post_processing} then
            (case recover exec env (fst snap) w of
               (Inl e, w') \<Rightarrow> (Inl e, w')
             | (Inr res, w') \<Rightarrow> (Inr (case pr_action res of None \<Rightarrow> ''None'' | Some a \<Rightarrow> a), w'))
          else if jr_stage r = Downloaded then resolve_downloaded env (fst snap) r w
          else resolve_snatched probes env (fst snap) r w)"

section \<open>The band pass\<close>

definition anchor_shared_with_open_row :: "pworld \<Rightarrow> string \<Rightarrow> jrow \<Rightarrow> bool" where
  "anchor_shared_with_open_row w key r =
     (present (jr_issueid r) \<and> present (jr_provider r)
      \<and> list_ex (\<lambda>(k, q). k \<noteq> key \<and> jr_issueid q = jr_issueid r \<and> jr_provider q = jr_provider r
            \<and> jr_stage q \<in> set OPEN_STAGES) (js_rows (pw_journal w)))"

text \<open>Stamp and deletion are one transaction.\<close>

definition close_fulfilled_band_row :: "penv \<Rightarrow> string \<times> jrow \<Rightarrow> pworld \<Rightarrow> bool \<times> pworld" where
  "close_fulfilled_band_row env kr w =
     (if \<not> obligation_already_fulfilled env w (snd kr) \<or> fst kr = [] then (False, w)
      else case stamp_resolution (pw_journal w) (fst kr) ''imported'' False (pe_now env) of
        Inr (True, j) \<Rightarrow>
          (let w' = w\<lparr>pw_journal := j\<rparr> in
           (True, if anchor_shared_with_open_row w' (fst kr) (snd kr) then w'
                  else delete_anchor env (snd kr) (load_payload (jr_payload (snd kr))) w'))
      | _ \<Rightarrow> (False, w))"

definition band_args :: "jrow \<Rightarrow> rargs" where
  "band_args r =
     \<lparr>ra_reason = jr_fail_reason r, ra_issueid = jr_issueid r, ra_provider = jr_provider r, ra_nzbname = jr_nzbname r,
      ra_release_id = None, ra_hash = jr_hash r, ra_comicid = None, ra_comicname = None, ra_issue_number = None,
      ra_payload = load_payload (jr_payload r)\<rparr>"

record band_summary =
  bs_scanned :: nat
  bs_closed :: nat
  bs_skipped :: nat
  bs_results :: "string list"

definition band_step :: "penv \<Rightarrow> string \<times> jrow \<Rightarrow> band_summary \<times> pworld \<Rightarrow> band_summary \<times> pworld" where
  "band_step env kr sw =
     (case sw of (s, w) \<Rightarrow>
       let s' = s\<lparr>bs_scanned := Suc (bs_scanned s)\<rparr> in
       (case close_fulfilled_band_row env kr w of
          (True, w') \<Rightarrow> (s'\<lparr>bs_closed := Suc (bs_closed s)\<rparr>, w')
        | (False, _) \<Rightarrow>
            if is_actionable (jr_fail_reason (snd kr)) then (s'\<lparr>bs_skipped := Suc (bs_skipped s)\<rparr>, w)
            else (case reconcile_excluded (renv_of env) False (band_args (snd kr)) (pw_recon w) of
                    None \<Rightarrow> (s', w)
                  | Some (st, r) \<Rightarrow> (s'\<lparr>bs_results := bs_results s @ [st]\<rparr>, w\<lparr>pw_recon := r\<rparr>))))"

definition band_rows :: "pworld \<Rightarrow> (string \<times> jrow) list" where
  "band_rows w = filter (\<lambda>(k, r). jr_stage r \<in> set BAND_STAGES \<and> \<not> is_resolved (jr_status r)) (js_rows (pw_journal w))"

definition reconcile_existing_excluded_rows :: "penv \<Rightarrow> pworld \<Rightarrow> band_summary \<times> pworld" where
  "reconcile_existing_excluded_rows env w =
     fold (band_step env) (band_rows w) (\<lparr>bs_scanned = 0, bs_closed = 0, bs_skipped = 0, bs_results = []\<rparr>, w)"

section \<open>The replay\<close>

record replay_summary =
  sm_key_migration :: nat
  sm_legacy_ddl :: nat
  sm_band :: "band_summary option"
  sm_reopened :: nat
  sm_reconstructed :: nat
  sm_open :: nat
  sm_actions :: "string list"

text \<open>One row's exception is the action "error"; the loop goes on.\<close>

fun replay_rows :: "processor \<Rightarrow> prober \<Rightarrow> penv \<Rightarrow> (string \<times> jrow) list \<Rightarrow> pworld \<Rightarrow> string list \<times> pworld" where
  "replay_rows exec probes env [] w = ([], w)"
| "replay_rows exec probes env (kr # krs) w =
     (case resolve_row exec probes env kr w of
        (x, w') \<Rightarrow>
          (case replay_rows exec probes env krs w' of
             (as, w'') \<Rightarrow> ((case x of Inl _ \<Rightarrow> ''error'' | Inr a \<Rightarrow> a) # as, w'')))"

text \<open>\<open>replay_pipeline\<close> inside its budget; \<open>blocked\<close> is \<open>ACQUISITION_WORKERS_BLOCKED\<close>.\<close>

definition replay_body :: "processor \<Rightarrow> prober \<Rightarrow> penv \<Rightarrow> pworld \<Rightarrow> replay_summary \<times> pworld" where
  "replay_body exec probes env w =
     (case migrate_release_key_provider_format (pw_journal w) of (migrated, j) \<Rightarrow>
      case reconcile_legacy_ddl_downloading env (w\<lparr>pw_journal := j\<rparr>) of (legacy, w2) \<Rightarrow>
      case reconcile_existing_excluded_rows env w2 of (band, w3) \<Rightarrow>
      case reclassify_false_terminal_imports env w3 of (reopened, w4) \<Rightarrow>
      case reconstruct_anchors env w4 of (rebuilt, w5) \<Rightarrow>
      case replay_rows exec probes env (read_open (pw_journal w5)) w5 of (acts, w6) \<Rightarrow>
        (\<lparr>sm_key_migration = migrated, sm_legacy_ddl = (case legacy of Inl _ \<Rightarrow> 0 | Inr n \<Rightarrow> n), sm_band = Some band,
          sm_reopened = reopened, sm_reconstructed = rebuilt, sm_open = length (read_open (pw_journal w5)),
          sm_actions = acts\<rparr>, w6))"

definition replay_pipeline :: "bool \<Rightarrow> processor \<Rightarrow> prober \<Rightarrow> penv \<Rightarrow> pworld \<Rightarrow> replay_summary \<times> pworld" where
  "replay_pipeline blocked exec probes env w =
     (if blocked
      then (\<lparr>sm_key_migration = 0, sm_legacy_ddl = 0, sm_band = None, sm_reopened = 0, sm_reconstructed = 0,
             sm_open = 0, sm_actions = [''blocked'']\<rparr>, w)
      else case replay_body exec probes env (w\<lparr>pw_budget := Some 0\<rparr>) of
        (s, w') \<Rightarrow> (s, w'\<lparr>pw_budget := pw_budget w\<rparr>))"

end
