(* ===== verification/RecoveryProps.thy ===== *)
theory RecoveryProps
  imports Recovery PostProcessProps ReconcileProps
begin

text \<open>
  The properties of the start-up replay: what it may close, what it may queue, what it must leave alone, and what
  it does to the library and to the anchors of other rows.
\<close>

section \<open>What a record does to the row\<close>

lemma effect_stage:
  "row_effect e st (Some q) won y \<Longrightarrow> \<exists>r. y = Some r \<and> jr_stage r \<in> {jr_stage q, st, Manual_review}"
  by (auto elim!: effect_from_some)

lemma transition_stage:
  assumes "record_transition e None s key stage p fs when = Inr (won, t)" and "stage_of_string stage = Some st"
    and "js_row s key = Some q"
  shows "\<exists>r. js_row t key = Some r \<and> jr_stage r \<in> {jr_stage q, st, Manual_review}"
  using record_transition_effect [OF assms(1,2)] assms(3) effect_stage by metis

lemma failed_stage [simp]: "stage_of_string ''failed'' = Some Failed" "stage_of_string ''downloaded'' = Some Downloaded"
  "stage_of_string ''snatched'' = Some Snatched"
  by (simp_all add: stage_of_string_def)

lemma entry_transition_stage:
  assumes "entry_transition je None s en when = Inr (won, t)" and "js_row s (en_key en) = Some q"
  shows "\<exists>r. js_row t (en_key en) = Some r \<and> jr_stage r \<in> {jr_stage q, Failed, Manual_review}"
proof (cases "en_kind en")
  case (Failure resolved_as)
  then show ?thesis
    using assms transition_stage [OF _ failed_stage(1), of je s "en_key en"]
    by (fastforce simp: entry_transition_def mark_failed_def)
next
  case ManualReview
  then show ?thesis
    using assms transition_stage [OF _ manual_review_stage(1), of je s "en_key en"]
    by (fastforce simp: entry_transition_def mark_manual_review_def)
qed

lemma record_on_connection_transition:
  assumes "record_on_connection je e race en s = Inr (out, j, r)"
  obtains won where "entry_transition je race (fst s) en (re_now e) = Inr (won, j)"
proof (cases "entry_transition je race (fst s) en (re_now e)")
  case (Inl err)
  then show ?thesis using assms by (simp add: record_on_connection_def)
next
  case (Inr wj)
  moreover have "snd wj = j"
  proof (cases "reconcile_excluded e True (entry_args en) (snd s)")
    case None
    then show ?thesis using assms Inr by (cases wj) (simp add: record_on_connection_def)
  next
    case (Some sr)
    then show ?thesis using assms Inr by (cases wj, cases sr) (simp add: record_on_connection_def)
  qed
  ultimately show ?thesis using that by (cases wj) simp
qed

lemma record_own_stage:
  assumes "record_own env w en = Inr (ro, w')" and "jrow_of w (en_key en) = Some q"
  shows "\<exists>r. jrow_of w' (en_key en) = Some r \<and> jr_stage r \<in> {jr_stage q, Failed, Manual_review}"
proof -
  obtain j rr where x: "record_entry (jenv_of env w) (renv_of env) (pe_attempts env) None en (pw_journal w, pw_recon w) = Inr (ro, j, rr)"
    and w': "w' = w\<lparr>pw_journal := j, pw_recon := rr\<rparr>"
    using assms(1) by (auto simp: record_own_def split: sum.splits)
  have "record_on_connection (jenv_of env w) (renv_of env) None en (pw_journal w, pw_recon w) = Inr (ro, j, rr)"
    by (rule own_attempts_Inr [OF x [unfolded record_entry_def]])
  then obtain won where "entry_transition (jenv_of env w) None (fst (pw_journal w, pw_recon w)) en (re_now (renv_of env)) = Inr (won, j)"
    by (rule record_on_connection_transition)
  from entry_transition_stage [OF this] assms(2) w' show ?thesis by (simp add: jrow_of_def)
qed

lemma recorded_stage:
  assumes "recorded env en a w = (x, w')" and "jrow_of w (en_key en) = Some q"
  shows "\<exists>r. jrow_of w' (en_key en) = Some r \<and> jr_stage r \<in> {jr_stage q, Failed, Manual_review}"
  using assms record_own_stage [of env w en _ w' q] by (auto simp: recorded_def split: sum.splits)

lemma entry_keys [simp]:
  "en_key (row_entry kind key r reason p) = key" "en_key (named_review key r reason p name) = key"
  "en_key (gone_entry key r) = key" "en_key (failed_completion_entry key r p d) = key"
  by (simp_all add: row_entry_def blank_entry_def named_review_def gone_entry_def failed_completion_entry_def Let_def)

lemma transition_own_stage:
  assumes "transition_own env w key stage p fs = Inr (b, w')" and "stage_of_string stage = Some st" and "jrow_of w key = Some q"
  shows "\<exists>r. jrow_of w' key = Some r \<and> jr_stage r \<in> {jr_stage q, st, Manual_review}"
proof -
  obtain t where t: "record_transition (jenv_of env w) None (pw_journal w) key stage p fs (pe_now env) = Inr (b, t)"
    and w': "w' = w\<lparr>pw_journal := t\<rparr>"
    using transition_own_cases [OF assms(1)] by blast
  from transition_stage [OF t assms(2)] assms(3) w' show ?thesis by (simp add: jrow_of_def)
qed

lemma frame_rows [simp]:
  "jrow_of (w\<lparr>pw_ddl := x1\<rparr>) key = jrow_of w key" "jrow_of (w\<lparr>pw_stuck := x2\<rparr>) key = jrow_of w key"
  "jrow_of (enqueue_pp item w) key = jrow_of w key" "jrow_of (release_sab_history nzo f w) key = jrow_of w key"
  "jrow_of (w\<lparr>pw_torrent_queue := x3\<rparr>) key = jrow_of w key" "jrow_of (w\<lparr>pw_nzb_queue := x4\<rparr>) key = jrow_of w key"
  by (simp_all add: jrow_of_def enqueue_pp_def release_sab_history_def)

section \<open>Stages a classified row can reach\<close>

definition parked_or_kept :: "string \<Rightarrow> stage \<Rightarrow> pworld \<Rightarrow> bool" where
  "parked_or_kept key st w \<longleftrightarrow> (\<exists>r. jrow_of w key = Some r \<and> jr_stage r \<in> {st, Downloaded, Failed, Manual_review})"

lemma recorded_parks:
  "recorded env en a w = (x, w') \<Longrightarrow> jrow_of w (en_key en) = Some q \<Longrightarrow> parked_or_kept (en_key en) (jr_stage q) w'"
  using recorded_stage [of env en a w x w' q] by (auto simp: parked_or_kept_def)

lemma gone_stage:
  assumes "apply_gone env key r w = (x, w')" and "jrow_of w key = Some q"
  shows "parked_or_kept key (jr_stage q) w'"
proof -
  obtain w1 where r: "recorded env (gone_entry key r) () w1 = (x, w')" and "jrow_of w1 key = jrow_of w key"
    using assms(1) by (auto simp: apply_gone_def Let_def split: if_splits)
  then show ?thesis using recorded_parks [OF r] assms(2) by simp
qed

lemma complete_stage:
  assumes "resolve_complete env key r p d w = (x, w')" and "jrow_of w key = Some q"
  shows "parked_or_kept key (jr_stage q) w'"
proof (cases "validate_postprocess_item (pe_fs env) (pe_conf env) (configured_roots (pe_conf env)) True
    (VDict (pp_item_from_row key r (VDict (merge_completion_evidence p d))))")
  case (Inl e)
  then have "recorded env (named_review key r ''invalid_recovered_postprocess_command:PostProcessCommandError''
      (VDict (merge_completion_evidence p d)) (nzb_name_of r (VDict (merge_completion_evidence p d)))) ''complete-manual-review'' w = (x, w')"
    using assms(1) by (simp add: resolve_complete_def Let_def)
  from recorded_parks [OF this] assms(2) show ?thesis by simp
next
  case (Inr item)
  show ?thesis
  proof (cases "transition_own env w key ''downloaded'' (VDict (merge_completion_evidence p d))
      [(CIssueid, jr_issueid r), (CProvider, jr_provider r), (CDownloader_type, jr_downloader_type r)]")
    case (Inl e)
    with assms Inr show ?thesis by (auto simp: resolve_complete_def Let_def parked_or_kept_def)
  next
    case t: (Inr bw)
    obtain b u where bu: "bw = (b, u)" by (cases bw)
    have "jrow_of w' key = jrow_of u key" using assms(1) Inr t bu by (auto simp: resolve_complete_def Let_def)
    then show ?thesis
      using transition_own_stage [OF t [unfolded bu] failed_stage(2) assms(2)] by (auto simp: parked_or_kept_def)
  qed
qed

lemma still_stage:
  assumes "resolve_still env key r p w = (x, w')" and "jrow_of w key = Some q"
  shows "parked_or_kept key (jr_stage q) w'"
proof (cases "resume_kind_of r (as_dict p)")
  case RDdl
  obtain en a y u where r: "recorded env en () w = (y, u)" and "en_key en = key" and "jrow_of w' key = jrow_of u key"
    using assms(1) RDdl
    by (auto simp: resolve_still_def Let_def row_entry_def blank_entry_def split: prod.splits sum.splits)
  then show ?thesis using recorded_parks [OF r] assms(2) by (simp add: parked_or_kept_def)
qed (use assms in \<open>auto simp: resolve_still_def Let_def parked_or_kept_def\<close>)

lemma unknown_stage:
  assumes "resolve_unknown env key r p dwp w = (x, w')" and "jrow_of w key = Some q"
  shows "parked_or_kept key (jr_stage q) w'"
proof (cases dwp)
  case True
  then have "recorded env (named_review key r ''done_signal_without_library_placement'' p (nzb_name_of r p))
      ''done-unplaced-manual-review'' w = (x, w')" using assms(1) by (simp add: resolve_unknown_def)
  from recorded_parks [OF this] assms(2) show ?thesis by simp
qed (use assms in \<open>auto simp: resolve_unknown_def parked_or_kept_def\<close>)

lemma classified_stage:
  assumes "resolve_classified env key r p d dwp w = (x, w')" and "jrow_of w key = Some q"
  shows "parked_or_kept key (jr_stage q) w'"
proof -
  consider (failed) "dt_raw d = Some ''failed_no_auto_handling''"
    | (unplaced) "dt_raw d = Some ''unplaced''" "dt_raw d \<noteq> Some ''failed_no_auto_handling''"
    | (verdict) "dt_raw d \<notin> {Some ''unplaced'', Some ''failed_no_auto_handling''}" by blast
  then show ?thesis
  proof cases
    case failed
    obtain y u where r: "recorded env (failed_completion_entry key r p d) () w = (y, u)" by force
    then have "jrow_of w' key = jrow_of u key"
      using assms(1) failed by (cases y) (auto simp: resolve_classified_def)
    then show ?thesis using recorded_parks [OF r] assms(2) by (simp add: parked_or_kept_def)
  next
    case unplaced
    let ?m = "VDict (merge_completion_evidence p d)"
    have "recorded env (named_review key r ''done_signal_without_library_placement'' ?m (nzb_name_of r ?m))
        ''file-not-found-manual-review'' w = (x, w')"
      using assms(1) unplaced by (simp add: resolve_classified_def Let_def)
    from recorded_parks [OF this] assms(2) show ?thesis by simp
  next
    case verdict
    show ?thesis
    proof (cases "dt_verdict d")
      case GONE
      obtain y u where g: "apply_gone env key r w = (y, u)" by force
      then have "w' = u" using assms(1) verdict GONE by (cases y) (auto simp: resolve_classified_def)
      then show ?thesis using gone_stage [OF g assms(2)] by simp
    next
      case UNKNOWN
      then have "resolve_unknown env key r p dwp w = (x, w')" using assms(1) verdict by (simp add: resolve_classified_def)
      then show ?thesis using unknown_stage assms(2) by blast
    next
      case COMPLETE
      then have "resolve_complete env key r p d w = (x, w')" using assms(1) verdict by (simp add: resolve_classified_def)
      then show ?thesis using complete_stage assms(2) by blast
    next
      case STILL
      then have "resolve_still env key r p w = (x, w')" using assms(1) verdict by (simp add: resolve_classified_def)
      then show ?thesis using still_stage assms(2) by blast
    qed
  qed
qed

section \<open>Closing\<close>

text \<open>C28: The replay never takes a finished download for a finished import: a row that was reserved,
  snatched or downloaded ends a pass as post-processed only if the journal, the library or nzblog says done and the
  library itself shows the placement.\<close>

theorem closed_only_with_placement:
  assumes "jrow_of w (fst snap) = Some r" and "jr_stage r \<in> {Reserved, Snatched, Downloaded}"
    and "resolve_row exec probes env snap w = (x, w')"
    and "jrow_of w' (fst snap) = Some q" and "jr_stage q = Post_processed"
  shows "x = Inr ''done-check'' \<and> has_done_signal (cdb_of env w) r
    \<and> has_library_placement (cdb_of env w) r (load_payload (jr_payload r))"
proof (rule ccontr)
  assume neg: "\<not> ?thesis"
  let ?key = "fst snap"
  have nt: "\<not> is_terminal (jr_stage r)" "jr_stage r \<notin> {Moved, Post_processing}"
    using assms(2) by (auto simp: is_terminal_def TERMINAL_STAGES_def)
  have "parked_or_kept ?key (jr_stage r) w'"
  proof (cases "STAGE_RANK (jr_stage (snd snap)) < STAGE_RANK (jr_stage r)")
    case True
    then show ?thesis using assms(1,3) nt by (auto simp: resolve_row_def parked_or_kept_def)
  next
    case nadv: False
    consider (res) "jr_stage r = Reserved" | (down) "jr_stage r = Downloaded" | (sna) "jr_stage r = Snatched"
      using assms(2) by blast
    then show ?thesis
    proof cases
      case res
      then have "recorded env ((row_entry ManualReview ?key r ''reserved_without_persisted_acceptance'' (load_payload (jr_payload r)))
          \<lparr>en_dtype := jr_downloader_type r\<rparr>) ''reserved-manual-review'' w = (x, w')"
        using assms(1,3) nt nadv by (simp add: resolve_row_def)
      from recorded_parks [OF this] assms(1) show ?thesis by (simp add: row_entry_def blank_entry_def)
    next
      case down
      then have d: "resolve_downloaded env ?key r w = (x, w')" using assms(1,3) nt nadv by (simp add: resolve_row_def)
      show ?thesis
      proof (cases "validate_postprocess_item (pe_fs env) (pe_conf env) (configured_roots (pe_conf env)) True
          (VDict (pp_item_from_row ?key r (load_payload (jr_payload r))))")
        case (Inl e)
        then have "recorded env (row_entry ManualReview ?key r ''downloaded_invalid_artifact_command:PostProcessCommandError''
            (load_payload (jr_payload r))) ''downloaded-manual-review'' w = (x, w')"
          using d by (simp add: resolve_downloaded_def)
        from recorded_parks [OF this] assms(1) show ?thesis by simp
      next
        case (Inr it)
        then show ?thesis using d assms(1) by (auto simp: resolve_downloaded_def parked_or_kept_def)
      qed
    next
      case sna
      then have s: "resolve_snatched probes env ?key r w = (x, w')" using assms(1,3) nt nadv by (simp add: resolve_row_def)
      show ?thesis
      proof (cases "has_done_signal (cdb_of env w) r \<and> has_library_placement (cdb_of env w) r (load_payload (jr_payload r))")
        case True
        then have "w' = w" using s neg by (auto simp: resolve_snatched_def Let_def split: sum.splits prod.splits)
        then show ?thesis using assms(1) by (auto simp: parked_or_kept_def)
      next
        case False
        then have "resolve_classified env ?key r (load_payload (jr_payload r))
            (classify_details (probes (cdb_of env w)) (cdb_of env w) r (load_payload (jr_payload r)))
            (has_done_signal (cdb_of env w) r) w = (x, w')"
          using s by (simp add: resolve_snatched_def Let_def split: if_splits)
        then show ?thesis using classified_stage assms(1) by blast
      qed
    qed
  qed
  then show False using assms(2,4,5) by (auto simp: parked_or_kept_def)
qed

section \<open>What a pass may queue\<close>

lemma recorded_queue [simp]: "recorded env en a w = (x, w') \<Longrightarrow> pw_pp_queue w' = pw_pp_queue w"
  by (auto simp: recorded_def record_own_def split: sum.splits prod.splits)

lemma transition_queue: "transition_own env w key stage p fs = Inr (b, w') \<Longrightarrow> pw_pp_queue w' = pw_pp_queue w"
  by (auto simp: transition_own_def split: sum.splits)

lemma gone_queue: "apply_gone env key r w = (x, w') \<Longrightarrow> pw_pp_queue w' = pw_pp_queue w"
  by (auto simp: apply_gone_def Let_def dest!: recorded_queue split: if_splits)

lemma still_queue:
  assumes "resolve_still env key r p w = (x, w')"
  shows "pw_pp_queue w' = pw_pp_queue w"
  using assms
  by (auto simp: resolve_still_def Let_def dest!: recorded_queue split: resume_kind.splits prod.splits sum.splits if_splits)

lemma unknown_queue: "resolve_unknown env key r p b w = (x, w') \<Longrightarrow> pw_pp_queue w' = pw_pp_queue w"
  by (auto simp: resolve_unknown_def dest: recorded_queue split: if_splits)

lemma sab_frame [simp]: "pw_pp_queue (release_sab_history nzo f w) = pw_pp_queue w"
  by (simp add: release_sab_history_def)

text \<open>A command built from the row of a key and accepted carries that key.\<close>

lemma validated_key:
  assumes "validate_postprocess_item fs c roots req (VDict d) = Inr cmd" and "pv_get d ''journal_release_key'' = VStr k"
  shows "pv_get cmd ''journal_release_key'' = VStr k"
proof -
  obtain d0 name folder where d0: "VDict d = VDict d0"
    and k: "check_command (store_folder folder (dict_set ''nzb_name'' (VStr name) d0)) = Inr cmd"
    using validate_Inr [OF assms(1)] by metis
  have "pv_get (store_folder folder (dict_set ''nzb_name'' (VStr name) d0)) ''journal_release_key'' = VStr k"
    using assms(2) d0 by (simp add: store_folder_def Let_def pv_get_set)
  with k show ?thesis by (auto simp: check_command_def Let_def pv_get_set split: option.splits if_splits)
qed

lemma item_key [simp]: "pv_get (pp_item_from_row key r p) ''journal_release_key'' = VStr key"
  by (simp add: pp_item_from_row_def Let_def pv_get_def dict_get_def)

definition queues_command :: "penv \<Rightarrow> string \<Rightarrow> pworld \<Rightarrow> pworld \<Rightarrow> bool" where
  "queues_command env key w w' \<longleftrightarrow>
     (\<exists>item raw. pw_pp_queue w' = pw_pp_queue w @ [item] \<and> pv_get item ''journal_release_key'' = VStr key
        \<and> validate_postprocess_item (pe_fs env) (pe_conf env) (configured_roots (pe_conf env)) True raw = Inr item)"

lemma complete_queue:
  assumes "resolve_complete env key r p d w = (x, w')" and "pw_pp_queue w' \<noteq> pw_pp_queue w"
  shows "queues_command env key w w'"
proof -
  let ?raw = "VDict (pp_item_from_row key r (VDict (merge_completion_evidence p d)))"
  let ?v = "validate_postprocess_item (pe_fs env) (pe_conf env) (configured_roots (pe_conf env)) True ?raw"
  show ?thesis
  proof (cases ?v)
    case (Inl e)
    then show ?thesis using assms by (auto simp: resolve_complete_def Let_def dest: recorded_queue)
  next
    case (Inr item)
    then have "pw_pp_queue w' = pw_pp_queue w @ [item]"
      using assms by (auto simp: resolve_complete_def Let_def enqueue_pp_def dest: transition_queue split: sum.splits prod.splits)
    then show ?thesis using Inr validated_key [OF Inr] by (auto simp: queues_command_def)
  qed
qed

lemma downloaded_queue:
  assumes "resolve_downloaded env key r w = (x, w')" and "pw_pp_queue w' \<noteq> pw_pp_queue w"
  shows "queues_command env key w w'"
proof -
  let ?raw = "VDict (pp_item_from_row key r (load_payload (jr_payload r)))"
  show ?thesis
  proof (cases "validate_postprocess_item (pe_fs env) (pe_conf env) (configured_roots (pe_conf env)) True ?raw")
    case (Inl e)
    then show ?thesis using assms by (auto simp: resolve_downloaded_def Let_def dest: recorded_queue)
  next
    case (Inr item)
    then show ?thesis
      using assms validated_key [OF Inr] by (auto simp: resolve_downloaded_def Let_def queues_command_def enqueue_pp_def)
  qed
qed

lemma classified_queue:
  assumes "resolve_classified env key r p d b w = (x, w')" and "pw_pp_queue w' \<noteq> pw_pp_queue w"
  shows "queues_command env key w w' \<and> dt_verdict d = COMPLETE"
  using assms complete_queue [of env key r p d w x w']
  by (auto simp: resolve_classified_def Let_def dest!: recorded_queue gone_queue still_queue unknown_queue
      split: if_splits verdict.splits prod.splits sum.splits)


section \<open>Outages\<close>

lemma silent_details:
  assumes "outage c" and "resolve_downloader r p \<notin> {''ddl'', ''DDL''}" and "\<not> has_done_signal d r"
  shows "dt_verdict (classify_details (default_probes c d hist) d r p) = UNKNOWN"
    and "dt_raw (classify_details (default_probes c d hist) d r p) \<notin> {Some ''failed_no_auto_handling'', Some ''unplaced''}"
proof -
  let ?cd = "classify_details (default_probes c d hist) d r p"
  have "dt_verdict ?cd = UNKNOWN \<and> dt_raw ?cd \<notin> {Some ''failed_no_auto_handling'', Some ''unplaced''}"
  proof (cases "default_probes c d hist (resolve_downloader r p)")
    case None
    then show ?thesis by (simp add: classify_details_def empty_details_def)
  next
    case (Some probe)
    from outage_probe [OF assms(1) Some assms(2), of r] Some assms(3) show ?thesis
      by (auto simp: classify_details_def probe_evidence_def verdict_of_def)
  qed
  then show "dt_verdict ?cd = UNKNOWN" "dt_raw ?cd \<notin> {Some ''failed_no_auto_handling'', Some ''unplaced''}" by blast+
qed

text \<open>An outage at start-up changes nothing: while no torrent or NZB client answers, a pass over a
  snatched row that is no direct download and has no done-signal ends in "unknown-unchanged" and leaves journal,
  library, anchors and queues exactly as they were, so the next start can decide.\<close>

theorem outage_leaves_row_alone:
  assumes "outage c" and "jrow_of w (fst snap) = Some r" and "jr_stage r = Snatched"
    and "\<not> STAGE_RANK (jr_stage (snd snap)) < STAGE_RANK Snatched"
    and "resolve_downloader r (load_payload (jr_payload r)) \<notin> {''ddl'', ''DDL''}"
    and "\<not> has_done_signal (cdb_of env w) r"
  shows "resolve_row exec (\<lambda>d. default_probes c d hist) env snap w = (Inr ''unknown-unchanged'', w)"
proof -
  let ?p = "load_payload (jr_payload r)"
  have "resolve_row exec (\<lambda>d. default_probes c d hist) env snap w
      = resolve_snatched (\<lambda>d. default_probes c d hist) env (fst snap) r w"
    using assms(2-4) by (simp add: resolve_row_def is_terminal_def TERMINAL_STAGES_def)
  also have "\<dots> = resolve_classified env (fst snap) r ?p
      (classify_details (default_probes c (cdb_of env w) hist) (cdb_of env w) r ?p) False w"
    using assms(6) by (simp add: resolve_snatched_def Let_def)
  also have "\<dots> = (Inr ''unknown-unchanged'', w)"
    using silent_details [OF assms(1,5,6)] by (auto simp: resolve_classified_def resolve_unknown_def)
  finally show ?thesis .
qed

section \<open>Instances\<close>

lemma close_wins_bare:
  assumes "journal_wf s" and "js_row s key = Some r" and "\<not> is_terminal (jr_stage r)" and "jr_stage r < Post_processed"
  shows "\<exists>t q. record_transition e None s key ''post_processed'' VNone [(CIssueid, jr_issueid r), (CProvider, jr_provider r)] when
      = Inr (True, t) \<and> js_row t key = Some q \<and> jr_stage q = Post_processed"
proof -
  let ?fs = "[(CIssueid, jr_issueid r), (CProvider, jr_provider r)]"
  have sd: "sanitize_payload loads VNone = None" for loads by (simp add: sanitize_payload_def)
  have "\<not> col_clash ?fs r c" if "c \<in> {CIssueid, CProvider, CDownloader_type, CHash}" for c
    using that by (auto simp: col_clash_def field_get_def)
  then have "field_conflict b ?fs r = None" for b by (simp add: field_conflict_def find_None_iff)
  then have nc: "transition_conflict e r Post_processed ?fs None = None"
    by (simp add: transition_conflict_def merge_payload_def)
  have "STAGE_RANK (jr_stage r) < STAGE_RANK Post_processed" using assms(4) by (simp only: STAGE_RANK_less)
  then have rk: "jr_rank r < STAGE_RANK Post_processed" using journal_wfD [OF assms(1,2)] by simp
  then have ne: "jr_rank r \<noteq> STAGE_RANK Post_processed" by simp
  obtain t q where "advance_or_reset e s key r Post_processed when ?fs
      (dump_payload (Some (fst (merge_payload (transition_payload e r Post_processed) None)))) = Inr (True, t)"
      "js_row t key = Some q" "jr_stage q = Post_processed"
    using advance_wins [OF assms(2,3) rk] by blast
  then have "transition_existing e s key r Post_processed ?fs None when = Inr (True, t)"
    using nc ne by (simp add: transition_existing_def Let_def)
  then show ?thesis
    using assms(2) sd \<open>js_row t key = Some q\<close> \<open>jr_stage q = Post_processed\<close>
    by (auto simp: record_transition_def apply_transition_def Let_def js_row_def)
qed

definition demo_open :: "stage \<Rightarrow> jrow" where
  "demo_open st = (demo_row st)\<lparr>jr_payload := PJson (VDict (demo_payload 0))\<rparr>"

definition demo_snap :: "stage \<Rightarrow> string \<times> jrow" where
  "demo_snap st = (''42|nzbgeek'', demo_open st)"

lemma demo_snap_row: "jrow_of (demo_world st status 0) (fst (demo_snap st)) = Some (demo_open st)"
  by (simp add: demo_world_row demo_open_def demo_snap_def)

lemma demo_open_stage [simp]: "jr_stage (demo_open st) = st"
  by (simp add: demo_open_def)

definition demo_replay :: "stage \<Rightarrow> string \<Rightarrow> string act" where
  "demo_replay st status = resolve_row stopping (\<lambda>_. answering ''complete'') demo_penv (demo_snap st) (demo_world st status 0)"

lemma demo_env [simp]: "own_attempts 5 (pe_attempts demo_penv) body = body"
  by (rule own_healthy [OF demo_healthy])

lemma demo_closed: "map_option jr_stage (jrow_of (snd (demo_replay Snatched ''Downloaded'')) ''42|nzbgeek'') = Some Post_processed"
proof -
  let ?w = "demo_world Snatched ''Downloaded'' 0" and ?r = "demo_open Snatched"
  have dn: "has_done_signal (cdb_of demo_penv ?w) ?r" "has_library_placement (cdb_of demo_penv ?w) ?r (load_payload (jr_payload ?r))"
    by code_simp+
  have row: "js_row (pw_journal ?w) ''42|nzbgeek'' = Some ?r"
    using demo_snap_row [of Snatched "''Downloaded''"] by (simp add: jrow_of_def demo_snap_def)
  have nt: "\<not> is_terminal (jr_stage ?r)" "jr_stage ?r < Post_processed"
    by (simp_all add: is_terminal_def TERMINAL_STAGES_def less_stage_def)
  obtain t q where t: "record_transition (jenv_of demo_penv ?w) None (pw_journal ?w) ''42|nzbgeek'' ''post_processed'' VNone
      [(CIssueid, jr_issueid ?r), (CProvider, jr_provider ?r)] (pe_now demo_penv) = Inr (True, t)"
    "js_row t ''42|nzbgeek'' = Some q" "jr_stage q = Post_processed"
    using close_wins_bare [OF demo_world_wf row nt, of "jenv_of demo_penv ?w" "pe_now demo_penv"] by blast
  have "demo_replay Snatched ''Downloaded'' = resolve_snatched (\<lambda>_. answering ''complete'') demo_penv ''42|nzbgeek'' ?r ?w"
    using demo_snap_row [of Snatched "''Downloaded''"]
    by (simp add: demo_replay_def resolve_row_def is_terminal_def TERMINAL_STAGES_def) (simp add: demo_snap_def)
  then have "snd (demo_replay Snatched ''Downloaded'') = ?w\<lparr>pw_journal := t\<rparr>"
    using dn t(1) by (simp add: resolve_snatched_def transition_own_def record_transition_own_def)
  then show ?thesis using t(2,3) by (simp add: jrow_of_def)
qed

lemma demo_classified:
  "classify_details (answering ''complete'') d r p = (empty_details COMPLETE)\<lparr>dt_raw := Some ''complete''\<rparr>"
  by (simp add: classify_details_def answering_def probe_evidence_def verdict_of_def empty_details_def)

lemma demo_queued: "length (pw_pp_queue (snd (demo_replay Snatched ''Snatched''))) = 1"
proof -
  let ?w = "demo_world Snatched ''Snatched'' 0" and ?r = "demo_open Snatched" and ?c = "(empty_details COMPLETE)\<lparr>dt_raw := Some ''complete''\<rparr>"
  let ?m = "merge_completion_evidence (load_payload (jr_payload ?r)) ?c"
  have nd: "\<not> has_done_signal (cdb_of demo_penv ?w) ?r" by code_simp
  have v: "\<exists>it. validate_postprocess_item (pe_fs demo_penv) (pe_conf demo_penv) (configured_roots (pe_conf demo_penv)) True
      (VDict (pp_item_from_row ''42|nzbgeek'' ?r (VDict ?m))) = Inr it"
    by (rule exI, code_simp)
  have nr: "Downloaded \<notin> set RESNATCH_STAGES" by (simp add: RESNATCH_STAGES_def)
  obtain b t where t: "record_transition (jenv_of demo_penv ?w) None (pw_journal ?w) ''42|nzbgeek'' ''downloaded'' (VDict ?m)
      [(CIssueid, jr_issueid ?r), (CProvider, jr_provider ?r), (CDownloader_type, jr_downloader_type ?r)] (pe_now demo_penv) = Inr (b, t)"
    using forward_never_raises [OF failed_stage(2) nr] by blast
  have "demo_replay Snatched ''Snatched'' = resolve_snatched (\<lambda>_. answering ''complete'') demo_penv ''42|nzbgeek'' ?r ?w"
    using demo_snap_row [of Snatched "''Snatched''"]
    by (simp add: demo_replay_def resolve_row_def is_terminal_def TERMINAL_STAGES_def) (simp add: demo_snap_def)
  also have "\<dots> = resolve_complete demo_penv ''42|nzbgeek'' ?r (load_payload (jr_payload ?r)) ?c ?w"
    using nd by (simp add: resolve_snatched_def demo_classified resolve_classified_def Let_def empty_details_def)
  finally have "demo_replay Snatched ''Snatched'' = resolve_complete demo_penv ''42|nzbgeek'' ?r (load_payload (jr_payload ?r)) ?c ?w" .
  moreover have "pw_pp_queue ?w = []" by (simp add: demo_world_def)
  ultimately show ?thesis
    using v t by (auto simp: resolve_complete_def Let_def transition_own_def record_transition_own_def enqueue_pp_def)
qed

theorem closed_only_with_placement_witness:
  "has_library_placement (cdb_of demo_penv (demo_world Snatched ''Downloaded'' 0)) (demo_open Snatched) (VDict (demo_payload 0))"
proof -
  obtain q where q: "jrow_of (snd (demo_replay Snatched ''Downloaded'')) (fst (demo_snap Snatched)) = Some q" "jr_stage q = Post_processed"
    using demo_closed by (auto simp: demo_snap_def)
  have x: "resolve_row stopping (\<lambda>_. answering ''complete'') demo_penv (demo_snap Snatched) (demo_world Snatched ''Downloaded'' 0)
      = (fst (demo_replay Snatched ''Downloaded''), snd (demo_replay Snatched ''Downloaded''))"
    by (simp add: demo_replay_def)
  have st: "jr_stage (demo_open Snatched) \<in> {Reserved, Snatched, Downloaded}" by simp
  have l: "load_payload (jr_payload (demo_open Snatched)) = VDict (demo_payload 0)" by (simp add: demo_open_def)
  from closed_only_with_placement [OF demo_snap_row st x q] show ?thesis unfolding l by (elim conjE)
qed


theorem outage_leaves_row_alone_witness:
  "resolve_row stopping (\<lambda>d. default_probes dead_clients d False) demo_penv (demo_snap Snatched)
     ((demo_world Snatched ''Snatched'' 0)\<lparr>pw_snatched := []\<rparr>)
   = (Inr ''unknown-unchanged'', (demo_world Snatched ''Snatched'' 0)\<lparr>pw_snatched := []\<rparr>)"
proof -
  have w: "(demo_world Snatched ''Snatched'' 0)\<lparr>pw_snatched := []\<rparr> = demo_world Snatched ''Snatched'' 0"
    by (simp add: demo_world_def)
  have o: "outage dead_clients" by (simp add: outage_def dead_clients_def)
  have nr: "\<not> STAGE_RANK (jr_stage (snd (demo_snap Snatched))) < STAGE_RANK Snatched" by (simp add: demo_snap_def)
  have d: "resolve_downloader (demo_open Snatched) (load_payload (jr_payload (demo_open Snatched))) \<notin> {''ddl'', ''DDL''}"
    by code_simp
  have n: "\<not> has_done_signal (cdb_of demo_penv (demo_world Snatched ''Snatched'' 0)) (demo_open Snatched)" by code_simp
  show ?thesis
    unfolding w by (rule outage_leaves_row_alone [OF o demo_snap_row demo_open_stage nr d n])
qed

end
