(* ===== verification/BandProps.thy ===== *)
theory BandProps
  imports Recovery PostProcessProps ReconcileProps
begin

text \<open>
  The pass over old unresolved rows that every start runs before it replays the open ones: what it writes to the
  library, what it leaves alone, and that it does so again at the next start.
\<close>

section \<open>Rows that can only become Wanted\<close>

text \<open>The only change the pass makes to a library row: its status becomes Wanted.\<close>

definition row_wanted :: "issue_row \<Rightarrow> issue_row \<Rightarrow> bool" where
  "row_wanted a b \<longleftrightarrow>
     b = a \<or> (is_id b = is_id a \<and> is_comicid b = is_comicid a \<and> is_deleted b = is_deleted a
              \<and> is_location b = is_location a \<and> is_status b = Some ''Wanted'')"

definition only_wants :: "olib \<Rightarrow> olib \<Rightarrow> bool" where
  "only_wants l l' \<longleftrightarrow> list_all2 row_wanted (ol_issues l) (ol_issues l') \<and> list_all2 row_wanted (ol_annuals l) (ol_annuals l')
     \<and> list_all2 row_wanted (ol_storyarcs l) (ol_storyarcs l')"

lemma row_wanted_refl [simp]: "row_wanted a a"
  by (simp add: row_wanted_def)

lemma row_wanted_trans: "row_wanted a b \<Longrightarrow> row_wanted b c \<Longrightarrow> row_wanted a c"
  by (auto simp: row_wanted_def)

lemma only_wants_refl [simp]: "only_wants l l"
  by (simp add: only_wants_def list_all2_refl)

lemma only_wants_trans: "only_wants l m \<Longrightarrow> only_wants m n \<Longrightarrow> only_wants l n"
  unfolding only_wants_def using list_all2_trans [of row_wanted row_wanted row_wanted] row_wanted_trans by meson

lemma wanted_keys: "list_all2 row_wanted xs ys \<Longrightarrow>
    map (\<lambda>r. (is_id r, is_comicid r, is_deleted r)) ys = map (\<lambda>r. (is_id r, is_comicid r, is_deleted r)) xs"
  by (induction rule: list_all2_induct) (auto simp: row_wanted_def)

lemma only_wants_keys: "only_wants l l' \<Longrightarrow> same_row_keys l l'"
  by (simp add: only_wants_def same_row_keys_def wanted_keys Let_def)

lemma wanted_row_stays: "list_all2 row_wanted xs ys \<Longrightarrow>
    list_ex (\<lambda>r. is_id r = i \<and> is_status r = Some ''Wanted'') xs \<Longrightarrow> list_ex (\<lambda>r. is_id r = i \<and> is_status r = Some ''Wanted'') ys"
  by (induction rule: list_all2_induct) (auto simp: row_wanted_def)

lemma only_wants_written: "only_wants l l' \<Longrightarrow> row_written l i ''Wanted'' \<Longrightarrow> row_written l' i ''Wanted''"
  unfolding only_wants_def row_written_def using wanted_row_stays by (auto simp: list_ex_append)

lemma wanted_first: "list_all2 row_wanted xs ys \<Longrightarrow>
    list_all2 row_wanted (first_with_id i xs) (first_with_id i ys)"
  by (induction rule: list_all2_induct) (auto simp: row_wanted_def first_with_id_def)

lemma wanted_map: "(\<And>r. row_wanted r (f r)) \<Longrightarrow> list_all2 row_wanted xs (map (\<lambda>r. if P r then f r else r) xs)"
  by (induction xs) auto

lemma update_only_wants:
  assumes "update_obligation_intent l i RECONCILE_AUDIT_IDENTITY ''wanted'' entity = Inr (kind, l')"
  shows "only_wants l l'"
proof (cases "resolve_obligation_target l i entity")
  case None
  with assms show ?thesis by (simp add: update_obligation_intent_def)
next
  case (Some tk)
  obtain t k where tk: "tk = (t, k)" by (cases tk)
  have f: "row_wanted r (r\<lparr>is_intent := Some iv, is_status := Some ''Wanted''\<rparr>)" "row_wanted r (r\<lparr>is_status := Some ''Wanted''\<rparr>)" for r iv
    by (simp_all add: row_wanted_def)
  have refl: "list_all2 row_wanted xs xs" for xs by (simp add: list_all2_refl)
  show ?thesis
    using assms
    by (cases t) (auto simp: update_obligation_intent_def Some tk wanted_values Let_def write_rows_def only_wants_def f refl
        intro!: wanted_map wanted_map [where P = "\<lambda>r. is_id r = i"])
qed

lemma update_wanted_returns: "\<exists>kind l'. update_obligation_intent l i RECONCILE_AUDIT_IDENTITY ''wanted'' en = Inr (kind, l')"
proof (cases "resolve_obligation_target l i en")
  case None
  then show ?thesis by (simp add: update_obligation_intent_def)
next
  case (Some tk)
  then show ?thesis
    by (cases tk, cases "fst tk") (simp_all add: update_obligation_intent_def wanted_values [simplified] write_rows_def Let_def)
qed

lemma rewant_step_only_wants:
  assumes "rewant_step e strict a ob i s = Some (st, s')"
  shows "only_wants (rs_lib s) (rs_lib s')"
  using assms
  by (auto simp: rewant_step_def rewant_issue_def dest: update_only_wants split: if_splits option.splits sum.splits)

lemma reconcile_only_wants:
  assumes "reconcile_excluded e strict a s = Some (st, s')"
  shows "only_wants (rs_lib s) (rs_lib s')"
  using assms
proof (cases rule: reconcile_cases)
  case (owes ob s1)
  have "rs_lib s1 = rs_lib s" using owes(3) by (auto dest: blocklist_step_lib split: if_splits)
  then show ?thesis using rewant_step_only_wants [OF owes(4)] by simp
qed simp

text \<open>Outside a strict call, an obligation whose target exists is paid whenever the library can be written.\<close>

lemma reconcile_pays:
  assumes "re_rewant_up e" and "reconciliation_for (ra_reason a) = Some ob" and "ob \<noteq> Owed_none"
    and "recon_issue_id (re_loads e) a = Some i" and "i \<noteq> []"
    and "resolve_obligation_target (rs_lib s) i (opt_pv (entity_type_from_payload (re_loads e) (ra_payload a))) \<noteq> None"
  shows "\<exists>st s'. reconcile_excluded e False a s = Some (st, s') \<and> row_written (rs_lib s') i ''Wanted''"
proof -
  let ?en = "opt_pv (entity_type_from_payload (re_loads e) (ra_payload a))"
  have nr: "needs_rewant ob" using assms(3) by (cases ob) (simp_all add: needs_rewant_def)
  have "\<exists>s1. (if ob = Blocklist_and_rewant then blocklist_step e False a (Some i) s else Some s) = Some s1"
    by (cases "release_identity (re_loads e) a") (simp add: blocklist_step_def)
  then obtain s1 where s1: "(if ob = Blocklist_and_rewant then blocklist_step e False a (Some i) s else Some s) = Some s1"
    by blast
  then have l1: "rs_lib s1 = rs_lib s" by (auto dest: blocklist_step_lib split: if_splits)
  obtain kind l' where u: "update_obligation_intent (rs_lib s1) i RECONCILE_AUDIT_IDENTITY ''wanted'' ?en = Inr (kind, l')"
    using update_wanted_returns by blast
  have k: "kind \<noteq> None" using update_obligation_result(2) [OF u] assms(6) l1 by simp
  then have w: "row_written l' i ''Wanted''" using update_obligation_written u wanted_values by blast
  have "rewant_issue e i (ra_payload a) s1 = Some (True, s1\<lparr>rs_lib := l'\<rparr>)"
    using u k assms(1) by (simp add: rewant_issue_def)
  then have "rewant_step e False a ob (Some i) s1 = Some (done_status ob, s1\<lparr>rs_lib := l'\<rparr>)"
    using nr assms(5) by (simp add: rewant_step_def)
  then have "reconcile_excluded e False a s = Some (done_status ob, s1\<lparr>rs_lib := l'\<rparr>)"
    using assms(2-4) s1 by (simp add: reconcile_excluded_def)
  with w show ?thesis by auto
qed

section \<open>One step of the pass\<close>

lemma not_fulfilled_stays:
  assumes "only_wants (rs_lib (pw_recon w)) (rs_lib (pw_recon w'))" and "\<not> obligation_already_fulfilled env w r"
  shows "\<not> obligation_already_fulfilled env w' r"
proof -
  have "list_all2 row_wanted (first_with_id i (ol_issues (rs_lib (pw_recon w)))) (first_with_id i (ol_issues (rs_lib (pw_recon w'))))" for i
    using assms(1) wanted_first by (simp add: only_wants_def)
  from this [of "the (jr_issueid r)"] assms(2) show ?thesis
    by (auto simp: obligation_already_fulfilled_def row_wanted_def list_all2_Cons1 split: list.splits if_splits option.splits)
qed

text \<open>A step that closes a row writes no library row and only this row of the journal.\<close>

lemma close_frame:
  assumes "close_fulfilled_band_row env kr w = (b, w')"
  shows "pw_recon w' = pw_recon w" and "key \<noteq> fst kr \<Longrightarrow> jrow_of w' key = jrow_of w key"
    and "\<not> b \<Longrightarrow> w' = w" and "b \<Longrightarrow> obligation_already_fulfilled env w (snd kr)"
  using assms
  by (auto simp: close_fulfilled_band_row_def delete_anchor_def Let_def jrow_of_def stamp_resolution_def
      split: if_splits sum.splits prod.splits bool.splits option.splits)

lemma band_step_frame:
  assumes "band_step env kr (s, w) = (s', w')"
  shows "only_wants (rs_lib (pw_recon w)) (rs_lib (pw_recon w'))" and "key \<noteq> fst kr \<Longrightarrow> jrow_of w' key = jrow_of w key"
proof -
  obtain b u where c: "close_fulfilled_band_row env kr w = (b, u)" by force
  have "only_wants (rs_lib (pw_recon w)) (rs_lib (pw_recon w')) \<and> (key \<noteq> fst kr \<longrightarrow> jrow_of w' key = jrow_of w key)"
    using assms c close_frame(1,2) [OF c] reconcile_only_wants
    by (auto simp: band_step_def Let_def jrow_of_def split: bool.splits if_splits option.splits)
  then show "only_wants (rs_lib (pw_recon w)) (rs_lib (pw_recon w'))" and "key \<noteq> fst kr \<Longrightarrow> jrow_of w' key = jrow_of w key"
    by blast+
qed

text \<open>A band row that owes its issue a new search: its reason is hidden from the operator, the issue it names
  exists, and that issue is not already downloaded.\<close>

definition owes_rewant :: "penv \<Rightarrow> pworld \<Rightarrow> jrow \<Rightarrow> string \<Rightarrow> bool" where
  "owes_rewant env w r i \<longleftrightarrow>
     reconciliation_for (jr_fail_reason r) \<notin> {None, Some Owed_none}
     \<and> recon_issue_id (pe_loads env) (band_args r) = Some i \<and> i \<noteq> []
     \<and> resolve_obligation_target (rs_lib (pw_recon w)) i
         (opt_pv (entity_type_from_payload (pe_loads env) (load_payload (jr_payload r)))) \<noteq> None
     \<and> \<not> obligation_already_fulfilled env w r"

lemma owes_rewant_stays:
  "owes_rewant env w r i \<Longrightarrow> only_wants (rs_lib (pw_recon w)) (rs_lib (pw_recon w')) \<Longrightarrow> owes_rewant env w' r i"
  using not_fulfilled_stays [of w w' env r] resolve_same_keys [OF only_wants_keys, of "rs_lib (pw_recon w)" "rs_lib (pw_recon w')" i]
  by (auto simp: owes_rewant_def)

lemma band_step_pays:
  assumes "pe_rewant_up env" and "owes_rewant env w r i" and "band_step env (key, r) (s, w) = (s', w')"
  shows "row_written (rs_lib (pw_recon w')) i ''Wanted'' \<and> jrow_of w' key = jrow_of w key"
proof -
  obtain b u where c: "close_fulfilled_band_row env (key, r) w = (b, u)" by force
  have nb: "\<not> b" using close_frame(4) [OF c] assms(2) by (auto simp: owes_rewant_def)
  obtain ob where ob: "reconciliation_for (jr_fail_reason r) = Some ob" "ob \<noteq> Owed_none"
    using assms(2) by (auto simp: owes_rewant_def)
  have na: "\<not> is_actionable (jr_fail_reason r)" using ob actionable_owes_nothing by fastforce
  have "\<exists>st s''. reconcile_excluded (renv_of env) False (band_args r) (pw_recon w) = Some (st, s'')
      \<and> row_written (rs_lib s'') i ''Wanted''"
    using reconcile_pays [of "renv_of env" "band_args r" ob i "pw_recon w"] assms(1,2) ob
    by (simp add: owes_rewant_def renv_of_def band_args_def)
  then show ?thesis
    using assms(3) c nb na by (auto simp: band_step_def Let_def jrow_of_def)
qed

lemma fold_band_frame:
  assumes "key \<notin> fst ` set krs"
  shows "only_wants (rs_lib (pw_recon w)) (rs_lib (pw_recon (snd (fold (band_step env) krs (s, w)))))
    \<and> jrow_of (snd (fold (band_step env) krs (s, w))) key = jrow_of w key"
  using assms
proof (induction krs arbitrary: s w)
  case (Cons kr krs)
  obtain s' w' where b: "band_step env kr (s, w) = (s', w')" by force
  show ?case
    using Cons.IH [of w' s'] Cons.prems band_step_frame [OF b] only_wants_trans by (auto simp: b)
qed simp

lemma fold_band_only_wants:
  "only_wants (rs_lib (pw_recon w)) (rs_lib (pw_recon (snd (fold (band_step env) krs (s, w)))))"
proof (induction krs arbitrary: s w)
  case (Cons kr krs)
  obtain s' w' where b: "band_step env kr (s, w) = (s', w')" by force
  show ?case using Cons.IH [of w' s'] band_step_frame(1) [OF b] only_wants_trans by (auto simp: b)
qed simp

section \<open>The whole pass\<close>

lemma band_keys_distinct: "journal_wf (pw_journal w) \<Longrightarrow> distinct (map fst (band_rows w))"
  by (simp add: band_rows_def journal_wf_def dict_ok_def distinct_map_filter)

text \<open>The pass over old rows pays every debt it finds, and finds the same debts at the next start.  The
  issue of an unresolved row with a hidden reason ends Wanted, whatever status an operator or a later download gave
  it meanwhile, as long as it is not downloaded and verified; and since the row itself stays as it was, the debt is
  still open when the pass ends.\<close>

theorem start_rewants_hidden_rows:
  assumes "journal_wf (pw_journal w)" and "(key, r) \<in> set (band_rows w)" and "pe_rewant_up env"
    and "owes_rewant env w r i" and "reconcile_existing_excluded_rows env w = (summary, w')"
  shows "row_written (rs_lib (pw_recon w')) i ''Wanted'' \<and> (key, r) \<in> set (band_rows w') \<and> owes_rewant env w' r i"
proof -
  obtain pre post where krs: "band_rows w = pre @ (key, r) # post"
    using split_list [OF assms(2)] by blast
  have out: "key \<notin> fst ` set pre" "key \<notin> fst ` set post"
    using band_keys_distinct [OF assms(1)] by (auto simp: krs)
  let ?s0 = "\<lparr>bs_scanned = 0, bs_closed = 0, bs_skipped = 0, bs_results = []\<rparr>"
  obtain s1 w1 where b1: "fold (band_step env) pre (?s0, w) = (s1, w1)" by force
  obtain s2 w2 where b2: "band_step env (key, r) (s1, w1) = (s2, w2)" by force
  have w': "w' = snd (fold (band_step env) post (s2, w2))"
    using assms(5) by (simp add: reconcile_existing_excluded_rows_def krs b1 b2)
  have f1: "only_wants (rs_lib (pw_recon w)) (rs_lib (pw_recon w1))" "jrow_of w1 key = jrow_of w key"
    using fold_band_frame [OF out(1), of w env ?s0] by (simp_all add: b1)
  note p = band_step_pays [OF assms(3) owes_rewant_stays [OF assms(4) f1(1)] b2]
  have f3: "only_wants (rs_lib (pw_recon w2)) (rs_lib (pw_recon w'))" "jrow_of w' key = jrow_of w2 key"
    using fold_band_frame [OF out(2), of w2 env s2] by (simp_all add: w')
  have all: "only_wants (rs_lib (pw_recon w)) (rs_lib (pw_recon w'))"
    using fold_band_only_wants [of w env "band_rows w" ?s0] assms(5) by (simp add: reconcile_existing_excluded_rows_def)
  have row: "jrow_of w key = Some r" "jr_stage r \<in> set BAND_STAGES" "\<not> is_resolved (jr_status r)"
    using assms(1,2) by (auto simp: band_rows_def jrow_of_def js_row_def journal_wf_def dict_ok_def dict_get_def)
  then have "jrow_of w' key = Some r" using f1(2) f3(2) p by simp
  then have "(key, r) \<in> set (band_rows w')"
    using row by (auto simp: band_rows_def jrow_of_def js_row_def dict_get_def dest: map_of_SomeD)
  then show ?thesis using only_wants_written [OF f3(1)] p owes_rewant_stays [OF assms(4) all] by blast
qed

definition hidden_row :: jrow where
  "hidden_row = (demo_row Failed)\<lparr>jr_fail_reason := Some ''download_gone''\<rparr>"

text \<open>The operator has skipped the issue since.\<close>

definition hidden_world :: pworld where
  "hidden_world = (demo_world Failed ''Skipped'' 0)
     \<lparr>pw_journal := \<lparr>js_rows = [(''42|nzbgeek'', hidden_row)], js_obligations = [], js_activity = []\<rparr>\<rparr>"

lemma hidden_band: "band_rows hidden_world = [(''42|nzbgeek'', hidden_row)]"
  by (simp add: band_rows_def hidden_world_def hidden_row_def demo_row_def blank_row_def BAND_STAGES_def is_resolved_def)

theorem start_rewants_hidden_rows_witness:
  "list_ex (\<lambda>r. is_id r = ''42'' \<and> is_status r = Some ''Skipped'') (ol_issues (rs_lib (pw_recon hidden_world)))
   \<and> row_written (rs_lib (pw_recon (snd (reconcile_existing_excluded_rows demo_penv hidden_world)))) ''42'' ''Wanted''"
proof -
  have wf: "journal_wf (pw_journal hidden_world)"
    by (simp add: journal_wf_def hidden_world_def js_row_def dict_get_def dict_ok_def row_wf_def hidden_row_def demo_row_def blank_row_def)
  have m: "(''42|nzbgeek'', hidden_row) \<in> set (band_rows hidden_world)" by (simp add: hidden_band)
  have up: "pe_rewant_up demo_penv" by (simp add: demo_penv_def)
  have o: "owes_rewant demo_penv hidden_world hidden_row ''42''" by code_simp
  obtain s w' where r: "reconcile_existing_excluded_rows demo_penv hidden_world = (s, w')" by force
  have "list_ex (\<lambda>r. is_id r = ''42'' \<and> is_status r = Some ''Skipped'') (ol_issues (rs_lib (pw_recon hidden_world)))"
    by (simp add: hidden_world_def demo_world_def)
  with start_rewants_hidden_rows [OF wf m up o r] r show ?thesis by simp
qed

end
