(* ===== verification/ReplayProps.thy ===== *)
theory ReplayProps
  imports RecoveryProps BandProps
begin

text \<open>
  The start-up replay as a whole: it writes the journal only through the journal's own operations, so it keeps what
  they keep; a rebuilt anchor is rebuilt once; and closing a moved release takes the anchor of its siblings with it.
\<close>

section \<open>Histories\<close>

text \<open>The specification of a component that shares the journal: whatever it did, it did by journal operations.\<close>

definition by_ops :: "jstate \<Rightarrow> jstate \<Rightarrow> bool" where
  "by_ops s t \<longleftrightarrow> (\<exists>ops. t = jrun ops s)"

lemma by_ops_refl [simp]: "by_ops s s"
  unfolding by_ops_def by (rule exI [of _ "[]"]) (simp add: jrun_def)

lemma by_ops_trans [trans]: "by_ops s t \<Longrightarrow> by_ops t u \<Longrightarrow> by_ops s u"
proof -
  assume "by_ops s t" and "by_ops t u"
  then obtain xs ys where "t = jrun xs s" "u = jrun ys t" by (auto simp: by_ops_def)
  then have "u = jrun (xs @ ys) s" by (simp add: jrun_def)
  then show ?thesis unfolding by_ops_def by blast
qed

lemma by_ops_step: "by_ops s (jstep s op)"
  unfolding by_ops_def by (rule exI [of _ "[op]"]) (simp add: jrun_def)

lemma by_ops_record: "record_transition e None s key stage p fs when = Inr (won, t) \<Longrightarrow> by_ops s t"
  using by_ops_step [of s "ORecord e key stage p fs when"] by (simp add: outcome_def)

lemma by_ops_stamp: "stamp_resolution s key st inc when = Inr (b, t) \<Longrightarrow> by_ops s t"
  using by_ops_step [of s "OStamp key st inc when"] by (simp add: outcome_def)

lemma by_ops_reopen: "reopen_false_terminal s key when = (b, t) \<Longrightarrow> by_ops s t"
  using by_ops_step [of s "OReopen key when"] by simp

lemma by_ops_migrate: "migrate_release_key_provider_format s = (n, t) \<Longrightarrow> by_ops s t"
  using by_ops_step [of s OMigrate] by simp

lemma by_ops_wf: "by_ops s t \<Longrightarrow> journal_wf s \<Longrightarrow> journal_wf t"
  by (auto simp: by_ops_def jrun_wf)

subsection \<open>No row is lost\<close>

lemma dict_set_length: "length d \<le> length (dict_set k v d)"
  unfolding dict_set_def by (induction d) auto

lemma more_keys:
  assumes "dict_ok (js_rows s)" and "\<And>k. js_row s k \<noteq> None \<Longrightarrow> js_row t k \<noteq> None"
  shows "length (js_rows s) \<le> length (js_rows t)"
proof -
  have "set (map fst (js_rows s)) \<subseteq> set (map fst (js_rows t))" using assms(2) js_row_None by blast
  then have "card (set (map fst (js_rows s))) \<le> card (set (map fst (js_rows t)))" by (intro card_mono) simp_all
  also have "\<dots> \<le> length (js_rows t)" using card_length [of "map fst (js_rows t)"] by simp
  finally show ?thesis using assms(1) distinct_card [of "map fst (js_rows s)"] by (simp add: dict_ok_def)
qed

lemma effect_keeps_row: "row_effect e st (Some q) won y \<Longrightarrow> y \<noteq> None"
  by (auto elim: effect_from_some)

lemma record_keeps_rows:
  assumes "record_transition e None s key stage p fs when = Inr (won, t)" and "js_row s k \<noteq> None"
  shows "js_row t k \<noteq> None"
proof -
  obtain st where st: "stage_of_string stage = Some st"
    using assms(1) by (auto simp: record_transition_def split: option.splits)
  have eff: "row_effect e st (js_row s key) won (js_row t key)" and o: "only_key key s t"
    using record_transition_effect [OF assms(1) st] by blast+
  show ?thesis
  proof (cases "k = key")
    case True
    then show ?thesis using assms(2) eff effect_keeps_row by fastforce
  next
    case False
    then show ?thesis using assms(2) o by (simp add: only_key_def)
  qed
qed

lemma jstep_rows: "journal_wf s \<Longrightarrow> length (js_rows s) \<le> length (js_rows (jstep s op))"
proof (cases op)
  case (ORecord e key stage p fs "when")
  assume wf: "journal_wf s"
  show ?thesis
  proof (cases "record_transition e None s key stage p fs when")
    case (Inl a)
    then show ?thesis using ORecord by (simp add: outcome_def)
  next
    case (Inr b)
    then obtain won t where "record_transition e None s key stage p fs when = Inr (won, t)" by (cases b) auto
    from record_keeps_rows [OF this] ORecord this wf show ?thesis
      by (auto simp: outcome_def journal_wf_def intro!: more_keys)
  qed
next
  case OMigrate
  assume "journal_wf s"
  then have "map snd (js_rows (snd (migrate_loop (migrate_renames s) (0, s)))) = map snd (js_rows s)"
    using migrate_loop_keeps by (simp add: journal_wf_def)
  then have "length (map snd (js_rows (jstep s op))) = length (map snd (js_rows s))"
    using OMigrate by (simp add: migrate_release_key_provider_format_def)
  then show ?thesis by simp
qed (auto simp: outcome_def stamp_resolution_def reopen_false_terminal_def js_rows_put dict_set_length split: option.splits)

lemma jrun_rows: "journal_wf s \<Longrightarrow> length (js_rows s) \<le> length (js_rows (jrun ops s))"
proof (induction ops arbitrary: s)
  case (Cons op ops)
  from Cons.IH [OF jstep_wf [OF Cons.prems, of op]] jstep_rows [OF Cons.prems, of op]
  show ?case by (simp add: jrun_def)
qed (simp add: jrun_def)

section \<open>Every step of the replay\<close>

abbreviation writes_by_ops :: "pworld \<Rightarrow> pworld \<Rightarrow> bool" where
  "writes_by_ops w w' \<equiv> by_ops (pw_journal w) (pw_journal w')"

named_theorems ops_dest "steps that write the journal by its operations"

lemma ops_transition_own [ops_dest]: "transition_own env w key stage p fs = Inr (b, w') \<Longrightarrow> writes_by_ops w w'"
  by (erule transition_own_cases) (simp add: by_ops_record)

lemma ops_record_own [ops_dest]:
  assumes "record_own env w en = Inr (ro, w')"
  shows "writes_by_ops w w'"
proof -
  obtain j rr where x: "record_entry (jenv_of env w) (renv_of env) (pe_attempts env) None en (pw_journal w, pw_recon w) = Inr (ro, j, rr)"
    and w': "w' = w\<lparr>pw_journal := j, pw_recon := rr\<rparr>"
    using assms by (auto simp: record_own_def split: sum.splits)
  have "record_on_connection (jenv_of env w) (renv_of env) None en (pw_journal w, pw_recon w) = Inr (ro, j, rr)"
    by (rule own_attempts_Inr [OF x [unfolded record_entry_def]])
  then obtain won where "entry_transition (jenv_of env w) None (fst (pw_journal w, pw_recon w)) en (re_now (renv_of env)) = Inr (won, j)"
    by (rule record_on_connection_transition)
  then have "by_ops (pw_journal w) j"
    by (cases "en_kind en") (auto simp: entry_transition_def mark_failed_def mark_manual_review_def intro: by_ops_record)
  then show ?thesis by (simp add: w')
qed

lemma ops_recorded [ops_dest]: "recorded env en a w = (x, w') \<Longrightarrow> writes_by_ops w w'"
  by (auto simp: recorded_def dest: ops_record_own split: sum.splits)

subsection \<open>Continuing post-processing\<close>

definition exec_by_ops :: "processor \<Rightarrow> bool" where
  "exec_by_ops exec \<longleftrightarrow> (\<forall>item w. writes_by_ops w (snd (exec item w)))"

lemma ops_execute [ops_dest]: "execute exec item w = (x, w') \<Longrightarrow> exec_by_ops exec \<Longrightarrow> writes_by_ops w w'"
  unfolding execute_def exec_by_ops_def by (metis by_ops_refl snd_conv)

lemma ops_quarantine_item [simp]: "writes_by_ops w (quarantine_item env it reason key w)"
  by (auto simp: quarantine_item_def Let_def dest: ops_record_own split: pval.splits sum.splits)

lemma ops_note [simp]: "writes_by_ops w (note_unfinished_claim env key v w)"
  by (auto simp: note_unfinished_claim_def dest: ops_transition_own split: option.splits sum.splits)

lemma ops_finish [ops_dest]: "finish_obligation env key r p w = Inr w' \<Longrightarrow> writes_by_ops w w'"
  by (auto simp: finish_obligation_def delete_anchor_def intro: by_ops_record split: sum.splits)

lemma ops_claim [ops_dest]: "claim_pp_recovery env key item p w = Inr (b, w') \<Longrightarrow> writes_by_ops w w'"
  by (auto simp: claim_pp_recovery_def dest: ops_transition_own split: if_splits sum.splits)

lemma ops_redrive:
  assumes "recover_redrive exec env key item w = (res, w')" and "exec_by_ops exec"
  shows "writes_by_ops w w'"
proof -
  obtain x u where x: "execute exec item (w\<lparr>pw_budget := map_option Suc (pw_budget w)\<rparr>) = (x, u)" by force
  have u: "by_ops (pw_journal w) (pw_journal u)" using ops_execute [OF x assms(2)] by simp
  have "by_ops (pw_journal u) (pw_journal w')"
    using assms(1) x by (cases x) (auto simp: recover_redrive_def recover_failed_def split: if_splits)
  with u show ?thesis by (rule by_ops_trans)
qed

lemma ops_recover_item:
  assumes "recover_item exec env key item0 p w = (res, w')" and "exec_by_ops exec"
  shows "writes_by_ops w w'"
proof (cases "validate_postprocess_item (pe_fs env) (pe_conf env) [] True (VDict item0)")
  case (Inl e)
  then show ?thesis using assms(1) by (auto simp: recover_item_def recover_failed_def)
next
  case v: (Inr item)
  show ?thesis
  proof (cases "claim_pp_recovery env key item p w")
    case (Inl e)
    then show ?thesis using assms(1) v by (auto simp: recover_item_def recover_failed_def)
  next
    case (Inr bu)
    obtain b u where bu: "bu = (b, u)" by (cases bu)
    have c: "by_ops (pw_journal w) (pw_journal u)" using ops_claim Inr bu by blast
    have "by_ops (pw_journal u) (pw_journal w')"
      using assms v Inr bu ops_redrive by (cases b) (auto simp: recover_item_def)
    with c show ?thesis by (rule by_ops_trans)
  qed
qed

lemma ops_recover_leased:
  assumes "recover_leased exec env key w = (res, w')" and "exec_by_ops exec"
  shows "writes_by_ops w w'"
  using assms ops_recover_item [of exec env key _ _ w _ w']
  by (auto simp: recover_leased_def Let_def dest: ops_finish split: option.splits if_splits sum.splits prod.splits)

lemma ops_recover [ops_dest]:
  assumes "recover exec env key w = (res, w')" and "exec_by_ops exec"
  shows "writes_by_ops w w'"
proof (cases "take_lease env ''startup-recovery'' ''postprocess-redrive'' (Some key) (w\<lparr>pw_locked := True\<rparr>)")
  case (Inl e)
  then show ?thesis using assms(1) by (auto simp: recover_def split: if_splits)
next
  case (Inr lw)
  obtain l w1 where lw: "lw = (l, w1)" by (cases lw)
  obtain m where w1: "w1 = w\<lparr>pw_locked := True, pw_maint := m\<rparr>" using take_lease_Inr Inr lw by blast
  obtain x u where x: "recover_leased exec env key w1 = (x, u)" by force
  have "by_ops (pw_journal w) (pw_journal u)" using ops_recover_leased [OF x assms(2)] w1 by simp
  then show ?thesis
    using assms(1) Inr lw x w1 by (auto simp: recover_def split: if_splits)
qed

subsection \<open>The steps before the open rows\<close>

lemma ops_legacy:
  "legacy_ddl_loop env qs n w = (x, w') \<Longrightarrow> writes_by_ops w w'"
proof (induction env qs n w rule: legacy_ddl_loop.induct)
  case (2 env q qs n w)
  show ?case
  proof (cases "ddl_journal_anchors w q = []")
    case False
    then show ?thesis using 2 by simp
  next
    case True
    obtain y u where u: "recorded env (unanchored_entry env q) () w = (y, u)" by force
    note q = ops_recorded [OF u]
    show ?thesis
    proof (cases y)
      case (Inl e)
      then show ?thesis using 2(3) True u q by (auto simp: quarantine_unanchored_ddl_row_def)
    next
      case (Inr a)
      let ?u = "u\<lparr>pw_ddl := upsert_ddl_status (opt_str (dd_id q)) ''Manual Review'' (pw_ddl u)\<rparr>"
      have d: "quarantine_unanchored_ddl_row env q w = (Inr (), ?u)" using u Inr by (simp add: quarantine_unanchored_ddl_row_def)
      have l: "legacy_ddl_loop env qs (Suc n) ?u = (x, w')" using 2(3) True d by simp
      have "by_ops (pw_journal u) (pw_journal w')" using 2(2) [OF _ d [symmetric] refl l] True by simp
      with q show ?thesis by (rule by_ops_trans)
    qed
  qed
qed simp

lemma ops_close: "close_fulfilled_band_row env kr w = (b, w') \<Longrightarrow> writes_by_ops w w'"
  by (auto simp: close_fulfilled_band_row_def delete_anchor_def Let_def dest: by_ops_stamp split: if_splits sum.splits prod.splits bool.splits)

lemma ops_band_step:
  assumes "band_step env kr (s, w) = (s', w')"
  shows "writes_by_ops w w'"
proof -
  obtain b u where c: "close_fulfilled_band_row env kr w = (b, u)" by force
  show ?thesis
    using assms c ops_close [OF c]
    by (auto simp: band_step_def Let_def split: bool.splits if_splits option.splits)
qed

lemma ops_band: "fold (band_step env) krs sw = (s', w') \<Longrightarrow> writes_by_ops (snd sw) w'"
proof (induction krs arbitrary: sw)
  case (Cons kr krs)
  obtain s w where sw: "sw = (s, w)" by (cases sw)
  obtain s1 w1 where b: "band_step env kr (s, w) = (s1, w1)" by force
  have "by_ops (pw_journal w1) (pw_journal w')" using Cons.IH [of "(s1, w1)"] Cons.prems sw b by simp
  with ops_band_step [OF b] show ?case using sw by (auto intro: by_ops_trans)
qed simp

lemma ops_reopen_loop: "reopen_loop env krs n w = (m, w') \<Longrightarrow> writes_by_ops w w'"
proof (induction env krs n w rule: reopen_loop.induct)
  case (2 env kr krs n w)
  obtain b u where u: "reopen_one env kr w = (b, u)" by force
  have "by_ops (pw_journal w) (pw_journal u)"
    using u by (auto simp: reopen_one_def dest: by_ops_reopen split: if_splits prod.splits)
  moreover have "by_ops (pw_journal u) (pw_journal w')" using 2 u by simp
  ultimately show ?case by (rule by_ops_trans)
qed simp

lemma ops_reconstruct: "reconstruct_anchor env s w = (b, w') \<Longrightarrow> writes_by_ops w w'"
  by (auto simp: reconstruct_anchor_def Let_def dest: ops_transition_own split: option.splits if_splits sum.splits prod.splits)

lemma ops_anchor_loop: "anchor_loop env ss n w = (m, w') \<Longrightarrow> writes_by_ops w w'"
proof (induction env ss n w rule: anchor_loop.induct)
  case (2 env s ss n w)
  obtain b u where u: "reconstruct_anchor env s w = (b, u)" by force
  have "by_ops (pw_journal u) (pw_journal w')" using 2 u by simp
  with ops_reconstruct [OF u] show ?case by (rule by_ops_trans)
qed simp

subsection \<open>The open rows\<close>

lemma ops_gone [ops_dest]: "apply_gone env key r w = (x, w') \<Longrightarrow> writes_by_ops w w'"
  by (auto simp: apply_gone_def Let_def dest!: ops_recorded split: if_splits)

lemma ops_still [ops_dest]: "resolve_still env key r p w = (x, w') \<Longrightarrow> writes_by_ops w w'"
  by (auto simp: resolve_still_def Let_def dest!: ops_recorded split: resume_kind.splits prod.splits sum.splits if_splits)

lemma ops_complete [ops_dest]: "resolve_complete env key r p d w = (x, w') \<Longrightarrow> writes_by_ops w w'"
  by (auto simp: resolve_complete_def Let_def enqueue_pp_def release_sab_history_def dest!: ops_recorded ops_transition_own
      split: prod.splits sum.splits if_splits)

lemma ops_unknown [ops_dest]: "resolve_unknown env key r p b w = (x, w') \<Longrightarrow> writes_by_ops w w'"
  by (auto simp: resolve_unknown_def dest: ops_recorded split: if_splits)

lemma ops_classified:
  assumes "resolve_classified env key r p d b w = (x, w')"
  shows "writes_by_ops w w'"
  using assms
  by (auto simp: resolve_classified_def Let_def release_sab_history_def dest!: ops_recorded ops_gone ops_still ops_complete ops_unknown
      split: if_splits verdict.splits prod.splits sum.splits)

lemma ops_resolve_row:
  assumes "resolve_row exec probes env snap w = (x, w')" and "exec_by_ops exec"
  shows "writes_by_ops w w'"
proof (cases "jrow_of w (fst snap)")
  case None
  then show ?thesis using assms(1) by (simp add: resolve_row_def)
next
  case (Some r)
  consider "w' = w" | "\<exists>en y. recorded env en y w = (x, w')" | y where "recover exec env (fst snap) w = (y, w')"
    | "resolve_downloaded env (fst snap) r w = (x, w')" | "resolve_snatched probes env (fst snap) r w = (x, w')"
    using assms(1) Some by (auto simp: resolve_row_def split: if_splits prod.splits sum.splits)
  then show ?thesis
  proof cases
    case 4
    then show ?thesis
      by (auto simp: resolve_downloaded_def Let_def enqueue_pp_def dest: ops_recorded split: sum.splits)
  next
    case 5
    then show ?thesis
      by (auto simp: resolve_snatched_def Let_def dest: ops_classified ops_transition_own split: if_splits sum.splits prod.splits)
  qed (use assms(2) in \<open>auto dest: ops_recorded ops_recover\<close>)
qed

lemma ops_replay_rows: "replay_rows exec probes env krs w = (as, w') \<Longrightarrow> exec_by_ops exec \<Longrightarrow> writes_by_ops w w'"
proof (induction krs arbitrary: as w)
  case (Cons kr krs)
  obtain x u where u: "resolve_row exec probes env kr w = (x, u)" by force
  obtain as' v where v: "replay_rows exec probes env krs u = (as', v)" by force
  then have "replay_rows exec probes env krs u = (as', w')" using Cons.prems(1) u by simp
  then have "by_ops (pw_journal u) (pw_journal w')" using Cons.IH Cons.prems(2) by blast
  with ops_resolve_row [OF u Cons.prems(2)] show ?case by (rule by_ops_trans)
qed simp

lemma ops_replay_body:
  assumes "replay_body exec probes env w = (s, w')" and "exec_by_ops exec"
  shows "writes_by_ops w w'"
proof -
  obtain n j where m: "migrate_release_key_provider_format (pw_journal w) = (n, j)" by force
  obtain l w2 where l: "reconcile_legacy_ddl_downloading env (w\<lparr>pw_journal := j\<rparr>) = (l, w2)" by force
  obtain b w3 where b: "reconcile_existing_excluded_rows env w2 = (b, w3)" by force
  obtain c w4 where c: "reclassify_false_terminal_imports env w3 = (c, w4)" by force
  obtain d w5 where d: "reconstruct_anchors env w4 = (d, w5)" by force
  obtain as w6 where r: "replay_rows exec probes env (read_open (pw_journal w5)) w5 = (as, w6)" by force
  have "by_ops (pw_journal w) j" using m by (rule by_ops_migrate)
  also have "by_ops j (pw_journal w2)" using ops_legacy [OF l [unfolded reconcile_legacy_ddl_downloading_def]] by simp
  also have "by_ops (pw_journal w2) (pw_journal w3)" using ops_band [OF b [unfolded reconcile_existing_excluded_rows_def]] by simp
  also have "by_ops (pw_journal w3) (pw_journal w4)" by (rule ops_reopen_loop [OF c [unfolded reclassify_false_terminal_imports_def]])
  also have "by_ops (pw_journal w4) (pw_journal w5)"
    using d ops_anchor_loop by (auto simp: reconstruct_anchors_def split: if_splits)
  also have "by_ops (pw_journal w5) (pw_journal w6)" using ops_replay_rows [OF r assms(2)] .
  finally show ?thesis using assms(1) by (simp add: replay_body_def m l b c d r)
qed



section \<open>Rebuilding anchors\<close>

lemma journal_frame [simp]:
  "find_nzb (w\<lparr>pw_journal := j\<rparr>) = find_nzb w"
  "is_story_arc_obligation env (w\<lparr>pw_journal := j\<rparr>) = is_story_arc_obligation env w"
  "cdb_of env (w\<lparr>pw_journal := j\<rparr>) = cdb_of env w"
  "has_advanced_sibling env (w\<lparr>pw_journal := j\<rparr>) = has_advanced_sibling env w"
  by (simp_all add: fun_eq_iff find_nzb_def is_story_arc_obligation_def cdb_of_def has_advanced_sibling_def split: option.split)

lemma anchor_nzb_frame [simp]: "anchor_nzb env (w\<lparr>pw_journal := j\<rparr>) = anchor_nzb env w"
  by (simp add: fun_eq_iff anchor_nzb_def split: option.split bool.split)

lemma fresh_snatch:
  assumes "healthy env" and "jrow_of w key = None"
  shows "\<exists>j. transition_own env w key ''snatched'' p fs = Inr (True, w\<lparr>pw_journal := j\<rparr>) \<and> js_row j key \<noteq> None"
proof -
  obtain j where "record_transition (jenv_of env w) None (pw_journal w) key ''snatched'' p fs (pe_now env) = Inr (True, j)"
    and "js_row j key \<noteq> None"
    using assms(2) by (simp add: record_transition_def apply_transition_def insert_or_race_def jrow_of_def Let_def)
  then show ?thesis using assms(1)
    by (intro exI [of _ j]) (simp add: transition_own_def record_transition_own_def own_healthy)
qed

definition snatch_name :: "penv \<Rightarrow> pworld \<Rightarrow> string \<Rightarrow> string \<Rightarrow> snatch_row \<Rightarrow> string option" where
  "snatch_name env w i provider s =
     (case anchor_nzb env w (is_story_arc_obligation env w (Some i)) i provider of Some n \<Rightarrow> nz_name n | None \<Rightarrow> sn_folder s)"

definition snatch_due :: "penv \<Rightarrow> pworld \<Rightarrow> snatch_row \<Rightarrow> bool" where
  "snatch_due env w s \<longleftrightarrow>
     (case (sn_issueid s, sn_provider s) of
        (Some i, Some provider) \<Rightarrow>
          anchor_due env w (anchor_key env s (snatch_name env w i provider s)) i provider (is_story_arc_obligation env w (Some i))
      | _ \<Rightarrow> False)"

lemma not_due_nothing: "\<not> snatch_due env w s \<Longrightarrow> reconstruct_anchor env s w = (False, w)"
  by (auto simp: snatch_due_def reconstruct_anchor_def snatch_name_def Let_def split: option.splits)

lemma due_once:
  assumes "healthy env" and "snatch_due env w s"
  shows "\<exists>j. reconstruct_anchor env s w = (True, w\<lparr>pw_journal := j\<rparr>) \<and> \<not> snatch_due env (w\<lparr>pw_journal := j\<rparr>) s"
proof -
  obtain i provider where ip: "sn_issueid s = Some i" "sn_provider s = Some provider"
    using assms(2) by (auto simp: snatch_due_def split: option.splits)
  let ?arc = "is_story_arc_obligation env w (Some i)" and ?name = "snatch_name env w i provider s"
  let ?key = "anchor_key env s ?name" and ?ddl = "py_in ''ddl'' (py_lower provider)"
  have due: "anchor_due env w ?key i provider ?arc" using assms(2) ip by (simp add: snatch_due_def)
  then have none: "jrow_of w ?key = None" by (simp add: anchor_due_def)
  let ?fs = "[(CIssueid, Some i), (CProvider, Some provider),
      (CDownloader_type, Some (if present (sn_hash s) then ''torrent'' else if ?ddl then ''ddl'' else ''nzb'')),
      (CNzbname, sn_folder s), (CHash, sn_hash s)]"
  obtain j where t: "transition_own env w ?key ''snatched'' (VDict (anchor_payload s ?name ?ddl)) ?fs = Inr (True, w\<lparr>pw_journal := j\<rparr>)"
    and row: "js_row j ?key \<noteq> None"
    using fresh_snatch [OF assms(1) none] by blast
  have "reconstruct_anchor env s w = (True, w\<lparr>pw_journal := j\<rparr>)"
    using ip due t by (simp add: reconstruct_anchor_def snatch_name_def Let_def)
  moreover have "snatch_name env (w\<lparr>pw_journal := j\<rparr>) i provider s = ?name"
    by (simp add: snatch_name_def)
  then have "\<not> snatch_due env (w\<lparr>pw_journal := j\<rparr>) s"
    using ip row by (simp add: snatch_due_def anchor_due_def jrow_of_def)
  ultimately show ?thesis by blast
qed

lemma not_due_stays:
  assumes "\<not> snatch_due env w s" and "\<And>k. js_row (pw_journal w) k \<noteq> None \<Longrightarrow> js_row j k \<noteq> None"
  shows "\<not> snatch_due env (w\<lparr>pw_journal := j\<rparr>) s"
proof -
  have n: "snatch_name env (w\<lparr>pw_journal := j\<rparr>) i p s = snatch_name env w i p s" for i p
    by (simp add: snatch_name_def)
  show ?thesis
    using assms by (auto simp: snatch_due_def anchor_due_def n jrow_of_def split: option.splits)
qed

lemma due_keeps_rows:
  assumes "reconstruct_anchor env s w = (b, w')"
  shows "\<exists>j. w' = w\<lparr>pw_journal := j\<rparr> \<and> (\<forall>k. js_row (pw_journal w) k \<noteq> None \<longrightarrow> js_row j k \<noteq> None)"
proof -
  have same: "w = w\<lparr>pw_journal := pw_journal w\<rparr>" by simp
  consider "w' = w" | key p fs c where "transition_own env w key ''snatched'' p fs = Inr (c, w')"
    using assms by (auto simp: reconstruct_anchor_def Let_def split: option.splits if_splits sum.splits prod.splits)
  then show ?thesis
  proof cases
    case 1
    then show ?thesis using same by blast
  next
    case 2
    then show ?thesis by (rule transition_own_cases) (use record_keeps_rows in blast)
  qed
qed

lemma anchor_loop_keeps:
  "anchor_loop env ss n w = (m, w') \<Longrightarrow> \<exists>j. w' = w\<lparr>pw_journal := j\<rparr> \<and> (\<forall>k. js_row (pw_journal w) k \<noteq> None \<longrightarrow> js_row j k \<noteq> None)"
proof (induction env ss n w rule: anchor_loop.induct)
  case (1 env n w)
  then have "w' = w\<lparr>pw_journal := pw_journal w\<rparr>" by simp
  then show ?case by blast
next
  case (2 env s ss n w)
  obtain b u where u: "reconstruct_anchor env s w = (b, u)" by force
  obtain j where j: "u = w\<lparr>pw_journal := j\<rparr>" "\<forall>k. js_row (pw_journal w) k \<noteq> None \<longrightarrow> js_row j k \<noteq> None"
    using due_keeps_rows [OF u] by blast
  obtain j' where "w' = u\<lparr>pw_journal := j'\<rparr>" "\<forall>k. js_row (pw_journal u) k \<noteq> None \<longrightarrow> js_row j' k \<noteq> None"
    using 2 u by fastforce
  with j show ?case by (intro exI [of _ j']) auto
qed

lemma anchor_loop_settles:
  assumes "healthy env"
  shows "anchor_loop env ss n w = (m, w') \<Longrightarrow> s \<in> set ss \<Longrightarrow> \<not> snatch_due env w' s"
proof (induction ss arbitrary: n w)
  case (Cons q ss)
  obtain b u where u: "reconstruct_anchor env q w = (b, u)" by force
  have l: "anchor_loop env ss (if b then Suc n else n) u = (m, w')" using Cons.prems(1) u by simp
  show ?case
  proof (cases "s \<in> set ss")
    case True
    then show ?thesis using Cons.IH l by blast
  next
    case False
    then have s: "s = q" using Cons.prems(2) by simp
    have nd: "\<not> snatch_due env u q"
    proof (cases "snatch_due env w q")
      case True
      then show ?thesis using due_once [OF assms True] u by auto
    next
      case False
      then show ?thesis using not_due_nothing [OF False] u by auto
    qed
    obtain j where "w' = u\<lparr>pw_journal := j\<rparr>" "\<forall>k. js_row (pw_journal u) k \<noteq> None \<longrightarrow> js_row j k \<noteq> None"
      using anchor_loop_keeps [OF l] by blast
    then show ?thesis using not_due_stays [OF nd] s by blast
  qed
qed simp

lemma anchor_loop_idle: "(\<And>s. s \<in> set ss \<Longrightarrow> \<not> snatch_due env w s) \<Longrightarrow> anchor_loop env ss n w = (n, w)"
  by (induction ss) (auto simp: not_due_nothing)

text \<open>Rebuilding lost anchors is idempotent: a second pass over the snatch table, at the same start or
  after another crash, finds nothing to rebuild and changes nothing.\<close>

theorem anchors_rebuilt_once:
  assumes "healthy env" and "reconstruct_anchors env w = (n, w')"
  shows "reconstruct_anchors env w' = (0, w')"
proof (cases "pe_snatched_up env")
  case False
  then show ?thesis by (simp add: reconstruct_anchors_def)
next
  case True
  let ?open = "\<lambda>w. filter (\<lambda>s. sn_status s = Some ''Snatched'') (pw_snatched w)"
  have l: "anchor_loop env (?open w) 0 w = (n, w')" using assms(2) True by (simp add: reconstruct_anchors_def)
  obtain j where "w' = w\<lparr>pw_journal := j\<rparr>" using anchor_loop_keeps [OF l] by blast
  then have "?open w' = ?open w" by simp
  then show ?thesis
    using True anchor_loop_settles [OF assms(1) l] anchor_loop_idle [of "?open w'" env w' 0] by (simp add: reconstruct_anchors_def)
qed

definition lost_snatch :: snatch_row where
  "lost_snatch = \<lparr>sn_issueid = Some ''42'', sn_comicname = None, sn_number = None, sn_size = None, sn_date = None,
     sn_status = Some ''Snatched'', sn_folder = Some ''f'', sn_comicid = Some ''7'', sn_provider = Some ''nzbgeek'',
     sn_hash = Some ''abc'', sn_crc = None\<rparr>"

definition lost_world :: pworld where
  "lost_world = (demo_world Snatched ''Snatched'' 0)
     \<lparr>pw_journal := \<lparr>js_rows = [], js_obligations = [], js_activity = []\<rparr>, pw_snatched := [lost_snatch]\<rparr>"

theorem anchors_rebuilt_once_witness:
  "fst (reconstruct_anchors demo_penv lost_world) = 1
   \<and> fst (reconstruct_anchors demo_penv (snd (reconstruct_anchors demo_penv lost_world))) = 0"
proof -
  have due: "snatch_due demo_penv lost_world lost_snatch" by code_simp
  obtain n w' where r: "reconstruct_anchors demo_penv lost_world = (n, w')" by force
  have "sn_status lost_snatch = Some ''Snatched''" "pw_snatched lost_world = [lost_snatch]"
    by (simp_all add: lost_snatch_def lost_world_def)
  then have "n = 1" using r due_once [OF demo_healthy due] by (auto simp: reconstruct_anchors_def demo_penv_def)
  with anchors_rebuilt_once [OF demo_healthy r] r show ?thesis by simp
qed

section \<open>Siblings of a closed release\<close>

text \<open>The pass over old rows keeps an anchor that an open row of the same issue and provider still needs.\<close>

lemma band_close_keeps_shared_anchor:
  assumes "close_fulfilled_band_row env (key, r) w = (True, w')" and "anchor_shared_with_open_row w' key r"
  shows "pw_nzblog w' = pw_nzblog w"
  using assms
  by (auto simp: close_fulfilled_band_row_def Let_def anchor_shared_with_open_row_def delete_anchor_def
      split: if_splits sum.splits prod.splits bool.splits)

lemma no_anchor_left:
  assumes "is_story_arc_obligation env w (jr_issueid r) = Some False" and "payload_story_arc payload = None"
    and "jr_issueid r = Some i" and "present (jr_provider r)"
  shows "\<not> nzblog_has (cdb_of env (delete_anchor env r payload w)) i (jr_provider r)"
  using assms
  by (auto simp: nzblog_has_def cdb_of_def delete_anchor_def anchor_matches_def list_ex_iff opt_str_def Let_def)

text \<open>Closing a moved release takes the anchor of its siblings: another open row of the same issue and
  provider, a second grab that is still downloading, reads as done from then on, although nothing of it has arrived.
  The pass over old rows avoids exactly this by keeping a shared anchor; the closing write does not look.\<close>

theorem closing_fakes_done_signal:
  assumes "finish_obligation env key r payload w = Inr w'"
    and "is_story_arc_obligation env w (jr_issueid r) = Some False" and "payload_story_arc payload = None"
    and "jr_issueid r = Some i" and "\<not> is_synthetic_oneoff (Some i)" and "present (jr_provider r)" and "pe_nzblog_up env"
    and "jr_issueid sib = jr_issueid r" and "jr_provider sib = jr_provider r" and "row_story_arc sib = Some False"
  shows "has_done_signal (cdb_of env w') sib"
proof -
  obtain j where w': "w' = (delete_anchor env r payload w)\<lparr>pw_journal := j\<rparr>"
    using assms(1) by (auto simp: finish_obligation_def split: sum.splits)
  have "nzblog_present (cdb_of env w') (jr_issueid sib) (jr_provider sib) (row_story_arc sib) = Some False"
    using no_anchor_left [OF assms(2,3,4,6)] assms(4,7-10) by (simp add: nzblog_present_def w') (simp add: cdb_of_def)
  then show ?thesis using assms(4,5,8) by (simp add: has_done_signal_def)
qed

definition sibling :: jrow where
  "sibling = (demo_row Snatched)\<lparr>jr_payload := PJson (VDict [(''mode'', VStr ''want'')])\<rparr>"

theorem closing_fakes_done_signal_witness:
  "\<not> has_done_signal (cdb_of demo_penv (demo_world Moved ''Snatched'' 0)) sibling
   \<and> (\<exists>w'. finish_obligation demo_penv ''42|nzbgeek'' (demo_open Moved) (VDict (demo_payload 0)) (demo_world Moved ''Snatched'' 0) = Inr w'
       \<and> has_done_signal (cdb_of demo_penv w') sibling)"
proof -
  let ?w = "demo_world Moved ''Snatched'' 0"
  have nr: "Post_processed \<notin> set RESNATCH_STAGES" by (simp add: RESNATCH_STAGES_def)
  obtain w' where f: "finish_obligation demo_penv ''42|nzbgeek'' (demo_open Moved) (VDict (demo_payload 0)) ?w = Inr w'"
    using forward_never_raises [OF manual_review_stage(3) nr, of "jenv_of demo_penv ?w" "pw_journal ?w" "''42|nzbgeek''"
        "VDict (demo_payload 0)" "[(CIssueid, jr_issueid (demo_open Moved)), (CProvider, jr_provider (demo_open Moved))]" "pe_now demo_penv"]
    by (auto simp: finish_obligation_def)
  have c: "is_story_arc_obligation demo_penv ?w (jr_issueid (demo_open Moved)) = Some False"
    "payload_story_arc (VDict (demo_payload 0)) = None" "jr_issueid (demo_open Moved) = Some ''42''"
    "\<not> is_synthetic_oneoff (Some ''42'')" "present (jr_provider (demo_open Moved))" "pe_nzblog_up demo_penv"
    "jr_issueid sibling = jr_issueid (demo_open Moved)" "jr_provider sibling = jr_provider (demo_open Moved)"
    "row_story_arc sibling = Some False" by code_simp+
  have n: "\<not> has_done_signal (cdb_of demo_penv ?w) sibling" by code_simp
  show ?thesis using closing_fakes_done_signal [OF f c] f n by blast
qed

end
