(* ===== verification/Handoff.thy ===== *)
theory Handoff
  imports PostProcess
begin

text \<open>
  \<open>comicarr/app/downloads/handoff.py\<close>: handing a release to an external download client.  The attempt is reserved in
  the journal before anything leaves the process, a maintenance lease is held across reservation, submission and
  acceptance, and what the client answers decides between a snatched row, a failure and an operator's review.  The
  client and the caller's finalizer are parameters that may change anything and may raise.
\<close>

section \<open>Routes\<close>

definition ROUTE_ALIASES :: "string \<Rightarrow> string option" where
  "ROUTE_ALIASES s =
     (if s = ''sab'' then Some ''sabnzbd''
      else if s \<in> {''sabnzbd'', ''nzbget'', ''ddl'', ''rtorrent'', ''deluge'', ''qbittorrent'', ''transmission'', ''utorrent'',
                    ''watchdir'', ''blackhole''} then Some s else None)"

definition RESTART_SAFE_ROUTES :: "string list" where
  "RESTART_SAFE_ROUTES = [''sabnzbd'', ''nzbget'', ''ddl'', ''rtorrent'', ''deluge'', ''qbittorrent'', ''transmission'', ''utorrent'']"

definition TORRENT_ROUTES :: "string list" where
  "TORRENT_ROUTES = [''rtorrent'', ''deluge'', ''qbittorrent'', ''transmission'', ''utorrent'', ''watchdir'']"

definition normalize_route :: "string option \<Rightarrow> string" where
  "normalize_route route =
     (let n = py_lower (py_strip (case route of None \<Rightarrow> [] | Some s \<Rightarrow> s)) in
      case ROUTE_ALIASES n of Some r \<Rightarrow> r | None \<Rightarrow> if n = [] then ''unknown'' else n)"

definition is_restart_safe_route :: "string option \<Rightarrow> bool" where
  "is_restart_safe_route route = (normalize_route route \<in> set RESTART_SAFE_ROUTES)"

text \<open>\<open>_record_route_health\<close> keeps one outcome per family; an exception of the write is swallowed.\<close>

definition route_family :: "string \<Rightarrow> string" where
  "route_family route =
     (if route \<in> {''sabnzbd'', ''nzbget''} then ''nzb'' else if route \<in> set TORRENT_ROUTES then ''torrent'' else route)"

record hworld =
  hw_world :: pworld
  hw_health :: "(string \<times> bool \<times> string option) list"

definition record_route_health :: "string \<Rightarrow> bool \<Rightarrow> string option \<Rightarrow> hworld \<Rightarrow> hworld" where
  "record_route_health route success err h =
     (if route_family route \<in> {''nzb'', ''torrent'', ''ddl''}
      then h\<lparr>hw_health := hw_health h @ [(route_family route, success, err)]\<rparr> else h)"

section \<open>Reservation\<close>

text \<open>\<open>HRaised\<close> carries the class name of any other exception.\<close>

datatype herror = HReservation string | HAcceptance | HBlocked | HRaised string

definition no_reservation :: string where
  "no_reservation = ''durable handoff reservation was not acquired''"

definition reservation_refusal :: "pworld \<Rightarrow> string \<Rightarrow> string" where
  "reservation_refusal w key =
     (case jrow_of w key of
        None \<Rightarrow> no_reservation
      | Some r \<Rightarrow>
          if jr_stage r = Post_processed then ''handoff blocked: '' @ key @ '' is post_processed; library still holds this issue''
          else if jr_stage r \<noteq> Manual_review then no_reservation
          else ''handoff blocked: '' @ key @ '' awaiting operator review (''
               @ (if present (jr_fail_reason r) then the (jr_fail_reason r) else ''no reason recorded'') @ '')'')"

text \<open>\<open>downloader_type\<close> is given beside \<open>**fields\<close>, so a field of that name is a duplicate keyword.\<close>

definition typed_fields :: "string \<Rightarrow> jfields \<Rightarrow> herror + jfields" where
  "typed_fields route fs =
     (if CDownloader_type \<in> fst ` set fs then Inl (HRaised ''TypeError'') else Inr ((CDownloader_type, Some route) # fs))"

definition reserve :: "penv \<Rightarrow> string \<Rightarrow> string \<Rightarrow> payload \<Rightarrow> jfields \<Rightarrow> pworld \<Rightarrow> (herror + unit) \<times> pworld" where
  "reserve env key route payload fs w =
     (case typed_fields route fs of
        Inl e \<Rightarrow> (Inl e, w)
      | Inr tfs \<Rightarrow>
          (case transition_own env w key ''reserved'' (VDict (dict_set ''route'' (VStr route) payload)) tfs of
             Inl e \<Rightarrow> (Inl (HRaised (jerror_name e)), w)
           | Inr (won, w') \<Rightarrow> (if won then Inr () else Inl (HReservation (reservation_refusal w' key)), w')))"

section \<open>Acceptance\<close>

record acceptance =
  ac_route :: string
  ac_id :: "string option"
  ac_safe :: bool
  ac_review :: bool

definition acceptance_identity :: "string \<Rightarrow> payload \<Rightarrow> string option \<times> pval" where
  "acceptance_identity route response =
     (if route = ''sabnzbd'' then (Some ''nzo_id'', pv_get response ''nzo_id'')
      else if route = ''nzbget'' then (Some ''NZBID'', pv_get response ''NZBID'')
      else if route = ''ddl'' then (Some ''ddl_id'', pv_or (pv_get response ''ddl_id'') (pv_get response ''id''))
      else if route \<in> set TORRENT_ROUTES then (Some ''hash'', pv_get response ''hash'')
      else (None, VNone))"

definition handoff_entry :: "entry_kind \<Rightarrow> string \<Rightarrow> string \<Rightarrow> string \<Rightarrow> payload \<Rightarrow> jfields \<Rightarrow> entry" where
  "handoff_entry kind key route reason payload fs =
     (blank_entry kind key reason (VDict payload))
       \<lparr>en_issueid := field_get fs CIssueid, en_provider := field_get fs CProvider, en_dtype := Some route,
        en_nzbname := field_get fs CNzbname, en_hash := field_get fs CHash\<rparr>"

definition explicit_rejection :: "pval \<Rightarrow> bool" where
  "explicit_rejection response \<longleftrightarrow>
     response = VBool False \<or> response = VStr ''fail'' \<or> pv_get (as_dict response) ''status'' = VBool False"

text \<open>The payload of an accepted release; \<open>dict(...)\<close> of a \<open>download_info\<close> that is no object raises.\<close>

definition accepted_payload :: "string \<Rightarrow> payload \<Rightarrow> payload \<Rightarrow> herror + payload" where
  "accepted_payload route response payload =
     (let (ik, ident) = acceptance_identity route response;
          p = dict_set ''client'' (VStr route) (dict_set ''route'' (VStr route) payload);
          s = VStr (py_str ident)
      in if ik = None \<or> ident \<in> {VNone, VStr []} then Inr p
         else if ik = Some ''nzo_id'' then
           (let q = dict_set ''nzo_id'' s p in
            case pv_or (pv_get q ''download_info'') (VDict []) of
              VDict di \<Rightarrow> Inr (dict_set ''download_info'' (VDict (dict_set ''nzo_id'' s di)) q)
            | VStr _ \<Rightarrow> Inl (HRaised ''ValueError'')
            | _ \<Rightarrow> Inl (HRaised ''TypeError''))
         else Inr (dict_set (the ik) s p))"

definition acceptance_fields :: "string \<Rightarrow> payload \<Rightarrow> jfields \<Rightarrow> jfields" where
  "acceptance_fields route response fs =
     (case acceptance_identity route response of
        (ik, ident) \<Rightarrow>
          if ik = Some ''hash'' \<and> ident \<notin> {VNone, VStr []} \<and> CHash \<notin> fst ` set fs
          then fs @ [(CHash, Some (py_str ident))] else fs)"

definition record_rejection :: "penv \<Rightarrow> string \<Rightarrow> string \<Rightarrow> jfields \<Rightarrow> hworld \<Rightarrow> (herror + acceptance) \<times> hworld" where
  "record_rejection env key route fs h =
     (case record_own env (hw_world h) (handoff_entry (Failure None) key route ''submission_rejected'' [(''route'', VStr route)] fs) of
        Inl e \<Rightarrow> (Inl (HRaised (jerror_name e)), h)
      | Inr (_, w') \<Rightarrow>
          (Inr \<lparr>ac_route = route, ac_id = None, ac_safe = False, ac_review = False\<rparr>,
           record_route_health route False (Some ''submission_rejected'') (h\<lparr>hw_world := w'\<rparr>)))"

definition unsafe_reason :: "string \<Rightarrow> string" where
  "unsafe_reason route =
     (if route \<notin> set RESTART_SAFE_ROUTES then ''route_not_restart_safe:'' @ route
      else ''route_acceptance_missing_identity:'' @ route)"

definition record_unsafe ::
  "penv \<Rightarrow> string \<Rightarrow> string \<Rightarrow> pval \<Rightarrow> payload \<Rightarrow> jfields \<Rightarrow> hworld \<Rightarrow> (herror + acceptance) \<times> hworld" where
  "record_unsafe env key route ident payload fs h =
     (case record_own env (hw_world h) (handoff_entry ManualReview key route (unsafe_reason route) payload fs) of
        Inl e \<Rightarrow> (Inl (HRaised (jerror_name e)), h)
      | Inr (_, w') \<Rightarrow>
          (Inr \<lparr>ac_route = route, ac_id = (if truthy ident then Some (py_str ident) else None), ac_safe = False,
                ac_review = True\<rparr>,
           record_route_health route (truthy ident) (Some (unsafe_reason route)) (h\<lparr>hw_world := w'\<rparr>)))"

definition record_snatched ::
  "penv \<Rightarrow> string \<Rightarrow> string \<Rightarrow> pval \<Rightarrow> payload \<Rightarrow> jfields \<Rightarrow> hworld \<Rightarrow> (herror + acceptance) \<times> hworld" where
  "record_snatched env key route ident payload fs h =
     (case typed_fields route fs of
        Inl _ \<Rightarrow> (Inl HAcceptance, record_route_health route False (Some ''acceptance_persistence_failed'') h)
      | Inr tfs \<Rightarrow>
          (case transition_own env (hw_world h) key ''snatched'' (VDict payload) tfs of
             Inl _ \<Rightarrow> (Inl HAcceptance, record_route_health route False (Some ''acceptance_persistence_failed'') h)
           | Inr (won, w') \<Rightarrow>
               if \<not> won \<and> (case jrow_of w' key of None \<Rightarrow> True | Some r \<Rightarrow> jr_stage r \<noteq> Snatched)
               then (Inl HAcceptance, h\<lparr>hw_world := w'\<rparr>)
               else (Inr \<lparr>ac_route = route, ac_id = Some (py_str ident), ac_safe = True, ac_review = False\<rparr>,
                     record_route_health route True None (h\<lparr>hw_world := w'\<rparr>))))"

text \<open>\<open>record_acceptance\<close> for a route already normalized.\<close>

definition record_acceptance ::
  "penv \<Rightarrow> string \<Rightarrow> string \<Rightarrow> pval \<Rightarrow> payload \<Rightarrow> jfields \<Rightarrow> hworld \<Rightarrow> (herror + acceptance) \<times> hworld" where
  "record_acceptance env key route response payload fs h =
     (let r = as_dict response; ident = snd (acceptance_identity route r); afs = acceptance_fields route r fs in
      if explicit_rejection response then record_rejection env key route fs h
      else case accepted_payload route r payload of
        Inl e \<Rightarrow> (Inl e, h)
      | Inr p \<Rightarrow>
          if route \<in> set RESTART_SAFE_ROUTES \<and> truthy ident then record_snatched env key route ident p afs h
          else record_unsafe env key route ident p afs h)"

section \<open>The handoff\<close>

type_synonym sender = "pworld \<Rightarrow> (string + pval) \<times> pworld"
type_synonym finalizer = "pval \<Rightarrow> acceptance \<Rightarrow> pworld \<Rightarrow> string option \<times> pworld"

record handoff_call =
  hc_key :: string
  hc_route :: "string option"
  hc_payload :: payload
  hc_owner :: string
  hc_resume :: bool
  hc_fields :: jfields

text \<open>A sender that raises: the outcome is unknown, so the row goes to an operator; a failure to record that is
  only logged.\<close>

definition ambiguous_submission :: "penv \<Rightarrow> handoff_call \<Rightarrow> string \<Rightarrow> hworld \<Rightarrow> hworld" where
  "ambiguous_submission env c name h =
     (let route = normalize_route (hc_route c);
          h1 = record_route_health route False (Some ''submission_outcome_unknown'') h in
      case record_own env (hw_world h1)
             (handoff_entry ManualReview (hc_key c) route (''submission_outcome_unknown:'' @ name) [(''route'', VStr route)] (hc_fields c)) of
        Inl _ \<Rightarrow> h1 | Inr (_, w') \<Rightarrow> h1\<lparr>hw_world := w'\<rparr>)"

definition handoff_reserve :: "penv \<Rightarrow> handoff_call \<Rightarrow> pworld \<Rightarrow> (herror + unit) \<times> pworld" where
  "handoff_reserve env c w =
     (if hc_resume c then
        (case jrow_of w (hc_key c) of
           Some r \<Rightarrow> if jr_stage r = Snatched then (Inr (), w)
                      else (Inl (HReservation ''accepted handoff cannot be resumed from its current stage''), w)
         | None \<Rightarrow> (Inl (HReservation ''accepted handoff cannot be resumed from its current stage''), w))
      else reserve env (hc_key c) (normalize_route (hc_route c)) (hc_payload c) (hc_fields c) w)"

text \<open>From the answer on: the outcome noted for the lease, the result, and the world.\<close>

definition handoff_accept ::
  "finalizer option \<Rightarrow> penv \<Rightarrow> handoff_call \<Rightarrow> pval \<Rightarrow> hworld \<Rightarrow> string \<times> (herror + pval \<times> acceptance) \<times> hworld" where
  "handoff_accept fin env c response h =
     (case record_acceptance env (hc_key c) (normalize_route (hc_route c)) response (hc_payload c) (hc_fields c) h of
        (Inl e, h') \<Rightarrow> (''handoff_failed'', Inl e, h')
      | (Inr a, h') \<Rightarrow>
          (let ok = (if ac_safe a then ''accepted'' else ''manual_review'') in
           case fin of
             None \<Rightarrow> (ok, Inr (response, a), h')
           | Some f \<Rightarrow>
               (case f response a (hw_world h') of
                  (Some name, w') \<Rightarrow> (''handoff_failed'', Inl (HRaised name), h'\<lparr>hw_world := w'\<rparr>)
                | (None, w') \<Rightarrow> (ok, Inr (response, a), h'\<lparr>hw_world := w'\<rparr>))))"

definition handoff_leased ::
  "sender \<Rightarrow> finalizer option \<Rightarrow> penv \<Rightarrow> handoff_call \<Rightarrow> lease \<Rightarrow> hworld
   \<Rightarrow> string \<times> (herror + pval \<times> acceptance) \<times> hworld" where
  "handoff_leased send fin env c l h =
     (if \<not> assert_lease_current (pw_maint (hw_world h)) l (pe_now env) then (''handoff_failed'', Inl HBlocked, h)
      else case handoff_reserve env c (hw_world h) of
        (Inl e, w1) \<Rightarrow> (''handoff_failed'', Inl e, h\<lparr>hw_world := w1\<rparr>)
      | (Inr _, w1) \<Rightarrow>
          if \<not> assert_lease_current (pw_maint w1) l (pe_now env) then (''handoff_failed'', Inl HBlocked, h\<lparr>hw_world := w1\<rparr>)
          else (case send w1 of
              (Inl name, w2) \<Rightarrow>
                (''submission_outcome_unknown'', Inl (HRaised name), ambiguous_submission env c name (h\<lparr>hw_world := w2\<rparr>))
            | (Inr response, w2) \<Rightarrow> handoff_accept fin env c response (h\<lparr>hw_world := w2\<rparr>)))"

text \<open>\<open>perform_handoff\<close>: the two nested \<open>finally\<close> blocks settle the permit and give the lease back.\<close>

definition perform_handoff ::
  "sender \<Rightarrow> finalizer option \<Rightarrow> penv \<Rightarrow> handoff_call \<Rightarrow> hworld \<Rightarrow> (herror + pval \<times> acceptance) \<times> hworld" where
  "perform_handoff send fin env c h =
     (case handoff_lease (pe_operator env) (pw_maint (hw_world h)) (hc_owner c) (hc_key c) (normalize_route (hc_route c))
             (pe_lease env) (pe_now env) of
        Inl e \<Rightarrow> (Inl (if e = MBlocked then HBlocked else HRaised (merror_name e)), h)
      | Inr (l, m) \<Rightarrow>
          (case handoff_leased send fin env c l (h\<lparr>hw_world := (hw_world h)\<lparr>pw_maint := m\<rparr>\<rparr>) of
             (out, res, h') \<Rightarrow>
               let m1 = snd (complete_canary_handoff (pw_maint (hw_world h')) l (Some out));
                   m2 = snd (release_lease m1 (ls_id l) (pe_now env))
               in (res, h'\<lparr>hw_world := (hw_world h')\<lparr>pw_maint := m2\<rparr>\<rparr>)))"

end
