(* ===== verification/HandoffProps.thy ===== *)
theory HandoffProps
  imports Handoff PostProcessProps MaintenanceProps
begin

text \<open>
  The properties of a handoff: nothing is submitted that is not reserved, nothing is submitted twice, an answer that
  never came is an operator's question, and the lease held across the submission is always given back.
\<close>

section \<open>Leases of a handoff\<close>

lemma handoff_lease_id: "handoff_lease opr s owner key route i now = Inr (l, t) \<Longrightarrow> ls_id l = i"
  by (auto dest!: handoff_cases acquire_lease_cases simp: acquire_canary_handoff_lease_def Let_def split: if_splits option.splits)

text \<open>The lease taken for this handoff is still good.\<close>

definition lease_held :: "penv \<Rightarrow> pworld \<Rightarrow> bool" where
  "lease_held env w \<longleftrightarrow> (\<exists>l. ls_id l = pe_lease env \<and> assert_lease_current (pw_maint w) l (pe_now env))"

section \<open>Nothing is submitted that is not reserved\<close>

lemma reserved_stage [simp]: "stage_of_string ''reserved'' = Some Reserved" "stage_of_string ''snatched'' = Some Snatched"
  by (simp_all add: stage_of_string_def)

lemma reserve_won:
  assumes "reserve env key route payload fs w = (Inr u, w')"
  shows "(\<exists>r. jrow_of w' key = Some r \<and> jr_stage r = Reserved) \<and> pw_maint w' = pw_maint w"
proof -
  obtain tfs where t: "transition_own env w key ''reserved'' (VDict (dict_set ''route'' (VStr route) payload)) tfs = Inr (True, w')"
    using assms by (auto simp: reserve_def split: sum.splits prod.splits if_splits)
  then obtain j where j: "record_transition (jenv_of env w) None (pw_journal w) key ''reserved''
      (VDict (dict_set ''route'' (VStr route) payload)) tfs (pe_now env) = Inr (True, j)" and w': "w' = w\<lparr>pw_journal := j\<rparr>"
    by (rule transition_own_cases)
  have "row_effect (jenv_of env w) Reserved (js_row (pw_journal w) key) True (js_row j key)"
    using record_transition_effect [OF j reserved_stage(1)] by blast
  then show ?thesis by (auto simp: w' jrow_of_def elim: effect_won)
qed

lemma handoff_reserve_ok:
  assumes "handoff_reserve env c w = (Inr u, w')"
  shows "(\<exists>r. jrow_of w' (hc_key c) = Some r \<and> jr_stage r = (if hc_resume c then Snatched else Reserved))
    \<and> pw_maint w' = pw_maint w"
  using assms reserve_won [of env "hc_key c" "normalize_route (hc_route c)" "hc_payload c" "hc_fields c" w u w']
  by (auto simp: handoff_reserve_def split: if_splits option.splits)

definition submittable :: "penv \<Rightarrow> handoff_call \<Rightarrow> pworld \<Rightarrow> bool" where
  "submittable env c w \<longleftrightarrow>
     (\<exists>r. jrow_of w (hc_key c) = Some r \<and> jr_stage r = (if hc_resume c then Snatched else Reserved))
     \<and> lease_held env w"

lemma leased_same_sender:
  assumes "ls_id l = pe_lease env" and "\<And>w. submittable env c w \<Longrightarrow> send w = send' w"
  shows "handoff_leased send fin env c l h = handoff_leased send' fin env c l h"
proof -
  obtain x w1 where r: "handoff_reserve env c (hw_world h) = (x, w1)" by force
  show ?thesis
  proof (cases x)
    case (Inr u)
    have "send w1 = send' w1" if "assert_lease_current (pw_maint w1) l (pe_now env)"
      using assms(1) handoff_reserve_ok r Inr that by (intro assms(2)) (auto simp: submittable_def lease_held_def)
    then show ?thesis using r Inr by (auto simp: handoff_leased_def)
  qed (simp add: handoff_leased_def r)
qed


section \<open>Nothing is submitted twice\<close>

lemma reserve_lost:
  assumes "journal_wf (pw_journal w)" and "jrow_of w key = Some r" and "\<not> is_supersedable_terminal (jenv_of env w) r"
  shows "fst (reserve env key route payload fs w) \<noteq> Inr u"
proof
  assume "fst (reserve env key route payload fs w) = Inr u"
  then obtain w' where "reserve env key route payload fs w = (Inr u, w')" by (metis prod.collapse)
  then obtain tfs where "transition_own env w key ''reserved'' (VDict (dict_set ''route'' (VStr route) payload)) tfs = Inr (True, w')"
    by (auto simp: reserve_def split: sum.splits prod.splits if_splits)
  then obtain j where j: "record_transition (jenv_of env w) None (pw_journal w) key ''reserved''
      (VDict (dict_set ''route'' (VStr route) payload)) tfs (pe_now env) = Inr (True, j)"
    by (rule transition_own_cases)
  have e: "row_effect (jenv_of env w) Reserved (Some r) True (js_row j key)"
    using record_transition_effect [OF j reserved_stage(1)] assms(2) by (simp add: jrow_of_def)
  have "STAGE_RANK Reserved \<le> STAGE_RANK (jr_stage r)" by (cases "jr_stage r") simp_all
  then have "\<not> jr_rank r < STAGE_RANK Reserved" using journal_wfD [OF assms(1)] assms(2) by (simp add: jrow_of_def)
  with e assms(3) show False by (auto elim: effect_from_some)
qed

lemma release_lease_frame [simp]: "journal_wf (pw_journal (w\<lparr>pw_maint := m\<rparr>)) = journal_wf (pw_journal w)"
  by simp


section \<open>What an accepted handoff leaves behind\<close>

lemma snatched_recorded:
  assumes "record_snatched env key route i p fs h = (Inr a, h')"
  shows "ac_safe a \<and> ac_id a = Some (py_str i) \<and> (\<exists>q. jrow_of (hw_world h') key = Some q \<and> jr_stage q = Snatched)"
proof -
  obtain tfs won w' where t: "transition_own env (hw_world h) key ''snatched'' (VDict p) tfs = Inr (won, w')"
    and a: "a = \<lparr>ac_route = route, ac_id = Some (py_str i), ac_safe = True, ac_review = False\<rparr>"
    and h': "hw_world h' = w'" and st: "won \<or> (\<exists>q. jrow_of w' key = Some q \<and> jr_stage q = Snatched)"
    using assms by (auto simp: record_snatched_def record_route_health_def split: sum.splits prod.splits if_splits option.splits)
  have "\<exists>q. jrow_of w' key = Some q \<and> jr_stage q = Snatched" if won
  proof -
    obtain j where j: "record_transition (jenv_of env (hw_world h)) None (pw_journal (hw_world h)) key ''snatched'' (VDict p) tfs (pe_now env)
        = Inr (won, j)" and w': "w' = (hw_world h)\<lparr>pw_journal := j\<rparr>"
      using t by (rule transition_own_cases)
    have "row_effect (jenv_of env (hw_world h)) Snatched (js_row (pw_journal (hw_world h)) key) True (js_row j key)"
      using record_transition_effect [OF j reserved_stage(2)] that by simp
    then show ?thesis by (auto simp: w' jrow_of_def elim: effect_won)
  qed
  with st a h' show ?thesis by auto
qed

lemma acceptance_kinds:
  assumes "record_acceptance env key route resp p fs h = (Inr a, h')" and "ac_safe a"
  shows "route \<in> set RESTART_SAFE_ROUTES \<and> truthy (snd (acceptance_identity route (as_dict resp)))
    \<and> \<not> explicit_rejection resp
    \<and> ac_id a = Some (py_str (snd (acceptance_identity route (as_dict resp))))
    \<and> (\<exists>q. jrow_of (hw_world h') key = Some q \<and> jr_stage q = Snatched)"
proof -
  have nr: "\<not> explicit_rejection resp"
    using assms by (auto simp: record_acceptance_def record_rejection_def Let_def split: sum.splits)
  obtain pl where pl: "accepted_payload route (as_dict resp) p = Inr pl"
    using assms(1) nr by (auto simp: record_acceptance_def Let_def split: sum.splits)
  let ?i = "snd (acceptance_identity route (as_dict resp))"
  have safe: "route \<in> set RESTART_SAFE_ROUTES \<and> truthy ?i"
  proof (rule ccontr)
    assume "\<not> ?thesis"
    then have "record_unsafe env key route ?i pl (acceptance_fields route (as_dict resp) fs) h = (Inr a, h')"
      using assms(1) nr pl by (auto simp: record_acceptance_def Let_def)
    then show False using assms(2) by (auto simp: record_unsafe_def split: sum.splits)
  qed
  then have "record_snatched env key route ?i pl (acceptance_fields route (as_dict resp) fs) h = (Inr a, h')"
    using assms(1) nr pl by (simp add: record_acceptance_def Let_def)
  from snatched_recorded [OF this] safe nr show ?thesis by blast
qed


section \<open>Submissions that break off\<close>

lemma fresh_lease:
  assumes "gate_open env w" and "owner \<noteq> []"
  shows "\<exists>l m. handoff_lease (pe_operator env) (pw_maint w) owner key route (pe_lease env) (pe_now env) = Inr (l, m)
    \<and> assert_lease_current m l (pe_now env)"
  using assms
  by (simp add: gate_open_def handoff_lease_def acquire_lease_def lease_active_def assert_lease_current_def del: not_None_eq)

lemma fresh_reserve:
  assumes "healthy env" and "journal_wf (pw_journal w)" and "jrow_of w key = None" and "CDownloader_type \<notin> fst ` set fs"
  shows "\<exists>j r. reserve env key route payload fs w = (Inr (), w\<lparr>pw_journal := j\<rparr>) \<and> journal_wf j
    \<and> js_row j key = Some r \<and> jr_stage r = Reserved"
proof -
  let ?fs = "(CDownloader_type, Some route) # fs" and ?p = "VDict (dict_set ''route'' (VStr route) payload)"
  obtain j where j: "record_transition (jenv_of env w) None (pw_journal w) key ''reserved'' ?p ?fs (pe_now env) = Inr (True, j)"
    using assms(3) by (simp add: record_transition_def apply_transition_def insert_or_race_def jrow_of_def Let_def)
  have "row_effect (jenv_of env w) Reserved None True (js_row j key)"
    using record_transition_effect [OF j reserved_stage(1)] assms(3) by (simp add: jrow_of_def)
  then obtain r where "js_row j key = Some r" "jr_stage r = Reserved" by (auto elim: effect_won)
  moreover have "reserve env key route payload fs w = (Inr (), w\<lparr>pw_journal := j\<rparr>)"
    using j assms(1,4) by (simp add: reserve_def typed_fields_def transition_own_def record_transition_own_def own_healthy)
  ultimately show ?thesis using record_transition_wf [OF assms(2) j] by blast
qed

lemma base_reason_token:
  assumes "t \<noteq> []" and "CHR '':'' \<notin> set t" and "\<not> py_isspace (hd t)" 
  shows "base_reason (Some (t @ CHR '':'' # rest)) = Some t"
proof -
  have l: "py_lstrip (t @ CHR '':'' # rest) = t @ CHR '':'' # rest"
    using assms(1,3) by (cases t) (simp_all add: py_lstrip_def)
  have "\<not> py_isspace CHR '':''" by code_simp
  then have "dropWhile py_isspace (rev rest @ CHR '':'' # rev t) = dropWhile py_isspace (rev rest) @ CHR '':'' # rev t"
    by (induction "rev rest" rule: rev_induct) (auto simp: dropWhile_append3 dropWhile_append)
  then have "py_strip (t @ CHR '':'' # rest) = t @ CHR '':'' # py_rstrip rest"
    by (simp add: py_strip_def l py_rstrip_def)
  moreover have "takeWhile (\<lambda>x. x \<noteq> CHR '':'') (t @ CHR '':'' # py_rstrip rest) = t"
    by (rule trans [OF takeWhile_append2]) (use assms(2) in auto)
  ultimately show ?thesis using assms(1) by (simp add: base_reason_def hd_py_split)
qed

lemma unknown_outcome_shown: "reconciliation_for (Some (''submission_outcome_unknown:'' @ name)) = None"
proof -
  have "base_reason (Some (''submission_outcome_unknown'' @ CHR '':'' # name)) = Some ''submission_outcome_unknown''"
    by (rule base_reason_token) (simp, simp, code_simp)
  then show ?thesis by (simp add: reconciliation_for_def RECONCILIATION_def)
qed

text \<open>C34: A submission whose outcome is unknown is never retried silently: when the client call breaks off, the
  caller sees its exception and the row of the release is parked for an operator, even though the client may have
  accepted it.\<close>

theorem broken_submission_goes_to_operator:
  assumes "gate_open env (hw_world h)" and "healthy env" and "journal_wf (pw_journal (hw_world h))"
    and "jrow_of (hw_world h) (hc_key c) = None" and "hc_owner c \<noteq> []" and "\<not> hc_resume c"
    and "CDownloader_type \<notin> fst ` set (hc_fields c)"
    and "\<And>w. \<exists>u. send w = (Inl name, u) \<and> pw_journal u = pw_journal w"
  shows "\<exists>h' q. perform_handoff send fin env c h = (Inl (HRaised name), h')
    \<and> jrow_of (hw_world h') (hc_key c) = Some q \<and> jr_stage q = Manual_review"
proof -
  let ?key = "hc_key c" and ?route = "normalize_route (hc_route c)"
  obtain l m where l: "handoff_lease (pe_operator env) (pw_maint (hw_world h)) (hc_owner c) ?key ?route (pe_lease env) (pe_now env) = Inr (l, m)"
    and cur: "assert_lease_current m l (pe_now env)"
    using fresh_lease [OF assms(1,5)] by blast
  let ?h = "h\<lparr>hw_world := (hw_world h)\<lparr>pw_maint := m\<rparr>\<rparr>"
  obtain j r where res: "reserve env ?key ?route (hc_payload c) (hc_fields c) (hw_world ?h) = (Inr (), (hw_world ?h)\<lparr>pw_journal := j\<rparr>)"
    and j: "journal_wf j" "js_row j ?key = Some r" "jr_stage r = Reserved"
    using fresh_reserve [of env "hw_world ?h" ?key "hc_fields c" ?route "hc_payload c"] assms(2-4,7) by (auto simp: maint_frame)
  obtain u where u: "send ((hw_world ?h)\<lparr>pw_journal := j\<rparr>) = (Inl name, u)" "pw_journal u = j"
    using assms(8) [of "(hw_world ?h)\<lparr>pw_journal := j\<rparr>"] by auto
  let ?h2 = "?h\<lparr>hw_world := u\<rparr>"
  have body: "handoff_leased send fin env c l ?h = (''submission_outcome_unknown'', Inl (HRaised name), ambiguous_submission env c name ?h2)"
    using cur res u(1) assms(6) by (simp add: handoff_leased_def handoff_reserve_def)
  have "\<exists>q. jrow_of (hw_world (ambiguous_submission env c name ?h2)) ?key = Some q \<and> jr_stage q = Manual_review"
  proof -
    let ?en = "handoff_entry ManualReview ?key ?route (''submission_outcome_unknown:'' @ name) [(''route'', VStr ?route)] (hc_fields c)"
    have nt: "\<not> is_terminal (jr_stage r)" using j(3) by (simp add: is_terminal_def TERMINAL_STAGES_def)
    have row: "jrow_of u ?key = Some r" using u(2) j(2) by (simp add: jrow_of_def)
    obtain ro w' q where "record_own env u ?en = Inr (ro, w')" "jrow_of w' ?key = Some q" "jr_stage q = Manual_review"
      using record_own_parks [OF assms(2) _ row nt, of ?en] u(2) j(1) unknown_outcome_shown
      by (auto simp: handoff_entry_def blank_entry_def)
    then show ?thesis by (simp add: ambiguous_submission_def Let_def record_route_health_def)
  qed
  then show ?thesis using l body by (auto simp: perform_handoff_def Let_def)
qed

section \<open>The lease is given back\<close>

definition keeps_leases :: "sender \<Rightarrow> finalizer option \<Rightarrow> bool" where
  "keeps_leases send fin \<longleftrightarrow> (\<forall>w. pw_maint (snd (send w)) = pw_maint w)
     \<and> (case fin of None \<Rightarrow> True | Some f \<Rightarrow> \<forall>r a w. pw_maint (snd (f r a w)) = pw_maint w)"

lemma own_writes_maint:
  "transition_own env w key stage p fs = Inr (b, w') \<Longrightarrow> pw_maint w' = pw_maint w"
  "record_own env w en = Inr (ro, w') \<Longrightarrow> pw_maint w' = pw_maint w"
  by (auto simp: transition_own_def record_own_def split: sum.splits prod.splits)

lemma health_frame [simp]: "hw_world (record_route_health route b e h) = hw_world h"
  by (simp add: record_route_health_def)

lemma acceptance_maint:
  "record_acceptance env key route resp p fs h = (x, h') \<Longrightarrow> pw_maint (hw_world h') = pw_maint (hw_world h)"
  by (auto simp: record_acceptance_def record_rejection_def record_unsafe_def record_snatched_def Let_def
      dest!: own_writes_maint split: if_splits sum.splits prod.splits)

lemma reserve_maint:
  "handoff_reserve env c w = (x, w') \<Longrightarrow> pw_maint w' = pw_maint w"
  by (auto simp: handoff_reserve_def reserve_def dest!: own_writes_maint split: if_splits sum.splits prod.splits option.splits)

lemma accept_maint:
  assumes "handoff_accept fin env c resp h = (out, res, h')" and "keeps_leases send fin"
  shows "pw_maint (hw_world h') = pw_maint (hw_world h)"
proof -
  obtain x h1 where x: "record_acceptance env (hc_key c) (normalize_route (hc_route c)) resp (hc_payload c) (hc_fields c) h = (x, h1)"
    by force
  note m = acceptance_maint [OF x]
  show ?thesis
  proof (cases x)
    case (Inl e)
    then show ?thesis using assms(1) x m by (simp add: handoff_accept_def)
  next
    case (Inr a)
    show ?thesis
    proof (cases fin)
      case None
      then show ?thesis using assms(1) x Inr m by (simp add: handoff_accept_def Let_def)
    next
      case (Some f)
      obtain y w where y: "f resp a (hw_world h1) = (y, w)" by force
      have "pw_maint w = pw_maint (hw_world h1)" using assms(2) Some y by (simp add: keeps_leases_def) (metis snd_conv)
      then show ?thesis using assms(1) x Inr m Some y by (auto simp: handoff_accept_def Let_def split: option.splits)
    qed
  qed
qed

lemma leased_maint:
  assumes "handoff_leased send fin env c l h = (out, res, h')" and "keeps_leases send fin"
  shows "pw_maint (hw_world h') = pw_maint (hw_world h)"
proof -
  obtain x w1 where r: "handoff_reserve env c (hw_world h) = (x, w1)" by force
  obtain y w2 where s: "send w1 = (y, w2)" by force
  have m: "pw_maint w1 = pw_maint (hw_world h)" "pw_maint w2 = pw_maint w1"
    using reserve_maint [OF r] assms(2) s by (auto simp: keeps_leases_def) (metis snd_conv)
  have a: "pw_maint (hw_world (ambiguous_submission env c name (h\<lparr>hw_world := w2\<rparr>))) = pw_maint w2" for name
    by (auto simp: ambiguous_submission_def Let_def dest!: own_writes_maint split: sum.splits)
  show ?thesis
    using assms(1) r s m a accept_maint [OF _ assms(2), where h = "h\<lparr>hw_world := w2\<rparr>"]
    by (cases x; cases y) (auto simp: handoff_leased_def split: if_splits)
qed

lemma dict_set_fresh: "k \<notin> fst ` set d \<Longrightarrow> dict_set k v d = d @ [(k, v)]"
  unfolding dict_set_def by (induction d) auto

lemma dict_set_last: "k \<notin> fst ` set d \<Longrightarrow> dict_set k v (d @ [(k, u)]) = d @ [(k, v)]"
  unfolding dict_set_def by (induction d) auto

lemma handoff_lease_new:
  assumes "handoff_lease opr s owner key route i now = Inr (l, t)" and "get_lease s i = None"
  shows "\<exists>row. ms_leases t = ms_leases s @ [(i, row)] \<and> lease_active row" and "i \<notin> fst ` set (ms_leases s)"
proof -
  show n: "i \<notin> fst ` set (ms_leases s)" using assms(2) by (auto simp: get_lease_def dict_get_def map_of_eq_None_iff)
  show "\<exists>row. ms_leases t = ms_leases s @ [(i, row)] \<and> lease_active row"
    using handoff_cases [OF assms(1)]
  proof
    assume a: "acquire_lease opr s owner ''external-handoff'' (Some ''release'') (Some key) i now = Inr (l, t)"
    from acquire_lease_cases [OF a] assms(2) show ?thesis
      by (auto simp: put_lease_def dict_set_fresh [OF n] lease_active_def)
  next
    assume "acquire_canary_handoff_lease s owner key route i now = Inr (l, t)"
    then show ?thesis by (rule canary_cases) (auto simp: put_lease_def dict_set_fresh [OF n] lease_active_def)
  qed
qed

text \<open>A handoff always gives its lease back: whatever the client answers or raises and wherever the handoff
  stops, the leases active afterwards are those active before, so maintenance never waits for a submission that is
  over.\<close>

theorem handoff_returns_lease:
  assumes "get_lease (pw_maint (hw_world h)) (pe_lease env) = None" and "keeps_leases send fin"
    and "perform_handoff send fin env c h = (res, h')"
  shows "active_leases (pw_maint (hw_world h')) = active_leases (pw_maint (hw_world h))"
proof (cases "handoff_lease (pe_operator env) (pw_maint (hw_world h)) (hc_owner c) (hc_key c) (normalize_route (hc_route c))
    (pe_lease env) (pe_now env)")
  case (Inl e)
  then show ?thesis using assms(3) by (simp add: perform_handoff_def)
next
  case (Inr lm)
  let ?s = "pw_maint (hw_world h)" and ?i = "pe_lease env" and ?now = "pe_now env"
  obtain l m where lm: "lm = (l, m)" by (cases lm)
  note new = handoff_lease_new [OF Inr [unfolded lm] assms(1)]
  obtain row where row: "ms_leases m = ms_leases ?s @ [(?i, row)]" "lease_active row" using new(1) by blast
  obtain out x h1 where b: "handoff_leased send fin env c l (h\<lparr>hw_world := (hw_world h)\<lparr>pw_maint := m\<rparr>\<rparr>) = (out, x, h1)"
    by (cases "handoff_leased send fin env c l (h\<lparr>hw_world := (hw_world h)\<lparr>pw_maint := m\<rparr>\<rparr>)") auto
  have m1: "pw_maint (hw_world h1) = m" using leased_maint [OF b assms(2)] by simp
  let ?m1 = "snd (complete_canary_handoff m l (Some out))"
  have l1: "ms_leases ?m1 = ms_leases m" by (auto simp: complete_canary_handoff_def split: option.splits)
  have "get_lease ?m1 ?i = Some row"
    using new(2) by (simp add: get_lease_def l1 row dict_get_def map_add_def map_of_eq_None_iff [THEN iffD2])
  then have "ms_leases (snd (release_lease ?m1 ?i ?now)) = ms_leases ?s @ [(?i, row\<lparr>lz_heartbeat := ?now, lz_released := Some ?now\<rparr>)]"
    using row(2) by (simp add: release_lease_def put_lease_def l1 row(1) dict_set_last [OF new(2)])
  moreover have "pw_maint (hw_world h') = snd (release_lease ?m1 ?i ?now)"
    using assms(3) Inr lm b m1 handoff_lease_id [OF Inr [unfolded lm]] by (auto simp: perform_handoff_def Let_def)
  ultimately show ?thesis by (simp add: active_leases_def lease_active_def)
qed

section \<open>Instances\<close>

definition demo_call :: handoff_call where
  "demo_call = \<lparr>hc_key = ''42|nzbgeek'', hc_route = Some '' SAB'', hc_payload = [], hc_owner = ''acquisition-handoff'',
     hc_resume = False, hc_fields = [(CIssueid, Some ''42''), (CProvider, Some ''nzbgeek'')]\<rparr>"

definition fresh_hworld :: hworld where
  "fresh_hworld = \<lparr>hw_world = (demo_world Snatched ''Wanted'' 0)\<lparr>pw_journal := \<lparr>js_rows = [], js_obligations = [], js_activity = []\<rparr>\<rparr>,
     hw_health = []\<rparr>"

definition taken_hworld :: hworld where
  "taken_hworld = \<lparr>hw_world = demo_world Snatched ''Wanted'' 0, hw_health = []\<rparr>"

definition answers :: sender where
  "answers w = (Inr (VDict [(''status'', VBool True), (''nzo_id'', VStr ''N1'')]), w)"

definition breaks :: sender where
  "breaks w = (Inl ''ConnectionError'', w)"

definition wary :: sender where
  "wary w = (if map_option jr_stage (jrow_of w ''42|nzbgeek'') = Some Reserved then answers w else breaks w)"



lemma fresh_gate: "gate_open demo_penv (hw_world fresh_hworld)"
  using demo_gate [of Snatched "''Wanted''" 0] by (simp add: fresh_hworld_def gate_open_def)

lemma fresh_journal: "journal_wf (pw_journal (hw_world fresh_hworld))" "jrow_of (hw_world fresh_hworld) (hc_key demo_call) = None"
  by (simp_all add: fresh_hworld_def journal_wf_def dict_ok_def js_row_def dict_get_def jrow_of_def)

lemma call_simps: "hc_owner demo_call \<noteq> []" "\<not> hc_resume demo_call" "CDownloader_type \<notin> fst ` set (hc_fields demo_call)"
  by (simp_all add: demo_call_def)

theorem broken_submission_goes_to_operator_witness:
  "\<exists>h' q. perform_handoff breaks None demo_penv demo_call fresh_hworld = (Inl (HRaised ''ConnectionError''), h')
    \<and> jrow_of (hw_world h') ''42|nzbgeek'' = Some q \<and> jr_stage q = Manual_review"
proof -
  have b: "\<exists>u. breaks w = (Inl ''ConnectionError'', u) \<and> pw_journal u = pw_journal w" for w by (simp add: breaks_def)
  have k: "hc_key demo_call = ''42|nzbgeek''" by (simp add: demo_call_def)
  from broken_submission_goes_to_operator [OF fresh_gate demo_healthy fresh_journal call_simps b]
  show ?thesis unfolding k .
qed

theorem handoff_returns_lease_witness:
  "active_leases (pw_maint (hw_world (snd (perform_handoff answers None demo_penv demo_call fresh_hworld)))) = []"
proof -
  have n: "get_lease (pw_maint (hw_world fresh_hworld)) (pe_lease demo_penv) = None"
    using fresh_gate by (simp add: gate_open_def)
  have k: "keeps_leases answers None" by (simp add: keeps_leases_def answers_def)
  have a: "active_leases (pw_maint (hw_world fresh_hworld)) = []"
    by (simp add: fresh_hworld_def demo_world_def active_leases_def)
  obtain res h' where r: "perform_handoff answers None demo_penv demo_call fresh_hworld = (res, h')" by force
  from handoff_returns_lease [OF n k r] show ?thesis by (simp add: r a)
qed


definition reserved_row :: jrow where
  "reserved_row = (blank_row Reserved (pe_now demo_penv) (PJson (VDict [(''route'', VStr ''sabnzbd'')])))
     \<lparr>jr_issueid := Some ''42'', jr_provider := Some ''nzbgeek'', jr_downloader_type := Some ''sabnzbd''\<rparr>"

definition demo_fields :: jfields where
  "demo_fields = [(CDownloader_type, Some ''sabnzbd''), (CIssueid, Some ''42''), (CProvider, Some ''nzbgeek'')]"

definition reserved_journal :: jstate where
  "reserved_journal = \<lparr>js_rows = [(''42|nzbgeek'', reserved_row)], js_obligations = [],
     js_activity = [activity_event Reserved ''42|nzbgeek'' demo_fields (Some [(''route'', VStr ''sabnzbd'')]) None]\<rparr>"

definition accepted_items :: payload where
  "accepted_items = [(''route'', VStr ''sabnzbd''), (''client'', VStr ''sabnzbd''), (''nzo_id'', VStr ''N1''),
     (''download_info'', VDict [(''nzo_id'', VStr ''N1'')])]"

lemma demo_reserved:
  "record_transition e None (pw_journal (hw_world fresh_hworld)) ''42|nzbgeek'' ''reserved'' (VDict [(''route'', VStr ''sabnzbd'')])
     demo_fields (pe_now demo_penv) = Inr (True, reserved_journal)"
proof -
  have s: "sanitize_payload (je_loads e) (VDict [(''route'', VStr ''sabnzbd'')]) = Some [(''route'', VStr ''sabnzbd'')]" by code_simp
  have m: "fst (merge_payload None (Some [(''route'', VStr ''sabnzbd'')])) = [(''route'', VStr ''sabnzbd'')]" by code_simp
  have d: "dump_payload (Some [(''route'', VStr ''sabnzbd'')]) = PJson (VDict [(''route'', VStr ''sabnzbd'')])" by code_simp
  show ?thesis
    by (simp add: record_transition_def s m d apply_transition_def insert_or_race_def fresh_hworld_def js_row_def dict_get_def
        reserved_journal_def js_put_def dict_set_def reserved_row_def set_cols_def demo_fields_def)
qed

lemma demo_snatched:
  "\<exists>t. record_transition e None reserved_journal ''42|nzbgeek'' ''snatched'' (VDict accepted_items) demo_fields (pe_now demo_penv) = Inr (True, t)"
proof -
  have "length (json_dumps (VDict accepted_items)) \<le> MAX_PAYLOAD_BYTES" by code_simp
  then have s: "sanitize_payload (je_loads e) (VDict accepted_items) = Some accepted_items"
    by (intro sanitize_id)
      (simp_all add: payload_ok_def item_ok_def accepted_items_def PAYLOAD_KEYS_def MAX_PAYLOAD_STRING_def nested_ok_def DOWNLOAD_INFO_KEYS_def)
  have c: "transition_conflict e reserved_row Snatched demo_fields (Some accepted_items) = None" by code_simp
  have r: "jr_rank reserved_row = 5" "jr_stage reserved_row = Reserved" by (simp_all add: reserved_row_def blank_row_def)
  have "js_row reserved_journal ''42|nzbgeek'' = Some reserved_row" by (simp add: reserved_journal_def js_row_def dict_get_def)
  then show ?thesis
    by (simp add: record_transition_def s apply_transition_def transition_existing_def c Let_def r advance_or_reset_def
        guarded_advance_def is_terminal_def TERMINAL_STAGES_def)
qed

definition demo_response :: pval where
  "demo_response = VDict [(''status'', VBool True), (''nzo_id'', VStr ''N1'')]"

lemma demo_acceptance:
  assumes "pw_journal (hw_world h) = reserved_journal"
  shows "\<exists>a h'. record_acceptance demo_penv ''42|nzbgeek'' ''sabnzbd'' demo_response [] (hc_fields demo_call) h = (Inr a, h') \<and> ac_safe a"
proof -
  have p: "accepted_payload ''sabnzbd'' (as_dict demo_response) [] = Inr accepted_items"
    "\<not> explicit_rejection demo_response" "''sabnzbd'' \<in> set RESTART_SAFE_ROUTES"
    "truthy (snd (acceptance_identity ''sabnzbd'' (as_dict demo_response)))"
    "acceptance_fields ''sabnzbd'' (as_dict demo_response) (hc_fields demo_call) = hc_fields demo_call"
    "typed_fields ''sabnzbd'' (hc_fields demo_call) = Inr demo_fields" by code_simp+
  obtain t where "record_transition (jenv_of demo_penv (hw_world h)) None reserved_journal ''42|nzbgeek'' ''snatched''
      (VDict accepted_items) demo_fields (pe_now demo_penv) = Inr (True, t)" using demo_snatched by blast
  then show ?thesis
    using p assms by (simp add: record_acceptance_def record_snatched_def Let_def transition_own_def record_transition_own_def own_healthy [OF demo_healthy])
qed

lemma demo_accepted:
  "\<exists>a h'. perform_handoff answers None demo_penv demo_call fresh_hworld = (Inr (demo_response, a), h') \<and> ac_safe a"
proof -
  have r: "normalize_route (hc_route demo_call) = ''sabnzbd''" "typed_fields ''sabnzbd'' (hc_fields demo_call) = Inr demo_fields"
    "dict_set ''route'' (VStr ''sabnzbd'') (hc_payload demo_call) = [(''route'', VStr ''sabnzbd'')]" by code_simp+
  have k: "hc_key demo_call = ''42|nzbgeek''" "hc_payload demo_call = []" by (simp_all add: demo_call_def)
  obtain l m where l: "handoff_lease (pe_operator demo_penv) (pw_maint (hw_world fresh_hworld)) (hc_owner demo_call) ''42|nzbgeek''
      ''sabnzbd'' (pe_lease demo_penv) (pe_now demo_penv) = Inr (l, m)" "assert_lease_current m l (pe_now demo_penv)"
    using fresh_lease [OF fresh_gate call_simps(1)] by blast
  let ?h = "fresh_hworld\<lparr>hw_world := (hw_world fresh_hworld)\<lparr>pw_maint := m\<rparr>\<rparr>"
  let ?w = "(hw_world ?h)\<lparr>pw_journal := reserved_journal\<rparr>"
  have res: "handoff_reserve demo_penv demo_call (hw_world ?h) = (Inr (), ?w)"
    using r(2) demo_reserved
    by (simp add: handoff_reserve_def reserve_def call_simps(2) r(1) k(1) transition_own_def record_transition_own_def own_healthy [OF demo_healthy])
      (simp add: r(3))
  obtain a h' where "record_acceptance demo_penv ''42|nzbgeek'' ''sabnzbd'' demo_response [] (hc_fields demo_call) (?h\<lparr>hw_world := ?w\<rparr>)
      = (Inr a, h')" "ac_safe a" using demo_acceptance [of "?h\<lparr>hw_world := ?w\<rparr>"] by auto
  then show ?thesis
    using l res by (simp add: perform_handoff_def r(1) k handoff_leased_def answers_def demo_response_def handoff_accept_def Let_def)
qed


end
