(* ===== verification/SabReconcile.thy ===== *)
theory SabReconcile
  imports Recovery Handoff
begin

text \<open>
  \<open>comicarr/app/downloads/sab_reconcile.py\<close>: the way back onto the post-processing queue for jobs SABnzbd finished
  while their rows stayed snatched.  The periodic sweep and the operator's retry share one step.  The SABnzbd probe is
  read-only; a job is only cleared from the client after its row is durably downloaded.
\<close>

section \<open>Which rows\<close>

text \<open>The settings read here; the flags \<open>USE_SABNZBD\<close> and \<open>USE_NZBGET\<close> are those of the clients.\<close>

record sab_settings =
  sq_post_processing :: pval
  sq_nzb_downloader :: pval
  sq_client_pp :: pval

definition RETRYABLE_STAGES :: "stage list" where
  "RETRYABLE_STAGES = [Snatched, Downloaded]"

definition row_route :: "jrow \<Rightarrow> pval \<Rightarrow> string" where
  "row_route r payload =
     (let p = as_dict payload;
          raw = py_strip (py_str (pv_or (pv_or (pv_or (pv_get p ''route'') (pv_get p ''client'')) (opt_pv (jr_downloader_type r)))
                  (VStr [])))
      in if raw = [] then [] else normalize_route (Some raw))"

definition row_targets_sab :: "clients \<Rightarrow> jrow \<Rightarrow> pval \<Rightarrow> bool" where
  "row_targets_sab cl r payload =
     (let route = row_route r payload in
      if route = ''sabnzbd'' then True
      else if route = ''nzb'' then cl_use_sab cl \<and> \<not> cl_use_nzbget cl
      else if route = [] \<and> cl_use_sab cl then \<not> present (jr_hash r)
      else False)"

definition post_processing_enabled :: "sab_settings option \<Rightarrow> bool" where
  "post_processing_enabled cfg = (case cfg of None \<Rightarrow> False | Some s \<Rightarrow> sq_post_processing s = VBool True)"

text \<open>\<open>NZB_DOWNLOADER == 0\<close> holds of the integer and of \<open>False\<close>.\<close>

definition sab_client_post_processing_enabled :: "sab_settings option \<Rightarrow> bool" where
  "sab_client_post_processing_enabled cfg =
     (case cfg of None \<Rightarrow> False
      | Some s \<Rightarrow> post_processing_enabled cfg \<and> sq_nzb_downloader s \<in> {VInt 0, VBool False} \<and> truthy (sq_client_pp s))"

definition retry_postprocess_eligible :: "clients \<Rightarrow> sab_settings option \<Rightarrow> jrow option \<Rightarrow> pval \<Rightarrow> bool" where
  "retry_postprocess_eligible cl cfg row payload =
     (case row of None \<Rightarrow> False
      | Some r \<Rightarrow> if jr_stage r \<notin> set RETRYABLE_STAGES then False
                  else if \<not> post_processing_enabled cfg then False else row_targets_sab cl r payload)"

definition sab_monitoring_enabled :: "clients \<Rightarrow> sab_settings option \<Rightarrow> bool" where
  "sab_monitoring_enabled cl cfg = (sab_client_post_processing_enabled cfg \<and> cl_use_sab cl)"

section \<open>One row\<close>

record sab_result =
  sr_action :: string
  sr_key :: "string option"
  sr_error :: "string option"
  sr_stage :: "stage option"
  sr_verdict :: "verdict option"

definition sab_result_of :: "string \<Rightarrow> string \<Rightarrow> sab_result" where
  "sab_result_of action key = \<lparr>sr_action = action, sr_key = Some key, sr_error = None, sr_stage = None, sr_verdict = None\<rparr>"

definition put_postprocess :: "string \<Rightarrow> payload \<Rightarrow> pworld \<Rightarrow> sab_result act" where
  "put_postprocess key item w = (Inr (sab_result_of ''enqueued'' key), enqueue_pp item w)"

text \<open>\<open>_validated_item\<close>: the rejected command is recorded as a manual review when asked for, and answered with the
  message of the check.\<close>

definition validated_item :: "penv \<Rightarrow> string \<Rightarrow> jrow \<Rightarrow> pval \<Rightarrow> bool \<Rightarrow> pworld \<Rightarrow> (sab_result + payload) act" where
  "validated_item env key r payload keep_record w =
     (case validate_postprocess_item (pe_fs env) (pe_conf env) (configured_roots (pe_conf env)) True
             (VDict (pp_item_from_row key r payload)) of
        Inr item \<Rightarrow> (Inr (Inr item), w)
      | Inl msg \<Rightarrow>
          let rejected = Inl ((sab_result_of ''unplaced'' key)\<lparr>sr_error := Some msg\<rparr>) in
          if keep_record
          then recorded env (named_review key r ''invalid_recovered_postprocess_command:PostProcessCommandError'' payload
                 (nzb_name_of r payload)) rejected w
          else (Inr rejected, w))"

definition queued_name :: "jrow \<Rightarrow> payload \<Rightarrow> pval" where
  "queued_name r p = pv_or (pv_or (pv_get p ''nzb_name'') (pv_get p ''nzbname'')) (opt_pv (jr_nzbname r))"

text \<open>A "complete" verdict: the row is advanced first, and only the winner queues.\<close>

definition queue_verified :: "penv \<Rightarrow> string \<Rightarrow> jrow \<Rightarrow> details \<Rightarrow> payload \<Rightarrow> pworld \<Rightarrow> sab_result act" where
  "queue_verified env key r d p w =
     (case validated_item env key r (VDict p) True w of
        (Inl e, w') \<Rightarrow> (Inl e, w')
      | (Inr (Inl rejected), w') \<Rightarrow> (Inr rejected, w')
      | (Inr (Inr item), w') \<Rightarrow>
          (case transition_own env w' key ''downloaded'' (VDict p)
                  [(CIssueid, jr_issueid r), (CProvider, jr_provider r), (CDownloader_type, jr_downloader_type r),
                   (CNzbname, pv_text (queued_name r p))] of
             Inl e \<Rightarrow> (Inl (jerror_name e), w')
           | Inr (won, w2) \<Rightarrow>
               if \<not> won then (Inr ((sab_result_of ''not-won'' key)\<lparr>sr_stage := map_option jr_stage (jrow_of w2 key)\<rparr>), w2)
               else (case put_postprocess key item w2 of (x, w3) \<Rightarrow>
                 (x, release_sab_history (pv_or (dt_nzo_id d) (pv_get p ''nzo_id'')) (truthy (pv_get p ''failed'')) w3))))"

definition queue_snatched :: "clients \<Rightarrow> penv \<Rightarrow> string \<Rightarrow> jrow \<Rightarrow> pval \<Rightarrow> pworld \<Rightarrow> sab_result act" where
  "queue_snatched cl env key r payload w =
     (let d = classify_details (default_probes cl (cdb_of env w) True) (cdb_of env w) r payload in
      if dt_raw d = Some ''failed_no_auto_handling'' then
        (case recorded env (failed_completion_entry key r payload d) () w of
           (Inl e, w') \<Rightarrow> (Inl e, w')
         | (Inr _, w') \<Rightarrow>
             (Inr (sab_result_of ''failed'' key),
              release_sab_history (pv_or (dt_nzo_id d) (pv_get (as_dict payload) ''nzo_id'')) True w'))
      else if dt_raw d = Some ''unplaced'' then
        (let merged = VDict (merge_completion_evidence payload d) in
         recorded env (named_review key r ''done_signal_without_library_placement'' merged (nzb_name_of r merged))
           (sab_result_of ''unplaced'' key) w)
      else if dt_verdict d \<noteq> COMPLETE then
        (Inr ((sab_result_of (case dt_raw d of Some raw \<Rightarrow> if raw = [] then ''not-complete'' else raw | None \<Rightarrow> ''not-complete'') key)
               \<lparr>sr_verdict := Some (dt_verdict d)\<rparr>), w)
      else queue_verified env key r d (merge_completion_evidence payload d) w)"

text \<open>\<open>queue_completed_postprocess\<close>, by the release key of the row it is given; the row is read again.\<close>

definition queue_completed_postprocess :: "clients \<Rightarrow> penv \<Rightarrow> string option \<Rightarrow> pworld \<Rightarrow> sab_result act" where
  "queue_completed_postprocess cl env row_key w =
     (let missing = \<lparr>sr_action = ''missing'', sr_key = None, sr_error = None, sr_stage = None, sr_verdict = None\<rparr> in
      if \<not> present row_key then (Inr missing, w)
      else case jrow_of w (the row_key) of
        None \<Rightarrow> (Inr missing, w)
      | Some r \<Rightarrow>
          let key = the row_key; payload = pv_or (load_payload (jr_payload r)) (VDict []) in
          if is_terminal (jr_stage r) then (Inr (sab_result_of ''terminal'' key), w)
          else if jr_stage r \<notin> set RETRYABLE_STAGES then (Inr ((sab_result_of ''busy'' key)\<lparr>sr_stage := Some (jr_stage r)\<rparr>), w)
          else if \<not> row_targets_sab cl r payload then (Inr (sab_result_of ''not-sab'' key), w)
          else if jr_stage r = Downloaded then
            (case validated_item env key r payload False w of
               (Inl e, w') \<Rightarrow> (Inl e, w')
             | (Inr (Inl rejected), w') \<Rightarrow> (Inr rejected, w')
             | (Inr (Inr item), w') \<Rightarrow> put_postprocess key item w')
          else queue_snatched cl env key r payload w)"

section \<open>The sweep\<close>

record sab_summary =
  ss_checked :: nat
  ss_enqueued :: nat
  ss_skipped :: nat

definition sweep_row :: "clients \<Rightarrow> penv \<Rightarrow> string \<times> jrow \<Rightarrow> sab_summary \<times> pworld \<Rightarrow> sab_summary \<times> pworld" where
  "sweep_row cl env kr sw =
     (case sw of (s, w) \<Rightarrow>
       if jr_stage (snd kr) \<noteq> Snatched \<or> \<not> row_targets_sab cl (snd kr) (load_payload (jr_payload (snd kr))) then (s, w)
       else
         (let s1 = s\<lparr>ss_checked := Suc (ss_checked s)\<rparr> in
          case queue_completed_postprocess cl env (Some (fst kr)) w of
            (Inl e, w') \<Rightarrow> (s1\<lparr>ss_skipped := Suc (ss_skipped s1)\<rparr>, w')
          | (Inr res, w') \<Rightarrow>
              (if sr_action res = ''enqueued'' then s1\<lparr>ss_enqueued := Suc (ss_enqueued s1)\<rparr>
               else s1\<lparr>ss_skipped := Suc (ss_skipped s1)\<rparr>, w')))"

definition sweep_rows :: "clients \<Rightarrow> penv \<Rightarrow> (string \<times> jrow) list \<Rightarrow> pworld \<Rightarrow> sab_summary \<times> pworld" where
  "sweep_rows cl env rows w = fold (sweep_row cl env) rows (\<lparr>ss_checked = 0, ss_enqueued = 0, ss_skipped = 0\<rparr>, w)"

definition reconcile_completed_sab_downloads ::
  "clients \<Rightarrow> sab_settings option \<Rightarrow> penv \<Rightarrow> pworld \<Rightarrow> sab_summary \<times> pworld" where
  "reconcile_completed_sab_downloads cl cfg env w =
     (if \<not> sab_monitoring_enabled cl cfg then (\<lparr>ss_checked = 0, ss_enqueued = 0, ss_skipped = 0\<rparr>, w)
      else sweep_rows cl env (read_open (pw_journal w)) w)"

section \<open>The operator's retry\<close>

definition RETRY_ERRORS :: "string \<Rightarrow> nat \<times> string" where
  "RETRY_ERRORS a =
     (if a = ''missing'' then (404, ''In-flight download not found.'')
      else if a = ''terminal'' then (409, ''This download is no longer in flight.'')
      else if a = ''busy'' then (409, ''Post-processing is already running for this download.'')
      else if a = ''still'' then (409, ''SABnzbd has not finished this download yet.'')
      else if a = ''unprobeable'' then (409, ''No completed SABnzbd history entry matches this download.'')
      else if a = ''unreachable'' then (503, ''SABnzbd could not be reached. Try again once it is up.'')
      else if a = ''unplaced'' then (409, ''SABnzbd finished, but the completed file is not in a folder Comicarr can import.'')
      else if a = ''failed'' then (409, ''SABnzbd reports this download failed, and failed-download handling is off.'')
      else if a = ''not-sab'' then (409, ''Retry post-processing is available for SABnzbd downloads.'')
      else if a = ''not-won'' then (409, ''This download changed while post-processing was being queued. Refresh and try again.'')
      else if a = ''not-complete'' then (409, ''SABnzbd has not completed this download.'')
      else if a = ''absent'' then (409, ''SABnzbd history no longer has this download.'')
      else (409, ''Could not retry post-processing.''))"

datatype retry_answer = RetryQueued string | RetryRefused nat string | RetryRaised string

definition retry_postprocess ::
  "clients \<Rightarrow> sab_settings option \<Rightarrow> penv \<Rightarrow> string option \<Rightarrow> pworld \<Rightarrow> retry_answer \<times> pworld" where
  "retry_postprocess cl cfg env given w =
     (let key = py_strip (case given of None \<Rightarrow> [] | Some s \<Rightarrow> s) in
      if key = [] then (RetryRefused 400 ''release_key is required'', w)
      else if jrow_of w key = None then (RetryRefused 404 (snd (RETRY_ERRORS ''missing'')), w)
      else if \<not> post_processing_enabled cfg then (RetryRefused 409 ''Post-processing is turned off in Settings.'', w)
      else case queue_completed_postprocess cl env (Some key) w of
        (Inl e, w') \<Rightarrow> (RetryRaised e, w')
      | (Inr res, w') \<Rightarrow>
          if sr_action res = ''enqueued'' then (RetryQueued key, w')
          else (case RETRY_ERRORS (sr_action res) of
            (code, msg) \<Rightarrow>
              (RetryRefused code (if sr_action res = ''unplaced'' \<and> present (sr_error res) then the (sr_error res) else msg), w')))"

end
