(* ===== verification/SabReconcileProps.thy ===== *)
theory SabReconcileProps
  imports SabReconcile RecoveryProps
begin

text \<open>
  The properties of the SABnzbd sweep and of the operator's retry: what may be queued, that a queued snatched row has
  been advanced, which rows a sweep may touch, that the retry tells the truth, and what a stale snapshot does.
\<close>

section \<open>Which rows a step touches\<close>

definition only_row :: "string \<Rightarrow> pworld \<Rightarrow> pworld \<Rightarrow> bool" where
  "only_row key w w' \<longleftrightarrow> (\<forall>k. k \<noteq> key \<longrightarrow> jrow_of w' k = jrow_of w k)"

named_theorems only_row_intros "steps that write at most the row of one key"

lemma only_row_refl [simp]: "only_row key w w"
  by (simp add: only_row_def)

lemma only_row_frame [simp]:
  "only_row key w (enqueue_pp item v) = only_row key w v" "only_row key w (release_sab_history n b v) = only_row key w v"
  by (simp_all add: only_row_def)

lemma record_transition_only:
  assumes "record_transition e None s key stage p fs when = Inr (won, t)" and "k \<noteq> key"
  shows "js_row t k = js_row s k"
proof -
  obtain st where "stage_of_string stage = Some st" using assms(1) by (auto simp: record_transition_def split: option.splits)
  from record_transition_effect [OF assms(1) this] assms(2) show ?thesis by (simp add: only_key_def)
qed

lemma transition_own_only [only_row_intros]:
  "transition_own env w key stage p fs = Inr (b, w') \<Longrightarrow> only_row key w w'"
  by (erule transition_own_cases) (auto simp: only_row_def jrow_of_def record_transition_only)

lemma record_own_only [only_row_intros]:
  assumes "record_own env w en = Inr (ro, w')"
  shows "only_row (en_key en) w w'"
proof -
  obtain j rr where x: "record_entry (jenv_of env w) (renv_of env) (pe_attempts env) None en (pw_journal w, pw_recon w) = Inr (ro, j, rr)"
    and w': "w' = w\<lparr>pw_journal := j, pw_recon := rr\<rparr>"
    using assms by (auto simp: record_own_def split: sum.splits)
  obtain won where "entry_transition (jenv_of env w) None (pw_journal w) en (re_now (renv_of env)) = Inr (won, j)"
    using record_on_connection_transition [OF own_attempts_Inr [OF x [unfolded record_entry_def]]] by auto
  then show ?thesis
    by (auto simp: only_row_def w' jrow_of_def entry_transition_def mark_failed_def mark_manual_review_def record_transition_only
        split: entry_kind.splits)
qed

lemma recorded_only [only_row_intros]: "recorded env en a w = (x, w') \<Longrightarrow> only_row (en_key en) w w'"
  by (auto simp: recorded_def dest: record_own_only split: sum.splits prod.splits)

lemma only_row_trans: "only_row key w v \<Longrightarrow> only_row key v u \<Longrightarrow> only_row key w u"
  by (simp add: only_row_def)

lemma validated_only [only_row_intros]: "validated_item env key r p b w = (x, w') \<Longrightarrow> only_row key w w'"
  by (auto simp: validated_item_def Let_def dest!: recorded_only split: sum.splits if_splits)

lemma verified_only [only_row_intros]:
  assumes "queue_verified env key r d p w = (x, w')"
  shows "only_row key w w'"
proof -
  obtain y v where v: "validated_item env key r (VDict p) True w = (y, v)" by force
  note o = validated_only [OF v]
  show ?thesis
    using assms v o
    by (auto simp: queue_verified_def put_postprocess_def dest!: transition_own_only intro: only_row_trans split: sum.splits prod.splits if_splits)
qed

lemma snatched_only [only_row_intros]:
  assumes "queue_snatched cl env key r p w = (x, w')"
  shows "only_row key w w'"
  using assms verified_only [of env key r _ _ w x w']
  by (auto simp: queue_snatched_def Let_def dest!: recorded_only split: sum.splits prod.splits if_splits)

lemma queue_only [only_row_intros]:
  assumes "queue_completed_postprocess cl env (Some key) w = (x, w')"
  shows "only_row key w w'"
  using assms snatched_only [of cl env key _ _ w x w'] validated_only
  by (fastforce simp: queue_completed_postprocess_def put_postprocess_def Let_def split: option.splits sum.splits prod.splits if_splits)

definition swept :: "clients \<Rightarrow> string \<times> jrow \<Rightarrow> bool" where
  "swept cl kr \<longleftrightarrow> jr_stage (snd kr) = Snatched \<and> row_targets_sab cl (snd kr) (load_payload (jr_payload (snd kr)))"

lemma sweep_row_only:
  assumes "sweep_row cl env kr sw = sw'" and "swept cl kr \<longrightarrow> fst kr \<noteq> k"
  shows "jrow_of (snd sw') k = jrow_of (snd sw) k"
proof (cases "swept cl kr")
  case True
  obtain s w where sw: "sw = (s, w)" by (cases sw)
  obtain x w' where q: "queue_completed_postprocess cl env (Some (fst kr)) w = (x, w')" by force
  then have "snd sw' = w'" using assms(1) sw True by (auto simp: sweep_row_def swept_def Let_def split: sum.splits)
  then show ?thesis using queue_only [OF q] True assms(2) sw by (simp add: only_row_def)
next
  case False
  then show ?thesis using assms(1) by (auto simp: sweep_row_def swept_def split: prod.splits)
qed

lemma sweep_rows_only:
  "\<forall>kr \<in> set rows. swept cl kr \<longrightarrow> fst kr \<noteq> k \<Longrightarrow> jrow_of (snd (fold (sweep_row cl env) rows sw)) k = jrow_of (snd sw) k"
proof (induction rows arbitrary: sw)
  case (Cons kr rows)
  then show ?case using sweep_row_only [OF refl, of cl kr k env sw] by simp
qed simp

lemma set_insert_by_date: "set (insert_by_date kr krs) = insert kr (set krs)"
  by (induction krs) auto

lemma set_read_open: "set (read_open s) = {(k, r). (k, r) \<in> set (js_rows s) \<and> jr_stage r \<in> set OPEN_STAGES}"
proof -
  have "set (foldr insert_by_date krs []) = set krs" for krs by (induction krs) (simp_all add: set_insert_by_date)
  then show ?thesis by (auto simp: read_open_def)
qed

lemma read_open_row:
  assumes "journal_wf (pw_journal w)" and "(k, r) \<in> set (read_open (pw_journal w))"
  shows "jrow_of w k = Some r"
proof -
  have "dict_ok (js_rows (pw_journal w))" using assms(1) by (simp add: journal_wf_def)
  moreover have "(k, r) \<in> set (js_rows (pw_journal w))" using assms(2) by (simp add: set_read_open)
  ultimately show ?thesis by (simp add: jrow_of_def js_row_def dict_get_member)
qed

text \<open>The sweep touches nothing but the rows it is for: a row that is not snatched, or whose route is not the
  SABnzbd client in use, is in the journal exactly as before after a whole pass, whatever the client answered for the
  others.\<close>

theorem sweep_leaves_other_rows:
  assumes "journal_wf (pw_journal w)" and "jrow_of w k = Some r"
    and "jr_stage r \<noteq> Snatched \<or> \<not> row_targets_sab cl r (load_payload (jr_payload r))"
  shows "jrow_of (snd (reconcile_completed_sab_downloads cl cfg env w)) k = Some r"
proof (cases "sab_monitoring_enabled cl cfg")
  case True
  have "swept cl kr \<longrightarrow> fst kr \<noteq> k" if "kr \<in> set (read_open (pw_journal w))" for kr
    using read_open_row [OF assms(1), of "fst kr" "snd kr"] that assms(2,3) by (auto simp: swept_def)
  then show ?thesis
    using True sweep_rows_only [of "read_open (pw_journal w)" cl k env] assms(2)
    by (simp add: reconcile_completed_sab_downloads_def sweep_rows_def)
qed (simp add: reconcile_completed_sab_downloads_def assms(2))

section \<open>What may be queued\<close>

lemma recorded_value: "recorded env en a w = (x, w') \<Longrightarrow> x = Inr a \<or> (\<exists>e. x = Inl e)"
  by (auto simp: recorded_def split: sum.splits prod.splits)

lemma validated_queue:
  assumes "validated_item env key r p b w = (x, w')"
  shows "pw_pp_queue w' = pw_pp_queue w"
    and "x = Inr (Inr item) \<Longrightarrow> w' = w \<and> validate_postprocess_item (pe_fs env) (pe_conf env) (configured_roots (pe_conf env)) True
      (VDict (pp_item_from_row key r p)) = Inr item"
proof -
  let ?v = "validate_postprocess_item (pe_fs env) (pe_conf env) (configured_roots (pe_conf env)) True (VDict (pp_item_from_row key r p))"
  have "pw_pp_queue w' = pw_pp_queue w \<and> (x = Inr (Inr item) \<longrightarrow> w' = w \<and> ?v = Inr item)"
  proof (cases ?v)
    case (Inr it)
    then show ?thesis using assms by (auto simp: validated_item_def)
  next
    case (Inl msg)
    show ?thesis
    proof (cases b)
      case True
      then have "recorded env (named_review key r ''invalid_recovered_postprocess_command:PostProcessCommandError'' p (nzb_name_of r p))
          (Inl ((sab_result_of ''unplaced'' key)\<lparr>sr_error := Some msg\<rparr>)) w = (x, w')"
        using assms Inl by (simp add: validated_item_def)
      from recorded_value [OF this] recorded_queue [OF this] show ?thesis by auto
    qed (use assms Inl in \<open>auto simp: validated_item_def\<close>)
  qed
  then show "pw_pp_queue w' = pw_pp_queue w"
    and "x = Inr (Inr item) \<Longrightarrow> w' = w \<and> ?v = Inr item" by blast+
qed

text \<open>The command of the row is appended, and nothing else.\<close>

definition queues_row :: "penv \<Rightarrow> string \<Rightarrow> jrow \<Rightarrow> pval \<Rightarrow> pworld \<Rightarrow> pworld \<Rightarrow> bool" where
  "queues_row env key r p w w' \<longleftrightarrow>
     (\<exists>item. validate_postprocess_item (pe_fs env) (pe_conf env) (configured_roots (pe_conf env)) True
           (VDict (pp_item_from_row key r p)) = Inr item
        \<and> pw_pp_queue w' = pw_pp_queue w @ [item])"

lemma verified_queue:
  assumes "queue_verified env key r d p w = (x, w')"
  shows "(\<exists>res. x = Inr res \<and> sr_action res = ''enqueued'' \<and> queues_row env key r (VDict p) w w'
      \<and> (\<exists>q. jrow_of w' key = Some q \<and> jr_stage q = Downloaded))
    \<or> ((\<forall>res. x = Inr res \<longrightarrow> sr_action res \<noteq> ''enqueued'') \<and> pw_pp_queue w' = pw_pp_queue w)"
proof -
  obtain y v where v: "validated_item env key r (VDict p) True w = (y, v)" by force
  show ?thesis
  proof (cases "\<exists>item. y = Inr (Inr item)")
    case False
    have "\<forall>res. y = Inr (Inl res) \<longrightarrow> sr_action res = ''unplaced''"
      using v by (auto simp: validated_item_def Let_def sab_result_of_def dest!: recorded_value split: sum.splits if_splits)
    then show ?thesis using assms v False validated_queue(1) [OF v] by (auto simp: queue_verified_def split: sum.splits)
  next
    case True
    then obtain item where y: "y = Inr (Inr item)" by blast
    note vi = validated_queue(2) [OF v y]
    let ?fs = "[(CIssueid, jr_issueid r), (CProvider, jr_provider r), (CDownloader_type, jr_downloader_type r),
      (CNzbname, pv_text (queued_name r p))]"
    show ?thesis
    proof (cases "transition_own env w key ''downloaded'' (VDict p) ?fs")
      case (Inl e)
      then show ?thesis using assms v y vi by (auto simp: queue_verified_def)
    next
      case (Inr bw)
      obtain won w2 where bw: "bw = (won, w2)" by (cases bw)
      note t = Inr [unfolded bw]
      have q: "pw_pp_queue w2 = pw_pp_queue w" using transition_queue [OF t] .
      show ?thesis
      proof (cases won)
        case False
        then show ?thesis using assms v y vi t q by (auto simp: queue_verified_def sab_result_of_def)
      next
        case True
        have "\<exists>q. jrow_of w2 key = Some q \<and> jr_stage q = Downloaded"
        proof -
          obtain j where j: "record_transition (jenv_of env w) None (pw_journal w) key ''downloaded'' (VDict p) ?fs (pe_now env) = Inr (won, j)"
            and w2: "w2 = w\<lparr>pw_journal := j\<rparr>" using t by (rule transition_own_cases)
          have "row_effect (jenv_of env w) Downloaded (js_row (pw_journal w) key) True (js_row j key)"
            using record_transition_effect [OF j failed_stage(2)] True by simp
          then show ?thesis by (auto simp: w2 jrow_of_def elim: effect_won)
        qed
        then show ?thesis
          using assms v y vi t q True
          by (auto simp: queue_verified_def put_postprocess_def queues_row_def sab_result_of_def enqueue_pp_def release_sab_history_def jrow_of_def)
      qed
    qed
  qed
qed

text \<open>The raw states of the clients are their own words; none of them says "enqueued".\<close>

definition never_says_enqueued :: "clients \<Rightarrow> bool" where
  "never_says_enqueued cl \<longleftrightarrow>
     (\<forall>d r p. dt_raw (classify_details (default_probes cl d True) d r p) \<noteq> Some ''enqueued'')"

definition was_enqueued :: "string + sab_result \<Rightarrow> bool" where
  "was_enqueued x \<longleftrightarrow> (\<exists>res. x = Inr res \<and> sr_action res = ''enqueued'')"

definition advanced :: "pworld \<Rightarrow> string \<Rightarrow> bool" where
  "advanced w key \<longleftrightarrow> (\<exists>q. jrow_of w key = Some q \<and> jr_stage q = Downloaded)"

lemma snatched_queue:
  assumes "queue_snatched cl env key r p w = (x, w')"
  shows "pw_pp_queue w' \<noteq> pw_pp_queue w \<Longrightarrow> was_enqueued x \<and> (\<exists>m. queues_row env key r m w w') \<and> advanced w' key
      \<and> classify (default_probes cl (cdb_of env w) True) (cdb_of env w) r p = COMPLETE"
    and "pw_pp_queue w' = pw_pp_queue w \<Longrightarrow> never_says_enqueued cl \<Longrightarrow> \<not> was_enqueued x"
proof -
  let ?d = "classify_details (default_probes cl (cdb_of env w) True) (cdb_of env w) r p"
  let ?m = "merge_completion_evidence p ?d"
  consider (failed) "dt_raw ?d = Some ''failed_no_auto_handling''"
    | (unplaced) "dt_raw ?d = Some ''unplaced''"
    | (pending) "dt_raw ?d \<notin> {Some ''failed_no_auto_handling'', Some ''unplaced''}" "dt_verdict ?d \<noteq> COMPLETE"
    | (fin) "dt_raw ?d \<notin> {Some ''failed_no_auto_handling'', Some ''unplaced''}" "dt_verdict ?d = COMPLETE" by blast
  then have "(pw_pp_queue w' \<noteq> pw_pp_queue w \<longrightarrow> was_enqueued x \<and> (\<exists>m. queues_row env key r m w w') \<and> advanced w' key
      \<and> dt_verdict ?d = COMPLETE) \<and> (pw_pp_queue w' = pw_pp_queue w \<longrightarrow> never_says_enqueued cl \<longrightarrow> \<not> was_enqueued x)"
  proof cases
    case failed
    obtain y v where r: "recorded env (failed_completion_entry key r p ?d) () w = (y, v)" by force
    then show ?thesis
      using assms failed recorded_queue [OF r] by (cases y) (auto simp: queue_snatched_def Let_def was_enqueued_def sab_result_of_def)
  next
    case unplaced
    let ?p = "VDict ?m"
    have r: "recorded env (named_review key r ''done_signal_without_library_placement'' ?p (nzb_name_of r ?p))
        (sab_result_of ''unplaced'' key) w = (x, w')"
      using assms unplaced by (simp add: queue_snatched_def Let_def)
    show ?thesis using recorded_queue [OF r] recorded_value [OF r] by (auto simp: was_enqueued_def sab_result_of_def)
  next
    case pending
    then show ?thesis
      using assms by (auto simp: queue_snatched_def Let_def was_enqueued_def sab_result_of_def never_says_enqueued_def split: option.splits if_splits)
  next
    case fin
    then have "queue_verified env key r ?d ?m w = (x, w')" using assms by (simp add: queue_snatched_def Let_def)
    from verified_queue [OF this] fin show ?thesis by (auto simp: was_enqueued_def advanced_def queues_row_def)
  qed
  then show "pw_pp_queue w' \<noteq> pw_pp_queue w \<Longrightarrow> was_enqueued x \<and> (\<exists>m. queues_row env key r m w w') \<and> advanced w' key
      \<and> classify (default_probes cl (cdb_of env w) True) (cdb_of env w) r p = COMPLETE"
    and "pw_pp_queue w' = pw_pp_queue w \<Longrightarrow> never_says_enqueued cl \<Longrightarrow> \<not> was_enqueued x"
    by (auto simp: classify_def)
qed

lemma queue_step_cases:
  assumes "jrow_of w key = Some r" and "key \<noteq> []" and "queue_completed_postprocess cl env (Some key) w = (x, w')"
  shows "((\<exists>res. x = Inr res) \<and> \<not> was_enqueued x \<and> w' = w)
    \<or> (jr_stage r = Downloaded \<and> was_enqueued x
        \<and> queues_row env key r (pv_or (load_payload (jr_payload r)) (VDict [])) w w' \<and> jrow_of w' key = Some r)
    \<or> (jr_stage r = Snatched \<and> queue_snatched cl env key r (pv_or (load_payload (jr_payload r)) (VDict [])) w = (x, w'))"
proof -
  let ?p = "pv_or (load_payload (jr_payload r)) (VDict [])"
  show ?thesis
  proof (cases "is_terminal (jr_stage r) \<or> jr_stage r \<notin> set RETRYABLE_STAGES \<or> \<not> row_targets_sab cl r ?p")
    case True
    then show ?thesis
      using assms by (auto simp: queue_completed_postprocess_def Let_def present_def was_enqueued_def sab_result_of_def split: if_splits)
  next
    case False
    show ?thesis
    proof (cases "jr_stage r = Downloaded")
      case True
      obtain y v where v: "validated_item env key r ?p False w = (y, v)" by force
      then have vw: "v = w" by (auto simp: validated_item_def Let_def split: sum.splits)
      have nr: "\<forall>res. y = Inr (Inl res) \<longrightarrow> sr_action res \<noteq> ''enqueued''"
        using v by (auto simp: validated_item_def Let_def sab_result_of_def split: sum.splits)
      have q: "queue_completed_postprocess cl env (Some key) w = (case validated_item env key r ?p False w of
               (Inl e, w') \<Rightarrow> (Inl e, w')
             | (Inr (Inl rejected), w') \<Rightarrow> (Inr rejected, w')
             | (Inr (Inr item), w') \<Rightarrow> put_postprocess key item w')"
        using assms(1,2) False True by (simp add: queue_completed_postprocess_def Let_def present_def)
      show ?thesis
      proof (cases "\<exists>item. y = Inr (Inr item)")
        case True
        then obtain item where y: "y = Inr (Inr item)" by blast
        from validated_queue(2) [OF v y] have "queues_row env key r ?p w (enqueue_pp item w)"
          by (auto simp: queues_row_def enqueue_pp_def)
        then show ?thesis
          using q v y vw assms(1,3) \<open>jr_stage r = Downloaded\<close>
          by (auto simp: put_postprocess_def was_enqueued_def sab_result_of_def)
      next
        case False
        have "\<forall>e. y \<noteq> Inl e" using v by (auto simp: validated_item_def Let_def split: sum.splits)
        then show ?thesis using False q v vw nr assms(3) by (auto simp: was_enqueued_def split: sum.splits)
      qed
    next
      case nd: False
      then have "jr_stage r = Snatched" using False by (simp add: RETRYABLE_STAGES_def)
      then show ?thesis using assms nd False by (auto simp: queue_completed_postprocess_def Let_def present_def split: if_splits)
    qed
  qed
qed

text \<open>C35: A sweep or a retry queues no work without evidence: whatever the client answered, one step appends at most
  one post-processing command; that command was rebuilt from the row and passed the path containment check, and either
  the row was downloaded already, or it was snatched, its classification was "complete" and it has been advanced to
  downloaded.\<close>

theorem sweep_queues_finished_work:
  assumes "jrow_of w key = Some r" and "key \<noteq> []" and "queue_completed_postprocess cl env (Some key) w = (x, w')"
    and "pw_pp_queue w' \<noteq> pw_pp_queue w"
  shows "(\<exists>p item. validate_postprocess_item (pe_fs env) (pe_conf env) (configured_roots (pe_conf env)) True
        (VDict (pp_item_from_row key r p)) = Inr item \<and> pw_pp_queue w' = pw_pp_queue w @ [item])
    \<and> (\<exists>q. jrow_of w' key = Some q \<and> jr_stage q = Downloaded)
    \<and> (jr_stage r = Downloaded \<or> (jr_stage r = Snatched
        \<and> classify (default_probes cl (cdb_of env w) True) (cdb_of env w) r (pv_or (load_payload (jr_payload r)) (VDict [])) = COMPLETE))"
  using queue_step_cases [OF assms(1-3)]
proof (elim disjE conjE)
  assume "w' = w"
  then show ?thesis using assms(4) by simp
next
  assume "jr_stage r = Downloaded" "queues_row env key r (pv_or (load_payload (jr_payload r)) (VDict [])) w w'" "jrow_of w' key = Some r"
  then show ?thesis unfolding queues_row_def by blast
next
  assume "jr_stage r = Snatched" "queue_snatched cl env key r (pv_or (load_payload (jr_payload r)) (VDict [])) w = (x, w')"
  from snatched_queue(1) [OF this(2) assms(4)] this(1) show ?thesis unfolding queues_row_def advanced_def by blast
qed

text \<open>The operator's retry tells the truth: it answers that work is queued exactly when it appended one command
  for the release asked for, whose row is then downloaded; every other answer leaves the queue as it was, and a
  release that is unknown, closed or being processed is refused without a write.\<close>

theorem retry_tells_the_truth:
  assumes "never_says_enqueued cl" and "retry_postprocess cl cfg env given w = (a, w')"
  shows "(\<forall>key. a = RetryQueued key \<longrightarrow>
        (\<exists>item. pw_pp_queue w' = pw_pp_queue w @ [item]) \<and> (\<exists>q. jrow_of w' key = Some q \<and> jr_stage q = Downloaded))
    \<and> ((\<forall>key. a \<noteq> RetryQueued key) \<longrightarrow> pw_pp_queue w' = pw_pp_queue w)
    \<and> ((\<forall>r. jrow_of w (py_strip (case given of None \<Rightarrow> [] | Some s \<Rightarrow> s)) = Some r \<longrightarrow> jr_stage r \<notin> {Snatched, Downloaded})
        \<longrightarrow> w' = w \<and> (\<exists>code msg. a = RetryRefused code msg))"
proof -
  let ?key = "py_strip (case given of None \<Rightarrow> [] | Some s \<Rightarrow> s)"
  show ?thesis
  proof (cases "?key = [] \<or> jrow_of w ?key = None \<or> \<not> post_processing_enabled cfg")
    case True
    then show ?thesis using assms(2) by (auto simp: retry_postprocess_def Let_def split: if_splits)
  next
    case False
    then obtain r where r: "jrow_of w ?key = Some r" and k: "?key \<noteq> []" by auto
    obtain x u where q: "queue_completed_postprocess cl env (Some ?key) w = (x, u)" by force
    have a: "w' = u" "a = RetryQueued key \<Longrightarrow> was_enqueued x \<and> key = ?key" "was_enqueued x \<Longrightarrow> a = RetryQueued ?key" for key
      using assms(2) False q by (auto simp: retry_postprocess_def Let_def was_enqueued_def split: sum.splits if_splits prod.splits)
    have refused: "\<exists>code msg. a = RetryRefused code msg" if "x = Inr res" "\<not> was_enqueued x" for res
      using assms(2) False q that by (auto simp: retry_postprocess_def Let_def was_enqueued_def split: if_splits prod.splits)
    note c = queue_step_cases [OF r k q] and sn = snatched_queue [of cl env ?key r _ w x u]
    have grown: "pw_pp_queue u = pw_pp_queue w" if "\<not> was_enqueued x" using c sn(1) that by blast
    have queued: "(\<exists>item. pw_pp_queue u = pw_pp_queue w @ [item]) \<and> advanced u ?key" if "was_enqueued x"
      using c sn that assms(1) r unfolding queues_row_def advanced_def by blast
    have idle: "u = w \<and> \<not> was_enqueued x \<and> (\<exists>res. x = Inr res)" if "jr_stage r \<notin> {Snatched, Downloaded}"
      using c that by auto
    show ?thesis
    proof (cases "was_enqueued x")
      case True
      then show ?thesis using a queued idle r unfolding advanced_def by auto
    next
      case False
      then show ?thesis using a grown idle refused r by auto
    qed
  qed
qed

section \<open>A stale snapshot\<close>

lemma stale_pass:
  assumes "jrow_of w key = Some q" and "jr_stage q = Downloaded" and "key \<noteq> []"
    and "row_targets_sab cl q (pv_or (load_payload (jr_payload q)) (VDict []))"
    and "validate_postprocess_item (pe_fs env) (pe_conf env) (configured_roots (pe_conf env)) True
      (VDict (pp_item_from_row key q (pv_or (load_payload (jr_payload q)) (VDict [])))) = Inr item"
    and "jr_stage s = Snatched" and "row_targets_sab cl s (load_payload (jr_payload s))"
  shows "snd (sweep_rows cl env [(key, s)] w) = enqueue_pp item w"
  using assms
  by (simp add: sweep_rows_def sweep_row_def queue_completed_postprocess_def present_def Let_def is_terminal_def TERMINAL_STAGES_def
      RETRYABLE_STAGES_def validated_item_def put_postprocess_def sab_result_of_def)

text \<open>A sweep that read its rows before another worker advanced one of them queues that import again: the row is
  read afresh, found downloaded, and handed to the processor's queue without any transition to win, once for every
  pass that still holds the old snapshot.  Only the claim inside post-processing keeps the import from running twice.\<close>

theorem stale_sweep_queues_again:
  assumes "jrow_of w key = Some q" and "jr_stage q = Downloaded" and "key \<noteq> []"
    and "row_targets_sab cl q (pv_or (load_payload (jr_payload q)) (VDict []))"
    and "validate_postprocess_item (pe_fs env) (pe_conf env) (configured_roots (pe_conf env)) True
      (VDict (pp_item_from_row key q (pv_or (load_payload (jr_payload q)) (VDict [])))) = Inr item"
    and "jr_stage s = Snatched" and "row_targets_sab cl s (load_payload (jr_payload s))"
  shows "pw_pp_queue (((\<lambda>u. snd (sweep_rows cl env [(key, s)] u)) ^^ n) w) = pw_pp_queue w @ replicate n item"
proof -
  let ?w = "\<lambda>n. ((\<lambda>u. snd (sweep_rows cl env [(key, s)] u)) ^^ n) w"
  have "jrow_of (?w n) key = Some q \<and> pw_pp_queue (?w n) = pw_pp_queue w @ replicate n item" for n
  proof (induction n)
    case (Suc n)
    then show ?case
      using stale_pass [OF _ assms(2-7), of "?w n"] by (simp add: enqueue_pp_def jrow_of_def replicate_append_same)
  qed (simp add: assms(1))
  then show ?thesis by blast
qed

section \<open>Instances\<close>

definition demo_settings :: "sab_settings option" where
  "demo_settings = Some \<lparr>sq_post_processing = VBool True, sq_nzb_downloader = VInt 0, sq_client_pp = VBool True\<rparr>"

lemma silent_never_enqueues: "never_says_enqueued dead_clients"
proof -
  have o: "outage dead_clients" by (simp add: outage_def dead_clients_def)
  have "dt_raw (classify_details (default_probes dead_clients d True) d r p) \<noteq> Some ''enqueued''" for d r p
  proof (cases "default_probes dead_clients d True (resolve_downloader r p)")
    case (Some probe)
    have "\<exists>s. probe r = Some (VStr s) \<and> s \<noteq> ''enqueued''"
    proof (cases "resolve_downloader r p \<in> {''ddl'', ''DDL''}")
      case True
      then have "probe = (\<lambda>r. Some (probe_ddl (cl_head dead_clients) (cl_get dead_clients) d r))"
        using Some by (auto simp: default_probes_def)
      then show ?thesis by (auto simp: probe_ddl_def Let_def split: option.splits)
    next
      case False
      from outage_probe [OF o Some False, of r] show ?thesis by auto
    qed
    then show ?thesis using Some by (auto simp: classify_details_def probe_evidence_def)
  qed (simp add: classify_details_def empty_details_def)
  then show ?thesis by (simp add: never_says_enqueued_def)
qed

lemma demo_downloaded:
  "jrow_of (demo_world Downloaded st 0) ''42|nzbgeek'' = Some (demo_open Downloaded)"
  "row_targets_sab dead_clients (demo_open Downloaded) (pv_or (load_payload (jr_payload (demo_open Downloaded))) (VDict []))"
  "row_targets_sab dead_clients (demo_open Snatched) (load_payload (jr_payload (demo_open Snatched)))"
  "\<exists>item. validate_postprocess_item (pe_fs demo_penv) (pe_conf demo_penv) (configured_roots (pe_conf demo_penv)) True
      (VDict (pp_item_from_row ''42|nzbgeek'' (demo_open Downloaded)
        (pv_or (load_payload (jr_payload (demo_open Downloaded))) (VDict [])))) = Inr item"
  subgoal using demo_snap_row [of Downloaded st] by (simp add: demo_snap_def)
  subgoal by code_simp
  subgoal by code_simp
  subgoal by (rule exI, code_simp)
  done

theorem stale_sweep_queues_again_witness:
  "length (pw_pp_queue (((\<lambda>u. snd (sweep_rows dead_clients demo_penv [(''42|nzbgeek'', demo_open Snatched)] u)) ^^ 2)
     (demo_world Downloaded ''Snatched'' 0))) = 2"
proof -
  obtain item where v: "validate_postprocess_item (pe_fs demo_penv) (pe_conf demo_penv) (configured_roots (pe_conf demo_penv)) True
      (VDict (pp_item_from_row ''42|nzbgeek'' (demo_open Downloaded)
        (pv_or (load_payload (jr_payload (demo_open Downloaded))) (VDict [])))) = Inr item" using demo_downloaded(4) by blast
  from stale_sweep_queues_again [OF demo_downloaded(1) demo_open_stage _ demo_downloaded(2) v demo_open_stage demo_downloaded(3),
      where n = 2] show ?thesis by (simp add: demo_world_def)
qed

lemma demo_queue_step:
  "\<exists>x w'. queue_completed_postprocess dead_clients demo_penv (Some ''42|nzbgeek'') (demo_world Downloaded ''Snatched'' 0) = (x, w')
     \<and> was_enqueued x \<and> pw_pp_queue w' \<noteq> []"
proof -
  obtain item where v: "validate_postprocess_item (pe_fs demo_penv) (pe_conf demo_penv) (configured_roots (pe_conf demo_penv)) True
      (VDict (pp_item_from_row ''42|nzbgeek'' (demo_open Downloaded)
        (pv_or (load_payload (jr_payload (demo_open Downloaded))) (VDict [])))) = Inr item" using demo_downloaded(4) by blast
  then show ?thesis
    using demo_downloaded(1) demo_downloaded(2)
    by (simp add: queue_completed_postprocess_def present_def is_terminal_def TERMINAL_STAGES_def RETRYABLE_STAGES_def validated_item_def
        put_postprocess_def was_enqueued_def sab_result_of_def enqueue_pp_def Let_def)
qed

theorem sweep_queues_finished_work_witness:
  "\<exists>w'. snd (queue_completed_postprocess dead_clients demo_penv (Some ''42|nzbgeek'') (demo_world Downloaded ''Snatched'' 0)) = w'
     \<and> (\<exists>q. jrow_of w' ''42|nzbgeek'' = Some q \<and> jr_stage q = Downloaded)"
proof -
  obtain x w' where q: "queue_completed_postprocess dead_clients demo_penv (Some ''42|nzbgeek'') (demo_world Downloaded ''Snatched'' 0) = (x, w')"
    and g: "pw_pp_queue w' \<noteq> pw_pp_queue (demo_world Downloaded ''Snatched'' 0)"
    using demo_queue_step by (auto simp: demo_world_def)
  from sweep_queues_finished_work [OF demo_downloaded(1) _ q g] show ?thesis by (simp add: q)
qed

theorem retry_tells_the_truth_witness:
  "\<exists>item. pw_pp_queue (snd (retry_postprocess dead_clients demo_settings demo_penv (Some '' 42|nzbgeek '') (demo_world Downloaded ''Snatched'' 0)))
     = [item]"
proof -
  let ?w = "demo_world Downloaded ''Snatched'' 0"
  obtain x u where q: "queue_completed_postprocess dead_clients demo_penv (Some ''42|nzbgeek'') ?w = (x, u)" and e: "was_enqueued x"
    using demo_queue_step by blast
  have k: "py_strip '' 42|nzbgeek '' = ''42|nzbgeek''" by code_simp
  have r: "retry_postprocess dead_clients demo_settings demo_penv (Some '' 42|nzbgeek '') ?w = (RetryQueued ''42|nzbgeek'', u)"
    using q e demo_downloaded(1)
    by (auto simp: retry_postprocess_def k post_processing_enabled_def demo_settings_def was_enqueued_def Let_def)
  have e: "pw_pp_queue ?w = []" by (simp add: demo_world_def)
  have "\<exists>item. pw_pp_queue u = pw_pp_queue ?w @ [item]" using retry_tells_the_truth [OF silent_never_enqueues r] by blast
  then show ?thesis by (simp add: r e)
qed

theorem sweep_leaves_other_rows_witness:
  "jrow_of (snd (reconcile_completed_sab_downloads dead_clients demo_settings demo_penv (demo_world Moved ''Snatched'' 0))) ''42|nzbgeek''
     = Some (demo_open Moved)"
proof -
  have row: "jrow_of (demo_world Moved ''Snatched'' 0) ''42|nzbgeek'' = Some (demo_open Moved)"
    using demo_snap_row [of Moved] by (simp add: demo_snap_def)
  show ?thesis by (rule sweep_leaves_other_rows [OF demo_world_wf row]) simp
qed

end
