(* ===== verification/DownloadPaths.thy ===== *)
theory DownloadPaths
  imports PPCommands
begin

text \<open>
  \<open>comicarr/app/downloads/completed_path.py\<close> and \<open>torrent_routing.py\<close>: which file of a completed download is opened,
  and which category and folder a torrent is given from the library root of its series.  Paths are POSIX paths.
  The file system and the configuration values are parameters; \<open>None\<close> as an answer of the file system is an exception.
\<close>

section \<open>POSIX paths\<close>

text \<open>Two leading slashes are kept apart from one; three or more count as one.\<close>

definition path_root :: "string \<Rightarrow> string" where
  "path_root s =
     (if \<not> py_startswith s ''/'' then []
      else if py_startswith s ''//'' \<and> \<not> py_startswith s ''///'' then ''//'' else ''/'')"

definition plain_parts :: "string \<Rightarrow> string list" where
  "plain_parts s = filter (\<lambda>c. c \<noteq> [] \<and> c \<noteq> ''.'') (py_split CHR ''/'' s)"

text \<open>\<open>pathlib.Path\<close>: its root and its parts.\<close>

record ppath =
  pa_root :: string
  pa_parts :: "string list"

definition path_of :: "string \<Rightarrow> ppath" where
  "path_of s = \<lparr>pa_root = path_root s, pa_parts = plain_parts s\<rparr>"

definition path_join :: "ppath \<Rightarrow> string \<Rightarrow> ppath" where
  "path_join p s = (if path_root s \<noteq> [] then path_of s else p\<lparr>pa_parts := pa_parts p @ plain_parts s\<rparr>)"

text \<open>\<open>Path.suffix\<close>: from the last dot of the name, unless the name starts or ends there.\<close>

definition name_suffix :: "string \<Rightarrow> string" where
  "name_suffix n =
     (let t = takeWhile (\<lambda>c. c \<noteq> CHR ''.'') (rev n); i = length n - length t in
      if i \<le> 1 \<or> t = [] then [] else CHR ''.'' # rev t)"

definition path_suffix :: "ppath \<Rightarrow> string" where
  "path_suffix p = (if pa_parts p = [] then [] else name_suffix (last (pa_parts p)))"

text \<open>\<open>os.path.normpath\<close>: the components, with each ".." taking back the one before it.\<close>

fun norm_parts :: "bool \<Rightarrow> string list \<Rightarrow> string list \<Rightarrow> string list" where
  "norm_parts rooted acc [] = acc"
| "norm_parts rooted acc (c # cs) =
     (if c = [] \<or> c = ''.'' then norm_parts rooted acc cs
      else if c \<noteq> ''..'' \<or> (\<not> rooted \<and> acc = []) \<or> (acc \<noteq> [] \<and> last acc = ''..'') then norm_parts rooted (acc @ [c]) cs
      else norm_parts rooted (butlast acc) cs)"

definition normpath :: "string \<Rightarrow> string" where
  "normpath s =
     (let root = path_root s; p = root @ py_join CHR ''/'' (norm_parts (root \<noteq> []) [] (py_split CHR ''/'' s)) in
      if p = [] then ''.'' else p)"

text \<open>\<open>os.path.commonpath\<close> of two paths, \<open>None\<close> for the \<open>ValueError\<close> of mixing absolute and relative ones.\<close>

definition commonpath :: "string \<Rightarrow> string \<Rightarrow> string option" where
  "commonpath a b =
     (if py_isabs a \<noteq> py_isabs b then None
      else Some ((if py_isabs a then ''/'' else []) @ py_join CHR ''/'' (longest_common_prefix (plain_parts a) (plain_parts b))))"

section \<open>The completed file\<close>

definition COMPLETED_ARCHIVE_SUFFIXES :: "string list" where
  "COMPLETED_ARCHIVE_SUFFIXES = [''.cbr'', ''.cbz'', ''.cb7'', ''.cbt'', ''.pdf'', ''.zip'', ''.rar'', ''.7z'']"

record disk =
  dk_is_file :: "ppath \<Rightarrow> bool option"
  dk_is_dir :: "ppath \<Rightarrow> bool option"
  dk_names :: "ppath \<Rightarrow> string list option"
  dk_size :: "ppath \<Rightarrow> nat option"

definition is_regular_file :: "disk \<Rightarrow> ppath \<Rightarrow> bool" where
  "is_regular_file k p = (dk_is_file k p = Some True)"

definition file_size :: "disk \<Rightarrow> ppath \<Rightarrow> int" where
  "file_size k p = (case dk_size k p of None \<Rightarrow> -1 | Some n \<Rightarrow> int n)"

text \<open>Python's \<open>max\<close> with a key: the first of the largest.\<close>

fun first_max :: "('a \<Rightarrow> int) \<Rightarrow> 'a \<Rightarrow> 'a list \<Rightarrow> 'a" where
  "first_max f a [] = a"
| "first_max f a (b # bs) = first_max f (if f a < f b then b else a) bs"

definition child :: "ppath \<Rightarrow> string \<Rightarrow> ppath" where
  "child p n = p\<lparr>pa_parts := pa_parts p @ [n]\<rparr>"

definition pick_file :: "disk \<Rightarrow> ppath list \<Rightarrow> ppath option" where
  "pick_file k children =
     (let regular = filter (is_regular_file k) children;
          archives = filter (\<lambda>c. py_lower (path_suffix c) \<in> set COMPLETED_ARCHIVE_SUFFIXES) regular
      in case archives of
           a # as \<Rightarrow> Some (first_max (file_size k) a as)
         | [] \<Rightarrow> (case regular of [r] \<Rightarrow> Some r | _ \<Rightarrow> None))"

definition resolve_completed_download_file :: "disk \<Rightarrow> string option \<Rightarrow> string option \<Rightarrow> ppath option" where
  "resolve_completed_download_file k location name =
     (if \<not> present location then None
      else
        let loc = path_of (the location) in
        if is_regular_file k loc then Some loc
        else if present name \<and> is_regular_file k (path_join loc (the name)) then Some (path_join loc (the name))
        else if dk_is_dir k loc \<noteq> Some True then None
        else case dk_names k loc of None \<Rightarrow> None | Some ns \<Rightarrow> pick_file k (map (child loc) ns))"

section \<open>Torrent routing\<close>

record destination =
  qd_category :: "string option"
  qd_savepath :: "string option"

record route =
  rt_root :: string
  rt_category :: "string option"
  rt_savepath :: "string option"

definition setting_text :: "string option \<Rightarrow> string option" where
  "setting_text v =
     (case v of None \<Rightarrow> None
      | Some s \<Rightarrow> let t = py_strip s in if t = [] \<or> py_lower t = ''none'' then None else Some t)"

text \<open>One line \<open>root | category | save path\<close>; \<open>None\<close> when it is ignored.\<close>

definition parse_route :: "string \<Rightarrow> route option" where
  "parse_route raw_line =
     (let parts = map py_strip (py_split CHR ''|'' (py_strip raw_line));
          root = hd parts;
          category = (if 1 < length parts then setting_text (Some (parts ! 1)) else None);
          savepath = (if 2 < length parts then setting_text (Some (parts ! 2)) else None)
      in if py_strip raw_line = [] then None
         else if 3 < length parts \<or> \<not> py_isabs root \<or> (category = None \<and> savepath = None) then None
         else Some \<lparr>rt_root = normpath root, rt_category = category, rt_savepath = savepath\<rparr>)"

definition parse_routes :: "string option \<Rightarrow> route list" where
  "parse_routes raw =
     (case raw of None \<Rightarrow> []
      | Some s \<Rightarrow> map the (filter (\<lambda>r. r \<noteq> None) (map parse_route (py_splitlines s))))"

definition within_root :: "string \<Rightarrow> string \<Rightarrow> bool" where
  "within_root path root = (commonpath (normpath path) root = Some root)"

definition route_for_location :: "string option \<Rightarrow> string option \<Rightarrow> route option" where
  "route_for_location location raw =
     (if \<not> present location then None
      else case filter (\<lambda>r. within_root (the location) (rt_root r)) (parse_routes raw) of
        [] \<Rightarrow> None
      | r # rs \<Rightarrow> Some (first_max (\<lambda>q. int (length (rt_root q))) r rs))"

text \<open>\<open>series comic_id\<close> is the answer of \<open>series_queries.get_series_location\<close>: \<open>None\<close> when it raises, and then the
  location when there is a row.\<close>

record torrent_config =
  tc_label :: "string option"
  tc_folder :: "string option"
  tc_routes :: "string option"

definition series_location :: "(string \<Rightarrow> string option option) \<Rightarrow> string \<Rightarrow> string option" where
  "series_location series i = (case series i of None \<Rightarrow> None | Some l \<Rightarrow> l)"

definition qbittorrent_destination ::
  "(string \<Rightarrow> string option option) \<Rightarrow> torrent_config \<Rightarrow> string option \<Rightarrow> destination" where
  "qbittorrent_destination series c comic_id =
     (let default = \<lparr>qd_category = setting_text (tc_label c), qd_savepath = setting_text (tc_folder c)\<rparr> in
      if comic_id = None \<or> setting_text (tc_routes c) = None then default
      else case route_for_location (series_location series (the comic_id)) (tc_routes c) of
        None \<Rightarrow> default
      | Some r \<Rightarrow> \<lparr>qd_category = py_or (rt_category r) (qd_category default),
                  qd_savepath = py_or (rt_savepath r) (qd_savepath default)\<rparr>)"

end
