(* ===== verification/DownloadPathsProps.thy ===== *)
theory DownloadPathsProps
  imports DownloadPaths PPCommandsProps
begin

text \<open>
  The file opened for a completed download, and the torrent route chosen for a series: containment by components
  instead of characters, and the deepest root.
\<close>

section \<open>Components\<close>

definition good_part :: "string \<Rightarrow> bool" where
  "good_part c \<longleftrightarrow> c \<noteq> [] \<and> c \<noteq> ''.'' \<and> CHR ''/'' \<notin> set c"

lemma norm_parts_good:
  "list_all good_part acc \<Longrightarrow> \<forall>c \<in> set cs. CHR ''/'' \<notin> set c \<Longrightarrow> list_all good_part (norm_parts rooted acc cs)"
proof (induction rooted acc cs rule: norm_parts.induct)
  case (2 rooted acc c cs)
  have b: "list_all good_part (butlast acc)" using "2.prems"(1) by (auto simp: list_all_iff dest: in_set_butlastD)
  have a: "list_all good_part (acc @ [c])" if "c \<noteq> []" "c \<noteq> ''.''" using "2.prems" that by (auto simp: list_all_iff good_part_def)
  have cs: "\<forall>c \<in> set cs. CHR ''/'' \<notin> set c" using "2.prems"(2) by simp
  consider (skip) "c = [] \<or> c = ''.''" | (push) "\<not> (c = [] \<or> c = ''.'')" "c \<noteq> ''..'' \<or> (\<not> rooted \<and> acc = []) \<or> (acc \<noteq> [] \<and> last acc = ''..'')"
    | (pop) "\<not> (c = [] \<or> c = ''.'')" "\<not> (c \<noteq> ''..'' \<or> (\<not> rooted \<and> acc = []) \<or> (acc \<noteq> [] \<and> last acc = ''..''))" by blast
  then show ?case
  proof cases
    case skip
    with "2.IH"(1) [OF _ "2.prems"(1) cs] show ?thesis by (simp only: norm_parts.simps if_True)
  next
    case push
    with "2.IH"(2) [OF push a cs] show ?thesis by (simp only: norm_parts.simps if_True if_False de_Morgan_disj simp_thms)
  next
    case pop
    from "2.IH"(3) [OF pop b cs] show ?thesis unfolding norm_parts.simps if_not_P [OF pop(1)] if_not_P [OF pop(2)] .
  qed
qed simp

lemma split_no_sep: "c \<in> set (py_split CHR ''/'' s) \<Longrightarrow> CHR ''/'' \<notin> set c"
  by (rule split_parts)

definition norm_of :: "string \<Rightarrow> string list" where
  "norm_of s = norm_parts (path_root s \<noteq> []) [] (py_split CHR ''/'' s)"

lemma norm_of_good: "list_all good_part (norm_of s)"
  unfolding norm_of_def by (intro norm_parts_good) (auto dest: split_no_sep)

lemma split_sep_free: "CHR ''/'' \<notin> set c \<Longrightarrow> py_split CHR ''/'' c = [c]"
  by (induction c) auto

lemma split_append: "CHR ''/'' \<notin> set c \<Longrightarrow> py_split CHR ''/'' (c @ CHR ''/'' # s) = c # py_split CHR ''/'' s"
  by (induction c) auto

lemma split_join_parts: "list_all good_part ps \<Longrightarrow> ps \<noteq> [] \<Longrightarrow> py_split CHR ''/'' (py_join CHR ''/'' ps) = ps"
  by (induction "CHR ''/''" ps rule: py_join.induct) (auto simp: good_part_def split_sep_free split_append)

lemma plain_join: "list_all good_part ps \<Longrightarrow> plain_parts (py_join CHR ''/'' ps) = ps"
proof (cases "ps = []")
  case False
  assume g: "list_all good_part ps"
  then have "filter (\<lambda>c. c \<noteq> [] \<and> c \<noteq> ''.'') ps = ps" by (auto simp: list_all_iff good_part_def intro: filter_True)
  then show ?thesis using split_join_parts [OF g False] by (simp add: plain_parts_def)
qed (simp add: plain_parts_def)

lemma plain_slash: "plain_parts (CHR ''/'' # s) = plain_parts s"
  by (simp add: plain_parts_def)

lemma isabs_root: "py_isabs s \<longleftrightarrow> path_root s \<noteq> []"
  by (auto simp: py_isabs_def path_root_def)

lemma root_cases: "path_root s \<in> {[], ''/'', ''//''}"
  by (simp add: path_root_def)

lemma normpath_abs: "py_isabs s \<Longrightarrow> normpath s = path_root s @ py_join CHR ''/'' (norm_of s)"
  using root_cases [of s] by (auto simp: normpath_def Let_def isabs_root norm_of_def)

lemma plain_norm: "plain_parts (path_root s @ py_join CHR ''/'' (norm_of s)) = norm_of s"
  using root_cases [of s] plain_join [OF norm_of_good, of s] by (auto simp: plain_slash)

lemma root_slash [simp]: "path_root (CHR ''/'' # t) \<noteq> []"
  by (simp add: path_root_def py_startswith_def)

lemma isabs_norm: "py_isabs s \<Longrightarrow> py_isabs (path_root s @ t)"
  using root_cases [of s] by (auto simp: isabs_root)

lemma join_head: "list_all good_part ps \<Longrightarrow> py_join CHR ''/'' ps \<noteq> CHR ''/'' # t"
  by (induction "CHR ''/''" ps rule: py_join.induct) (auto simp: good_part_def Cons_eq_append_conv append_eq_Cons_conv)

lemma join_inj: "list_all good_part ps \<Longrightarrow> list_all good_part qs \<Longrightarrow> py_join CHR ''/'' ps = py_join CHR ''/'' qs \<Longrightarrow> ps = qs"
  using plain_join by metis

lemma relative_norm: "\<not> py_isabs s \<Longrightarrow> \<not> py_isabs (normpath s)"
proof -
  assume "\<not> py_isabs s"
  then have r: "path_root s = []" by (simp add: isabs_root)
  then have "normpath s = (if py_join CHR ''/'' (norm_of s) = [] then ''.'' else py_join CHR ''/'' (norm_of s))"
    by (simp add: normpath_def Let_def norm_of_def)
  moreover have "\<not> py_isabs (py_join CHR ''/'' (norm_of s))"
    using join_head [OF norm_of_good, of s] by (auto simp: py_isabs_def py_startswith_def prefix_def)
  ultimately show ?thesis by (simp add: py_isabs_def py_startswith_def)
qed

lemma lcp_prefix: "longest_common_prefix xs ys = ys \<longleftrightarrow> prefix ys xs"
  by (induction xs ys rule: longest_common_prefix.induct) auto

lemma lcp_good: "list_all good_part xs \<Longrightarrow> list_all good_part (longest_common_prefix xs ys)"
  by (induction xs ys rule: longest_common_prefix.induct) auto

text \<open>A path is within a root exactly when both are absolute and the components of the root begin those of the path;
  a root written with two leading slashes is under nothing.\<close>

lemma within_components:
  assumes "py_isabs raw"
  shows "within_root path (normpath raw) \<longleftrightarrow> py_isabs path \<and> path_root raw = ''/'' \<and> prefix (norm_of raw) (norm_of path)"
proof (cases "py_isabs path")
  case False
  then show ?thesis using assms isabs_norm [OF assms] relative_norm [OF False] by (simp add: within_root_def commonpath_def normpath_abs)
next
  case True
  let ?l = "longest_common_prefix (norm_of path) (norm_of raw)"
  have c: "commonpath (normpath path) (normpath raw) = Some (CHR ''/'' # py_join CHR ''/'' ?l)"
    using True assms by (simp add: commonpath_def normpath_abs isabs_norm plain_norm)
  have g: "list_all good_part ?l" by (rule lcp_good [OF norm_of_good])
  consider (one) "path_root raw = ''/''" | (two) "path_root raw = ''//''"
    using assms root_cases [of raw] by (auto simp: isabs_root)
  then show ?thesis
  proof cases
    case one
    then have "within_root path (normpath raw) \<longleftrightarrow> py_join CHR ''/'' ?l = py_join CHR ''/'' (norm_of raw)"
      using c assms by (simp add: within_root_def normpath_abs)
    also have "\<dots> \<longleftrightarrow> ?l = norm_of raw" using join_inj [OF g norm_of_good] by auto
    finally show ?thesis using True one by (simp add: lcp_prefix)
  next
    case two
    then show ?thesis using c assms join_head [OF g] by (simp add: within_root_def normpath_abs)
  qed
qed

section \<open>The deepest root\<close>

lemma first_max_in: "first_max f a bs \<in> set (a # bs)"
  by (induction f a bs rule: first_max.induct) auto

lemma first_max_le: "b \<in> set (a # bs) \<Longrightarrow> f b \<le> f (first_max f a bs)"
proof (induction f a bs arbitrary: b rule: first_max.induct)
  case (2 f a c bs)
  let ?n = "if f a < f c then c else a"
  have n: "f a \<le> f ?n" "f c \<le> f ?n" by auto
  have i: "f ?n \<le> f (first_max f ?n bs)" "x \<in> set bs \<Longrightarrow> f x \<le> f (first_max f ?n bs)" for x using "2.IH" by simp_all
  have "f b \<le> f ?n \<or> b \<in> set bs" using "2.prems" n by auto
  then show ?case using i by (auto intro: order_trans)
qed simp

lemma parsed_root: "q \<in> set (parse_routes raw) \<Longrightarrow> \<exists>t. py_isabs t \<and> rt_root q = normpath t"
  by (auto simp: parse_routes_def parse_route_def Let_def split: option.splits if_splits)

lemma join_append: "ps \<noteq> [] \<Longrightarrow> qs \<noteq> [] \<Longrightarrow> py_join c (ps @ qs) = py_join c ps @ c # py_join c qs"
proof (induction c ps rule: py_join.induct)
  case (2 c p)
  then show ?case by (cases qs) auto
qed auto

lemma join_longer:
  assumes "list_all good_part (ps @ qs)" and "qs \<noteq> []"
  shows "length (py_join CHR ''/'' ps) < length (py_join CHR ''/'' (ps @ qs))"
proof (cases "ps = []")
  case True
  have "py_join CHR ''/'' qs \<noteq> []" using assms join_inj [of qs "[]"] True by auto
  then show ?thesis using True by simp
qed (simp add: join_append assms(2))

lemma within_parts:
  assumes "q \<in> set (parse_routes raw)" and "within_root loc (rt_root q)"
  shows "prefix (plain_parts (rt_root q)) (norm_of loc) \<and> rt_root q = CHR ''/'' # py_join CHR ''/'' (plain_parts (rt_root q))"
proof -
  obtain t where t: "py_isabs t" "rt_root q = normpath t" using parsed_root [OF assms(1)] by blast
  with assms(2) within_components [OF t(1)] have w: "path_root t = ''/''" "prefix (norm_of t) (norm_of loc)" by simp_all
  have "plain_parts (normpath t) = norm_of t" using t(1) by (simp add: normpath_abs plain_norm)
  then show ?thesis using w t by (simp add: normpath_abs)
qed


section \<open>The file that is opened\<close>

definition archive_file :: "disk \<Rightarrow> ppath \<Rightarrow> bool" where
  "archive_file k p \<longleftrightarrow> is_regular_file k p \<and> py_lower (path_suffix p) \<in> set COMPLETED_ARCHIVE_SUFFIXES"

lemma pick_file_cases:
  assumes "pick_file k cs = Some p"
  shows "p \<in> set cs \<and> is_regular_file k p
    \<and> (if archive_file k p then \<forall>c \<in> set cs. archive_file k c \<longrightarrow> file_size k c \<le> file_size k p
       else filter (is_regular_file k) cs = [p])"
proof -
  let ?reg = "filter (is_regular_file k) cs"
  let ?arc = "filter (\<lambda>c. py_lower (path_suffix c) \<in> set COMPLETED_ARCHIVE_SUFFIXES) ?reg"
  have arc: "set ?arc = {c \<in> set cs. archive_file k c}" by (auto simp: archive_file_def)
  show ?thesis
  proof (cases ?arc)
    case Nil
    then have r: "?reg = [p]" using assms by (simp add: pick_file_def Let_def split: list.splits)
    then have "p \<in> set ?reg" by simp
    then have pin: "p \<in> set cs" "is_regular_file k p" by (simp_all del: r)
    have "\<not> archive_file k p" using Nil arc pin by auto
    then show ?thesis using pin r by simp
  next
    case (Cons a as)
    then have p: "p = first_max (file_size k) a as" using assms by (simp add: pick_file_def Let_def)
    have "p \<in> set ?arc" using first_max_in [of "file_size k" a as] Cons p by simp
    then have a: "archive_file k p" "p \<in> set cs" "is_regular_file k p" using arc by (auto simp: archive_file_def)
    have "file_size k c \<le> file_size k p" if "c \<in> set cs" "archive_file k c" for c
    proof -
      have "c \<in> set (a # as)" using that unfolding Cons [symmetric] arc by simp
      from first_max_le [OF this] p show ?thesis by simp
    qed
    then show ?thesis using a by simp
  qed
qed

text \<open>What completed-download handling opens is there: the answer is a regular file, namely the reported location,
  the reported name in it, or a child of the reported folder; among the children an archive is preferred, the largest
  one, and a file that is no archive is taken only when it is the only regular file.\<close>

theorem completed_file_is_there:
  assumes "resolve_completed_download_file k location name = Some p"
  shows "is_regular_file k p \<and> (p = path_of (the location) \<or> (present name \<and> p = path_join (path_of (the location)) (the name))
    \<or> (\<exists>ns. dk_names k (path_of (the location)) = Some ns \<and> p \<in> child (path_of (the location)) ` set ns
         \<and> (if archive_file k p
            then \<forall>n \<in> set ns. archive_file k (child (path_of (the location)) n)
                   \<longrightarrow> file_size k (child (path_of (the location)) n) \<le> file_size k p
            else filter (is_regular_file k) (map (child (path_of (the location))) ns) = [p])))"
proof -
  let ?loc = "path_of (the location)"
  consider "is_regular_file k ?loc" "p = ?loc"
    | "present name" "is_regular_file k (path_join ?loc (the name))" "p = path_join ?loc (the name)"
    | ns where "dk_names k ?loc = Some ns" "pick_file k (map (child ?loc) ns) = Some p"
  proof (cases "is_regular_file k ?loc \<or> (present name \<and> is_regular_file k (path_join ?loc (the name)))")
    case True
    then show ?thesis using assms that(1,2) unfolding resolve_completed_download_file_def Let_def by (metis option.inject option.distinct(1))
  next
    case False
    then have "(case dk_names k ?loc of None \<Rightarrow> None | Some ns \<Rightarrow> pick_file k (map (child ?loc) ns)) = Some p"
      using assms unfolding resolve_completed_download_file_def Let_def by (metis option.distinct(1))
    then show ?thesis using that(3) by (cases "dk_names k ?loc") simp_all
  qed
  then show ?thesis
  proof cases
    case (3 ns)
    from pick_file_cases [OF 3(2)] 3(1) show ?thesis by (auto split: if_splits)
  qed auto
qed

section \<open>Instances\<close>

definition demo_lines :: string where
  "demo_lines = ''/data | general | '' @ CHR 0x0A # ''/data/./manga/ | manga | /save/manga'' @ CHR 0x0A # ''/data/man | no |''"


definition demo_disk :: disk where
  "demo_disk = \<lparr>dk_is_file = (\<lambda>p. Some (p \<noteq> path_of ''/done/Saga 1'')), dk_is_dir = (\<lambda>p. Some True),
     dk_names = (\<lambda>p. Some [''readme.nfo'', ''Saga 1.CBZ'', ''sample.cbz'']), dk_size = (\<lambda>p. Some (length (last (pa_parts p))))\<rparr>"

theorem completed_file_is_there_witness:
  "is_regular_file demo_disk (path_of ''/done/Saga 1/Saga 1.CBZ'')"
proof -
  have r: "resolve_completed_download_file demo_disk (Some ''/done/Saga 1/'') None = Some (path_of ''/done/Saga 1/Saga 1.CBZ'')"
    by code_simp
  from completed_file_is_there [OF r] show ?thesis by blast
qed

end
