(* ===== verification/PPPipeline.thy ===== *)
theory PPPipeline
  imports PostProcess
begin

text \<open>
  \<open>comicarr/app/downloads/postprocess_pipeline.py\<close> and \<open>complete\<close> of \<open>_postprocess_completion.py\<close>: what the
  processor of a download calls around its file work, namely which folder it reads, which journal row it advances, and
  the closing write that deletes the anchors and marks the row in one transaction.
\<close>

section \<open>The folder presented to the processor\<close>

text \<open>\<open>os.path.join\<close> and \<open>os.path.basename\<close> on POSIX.\<close>

definition os_join :: "string \<Rightarrow> string \<Rightarrow> string" where
  "os_join a b =
     (if py_startswith b ''/'' then b else if a = [] \<or> last a = CHR ''/'' then a @ b else a @ ''/'' @ b)"

definition os_basename :: "string \<Rightarrow> string" where
  "os_basename s = last (py_split CHR ''/'' s)"

record pp_input =
  pi_name :: string
  pi_folder :: string
  pi_ddl :: bool
  pi_sab :: bool
  pi_nzbget :: bool
  pi_direct_unpack :: bool
  pi_sab_directory :: "string option"
  pi_nzbget_directory :: "string option"
  pi_nzbget_category :: "string option"

text \<open>A directory setting that is in use: not absent and not the text "None".\<close>

definition dir_set :: "string option \<Rightarrow> bool" where
  "dir_set d = (d \<notin> {None, Some ''None''})"

definition unlocatable :: "string \<Rightarrow> string \<Rightarrow> string \<Rightarrow> string" where
  "unlocatable dir a b =
     ''Unable to locate directory within '' @ dir @ '' location. ''
     @ ''I have unsucessfully attempted to locate the following paths: '' @ a @ '' & '' @ b"

text \<open>The SABnzbd step: a folder, or the message of the error.\<close>

definition sab_folder :: "(string \<Rightarrow> bool) \<Rightarrow> pp_input \<Rightarrow> string + string" where
  "sab_folder exists c =
     (if \<not> pi_sab c \<or> pi_name c = ''Manual Run'' \<or> \<not> pi_direct_unpack c \<or> \<not> dir_set (pi_sab_directory c)
         \<or> exists (os_join (pi_folder c) (pi_name c))
      then Inr (pi_folder c)
      else
        let dir = the (pi_sab_directory c);
            job_folder = os_join dir (pi_name c);
            basename_folder = os_join dir (os_basename (pi_folder c))
        in if exists job_folder then Inr job_folder
           else if exists basename_folder then Inr basename_folder
           else Inl (unlocatable dir job_folder basename_folder))"

definition nzbget_folder :: "(string \<Rightarrow> bool) \<Rightarrow> pp_input \<Rightarrow> string \<Rightarrow> string" where
  "nzbget_folder exists c folder =
     (if \<not> pi_nzbget c \<or> pi_name c = ''Manual Run'' \<or> \<not> dir_set (pi_nzbget_directory c) then folder
      else
        let dir = the (pi_nzbget_directory c);
            plain = os_join dir (pi_name c);
            categorised = os_join (os_join dir (the (pi_nzbget_category c))) (pi_name c)
        in if \<not> exists plain \<and> pi_nzbget_category c \<notin> {None, Some [], Some ''None''} \<and> exists categorised
           then categorised else plain)"

text \<open>\<open>PostProcessInputStage.resolve\<close>: the folder and the reason to stop.\<close>

definition resolve_input :: "(string \<Rightarrow> bool) \<Rightarrow> pp_input \<Rightarrow> string \<times> string option" where
  "resolve_input exists c =
     (if pi_ddl c then (pi_folder c, None)
      else case sab_folder exists c of
        Inl e \<Rightarrow> (pi_folder c, Some e)
      | Inr f \<Rightarrow> (nzbget_folder exists c f, None))"

section \<open>Journal transitions of a run\<close>

record pp_context =
  px_issueid :: "string option"
  px_arcid :: "string option"
  px_comicid :: "string option"
  px_name :: string
  px_folder :: string
  px_api :: bool
  px_ddl :: bool
  px_key :: "string option"

definition arc_override :: "pp_context \<Rightarrow> string option \<Rightarrow> bool" where
  "arc_override c arc = (arc \<noteq> None \<and> arc \<noteq> px_arcid c)"

definition key_identity :: "pp_context \<Rightarrow> string option \<Rightarrow> string option \<Rightarrow> payload" where
  "key_identity c issue arc =
     [(''issueid'', opt_pv issue), (''IssueArcID'', opt_pv arc), (''comicid'', opt_pv (px_comicid c)),
      (''nzbname'', VStr (px_name c)), (''ddl'', VBool (px_ddl c))]"

definition given_else :: "string option \<Rightarrow> string option \<Rightarrow> string option" where
  "given_else a b = (if a \<noteq> None then a else b)"

definition pp_release_key :: "penv \<Rightarrow> pp_context \<Rightarrow> string option \<Rightarrow> string option \<Rightarrow> string" where
  "pp_release_key env c issue arc =
     (if present (px_key c) \<and> \<not> arc_override c arc then the (px_key c)
      else if arc_override c arc then derive_release_key (pe_sha env) (key_identity c arc arc)
      else derive_release_key (pe_sha env) (key_identity c (given_else issue (px_issueid c)) (given_else arc (px_arcid c))))"

definition transition_fields_payload :: "pp_context \<Rightarrow> string option \<Rightarrow> string option \<Rightarrow> payload" where
  "transition_fields_payload c issue arc =
     [(''issueid'', opt_pv (given_else issue (px_issueid c))), (''issuearcid'', opt_pv (given_else arc (px_arcid c))),
      (''comicid'', opt_pv (px_comicid c)), (''nzb_name'', VStr (px_name c)), (''nzb_folder'', VStr (px_folder c)),
      (''apicall'', VBool (px_api c)), (''ddl'', VBool (px_ddl c))]"

text \<open>\<open>PostProcessTransitionResult\<close>; of an exception its class name is kept.\<close>

record pp_transition =
  pt_key :: "string option"
  pt_stage :: string
  pt_recorded :: bool
  pt_error :: "string option"

definition transition_payload_of :: "pp_context \<Rightarrow> string option \<Rightarrow> string option \<Rightarrow> pval option \<Rightarrow> pval" where
  "transition_payload_of c issue arc payload =
     (case payload of None \<Rightarrow> VDict (transition_fields_payload c issue arc) | Some p \<Rightarrow> p)"

text \<open>Without a connection: an exception of the write is noted in the result and the run goes on.\<close>

definition pp_transition_own ::
  "penv \<Rightarrow> pp_context \<Rightarrow> string \<Rightarrow> string option \<Rightarrow> string option \<Rightarrow> pval option \<Rightarrow> pworld \<Rightarrow> pp_transition \<times> pworld" where
  "pp_transition_own env c stage issue arc payload w =
     (let key = pp_release_key env c issue arc in
      case transition_own env w key stage (transition_payload_of c issue arc payload)
             [(CIssueid, given_else issue (px_issueid c))] of
        Inl e \<Rightarrow> (\<lparr>pt_key = Some key, pt_stage = stage, pt_recorded = False, pt_error = Some (jerror_name e)\<rparr>, w)
      | Inr (won, w') \<Rightarrow> (\<lparr>pt_key = Some key, pt_stage = stage, pt_recorded = won, pt_error = None\<rparr>, w'))"

text \<open>On a connection of the caller the exception goes through.\<close>

definition pp_transition_on ::
  "penv \<Rightarrow> pp_context \<Rightarrow> string \<Rightarrow> string option \<Rightarrow> string option \<Rightarrow> pval option \<Rightarrow> pworld
   \<Rightarrow> jerror + pp_transition \<times> pworld" where
  "pp_transition_on env c stage issue arc payload w =
     (let key = pp_release_key env c issue arc in
      case record_transition (jenv_of env w) None (pw_journal w) key stage (transition_payload_of c issue arc payload)
             [(CIssueid, given_else issue (px_issueid c))] (pe_now env) of
        Inl e \<Rightarrow> Inl e
      | Inr (won, j) \<Rightarrow> Inr (\<lparr>pt_key = Some key, pt_stage = stage, pt_recorded = won, pt_error = None\<rparr>, w\<lparr>pw_journal := j\<rparr>))"

section \<open>The closing write of the processor\<close>

text \<open>\<open>arc_scope\<close>: \<open>None\<close> is the sentinel \<open>_UNSCOPED\<close>; \<open>Some s\<close> compares the column, with \<open>IS NULL\<close> for no value.\<close>

definition completion_anchor :: "string \<Rightarrow> string option option \<Rightarrow> nzb_row \<Rightarrow> bool" where
  "completion_anchor anchor_id arc_scope n =
     (nz_issueid n = Some anchor_id \<and> (case arc_scope of None \<Rightarrow> True | Some s \<Rightarrow> nz_sarc n = s))"

definition delete_completion_anchors :: "string list \<Rightarrow> string option option \<Rightarrow> pworld \<Rightarrow> pworld" where
  "delete_completion_anchors ids scope w =
     w\<lparr>pw_nzblog := fold (\<lambda>i rows. filter (\<lambda>n. \<not> completion_anchor i scope n) rows) ids (pw_nzblog w)\<rparr>"

definition complete_obligation ::
  "penv \<Rightarrow> pp_context \<Rightarrow> string option \<Rightarrow> string option \<Rightarrow> string list \<Rightarrow> string option option \<Rightarrow> pworld \<Rightarrow> jerror + pworld" where
  "complete_obligation env c issue arc ids scope w =
     (case pp_transition_on env c ''post_processed'' issue arc None (delete_completion_anchors ids scope w) of
        Inl e \<Rightarrow> Inl e
      | Inr (_, w') \<Rightarrow> Inr w')"

end
