(* ===== verification/PPPipelineProps.thy ===== *)
theory PPPipelineProps
  imports PPPipeline SabReconcileProps
begin

text \<open>
  The closing write of the legacy processor: what it deletes, what it marks, and that a failure of either undoes both.
\<close>

lemma fold_filter: "fold (\<lambda>i. filter (\<lambda>n. \<not> P i n)) ids ns = filter (\<lambda>n. \<forall>i \<in> set ids. \<not> P i n) ns"
proof (induction ids arbitrary: ns)
  case (Cons i ids)
  then show ?case by (simp add: conj_commute)
qed simp

lemma anchors_deleted:
  "pw_nzblog (delete_completion_anchors ids scope w) = filter (\<lambda>n. \<forall>i \<in> set ids. \<not> completion_anchor i scope n) (pw_nzblog w)"
  by (simp add: delete_completion_anchors_def fold_filter)

lemma anchors_frame [simp]:
  "pw_journal (delete_completion_anchors ids scope w) = pw_journal w" "pw_recon (delete_completion_anchors ids scope w) = pw_recon w"
  "jenv_of env (delete_completion_anchors ids scope w) = jenv_of env w"
  by (simp_all add: delete_completion_anchors_def jenv_of_def)

lemma post_processed_stage [simp]: "stage_of_string ''post_processed'' = Some Post_processed"
  by (simp add: stage_of_string_def)

text \<open>C37: The closing write of the processor is one step that cannot half happen: for an open row it never raises, the
  row of exactly this release ends post-processed (or parked, when the run contradicts the identity the row stores),
  exactly the named anchors are gone, and neither another row nor the library is touched.\<close>

theorem completion_closes_exactly:
  assumes "journal_wf (pw_journal w)" and "jrow_of w (pp_release_key env c issue arc) = Some r" and "\<not> is_terminal (jr_stage r)"
  shows "\<exists>w' q. complete_obligation env c issue arc ids scope w = Inr w'
    \<and> jrow_of w' (pp_release_key env c issue arc) = Some q \<and> jr_stage q \<in> {Post_processed, Manual_review}
    \<and> (\<forall>k. k \<noteq> pp_release_key env c issue arc \<longrightarrow> jrow_of w' k = jrow_of w k)
    \<and> pw_nzblog w' = filter (\<lambda>n. \<forall>i \<in> set ids. \<not> completion_anchor i scope n) (pw_nzblog w) \<and> pw_recon w' = pw_recon w"
proof -
  let ?key = "pp_release_key env c issue arc" and ?w = "delete_completion_anchors ids scope w"
  have before: "jr_stage r < Post_processed"
    using assms(3) by (cases "jr_stage r") (simp_all add: is_terminal_def TERMINAL_STAGES_def less_stage_def)
  obtain won t q where t: "record_transition (jenv_of env ?w) None (pw_journal w) ?key ''post_processed''
      (transition_payload_of c issue arc None) [(CIssueid, given_else issue (px_issueid c))] (pe_now env) = Inr (won, t)"
    and q: "js_row t ?key = Some q" "jr_stage q \<in> {Post_processed, Manual_review}"
    using later_transition [OF assms(1) _ assms(3) post_processed_stage before] assms(2) unfolding jrow_of_def by blast
  have "complete_obligation env c issue arc ids scope w = Inr (?w\<lparr>pw_journal := t\<rparr>)"
    using t by (simp add: complete_obligation_def pp_transition_on_def Let_def)
  moreover have "js_row t k = js_row (pw_journal w) k" if "k \<noteq> ?key" for k using record_transition_only [OF t that] .
  ultimately show ?thesis using q by (simp add: jrow_of_def anchors_deleted)
qed

definition demo_context :: pp_context where
  "demo_context = \<lparr>px_issueid = Some ''42'', px_arcid = None, px_comicid = Some ''7'', px_name = ''a.cbz'', px_folder = ''/dl/x'',
     px_api = True, px_ddl = False, px_key = Some ''42|nzbgeek''\<rparr>"

theorem completion_closes_exactly_witness:
  "\<exists>w'. complete_obligation demo_penv demo_context None None [''42''] (Some None) (demo_world Moved ''Snatched'' 0) = Inr w'
     \<and> pw_nzblog w' = []"
proof -
  have k: "pp_release_key demo_penv demo_context None None = ''42|nzbgeek''"
    by (simp add: pp_release_key_def demo_context_def arc_override_def present_def)
  have row: "jrow_of (demo_world Moved ''Snatched'' 0) (pp_release_key demo_penv demo_context None None) = Some (demo_open Moved)"
    using demo_snap_row [of Moved] by (simp add: k demo_snap_def)
  have nt: "\<not> is_terminal (jr_stage (demo_open Moved))" by (simp add: is_terminal_def TERMINAL_STAGES_def)
  from completion_closes_exactly [OF demo_world_wf row nt, of "[''42'']" "Some None"] show ?thesis
    by (auto simp: demo_world_def completion_anchor_def)
qed

section \<open>The folder presented to the processor\<close>

text \<open>A run of a SABnzbd download under its own download folder reads a folder that exists, or stops with the two
  places it looked for.\<close>

theorem input_folder_exists:
  assumes "pi_sab c" and "pi_direct_unpack c" and "dir_set (pi_sab_directory c)" and "pi_name c \<noteq> ''Manual Run''"
    and "\<not> pi_ddl c" and "\<not> pi_nzbget c" and "resolve_input exists c = (folder, err)"
  shows "if err = None then exists folder \<or> exists (os_join folder (pi_name c))
    else \<not> exists (os_join (pi_folder c) (pi_name c)) \<and> \<not> exists (os_join (the (pi_sab_directory c)) (pi_name c)) \<and> folder = pi_folder c"
  using assms by (auto simp: resolve_input_def sab_folder_def nzbget_folder_def Let_def split: if_splits)

end
