(* ===== verification/SearchJson.thy ===== *)
theory SearchJson
  imports JournalKey
begin

text \<open>
  The JSON values of an interactive release search and their sanitising
  (\<open>comicarr/app/search/interactive_sessions.py\<close>): what a browser is shown carries neither credentials nor URLs, and
  what the server keeps to find a candidate again is an allowlist.  \<open>redact_sensitive_text\<close>, the text of
  arrays, objects and floats, \<open>json.dumps\<close>, \<open>json.loads\<close> and SHA-256 are parameters.
\<close>

text \<open>\<open>JText\<close> is any other object, known by its text; a float is known by its text.\<close>

datatype json = JNull | JBool bool | JInt int | JFloat string | JStr string | JText string
  | JArr "json list" | JObj "(string \<times> json) list"

record senv =
  ie_digest :: "string \<Rightarrow> string"
  ie_redact :: "string \<Rightarrow> string"
  ie_repr :: "json \<Rightarrow> string"
  ie_dumps :: "json \<Rightarrow> string"
  ie_loads :: "string \<Rightarrow> json option"

fun jtruthy :: "json \<Rightarrow> bool" where
  "jtruthy JNull = False"
| "jtruthy (JBool b) = b"
| "jtruthy (JInt i) = (i \<noteq> 0)"
| "jtruthy (JFloat s) = (s \<notin> {''0.0'', ''-0.0''})"
| "jtruthy (JStr s) = (s \<noteq> [])"
| "jtruthy (JText s) = True"
| "jtruthy (JArr xs) = (xs \<noteq> [])"
| "jtruthy (JObj d) = (d \<noteq> [])"

definition jor :: "json \<Rightarrow> json \<Rightarrow> json" where
  "jor a b = (if jtruthy a then a else b)"

definition jget :: "json \<Rightarrow> string \<Rightarrow> json" where
  "jget j k = (case j of JObj d \<Rightarrow> (case dict_get d k of None \<Rightarrow> JNull | Some v \<Rightarrow> v) | _ \<Rightarrow> JNull)"

definition is_obj :: "json \<Rightarrow> bool" where
  "is_obj j = (case j of JObj _ \<Rightarrow> True | _ \<Rightarrow> False)"

definition jset :: "string \<Rightarrow> json \<Rightarrow> json \<Rightarrow> json" where
  "jset k v j = (case j of JObj d \<Rightarrow> JObj (dict_set k v d) | _ \<Rightarrow> j)"

definition jtext :: "senv \<Rightarrow> json \<Rightarrow> string" where
  "jtext e j =
     (case j of JNull \<Rightarrow> ''None'' | JBool b \<Rightarrow> (if b then ''True'' else ''False'') | JInt i \<Rightarrow> py_str_int i
      | JStr s \<Rightarrow> s | JText s \<Rightarrow> s | _ \<Rightarrow> ie_repr e j)"

section \<open>Sanitising\<close>

text \<open>The pattern \<open>https?://\<close> followed by something that is no white space, in any case, at the start of a text.\<close>

definition url_at :: "string \<Rightarrow> bool" where
  "url_at s =
     (let l = py_lower s; follows = (\<lambda>n. n < length s \<and> \<not> py_isspace (s ! n)) in
      (py_startswith l ''http://'' \<and> follows 7) \<or> (py_startswith l ''https://'' \<and> follows 8))"

fun has_url :: "string \<Rightarrow> bool" where
  "has_url [] = False"
| "has_url (c # s) = (url_at (c # s) \<or> has_url s)"

definition url_marker :: string where
  "url_marker = ''[redacted URL]''"

text \<open>\<open>re.sub\<close>: the leftmost match reaches up to the next white space.\<close>

function redact_urls :: "string \<Rightarrow> string" where
  "redact_urls [] = []"
| "redact_urls (c # s) =
     (if url_at (c # s) then url_marker @ redact_urls (dropWhile (\<lambda>x. \<not> py_isspace x) s) else c # redact_urls s)"
  by pat_completeness auto

termination redact_urls
  by (relation "measure length") (auto simp: less_Suc_eq_le intro: length_dropWhile_le)

definition public_text :: "senv \<Rightarrow> string \<Rightarrow> string" where
  "public_text e s = take 4096 (redact_urls (ie_redact e s))"

fun sanitize_public :: "senv \<Rightarrow> json \<Rightarrow> json" and sanitize_list :: "senv \<Rightarrow> json list \<Rightarrow> json list"
  and sanitize_items :: "senv \<Rightarrow> (string \<times> json) list \<Rightarrow> (string \<times> json) list" where
  "sanitize_public e (JStr s) = JStr (public_text e s)"
| "sanitize_public e (JText s) = JStr (public_text e s)"
| "sanitize_public e (JArr xs) = JArr (sanitize_list e xs)"
| "sanitize_public e (JObj d) = JObj (sanitize_items e d)"
| "sanitize_public e j = j"
| "sanitize_list e [] = []"
| "sanitize_list e (x # xs) = sanitize_public e x # sanitize_list e xs"
| "sanitize_items e [] = []"
| "sanitize_items e ((k, v) # r) = (k, sanitize_public e v) # sanitize_items e r"

text \<open>\<open>_SAFE_IDENTIFIER\<close> and \<open>_SAFE_PROVIDER_TYPE\<close>\<close>

definition ascii_alnum :: "char \<Rightarrow> bool" where
  "ascii_alnum c = (let n = (of_char c :: nat) in (48 \<le> n \<and> n \<le> 57) \<or> (65 \<le> n \<and> n \<le> 90) \<or> (97 \<le> n \<and> n \<le> 122))"

definition identifier_shape :: "string \<Rightarrow> bool" where
  "identifier_shape s =
     (s \<noteq> [] \<and> length s \<le> 255 \<and> ascii_alnum (hd s) \<and> list_all (\<lambda>c. ascii_alnum c \<or> c \<in> set ''._:-'') (tl s))"

definition provider_type_shape :: "string \<Rightarrow> bool" where
  "provider_type_shape s =
     (s \<noteq> [] \<and> length s \<le> 32
      \<and> list_all (\<lambda>c. (ascii_alnum c \<and> \<not> (65 \<le> (of_char c :: nat) \<and> (of_char c :: nat) \<le> 90)) \<or> c \<in> set ''_-'') s)"

definition safe_identifier :: "senv \<Rightarrow> json \<Rightarrow> json" where
  "safe_identifier e v =
     (case v of JNull \<Rightarrow> JNull | JArr _ \<Rightarrow> JNull | JObj _ \<Rightarrow> JNull
      | _ \<Rightarrow>
          (let s = py_strip (jtext e v) in
           if identifier_shape s
              \<and> \<not> list_ex (\<lambda>m. py_in m (py_lower s)) [''apikey'', ''api_key'', ''password'', ''passkey'', ''token'']
           then JStr s else JNull))"

section \<open>What the server keeps of a candidate\<close>

text \<open>An evaluation: \<open>as_dict()\<close>, \<open>reconstruction_hint\<close> and \<open>satisfies\<close>, \<open>JNull\<close> when absent.\<close>

record evaluation =
  ev_dict :: json
  ev_hint :: json
  ev_satisfies :: json

definition anchor_fields :: "senv \<Rightarrow> json \<Rightarrow> (string \<times> json) list" where
  "anchor_fields e satisfies =
     (case satisfies of
        JArr (JObj d # _) \<Rightarrow>
          (let etype = py_lower (py_strip (jtext e (jor (jget (JObj d) ''entity_type'') (JStr []))));
               eid = py_strip (jtext e (jor (jget (JObj d) ''entity_id'') (JStr [])))
           in if etype \<in> {''issue'', ''annual'', ''story_arc_issue''} \<and> eid \<noteq> []
              then [(''anchor_entity_type'', JStr etype), (''anchor_entity_id'', JStr (take 255 eid))] else [])
      | _ \<Rightarrow> [])"

definition candidate_reconstruction :: "senv \<Rightarrow> evaluation \<Rightarrow> json \<Rightarrow> json" where
  "candidate_reconstruction e ev public =
     (let hint = (if is_obj (ev_hint ev) then ev_hint ev else JObj []);
          raw = jget hint ''provider_item_id'';
          ptype = py_lower (jtext e (jor (jget hint ''provider_type'') (JStr [])));
          config = jget hint ''provider_config_id'';
          candidate = jget public ''candidate''; verdict = jget public ''verdict'';
          short = (\<lambda>n v dflt. JStr (take n (jtext e (jor v (JStr dflt)))))
      in JObj ([(''provider_config_id'', case config of JInt _ \<Rightarrow> config | JBool _ \<Rightarrow> config | _ \<Rightarrow> safe_identifier e config),
                (''provider_type'', JStr (if provider_type_shape ptype then ptype else ''unknown'')),
                (''provider_name'', short 255 (jget candidate ''provider'') ''Search provider''),
                (''source_kind'', short 32 (jget candidate ''source_kind'') ''unknown''),
                (''provider_item_id'', safe_identifier e raw),
                (''provider_item_digest'', JStr (ie_digest e (jtext e (jor raw (JStr []))))),
                (''match_kind'', short 32 (jget verdict ''match_kind'') ''none''),
                (''pack'', JBool (jtruthy (jget candidate ''pack'')))]
               @ (if jget hint ''search_mode'' = JStr ''unfiltered'' then [(''search_mode'', JStr ''unfiltered'')] else [])
               @ anchor_fields e (jor (ev_satisfies ev) (jget public ''satisfies''))))"

definition evaluation_reconstruction :: "senv \<Rightarrow> evaluation \<Rightarrow> json" where
  "evaluation_reconstruction e ev = candidate_reconstruction e ev (sanitize_public e (ev_dict ev))"

text \<open>At most 25 failures, mappings only.\<close>

definition bounded_failures :: "senv \<Rightarrow> json list \<Rightarrow> json" where
  "bounded_failures e fs =
     (let short = (\<lambda>n v dflt. JStr (take n (jtext e (sanitize_public e (jor v (JStr dflt)))))) in
      JArr (map (\<lambda>f. JObj [(''provider'', short 255 (jget f ''provider'') ''Search''),
                           (''code'', short 64 (jget f ''code'') ''provider_error''),
                           (''detail'', short 512 (jget f ''detail'') ''Provider search failed'')])
             (filter is_obj (take 25 fs))))"

end
