(* ===== verification/SearchSessions.thy ===== *)
theory SearchSessions
  imports SearchJson
begin

text \<open>
  \<open>comicarr/app/search/interactive_sessions.py\<close>: the browser-owned sessions of an interactive release search.  Two
  tables, one row per session and one per candidate.  A time is a number of microseconds; the ISO texts the code
  stores compare like them.  Fresh ids are arguments.  One function is one transaction, except that creating a session
  commits its purge first.
\<close>

definition SESSION_TTL_SECONDS :: int where "SESSION_TTL_SECONDS = 10 * 60"
definition MAX_CANDIDATES :: nat where "MAX_CANDIDATES = 200"
definition MAX_SESSION_BYTES :: nat where "MAX_SESSION_BYTES = 512 * 1024"
definition MAX_RECORD_BYTES :: nat where "MAX_RECORD_BYTES = 64 * 1024"
definition CLEANUP_BATCH_SIZE :: int where "CLEANUP_BATCH_SIZE = 500"
definition CLAIM_LEASE_SECONDS :: int where "CLAIM_LEASE_SECONDS = 60 * 60"
definition ENTITY_TYPES :: "string list" where
  "ENTITY_TYPES = [''issue'', ''annual'', ''story_arc_issue'', ''series'']"

definition seconds :: "int \<Rightarrow> int" where "seconds n = n * 1000000"

text \<open>\<open>ValueError\<close>, the database's \<open>IntegrityError\<close> of a unique key, then the module's own exceptions.\<close>

datatype serror = SValueError | SIntegrity | SMalformed | SAuthorization | SExpired | SLimit | SConflict

record session_row =
  se_id :: string
  se_slot :: string
  se_actor :: string
  se_browser :: string
  se_etype :: string
  se_eid :: string
  se_series :: "string option"
  se_state :: string
  se_count :: nat
  se_total :: int
  se_done :: int
  se_current :: "string option"
  se_failures :: string
  se_created :: int
  se_updated :: int
  se_expires :: int

record candidate_row =
  ca_id :: string
  ca_session :: string
  ca_ordinal :: nat
  ca_state :: string
  ca_public :: string
  ca_recon :: string
  ca_fingerprint :: string
  ca_created :: int
  ca_updated :: int
  ca_expires :: int

record sstate =
  ss_sessions :: "session_row list"
  ss_candidates :: "candidate_row list"

section \<open>Records\<close>

definition bounded_json :: "senv \<Rightarrow> json \<Rightarrow> serror + string" where
  "bounded_json e j = (if MAX_RECORD_BYTES < utf8_len (ie_dumps e j) then Inl SLimit else Inr (ie_dumps e j))"

definition decode_object :: "senv \<Rightarrow> string \<Rightarrow> serror + json" where
  "decode_object e s = (case ie_loads e s of Some (JObj d) \<Rightarrow> Inr (JObj d) | _ \<Rightarrow> Inl SMalformed)"

definition slot_digest :: "senv \<Rightarrow> string \<Rightarrow> string \<Rightarrow> string \<Rightarrow> string \<Rightarrow> string" where
  "slot_digest e actor browser etype eid =
     ie_digest e (py_join CHR 0x00 [actor, ie_digest e browser, etype, eid])"

definition evaluation_record ::
  "senv \<Rightarrow> evaluation \<Rightarrow> string \<Rightarrow> string \<Rightarrow> nat \<Rightarrow> int \<Rightarrow> int \<Rightarrow> serror + candidate_row" where
  "evaluation_record e ev sid cid ordinal expires created =
     (let public = sanitize_public e (ev_dict ev) in
      if \<not> is_obj public \<or> \<not> is_obj (jget public ''candidate'') \<or> \<not> is_obj (jget public ''verdict'') then Inl SMalformed
      else case bounded_json e public of Inl x \<Rightarrow> Inl x
      | Inr pj \<Rightarrow>
          (case bounded_json e (candidate_reconstruction e ev public) of Inl x \<Rightarrow> Inl x
           | Inr rj \<Rightarrow>
               let v = jget public ''verdict'';
                   available = (jtruthy (jget v ''accepted'') \<or> jtruthy (jget v ''overrideable''))
               in Inr \<lparr>ca_id = cid, ca_session = sid, ca_ordinal = ordinal,
                       ca_state = (if available then ''available'' else ''unavailable''), ca_public = pj, ca_recon = rj,
                       ca_fingerprint = ie_digest e (pj @ [CHR 0x00] @ rj), ca_created = created, ca_updated = created,
                       ca_expires = expires\<rparr>))"

definition record_bytes :: "candidate_row \<Rightarrow> nat" where
  "record_bytes c = utf8_len (ca_public c) + utf8_len (ca_recon c)"

fun evaluation_records ::
  "senv \<Rightarrow> evaluation list \<Rightarrow> string \<Rightarrow> (nat \<Rightarrow> string) \<Rightarrow> nat \<Rightarrow> int \<Rightarrow> int \<Rightarrow> serror + candidate_row list" where
  "evaluation_records e [] sid ids n expires created = Inr []"
| "evaluation_records e (ev # evs) sid ids n expires created =
     (case evaluation_record e ev sid (ids n) n expires created of Inl x \<Rightarrow> Inl x
      | Inr c \<Rightarrow> (case evaluation_records e evs sid ids (Suc n) expires created of
                    Inl x \<Rightarrow> Inl x | Inr cs \<Rightarrow> Inr (c # cs)))"

section \<open>Purging\<close>

definition claim_live :: "int \<Rightarrow> string \<Rightarrow> candidate_row \<Rightarrow> bool" where
  "claim_live now sid c = (ca_session c = sid \<and> ca_state c = ''submitting'' \<and> now - seconds CLAIM_LEASE_SECONDS < ca_updated c)"

definition has_live_claim :: "int \<Rightarrow> sstate \<Rightarrow> string \<Rightarrow> bool" where
  "has_live_claim now s sid = list_ex (claim_live now sid) (ss_candidates s)"

definition purgeable_ids :: "int \<Rightarrow> int \<Rightarrow> sstate \<Rightarrow> string list" where
  "purgeable_ids now batch s =
     map se_id (take (nat (max 1 (min batch CLEANUP_BATCH_SIZE)))
       (sort_key se_expires (filter (\<lambda>r. se_expires r \<le> now \<and> \<not> has_live_claim now s (se_id r)) (ss_sessions s))))"

definition purge_expired_sessions :: "int \<Rightarrow> int \<Rightarrow> sstate \<Rightarrow> (nat \<times> nat) \<times> sstate" where
  "purge_expired_sessions now batch s =
     (let ids = purgeable_ids now batch s in
      ((length (filter (\<lambda>r. se_id r \<in> set ids) (ss_sessions s)), length (filter (\<lambda>c. ca_session c \<in> set ids) (ss_candidates s))),
       s\<lparr>ss_sessions := filter (\<lambda>r. se_id r \<notin> set ids) (ss_sessions s),
         ss_candidates := filter (\<lambda>c. ca_session c \<notin> set ids) (ss_candidates s)\<rparr>))"

section \<open>Reading\<close>

definition authorized_row ::
  "senv \<Rightarrow> string option \<Rightarrow> string option \<Rightarrow> int \<Rightarrow> string \<Rightarrow> sstate \<Rightarrow> serror + session_row" where
  "authorized_row e actor browser now sid s =
     (if \<not> present actor \<or> \<not> present browser then Inl SValueError
      else case find (\<lambda>r. se_id r = sid) (ss_sessions s) of
        None \<Rightarrow> Inl SAuthorization
      | Some r \<Rightarrow>
          if se_actor r \<noteq> ie_digest e (the actor) \<or> se_browser r \<noteq> ie_digest e (the browser) then Inl SAuthorization
          else if se_expires r \<le> now then Inl SExpired
          else Inr r)"

record session_view =
  sv_session :: session_row
  sv_failures :: json
  sv_candidates :: "json list"

fun public_candidates :: "senv \<Rightarrow> candidate_row list \<Rightarrow> serror + json list" where
  "public_candidates e [] = Inr []"
| "public_candidates e (c # cs) =
     (case decode_object e (ca_public c) of Inl x \<Rightarrow> Inl x
      | Inr p \<Rightarrow>
          (case public_candidates e cs of Inl x \<Rightarrow> Inl x
           | Inr ps \<Rightarrow> Inr (jset ''state'' (JStr (ca_state c)) (jset ''candidate_id'' (JStr (ca_id c)) p) # ps)))"

text \<open>The row is shown without its owner's digests, its slot and its update time.\<close>

definition shown_row :: "session_row \<Rightarrow> session_row" where
  "shown_row r = r\<lparr>se_slot := [], se_actor := [], se_browser := [], se_failures := [], se_updated := 0\<rparr>"

definition read_session ::
  "senv \<Rightarrow> string option \<Rightarrow> string option \<Rightarrow> int \<Rightarrow> string \<Rightarrow> sstate \<Rightarrow> serror + session_view" where
  "read_session e actor browser now sid s =
     (case authorized_row e actor browser now sid s of Inl x \<Rightarrow> Inl x
      | Inr r \<Rightarrow>
          (case public_candidates e (sort_key ca_ordinal (filter (\<lambda>c. ca_session c = se_id r) (ss_candidates s))) of
             Inl x \<Rightarrow> Inl x
           | Inr ps \<Rightarrow>
               (case ie_loads e (if se_failures r = [] then ''[]'' else se_failures r) of
                  None \<Rightarrow> Inl SValueError
                | Some f \<Rightarrow> Inr \<lparr>sv_session = shown_row r, sv_failures = (case f of JArr _ \<Rightarrow> f | _ \<Rightarrow> JArr []), sv_candidates = ps\<rparr>)))"

record server_candidate =
  sc_id :: string
  sc_session :: string
  sc_state :: string
  sc_fingerprint :: string
  sc_public :: json
  sc_recon :: json
  sc_entity :: "(string \<times> string) option"

definition find_candidate :: "sstate \<Rightarrow> string \<Rightarrow> string \<Rightarrow> candidate_row option" where
  "find_candidate s sid cid = find (\<lambda>c. ca_session c = sid \<and> ca_id c = cid) (ss_candidates s)"

definition server_candidate_of :: "senv \<Rightarrow> candidate_row \<Rightarrow> json \<Rightarrow> serror + server_candidate" where
  "server_candidate_of e c recon =
     (case decode_object e (ca_public c) of Inl x \<Rightarrow> Inl x
      | Inr p \<Rightarrow> Inr \<lparr>sc_id = ca_id c, sc_session = ca_session c, sc_state = ca_state c, sc_fingerprint = ca_fingerprint c,
                      sc_public = p, sc_recon = recon, sc_entity = None\<rparr>)"

definition read_server_candidate ::
  "senv \<Rightarrow> string option \<Rightarrow> string option \<Rightarrow> int \<Rightarrow> string \<Rightarrow> string \<Rightarrow> sstate \<Rightarrow> serror + server_candidate" where
  "read_server_candidate e actor browser now sid cid s =
     (case authorized_row e actor browser now sid s of Inl x \<Rightarrow> Inl x
      | Inr r \<Rightarrow>
          (case find_candidate s (se_id r) cid of None \<Rightarrow> Inl SAuthorization
           | Some c \<Rightarrow>
               (case decode_object e (ca_public c) of Inl x \<Rightarrow> Inl x
                | Inr p \<Rightarrow> (case decode_object e (ca_recon c) of Inl x \<Rightarrow> Inl x | Inr rc \<Rightarrow> server_candidate_of e c rc))))"

section \<open>Creating\<close>

record session_request =
  sq_actor :: "string option"
  sq_browser :: "string option"
  sq_etype :: string
  sq_eid :: string
  sq_series :: "string option"
  sq_evaluations :: "evaluation list"
  sq_ttl :: int
  sq_state :: string
  sq_total :: int
  sq_failures :: "json list"

definition request_error :: "session_request \<Rightarrow> serror option" where
  "request_error q =
     (if \<not> present (sq_actor q) \<or> \<not> present (sq_browser q) then Some SValueError
      else if sq_etype q \<notin> set ENTITY_TYPES \<or> sq_eid q = [] \<or> 255 < length (sq_eid q) then Some SValueError
      else if MAX_CANDIDATES < length (sq_evaluations q) then Some SLimit
      else if sq_ttl q < 1 \<or> SESSION_TTL_SECONDS < sq_ttl q then Some SValueError
      else None)"

definition new_session :: "senv \<Rightarrow> session_request \<Rightarrow> int \<Rightarrow> string \<Rightarrow> nat \<Rightarrow> string \<Rightarrow> session_row" where
  "new_session e q now sid n failures =
     \<lparr>se_id = sid, se_slot = slot_digest e (the (sq_actor q)) (the (sq_browser q)) (sq_etype q) (sq_eid q),
      se_actor = ie_digest e (the (sq_actor q)), se_browser = ie_digest e (the (sq_browser q)), se_etype = sq_etype q,
      se_eid = sq_eid q, se_series = (if present (sq_series q) then map_option (take 255) (sq_series q) else None),
      se_state = take 32 (sq_state q), se_count = n, se_total = max 0 (sq_total q), se_done = 0, se_current = None,
      se_failures = failures, se_created = now, se_updated = now, se_expires = now + seconds (sq_ttl q)\<rparr>"

text \<open>The unique keys: session id, slot and candidate id.\<close>

definition keys_unique :: "sstate \<Rightarrow> bool" where
  "keys_unique s =
     (distinct (map se_id (ss_sessions s)) \<and> distinct (map se_slot (ss_sessions s)) \<and> distinct (map ca_id (ss_candidates s)))"

definition constrained :: "sstate \<Rightarrow> serror + sstate" where
  "constrained s = (if keys_unique s then Inr s else Inl SIntegrity)"

text \<open>The second transaction: the slot's row is inserted, or replaced with its candidates unless one of them is being
  handed off.\<close>

definition store_session :: "int \<Rightarrow> session_row \<Rightarrow> candidate_row list \<Rightarrow> sstate \<Rightarrow> serror + sstate" where
  "store_session now row records s =
     (case find (\<lambda>r. se_slot r = se_slot row) (ss_sessions s) of
        None \<Rightarrow> constrained (s\<lparr>ss_sessions := ss_sessions s @ [row], ss_candidates := ss_candidates s @ records\<rparr>)
      | Some old \<Rightarrow>
          if has_live_claim now s (se_id old) then Inl SConflict
          else constrained (s\<lparr>ss_sessions := map (\<lambda>r. if se_slot r = se_slot row then row else r) (ss_sessions s),
                              ss_candidates := filter (\<lambda>c. ca_session c \<noteq> se_id old) (ss_candidates s) @ records\<rparr>))"

definition create_session ::
  "senv \<Rightarrow> session_request \<Rightarrow> int \<Rightarrow> string \<Rightarrow> (nat \<Rightarrow> string) \<Rightarrow> sstate \<Rightarrow> (serror + session_view) \<times> sstate" where
  "create_session e q now sid ids s =
     (case request_error q of Some x \<Rightarrow> (Inl x, s)
      | None \<Rightarrow>
          (case evaluation_records e (sq_evaluations q) sid ids 0 (now + seconds (sq_ttl q)) now of Inl x \<Rightarrow> (Inl x, s)
           | Inr records \<Rightarrow>
               if MAX_SESSION_BYTES < sum_list (map record_bytes records) then (Inl SLimit, s)
               else case bounded_json e (bounded_failures e (sq_failures q)) of Inl x \<Rightarrow> (Inl x, s)
               | Inr fj \<Rightarrow>
                   (let s1 = snd (purge_expired_sessions now CLEANUP_BATCH_SIZE s) in
                    case store_session now (new_session e q now sid (length records) fj) records s1 of
                      Inl x \<Rightarrow> (Inl x, s1)
                    | Inr s2 \<Rightarrow> (read_session e (sq_actor q) (sq_browser q) now sid s2, s2))))"

definition create_pending_session ::
  "senv \<Rightarrow> session_request \<Rightarrow> int \<Rightarrow> string \<Rightarrow> (nat \<Rightarrow> string) \<Rightarrow> sstate \<Rightarrow> (serror + session_view) \<times> sstate" where
  "create_pending_session e q now sid ids s =
     create_session e (q\<lparr>sq_evaluations := [], sq_state := ''queued'', sq_ttl := SESSION_TTL_SECONDS\<rparr>) now sid ids s"

section \<open>The worker\<close>

definition update_session :: "(session_row \<Rightarrow> bool) \<Rightarrow> (session_row \<Rightarrow> session_row) \<Rightarrow> sstate \<Rightarrow> bool \<times> sstate" where
  "update_session P f s =
     (list_ex P (ss_sessions s), s\<lparr>ss_sessions := map (\<lambda>r. if P r then f r else r) (ss_sessions s)\<rparr>)"

definition update_search_progress ::
  "senv \<Rightarrow> string \<Rightarrow> string \<Rightarrow> int option \<Rightarrow> string option \<Rightarrow> json list option \<Rightarrow> int \<Rightarrow> sstate \<Rightarrow> (serror + bool) \<times> sstate" where
  "update_search_progress e sid state completed current failures now s =
     (let base = (\<lambda>r. r\<lparr>se_state := take 32 state,
            se_current := (if present current then Some (take 255 (public_text e (the current))) else None), se_updated := now,
            se_done := (case completed of None \<Rightarrow> se_done r | Some n \<Rightarrow> max 0 n)\<rparr>);
          P = (\<lambda>r. se_id r = sid \<and> now < se_expires r)
      in case failures of
           None \<Rightarrow> (case update_session P base s of (b, s') \<Rightarrow> (Inr b, s'))
         | Some fs \<Rightarrow>
             (case bounded_json e (bounded_failures e fs) of Inl x \<Rightarrow> (Inl x, s)
              | Inr fj \<Rightarrow> (case update_session P (\<lambda>r. (base r)\<lparr>se_failures := fj\<rparr>) s of (b, s') \<Rightarrow> (Inr b, s'))))"

text \<open>The candidates that fit, in order, up to the first that does not.\<close>

fun fitting_records ::
  "senv \<Rightarrow> evaluation list \<Rightarrow> string \<Rightarrow> (nat \<Rightarrow> string) \<Rightarrow> nat \<Rightarrow> nat \<Rightarrow> int \<Rightarrow> int \<Rightarrow> serror + candidate_row list" where
  "fitting_records e [] sid ids n used expires created = Inr []"
| "fitting_records e (ev # evs) sid ids n used expires created =
     (case evaluation_record e ev sid (ids n) n expires created of Inl x \<Rightarrow> Inl x
      | Inr c \<Rightarrow>
          if MAX_SESSION_BYTES < used + record_bytes c then Inr []
          else (case fitting_records e evs sid ids (Suc n) (used + record_bytes c) expires created of
                  Inl x \<Rightarrow> Inl x | Inr cs \<Rightarrow> Inr (c # cs)))"

definition truncation_note :: "nat \<Rightarrow> nat \<Rightarrow> json" where
  "truncation_note shown collected =
     JObj [(''provider'', JStr ''Search''), (''code'', JStr ''results_truncated''),
           (''detail'', JStr (''Showing '' @ py_str_int (int shown) @ '' of '' @ py_str_int (int collected)
              @ '' collected results; the session storage bound dropped the rest''))]"

definition complete_search_session ::
  "senv \<Rightarrow> string \<Rightarrow> evaluation list \<Rightarrow> int \<Rightarrow> json list \<Rightarrow> int \<Rightarrow> (nat \<Rightarrow> string) \<Rightarrow> sstate \<Rightarrow> (serror + bool) \<times> sstate" where
  "complete_search_session e sid evs completed failures now ids s =
     (case find (\<lambda>r. se_id r = sid) (ss_sessions s) of
        None \<Rightarrow> (Inr False, s)
      | Some r \<Rightarrow>
          if se_state r \<notin> {''queued'', ''running''} \<or> se_expires r \<le> now then (Inr False, s)
          else case fitting_records e (take MAX_CANDIDATES evs) sid ids 0 0 (se_expires r) now of Inl x \<Rightarrow> (Inl x, s)
          | Inr records \<Rightarrow>
              (let fs = (if length records < length evs then truncation_note (length records) (length evs) # failures else failures)
               in case bounded_json e (bounded_failures e fs) of Inl x \<Rightarrow> (Inl x, s)
                  | Inr fj \<Rightarrow>
                      (case update_session (\<lambda>q. se_id q = sid \<and> se_state q \<in> {''queued'', ''running''})
                              (\<lambda>q. q\<lparr>se_state := ''complete'', se_count := length records, se_done := max 0 completed,
                                    se_current := None, se_failures := fj, se_updated := now\<rparr>) s of
                         (b, s') \<Rightarrow>
                           (case constrained (s'\<lparr>ss_candidates := filter (\<lambda>c. ca_session c \<noteq> sid) (ss_candidates s') @ records\<rparr>) of
                              Inl x \<Rightarrow> (Inl x, s) | Inr s2 \<Rightarrow> (Inr True, s2)))))"

section \<open>Claims\<close>

record claim_answer =
  cl_claimed :: bool
  cl_state :: string
  cl_outcome :: json
  cl_candidate :: server_candidate

definition update_candidate :: "(candidate_row \<Rightarrow> bool) \<Rightarrow> (candidate_row \<Rightarrow> candidate_row) \<Rightarrow> sstate \<Rightarrow> bool \<times> sstate" where
  "update_candidate P f s =
     (list_ex P (ss_candidates s), s\<lparr>ss_candidates := map (\<lambda>c. if P c then f c else c) (ss_candidates s)\<rparr>)"

definition FINAL_STATES :: "string list" where
  "FINAL_STATES = [''submitted'', ''failed'', ''manual_review'']"

definition with_entity :: "session_row \<Rightarrow> server_candidate \<Rightarrow> server_candidate" where
  "with_entity r c = c\<lparr>sc_entity := Some (se_etype r, se_eid r)\<rparr>"

text \<open>A finished candidate answers its stored outcome; a claim that is won is committed before the answer is built.\<close>

definition claim_row :: "senv \<Rightarrow> session_row \<Rightarrow> candidate_row \<Rightarrow> json \<Rightarrow> int \<Rightarrow> sstate \<Rightarrow> (serror + claim_answer) \<times> sstate" where
  "claim_row e r c recon now s =
     (if ca_state c \<in> set FINAL_STATES then
        (case server_candidate_of e c recon of Inl x \<Rightarrow> (Inl x, s)
         | Inr sc \<Rightarrow> (Inr \<lparr>cl_claimed = False, cl_state = ca_state c, cl_outcome = jget recon ''selection_outcome'',
                         cl_candidate = with_entity r sc\<rparr>, s))
      else if ca_state c \<noteq> ''available'' then (Inl SConflict, s)
      else
        (let (b, s') = update_candidate
               (\<lambda>d. ca_id d = ca_id c \<and> ca_session d = se_id r \<and> ca_state d = ''available'' \<and> now < ca_expires d)
               (\<lambda>d. d\<lparr>ca_state := ''submitting'', ca_updated := now\<rparr>) s
         in if \<not> b then (Inl SConflict, s)
            else (case server_candidate_of e c recon of Inl x \<Rightarrow> (Inl x, s')
                  | Inr sc \<Rightarrow> (Inr \<lparr>cl_claimed = True, cl_state = ''submitting'', cl_outcome = JNull,
                                  cl_candidate = with_entity r (sc\<lparr>sc_state := ''submitting''\<rparr>)\<rparr>, s'))))"

definition claim_server_candidate ::
  "senv \<Rightarrow> string option \<Rightarrow> string option \<Rightarrow> int \<Rightarrow> string \<Rightarrow> string \<Rightarrow> sstate \<Rightarrow> (serror + claim_answer) \<times> sstate" where
  "claim_server_candidate e actor browser now sid cid s =
     (case authorized_row e actor browser now sid s of Inl x \<Rightarrow> (Inl x, s)
      | Inr r \<Rightarrow>
          (case find_candidate s (se_id r) cid of None \<Rightarrow> (Inl SAuthorization, s)
           | Some c \<Rightarrow> (case decode_object e (ca_recon c) of Inl x \<Rightarrow> (Inl x, s) | Inr recon \<Rightarrow> claim_row e r c recon now s)))"

definition claimed_by :: "server_candidate \<Rightarrow> candidate_row \<Rightarrow> bool" where
  "claimed_by sc c =
     (ca_id c = sc_id sc \<and> ca_session c = sc_session sc \<and> ca_fingerprint c = sc_fingerprint sc \<and> ca_state c = ''submitting'')"

definition finish_candidate_claim ::
  "senv \<Rightarrow> server_candidate \<Rightarrow> string \<Rightarrow> json \<Rightarrow> int \<Rightarrow> sstate \<Rightarrow> (serror + json) \<times> sstate" where
  "finish_candidate_claim e sc state out now s =
     (if state \<notin> set FINAL_STATES then (Inl SValueError, s)
      else
        let shown = sanitize_public e out in
        case bounded_json e (jset ''selection_outcome'' shown (sc_recon sc)) of Inl x \<Rightarrow> (Inl x, s)
        | Inr rj \<Rightarrow>
            (case update_candidate (claimed_by sc) (\<lambda>c. c\<lparr>ca_state := state, ca_recon := rj, ca_updated := now\<rparr>) s of
               (b, s') \<Rightarrow> if b then (Inr shown, s') else (Inl SConflict, s)))"

definition drop_outcome :: "json \<Rightarrow> json" where
  "drop_outcome j = (case j of JObj d \<Rightarrow> JObj (filter (\<lambda>kv. fst kv \<noteq> ''selection_outcome'') d) | _ \<Rightarrow> j)"

definition release_candidate_claim :: "senv \<Rightarrow> server_candidate \<Rightarrow> int \<Rightarrow> sstate \<Rightarrow> (serror + bool) \<times> sstate" where
  "release_candidate_claim e sc now s =
     (case bounded_json e (drop_outcome (sc_recon sc)) of Inl x \<Rightarrow> (Inl x, s)
      | Inr rj \<Rightarrow>
          (case update_candidate (claimed_by sc) (\<lambda>c. c\<lparr>ca_state := ''available'', ca_recon := rj, ca_updated := now\<rparr>) s of
             (b, s') \<Rightarrow> (Inr b, s')))"

section \<open>Histories\<close>

datatype sop = SCreate session_request int string "nat \<Rightarrow> string" | SPending session_request int string "nat \<Rightarrow> string"
  | SProgress string string "int option" "string option" "json list option" int
  | SComplete string "evaluation list" int "json list" int "nat \<Rightarrow> string"
  | SClaim "string option" "string option" int string string
  | SFinish server_candidate string json int | SRelease server_candidate int | SPurge int int

definition sstep :: "senv \<Rightarrow> sstate \<Rightarrow> sop \<Rightarrow> sstate" where
  "sstep e s op =
     (case op of
        SCreate q now sid ids \<Rightarrow> snd (create_session e q now sid ids s)
      | SPending q now sid ids \<Rightarrow> snd (create_pending_session e q now sid ids s)
      | SProgress sid st n cur fs now \<Rightarrow> snd (update_search_progress e sid st n cur fs now s)
      | SComplete sid evs n fs now ids \<Rightarrow> snd (complete_search_session e sid evs n fs now ids s)
      | SClaim actor browser now sid cid \<Rightarrow> snd (claim_server_candidate e actor browser now sid cid s)
      | SFinish sc st out now \<Rightarrow> snd (finish_candidate_claim e sc st out now s)
      | SRelease sc now \<Rightarrow> snd (release_candidate_claim e sc now s)
      | SPurge now batch \<Rightarrow> snd (purge_expired_sessions now batch s))"

definition srun :: "senv \<Rightarrow> sop list \<Rightarrow> sstate \<Rightarrow> sstate" where
  "srun e ops s = fold (\<lambda>op t. sstep e t op) ops s"

end
