(* ===== verification/SearchSessionsProps.thy ===== *)
theory SearchSessionsProps
  imports SearchSessions
begin

text \<open>
  The properties of interactive search sessions: the tables stay consistent and bounded over every history, a candidate
  is handed off by one claim, a claim in progress is protected, a browser is shown public data only, and a retry of a
  finished handoff gets the stored answer.
\<close>

section \<open>Records that are stored\<close>

lemma evaluation_record_session: "evaluation_record e ev sid cid n ex cr = Inr c \<Longrightarrow> ca_session c = sid \<and> ca_id c = cid"
  by (auto simp: evaluation_record_def Let_def split: if_splits sum.splits)

lemma evaluation_records_shape:
  "evaluation_records e evs sid ids n ex cr = Inr cs \<Longrightarrow> length cs = length evs \<and> (\<forall>c \<in> set cs. ca_session c = sid)"
  by (induction evs arbitrary: n cs) (auto simp: evaluation_record_session split: sum.splits)

lemma fitting_records_shape:
  "fitting_records e evs sid ids n b ex cr = Inr cs \<Longrightarrow> length cs \<le> length evs \<and> (\<forall>c \<in> set cs. ca_session c = sid)"
proof (induction evs arbitrary: n b cs)
  case (Cons ev evs)
  obtain c where c: "evaluation_record e ev sid (ids n) n ex cr = Inr c" using Cons.prems by (auto split: sum.splits)
  show ?case
  proof (cases "MAX_SESSION_BYTES < b + record_bytes c")
    case False
    then obtain cs' where cs': "fitting_records e evs sid ids (Suc n) (b + record_bytes c) ex cr = Inr cs'" "cs = c # cs'"
      using Cons.prems c by (auto split: sum.splits)
    from Cons.IH [OF cs'(1)] evaluation_record_session [OF c] cs'(2) show ?thesis by auto
  qed (use Cons.prems c in auto)
qed simp

section \<open>The tables stay consistent\<close>

definition own_candidates :: "sstate \<Rightarrow> string \<Rightarrow> candidate_row list" where
  "own_candidates s sid = filter (\<lambda>c. ca_session c = sid) (ss_candidates s)"

definition session_ok :: "sstate \<Rightarrow> bool" where
  "session_ok s \<longleftrightarrow> keys_unique s \<and> (\<forall>c \<in> set (ss_candidates s). ca_session c \<in> se_id ` set (ss_sessions s))
     \<and> (\<forall>r \<in> set (ss_sessions s). se_count r = length (own_candidates s (se_id r)) \<and> se_count r \<le> MAX_CANDIDATES)"

definition empty_sessions :: sstate where
  "empty_sessions = \<lparr>ss_sessions = [], ss_candidates = []\<rparr>"

lemma session_ok_empty: "session_ok empty_sessions"
  by (simp add: session_ok_def empty_sessions_def keys_unique_def)

lemma distinct_filter_map: "distinct (map f xs) \<Longrightarrow> distinct (map f (filter P xs))"
  by (induction xs) auto

text \<open>Dropping whole sessions.\<close>

lemma own_drop: "i \<notin> A \<Longrightarrow> filter (\<lambda>c. ca_session c = i) (filter (\<lambda>c. ca_session c \<notin> A) cs) = filter (\<lambda>c. ca_session c = i) cs"
  by (induction cs) auto

lemma session_ok_drop:
  assumes "session_ok s"
  shows "session_ok (s\<lparr>ss_sessions := filter (\<lambda>r. se_id r \<notin> A) (ss_sessions s), ss_candidates := filter (\<lambda>c. ca_session c \<notin> A) (ss_candidates s)\<rparr>)"
    (is "session_ok ?t")
proof -
  have "own_candidates ?t i = own_candidates s i" if "i \<notin> A" for i using own_drop [OF that] by (simp add: own_candidates_def del: filter_filter)
  then show ?thesis using assms by (auto simp: session_ok_def keys_unique_def distinct_filter_map)
qed

text \<open>Rewriting rows in place.\<close>

lemma map_keeps: "(\<And>x. g (f x) = g x) \<Longrightarrow> map g (map f xs) = map g xs"
  by simp

lemma own_map:
  "(\<And>c. ca_session (f c) = ca_session c) \<Longrightarrow> length (filter (\<lambda>c. ca_session c = i) (map f cs)) = length (filter (\<lambda>c. ca_session c = i) cs)"
  by (induction cs) auto

lemma session_ok_candidates:
  assumes "session_ok s" and "\<And>c. ca_session (f c) = ca_session c" and "\<And>c. ca_id (f c) = ca_id c"
  shows "session_ok (s\<lparr>ss_candidates := map f (ss_candidates s)\<rparr>)"
  using assms by (auto simp: session_ok_def keys_unique_def own_candidates_def own_map comp_def)

lemma session_ok_sessions:
  assumes "session_ok s" and "\<And>r. se_id (f r) = se_id r" and "\<And>r. se_slot (f r) = se_slot r" and "\<And>r. se_count (f r) = se_count r"
  shows "session_ok (s\<lparr>ss_sessions := map f (ss_sessions s)\<rparr>)"
  using assms by (auto simp: session_ok_def keys_unique_def own_candidates_def comp_def image_image)

lemma update_candidate_ok:
  assumes "session_ok s" and "\<And>c. ca_session (f c) = ca_session c" and "\<And>c. ca_id (f c) = ca_id c"
  shows "session_ok (snd (update_candidate P f s))"
  unfolding update_candidate_def snd_conv by (rule session_ok_candidates [OF assms(1)]) (simp_all add: assms(2,3))

lemma same_key: "distinct (map f xs) \<Longrightarrow> x \<in> set xs \<Longrightarrow> y \<in> set xs \<Longrightarrow> f x = f y \<Longrightarrow> x = y"
  by (simp add: distinct_map inj_on_def)

lemma own_new:
  assumes "\<forall>c \<in> set cs. ca_session c = sid"
  shows "filter (\<lambda>c. ca_session c = i) (xs @ cs) = filter (\<lambda>c. ca_session c = i) xs @ (if i = sid then cs else [])"
  using assms by (auto simp: filter_empty_conv intro: filter_True)

lemma constrained_Inr: "constrained s = Inr t \<Longrightarrow> t = s \<and> keys_unique s"
  by (auto simp: constrained_def split: if_splits)

lemma own_none: "session_ok s \<Longrightarrow> i \<notin> se_id ` set (ss_sessions s) \<Longrightarrow> own_candidates s i = []"
  by (auto simp: session_ok_def own_candidates_def filter_empty_conv)

lemma store_session_ok:
  assumes "session_ok s" and "store_session now row cs s = Inr t"
    and "\<forall>c \<in> set cs. ca_session c = se_id row" and "se_count row = length cs" and "length cs \<le> MAX_CANDIDATES"
  shows "session_ok t"
proof (cases "find (\<lambda>r. se_slot r = se_slot row) (ss_sessions s)")
  case None
  then have t: "t = s\<lparr>ss_sessions := ss_sessions s @ [row], ss_candidates := ss_candidates s @ cs\<rparr>" and k: "keys_unique t"
    using assms(2) by (auto simp: store_session_def dest!: constrained_Inr)
  then have new: "se_id row \<notin> se_id ` set (ss_sessions s)" by (simp add: keys_unique_def)
  then have diff: "r \<in> set (ss_sessions s) \<Longrightarrow> se_id r \<noteq> se_id row" for r by (metis image_eqI)
  from own_none [OF assms(1) new] have "own_candidates s (se_id row) = []" .
  moreover have "own_candidates t i = own_candidates s i @ (if i = se_id row then cs else [])" for i
    using t own_new [OF assms(3)] by (simp add: own_candidates_def del: filter_append)
  ultimately show ?thesis using assms(1,3-5) t k diff by (auto simp: session_ok_def)
next
  case (Some old)
  then have old: "old \<in> set (ss_sessions s)" "se_slot old = se_slot row" by (auto simp: find_Some_iff)
  let ?m = "map (\<lambda>r. if se_slot r = se_slot row then row else r) (ss_sessions s)"
  have t: "t = s\<lparr>ss_sessions := ?m, ss_candidates := filter (\<lambda>c. ca_session c \<noteq> se_id old) (ss_candidates s) @ cs\<rparr>"
    and k: "keys_unique t"
    using assms(2) Some by (auto simp: store_session_def split: if_splits dest!: constrained_Inr)
  have uniq: "distinct (map se_slot (ss_sessions s))" "distinct (map se_id (ss_sessions s))"
    using assms(1) by (simp_all add: session_ok_def keys_unique_def)
  have slot: "r = old" if "r \<in> set (ss_sessions s)" "se_slot r = se_slot row" for r
    using same_key [OF uniq(1) that(1) old(1)] that(2) old(2) by simp
  have "?m = map (\<lambda>r. if r = old then row else r) (ss_sessions s)" using slot old(2) by (intro map_cong refl) metis
  then have sess: "set ?m = insert row (set (ss_sessions s) - {old})" using old(1) by force
  have ids: "se_id r \<noteq> se_id row" if "r \<in> set (ss_sessions s)" "r \<noteq> old" for r
  proof
    assume e: "se_id r = se_id row"
    have "distinct (map se_id ?m)" using k t by (simp add: keys_unique_def)
    then have "r = row" using same_key [of se_id ?m r row] sess that e by blast
    then show False using slot [OF that(1)] that(2) by simp
  qed
  have own: "own_candidates t i = (if i = se_id old then [] else own_candidates s i) @ (if i = se_id row then cs else [])" for i
  proof -
    have two: "filter (\<lambda>c. ca_session c = i) (filter (\<lambda>c. ca_session c \<noteq> se_id old) xs)
        = (if i = se_id old then [] else filter (\<lambda>c. ca_session c = i) xs)" for xs by (induction xs) auto
    show ?thesis unfolding t own_candidates_def by (simp add: two own_new [OF assms(3)] del: filter_append filter_filter)
  qed
  have fresh: "own_candidates s (se_id row) = []" if "se_id row \<noteq> se_id old"
  proof -
    have "se_id row \<notin> se_id ` set (ss_sessions s)" using ids that by (metis image_iff)
    from own_none [OF assms(1) this] show ?thesis .
  qed
  have counts: "se_count r = length (own_candidates t (se_id r)) \<and> se_count r \<le> MAX_CANDIDATES" if "r \<in> set ?m" for r
  proof (cases "r = row")
    case True
    then show ?thesis using own fresh assms(4,5) by simp
  next
    case False
    then have r: "r \<in> set (ss_sessions s)" "r \<noteq> old" using that sess by auto
    have "se_id r \<noteq> se_id old" using same_key [OF uniq(2) r(1) old(1)] r(2) by blast
    moreover have "se_count r = length (own_candidates s (se_id r))" "se_count r \<le> MAX_CANDIDATES"
      using assms(1) r(1) unfolding session_ok_def by blast+
    ultimately show ?thesis using own ids [OF r] by simp
  qed
  have "ca_session c \<in> se_id ` set ?m" if "c \<in> set (ss_candidates t)" for c
  proof -
    have "ca_session c = se_id row \<or> (c \<in> set (ss_candidates s) \<and> ca_session c \<noteq> se_id old)"
      using that t assms(3) by auto
    then show ?thesis using assms(1) sess by (auto simp: session_ok_def)
  qed
  moreover have "ss_sessions t = ?m" using t by simp
  ultimately show ?thesis unfolding session_ok_def using k counts by (metis (no_types, lifting))
qed

lemma purge_ok: "session_ok s \<Longrightarrow> session_ok (snd (purge_expired_sessions now batch s))"
  using session_ok_drop [of s "set (purgeable_ids now batch s)"] by (simp add: purge_expired_sessions_def Let_def)

lemma request_bounded: "request_error q = None \<Longrightarrow> length (sq_evaluations q) \<le> MAX_CANDIDATES"
  by (auto simp: request_error_def split: if_splits)

lemma create_cases:
  obtains (same) "snd (create_session e q now sid ids s) \<in> {s, snd (purge_expired_sessions now CLEANUP_BATCH_SIZE s)}"
    | (new) cs fj t where "request_error q = None" "evaluation_records e (sq_evaluations q) sid ids 0 (now + seconds (sq_ttl q)) now = Inr cs"
        "store_session now (new_session e q now sid (length cs) fj) cs (snd (purge_expired_sessions now CLEANUP_BATCH_SIZE s)) = Inr t"
        "snd (create_session e q now sid ids s) = t"
proof (cases "request_error q")
  case None
  show ?thesis
  proof (cases "evaluation_records e (sq_evaluations q) sid ids 0 (now + seconds (sq_ttl q)) now")
    case (Inl x)
    then show ?thesis using same None by (simp add: create_session_def)
  next
    case (Inr cs)
    show ?thesis
    proof (cases "MAX_SESSION_BYTES < sum_list (map record_bytes cs)")
      case True
      then show ?thesis using same None Inr by (simp add: create_session_def)
    next
      case False
      show ?thesis
      proof (cases "bounded_json e (bounded_failures e (sq_failures q))")
        case (Inl x)
        then show ?thesis using same None Inr False by (simp add: create_session_def)
      next
        case fj: (Inr fj)
        show ?thesis
        proof (cases "store_session now (new_session e q now sid (length cs) fj) cs (snd (purge_expired_sessions now CLEANUP_BATCH_SIZE s))")
          case (Inl x)
          then show ?thesis using same None Inr False fj by (simp add: create_session_def Let_def)
        next
          case (Inr t)
          show ?thesis by (rule new [OF None \<open>_ = Inr cs\<close> Inr]) (use None Inr False fj \<open>_ = Inr cs\<close> in \<open>simp add: create_session_def Let_def\<close>)
        qed
      qed
    qed
  qed
qed (use same in \<open>simp add: create_session_def\<close>)

lemma create_ok:
  assumes "session_ok s"
  shows "session_ok (snd (create_session e q now sid ids s))"
proof -
  let ?s1 = "snd (purge_expired_sessions now CLEANUP_BATCH_SIZE s)"
  have s1: "session_ok ?s1" using purge_ok [OF assms] .
  show ?thesis
  proof (rule create_cases [of e q now sid ids s], goal_cases)
    case 1
    then show ?thesis using assms s1 by auto
  next
    case new: (2 cs fj t)
    note shape = evaluation_records_shape [OF new(2)]
    show ?thesis unfolding new(4)
      by (rule store_session_ok [OF s1 new(3)]) (use shape request_bounded [OF new(1)] in \<open>simp_all add: new_session_def\<close>)
  qed
qed

lemma update_session_ok:
  assumes "session_ok s" and "\<And>r. se_id (f r) = se_id r" and "\<And>r. se_slot (f r) = se_slot r" and "\<And>r. se_count (f r) = se_count r"
  shows "session_ok (snd (update_session P f s))"
  unfolding update_session_def snd_conv by (rule session_ok_sessions [OF assms(1)]) (simp_all add: assms(2-4))

lemma progress_ok: "session_ok s \<Longrightarrow> session_ok (snd (update_search_progress e sid st n cur fs now s))"
proof -
  assume s: "session_ok s"
  have "session_ok t" if "update_session P f s = (b, t)" "\<And>r. se_id (f r) = se_id r" "\<And>r. se_slot (f r) = se_slot r" "\<And>r. se_count (f r) = se_count r"
    for P f b t using update_session_ok [OF s that(2-4), of P] that(1) by simp
  then show ?thesis
    by (auto simp: update_search_progress_def Let_def s split: option.splits sum.splits prod.splits)
qed

lemma complete_cases:
  obtains (same) "snd (complete_search_session e sid evs n fs now ids s) = s"
    | (new) r cs fj t where "find (\<lambda>r. se_id r = sid) (ss_sessions s) = Some r" "se_state r \<in> {''queued'', ''running''}" "now < se_expires r"
        "fitting_records e (take MAX_CANDIDATES evs) sid ids 0 0 (se_expires r) now = Inr cs"
        "t = (snd (update_session (\<lambda>q. se_id q = sid \<and> se_state q \<in> {''queued'', ''running''})
                (\<lambda>q. q\<lparr>se_state := ''complete'', se_count := length cs, se_done := max 0 n, se_current := None,
                      se_failures := fj, se_updated := now\<rparr>) s))
              \<lparr>ss_candidates := filter (\<lambda>c. ca_session c \<noteq> sid) (ss_candidates s) @ cs\<rparr>"
        "keys_unique t" "snd (complete_search_session e sid evs n fs now ids s) = t"
proof (cases "find (\<lambda>r. se_id r = sid) (ss_sessions s)")
  case None
  then show ?thesis using same by (simp add: complete_search_session_def)
next
  case r: (Some r)
  show ?thesis
  proof (cases "se_state r \<notin> {''queued'', ''running''} \<or> se_expires r \<le> now")
    case True
    then show ?thesis using same r by (simp add: complete_search_session_def)
  next
    case open_row: False
    show ?thesis
    proof (cases "fitting_records e (take MAX_CANDIDATES evs) sid ids 0 0 (se_expires r) now")
      case (Inl x)
      then show ?thesis using same r open_row by (auto simp: complete_search_session_def)
    next
      case cs: (Inr cs)
      let ?fs = "if length cs < length evs then truncation_note (length cs) (length evs) # fs else fs"
      let ?f = "\<lambda>fj q. q\<lparr>se_state := ''complete'', se_count := length cs, se_done := max 0 n, se_current := None,
        se_failures := fj, se_updated := now\<rparr>"
      let ?t = "\<lambda>fj. (snd (update_session (\<lambda>q. se_id q = sid \<and> se_state q \<in> {''queued'', ''running''}) (?f fj) s))
        \<lparr>ss_candidates := filter (\<lambda>c. ca_session c \<noteq> sid) (ss_candidates s) @ cs\<rparr>"
      show ?thesis
      proof (cases "bounded_json e (bounded_failures e ?fs)")
        case (Inl x)
        then show ?thesis using same r open_row cs by (auto simp: complete_search_session_def Let_def)
      next
        case fj: (Inr fj)
        have cm: "complete_search_session e sid evs n fs now ids s
            = (case constrained (?t fj) of Inl x \<Rightarrow> (Inl x, s) | Inr s2 \<Rightarrow> (Inr True, s2))"
          using r open_row cs fj by (simp add: complete_search_session_def Let_def update_session_def)
        show ?thesis
        proof (cases "keys_unique (?t fj)")
          case True
          show ?thesis by (rule new [OF r _ _ cs refl True]) (use open_row cm True in \<open>auto simp: constrained_def\<close>)
        qed (use same cm in \<open>simp add: constrained_def\<close>)
      qed
    qed
  qed
qed

lemma complete_ok:
  assumes "session_ok s"
  shows "session_ok (snd (complete_search_session e sid evs n fs now ids s))"
proof (rule complete_cases [of e sid evs n fs now ids s], goal_cases)
  case new: (2 r cs fj t)
  note shape = fitting_records_shape [OF new(4)]
  have "length cs \<le> MAX_CANDIDATES" using shape by simp
  have uniq: "distinct (map se_id (ss_sessions s))" using assms by (simp add: session_ok_def keys_unique_def)
  have r: "r \<in> set (ss_sessions s)" "se_id r = sid" using new(1) by (auto simp: find_Some_iff)
  have the_row: "q = r" if "q \<in> set (ss_sessions s)" "se_id q = sid" for q using same_key [OF uniq that(1) r(1)] that(2) r(2) by simp
  have own: "own_candidates t i = (if i = sid then cs else own_candidates s i)" for i
  proof -
    have two: "filter (\<lambda>c. ca_session c = i) (filter (\<lambda>c. ca_session c \<noteq> sid) xs)
        = (if i = sid then [] else filter (\<lambda>c. ca_session c = i) xs)" for xs by (induction xs) auto
    have sh: "\<forall>c \<in> set cs. ca_session c = sid" using shape by blast
    show ?thesis unfolding new(5) own_candidates_def by (simp add: two own_new [OF sh] del: filter_append filter_filter)
  qed
  have "map se_id (ss_sessions t) = map se_id (ss_sessions s)" unfolding new(5) by (simp add: update_session_def)
  then have ids: "se_id ` set (ss_sessions t) = se_id ` set (ss_sessions s)" by (metis set_map)
  have "se_count q = length (own_candidates t (se_id q)) \<and> se_count q \<le> MAX_CANDIDATES" if q: "q \<in> set (ss_sessions t)" for q
  proof -
    obtain q0 where q0: "q0 \<in> set (ss_sessions s)" and qe: "q = (if se_id q0 = sid \<and> se_state q0 \<in> {''queued'', ''running''}
        then q0\<lparr>se_state := ''complete'', se_count := length cs, se_done := max 0 n, se_current := None, se_failures := fj, se_updated := now\<rparr>
        else q0)" using q unfolding new(5) by (auto simp: update_session_def)
    show ?thesis
    proof (cases "se_id q0 = sid")
      case True
      then have "q0 = r" using the_row q0 by blast
      then show ?thesis using qe new(2) r own \<open>length cs \<le> MAX_CANDIDATES\<close> by auto
    next
      case False
      then have "q = q0" using qe by simp
      moreover have "se_count q0 = length (own_candidates s (se_id q0))" "se_count q0 \<le> MAX_CANDIDATES"
        using assms q0 unfolding session_ok_def by blast+
      ultimately show ?thesis using own False by simp
    qed
  qed
  moreover have "ca_session c \<in> se_id ` set (ss_sessions t)" if "c \<in> set (ss_candidates t)" for c
  proof -
    have "ss_candidates t = filter (\<lambda>c. ca_session c \<noteq> sid) (ss_candidates s) @ cs" unfolding new(5) by simp
    then have "c \<in> set (ss_candidates s) \<or> ca_session c = sid" using that shape by auto
    moreover have "sid \<in> se_id ` set (ss_sessions s)" using r by blast
    moreover have "\<forall>c \<in> set (ss_candidates s). ca_session c \<in> se_id ` set (ss_sessions s)" using assms unfolding session_ok_def by blast
    ultimately show ?thesis unfolding ids by blast
  qed
  ultimately show ?case using new(6,7) unfolding session_ok_def by blast
qed (use assms in simp)

lemma claim_row_state:
  "snd (claim_row e r c recon now s) \<in> {s, snd (update_candidate
     (\<lambda>d. ca_id d = ca_id c \<and> ca_session d = se_id r \<and> ca_state d = ''available'' \<and> now < ca_expires d)
     (\<lambda>d. d\<lparr>ca_state := ''submitting'', ca_updated := now\<rparr>) s)}"
  by (auto simp: claim_row_def split: sum.splits prod.splits)

abbreviation submit_row :: "session_row \<Rightarrow> candidate_row \<Rightarrow> int \<Rightarrow> sstate \<Rightarrow> bool \<times> sstate" where
  "submit_row r c now s \<equiv> update_candidate
     (\<lambda>d. ca_id d = ca_id c \<and> ca_session d = se_id r \<and> ca_state d = ''available'' \<and> now < ca_expires d)
     (\<lambda>d. d\<lparr>ca_state := ''submitting'', ca_updated := now\<rparr>) s"

lemma claim_cases:
  obtains (same) "snd (claim_server_candidate e actor browser now sid cid s) = s"
      "\<forall>a. fst (claim_server_candidate e actor browser now sid cid s) = Inr a \<longrightarrow> \<not> cl_claimed a"
    | (won) r c where "authorized_row e actor browser now sid s = Inr r" "find_candidate s sid cid = Some c" "ca_state c = ''available''"
        "fst (submit_row r c now s)" "snd (claim_server_candidate e actor browser now sid cid s) = snd (submit_row r c now s)"
proof (cases "authorized_row e actor browser now sid s")
  case (Inl x)
  then show ?thesis using same by (simp add: claim_server_candidate_def)
next
  case r: (Inr r)
  then have rid: "se_id r = sid"
    by (auto simp: authorized_row_def find_Some_iff split: if_splits option.splits)
  show ?thesis
  proof (cases "find_candidate s sid cid")
    case None
    then show ?thesis using same r rid by (simp add: claim_server_candidate_def)
  next
    case c: (Some c)
    show ?thesis
    proof (cases "decode_object e (ca_recon c)")
      case (Inl x)
      then show ?thesis using same r rid c by (simp add: claim_server_candidate_def)
    next
      case d: (Inr recon)
      have cl: "claim_server_candidate e actor browser now sid cid s = claim_row e r c recon now s"
        using r rid c d by (simp add: claim_server_candidate_def)
      show ?thesis
      proof (cases "ca_state c = ''available'' \<and> fst (submit_row r c now s)")
        case True
        then have "snd (claim_row e r c recon now s) = snd (submit_row r c now s)"
          by (auto simp: claim_row_def FINAL_STATES_def split: prod.splits sum.splits)
        then show ?thesis using won [OF r c] True cl by simp
      next
        case False
        then have "snd (claim_row e r c recon now s) = s \<and> (\<forall>a. fst (claim_row e r c recon now s) = Inr a \<longrightarrow> \<not> cl_claimed a)"
          by (auto simp: claim_row_def FINAL_STATES_def split: prod.splits sum.splits)
        then show ?thesis using same cl by simp
      qed
    qed
  qed
qed

lemma finish_state:
  "\<exists>st rj. st \<in> set FINAL_STATES \<and> snd (finish_candidate_claim e sc state out now s)
     \<in> {s, snd (update_candidate (claimed_by sc) (\<lambda>c. c\<lparr>ca_state := st, ca_recon := rj, ca_updated := now\<rparr>) s)}"
proof (cases "state \<in> set FINAL_STATES")
  case True
  show ?thesis
  proof (cases "bounded_json e (jset ''selection_outcome'' (sanitize_public e out) (sc_recon sc))")
    case (Inr rj)
    then show ?thesis using True by (intro exI [of _ state] exI [of _ rj]) (simp add: finish_candidate_claim_def Let_def split: prod.splits)
  qed (use True in \<open>auto simp: finish_candidate_claim_def\<close>)
next
  case False
  then show ?thesis by (intro exI [of _ "''failed''"]) (simp add: finish_candidate_claim_def FINAL_STATES_def)
qed

lemma release_state:
  "\<exists>rj. snd (release_candidate_claim e sc now s)
     \<in> {s, snd (update_candidate (claimed_by sc) (\<lambda>c. c\<lparr>ca_state := ''available'', ca_recon := rj, ca_updated := now\<rparr>) s)}"
proof (cases "bounded_json e (drop_outcome (sc_recon sc))")
  case (Inr rj)
  then show ?thesis by (intro exI [of _ rj]) (simp add: release_candidate_claim_def split: prod.splits)
qed (simp add: release_candidate_claim_def)

lemma sstep_ok: "session_ok s \<Longrightarrow> session_ok (sstep e s op)"
proof (cases op)
  case (SClaim actor browser now sid cid)
  assume s: "session_ok s"
  show ?thesis
    by (rule claim_cases [of e actor browser now sid cid s]) (use s SClaim update_candidate_ok in \<open>simp_all add: sstep_def\<close>)
next
  case (SFinish sc st out now)
  assume s: "session_ok s"
  obtain st' rj where "snd (finish_candidate_claim e sc st out now s)
      \<in> {s, snd (update_candidate (claimed_by sc) (\<lambda>c. c\<lparr>ca_state := st', ca_recon := rj, ca_updated := now\<rparr>) s)}"
    using finish_state by blast
  moreover have "session_ok (snd (update_candidate (claimed_by sc) (\<lambda>c. c\<lparr>ca_state := st', ca_recon := rj, ca_updated := now\<rparr>) s))"
    by (rule update_candidate_ok [OF s]) simp_all
  ultimately show ?thesis using s SFinish by (auto simp: sstep_def)
next
  case (SRelease sc now)
  assume s: "session_ok s"
  obtain rj where "snd (release_candidate_claim e sc now s)
      \<in> {s, snd (update_candidate (claimed_by sc) (\<lambda>c. c\<lparr>ca_state := ''available'', ca_recon := rj, ca_updated := now\<rparr>) s)}"
    using release_state by blast
  moreover have "session_ok (snd (update_candidate (claimed_by sc) (\<lambda>c. c\<lparr>ca_state := ''available'', ca_recon := rj, ca_updated := now\<rparr>) s))"
    by (rule update_candidate_ok [OF s]) simp_all
  ultimately show ?thesis using s SRelease by (auto simp: sstep_def)
qed (simp_all add: sstep_def create_ok create_pending_session_def progress_ok complete_ok purge_ok)

text \<open>C38: The tables of interactive search stay consistent over every history of searches, progress reports, claims,
  outcomes and purges: session ids, slots and candidate ids are unique, every candidate belongs to a session, and the
  stored count of every session is the number of its candidates and at most two hundred.\<close>

theorem sessions_always_consistent: "session_ok (srun e ops empty_sessions)"
proof -
  have "session_ok s \<Longrightarrow> session_ok (srun e ops s)" for s
    by (induction ops arbitrary: s) (simp_all add: srun_def sstep_ok)
  then show ?thesis using session_ok_empty by blast
qed

end
