(* ===== verification/SearchClaims.thy ===== *)
theory SearchClaims
  imports SearchSessionsProps
begin

text \<open>
  The properties of claims and of what a browser is shown: one winning claim per candidate, the protection of a claim
  in progress, the idempotent retry, and that neither URLs nor the server's reconstruction reach a browser.
\<close>

section \<open>One claim per candidate\<close>

definition claimable_candidate :: "string \<Rightarrow> string \<Rightarrow> sstate \<Rightarrow> bool" where
  "claimable_candidate sid cid s \<longleftrightarrow>
     (\<exists>c \<in> set (ss_candidates s). ca_session c = sid \<and> ca_id c = cid \<and> ca_state c = ''available'')"

text \<open>The steps that publish a session's candidates anew, and the deliberate release of this candidate, are left out.\<close>

definition leaves_candidate :: "string \<Rightarrow> string \<Rightarrow> sop \<Rightarrow> bool" where
  "leaves_candidate sid cid op =
     (case op of SCreate q now sid' ids \<Rightarrow> sid' \<noteq> sid | SPending q now sid' ids \<Rightarrow> sid' \<noteq> sid
      | SComplete sid' evs n fs now ids \<Rightarrow> sid' \<noteq> sid
      | SRelease sc now \<Rightarrow> \<not> (sc_session sc = sid \<and> sc_id sc = cid) | _ \<Rightarrow> True)"

definition claim_won :: "senv \<Rightarrow> string \<Rightarrow> string \<Rightarrow> sstate \<Rightarrow> sop \<Rightarrow> bool" where
  "claim_won e sid cid s op =
     (case op of SClaim actor browser now sid' cid' \<Rightarrow>
        sid' = sid \<and> cid' = cid
        \<and> (case fst (claim_server_candidate e actor browser now sid cid s) of Inr a \<Rightarrow> cl_claimed a | Inl _ \<Rightarrow> False)
      | _ \<Rightarrow> False)"

fun claims_won :: "senv \<Rightarrow> string \<Rightarrow> string \<Rightarrow> sstate \<Rightarrow> sop list \<Rightarrow> nat" where
  "claims_won e sid cid s [] = 0"
| "claims_won e sid cid s (op # ops) = (if claim_won e sid cid s op then 1 else 0) + claims_won e sid cid (sstep e s op) ops"

lemma claimable_update:
  assumes "\<And>c. ca_session (f c) = ca_session c" and "\<And>c. ca_id (f c) = ca_id c"
    and "\<And>c. P c \<Longrightarrow> ca_session c = sid \<Longrightarrow> ca_id c = cid \<Longrightarrow> ca_state (f c) \<noteq> ''available''"
    and "claimable_candidate sid cid (snd (update_candidate P f s))"
  shows "claimable_candidate sid cid s"
  using assms by (auto simp: claimable_candidate_def update_candidate_def split: if_splits)

lemma store_candidates:
  assumes "store_session now row cs s = Inr t"
  shows "\<exists>A. set (ss_candidates t) = {c \<in> set (ss_candidates s). ca_session c \<notin> A} \<union> set cs \<and> (\<forall>i \<in> A. \<not> has_live_claim now s i)"
proof (cases "find (\<lambda>r. se_slot r = se_slot row) (ss_sessions s)")
  case None
  then show ?thesis using assms by (intro exI [of _ "{}"]) (auto simp: store_session_def dest!: constrained_Inr)
next
  case (Some old)
  then show ?thesis
    using assms by (intro exI [of _ "{se_id old}"]) (auto simp: store_session_def split: if_splits dest!: constrained_Inr)
qed

lemma purge_candidates:
  "\<exists>A. set (ss_candidates (snd (purge_expired_sessions now batch s))) = {c \<in> set (ss_candidates s). ca_session c \<notin> A}
     \<and> (\<forall>i \<in> A. \<not> has_live_claim now s i)"
proof -
  have dead: "\<forall>i \<in> set (purgeable_ids now batch s). \<not> has_live_claim now s i"
    by (auto simp: purgeable_ids_def dest!: in_set_takeD)
  have "set (ss_candidates (snd (purge_expired_sessions now batch s)))
      = {c \<in> set (ss_candidates s). ca_session c \<notin> set (purgeable_ids now batch s)}"
    by (simp add: purge_expired_sessions_def Let_def)
  with dead show ?thesis by blast
qed

lemma live_claim_kept:
  assumes "set (ss_candidates t) = {c \<in> set (ss_candidates s). ca_session c \<notin> A}" and "\<forall>i \<in> A. \<not> has_live_claim now s i"
    and "c \<in> set (ss_candidates s)" and "claim_live now (ca_session c) c"
  shows "c \<in> set (ss_candidates t)"
  using assms by (auto simp: has_live_claim_def list_ex_iff)

text \<open>What creating a session does to the candidates: it drops sessions without a live claim and adds its own.\<close>

lemma create_candidates:
  "\<exists>A cs. set (ss_candidates (snd (create_session e q now sid ids s))) = {c \<in> set (ss_candidates s). ca_session c \<notin> A} \<union> set cs
     \<and> (\<forall>c \<in> set cs. ca_session c = sid) \<and> (\<forall>i \<in> A. \<not> has_live_claim now s i)"
proof -
  let ?s1 = "snd (purge_expired_sessions now CLEANUP_BATCH_SIZE s)"
  obtain A where A: "set (ss_candidates ?s1) = {c \<in> set (ss_candidates s). ca_session c \<notin> A}" "\<forall>i \<in> A. \<not> has_live_claim now s i"
    using purge_candidates [of now CLEANUP_BATCH_SIZE s] by blast
  show ?thesis
  proof (rule create_cases [of e q now sid ids s], goal_cases)
    case 1
    then show ?case
    proof
      assume "snd (create_session e q now sid ids s) = s"
      then show ?thesis by (intro exI [of _ "{}"] exI [of _ "[]"]) simp
    next
      assume "snd (create_session e q now sid ids s) \<in> {?s1}"
      then show ?thesis using A by (intro exI [of _ A] exI [of _ "[]"]) simp
    qed
  next
    case (2 cs fj t)
    obtain B where B: "set (ss_candidates t) = {c \<in> set (ss_candidates ?s1). ca_session c \<notin> B} \<union> set cs"
      "\<forall>i \<in> B. \<not> has_live_claim now ?s1 i" using store_candidates [OF 2(3)] by blast
    have own: "\<forall>c \<in> set cs. ca_session c = sid" using evaluation_records_shape [OF 2(2)] by blast
    have "\<not> has_live_claim now s i" if "i \<in> B" "i \<notin> A" for i
      using B(2) that A(1) by (auto simp: has_live_claim_def list_ex_iff claim_live_def)
    then have "\<forall>i \<in> A \<union> B. \<not> has_live_claim now s i" using A(2) by blast
    moreover have "set (ss_candidates t) = {c \<in> set (ss_candidates s). ca_session c \<notin> A \<union> B} \<union> set cs" using A(1) B(1) by auto
    ultimately show ?case using own 2(4) by blast
  qed
qed

lemma complete_candidates:
  "\<exists>A cs. set (ss_candidates (snd (complete_search_session e sid evs n fs now ids s)))
       = {c \<in> set (ss_candidates s). ca_session c \<notin> A} \<union> set cs \<and> (\<forall>c \<in> set cs. ca_session c = sid) \<and> A \<subseteq> {sid}"
proof (rule complete_cases [of e sid evs n fs now ids s], goal_cases)
  case 1
  then show ?case by (intro exI [of _ "{}"] exI [of _ "[]"]) simp
next
  case (2 r cs fj t)
  have "set (ss_candidates t) = {c \<in> set (ss_candidates s). ca_session c \<notin> {sid}} \<union> set cs" unfolding 2(5) by auto
  then show ?case using fitting_records_shape [OF 2(4)] unfolding 2(7) by blast
qed

lemma progress_candidates: "ss_candidates (snd (update_search_progress e sid st n cur fs now s)) = ss_candidates s"
proof (cases fs)
  case (Some f)
  then show ?thesis
    by (cases "bounded_json e (bounded_failures e f)") (simp_all add: update_search_progress_def update_session_def Let_def)
qed (simp add: update_search_progress_def update_session_def Let_def)

lemma unpublished:
  assumes "set (ss_candidates t) = {c \<in> set (ss_candidates s). ca_session c \<notin> A} \<union> set cs" and "\<forall>c \<in> set cs. ca_session c = sid'"
    and "sid' \<noteq> sid" and "claimable_candidate sid cid t"
  shows "claimable_candidate sid cid s"
  using assms by (auto simp: claimable_candidate_def)

lemma step_claimable:
  assumes "leaves_candidate sid cid op" and "claimable_candidate sid cid (sstep e s op)"
  shows "claimable_candidate sid cid s"
proof (cases op)
  case (SCreate q now sid' ids)
  obtain A cs where "set (ss_candidates (snd (create_session e q now sid' ids s))) = {c \<in> set (ss_candidates s). ca_session c \<notin> A} \<union> set cs"
    "\<forall>c \<in> set cs. ca_session c = sid'" using create_candidates [of e q now sid' ids s] by blast
  from unpublished [OF this] assms SCreate show ?thesis by (simp add: sstep_def leaves_candidate_def)
next
  case (SPending q now sid' ids)
  let ?q = "q\<lparr>sq_evaluations := [], sq_state := ''queued'', sq_ttl := SESSION_TTL_SECONDS\<rparr>"
  obtain A cs where "set (ss_candidates (snd (create_session e ?q now sid' ids s))) = {c \<in> set (ss_candidates s). ca_session c \<notin> A} \<union> set cs"
    "\<forall>c \<in> set cs. ca_session c = sid'" using create_candidates [of e ?q now sid' ids s] by blast
  from unpublished [OF this] assms SPending show ?thesis by (simp add: sstep_def leaves_candidate_def create_pending_session_def)
next
  case (SProgress sid' st n cur fs now)
  then show ?thesis using assms by (simp add: sstep_def claimable_candidate_def progress_candidates)
next
  case (SComplete sid' evs n fs now ids)
  obtain A cs where "set (ss_candidates (snd (complete_search_session e sid' evs n fs now ids s)))
       = {c \<in> set (ss_candidates s). ca_session c \<notin> A} \<union> set cs" "\<forall>c \<in> set cs. ca_session c = sid'" using complete_candidates [of e sid' evs n fs now ids s] by blast
  from unpublished [OF this] assms SComplete show ?thesis by (simp add: sstep_def leaves_candidate_def)
next
  case (SClaim actor browser now sid' cid')
  show ?thesis
  proof (rule claim_cases [of e actor browser now sid' cid' s], goal_cases)
    case 1
    then show ?case using assms SClaim by (simp add: sstep_def)
  next
    case (2 r c)
    show ?case by (rule claimable_update [of _ _ sid cid s]) (use assms(2) SClaim 2(5) in \<open>simp_all add: sstep_def\<close>)
  qed
next
  case (SFinish sc st out now)
  obtain st' rj where st: "st' \<in> set FINAL_STATES" and t: "snd (finish_candidate_claim e sc st out now s)
      \<in> {s, snd (update_candidate (claimed_by sc) (\<lambda>c. c\<lparr>ca_state := st', ca_recon := rj, ca_updated := now\<rparr>) s)}" using finish_state [of e sc st out now s] by blast
  have na: "st' \<noteq> ''available''" using st by (auto simp: FINAL_STATES_def)
  have "claimable_candidate sid cid s"
    if "claimable_candidate sid cid (snd (update_candidate (claimed_by sc) (\<lambda>c. c\<lparr>ca_state := st', ca_recon := rj, ca_updated := now\<rparr>) s))"
    by (rule claimable_update [OF _ _ _ that]) (use na in simp_all)
  then show ?thesis using assms(2) SFinish t by (auto simp: sstep_def)
next
  case (SRelease sc now)
  obtain rj where t: "snd (release_candidate_claim e sc now s)
      \<in> {s, snd (update_candidate (claimed_by sc) (\<lambda>c. c\<lparr>ca_state := ''available'', ca_recon := rj, ca_updated := now\<rparr>) s)}"
    using release_state [of e sc now s] by blast
  have other: "\<not> (sc_session sc = sid \<and> sc_id sc = cid)" using assms(1) SRelease by (simp add: leaves_candidate_def)
  have "claimable_candidate sid cid s"
    if "claimable_candidate sid cid (snd (update_candidate (claimed_by sc) (\<lambda>c. c\<lparr>ca_state := ''available'', ca_recon := rj, ca_updated := now\<rparr>) s))"
    by (rule claimable_update [OF _ _ _ that]) (use other in \<open>auto simp: claimed_by_def\<close>)
  then show ?thesis using assms(2) SRelease t by (auto simp: sstep_def)
next
  case (SPurge now batch)
  obtain A where "set (ss_candidates (snd (purge_expired_sessions now batch s))) = {c \<in> set (ss_candidates s). ca_session c \<notin> A}"
    using purge_candidates [of now batch s] by blast
  then show ?thesis using assms(2) SPurge by (auto simp: sstep_def claimable_candidate_def)
qed

lemma session_distinct: "session_ok s \<Longrightarrow> distinct (map ca_id (ss_candidates s))"
  by (simp add: session_ok_def keys_unique_def)

lemma won_ends_claimability:
  assumes "session_ok s" and "claim_won e sid cid s op"
  shows "claimable_candidate sid cid s \<and> \<not> claimable_candidate sid cid (sstep e s op)"
proof -
  obtain actor browser now a where op: "op = SClaim actor browser now sid cid"
    and a: "fst (claim_server_candidate e actor browser now sid cid s) = Inr a" "cl_claimed a"
    using assms(2) by (auto simp: claim_won_def split: sop.splits sum.splits)
  show ?thesis
  proof (rule claim_cases [of e actor browser now sid cid s], goal_cases)
    case 1
    then show ?case using a by blast
  next
    case (2 r c)
    have c: "c \<in> set (ss_candidates s)" "ca_session c = sid" "ca_id c = cid" using 2(2) by (auto simp: find_candidate_def find_Some_iff)
    have the_row: "d = c" if "d \<in> set (ss_candidates s)" "ca_id d = cid" for d
      using same_key [OF session_distinct [OF assms(1)] that(1) c(1)] that(2) c(3) by simp
    obtain d where "d \<in> set (ss_candidates s)" "ca_id d = ca_id c" "ca_session d = se_id r" "now < ca_expires d"
      using 2(4) by (auto simp: update_candidate_def list_ex_iff)
    then have hit: "se_id r = sid" "now < ca_expires c" using the_row c(2,3) by metis+
    have "claimable_candidate sid cid s" using c 2(3) by (auto simp: claimable_candidate_def)
    moreover have "\<not> claimable_candidate sid cid (sstep e s op)"
    proof
      assume "claimable_candidate sid cid (sstep e s op)"
      then obtain d where d: "d \<in> set (ss_candidates (snd (submit_row r c now s)))" "ca_id d = cid" "ca_state d = ''available''"
        using op 2(5) by (auto simp: claimable_candidate_def sstep_def)
      then have "d \<in> (\<lambda>d. if ca_id d = ca_id c \<and> ca_session d = se_id r \<and> ca_state d = ''available'' \<and> now < ca_expires d
          then d\<lparr>ca_state := ''submitting'', ca_updated := now\<rparr> else d) ` set (ss_candidates s)" by (simp add: update_candidate_def)
      then obtain d0 where d0: "d0 \<in> set (ss_candidates s)" and de: "d = (if ca_id d0 = ca_id c \<and> ca_session d0 = se_id r
          \<and> ca_state d0 = ''available'' \<and> now < ca_expires d0 then d0\<lparr>ca_state := ''submitting'', ca_updated := now\<rparr> else d0)"
        by blast
      have "ca_id d0 = cid" using de d(2) by (simp split: if_splits)
      then have "d0 = c" using the_row d0 by blast
      then show False using de d(3) c hit 2(3) by simp
    qed
    ultimately show ?case by blast
  qed
qed

lemma claims_won_bound:
  assumes "session_ok s" and "\<forall>op \<in> set ops. leaves_candidate sid cid op"
  shows "claims_won e sid cid s ops \<le> (if claimable_candidate sid cid s then 1 else 0)"
  using assms
proof (induction ops arbitrary: s)
  case (Cons op ops)
  have later: "claims_won e sid cid (sstep e s op) ops \<le> (if claimable_candidate sid cid (sstep e s op) then 1 else 0)"
    using Cons.IH [OF sstep_ok [OF Cons.prems(1)]] Cons.prems(2) by simp
  show ?case
  proof (cases "claim_won e sid cid s op")
    case True
    with won_ends_claimability [OF Cons.prems(1) True] later show ?thesis by simp
  next
    case False
    then show ?thesis using later step_claimable [of sid cid op e s] Cons.prems(2) by (auto split: if_splits)
  qed
qed simp


text \<open>A session with two candidates; every JSON text decodes to the empty object.\<close>

definition demo_env :: senv where
  "demo_env = \<lparr>ie_digest = (\<lambda>s. s), ie_redact = (\<lambda>s. s), ie_repr = (\<lambda>j. []), ie_dumps = (\<lambda>j. ''{}''), ie_loads = (\<lambda>s. Some (JObj []))\<rparr>"

definition demo_row :: "string \<Rightarrow> nat \<Rightarrow> string \<Rightarrow> candidate_row" where
  "demo_row cid n st = \<lparr>ca_id = cid, ca_session = ''s'', ca_ordinal = n, ca_state = st, ca_public = ''{}'', ca_recon = ''{}'',
     ca_fingerprint = ''f'', ca_created = 0, ca_updated = 0, ca_expires = 600\<rparr>"

definition demo_state :: sstate where
  "demo_state = \<lparr>ss_sessions = [\<lparr>se_id = ''s'', se_slot = ''slot'', se_actor = ''a'', se_browser = ''b'', se_etype = ''issue'',
       se_eid = ''7'', se_series = None, se_state = ''complete'', se_count = 2, se_total = 1, se_done = 1, se_current = None,
       se_failures = ''[]'', se_created = 0, se_updated = 0, se_expires = 600\<rparr>],
     ss_candidates = [demo_row ''c'' 0 ''available'', demo_row ''d'' 1 ''submitting'']\<rparr>"

lemmas demo_defs = demo_env_def demo_row_def demo_state_def

lemma demo_ok: "session_ok demo_state"
  by (simp add: session_ok_def keys_unique_def own_candidates_def demo_defs MAX_CANDIDATES_def)

lemmas claim_eval = sstep_def claim_server_candidate_def claim_row_def authorized_row_def find_candidate_def decode_object_def
  server_candidate_of_def update_candidate_def with_entity_def FINAL_STATES_def present_def


section \<open>A claim in progress is protected\<close>

definition sop_time :: "sop \<Rightarrow> int" where
  "sop_time op =
     (case op of SCreate q now sid ids \<Rightarrow> now | SPending q now sid ids \<Rightarrow> now | SProgress sid st n cur fs now \<Rightarrow> now
      | SComplete sid evs n fs now ids \<Rightarrow> now | SClaim actor browser now sid cid \<Rightarrow> now | SFinish sc st out now \<Rightarrow> now
      | SRelease sc now \<Rightarrow> now | SPurge now batch \<Rightarrow> now)"

text \<open>What the handoff itself ends its claim with, and the worker publishing the same session's candidates.\<close>

definition settles :: "candidate_row \<Rightarrow> sop \<Rightarrow> bool" where
  "settles c op =
     (case op of SFinish sc st out now \<Rightarrow> sc_id sc = ca_id c \<and> sc_session sc = ca_session c
      | SRelease sc now \<Rightarrow> sc_id sc = ca_id c \<and> sc_session sc = ca_session c
      | SComplete sid evs n fs now ids \<Rightarrow> sid = ca_session c | _ \<Rightarrow> False)"

lemma update_keeps: "c \<in> set (ss_candidates s) \<Longrightarrow> \<not> P c \<Longrightarrow> c \<in> set (ss_candidates (snd (update_candidate P f s)))"
  by (force simp: update_candidate_def)

lemma claim_live_earlier: "claim_live T i c \<Longrightarrow> now \<le> T \<Longrightarrow> claim_live now i c"
  by (auto simp: claim_live_def)

lemma step_keeps_live:
  assumes c: "c \<in> set (ss_candidates s)" and live: "claim_live T (ca_session c) c" and op: "sop_time op \<le> T" "\<not> settles c op"
  shows "c \<in> set (ss_candidates (sstep e s op))"
proof -
  have st: "ca_state c = ''submitting''" using live by (simp add: claim_live_def)
  have now: "claim_live (sop_time op) (ca_session c) c" using claim_live_earlier [OF live op(1)] .
  have kept: "c \<in> set (ss_candidates t)" if "set (ss_candidates t) = {c \<in> set (ss_candidates s). ca_session c \<notin> A} \<union> B"
    "\<forall>i \<in> A. \<not> has_live_claim (sop_time op) s i" for t A B
    using that c now by (auto simp: has_live_claim_def list_ex_iff)
  show ?thesis
  proof (cases op)
    case (SCreate q n sid ids)
    then show ?thesis using create_candidates [of e q n sid ids s] kept by (auto simp: sstep_def sop_time_def)
  next
    case (SPending q n sid ids)
    let ?q = "q\<lparr>sq_evaluations := [], sq_state := ''queued'', sq_ttl := SESSION_TTL_SECONDS\<rparr>"
    show ?thesis using create_candidates [of e ?q n sid ids s] kept SPending by (auto simp: sstep_def sop_time_def create_pending_session_def)
  next
    case (SProgress sid st k cur fs n)
    then show ?thesis using c by (simp add: sstep_def progress_candidates)
  next
    case (SComplete sid evs k fs n ids)
    obtain A cs where "set (ss_candidates (snd (complete_search_session e sid evs k fs n ids s)))
       = {c \<in> set (ss_candidates s). ca_session c \<notin> A} \<union> set cs" "A \<subseteq> {sid}" using complete_candidates [of e sid evs k fs n ids s] by blast
    then show ?thesis using SComplete op(2) c by (auto simp: sstep_def settles_def)
  next
    case (SClaim actor browser n sid cid)
    show ?thesis
    proof (rule claim_cases [of e actor browser n sid cid s], goal_cases)
      case (2 r d)
      then show ?case using update_keeps [OF c] st SClaim by (simp add: sstep_def)
    qed (use c SClaim in \<open>simp add: sstep_def\<close>)
  next
    case (SFinish sc st' out n)
    then have "\<not> claimed_by sc c" using op(2) by (auto simp: claimed_by_def settles_def)
    with finish_state [of e sc st' out n s] update_keeps [OF c] c show ?thesis using SFinish by (auto simp: sstep_def)
  next
    case (SRelease sc n)
    then have "\<not> claimed_by sc c" using op(2) by (auto simp: claimed_by_def settles_def)
    with release_state [of e sc n s] update_keeps [OF c] c show ?thesis using SRelease by (auto simp: sstep_def)
  next
    case (SPurge n batch)
    then show ?thesis using purge_candidates [of n batch s] kept [of _ _ "{}"] by (auto simp: sstep_def sop_time_def)
  qed
qed

lemma find_only:
  assumes "c \<in> set xs" and "P c" and "\<And>d. d \<in> set xs \<Longrightarrow> P d \<Longrightarrow> d = c"
  shows "find P xs = Some c"
proof (cases "find P xs")
  case None
  then show ?thesis using assms(1,2) by (simp add: find_None_iff)
next
  case (Some d)
  then have "d \<in> set xs" "P d" by (auto simp: find_Some_iff)
  then show ?thesis using Some assms(3) by blast
qed

text \<open>C40: A handoff in progress is protected: while its claim is younger than the lease, no search, progress report, claim,
  foreign outcome or purge deletes or changes its candidate, whatever their order, and its session stays too; only its
  own outcome or release, or the worker publishing that session, does.\<close>

theorem live_claim_protected:
  assumes "session_ok s" and "c \<in> set (ss_candidates s)" and "claim_live T (ca_session c) c"
    and "\<forall>op \<in> set ops. sop_time op \<le> T \<and> \<not> settles c op"
  shows "find_candidate (srun e ops s) (ca_session c) (ca_id c) = Some c \<and> ca_session c \<in> se_id ` set (ss_sessions (srun e ops s))"
proof -
  have "session_ok (srun e ops s) \<and> c \<in> set (ss_candidates (srun e ops s))"
    using assms
  proof (induction ops arbitrary: s)
    case (Cons op ops)
    have "c \<in> set (ss_candidates (sstep e s op))" using step_keeps_live Cons.prems(2-4) by simp
    with Cons.IH [OF sstep_ok [OF Cons.prems(1)] this Cons.prems(3)] Cons.prems(4) show ?case by (simp add: srun_def)
  qed (simp add: srun_def)
  then have t: "session_ok (srun e ops s)" and c: "c \<in> set (ss_candidates (srun e ops s))" by blast+
  have "d = c" if "d \<in> set (ss_candidates (srun e ops s))" "ca_id d = ca_id c" for d
    using same_key [OF session_distinct [OF t] that(1) c that(2)] .
  then have "find_candidate (srun e ops s) (ca_session c) (ca_id c) = Some c"
    unfolding find_candidate_def by (intro find_only c) (simp, blast)
  moreover have "ca_session c \<in> se_id ` set (ss_sessions (srun e ops s))" using t c by (simp add: session_ok_def)
  ultimately show ?thesis by blast
qed

theorem live_claim_protected_witness:
  "find_candidate (srun demo_env [SPurge 700 500, SClaim (Some ''a'') (Some ''b'') 6 ''s'' ''d'', SPurge 800 500] demo_state) ''s'' ''d''
     = Some (demo_row ''d'' 1 ''submitting'')"
proof -
  let ?c = "demo_row ''d'' 1 ''submitting''"
  have "find_candidate (srun demo_env [SPurge 700 500, SClaim (Some ''a'') (Some ''b'') 6 ''s'' ''d'', SPurge 800 500] demo_state)
      (ca_session ?c) (ca_id ?c) = Some ?c"
    by (rule live_claim_protected [where T = 900, OF demo_ok, THEN conjunct1])
      (simp_all add: demo_defs claim_live_def seconds_def CLAIM_LEASE_SECONDS_def sop_time_def settles_def)
  then show ?thesis by (simp add: demo_row_def)
qed

section \<open>The retry of a finished handoff\<close>

lemma find_update_candidate:
  assumes "\<And>c. ca_session (f c) = ca_session c" and "\<And>c. ca_id (f c) = ca_id c"
  shows "find_candidate (snd (update_candidate P f s)) sid cid = map_option (\<lambda>c. if P c then f c else c) (find_candidate s sid cid)"
proof -
  have "find (\<lambda>c. ca_session c = sid \<and> ca_id c = cid) (map (\<lambda>c. if P c then f c else c) xs)
      = map_option (\<lambda>c. if P c then f c else c) (find (\<lambda>c. ca_session c = sid \<and> ca_id c = cid) xs)" for xs
    by (induction xs) (auto simp: assms)
  then show ?thesis by (simp add: find_candidate_def update_candidate_def)
qed

lemma found_key: "find_candidate s sid cid = Some c \<Longrightarrow> ca_session c = sid \<and> ca_id c = cid"
  by (auto simp: find_candidate_def find_Some_iff)

lemma update_candidate_sessions [simp]: "ss_sessions (snd (update_candidate P f s)) = ss_sessions s"
  by (simp add: update_candidate_def)

lemma authorized_sessions: "ss_sessions t = ss_sessions s \<Longrightarrow> authorized_row e actor browser now sid t = authorized_row e actor browser now sid s"
  by (simp add: authorized_row_def)

lemma authorized_later: "authorized_row e actor browser now sid s = Inr r \<Longrightarrow> now2 < se_expires r \<Longrightarrow> authorized_row e actor browser now2 sid s = Inr r"
  by (auto simp: authorized_row_def split: if_splits option.splits)

lemma decode_Inr: "decode_object e x = Inr j \<Longrightarrow> \<exists>d. j = JObj d \<and> ie_loads e x = Some (JObj d)"
  by (auto simp: decode_object_def split: option.splits json.splits)

text \<open>A claim that answers with the candidate.\<close>

lemma claim_row_won:
  assumes "claim_row e r c recon now s = (Inr a, s1)" and "cl_claimed a"
  obtains p where "ca_state c = ''available''" "fst (submit_row r c now s)" "s1 = snd (submit_row r c now s)" "decode_object e (ca_public c) = Inr p"
    "cl_candidate a = with_entity r (\<lparr>sc_id = ca_id c, sc_session = ca_session c, sc_state = ''submitting'',
      sc_fingerprint = ca_fingerprint c, sc_public = p, sc_recon = recon, sc_entity = None\<rparr>)"
proof (cases "decode_object e (ca_public c)")
  case (Inl x)
  have "False" using assms
    by (cases "ca_state c \<in> set FINAL_STATES"; cases "ca_state c = ''available''"; cases "submit_row r c now s")
      (auto simp: claim_row_def server_candidate_of_def Inl split: if_splits)
  then show ?thesis ..
next
  case (Inr p)
  have av: "ca_state c = ''available''" "ca_state c \<notin> set FINAL_STATES"
    using assms by (auto simp: claim_row_def server_candidate_of_def Inr split: if_splits)
  show ?thesis
  proof (cases "fst (submit_row r c now s)")
    case True
    then show ?thesis using that [OF av(1) _ _ Inr] assms av
      by (cases "submit_row r c now s") (auto simp: claim_row_def server_candidate_of_def Inr)
  next
    case False
    then show ?thesis using assms av by (cases "submit_row r c now s") (simp add: claim_row_def)
  qed
qed

lemma finish_done:
  assumes "finish_candidate_claim e sc state out now s = (Inr shown, t)"
  shows "state \<in> set FINAL_STATES \<and> shown = sanitize_public e out \<and> t = snd (update_candidate (claimed_by sc)
    (\<lambda>c. c\<lparr>ca_state := state, ca_recon := ie_dumps e (jset ''selection_outcome'' (sanitize_public e out) (sc_recon sc)), ca_updated := now\<rparr>) s)"
proof (cases "state \<in> set FINAL_STATES")
  case True
  let ?j = "jset ''selection_outcome'' (sanitize_public e out) (sc_recon sc)"
  show ?thesis
  proof (cases "MAX_RECORD_BYTES < utf8_len (ie_dumps e ?j)")
    case False
    let ?u = "update_candidate (claimed_by sc) (\<lambda>c. c\<lparr>ca_state := state, ca_recon := ie_dumps e ?j, ca_updated := now\<rparr>) s"
    have "finish_candidate_claim e sc state out now s = (if fst ?u then (Inr (sanitize_public e out), snd ?u) else (Inl SConflict, s))"
      using True False by (simp add: finish_candidate_claim_def bounded_json_def Let_def split_beta)
    then show ?thesis using assms True by (simp split: if_splits)
  qed (use assms True in \<open>simp add: finish_candidate_claim_def bounded_json_def Let_def\<close>)
qed (use assms in \<open>simp add: finish_candidate_claim_def\<close>)

lemma claim_answered:
  assumes "claim_server_candidate e actor browser now sid cid s = (Inr a, s1)" and "cl_claimed a" and "session_ok s"
  obtains r c recon p where "authorized_row e actor browser now sid s = Inr r" "se_id r = sid" "find_candidate s sid cid = Some c"
    "decode_object e (ca_recon c) = Inr recon" "decode_object e (ca_public c) = Inr p" "s1 = snd (submit_row r c now s)"
    "find_candidate s1 sid cid = Some (c\<lparr>ca_state := ''submitting'', ca_updated := now\<rparr>)"
    "cl_candidate a = \<lparr>sc_id = cid, sc_session = sid, sc_state = ''submitting'', sc_fingerprint = ca_fingerprint c, sc_public = p,
        sc_recon = recon, sc_entity = Some (se_etype r, se_eid r)\<rparr>"
proof (cases "authorized_row e actor browser now sid s")
  case (Inl x)
  then show ?thesis using assms by (simp add: claim_server_candidate_def)
next
  case r: (Inr r)
  then have rid: "se_id r = sid" by (auto simp: authorized_row_def find_Some_iff split: if_splits option.splits)
  obtain c recon where c: "find_candidate s sid cid = Some c" and d: "decode_object e (ca_recon c) = Inr recon"
    and cl: "claim_row e r c recon now s = (Inr a, s1)"
    using assms(1) r rid by (auto simp: claim_server_candidate_def split: option.splits sum.splits)
  have cc: "c \<in> set (ss_candidates s)" "ca_session c = sid" "ca_id c = cid" using c by (auto simp: find_candidate_def find_Some_iff)
  obtain p where av: "ca_state c = ''available''" and hit: "fst (submit_row r c now s)" and s1: "s1 = snd (submit_row r c now s)"
    and p: "decode_object e (ca_public c) = Inr p"
    and ans: "cl_candidate a = with_entity r (\<lparr>sc_id = ca_id c, sc_session = ca_session c, sc_state = ''submitting'',
      sc_fingerprint = ca_fingerprint c, sc_public = p, sc_recon = recon, sc_entity = None\<rparr>)"
    by (rule claim_row_won [OF cl assms(2)])
  obtain d where "d \<in> set (ss_candidates s)" "ca_id d = ca_id c" "now < ca_expires d"
    using hit by (auto simp: update_candidate_def list_ex_iff)
  then have "now < ca_expires c" using same_key [OF session_distinct [OF assms(3)] _ cc(1)] by metis
  then have "find_candidate s1 sid cid = Some (c\<lparr>ca_state := ''submitting'', ca_updated := now\<rparr>)"
    unfolding s1 by (subst find_update_candidate) (simp_all add: c cc rid av)
  with that [OF r rid c d p s1] ans cc(2,3) show ?thesis by (simp add: with_entity_def)
qed

text \<open>Asking again for a candidate whose handoff has finished is answered from the store, without a second handoff:
  after a won claim and its outcome, every further claim by the same browser before the session expires is refused the
  claim, is told the recorded state and the outcome that was stored, and changes nothing.\<close>

theorem retry_gets_stored_outcome:
  assumes "session_ok s" and "claim_server_candidate e actor browser now sid cid s = (Inr a, s1)" and "cl_claimed a"
    and "finish_candidate_claim e (cl_candidate a) state out now1 s1 = (Inr shown, s2)"
    and "ie_loads e (ie_dumps e (jset ''selection_outcome'' (sanitize_public e out) (sc_recon (cl_candidate a)))) = Some (JObj back)"
    and "\<And>r. authorized_row e actor browser now sid s = Inr r \<Longrightarrow> now2 < se_expires r"
  shows "\<exists>b. claim_server_candidate e actor browser now2 sid cid s2 = (Inr b, s2) \<and> \<not> cl_claimed b \<and> cl_state b = state
    \<and> cl_outcome b = jget (JObj back) ''selection_outcome'' \<and> shown = sanitize_public e out"
proof -
  obtain r c recon p where r: "authorized_row e actor browser now sid s = Inr r" "se_id r = sid"
    and c0: "find_candidate s sid cid = Some c" "decode_object e (ca_recon c) = Inr recon"
    and c: "decode_object e (ca_public c) = Inr p" and s1: "s1 = snd (submit_row r c now s)"
    and c1: "find_candidate s1 sid cid = Some (c\<lparr>ca_state := ''submitting'', ca_updated := now\<rparr>)"
    and sc: "cl_candidate a = \<lparr>sc_id = cid, sc_session = sid, sc_state = ''submitting'', sc_fingerprint = ca_fingerprint c, sc_public = p,
        sc_recon = recon, sc_entity = Some (se_etype r, se_eid r)\<rparr>"
    by (rule claim_answered [OF assms(2,3,1)])
  let ?rj = "ie_dumps e (jset ''selection_outcome'' (sanitize_public e out) (sc_recon (cl_candidate a)))"
  let ?f = "\<lambda>c. c\<lparr>ca_state := state, ca_recon := ?rj, ca_updated := now1\<rparr>"
  have fin: "state \<in> set FINAL_STATES" "s2 = snd (update_candidate (claimed_by (cl_candidate a)) ?f s1)" "shown = sanitize_public e out"
    using finish_done [OF assms(4)] by blast+
  have hit: "claimed_by (cl_candidate a) (c\<lparr>ca_state := ''submitting'', ca_updated := now\<rparr>)"
    using found_key [OF c0(1)] sc by (simp add: claimed_by_def)
  have "find_candidate s2 sid cid = Some (?f (c\<lparr>ca_state := ''submitting'', ca_updated := now\<rparr>))"
    unfolding fin(2) by (subst find_update_candidate) (use c1 hit in simp_all)
  moreover have "authorized_row e actor browser now2 sid s2 = Inr r"
    using authorized_later [OF r(1) assms(6) [OF r(1)]] authorized_sessions [of s2 s] by (simp add: fin(2) s1)
  ultimately show ?thesis using r(2) c assms(5) fin(1,3)
    by (simp add: claim_server_candidate_def decode_object_def claim_row_def server_candidate_of_def with_entity_def
        split: option.splits json.splits)
qed

text \<open>An environment that writes one text and reads it back as a stored outcome.\<close>

definition outcome_env :: senv where
  "outcome_env = demo_env\<lparr>ie_dumps := (\<lambda>j. ''{o}''),
     ie_loads := (\<lambda>s. Some (JObj (if s = ''{o}'' then [(''selection_outcome'', JObj [(''status'', JStr ''queued'')])] else [])))\<rparr>"

theorem retry_gets_stored_outcome_witness:
  "\<exists>a s1 shown s2 b. claim_server_candidate outcome_env (Some ''a'') (Some ''b'') 5 ''s'' ''c'' demo_state = (Inr a, s1)
     \<and> finish_candidate_claim outcome_env (cl_candidate a) ''submitted'' (JObj [(''status'', JStr ''queued'')]) 6 s1 = (Inr shown, s2)
     \<and> claim_server_candidate outcome_env (Some ''a'') (Some ''b'') 7 ''s'' ''c'' s2 = (Inr b, s2)
     \<and> \<not> cl_claimed b \<and> cl_state b = ''submitted'' \<and> cl_outcome b = JObj [(''status'', JStr ''queued'')]"
proof -
  let ?out = "JObj [(''status'', JStr ''queued'')]"
  have one: "utf8_len ''{o}'' = 3" by (simp add: utf8_len_def)
  obtain a s1 where a: "claim_server_candidate outcome_env (Some ''a'') (Some ''b'') 5 ''s'' ''c'' demo_state = (Inr a, s1)" "cl_claimed a"
    "sc_recon (cl_candidate a) = JObj []" "sc_id (cl_candidate a) = ''c''" "sc_session (cl_candidate a) = ''s''"
    "sc_fingerprint (cl_candidate a) = ''f''" "s1 = demo_state\<lparr>ss_candidates := [(demo_row ''c'' 0 ''submitting'')\<lparr>ca_updated := 5\<rparr>, demo_row ''d'' 1 ''submitting'']\<rparr>"
    by (simp add: claim_eval outcome_env_def demo_defs)
  obtain shown s2 where f: "finish_candidate_claim outcome_env (cl_candidate a) ''submitted'' ?out 6 s1 = (Inr shown, s2)"
    using a(3-7) one
    by (simp add: finish_candidate_claim_def bounded_json_def MAX_RECORD_BYTES_def FINAL_STATES_def update_candidate_def claimed_by_def
        outcome_env_def demo_defs Let_def)
  have stored: "ie_loads outcome_env (ie_dumps outcome_env (jset ''selection_outcome'' (sanitize_public outcome_env ?out) (sc_recon (cl_candidate a))))
      = Some (JObj [(''selection_outcome'', ?out)])" by (simp add: outcome_env_def)
  have later: "7 < se_expires r" if "authorized_row outcome_env (Some ''a'') (Some ''b'') 5 ''s'' demo_state = Inr r" for r
    using that by (auto simp: authorized_row_def outcome_env_def demo_defs present_def)
  from retry_gets_stored_outcome [OF demo_ok a(1,2) f stored later]
  obtain b where "claim_server_candidate outcome_env (Some ''a'') (Some ''b'') 7 ''s'' ''c'' s2 = (Inr b, s2)" "\<not> cl_claimed b"
    "cl_state b = ''submitted''" "cl_outcome b = ?out"
    by (auto simp: jget_def dict_get_def)
  then show ?thesis using a(1) f by blast
qed

section \<open>What a browser is shown\<close>

text \<open>The state without anything a browser may not see of the candidates.\<close>

definition hide_private :: "sstate \<Rightarrow> sstate" where
  "hide_private s = s\<lparr>ss_candidates := map (\<lambda>c. c\<lparr>ca_recon := [], ca_fingerprint := [], ca_updated := 0\<rparr>) (ss_candidates s)\<rparr>"

lemma sort_key_map:
  assumes "\<And>x. k (f x) = k x"
  shows "sort_key k (map f xs) = map f (sort_key k xs)"
proof -
  have "insort_key k (f x) (map f ys) = map f (insort_key k x ys)" for x ys by (induction ys) (simp_all add: assms)
  then show ?thesis by (induction xs) simp_all
qed

lemma public_candidates_map:
  assumes "\<And>c. ca_public (f c) = ca_public c" and "\<And>c. ca_id (f c) = ca_id c" and "\<And>c. ca_state (f c) = ca_state c"
  shows "public_candidates e (map f cs) = public_candidates e cs"
proof (induction cs)
  case (Cons c cs)
  then show ?case
    by (cases "decode_object e (ca_public c)"; cases "public_candidates e cs") (simp_all add: assms)
qed simp

lemma filter_map_keep: "(\<And>x. P (f x) = P x) \<Longrightarrow> filter P (map f xs) = map f (filter P xs)"
  by (induction xs) simp_all

text \<open>What a browser reads of its session does not depend on the server's side: the reconstruction record a candidate
  keeps, its fingerprint and the times of its claims cannot be told from the answer, in any state and for any reader.\<close>

theorem browser_sees_public_only:
  "read_session e actor browser now sid (hide_private s) = read_session e actor browser now sid s"
proof -
  let ?f = "\<lambda>c. c\<lparr>ca_recon := [], ca_fingerprint := [], ca_updated := 0\<rparr>"
  have "authorized_row e actor browser now sid (hide_private s) = authorized_row e actor browser now sid s"
    by (rule authorized_sessions) (simp add: hide_private_def)
  moreover have "public_candidates e (sort_key ca_ordinal (filter (\<lambda>c. ca_session c = i) (ss_candidates (hide_private s))))
      = public_candidates e (sort_key ca_ordinal (filter (\<lambda>c. ca_session c = i) (ss_candidates s)))" for i
    by (simp add: hide_private_def filter_map_keep sort_key_map public_candidates_map)
  ultimately show ?thesis
    by (cases "authorized_row e actor browser now sid s") (simp_all add: read_session_def)
qed

text \<open>Every text in a JSON value that is not a key.\<close>

fun json_texts :: "json \<Rightarrow> string list" and list_texts :: "json list \<Rightarrow> string list"
  and item_texts :: "(string \<times> json) list \<Rightarrow> string list" where
  "json_texts (JStr s) = [s]"
| "json_texts (JText s) = [s]"
| "json_texts (JArr xs) = list_texts xs"
| "json_texts (JObj d) = item_texts d"
| "json_texts j = []"
| "list_texts [] = []"
| "list_texts (x # xs) = json_texts x @ list_texts xs"
| "item_texts [] = []"
| "item_texts ((k, v) # r) = json_texts v @ item_texts r"

lemma url_at_iff:
  "url_at s \<longleftrightarrow> (\<exists>p \<in> {''http://'', ''https://''}. take (length p) (py_lower s) = p \<and> length p < length s \<and> \<not> py_isspace (s ! length p))"
proof -
  have pre: "prefix p l \<longleftrightarrow> take (length p) l = p" for p l :: string by (metis append_eq_conv_conj prefix_def take_is_prefix)
  have "length ''http://'' = 7" "length ''https://'' = 8" by simp_all
  then show ?thesis unfolding url_at_def Let_def py_startswith_def pre by (simp only: bex_simps simp_thms conj_assoc insert_iff empty_iff bex_empty)
qed

lemma url_at_take:
  assumes "url_at (take n s)"
  shows "url_at s"
proof -
  obtain p where p: "p \<in> {''http://'', ''https://''}" "take (length p) (py_lower (take n s)) = p"
    and len: "length p < length (take n s)" and sp: "\<not> py_isspace (take n s ! length p)" using assms unfolding url_at_iff by blast
  have "take (length p) (py_lower s) = p" using p(2) len by (simp add: py_lower_def take_map min_def split: if_splits)
  moreover have "\<not> py_isspace (s ! length p)" using sp len by simp
  ultimately show ?thesis using p(1) len unfolding url_at_iff by auto
qed

lemma has_url_take: "has_url (take n s) \<Longrightarrow> has_url s"
proof (induction s arbitrary: n)
  case (Cons c s)
  then obtain m where n: "n = Suc m" by (cases n) auto
  have "url_at (take n (c # s)) \<or> has_url (take m s)" using Cons.prems n by simp
  moreover have "url_at (take n (c # s)) \<Longrightarrow> url_at (c # s)" by (rule url_at_take)
  ultimately show ?case using Cons.IH [of m] by (metis has_url.simps(2))
qed simp

lemma lower_h: "py_lower_char c = CHR ''h'' \<Longrightarrow> \<not> py_isspace c"
proof -
  have "py_isspace c = py_isspace (py_lower_char c)" by simp
  also assume "py_lower_char c = CHR ''h''"
  finally show ?thesis by (simp add: py_isspace_def)
qed

lemma url_at_h: "url_at (c # s) \<Longrightarrow> py_lower_char c = CHR ''h''"
  by (auto simp: url_at_iff py_lower_def)

text \<open>The redacted text agrees with the text up to the first marker, and starts that marker at a URL.\<close>

lemma redact_agrees:
  "n < length (redact_urls s) \<Longrightarrow> CHR ''['' \<notin> set (take n (redact_urls s))
     \<Longrightarrow> take n s = take n (redact_urls s) \<and> n < length s \<and> (\<not> py_isspace (redact_urls s ! n) \<longrightarrow> \<not> py_isspace (s ! n))"
proof (induction s arbitrary: n rule: redact_urls.induct)
  case (2 c s)
  show ?case
  proof (cases "url_at (c # s)")
    case True
    then have "n = 0" using 2(4) by (cases n) (simp_all add: url_marker_def)
    then show ?thesis using lower_h [OF url_at_h [OF True]] by simp
  next
    case False
    then show ?thesis using 2(2) [OF False] 2(3,4) by (cases n) simp_all
  qed
qed simp

lemma redact_no_url_at:
  assumes "\<not> url_at (c # s)"
  shows "\<not> url_at (c # redact_urls s)"
proof
  assume "url_at (c # redact_urls s)"
  then obtain p where p: "p \<in> {''http://'', ''https://''}" "take (length p) (py_lower (c # redact_urls s)) = p"
    "length p < length (c # redact_urls s)" "\<not> py_isspace ((c # redact_urls s) ! length p)" unfolding url_at_iff by blast
  obtain n where n: "length p = Suc n" using p(1) by auto
  have low: "map py_lower_char (take n (redact_urls s)) = tl p" using p(1,2) n by (auto simp: py_lower_def take_map)
  have "py_lower_char (CHR ''['') = CHR ''[''" by (simp add: py_lower_char_def Let_def)
  moreover have "CHR ''['' \<notin> set (tl p)" using p(1) by auto
  ultimately have "CHR ''['' \<notin> set (take n (redact_urls s))" unfolding low [symmetric] by force
  from redact_agrees [OF _ this] have "take n s = take n (redact_urls s)" "n < length s" "\<not> py_isspace (s ! n)"
    using p(3,4) n by auto
  then have "url_at (c # s)" unfolding url_at_iff using p(1,2) n by (intro bexI [OF _ p(1)]) (simp add: py_lower_def take_map)
  then show False using assms by blast
qed

lemma no_h_no_url: "list_all (\<lambda>c. py_lower_char c \<noteq> CHR ''h'') m \<Longrightarrow> has_url (m @ r) = has_url r"
  by (induction m) (auto dest: url_at_h)

lemma marker_no_url: "has_url (url_marker @ r) = has_url r"
  by (rule no_h_no_url) code_simp

lemma redacted_no_url: "\<not> has_url (redact_urls s)"
proof (induction s rule: redact_urls.induct)
  case (2 c s)
  then show ?case using redact_no_url_at marker_no_url by simp
qed simp

lemma public_text_clean: "\<not> has_url (public_text e s) \<and> length (public_text e s) \<le> 4096"
proof -
  have "\<not> has_url (take 4096 (redact_urls (ie_redact e s)))" using has_url_take redacted_no_url by blast
  then show ?thesis by (simp add: public_text_def)
qed

text \<open>No URL reaches a browser: in the sanitised form of any public data, nested as it may be, no text contains an
  \<open>http\<close> or \<open>https\<close> URL in any case, not even one that appears when another is cut out, and none is longer
  than 4096 characters; whatever the credential redactor does before.\<close>

theorem browser_sees_no_url:
  "list_all (\<lambda>s. \<not> has_url s \<and> length s \<le> 4096) (json_texts (sanitize_public e j))"
proof -
  let ?ok = "list_all (\<lambda>s. \<not> has_url s \<and> length s \<le> 4096)"
  have "?ok (json_texts (sanitize_public e j))" "?ok (list_texts (sanitize_list e xs))" "?ok (item_texts (sanitize_items e d))" for j xs d
    by (induction j and xs and d rule: sanitize_public_sanitize_list_sanitize_items.induct) (simp_all add: public_text_clean)
  then show ?thesis by blast
qed

end
