(* ===== verification/SearchQueue.thy ===== *)
theory SearchQueue
  imports JournalPayload
begin

text \<open>
  \<open>comicarr/app/search/queue.py\<close>: the in-memory queue of the search worker, one first-in first-out lane per priority
  and a rule that chooses the lane.  \<open>put\<close> and \<open>get\<close> of \<open>queue.Queue\<close> are atomic; \<open>get\<close> on an empty queue waits,
  which is \<open>None\<close> here.
\<close>

datatype qclass = QInteractive | QRoutine | QRecovery | QControl

record fair_queue =
  fq_lanes :: "qclass \<Rightarrow> pval list"
  fq_interactive :: nat
  fq_non_recovery :: nat

definition empty_queue :: fair_queue where
  "empty_queue = \<lparr>fq_lanes = (\<lambda>c. []), fq_interactive = 0, fq_non_recovery = 0\<rparr>"

definition interactive_burst :: "int \<Rightarrow> nat" where
  "interactive_burst n = nat (max 1 n)"

definition queue_class :: "pval \<Rightarrow> qclass" where
  "queue_class item =
     (if item = VStr ''exit'' then QControl
      else case item of
        VDict d \<Rightarrow>
          (let v = py_lower (py_strip (py_str (pv_or (pv_get d ''queue_priority'') (VStr ''routine'')))) in
           if v = ''interactive'' then QInteractive else if v = ''recovery'' then QRecovery else QRoutine)
      | _ \<Rightarrow> QRoutine)"

definition queue_size :: "fair_queue \<Rightarrow> nat" where
  "queue_size q = length (fq_lanes q QInteractive) + length (fq_lanes q QRoutine)
     + length (fq_lanes q QRecovery) + length (fq_lanes q QControl)"

definition fq_put :: "pval \<Rightarrow> fair_queue \<Rightarrow> fair_queue" where
  "fq_put item q = (let c = queue_class item in q\<lparr>fq_lanes := (fq_lanes q)(c := fq_lanes q c @ [item])\<rparr>)"

definition popleft :: "qclass \<Rightarrow> fair_queue \<Rightarrow> pval \<times> fair_queue" where
  "popleft c q = (hd (fq_lanes q c), q\<lparr>fq_lanes := (fq_lanes q)(c := tl (fq_lanes q c))\<rparr>)"

text \<open>The lane to serve and the two streaks after it; \<open>None\<close> when every lane is empty.\<close>

definition choose_lane :: "nat \<Rightarrow> fair_queue \<Rightarrow> (qclass \<times> nat \<times> nat) option" where
  "choose_lane burst q =
     (let lane = fq_lanes q; i = fq_interactive q; n = fq_non_recovery q;
          background = (lane QRoutine \<noteq> [] \<or> lane QRecovery \<noteq> [])
      in if lane QControl \<noteq> [] then Some (QControl, i, n)
         else if lane QRecovery \<noteq> [] \<and> burst \<le> n then Some (QRecovery, 0, 0)
         else if lane QInteractive \<noteq> [] \<and> (i < burst \<or> \<not> background) then Some (QInteractive, Suc i, Suc n)
         else if lane QRoutine \<noteq> [] then Some (QRoutine, 0, Suc n)
         else if lane QRecovery \<noteq> [] then Some (QRecovery, 0, 0)
         else if lane QInteractive \<noteq> [] then Some (QInteractive, 0, Suc n)
         else None)"

definition fq_get :: "nat \<Rightarrow> fair_queue \<Rightarrow> (pval \<times> fair_queue) option" where
  "fq_get burst q =
     (case choose_lane burst q of None \<Rightarrow> None
      | Some (c, i, n) \<Rightarrow> Some (popleft c (q\<lparr>fq_interactive := i, fq_non_recovery := n\<rparr>)))"

section \<open>Histories\<close>

text \<open>What producers put and the worker takes, in the order it happens, and what the worker was served.\<close>

datatype 'a qop = QPut 'a | QGet

fun queue_run :: "('a \<Rightarrow> 'q \<Rightarrow> 'q) \<Rightarrow> ('q \<Rightarrow> ('a \<times> 'q) option) \<Rightarrow> 'a qop list \<Rightarrow> 'q \<Rightarrow> 'a list \<times> 'q" where
  "queue_run put get [] q = ([], q)"
| "queue_run put get (QPut x # ops) q = queue_run put get ops (put x q)"
| "queue_run put get (QGet # ops) q =
     (case get q of None \<Rightarrow> queue_run put get ops q
      | Some (x, q') \<Rightarrow> (case queue_run put get ops q' of (xs, t) \<Rightarrow> (x # xs, t)))"

fun puts_of :: "'a qop list \<Rightarrow> 'a list" where
  "puts_of [] = []"
| "puts_of (QPut x # ops) = x # puts_of ops"
| "puts_of (QGet # ops) = puts_of ops"

fun gets_of :: "'a qop list \<Rightarrow> nat" where
  "gets_of [] = 0"
| "gets_of (QPut x # ops) = gets_of ops"
| "gets_of (QGet # ops) = Suc (gets_of ops)"

section \<open>Queues with lanes\<close>

text \<open>The contract of a queue that keeps a lane per class: an item joins the end of the lane of its class, and what is
  taken is the head of some lane; how the lane is chosen is left open.\<close>

locale lane_queue =
  fixes put :: "'a \<Rightarrow> 'q \<Rightarrow> 'q"
    and get :: "'q \<Rightarrow> ('a \<times> 'q) option"
    and lane :: "'q \<Rightarrow> 'c \<Rightarrow> 'a list"
    and class_of :: "'a \<Rightarrow> 'c"
  assumes put_lane: "lane (put x q) c = lane q c @ (if class_of x = c then [x] else [])"
    and get_lane: "get q = Some (x, q') \<Longrightarrow> \<exists>d. lane q d = x # lane q' d \<and> (\<forall>c. c \<noteq> d \<longrightarrow> lane q' c = lane q c)"
begin

definition in_lanes :: "'q \<Rightarrow> bool" where
  "in_lanes q \<longleftrightarrow> (\<forall>c. \<forall>x \<in> set (lane q c). class_of x = c)"

lemma put_in_lanes: "in_lanes q \<Longrightarrow> in_lanes (put x q)"
proof -
  assume q: "in_lanes q"
  have "class_of y = c" if "y \<in> set (lane (put x q) c)" for y c
  proof (cases "class_of x = c")
    case True
    then show ?thesis using that q by (auto simp: in_lanes_def put_lane)
  next
    case False
    then show ?thesis using that q by (auto simp: in_lanes_def put_lane)
  qed
  then show ?thesis unfolding in_lanes_def by blast
qed

lemma get_in_lanes:
  assumes "in_lanes q" and "get q = Some (x, q')"
  shows "in_lanes q' \<and> lane q (class_of x) = x # lane q' (class_of x) \<and> (\<forall>c. c \<noteq> class_of x \<longrightarrow> lane q' c = lane q c)"
proof -
  obtain d where d: "lane q d = x # lane q' d" "\<forall>c. c \<noteq> d \<longrightarrow> lane q' c = lane q c" using get_lane [OF assms(2)] by blast
  have "x \<in> set (lane q d)" using d(1) by simp
  then have x: "class_of x = d" using assms(1) unfolding in_lanes_def by blast
  have sub: "set (lane q' c) \<subseteq> set (lane q c)" for c
  proof (cases "c = d")
    case True
    then show ?thesis using d(1) by auto
  qed (use d(2) in auto)
  have "class_of y = c" if "y \<in> set (lane q' c)" for y c
    using that sub [of c] assms(1) unfolding in_lanes_def by blast
  then have "in_lanes q'" unfolding in_lanes_def by blast
  with d x show ?thesis by blast
qed

text \<open>Every class is served first in, first out, and nothing is lost or doubled.\<close>

lemma lanes_fifo:
  assumes "in_lanes q" and "queue_run put get ops q = (served, t)"
  shows "in_lanes t \<and> filter (\<lambda>x. class_of x = c) served @ lane t c = lane q c @ filter (\<lambda>x. class_of x = c) (puts_of ops)"
  using assms
proof (induction ops arbitrary: q served)
  case Nil
  then show ?case by simp
next
  case (Cons op ops)
  show ?case
  proof (cases op)
    case (QPut x)
    with Cons.IH [OF put_in_lanes [OF Cons.prems(1)]] Cons.prems(2) show ?thesis by (auto simp: put_lane)
  next
    case QGet
    show ?thesis
    proof (cases "get q")
      case None
      then show ?thesis using QGet Cons.IH [OF Cons.prems(1)] Cons.prems(2) by simp
    next
      case (Some r)
      obtain x q' where r: "r = (x, q')" by force
      obtain xs where xs: "queue_run put get ops q' = (xs, t)" "served = x # xs"
        using Cons.prems(2) QGet Some r by (auto split: prod.splits)
      have g: "in_lanes q'" "lane q (class_of x) = x # lane q' (class_of x)" "c \<noteq> class_of x \<Longrightarrow> lane q' c = lane q c"
        using get_in_lanes [OF Cons.prems(1)] Some r by blast+
      show ?thesis using Cons.IH [OF g(1) xs(1)] g(2,3) xs(2) QGet by (cases "class_of x = c") auto
    qed
  qed
qed

lemma lanes_fifo_empty:
  assumes "\<And>c. lane q c = []" and "queue_run put get ops q = (served, t)"
  shows "filter (\<lambda>x. class_of x = c) served @ lane t c = filter (\<lambda>x. class_of x = c) (puts_of ops)"
proof -
  have "in_lanes q" by (simp add: in_lanes_def assms(1))
  from lanes_fifo [OF this assms(2), of c] show ?thesis by (simp add: assms(1))
qed

end

end
