(* ===== verification/SearchQueueProps.thy ===== *)
theory SearchQueueProps
  imports SearchQueue
begin

text \<open>
  The properties of the search queue: it serves every class in order and loses nothing, operator and recovered work
  wait a bounded number of turns, and routine work can wait for ever behind the two.
\<close>

section \<open>One turn\<close>

lemma choose_lane_nonempty: "choose_lane burst q = Some (c, i, n) \<Longrightarrow> fq_lanes q c \<noteq> []"
  by (auto simp: choose_lane_def Let_def split: if_splits)

lemma fq_put_lane: "fq_lanes (fq_put x q) c = fq_lanes q c @ (if queue_class x = c then [x] else [])"
  by (auto simp: fq_put_def Let_def)

lemma fq_put_streaks [simp]:
  "fq_interactive (fq_put x q) = fq_interactive q" "fq_non_recovery (fq_put x q) = fq_non_recovery q"
  by (simp_all add: fq_put_def Let_def)

lemma get_cases:
  assumes "fq_get burst q = Some (x, q')"
  obtains c where "choose_lane burst q = Some (c, fq_interactive q', fq_non_recovery q')" "fq_lanes q c = x # fq_lanes q' c"
    "\<And>d. d \<noteq> c \<Longrightarrow> fq_lanes q' d = fq_lanes q d"
proof -
  obtain c i n where c: "choose_lane burst q = Some (c, i, n)" "(x, q') = popleft c (q\<lparr>fq_interactive := i, fq_non_recovery := n\<rparr>)"
    using assms by (auto simp: fq_get_def split: option.splits)
  from c(2) have x: "x = hd (fq_lanes q c)" and q': "fq_lanes q' = (fq_lanes q)(c := tl (fq_lanes q c))" "fq_interactive q' = i"
      "fq_non_recovery q' = n" by (simp_all add: popleft_def)
  show ?thesis
  proof (rule that [of c])
    show "choose_lane burst q = Some (c, fq_interactive q', fq_non_recovery q')" using c(1) q' by simp
    show "fq_lanes q c = x # fq_lanes q' c" using choose_lane_nonempty [OF c(1)] x q'(1) by simp
  qed (use q'(1) in simp)
qed

interpretation fair: lane_queue fq_put "fq_get burst" fq_lanes queue_class for burst
proof unfold_locales
  show "fq_lanes (fq_put x q) c = fq_lanes q c @ (if queue_class x = c then [x] else [])" for x q c by (rule fq_put_lane)
next
  fix q x q'
  assume "fq_get burst q = Some (x, q')"
  then show "\<exists>d. fq_lanes q d = x # fq_lanes q' d \<and> (\<forall>c. c \<noteq> d \<longrightarrow> fq_lanes q' c = fq_lanes q c)"
    by (rule get_cases) blast
qed

text \<open>C18: The search queue keeps its promises of order: over every history of puts and gets, what was served of a
  priority class followed by what still waits in it is exactly what was put of it, in that order; nothing is lost,
  doubled or overtaken within its class.\<close>

theorem every_class_is_fifo:
  "filter (\<lambda>x. queue_class x = c) (fst (queue_run fq_put (fq_get burst) ops empty_queue))
     @ fq_lanes (snd (queue_run fq_put (fq_get burst) ops empty_queue)) c = filter (\<lambda>x. queue_class x = c) (puts_of ops)"
  by (rule fair.lanes_fifo_empty) (simp_all add: empty_queue_def)

lemma get_waits_only_when_empty: "fq_get burst q = None \<longleftrightarrow> queue_size q = 0"
  by (auto simp: fq_get_def choose_lane_def Let_def queue_size_def split: option.splits if_splits)

section \<open>Bounded waiting\<close>

text \<open>The head of a lane is served after at most \<open>m\<close> further turns when every turn that serves another lane uses one up
  and no put gives one back.\<close>

lemma served_within:
  assumes turn: "\<And>q x q'. I q \<Longrightarrow> fq_lanes q c \<noteq> [] \<Longrightarrow> fq_get burst q = Some (x, q')
      \<Longrightarrow> (fq_lanes q c = x # fq_lanes q' c) \<or> (I q' \<and> fq_lanes q' c = fq_lanes q c \<and> Suc (m q') \<le> m q)"
    and puts: "\<And>q x. I q \<Longrightarrow> P x \<Longrightarrow> I (fq_put x q) \<and> m (fq_put x q) \<le> m q"
    and start: "I q" "fq_lanes q c \<noteq> []" "\<forall>x \<in> set (puts_of ops). P x" "m q < gets_of ops"
  shows "hd (fq_lanes q c) \<in> set (fst (queue_run fq_put (fq_get burst) ops q))"
  using start
proof (induction ops arbitrary: q)
  case (Cons op ops)
  show ?case
  proof (cases op)
    case (QPut x)
    have "I (fq_put x q)" "m (fq_put x q) < gets_of ops" using puts [OF Cons.prems(1), of x] Cons.prems(3,4) QPut by auto
    moreover have "fq_lanes (fq_put x q) c \<noteq> []" "hd (fq_lanes (fq_put x q) c) = hd (fq_lanes q c)"
      using Cons.prems(2) by (simp_all add: fq_put_lane)
    ultimately show ?thesis using Cons.IH [of "fq_put x q"] Cons.prems(3) QPut by simp
  next
    case QGet
    have "queue_size q \<noteq> 0" using Cons.prems(2) by (cases c) (simp_all add: queue_size_def)
    then obtain x q' where g: "fq_get burst q = Some (x, q')" using get_waits_only_when_empty [of burst q] by fastforce
    have sv: "fst (queue_run fq_put (fq_get burst) (op # ops) q) = x # fst (queue_run fq_put (fq_get burst) ops q')"
      using QGet g by (simp split: prod.splits)
    from turn [OF Cons.prems(1,2) g] show ?thesis
    proof
      assume "fq_lanes q c = x # fq_lanes q' c"
      then show ?thesis unfolding sv by simp
    next
      assume r: "I q' \<and> fq_lanes q' c = fq_lanes q c \<and> Suc (m q') \<le> m q"
      then have "hd (fq_lanes q' c) \<in> set (fst (queue_run fq_put (fq_get burst) ops q'))"
        using Cons.IH [of q'] Cons.prems QGet by simp
      then show ?thesis unfolding sv using r by simp
    qed
  qed
qed simp

definition recovery_wait :: "nat \<Rightarrow> fair_queue \<Rightarrow> nat" where
  "recovery_wait burst q = burst - fq_non_recovery q"

definition interactive_wait :: "nat \<Rightarrow> fair_queue \<Rightarrow> nat" where
  "interactive_wait burst q = (if fq_interactive q < burst then (if fq_non_recovery q < burst then 0 else 1) else 2)"

definition no_exit :: "fair_queue \<Rightarrow> bool" where
  "no_exit q \<longleftrightarrow> fq_lanes q QControl = []"

lemma no_exit_put: "no_exit q \<Longrightarrow> queue_class x \<noteq> QControl \<Longrightarrow> no_exit (fq_put x q)"
  by (simp add: no_exit_def fq_put_lane)

lemma recovery_turn:
  assumes "no_exit q" and "fq_lanes q QRecovery \<noteq> []" and "fq_get burst q = Some (x, q')"
  shows "fq_lanes q QRecovery = x # fq_lanes q' QRecovery
    \<or> (no_exit q' \<and> fq_lanes q' QRecovery = fq_lanes q QRecovery \<and> Suc (recovery_wait burst q') \<le> recovery_wait burst q)"
proof (rule get_cases [OF assms(3)])
  fix c
  assume c: "choose_lane burst q = Some (c, fq_interactive q', fq_non_recovery q')" "fq_lanes q c = x # fq_lanes q' c"
    "\<And>d. d \<noteq> c \<Longrightarrow> fq_lanes q' d = fq_lanes q d"
  show ?thesis
  proof (cases "c = QRecovery")
    case False
    then have "c \<noteq> QControl" "fq_non_recovery q < burst" "fq_non_recovery q' = Suc (fq_non_recovery q)"
      using c(1) assms(1,2) by (auto simp: choose_lane_def Let_def no_exit_def split: if_splits)
    moreover have "no_exit q'" using assms(1) c(3) [of QControl] \<open>c \<noteq> QControl\<close> by (simp add: no_exit_def)
    ultimately show ?thesis using c(3) [of QRecovery] False by (simp add: recovery_wait_def)
  qed (use c(2) in simp)
qed

lemma interactive_turn:
  assumes "0 < burst" and "no_exit q" and "fq_lanes q QInteractive \<noteq> []" and "fq_get burst q = Some (x, q')"
  shows "fq_lanes q QInteractive = x # fq_lanes q' QInteractive
    \<or> (no_exit q' \<and> fq_lanes q' QInteractive = fq_lanes q QInteractive \<and> Suc (interactive_wait burst q') \<le> interactive_wait burst q)"
proof (rule get_cases [OF assms(4)])
  fix c
  assume c: "choose_lane burst q = Some (c, fq_interactive q', fq_non_recovery q')" "fq_lanes q c = x # fq_lanes q' c"
    "\<And>d. d \<noteq> c \<Longrightarrow> fq_lanes q' d = fq_lanes q d"
  show ?thesis
  proof (cases "c = QInteractive")
    case False
    then have "c \<noteq> QControl" "Suc (interactive_wait burst q') \<le> interactive_wait burst q"
      using c(1) assms(1-3) by (auto simp: choose_lane_def Let_def no_exit_def interactive_wait_def split: if_splits)
    moreover have "no_exit q'" using assms(2) c(3) [of QControl] \<open>c \<noteq> QControl\<close> by (simp add: no_exit_def)
    ultimately show ?thesis using c(3) [of QInteractive] False by simp
  qed (use c(2) in simp)
qed


section \<open>Routine work\<close>

definition streaks_ordered :: "fair_queue \<Rightarrow> bool" where
  "streaks_ordered q \<longleftrightarrow> fq_interactive q \<le> fq_non_recovery q"

lemma get_streaks:
  assumes "streaks_ordered q" and "fq_get burst q = Some (x, q')"
  shows "streaks_ordered q'"
  by (rule get_cases [OF assms(2)]) (use assms(1) in \<open>auto simp: streaks_ordered_def choose_lane_def Let_def split: if_splits\<close>)

lemma run_streaks: "streaks_ordered q \<Longrightarrow> streaks_ordered (snd (queue_run fq_put (fq_get burst) ops q))"
proof (induction fq_put "fq_get burst" ops q rule: queue_run.induct)
  case (2 x ops q)
  then show ?case by (simp add: streaks_ordered_def)
next
  case (3 ops q)
  then show ?case using get_streaks by (auto split: option.splits prod.splits)
qed simp

text \<open>While both other lanes have work, the routine lane is not served.\<close>

lemma routine_passed_over:
  assumes "streaks_ordered q" and "no_exit q" and "fq_lanes q QInteractive \<noteq> []" and "fq_lanes q QRecovery \<noteq> []"
  obtains x q' where "fq_get burst q = Some (x, q')" "fq_lanes q' QRoutine = fq_lanes q QRoutine"
    "x \<in> set (fq_lanes q QInteractive @ fq_lanes q QRecovery)" "no_exit q'" "streaks_ordered q'"
proof -
  have "fq_get burst q \<noteq> None" using get_waits_only_when_empty [of burst q] assms(3) by (simp add: queue_size_def)
  then obtain x q' where g: "fq_get burst q = Some (x, q')" by auto
  show ?thesis
  proof (rule get_cases [OF g])
    fix c
    assume c: "choose_lane burst q = Some (c, fq_interactive q', fq_non_recovery q')" "fq_lanes q c = x # fq_lanes q' c"
      "\<And>d. d \<noteq> c \<Longrightarrow> fq_lanes q' d = fq_lanes q d"
    have "c = QInteractive \<or> c = QRecovery"
      using c(1) assms by (auto simp: choose_lane_def Let_def no_exit_def streaks_ordered_def split: if_splits)
    then have "x \<in> set (fq_lanes q QInteractive @ fq_lanes q QRecovery)" "fq_lanes q' QRoutine = fq_lanes q QRoutine" "no_exit q'"
      using c(2,3) assms(2) by (auto simp: no_exit_def)
    then show ?thesis using that [OF g] get_streaks [OF assms(1) g] by blast
  qed
qed

definition busy_rounds :: "(pval \<times> pval) list \<Rightarrow> pval qop list" where
  "busy_rounds irs = concat (map (\<lambda>(i, r). [QPut i, QPut r, QGet]) irs)"

lemma busy_rounds_starve:
  assumes "\<forall>(i, r) \<in> set irs. queue_class i = QInteractive \<and> queue_class r = QRecovery"
    and "streaks_ordered q" and "no_exit q" and "fair.in_lanes q"
  shows "fq_lanes (snd (queue_run fq_put (fq_get burst) (busy_rounds irs) q)) QRoutine = fq_lanes q QRoutine
    \<and> (\<forall>x \<in> set (fst (queue_run fq_put (fq_get burst) (busy_rounds irs) q)). queue_class x \<noteq> QRoutine)
    \<and> length (fst (queue_run fq_put (fq_get burst) (busy_rounds irs) q)) = length irs"
  using assms
proof (induction irs arbitrary: q)
  case (Cons ir irs)
  obtain i r where ir: "ir = (i, r)" "queue_class i = QInteractive" "queue_class r = QRecovery" using Cons.prems(1) by (cases ir) auto
  let ?q = "fq_put r (fq_put i q)"
  have lanes: "fq_lanes ?q QInteractive \<noteq> []" "fq_lanes ?q QRecovery \<noteq> []" "fq_lanes ?q QRoutine = fq_lanes q QRoutine"
    using ir by (simp_all add: fq_put_lane)
  have ok: "streaks_ordered ?q" "no_exit ?q" "fair.in_lanes ?q"
    using Cons.prems(2-4) ir fair.put_in_lanes by (simp_all add: streaks_ordered_def no_exit_def fq_put_lane)
  obtain x q' where g: "fq_get burst ?q = Some (x, q')" "fq_lanes q' QRoutine = fq_lanes ?q QRoutine"
    "x \<in> set (fq_lanes ?q QInteractive @ fq_lanes ?q QRecovery)" "no_exit q'" "streaks_ordered q'"
    by (rule routine_passed_over [OF ok(1,2) lanes(1,2)])
  have "queue_class x \<noteq> QRoutine" using g(3) ok(3) by (auto simp: fair.in_lanes_def)
  moreover have "fair.in_lanes q'" using fair.get_in_lanes [OF ok(3) g(1)] by blast
  from Cons.IH [OF _ g(5,4) this] Cons.prems(1) have "fq_lanes (snd (queue_run fq_put (fq_get burst) (busy_rounds irs) q')) QRoutine = fq_lanes q' QRoutine
    \<and> (\<forall>x \<in> set (fst (queue_run fq_put (fq_get burst) (busy_rounds irs) q')). queue_class x \<noteq> QRoutine)
    \<and> length (fst (queue_run fq_put (fq_get burst) (busy_rounds irs) q')) = length irs" by simp
  ultimately show ?case using ir(1) g(1,2) lanes(3) by (auto simp: busy_rounds_def split: prod.splits)
qed (simp add: busy_rounds_def)

text \<open>Routine searches can starve: from every state the queue can be in, as long as an operator's search and a
  recovered one are put before every turn, no turn serves a routine item, however many turns there are, and the
  routine lane stays as it was.\<close>

theorem routine_starves:
  assumes "q = snd (queue_run fq_put (fq_get burst) ops empty_queue)" and "no_exit q"
    and "\<forall>(i, r) \<in> set irs. queue_class i = QInteractive \<and> queue_class r = QRecovery"
  shows "fq_lanes (snd (queue_run fq_put (fq_get burst) (busy_rounds irs) q)) QRoutine = fq_lanes q QRoutine
    \<and> (\<forall>x \<in> set (fst (queue_run fq_put (fq_get burst) (busy_rounds irs) q)). queue_class x \<noteq> QRoutine)
    \<and> length (fst (queue_run fq_put (fq_get burst) (busy_rounds irs) q)) = length irs"
proof (rule busy_rounds_starve [OF assms(3) _ assms(2)])
  show "streaks_ordered q" unfolding assms(1) by (rule run_streaks) (simp add: streaks_ordered_def empty_queue_def)
  have "fair.in_lanes empty_queue" by (simp add: fair.in_lanes_def empty_queue_def)
  then show "fair.in_lanes q"
    unfolding assms(1) using fair.lanes_fifo [OF _ prod.collapse [symmetric]] by blast
qed

section \<open>Instances\<close>

definition demo_search :: "string \<Rightarrow> string \<Rightarrow> pval" where
  "demo_search i p = VDict [(''issueid'', VStr i), (''queue_priority'', VStr p)]"

lemma demo_search_class:
  "queue_class (demo_search i ''interactive'') = QInteractive" "queue_class (demo_search i ''recovery'') = QRecovery"
  "queue_class (demo_search i ''routine'') = QRoutine"
  by (simp_all add: queue_class_def demo_search_def pv_get_def dict_get_def pv_or_def Let_def) (code_simp)+


theorem routine_starves_witness:
  "let q = fq_put (demo_search ''9'' ''routine'') empty_queue in
   fq_lanes (snd (queue_run fq_put (fq_get 3) (busy_rounds (replicate 50 (demo_search ''1'' ''interactive'', demo_search ''2'' ''recovery''))) q)) QRoutine
     = [demo_search ''9'' ''routine'']"
proof -
  let ?q = "fq_put (demo_search ''9'' ''routine'') empty_queue"
  have "?q = snd (queue_run fq_put (fq_get 3) [QPut (demo_search ''9'' ''routine'')] empty_queue)" by simp
  moreover have "no_exit ?q" by (simp add: no_exit_def fq_put_lane demo_search_class empty_queue_def)
  ultimately have "fq_lanes (snd (queue_run fq_put (fq_get 3) (busy_rounds (replicate 50 (demo_search ''1'' ''interactive'', demo_search ''2'' ''recovery''))) ?q)) QRoutine
      = fq_lanes ?q QRoutine"
    by (rule routine_starves [THEN conjunct1]) (simp add: demo_search_class)
  then show ?thesis by (simp add: Let_def fq_put_lane demo_search_class empty_queue_def)
qed

end
