(* ===== verification/SearchCommands.thy ===== *)
theory SearchCommands
  imports SearchQueue PostProcess Policy
begin

text \<open>
  \<open>comicarr/app/search/commands.py\<close>: the commands of the search worker, rebuilt from untrusted mappings, and their way
  from the durable run ledger through the maintenance fence into the in-memory queue.  The state is the ledger, the
  maintenance tables and the queue; a step that raises keeps what it committed before.  \<open>json.loads\<close> of a stored
  payload, log redaction, the clock and fresh ids are parameters.
\<close>

section \<open>Fields\<close>

text \<open>\<open>{str(key).lower(): value ...}\<close>\<close>

definition lowered_keys :: "payload \<Rightarrow> payload" where
  "lowered_keys raw = foldl (\<lambda>d (k, v). dict_set (py_lower k) v d) [] raw"

definition field_text :: "pval \<Rightarrow> string option" where
  "field_text v = (if v = VNone \<or> py_strip (py_str v) = [] then None else Some (py_strip (py_str v)))"

definition field_required :: "payload \<Rightarrow> string \<Rightarrow> string + string" where
  "field_required d k =
     (case field_text (pv_get d k) of None \<Rightarrow> Inl (''Missing required search field: '' @ k) | Some t \<Rightarrow> Inr t)"

definition field_bool :: "pval \<Rightarrow> string \<Rightarrow> string + bool" where
  "field_bool v k =
     (case v of
        VStr s \<Rightarrow>
          if py_lower (py_strip s) \<in> {''1'', ''true'', ''yes'', ''on''} then Inr True
          else if py_lower (py_strip s) \<in> {[], ''0'', ''false'', ''no'', ''off'', ''none''} then Inr False
          else Inl (''Invalid boolean search field: '' @ k)
      | _ \<Rightarrow> Inr (truthy v))"

definition entity_type :: "pval \<Rightarrow> string + string" where
  "entity_type v =
     (let t = py_lower (py_strip (py_str (pv_or v (VStr ''issue'')))) in
      if t \<in> {''issue'', ''annual'', ''story_arc''} then Inr t else Inl ''Invalid search entity type'')"

definition queue_priority :: "pval \<Rightarrow> string + string" where
  "queue_priority v =
     (let p = py_lower (py_strip (py_str (pv_or v (VStr ''routine'')))) in
      if p \<in> {''interactive'', ''routine'', ''recovery''} then Inr p else Inl ''Invalid search queue priority'')"

definition INTERACTIVE_TRIGGERS :: "string list" where
  "INTERACTIVE_TRIGGERS = [''manual_wanted_scan'', ''search_all_missing'', ''issue_wanted'', ''storyarc_wanted'',
     ''band_retry'', ''band_search_again'', ''issue_retry'']"

definition queue_priority_for_trigger :: "string \<Rightarrow> bool \<Rightarrow> string" where
  "queue_priority_for_trigger trigger manual =
     (if manual \<or> py_lower (py_strip trigger) \<in> set INTERACTIVE_TRIGGERS then ''interactive'' else ''routine'')"

section \<open>The command\<close>

record search_command =
  cm_issueid :: string
  cm_comicid :: "string option"
  cm_manual :: bool
  cm_run :: "string option"
  cm_comicname :: "string option"
  cm_seriesyear :: "string option"
  cm_issuenumber :: "string option"
  cm_booktype :: "string option"
  cm_etype :: string
  cm_priority :: string

definition command_entity :: "payload \<Rightarrow> string + string" where
  "command_entity d =
     (if truthy (pv_get d ''entity_type'') then entity_type (pv_get d ''entity_type'')
      else case field_bool (pv_get d ''annual'') ''annual'' of Inl e \<Rightarrow> Inl e
      | Inr a \<Rightarrow> entity_type (VStr (if a then ''annual'' else ''issue'')))"

text \<open>\<open>SearchCommand.from_mapping\<close>; \<open>Inl\<close> is the message of the \<open>SearchCommandError\<close>.\<close>

definition command_from :: "pval \<Rightarrow> string + search_command" where
  "command_from raw =
     (case raw of
        VDict r \<Rightarrow>
          (let d = lowered_keys r in
           case field_required d ''issueid'' of Inl e \<Rightarrow> Inl e
           | Inr issueid \<Rightarrow>
           case field_bool (pv_get d ''manual'') ''manual'' of Inl e \<Rightarrow> Inl e
           | Inr manual \<Rightarrow>
           case command_entity d of Inl e \<Rightarrow> Inl e
           | Inr et \<Rightarrow>
           case queue_priority (pv_get d ''queue_priority'') of Inl e \<Rightarrow> Inl e
           | Inr p \<Rightarrow>
             Inr \<lparr>cm_issueid = issueid, cm_comicid = field_text (pv_get d ''comicid''), cm_manual = manual,
                  cm_run = field_text (pv_get d ''run_id''), cm_comicname = field_text (pv_get d ''comicname''),
                  cm_seriesyear = field_text (pv_get d ''seriesyear''),
                  cm_issuenumber = field_text (pv_or (pv_get d ''issuenumber'') (pv_get d ''issue_number'')),
                  cm_booktype = field_text (pv_get d ''booktype''), cm_etype = et, cm_priority = p\<rparr>)
      | _ \<Rightarrow> Inl ''Search command must be an object'')"

definition command_mapping :: "search_command \<Rightarrow> pval" where
  "command_mapping c =
     VDict [(''issueid'', VStr (cm_issueid c)), (''comicid'', opt_pv (cm_comicid c)), (''manual'', VBool (cm_manual c)),
            (''run_id'', opt_pv (cm_run c)), (''comicname'', opt_pv (cm_comicname c)),
            (''seriesyear'', opt_pv (cm_seriesyear c)), (''issuenumber'', opt_pv (cm_issuenumber c)),
            (''booktype'', opt_pv (cm_booktype c)), (''entity_type'', VStr (cm_etype c)),
            (''queue_priority'', VStr (cm_priority c))]"

definition persisted_payload :: "search_command \<Rightarrow> payload" where
  "persisted_payload c =
     [(''issueid'', VStr (cm_issueid c)), (''comicid'', opt_pv (cm_comicid c)), (''manual'', VBool (cm_manual c)),
      (''comicname'', opt_pv (cm_comicname c)), (''seriesyear'', opt_pv (cm_seriesyear c)),
      (''issue_number'', opt_pv (cm_issuenumber c)), (''entity_type'', VStr (cm_etype c))]"

section \<open>Candidates\<close>

definition series_present :: "payload \<Rightarrow> bool" where
  "series_present d =
     (if pv_get d ''seriesoptional'' \<in> {VBool True, VInt 1, VStr ''1'', VStr ''true'', VStr ''True''} then True
      else if has_key d ''seriescomicid'' then \<not> pv_empty (pv_get d ''seriescomicid'')
      else \<not> pv_empty (pv_get d ''seriesstatus''))"

definition series_status :: "payload \<Rightarrow> string option" where
  "series_status d =
     (if truthy (pv_get d ''seriesstatus'') then Some (py_lower (py_strip (py_str (pv_get d ''seriesstatus'')))) else None)"

definition evaluate_search_candidate ::
  "payload \<Rightarrow> date_input \<Rightarrow> date_input \<Rightarrow> date_input \<Rightarrow> int \<Rightarrow> bool \<times> string option" where
  "evaluate_search_candidate candidate release digital issue today =
     (let d = lowered_keys candidate; p = project_legacy_state (pv_text (pv_get d ''acquisitionintent'')) (pv_text (pv_get d ''legacystatus''));
          st = series_status d; here = series_present d;
          r = evaluate_eligibility
                \<lparr>ei_series_active = (here \<and> (case st of None \<Rightarrow> True | Some s \<Rightarrow> s \<in> {''active'', ''loading'', ''paused''})),
                 ei_intent = sp_intent p, ei_fulfillment = sp_fulfillment p, ei_release_date = release,
                 ei_digital_date = digital, ei_issue_date = issue, ei_paused = (here \<and> st = Some ''paused'')\<rparr> today
      in (ed_eligible r, if ed_eligible r then None else Some (ed_reason r)))"

section \<open>The world of a producer\<close>

record cworld =
  cw_ledger :: rledger
  cw_maint :: mstate
  cw_queue :: fair_queue

text \<open>\<open>ce_fresh n\<close> is the lease id drawn when \<open>n\<close> leases have been issued; \<open>ce_loads\<close> decodes a stored payload.\<close>

record cenv =
  ce_operator :: bool
  ce_fresh :: "nat \<Rightarrow> string"
  ce_loads :: "string \<Rightarrow> payload"
  ce_redact :: "string \<Rightarrow> string"
  ce_now :: string

text \<open>The value or the class name of the exception, and the state.\<close>

type_synonym 'a cact = "(string + 'a) \<times> cworld"

fun lerror_name :: "lerror \<Rightarrow> string" where
  "lerror_name LValueError = ''ValueError''"
| "lerror_name LKeyError = ''KeyError''"

text \<open>One transaction on the ledger, then the rest.\<close>

definition on_ledger :: "(rledger \<Rightarrow> lerror + rledger) \<Rightarrow> (cworld \<Rightarrow> 'a cact) \<Rightarrow> cworld \<Rightarrow> 'a cact" where
  "on_ledger f k w =
     (case f (cw_ledger w) of Inl e \<Rightarrow> (Inl (lerror_name e), w) | Inr t \<Rightarrow> k (w\<lparr>cw_ledger := t\<rparr>))"

text \<open>\<open>_put_with_maintenance_lease\<close>: the lease is given back on every way out.\<close>

definition put_with_lease :: "cenv \<Rightarrow> search_command \<Rightarrow> cworld \<Rightarrow> unit cact" where
  "put_with_lease env c w =
     (let i = ce_fresh env (length (ms_leases (cw_maint w))) in
      case acquire_lease (ce_operator env) (cw_maint w) ''search-producer'' ''search_queue_handoff'' (Some (cm_etype c))
             (Some (cm_issueid c)) i (ce_now env) of
        Inl e \<Rightarrow> (Inl (merror_name e), w)
      | Inr (l, m1) \<Rightarrow>
          (let m2 = snd (release_lease m1 (ls_id l) (ce_now env)) in
           if \<not> assert_lease_current m1 l (ce_now env) then (Inl ''MaintenanceBlocked'', w\<lparr>cw_maint := m2\<rparr>)
           else (Inr (), w\<lparr>cw_maint := m2, cw_queue := fq_put (command_mapping c) (cw_queue w)\<rparr>)))"

definition item_dispatch :: "cenv \<Rightarrow> string \<Rightarrow> string \<Rightarrow> string \<Rightarrow> dispatch_state \<Rightarrow> string option \<Rightarrow> rledger \<Rightarrow> lerror + rledger" where
  "item_dispatch env rid et eid st reason s = record_item_dispatch id s rid et eid st reason (ce_now env)"

section \<open>Enqueueing one command\<close>

text \<open>The hand-off of an item that is in the ledger, with its outcome noted on the item and the run.\<close>

definition dispatch_accepted :: "cenv \<Rightarrow> string \<Rightarrow> search_command \<Rightarrow> cworld \<Rightarrow> search_command cact" where
  "dispatch_accepted env rid c w =
     (case put_with_lease env c w of
        (Inl e, w1) \<Rightarrow>
          on_ledger (item_dispatch env rid (cm_etype c) (cm_issueid c) DError (Some e))
            (on_ledger (\<lambda>s. record_dispatch s rid DError (ce_now env)) (\<lambda>w2. (Inl e, w2))) w1
      | (Inr _, w1) \<Rightarrow>
          on_ledger (item_dispatch env rid (cm_etype c) (cm_issueid c) DAccepted None)
            (on_ledger (\<lambda>s. record_dispatch s rid DAccepted (ce_now env)) (\<lambda>w2. (Inr c, w2))) w1)"

definition text_or :: "string option \<Rightarrow> string \<Rightarrow> string" where
  "text_or a b = (if present a then the a else b)"

definition enqueue_search_command ::
  "cenv \<Rightarrow> string \<Rightarrow> pval \<Rightarrow> string \<Rightarrow> string option \<Rightarrow> string option \<Rightarrow> string option \<Rightarrow> cworld \<Rightarrow> search_command cact" where
  "enqueue_search_command env uuid raw trigger run_id scope_type scope_id w =
     (case command_from raw of
        Inl e \<Rightarrow> (Inl ''SearchCommandError'', w)
      | Inr c0 \<Rightarrow>
          (let given = field_text (opt_pv run_id);
               rid = (case given of Some r \<Rightarrow> r | None \<Rightarrow> text_or (cm_run c0) uuid);
               c = c0\<lparr>cm_priority := queue_priority_for_trigger trigger (cm_manual c0), cm_run := Some rid\<rparr>
           in on_ledger (\<lambda>s. create_run s rid ''search'' trigger (Some (text_or scope_type ''issue''))
                               (Some (text_or scope_id (cm_issueid c))) (ce_now env))
                (on_ledger (\<lambda>s. accept_item s rid (cm_etype c) (cm_issueid c) (VDict (persisted_payload c)) None
                                  (cm_priority c) (ce_now env))
                   (dispatch_accepted env rid c)) w))"

definition enqueue_failed_download_retry ::
  "cenv \<Rightarrow> string \<Rightarrow> pval \<Rightarrow> string option \<Rightarrow> cworld \<Rightarrow> search_command cact" where
  "enqueue_failed_download_retry env uuid failure run_id w =
     (case failure of
        VDict r \<Rightarrow>
          (let d = lowered_keys r;
               annchk = (if has_key d ''annchk'' then py_str (pv_get d ''annchk'') else ''no'');
               et = (if py_lower (py_strip annchk) \<noteq> ''no'' then ''annual'' else ''issue'')
           in enqueue_search_command env uuid
                (VDict [(''issueid'', pv_get d ''issueid''), (''comicid'', pv_get d ''comicid''),
                        (''comicname'', pv_get d ''comicname''), (''issuenumber'', pv_get d ''issuenumber''),
                        (''manual'', VBool True), (''entity_type'', VStr et)])
                ''failed_download_retry'' run_id (Some et)
                (if truthy (pv_get d ''issueid'') then Some (py_str (pv_get d ''issueid'')) else None) w)
      | _ \<Rightarrow> (Inl ''SearchCommandError'', w))"

section \<open>Dispatching what the ledger holds\<close>

text \<open>The command of a stored item: the payload with the identity of the row on top.\<close>

definition stored_mapping :: "cenv \<Rightarrow> ritem \<Rightarrow> pval" where
  "stored_mapping env i =
     VDict (dict_set ''entity_type'' (VStr (ri_etype i)) (dict_set ''run_id'' (VStr (ri_run i))
       (case ri_payload i of None \<Rightarrow> [] | Some t \<Rightarrow> if t = [] then [] else ce_loads env t)))"

definition quarantine_item_step :: "cenv \<Rightarrow> ritem \<Rightarrow> string \<Rightarrow> rledger \<Rightarrow> lerror + rledger" where
  "quarantine_item_step env i msg s =
     record_outcome (ce_redact env) id s (ri_run i) (ri_etype i) (ri_eid i) IQuarantined (Some msg) (ce_now env)"

text \<open>One claimed item: its count of dispatched items and the errors it adds.\<close>

definition dispatch_claimed :: "cenv \<Rightarrow> string \<Rightarrow> ritem \<Rightarrow> cworld \<Rightarrow> (nat \<times> string list) cact" where
  "dispatch_claimed env trigger i w =
     (case command_from (stored_mapping env i) of
        Inl msg \<Rightarrow> on_ledger (quarantine_item_step env i msg) (\<lambda>w1. (Inr (0, [''SearchCommandError'']), w1)) w
      | Inr c0 \<Rightarrow>
          (let c = c0\<lparr>cm_priority := queue_priority_for_trigger trigger (cm_manual c0)\<rparr> in
           on_ledger (\<lambda>s. set_item_queue_priority id s (ri_run i) (ri_etype i) (ri_eid i) (cm_priority c) (ce_now env))
             (\<lambda>w1. case put_with_lease env c w1 of
                (Inl e, w2) \<Rightarrow>
                  on_ledger (item_dispatch env (ri_run i) (ri_etype i) (ri_eid i) DError (Some e)) (\<lambda>w3. (Inr (0, [e]), w3)) w2
              | (Inr _, w2) \<Rightarrow>
                  on_ledger (item_dispatch env (ri_run i) (ri_etype i) (ri_eid i) DAccepted None) (\<lambda>w3. (Inr (1, []), w3)) w2) w))"

definition dispatch_item :: "cenv \<Rightarrow> string \<Rightarrow> ritem \<Rightarrow> cworld \<Rightarrow> (nat \<times> string list) cact" where
  "dispatch_item env trigger i w =
     (case claim_item_dispatch id (cw_ledger w) (ri_run i) (ri_etype i) (ri_eid i) (ce_now env) of
        Inl e \<Rightarrow> (Inl (lerror_name e), w)
      | Inr (won, s) \<Rightarrow>
          if \<not> won then (Inr (0, []), w\<lparr>cw_ledger := s\<rparr>) else dispatch_claimed env trigger i (w\<lparr>cw_ledger := s\<rparr>))"

fun dispatch_items :: "cenv \<Rightarrow> string \<Rightarrow> ritem list \<Rightarrow> nat \<times> string list \<Rightarrow> cworld \<Rightarrow> (nat \<times> string list) cact" where
  "dispatch_items env trigger [] acc w = (Inr acc, w)"
| "dispatch_items env trigger (i # is) acc w =
     (case dispatch_item env trigger i w of
        (Inl e, w1) \<Rightarrow> (Inl e, w1)
      | (Inr (n, es), w1) \<Rightarrow> dispatch_items env trigger is (fst acc + n, snd acc @ es) w1)"

definition dispatch_pending_search_commands :: "cenv \<Rightarrow> string \<Rightarrow> cworld \<Rightarrow> (nat \<times> string list) cact" where
  "dispatch_pending_search_commands env rid w =
     (case get_run (cw_ledger w) rid of
        None \<Rightarrow> (Inl ''KeyError'', w)
      | Some r \<Rightarrow>
          (case list_pending_dispatch_items (cw_ledger w) rid of
             Inl e \<Rightarrow> (Inl (lerror_name e), w)
           | Inr items \<Rightarrow>
               (case dispatch_items env (rr_trigger r) items (0, []) w of
                  (Inl e, w1) \<Rightarrow> (Inl e, w1)
                | (Inr (n, es), w1) \<Rightarrow>
                    on_ledger (\<lambda>s. record_dispatch s rid (if es \<noteq> [] then DError else DAccepted) (ce_now env))
                      (\<lambda>w2. (Inr (n, es), w2)) w1)))"

section \<open>Replay after a restart\<close>

text \<open>One open item: whether it was replayed.  An exception of the hand-off ends the whole replay.\<close>

definition replay_claimed :: "cenv \<Rightarrow> ritem \<Rightarrow> cworld \<Rightarrow> bool cact" where
  "replay_claimed env i w =
     (case command_from (stored_mapping env i) of
        Inl msg \<Rightarrow> on_ledger (quarantine_item_step env i msg) (\<lambda>w1. (Inr False, w1)) w
      | Inr c0 \<Rightarrow>
          on_ledger (\<lambda>s. set_item_queue_priority id s (ri_run i) (ri_etype i) (ri_eid i) ''recovery'' (ce_now env))
            (on_ledger (\<lambda>s. if ri_state i = IRunning
                            then record_requeue (ce_redact env) id s (ri_run i) (ri_etype i) (ri_eid i)
                                   (Some ''worker restart'') None (ce_now env) else Inr s)
               (\<lambda>w1. case put_with_lease env (c0\<lparr>cm_priority := ''recovery''\<rparr>) w1 of
                  (Inl e, w2) \<Rightarrow> (Inl e, w2)
                | (Inr _, w2) \<Rightarrow>
                    on_ledger (item_dispatch env (ri_run i) (ri_etype i) (ri_eid i) DAccepted None)
                      (on_ledger (\<lambda>s. record_dispatch s (ri_run i) DAccepted (ce_now env)) (\<lambda>w3. (Inr True, w3))) w2)) w)"

definition replay_item :: "cenv \<Rightarrow> ritem \<Rightarrow> cworld \<Rightarrow> bool cact" where
  "replay_item env i w =
     (case claim_recovery (ce_redact env) (cw_ledger w) i (ce_now env) of
        Inl e \<Rightarrow> (Inl (lerror_name e), w)
      | Inr (claimed, s) \<Rightarrow>
          if \<not> claimed then (Inr False, w\<lparr>cw_ledger := s\<rparr>) else replay_claimed env i (w\<lparr>cw_ledger := s\<rparr>))"

fun replay_items :: "cenv \<Rightarrow> ritem list \<Rightarrow> nat \<Rightarrow> cworld \<Rightarrow> nat cact" where
  "replay_items env [] n w = (Inr n, w)"
| "replay_items env (i # is) n w =
     (case replay_item env i w of
        (Inl e, w1) \<Rightarrow> (Inl e, w1)
      | (Inr b, w1) \<Rightarrow> replay_items env is (n + (if b then 1 else 0)) w1)"

definition replay_search_obligations :: "cenv \<Rightarrow> cworld \<Rightarrow> nat cact" where
  "replay_search_obligations env w = replay_items env (list_recoverable_items (cw_ledger w) (Some ''search'')) 0 w"

end
