(* ===== verification/SearchCommandsProps.thy ===== *)
theory SearchCommandsProps
  imports SearchCommands SearchQueueProps RunLedgerProps MaintenanceProps DDLCommandProps
begin

text \<open>
  The properties of the search commands: what is written down is read back, a closed gate lets nothing into the queue,
  and one pass over the pending items of a run hands each of them over exactly once.
\<close>

section \<open>Reading a command back\<close>

lemma lowered_keys_id: "distinct (map fst raw) \<Longrightarrow> list_all (\<lambda>k. py_lower k = k) (map fst raw) \<Longrightarrow> lowered_keys raw = raw"
  using lower_keys_from [of "[]" raw] by (auto simp: lowered_keys_def list_all_iff)

lemma field_text_Some: "field_text v = Some t \<Longrightarrow> t \<noteq> [] \<and> py_strip t = t"
  by (auto simp: field_text_def split: if_splits)

lemma field_text_str: "t \<noteq> [] \<Longrightarrow> py_strip t = t \<Longrightarrow> field_text (VStr t) = Some t"
  by (simp add: field_text_def py_str_def)

lemma field_text_again: "field_text (opt_pv (field_text v)) = field_text v"
proof (cases "field_text v")
  case None
  then show ?thesis by (simp add: opt_pv_def field_text_def)
next
  case (Some t)
  then show ?thesis using field_text_str field_text_Some [OF Some] by (simp add: opt_pv_def)
qed

lemma issue_number_again: "field_text (pv_or (opt_pv (field_text v)) VNone) = field_text v"
proof (cases "field_text v")
  case (Some t)
  then show ?thesis using field_text_str field_text_Some [OF Some] by (simp add: opt_pv_def pv_or_def)
qed (simp add: opt_pv_def field_text_def pv_or_def)

lemma field_required_Inr: "field_required d k = Inr t \<Longrightarrow> t \<noteq> [] \<and> py_strip t = t"
  by (auto simp: field_required_def dest: field_text_Some split: option.splits)

lemma entity_type_Inr: "entity_type v = Inr t \<Longrightarrow> t \<in> {''issue'', ''annual'', ''story_arc''}"
  by (auto simp: entity_type_def Let_def split: if_splits)

lemma queue_priority_Inr: "queue_priority v = Inr t \<Longrightarrow> t \<in> {''interactive'', ''routine'', ''recovery''}"
  by (auto simp: queue_priority_def Let_def split: if_splits)

lemma entity_type_again: "t \<in> {''issue'', ''annual'', ''story_arc''} \<Longrightarrow> entity_type (VStr t) = Inr t"
  by (elim insertE emptyE) (hypsubst, code_simp)+

lemma queue_priority_again: "t \<in> {''interactive'', ''routine'', ''recovery''} \<Longrightarrow> queue_priority (VStr t) = Inr t"
  by (elim insertE emptyE) (hypsubst, code_simp)+

text \<open>A command that was parsed is in normal form.\<close>

definition command_ok :: "search_command \<Rightarrow> bool" where
  "command_ok c \<longleftrightarrow> cm_issueid c \<noteq> [] \<and> py_strip (cm_issueid c) = cm_issueid c
     \<and> (\<forall>t \<in> {cm_comicid c, cm_run c, cm_comicname c, cm_seriesyear c, cm_issuenumber c, cm_booktype c}. field_text (opt_pv t) = t)
     \<and> cm_etype c \<in> {''issue'', ''annual'', ''story_arc''} \<and> cm_priority c \<in> {''interactive'', ''routine'', ''recovery''}"

lemma command_entity_Inr: "command_entity d = Inr t \<Longrightarrow> t \<in> {''issue'', ''annual'', ''story_arc''}"
  by (auto simp: command_entity_def dest: entity_type_Inr split: if_splits sum.splits)

lemma command_from_ok:
  assumes "command_from raw = Inr c"
  shows "command_ok c"
proof -
  obtain d issueid manual et p where
    f: "field_required d ''issueid'' = Inr issueid" "command_entity d = Inr et" "queue_priority (pv_get d ''queue_priority'') = Inr p"
    and c: "c = \<lparr>cm_issueid = issueid, cm_comicid = field_text (pv_get d ''comicid''), cm_manual = manual,
       cm_run = field_text (pv_get d ''run_id''), cm_comicname = field_text (pv_get d ''comicname''),
       cm_seriesyear = field_text (pv_get d ''seriesyear''),
       cm_issuenumber = field_text (pv_or (pv_get d ''issuenumber'') (pv_get d ''issue_number'')),
       cm_booktype = field_text (pv_get d ''booktype''), cm_etype = et, cm_priority = p\<rparr>"
    using assms by (auto simp: command_from_def Let_def split: pval.splits sum.splits)
  show ?thesis
    using field_required_Inr [OF f(1)] command_entity_Inr [OF f(2)] queue_priority_Inr [OF f(3)]
    unfolding command_ok_def c by (simp add: field_text_again)
qed

lemma present_entity: "et \<in> {''issue'', ''annual'', ''story_arc''} \<Longrightarrow> pv_get d ''entity_type'' = VStr et \<Longrightarrow> command_entity d = Inr et"
  using entity_type_again by (auto simp: command_entity_def)

lemma issue_number_ok: "field_text (opt_pv t) = t \<Longrightarrow> field_text (pv_or (opt_pv t) VNone) = t"
  using issue_number_again [of "opt_pv t"] by simp

lemma mapping_fields:
  "lowered_keys [(''issueid'', a), (''comicid'', b), (''manual'', c), (''run_id'', d), (''comicname'', e), (''seriesyear'', f),
     (''issuenumber'', g), (''booktype'', h), (''entity_type'', i), (''queue_priority'', j)]
   = [(''issueid'', a), (''comicid'', b), (''manual'', c), (''run_id'', d), (''comicname'', e), (''seriesyear'', f),
     (''issuenumber'', g), (''booktype'', h), (''entity_type'', i), (''queue_priority'', j)]"
  by (rule lowered_keys_id) (simp_all, code_simp)

lemma field_bool_VBool [simp]: "field_bool (VBool b) k = Inr b"
  by (simp add: field_bool_def)

lemma command_ok_round_trip:
  assumes "command_ok c"
  shows "command_from (command_mapping c) = Inr c"
proof -
  note ok = assms [unfolded command_ok_def]
  let ?d = "[(''issueid'', VStr (cm_issueid c)), (''comicid'', opt_pv (cm_comicid c)), (''manual'', VBool (cm_manual c)),
            (''run_id'', opt_pv (cm_run c)), (''comicname'', opt_pv (cm_comicname c)),
            (''seriesyear'', opt_pv (cm_seriesyear c)), (''issuenumber'', opt_pv (cm_issuenumber c)),
            (''booktype'', opt_pv (cm_booktype c)), (''entity_type'', VStr (cm_etype c)),
            (''queue_priority'', VStr (cm_priority c))]"
  have g: "pv_get ?d ''issueid'' = VStr (cm_issueid c)" "pv_get ?d ''comicid'' = opt_pv (cm_comicid c)"
    "pv_get ?d ''manual'' = VBool (cm_manual c)" "pv_get ?d ''run_id'' = opt_pv (cm_run c)"
    "pv_get ?d ''comicname'' = opt_pv (cm_comicname c)" "pv_get ?d ''seriesyear'' = opt_pv (cm_seriesyear c)"
    "pv_get ?d ''issuenumber'' = opt_pv (cm_issuenumber c)" "pv_get ?d ''issue_number'' = VNone"
    "pv_get ?d ''booktype'' = opt_pv (cm_booktype c)" "pv_get ?d ''entity_type'' = VStr (cm_etype c)"
    "pv_get ?d ''queue_priority'' = VStr (cm_priority c)"
    by (simp_all add: pv_get_def dict_get_def)
  have r: "field_required ?d ''issueid'' = Inr (cm_issueid c)" using ok field_text_str by (simp add: field_required_def g)
  have e: "command_entity ?d = Inr (cm_etype c)" using ok by (intro present_entity g) simp
  have p: "queue_priority (VStr (cm_priority c)) = Inr (cm_priority c)" using ok by (intro queue_priority_again) simp
  have n: "field_text (pv_or (opt_pv (cm_issuenumber c)) VNone) = cm_issuenumber c" using ok by (intro issue_number_ok) simp
  show ?thesis
    unfolding command_from_def command_mapping_def pval.case Let_def mapping_fields r e g p n field_bool_VBool sum.case
    using ok by simp
qed

text \<open>C19: A search command survives the queue: whatever untrusted mapping it was parsed from, the mapping that is put in
  the queue parses to the very same command.\<close>

theorem command_round_trips: "command_from raw = Inr c \<Longrightarrow> command_from (command_mapping c) = Inr c"
  by (rule command_ok_round_trip [OF command_from_ok])

theorem command_round_trips_witness:
  "\<exists>c. command_from (VDict [(''IssueID'', VInt 42), (''Annual'', VStr '' Yes ''), (''issue_number'', VStr ''3'')]) = Inr c
     \<and> command_from (command_mapping c) = Inr c \<and> cm_etype c = ''annual'' \<and> cm_issuenumber c = Some ''3''"
proof -
  obtain c where c: "command_from (VDict [(''IssueID'', VInt 42), (''Annual'', VStr '' Yes ''), (''issue_number'', VStr ''3'')]) = Inr c"
     "cm_etype c = ''annual''" "cm_issuenumber c = Some ''3''"
  proof -
    have "case command_from (VDict [(''IssueID'', VInt 42), (''Annual'', VStr '' Yes ''), (''issue_number'', VStr ''3'')]) of
      Inl e \<Rightarrow> False | Inr c \<Rightarrow> cm_etype c = ''annual'' \<and> cm_issuenumber c = Some ''3''" by code_simp
    then show ?thesis using that by (auto split: sum.splits)
  qed
  then show ?thesis using command_round_trips [OF c(1)] by blast
qed

section \<open>The maintenance gate\<close>

definition gate_closed :: "cenv \<Rightarrow> mstate \<Rightarrow> bool" where
  "gate_closed env m \<longleftrightarrow> ce_operator env \<or> reconciliation_state m \<noteq> ''ready'' \<or> fc_active (ms_fence m)"

lemma put_closed: "gate_closed env (cw_maint w) \<Longrightarrow> put_with_lease env c w = (Inl ''MaintenanceBlocked'', w)"
  by (auto simp: put_with_lease_def acquire_lease_def gate_closed_def Let_def)

text \<open>Nothing but the ledger moves.\<close>

definition only_ledger :: "cworld \<Rightarrow> cworld \<Rightarrow> bool" where
  "only_ledger w w' \<longleftrightarrow> cw_queue w' = cw_queue w \<and> cw_maint w' = cw_maint w"

lemma only_ledger_refl [simp]: "only_ledger w w"
  by (simp add: only_ledger_def)

lemma only_ledger_update [simp]: "only_ledger w (w'\<lparr>cw_ledger := s\<rparr>) = only_ledger w w'"
  by (simp add: only_ledger_def)

lemma only_ledger_trans: "only_ledger u v \<Longrightarrow> only_ledger v w \<Longrightarrow> only_ledger u w"
  by (simp add: only_ledger_def)

lemma on_ledger_only:
  assumes "\<And>s. only_ledger w (snd (k (w'\<lparr>cw_ledger := s\<rparr>)))" and "only_ledger w w'"
  shows "only_ledger w (snd (on_ledger f k w'))"
  using assms by (auto simp: on_ledger_def split: sum.splits)

lemma accepted_closed: "gate_closed env (cw_maint w) \<Longrightarrow> only_ledger w (snd (dispatch_accepted env rid c w))"
  unfolding dispatch_accepted_def by (simp add: put_closed) (intro on_ledger_only; simp)

lemma enqueue_closed:
  assumes "gate_closed env (cw_maint w)"
  shows "only_ledger w (snd (enqueue_search_command env uuid raw trigger run_id st sid w))"
proof (cases "command_from raw")
  case (Inr c)
  have "only_ledger w (snd (dispatch_accepted env rid c' (w\<lparr>cw_ledger := s\<rparr>)))" for rid c' s
    using accepted_closed [of env "w\<lparr>cw_ledger := s\<rparr>"] assms by (simp add: only_ledger_def)
  then show ?thesis unfolding enqueue_search_command_def Inr Let_def sum.case by (intro on_ledger_only) simp_all
qed (simp add: enqueue_search_command_def)

text \<open>What one item adds when the gate is closed: nothing was handed over.\<close>

lemma item_closed:
  assumes "gate_closed env (cw_maint w)"
  shows "only_ledger w (snd (dispatch_item env trigger i w))
    \<and> (\<forall>n es. fst (dispatch_item env trigger i w) = Inr (n, es) \<longrightarrow> n = 0)"
proof (cases "claim_item_dispatch id (cw_ledger w) (ri_run i) (ri_etype i) (ri_eid i) (ce_now env)")
  case (Inr r)
  obtain won s where r: "r = (won, s)" by force
  show ?thesis
  proof (cases won)
    case True
    have "gate_closed env (cw_maint (w\<lparr>cw_ledger := u\<rparr>))" for u using assms by simp
    note put = put_closed [OF this]
    show ?thesis unfolding dispatch_item_def Inr r sum.case prod.case using True
      by (auto simp: dispatch_claimed_def Let_def put on_ledger_def split: sum.splits)
  qed (simp add: dispatch_item_def Inr r)
qed (simp add: dispatch_item_def)

lemma items_closed:
  assumes "gate_closed env (cw_maint w)"
  shows "only_ledger w (snd (dispatch_items env trigger is acc w))
    \<and> (\<forall>n es. fst (dispatch_items env trigger is acc w) = Inr (n, es) \<longrightarrow> n = fst acc)"
  using assms
proof (induction "is" arbitrary: acc w)
  case (Cons i "is")
  obtain r w1 where d: "dispatch_item env trigger i w = (r, w1)" by force
  have o: "only_ledger w w1" "\<And>n es. r = Inr (n, es) \<Longrightarrow> n = 0" using item_closed [OF Cons.prems, of trigger i] by (auto simp: d)
  then have g: "gate_closed env (cw_maint w1)" using Cons.prems by (simp add: only_ledger_def)
  show ?case
  proof (cases r)
    case (Inl e)
    then show ?thesis using o(1) by (simp add: d)
  next
    case (Inr x)
    obtain n es where x: "x = (n, es)" by force
    then have "n = 0" using o(2) Inr by simp
    then show ?thesis using Cons.IH [OF g, of "(fst acc + n, snd acc @ es)"] only_ledger_trans [OF o(1)] by (simp add: d Inr x)
  qed
qed auto

lemma replay_item_closed:
  assumes "gate_closed env (cw_maint w)"
  shows "only_ledger w (snd (replay_item env i w)) \<and> fst (replay_item env i w) \<noteq> Inr True"
proof (cases "claim_recovery (ce_redact env) (cw_ledger w) i (ce_now env)")
  case (Inr r)
  obtain won s where r: "r = (won, s)" by force
  have "gate_closed env (cw_maint (w\<lparr>cw_ledger := u\<rparr>))" for u using assms by simp
  note put = put_closed [OF this]
  show ?thesis
    by (cases won) (auto simp: replay_item_def Inr r replay_claimed_def Let_def put on_ledger_def split: sum.splits if_splits)
qed (simp add: replay_item_def)

lemma replay_items_closed:
  assumes "gate_closed env (cw_maint w)"
  shows "only_ledger w (snd (replay_items env is n w)) \<and> (\<forall>m. fst (replay_items env is n w) = Inr m \<longrightarrow> m = n)"
  using assms
proof (induction "is" arbitrary: n w)
  case (Cons i "is")
  obtain r w1 where d: "replay_item env i w = (r, w1)" by force
  have o: "only_ledger w w1" "r \<noteq> Inr True" using replay_item_closed [OF Cons.prems, of i] by (auto simp: d)
  then have g: "gate_closed env (cw_maint w1)" using Cons.prems by (simp add: only_ledger_def)
  show ?case
  proof (cases r)
    case (Inl e)
    then show ?thesis using o(1) by (simp add: d)
  next
    case (Inr b)
    then have "\<not> b" using o(2) by simp
    then show ?thesis using Cons.IH [OF g, of n] only_ledger_trans [OF o(1)] by (simp add: d Inr)
  qed
qed auto

text \<open>C16: While maintenance holds the gate (the operator's switch, an unfinished reconciliation or an active fence), no
  producer hands work to the search worker: enqueueing a command, dispatching a run's pending items and replaying after
  a restart all leave the queue and the maintenance tables as they were, and report nothing handed over.\<close>

theorem closed_gate_queues_nothing:
  assumes "gate_closed env (cw_maint w)"
  shows "only_ledger w (snd (enqueue_search_command env uuid raw trigger run_id st sid w))
    \<and> only_ledger w (snd (dispatch_pending_search_commands env rid w))
    \<and> only_ledger w (snd (replay_search_obligations env w))
    \<and> (\<forall>n es. fst (dispatch_pending_search_commands env rid w) = Inr (n, es) \<longrightarrow> n = 0)
    \<and> (\<forall>m. fst (replay_search_obligations env w) = Inr m \<longrightarrow> m = 0)"
proof -
  have "only_ledger w (snd (dispatch_pending_search_commands env rid w))
    \<and> (\<forall>n es. fst (dispatch_pending_search_commands env rid w) = Inr (n, es) \<longrightarrow> n = 0)"
  proof (cases "get_run (cw_ledger w) rid")
    case (Some r)
    then obtain items where l: "list_pending_dispatch_items (cw_ledger w) rid = Inr items" by (simp add: list_pending_dispatch_items_def)
    obtain q w1 where d: "dispatch_items env (rr_trigger r) items (0, []) w = (q, w1)" by force
    show ?thesis using items_closed [OF assms, of "rr_trigger r" items "(0, [])"]
      by (cases q) (auto simp: dispatch_pending_search_commands_def Some l d on_ledger_def split: sum.splits)
  qed (simp add: dispatch_pending_search_commands_def)
  moreover have "only_ledger w (snd (replay_search_obligations env w))
    \<and> (\<forall>m. fst (replay_search_obligations env w) = Inr m \<longrightarrow> m = 0)"
    unfolding replay_search_obligations_def using replay_items_closed [OF assms] by auto
  ultimately show ?thesis using enqueue_closed [OF assms] by blast
qed

text \<open>A world with one search item that was never handed over.\<close>

definition demo_env :: cenv where
  "demo_env = \<lparr>ce_operator = False, ce_fresh = (\<lambda>n. replicate n CHR ''l''),
     ce_loads = (\<lambda>t. [(''issueid'', VStr ''42'')]), ce_redact = id, ce_now = ''t2''\<rparr>"

definition demo_world :: "bool \<Rightarrow> cworld" where
  "demo_world fenced = \<lparr>cw_ledger = demo_ledger,
     cw_maint = idle\<lparr>ms_fence := (ms_fence idle)\<lparr>fc_active := fenced\<rparr>\<rparr>, cw_queue = empty_queue\<rparr>"

theorem closed_gate_queues_nothing_witness:
  "gate_closed demo_env (cw_maint (demo_world True))
    \<and> fst (dispatch_pending_search_commands demo_env ''r1'' (demo_world True)) = Inr (0, [''MaintenanceBlocked''])
    \<and> only_ledger (demo_world True) (snd (dispatch_pending_search_commands demo_env ''r1'' (demo_world True)))
    \<and> queue_size (cw_queue (snd (dispatch_pending_search_commands demo_env ''r1'' (demo_world False)))) = 1"
proof -
  have g: "gate_closed demo_env (cw_maint (demo_world True))" by code_simp
  moreover have "fst (dispatch_pending_search_commands demo_env ''r1'' (demo_world True)) = Inr (0, [''MaintenanceBlocked''])"
    by code_simp
  moreover have "queue_size (cw_queue (snd (dispatch_pending_search_commands demo_env ''r1'' (demo_world False)))) = 1"
    by code_simp
  ultimately show ?thesis using closed_gate_queues_nothing [OF g] by blast
qed

section \<open>The open gate\<close>

lemma length_dict_set: "length (dict_set k v d) = (if dict_get d k = None then Suc (length d) else length d)"
  unfolding dict_set_def dict_get_def by (induction d) auto

text \<open>Lease ids do not repeat.\<close>

definition fresh_ok :: "cenv \<Rightarrow> mstate \<Rightarrow> bool" where
  "fresh_ok env m \<longleftrightarrow> inj (ce_fresh env) \<and> (\<forall>n \<ge> length (ms_leases m). get_lease m (ce_fresh env n) = None)"

lemma put_open:
  assumes "\<not> gate_closed env (cw_maint w)" and "fresh_ok env (cw_maint w)"
  shows "\<exists>m. put_with_lease env c w = (Inr (), w\<lparr>cw_maint := m, cw_queue := fq_put (command_mapping c) (cw_queue w)\<rparr>)
    \<and> \<not> gate_closed env m \<and> fresh_ok env m"
proof -
  let ?m = "cw_maint w" and ?i = "ce_fresh env (length (ms_leases (cw_maint w)))" and ?now = "ce_now env"
  have none: "get_lease ?m ?i = None" using assms(2) by (simp add: fresh_ok_def)
  define row where "row = \<lparr>lz_epoch = fc_epoch (ms_fence ?m), lz_owner = ''search-producer'', lz_kind = ''search_queue_handoff'',
     lz_etype = Some (cm_etype c), lz_eid = Some (cm_issueid c), lz_heartbeat = ?now, lz_released = None\<rparr>"
  define m1 where "m1 = put_lease ?i row ?m"
  define m where "m = put_lease ?i (row\<lparr>lz_heartbeat := ?now, lz_released := Some ?now\<rparr>) m1"
  define l where "l = \<lparr>ls_id = ?i, ls_epoch = lz_epoch row, ls_owner = ''search-producer'', ls_kind = ''search_queue_handoff'',
     ls_etype = Some (cm_etype c), ls_eid = Some (cm_issueid c), ls_permit = None\<rparr>"
  have act: "lease_active row" by (simp add: row_def lease_active_def)
  have a: "acquire_lease (ce_operator env) ?m ''search-producer'' ''search_queue_handoff'' (Some (cm_etype c)) (Some (cm_issueid c))
      ?i ?now = Inr (l, m1)"
    using assms(1) none act by (simp add: acquire_lease_def gate_closed_def Let_def l_def m1_def row_def)
  have g: "get_lease m1 ?i = Some row" by (simp add: m1_def)
  have r: "snd (release_lease m1 (ls_id l) ?now) = m" using g act by (simp add: release_lease_def m_def l_def)
  have e: "lz_epoch row = fc_epoch (ms_fence m1)" "\<not> fc_active (ms_fence m1)"
    using assms(1) by (simp_all add: row_def m1_def gate_closed_def)
  have cur: "assert_lease_current m1 l ?now" using g act e by (simp add: assert_lease_current_def l_def)
  have o: "\<not> gate_closed env m" using assms(1) by (simp add: gate_closed_def m_def m1_def reconciliation_state_def)
  have len: "length (ms_leases m) = Suc (length (ms_leases ?m))"
    using none by (simp add: m_def m1_def put_lease_def length_dict_set get_lease_def)
  have "get_lease m (ce_fresh env n) = None" if "length (ms_leases m) \<le> n" for n
  proof -
    have "n \<noteq> length (ms_leases ?m)" using that len by simp
    then have "ce_fresh env n \<noteq> ?i" using assms(2) by (auto simp: fresh_ok_def inj_def)
    then show ?thesis using assms(2) that len by (simp add: m_def m1_def fresh_ok_def)
  qed
  then have f: "fresh_ok env m" using assms(2) by (simp add: fresh_ok_def)
  show ?thesis using o f unfolding put_with_lease_def Let_def a sum.case prod.case r using cur by auto
qed

section \<open>One row of the ledger\<close>

definition set_row :: "ritem \<Rightarrow> rledger \<Rightarrow> rledger" where
  "set_row i s = s\<lparr>rl_items := map (\<lambda>j. if ri_id j = ri_id i then i else j) (rl_items s)\<rparr>"

lemma get_run_set_row [simp]: "get_run (set_row i s) = get_run s"
  by (rule ext) (simp add: set_row_def get_run_def)

lemma set_row_items [simp]: "rl_items (set_row i s) = map (\<lambda>j. if ri_id j = ri_id i then i else j) (rl_items s)"
  by (simp add: set_row_def)

lemma set_row_again: "ri_id i = ri_id j \<Longrightarrow> set_row i (set_row j s) = set_row i s"
  by (simp add: set_row_def)

lemma update_row:
  assumes "base_wf s" and "i \<in> set (rl_items s)" and "g i" and "ri_id (f i) = ri_id i"
  shows "update_item (ri_id i) g f s = (1, set_row (f i) s)"
proof -
  have one: "j = i" if "j \<in> set (rl_items s)" "ri_id j = ri_id i" for j
    using same_id_same_item [OF assms(1) that(1) assms(2) that(2)] .
  have d: "distinct (rl_items s)" using assms(1) by (auto simp: base_wf_def distinct_map)
  have "filter (\<lambda>j. ri_id j = ri_id i \<and> g j) (rl_items s) = filter (\<lambda>j. j = i) (rl_items s)"
    using one assms(3) by (intro filter_cong) auto
  moreover have "length (filter (\<lambda>j. j = i) (rl_items s)) = 1"
    using distinct_length_filter [OF d, of "\<lambda>j. j = i"] assms(2) by simp
  moreover have "map (\<lambda>j. if ri_id j = ri_id i \<and> g j then f j else j) (rl_items s)
      = map (\<lambda>j. if ri_id j = ri_id (f i) then f i else j) (rl_items s)"
    using one assms(3,4) by (intro map_cong) auto
  ultimately show ?thesis by (simp add: update_item_def set_row_def)
qed

lemma set_row_wf:
  assumes "base_wf s" and "i \<in> set (rl_items s)" and "same_identity i j"
  shows "base_wf (set_row j s)" and "j \<in> set (rl_items (set_row j s))"
proof -
  have one: "k = i" if "k \<in> set (rl_items s)" "ri_id k = ri_id i" for k
    using same_id_same_item [OF assms(1) that(1) assms(2) that(2)] .
  have sid: "ri_id j = ri_id i" using assms(3) by (simp add: same_identity_def)
  have idm: "map ri_id (rl_items (set_row j s)) = map ri_id (rl_items s)" by simp
  have dm: "map identity (rl_items (set_row j s)) = map identity (rl_items s)"
    using one sid assms(3) by (auto simp: identity_def same_identity_def)
  have k: "k = j \<or> k \<in> set (rl_items s)" if "k \<in> set (rl_items (set_row j s))" for k using that by auto
  have old: "ri_id i < rl_next s" "\<exists>r. get_run s (ri_run i) = Some r \<and> rr_kind r = ri_kind i"
    using assms(1,2) by (auto simp: base_wf_def)
  have di: "distinct (map ri_id (rl_items (set_row j s)))" "distinct (map identity (rl_items (set_row j s)))"
    using assms(1) unfolding idm dm base_wf_def by blast+
  have lt: "\<forall>k \<in> set (rl_items (set_row j s)). ri_id k < rl_next s"
    using k old(1) sid assms(1) unfolding base_wf_def by fastforce
  have rn: "\<forall>k \<in> set (rl_items (set_row j s)). \<exists>r. get_run s (ri_run k) = Some r \<and> rr_kind r = ri_kind k"
  proof
    fix x
    assume "x \<in> set (rl_items (set_row j s))"
    then have "x = j \<or> x \<in> set (rl_items s)" by (rule k)
    then show "\<exists>r. get_run s (ri_run x) = Some r \<and> rr_kind r = ri_kind x"
      using old(2) assms(1,3) unfolding base_wf_def same_identity_def by metis
  qed
  have fr: "rl_next (set_row j s) = rl_next s" "rl_runs (set_row j s) = rl_runs s" by (simp_all add: set_row_def)
  show "base_wf (set_row j s)"
    unfolding base_wf_def get_run_set_row fr using di lt rn assms(1) unfolding base_wf_def by blast
  show "j \<in> set (rl_items (set_row j s))" using assms(2) sid by (auto simp: image_iff)
qed

lemma the_item_self:
  assumes "base_wf s" and "i \<in> set (rl_items s)"
  shows "the_item s (ri_run i) (ri_etype i) (ri_eid i) = Inr i"
proof -
  obtain r where r: "get_run s (ri_run i) = Some r" "rr_kind r = ri_kind i" using assms by (auto simp: base_wf_def)
  have "find (\<lambda>j. ri_run j = ri_run i \<and> ri_kind j = rr_kind r \<and> ri_etype j = ri_etype i \<and> ri_eid j = ri_eid i) (rl_items s) = Some i"
  proof (rule find_unique [where h = identity])
    show "distinct (map identity (rl_items s))" using assms(1) by (simp add: base_wf_def)
  qed (use assms(2) r(2) in \<open>auto simp: identity_def\<close>)
  then show ?thesis using r(1) by (simp add: the_item_def get_item_def)
qed

section \<open>A pass over the pending items\<close>

definition is_pending :: "string \<Rightarrow> string \<Rightarrow> ritem \<Rightarrow> bool" where
  "is_pending rid k i \<longleftrightarrow> ri_run i = rid \<and> ri_kind i = k \<and> ri_state i = IAccepted \<and> ri_dispatch i \<in> {DPending, DError}"

definition pending_rows :: "rledger \<Rightarrow> string \<Rightarrow> string \<Rightarrow> ritem list" where
  "pending_rows s rid k = filter (is_pending rid k) (rl_items s)"

lemma list_pending: "get_run s rid = Some r \<Longrightarrow> list_pending_dispatch_items s rid = Inr (pending_rows s rid (rr_kind r))"
  by (simp add: list_pending_dispatch_items_def pending_rows_def is_pending_def [abs_def])

lemma pending_rows_mem: "pending_rows s rid k = i # is \<Longrightarrow> i \<in> set (rl_items s) \<and> is_pending rid k i"
  unfolding pending_rows_def by (metis Cons_eq_filterD in_set_conv_decomp)

lemma pending_rows_set:
  assumes "base_wf s" and "pending_rows s rid k = i # is" and "ri_id j = ri_id i" and "\<not> is_pending rid k j"
  shows "pending_rows (set_row j s) rid k = is"
proof -
  have d: "distinct (map ri_id (rl_items s))" using assms(1) by (simp add: base_wf_def)
  have fl: "filter (is_pending rid k) (map (\<lambda>x. if ri_id x = ri_id i then j else x) xs)
      = filter (\<lambda>x. ri_id x \<noteq> ri_id i) (filter (is_pending rid k) xs)" for xs
    using assms(4) by (induction xs) auto
  have "pending_rows (set_row j s) rid k = filter (\<lambda>x. ri_id x \<noteq> ri_id i) (pending_rows s rid k)"
    unfolding pending_rows_def set_row_items assms(3) by (rule fl)
  moreover have "distinct (map ri_id (i # is))" using d assms(2) unfolding pending_rows_def by (metis distinct_map_filter)
  then have "filter (\<lambda>x. ri_id x \<noteq> ri_id i) (i # is) = is" by (auto intro!: filter_True simp: image_iff)
  ultimately show ?thesis using assms(2) by simp
qed

text \<open>The row of an item that was handed over, and what the worker finds in the queue.\<close>

definition handed_row :: "cenv \<Rightarrow> string \<Rightarrow> ritem \<Rightarrow> ritem" where
  "handed_row env p i = i\<lparr>ri_dispatch := DAccepted, ri_priority := p, ri_reason := None, ri_updated := ce_now env\<rparr>"

definition handed_mapping :: "cenv \<Rightarrow> string \<Rightarrow> ritem \<Rightarrow> pval" where
  "handed_mapping env trigger i =
     (case command_from (stored_mapping env i) of Inl e \<Rightarrow> VNone
      | Inr c \<Rightarrow> command_mapping (c\<lparr>cm_priority := queue_priority_for_trigger trigger (cm_manual c)\<rparr>))"

lemma item_handed_over:
  assumes wf: "base_wf (cw_ledger w)" and i: "i \<in> set (rl_items (cw_ledger w))" and p: "is_pending rid k i"
    and g: "\<not> gate_closed env (cw_maint w)" and f: "fresh_ok env (cw_maint w)"
    and c: "command_from (stored_mapping env i) = Inr c"
  shows "\<exists>w' q. dispatch_item env trigger i w = (Inr (1, []), w') \<and> cw_ledger w' = set_row (handed_row env q i) (cw_ledger w)
    \<and> cw_queue w' = fq_put (handed_mapping env trigger i) (cw_queue w)
    \<and> \<not> gate_closed env (cw_maint w') \<and> fresh_ok env (cw_maint w')"
proof -
  let ?s = "cw_ledger w" and ?now = "ce_now env" and ?q = "queue_priority_for_trigger trigger (cm_manual c)"
  define i1 where "i1 = i\<lparr>ri_dispatch := DAccepted, ri_updated := ?now\<rparr>"
  define i2 where "i2 = i1\<lparr>ri_priority := ?q, ri_updated := ?now\<rparr>"
  define i3 where "i3 = i2\<lparr>ri_dispatch := DAccepted, ri_reason := None, ri_updated := ?now\<rparr>"
  have st: "ri_state i = IAccepted" "ri_dispatch i \<in> {DPending, DError}" using p by (simp_all add: is_pending_def)
  have id1: "ri_run i1 = ri_run i" "ri_etype i1 = ri_etype i" "ri_eid i1 = ri_eid i" "ri_id i1 = ri_id i" "ri_id i2 = ri_id i"
    "ri_run i2 = ri_run i" "ri_etype i2 = ri_etype i" "ri_eid i2 = ri_eid i" "ri_id i3 = ri_id i"
    by (simp_all add: i1_def i2_def i3_def)
  have u1: "update_item (ri_id i) (\<lambda>j. ri_state j = IAccepted \<and> ri_dispatch j \<in> {DPending, DError})
      (\<lambda>j. j\<lparr>ri_dispatch := DAccepted, ri_updated := ?now\<rparr>) ?s = (1, set_row i1 ?s)"
    using update_row [OF wf i] st by (simp add: i1_def)
  have a: "claim_item_dispatch id ?s (ri_run i) (ri_etype i) (ri_eid i) ?now = Inr (True, set_row i1 ?s)"
    by (simp only: claim_item_dispatch_def the_item_self [OF wf i] id_apply u1 sum.case prod.case simp_thms)
  note w1 = set_row_wf [OF wf i, of i1]
  have s1: "same_identity i i1" "same_identity i1 i2" by (simp_all add: i1_def i2_def same_identity_def)
  have o: "is_open_item i1" "is_open_item i2" using st by (simp_all add: is_open_item_def i1_def i2_def)
  note t1 = the_item_self [OF w1 [OF s1(1)], unfolded id1]
  have u2: "update_item (ri_id i) is_open_item (\<lambda>j. j\<lparr>ri_priority := ?q, ri_updated := ?now\<rparr>) (set_row i1 ?s) = (1, set_row i2 ?s)"
    using update_row [OF w1 [OF s1(1)], of is_open_item "\<lambda>j. j\<lparr>ri_priority := ?q, ri_updated := ?now\<rparr>"] o(1)
    by (simp add: id1 i2_def [symmetric] set_row_again)
  have b: "set_item_queue_priority id (set_row i1 ?s) (ri_run i) (ri_etype i) (ri_eid i) ?q ?now = Inr (set_row i2 ?s)"
    by (simp only: set_item_queue_priority_def t1 id_apply id1 u2 sum.case snd_conv)
  have s2: "same_identity i i2" by (simp add: i1_def i2_def same_identity_def)
  note w2 = set_row_wf [OF wf i s2]
  note t2 = the_item_self [OF w2, unfolded id1]
  have u3: "update_item (ri_id i) is_open_item (\<lambda>j. j\<lparr>ri_dispatch := DAccepted, ri_reason := None, ri_updated := ?now\<rparr>) (set_row i2 ?s)
      = (1, set_row i3 ?s)"
    using update_row [OF w2, of is_open_item "\<lambda>j. j\<lparr>ri_dispatch := DAccepted, ri_reason := None, ri_updated := ?now\<rparr>"] o(2)
    by (simp add: id1 i3_def [symmetric] set_row_again)
  have d: "item_dispatch env (ri_run i) (ri_etype i) (ri_eid i) DAccepted None (set_row i2 ?s) = Inr (set_row i3 ?s)"
    using u3 by (simp add: item_dispatch_def record_item_dispatch_def t2 id1 present_def)
  let ?c = "c\<lparr>cm_priority := ?q\<rparr>" and ?w2 = "w\<lparr>cw_ledger := set_row i2 ?s\<rparr>"
  obtain m where m: "put_with_lease env ?c ?w2
      = (Inr (), ?w2\<lparr>cw_maint := m, cw_queue := fq_put (command_mapping ?c) (cw_queue ?w2)\<rparr>)" "\<not> gate_closed env m" "fresh_ok env m"
    using put_open [of env ?w2 ?c] g f by auto
  have "dispatch_item env trigger i w = (Inr (1, []), w\<lparr>cw_ledger := set_row i3 ?s, cw_maint := m,
      cw_queue := fq_put (command_mapping ?c) (cw_queue w)\<rparr>)"
    by (simp add: dispatch_item_def a dispatch_claimed_def c Let_def on_ledger_def b m(1) d)
  moreover have "i3 = handed_row env ?q i" by (simp add: i3_def i2_def i1_def handed_row_def)
  ultimately show ?thesis using m(2,3) by (auto simp: handed_mapping_def c)
qed

lemma items_handed_over:
  assumes "base_wf (cw_ledger w)" and "pending_rows (cw_ledger w) rid k = items"
    and "\<not> gate_closed env (cw_maint w)" and "fresh_ok env (cw_maint w)"
    and "\<forall>i \<in> set items. \<exists>c. command_from (stored_mapping env i) = Inr c"
  shows "\<exists>w'. dispatch_items env trigger items acc w = (Inr (fst acc + length items, snd acc), w')
    \<and> base_wf (cw_ledger w') \<and> pending_rows (cw_ledger w') rid k = [] \<and> get_run (cw_ledger w') = get_run (cw_ledger w)
    \<and> cw_queue w' = foldl (\<lambda>q i. fq_put (handed_mapping env trigger i) q) (cw_queue w) items"
  using assms
proof (induction items arbitrary: w acc)
  case (Cons i items)
  have mem: "i \<in> set (rl_items (cw_ledger w))" "is_pending rid k i"
    using pending_rows_mem [OF Cons.prems(2)] by blast+
  obtain c where c: "command_from (stored_mapping env i) = Inr c" using Cons.prems(5) by auto
  obtain w1 q where w1: "dispatch_item env trigger i w = (Inr (1, []), w1)" "cw_ledger w1 = set_row (handed_row env q i) (cw_ledger w)"
    "cw_queue w1 = fq_put (handed_mapping env trigger i) (cw_queue w)" "\<not> gate_closed env (cw_maint w1)" "fresh_ok env (cw_maint w1)"
    using item_handed_over [OF Cons.prems(1) mem Cons.prems(3,4) c, of trigger] by blast
  have "base_wf (cw_ledger w1)" unfolding w1(2)
    by (rule set_row_wf(1) [OF Cons.prems(1) mem(1)]) (simp add: same_identity_def handed_row_def)
  moreover have "pending_rows (cw_ledger w1) rid k = items" unfolding w1(2)
    by (rule pending_rows_set [OF Cons.prems(1,2)]) (simp_all add: handed_row_def is_pending_def)
  ultimately have "\<exists>w'. dispatch_items env trigger items (fst acc + 1, snd acc) w1
      = (Inr (fst (fst acc + 1, snd acc) + length items, snd (fst acc + 1, snd acc)), w')
    \<and> base_wf (cw_ledger w') \<and> pending_rows (cw_ledger w') rid k = [] \<and> get_run (cw_ledger w') = get_run (cw_ledger w1)
    \<and> cw_queue w' = foldl (\<lambda>q i. fq_put (handed_mapping env trigger i) q) (cw_queue w1) items"
    using Cons.prems(5) by (intro Cons.IH w1(4,5)) simp_all
  then show ?case using w1(1,2,3) by simp
qed auto

text \<open>C15: Dispatching what a run still owes hands every item over exactly once.  With the gate open and every stored
  payload readable, one pass over a well-formed ledger reports all pending items and no error, puts the command of each
  into the queue in the order of the ledger, and leaves none pending; a repeated request then hands over nothing.\<close>

theorem pending_dispatched_once:
  assumes "ledger_wf (cw_ledger w)" and "get_run (cw_ledger w) rid = Some r"
    and "list_pending_dispatch_items (cw_ledger w) rid = Inr items"
    and "\<not> gate_closed env (cw_maint w)" and "fresh_ok env (cw_maint w)"
    and "\<forall>i \<in> set items. \<exists>c. command_from (stored_mapping env i) = Inr c"
  shows "\<exists>w'. dispatch_pending_search_commands env rid w = (Inr (length items, []), w')
    \<and> cw_queue w' = foldl (\<lambda>q i. fq_put (handed_mapping env (rr_trigger r) i) q) (cw_queue w) items
    \<and> list_pending_dispatch_items (cw_ledger w') rid = Inr []
    \<and> (\<exists>w''. dispatch_pending_search_commands env rid w' = (Inr (0, []), w'') \<and> cw_queue w'' = cw_queue w')"
proof -
  have rows: "pending_rows (cw_ledger w) rid (rr_kind r) = items" using assms(2,3) by (simp add: list_pending)
  have wf: "base_wf (cw_ledger w)" using assms(1) by (simp add: ledger_wf_def)
  obtain w1 where w1: "dispatch_items env (rr_trigger r) items (0, []) w = (Inr (length items, []), w1)"
    "pending_rows (cw_ledger w1) rid (rr_kind r) = []" "get_run (cw_ledger w1) = get_run (cw_ledger w)"
    "cw_queue w1 = foldl (\<lambda>q i. fq_put (handed_mapping env (rr_trigger r) i) q) (cw_queue w) items"
    using items_handed_over [OF wf rows assms(4-6), of "rr_trigger r" "(0, [])"] by auto
  define r' where "r' = r\<lparr>rr_dispatch := DAccepted, rr_updated := ce_now env\<rparr>"
  define w' where "w' = w1\<lparr>cw_ledger := put_run rid r' (cw_ledger w1)\<rparr>"
  have run: "get_run (cw_ledger w') rid = Some r'" by (simp add: w'_def)
  have "dispatch_pending_search_commands env rid w = (Inr (length items, []), w')"
    using assms(2,3) w1(1,3) by (simp add: dispatch_pending_search_commands_def on_ledger_def record_dispatch_def w'_def r'_def)
  moreover have none: "list_pending_dispatch_items (cw_ledger w') rid = Inr []"
    unfolding list_pending [OF run] using w1(2) by (simp add: w'_def r'_def pending_rows_def)
  moreover have "dispatch_pending_search_commands env rid w'
      = (Inr (0, []), w'\<lparr>cw_ledger := put_run rid (r'\<lparr>rr_dispatch := DAccepted, rr_updated := ce_now env\<rparr>) (cw_ledger w')\<rparr>)"
    using run none by (simp add: dispatch_pending_search_commands_def on_ledger_def record_dispatch_def)
  ultimately show ?thesis using w1(4) by (auto simp: w'_def)
qed

lemma demo_env_fresh: "fresh_ok demo_env (cw_maint (demo_world False))"
  by (auto simp: fresh_ok_def demo_env_def demo_world_def idle_def get_lease_def inj_def replicate_eq_replicate)

theorem pending_dispatched_once_witness:
  "\<exists>w'. dispatch_pending_search_commands demo_env ''r1'' (demo_world False) = (Inr (1, []), w')
    \<and> list_pending_dispatch_items (cw_ledger w') ''r1'' = Inr []
    \<and> (\<exists>w''. dispatch_pending_search_commands demo_env ''r1'' w' = (Inr (0, []), w'') \<and> cw_queue w'' = cw_queue w')"
proof -
  have wf: "ledger_wf (cw_ledger (demo_world False))" using demo_ledger_wf by (simp add: demo_world_def)
  have l: "list_pending_dispatch_items (cw_ledger (demo_world False)) ''r1'' = Inr [demo_item]" by code_simp
  then obtain r where r: "get_run (cw_ledger (demo_world False)) ''r1'' = Some r"
    by (auto simp: list_pending_dispatch_items_def split: option.splits)
  have g: "\<not> gate_closed demo_env (cw_maint (demo_world False))" by code_simp
  have "case command_from (stored_mapping demo_env demo_item) of Inl e \<Rightarrow> False | Inr c \<Rightarrow> True" by code_simp
  then have c: "\<forall>i \<in> set [demo_item]. \<exists>c. command_from (stored_mapping demo_env i) = Inr c" by (auto split: sum.splits)
  show ?thesis using pending_dispatched_once [OF wf r l g demo_env_fresh c] by auto
qed

end
