(* ===== verification/FileSystem.thy ===== *)
theory FileSystem
  imports DownloadPaths
begin

text \<open>
  What \<open>os\<close>, \<open>shutil\<close> and \<open>tempfile\<close> do to files, as far as the placement of comics uses them: names, inodes, hard
  and symbolic links on several volumes, and calls that fail.  Names are files or links; the directories around them
  are there and are not linked, and looking at a name does not fail.  An action returns its value or the exception, and the file system it leaves, so what
  a failing call has already done is kept.
\<close>

section \<open>Names and inodes\<close>

text \<open>\<open>ESAME\<close> is \<open>shutil.SameFileError\<close>; \<open>EIO\<close> is every other reason of the system to refuse a call.\<close>

datatype errno = ENOENT | EEXIST | EXDEV | ESAME | EIO

datatype exn = OsErr errno | PlacementFailed

datatype inode = IFile string | ILink string

text \<open>Inode numbers from \<open>fs_next\<close> on are free; \<open>fs_calls\<close> counts the calls made.\<close>

record fsys =
  fs_names :: "string \<Rightarrow> nat option"
  fs_inodes :: "nat \<Rightarrow> inode option"
  fs_next :: nat
  fs_calls :: nat

text \<open>The surroundings: \<open>fe_fault n\<close> is the error the system answers to call \<open>n\<close> on its own account, \<open>fe_short n\<close> what
  a failing write still writes, \<open>fe_device\<close> the volume a name is on, \<open>fe_temp\<close> the name \<open>mkstemp\<close> picks beside a name.\<close>

record fenv =
  fe_fault :: "nat \<Rightarrow> errno option"
  fe_short :: "nat \<Rightarrow> nat"
  fe_device :: "string \<Rightarrow> nat"
  fe_temp :: "string \<Rightarrow> nat \<Rightarrow> string"
  fe_cwd :: string

definition lexists :: "fsys \<Rightarrow> string \<Rightarrow> bool" where
  "lexists fs p = (fs_names fs p \<noteq> None)"

definition node_at :: "fsys \<Rightarrow> string \<Rightarrow> inode option" where
  "node_at fs p = (case fs_names fs p of None \<Rightarrow> None | Some i \<Rightarrow> fs_inodes fs i)"

definition islink :: "fsys \<Rightarrow> string \<Rightarrow> bool" where
  "islink fs p = (case node_at fs p of Some (ILink t) \<Rightarrow> True | _ \<Rightarrow> False)"

text \<open>\<open>os.path.dirname\<close>, \<open>abspath\<close>, \<open>relpath\<close>\<close>

definition dirname :: "string \<Rightarrow> string" where
  "dirname p =
     (let head = rev (dropWhile (\<lambda>c. c \<noteq> CHR ''/'') (rev p)); bare = rev (dropWhile (\<lambda>c. c = CHR ''/'') (rev head)) in
      if bare = [] then head else bare)"

definition abspath :: "fenv \<Rightarrow> string \<Rightarrow> string" where
  "abspath env p = normpath (if py_startswith p ''/'' then p else fe_cwd env @ ''/'' @ p)"

fun drop_common :: "string list \<Rightarrow> string list \<Rightarrow> string list \<times> string list" where
  "drop_common (x # xs) (y # ys) = (if x = y then drop_common xs ys else (x # xs, y # ys))"
| "drop_common xs ys = (xs, ys)"

definition relpath :: "fenv \<Rightarrow> string \<Rightarrow> string \<Rightarrow> string" where
  "relpath env p start =
     (case drop_common (plain_parts (abspath env start)) (plain_parts (abspath env p)) of
        (up, down) \<Rightarrow> (let parts = map (\<lambda>_. ''..'') up @ down in if parts = [] then ''.'' else py_join CHR ''/'' parts))"

text \<open>Where a link leads, and the name an access ends at; \<open>None\<close> after forty links.\<close>

definition link_path :: "fenv \<Rightarrow> string \<Rightarrow> string \<Rightarrow> string" where
  "link_path env p t = (if py_startswith t ''/'' then t else normpath (dirname p @ ''/'' @ t))"

fun follow :: "nat \<Rightarrow> fenv \<Rightarrow> fsys \<Rightarrow> string \<Rightarrow> string option" where
  "follow 0 env fs p = None"
| "follow (Suc n) env fs p =
     (case node_at fs p of Some (ILink t) \<Rightarrow> follow n env fs (link_path env p t) | _ \<Rightarrow> Some p)"

definition resolve :: "fenv \<Rightarrow> fsys \<Rightarrow> string \<Rightarrow> string option" where
  "resolve env fs p = follow 40 env fs p"

text \<open>The inode behind a name (\<open>os.stat\<close>), and what it holds.\<close>

definition stat :: "fenv \<Rightarrow> fsys \<Rightarrow> string \<Rightarrow> nat option" where
  "stat env fs p = (case resolve env fs p of None \<Rightarrow> None | Some q \<Rightarrow> fs_names fs q)"

text \<open>What \<open>stat\<close> raises when there is nothing behind the name.\<close>

definition stat_error :: "fenv \<Rightarrow> fsys \<Rightarrow> string \<Rightarrow> errno" where
  "stat_error env fs p = (if resolve env fs p = None then EIO else ENOENT)"

definition isfile :: "fenv \<Rightarrow> fsys \<Rightarrow> string \<Rightarrow> bool" where
  "isfile env fs p = (stat env fs p \<noteq> None)"

definition bytes_of :: "fsys \<Rightarrow> nat \<Rightarrow> string" where
  "bytes_of fs i = (case fs_inodes fs i of Some (IFile c) \<Rightarrow> c | _ \<Rightarrow> [])"

section \<open>Actions\<close>

type_synonym 'a io = "fsys \<Rightarrow> (exn + 'a) \<times> fsys"

definition give :: "'a \<Rightarrow> 'a io" where
  "give x fs = (Inr x, fs)"

definition fail_with :: "exn \<Rightarrow> 'a io" where
  "fail_with e fs = (Inl e, fs)"

definition and_then :: "'a io \<Rightarrow> ('a \<Rightarrow> 'b io) \<Rightarrow> 'b io" where
  "and_then a f fs = (case a fs of (Inl e, t) \<Rightarrow> (Inl e, t) | (Inr x, t) \<Rightarrow> f x t)"

text \<open>\<open>try: a except ...: h\<close>; the handler sees the exception and raises again what it does not catch.\<close>

definition try_with :: "'a io \<Rightarrow> (exn \<Rightarrow> 'a io) \<Rightarrow> 'a io" where
  "try_with a h fs = (case a fs of (Inl e, t) \<Rightarrow> h e t | (Inr x, t) \<Rightarrow> (Inr x, t))"

text \<open>\<open>try: a finally: b\<close>: \<open>b\<close> runs on both ways out, and what it raises wins.\<close>

definition finally_do :: "'a io \<Rightarrow> unit io \<Rightarrow> 'a io" where
  "finally_do a b fs = (case a fs of (r, t) \<Rightarrow> (case b t of (Inl e, u) \<Rightarrow> (Inl e, u) | (Inr _, u) \<Rightarrow> (r, u)))"

definition with_state :: "(fsys \<Rightarrow> 'a io) \<Rightarrow> 'a io" where
  "with_state f fs = f fs fs"

section \<open>Calls\<close>

text \<open>One call of the system: refused on its own account, or carried out.\<close>

definition call :: "fenv \<Rightarrow> (fsys \<Rightarrow> errno + fsys) \<Rightarrow> unit io" where
  "call env f fs =
     (let t = fs\<lparr>fs_calls := Suc (fs_calls fs)\<rparr> in
      case fe_fault env (fs_calls fs) of
        Some e \<Rightarrow> (Inl (OsErr e), t)
      | None \<Rightarrow> (case f t of Inl e \<Rightarrow> (Inl (OsErr e), t) | Inr u \<Rightarrow> (Inr (), u)))"

definition new_inode :: "string \<Rightarrow> inode \<Rightarrow> fsys \<Rightarrow> fsys" where
  "new_inode p x fs =
     fs\<lparr>fs_names := (fs_names fs)(p \<mapsto> fs_next fs), fs_inodes := (fs_inodes fs)(fs_next fs \<mapsto> x), fs_next := Suc (fs_next fs)\<rparr>"

definition os_link :: "fenv \<Rightarrow> string \<Rightarrow> string \<Rightarrow> unit io" where
  "os_link env src dst = call env (\<lambda>fs.
     case fs_names fs src of
       None \<Rightarrow> Inl ENOENT
     | Some i \<Rightarrow> if lexists fs dst then Inl EEXIST
                 else if fe_device env src \<noteq> fe_device env dst then Inl EXDEV
                 else Inr (fs\<lparr>fs_names := (fs_names fs)(dst \<mapsto> i)\<rparr>))"

definition os_symlink :: "fenv \<Rightarrow> string \<Rightarrow> string \<Rightarrow> unit io" where
  "os_symlink env t dst = call env (\<lambda>fs. if lexists fs dst then Inl EEXIST else Inr (new_inode dst (ILink t) fs))"

text \<open>\<open>os.rename\<close> and \<open>os.replace\<close>; two names of one inode are left as they are.\<close>

definition os_rename :: "fenv \<Rightarrow> string \<Rightarrow> string \<Rightarrow> unit io" where
  "os_rename env src dst = call env (\<lambda>fs.
     case fs_names fs src of
       None \<Rightarrow> Inl ENOENT
     | Some i \<Rightarrow> if fe_device env src \<noteq> fe_device env dst then Inl EXDEV
                 else if fs_names fs dst = Some i then Inr fs
                 else Inr (fs\<lparr>fs_names := (fs_names fs)(src := None, dst \<mapsto> i)\<rparr>))"

definition os_unlink :: "fenv \<Rightarrow> string \<Rightarrow> unit io" where
  "os_unlink env p = call env (\<lambda>fs. if lexists fs p then Inr (fs\<lparr>fs_names := (fs_names fs)(p := None)\<rparr>) else Inl ENOENT)"

definition os_lstat :: "fenv \<Rightarrow> string \<Rightarrow> unit io" where
  "os_lstat env p = call env (\<lambda>fs. if lexists fs p then Inr fs else Inl ENOENT)"

text \<open>\<open>tempfile.mkstemp\<close>: a new empty file beside \<open>dst\<close>, created only if nothing has its name.\<close>

definition mkstemp :: "fenv \<Rightarrow> string \<Rightarrow> string io" where
  "mkstemp env dst = with_state (\<lambda>fs.
     (let p = fe_temp env dst (fs_calls fs) in
      and_then (call env (\<lambda>fs. if lexists fs p then Inl EEXIST else Inr (new_inode p (IFile []) fs))) (\<lambda>_. give p)))"

section \<open>Copies and moves\<close>

text \<open>\<open>open(dst, "wb")\<close>: through links, an existing file is emptied, a missing one made.\<close>

definition open_write :: "fenv \<Rightarrow> string \<Rightarrow> unit io" where
  "open_write env dst = call env (\<lambda>fs.
     case resolve env fs dst of
       None \<Rightarrow> Inl EIO
     | Some q \<Rightarrow> (case fs_names fs q of
                    None \<Rightarrow> Inr (new_inode q (IFile []) fs)
                  | Some j \<Rightarrow> Inr (fs\<lparr>fs_inodes := (fs_inodes fs)(j \<mapsto> IFile [])\<rparr>)))"

text \<open>The bytes go in; a write that fails leaves those that were written.\<close>

definition write_bytes :: "fenv \<Rightarrow> string \<Rightarrow> string \<Rightarrow> unit io" where
  "write_bytes env dst c fs =
     (let n = fs_calls fs; t = fs\<lparr>fs_calls := Suc n\<rparr> in
      case stat env t dst of
        None \<Rightarrow> (Inl (OsErr EIO), t)
      | Some j \<Rightarrow>
          (case fe_fault env n of
             Some e \<Rightarrow> (Inl (OsErr e), t\<lparr>fs_inodes := (fs_inodes t)(j \<mapsto> IFile (take (fe_short env n) c))\<rparr>)
           | None \<Rightarrow> (Inr (), t\<lparr>fs_inodes := (fs_inodes t)(j \<mapsto> IFile c)\<rparr>)))"

text \<open>\<open>shutil.copy\<close> and \<open>copy2\<close>: not onto itself; the bytes, then the mode or the times.\<close>

definition shutil_copy :: "fenv \<Rightarrow> string \<Rightarrow> string \<Rightarrow> unit io" where
  "shutil_copy env src dst = with_state (\<lambda>fs.
     (case stat env fs src of
        None \<Rightarrow> fail_with (OsErr (stat_error env fs src))
      | Some i \<Rightarrow>
          if stat env fs dst = Some i then fail_with (OsErr ESAME)
          else and_then (call env Inr) (\<lambda>_.
               and_then (open_write env dst) (\<lambda>_.
               and_then (write_bytes env dst (bytes_of fs i)) (\<lambda>_. call env Inr)))))"

text \<open>\<open>shutil.move\<close>: a rename, or else a copy (of a link, the link) and the removal of the source.\<close>

definition shutil_move :: "fenv \<Rightarrow> string \<Rightarrow> string \<Rightarrow> unit io" where
  "shutil_move env src dst =
     try_with (os_rename env src dst) (\<lambda>e. with_state (\<lambda>fs.
       case node_at fs src of
         Some (ILink t) \<Rightarrow> and_then (os_symlink env t dst) (\<lambda>_. os_unlink env src)
       | _ \<Rightarrow> and_then (shutil_copy env src dst) (\<lambda>_. os_unlink env src)))"

end
