(* ===== verification/Placement.thy ===== *)
theory Placement
  imports FileSystem
begin

text \<open>
  \<open>comicarr/app/common/placement.py\<close>: how a comic is put at its destination, for every purpose, configured mode and
  policy on an occupied destination, with every call allowed to fail.  \<open>PlacementFailed\<close> is \<open>PlacementError\<close>,
  \<open>OsErr\<close> an \<open>OSError\<close> that passes through.
\<close>

datatype purpose = Series | Import | One_off | Arc | Relocate

datatype on_existing = Unguarded | Displace | Skip | Refuse

datatype outcome = Placed | Already_placed

record placement_result =
  pr_outcome :: outcome
  pr_mode :: pval
  pr_destination :: string
  pr_purpose :: purpose
  pr_existing :: on_existing
  pr_survived :: bool
  pr_symlink :: bool

definition DISPLACED_SUFFIX :: string where
  "DISPLACED_SUFFIX = ''.comicarr-displaced''"

section \<open>The configured mode\<close>

record pconfig =
  pc_FILE_OPTS :: pval
  pc_IMP_FILE_OPTS :: pval
  pc_ARC_FILEOPS :: pval
  pc_ARC_RELATIVE :: bool

definition unset_file_opts :: "pval \<Rightarrow> bool" where
  "unset_file_opts v = (case v of VNone \<Rightarrow> True | VStr s \<Rightarrow> py_lower (py_strip s) \<in> {[], ''none''} | _ \<Rightarrow> False)"

definition resolve_mode :: "pconfig \<Rightarrow> purpose \<Rightarrow> bool \<Rightarrow> pval" where
  "resolve_mode cfg p multiple =
     (if p = Relocate then VStr ''move''
      else if p \<in> {One_off, Arc} then (if multiple then VStr ''copy'' else pc_ARC_FILEOPS cfg)
      else if p = Import \<and> \<not> unset_file_opts (pc_IMP_FILE_OPTS cfg)
      then (case pc_IMP_FILE_OPTS cfg of VStr s \<Rightarrow> VStr (py_lower (py_strip s)) | v \<Rightarrow> v)
      else pc_FILE_OPTS cfg)"

definition softlink_relative :: "pconfig \<Rightarrow> purpose \<Rightarrow> bool" where
  "softlink_relative cfg p = (p \<in> {One_off, Arc} \<and> pc_ARC_RELATIVE cfg)"

section \<open>The mechanics\<close>

text \<open>What ran: the effective mode, whether the source survived, whether it is a link now.\<close>

type_synonym effect = "string \<times> bool \<times> bool"

definition placement_fail :: "'a io" where
  "placement_fail = fail_with PlacementFailed"

definition apply_hardlink :: "fenv \<Rightarrow> string \<Rightarrow> string \<Rightarrow> effect io" where
  "apply_hardlink env path dst =
     and_then
       (try_with (and_then (os_link env path dst) (\<lambda>_. give True))
          (\<lambda>e. if e = OsErr EXDEV
               then and_then (try_with (shutil_copy env path dst) (\<lambda>_. placement_fail)) (\<lambda>_. give False)
               else placement_fail))
       (\<lambda>linked. if linked then and_then (os_lstat env dst) (\<lambda>_. give (''hardlink'', True, False))
                 else give (''copy'', True, False))"

definition softlink_attempt :: "fenv \<Rightarrow> bool \<Rightarrow> bool \<Rightarrow> string \<Rightarrow> string \<Rightarrow> unit io" where
  "softlink_attempt env arc relative path dst =
     (if \<not> arc then
        and_then (shutil_move env path dst) (\<lambda>_.
        and_then (with_state (\<lambda>fs. if lexists fs path then os_unlink env path else give ())) (\<lambda>_.
        os_symlink env (if relative then relpath env dst (dirname path) else dst) path))
      else os_symlink env (if relative then relpath env path (dirname dst) else path) dst)"

definition apply_softlink :: "fenv \<Rightarrow> bool \<Rightarrow> bool \<Rightarrow> string \<Rightarrow> string \<Rightarrow> effect io" where
  "apply_softlink env arc relative path dst =
     try_with (and_then (softlink_attempt env arc relative path dst) (\<lambda>_. give (''softlink'', True, \<not> arc)))
       (\<lambda>_. and_then (try_with (if arc then shutil_copy env path dst else shutil_copy env dst path) (\<lambda>_. placement_fail))
              (\<lambda>_. give (''copy'', True, False)))"

definition apply_mode :: "fenv \<Rightarrow> pval \<Rightarrow> bool \<Rightarrow> bool \<Rightarrow> string \<Rightarrow> string \<Rightarrow> effect io" where
  "apply_mode env mode arc relative path dst =
     (if mode = VStr ''copy'' \<or> (arc \<and> mode \<in> {VStr ''copy'', VStr ''move''})
      then and_then (try_with (shutil_copy env path dst) (\<lambda>_. placement_fail)) (\<lambda>_. give (''copy'', True, False))
      else if mode = VStr ''move''
      then and_then (try_with (shutil_move env path dst) (\<lambda>_. placement_fail)) (\<lambda>_. give (''move'', False, False))
      else if mode = VStr ''hardlink'' then apply_hardlink env path dst
      else if mode = VStr ''softlink'' then apply_softlink env arc relative path dst
      else placement_fail)"

section \<open>Displacing what is there\<close>

definition result_of :: "outcome \<Rightarrow> string \<Rightarrow> purpose \<Rightarrow> on_existing \<Rightarrow> pval \<Rightarrow> bool \<Rightarrow> bool \<Rightarrow> placement_result" where
  "result_of out dst p oe mode survived link =
     \<lparr>pr_outcome = out, pr_mode = mode, pr_destination = dst, pr_purpose = p, pr_existing = oe, pr_survived = survived,
      pr_symlink = link\<rparr>"

definition already_placed :: "string \<Rightarrow> purpose \<Rightarrow> on_existing \<Rightarrow> pval \<Rightarrow> placement_result" where
  "already_placed dst p oe mode = result_of Already_placed dst p oe mode True False"

definition placed :: "string \<Rightarrow> purpose \<Rightarrow> on_existing \<Rightarrow> effect \<Rightarrow> placement_result" where
  "placed dst p oe x = (case x of (m, survived, link) \<Rightarrow> result_of Placed dst p oe (VStr m) survived link)"

definition displaced_name :: "string \<Rightarrow> string" where
  "displaced_name dst = dst @ DISPLACED_SUFFIX"

text \<open>The mechanics with the old file aside: put back after a failed placement, removed after a good one.\<close>

definition apply_displaced :: "fenv \<Rightarrow> pval \<Rightarrow> bool \<Rightarrow> bool \<Rightarrow> string \<Rightarrow> string \<Rightarrow> effect io" where
  "apply_displaced env mode arc relative src dst =
     and_then
       (try_with (apply_mode env mode arc relative src dst)
          (\<lambda>e. if e = PlacementFailed
               then and_then (try_with (os_rename env (displaced_name dst) dst) (\<lambda>_. give ())) (\<lambda>_. fail_with e)
               else fail_with e))
       (\<lambda>x. and_then (try_with (os_unlink env (displaced_name dst)) (\<lambda>_. give ())) (\<lambda>_. give x))"

definition place_displacing ::
  "fenv \<Rightarrow> string \<Rightarrow> string \<Rightarrow> purpose \<Rightarrow> on_existing \<Rightarrow> pval \<Rightarrow> bool \<Rightarrow> bool \<Rightarrow> placement_result io" where
  "place_displacing env src dst p oe mode arc relative = with_state (\<lambda>fs.
     if \<not> lexists fs dst then and_then (apply_mode env mode arc relative src dst) (\<lambda>x. give (placed dst p oe x))
     else if stat env fs src \<noteq> None \<and> stat env fs src = stat env fs dst then give (already_placed dst p oe mode)
     else and_then (try_with (os_rename env dst (displaced_name dst)) (\<lambda>_. placement_fail)) (\<lambda>_.
          and_then (apply_displaced env mode arc relative src dst) (\<lambda>x. give (placed dst p oe x))))"

section \<open>Publishing without replacing\<close>

text \<open>The private file goes on every way out; only its absence is forgiven.\<close>

definition drop_temporary :: "fenv \<Rightarrow> string \<Rightarrow> unit io" where
  "drop_temporary env t = try_with (os_unlink env t) (\<lambda>e. if e = OsErr ENOENT then give () else fail_with e)"

text \<open>A private copy beside the destination, given its name by a link; \<open>rest\<close> runs before the private file goes.\<close>

definition publish_private :: "fenv \<Rightarrow> string \<Rightarrow> string \<Rightarrow> (string \<Rightarrow> unit io) \<Rightarrow> unit io" where
  "publish_private env src dst rest =
     and_then (mkstemp env dst) (\<lambda>t.
       finally_do (and_then (shutil_copy env src t) (\<lambda>_. and_then (os_link env t dst) (\<lambda>_. rest t))) (drop_temporary env t))"

definition publish_copy :: "fenv \<Rightarrow> string \<Rightarrow> string \<Rightarrow> unit io" where
  "publish_copy env src dst =
     and_then
       (try_with (and_then (mkstemp env dst) (\<lambda>t. give (Some t))) (\<lambda>_. give None))
       (\<lambda>r. case r of
          None \<Rightarrow> placement_fail
        | Some t \<Rightarrow>
            finally_do (try_with (and_then (shutil_copy env src t) (\<lambda>_. os_link env t dst)) (\<lambda>_. placement_fail))
              (drop_temporary env t))"

text \<open>\<open>_remove_transfer_destination\<close>: the destination goes only while it names the file this transfer put there.\<close>

definition remove_transfer_destination :: "fenv \<Rightarrow> string \<Rightarrow> string \<Rightarrow> unit io" where
  "remove_transfer_destination env dst ref =
     try_with
       (with_state (\<lambda>fs.
          case stat env fs dst of
            None \<Rightarrow> fail_with (OsErr (stat_error env fs dst))
          | Some i \<Rightarrow>
              (case stat env fs ref of
                 None \<Rightarrow> fail_with (OsErr (stat_error env fs ref))
               | Some j \<Rightarrow> if i = j then os_unlink env dst else give ())))
       (\<lambda>e. if e = OsErr ENOENT then give () else fail_with e)"

definition consume_source :: "fenv \<Rightarrow> string \<Rightarrow> string \<Rightarrow> string \<Rightarrow> unit io" where
  "consume_source env src dst ref =
     try_with (os_unlink env src) (\<lambda>_. and_then (remove_transfer_destination env dst ref) (\<lambda>_. placement_fail))"

definition publish_move :: "fenv \<Rightarrow> string \<Rightarrow> string \<Rightarrow> unit io" where
  "publish_move env src dst =
     and_then
       (try_with (and_then (os_link env src dst) (\<lambda>_. give True))
          (\<lambda>e. if e = OsErr EXDEV then give False else placement_fail))
       (\<lambda>linked. if linked then consume_source env src dst src
                 else publish_private env src dst (consume_source env src dst))"

definition restore_moved_file :: "fenv \<Rightarrow> string \<Rightarrow> string \<Rightarrow> unit io" where
  "restore_moved_file env dst src = publish_move env dst src"

definition place_refusing :: "fenv \<Rightarrow> string \<Rightarrow> string \<Rightarrow> purpose \<Rightarrow> on_existing \<Rightarrow> pval \<Rightarrow> placement_result io" where
  "place_refusing env src dst p oe mode =
     (if mode = VStr ''move'' then and_then (publish_move env src dst) (\<lambda>_. give (placed dst p oe (''move'', False, False)))
      else if mode = VStr ''copy'' then and_then (publish_copy env src dst) (\<lambda>_. give (placed dst p oe (''copy'', True, False)))
      else if mode = VStr ''hardlink''
      then and_then (try_with (and_then (os_link env src dst) (\<lambda>_. give True))
                       (\<lambda>e. if e = OsErr EXDEV then and_then (publish_copy env src dst) (\<lambda>_. give False) else placement_fail))
             (\<lambda>linked. give (placed dst p oe (if linked then ''hardlink'' else ''copy'', True, False)))
      else if mode = VStr ''softlink''
      then and_then (try_with (os_symlink env src dst) (\<lambda>_. placement_fail)) (\<lambda>_. give (placed dst p oe (''softlink'', True, False)))
      else placement_fail)"

section \<open>Placing\<close>

definition place :: "fenv \<Rightarrow> pconfig \<Rightarrow> string \<Rightarrow> string \<Rightarrow> purpose \<Rightarrow> on_existing \<Rightarrow> bool \<Rightarrow> placement_result io" where
  "place env cfg src dst p oe multiple =
     (let mode = resolve_mode cfg p multiple; arc = (p = Arc); relative = softlink_relative cfg p;
          legacy = and_then (apply_mode env mode arc relative src dst) (\<lambda>x. give (placed dst p oe x)) in
      case oe of
        Skip \<Rightarrow> with_state (\<lambda>fs. if isfile env fs dst then give (already_placed dst p oe mode) else legacy)
      | Displace \<Rightarrow> place_displacing env src dst p oe mode arc relative
      | Refuse \<Rightarrow> place_refusing env src dst p oe mode
      | Unguarded \<Rightarrow> legacy)"

end
