(* ===== verification/FileLogic.thy ===== *)
theory FileLogic
  imports FileSystem
begin

text \<open>
  How actions on files are reasoned about: triples with a postcondition for each way out, one rule per way of putting
  actions together, and what each call may change.
\<close>

section \<open>Triples\<close>

definition triple :: "(fsys \<Rightarrow> bool) \<Rightarrow> 'a io \<Rightarrow> ('a \<Rightarrow> fsys \<Rightarrow> bool) \<Rightarrow> (exn \<Rightarrow> fsys \<Rightarrow> bool) \<Rightarrow> bool" where
  "triple P a Q E \<longleftrightarrow> (\<forall>fs. P fs \<longrightarrow> (case a fs of (Inl e, t) \<Rightarrow> E e t | (Inr x, t) \<Rightarrow> Q x t))"

lemma tripleI:
  assumes "\<And>fs e t. P fs \<Longrightarrow> a fs = (Inl e, t) \<Longrightarrow> E e t" and "\<And>fs x t. P fs \<Longrightarrow> a fs = (Inr x, t) \<Longrightarrow> Q x t"
  shows "triple P a Q E"
  using assms by (auto simp: triple_def split: prod.splits sum.splits)

lemma triple_raised: "triple P a Q E \<Longrightarrow> P fs \<Longrightarrow> a fs = (Inl e, t) \<Longrightarrow> E e t"
  by (fastforce simp: triple_def)

lemma triple_returned: "triple P a Q E \<Longrightarrow> P fs \<Longrightarrow> a fs = (Inr x, t) \<Longrightarrow> Q x t"
  by (fastforce simp: triple_def)

lemma triple_conseq:
  assumes "triple P' a Q' E'" and "\<And>fs. P fs \<Longrightarrow> P' fs" and "\<And>x fs. Q' x fs \<Longrightarrow> Q x fs" and "\<And>e fs. E' e fs \<Longrightarrow> E e fs"
  shows "triple P a Q E"
  by (rule tripleI) (use assms triple_raised [OF assms(1)] triple_returned [OF assms(1)] in blast)+

lemma triple_give: "(\<And>fs. P fs \<Longrightarrow> Q x fs) \<Longrightarrow> triple P (give x) Q E"
  by (auto intro!: tripleI simp: give_def)

lemma triple_fail: "(\<And>fs. P fs \<Longrightarrow> E e fs) \<Longrightarrow> triple P (fail_with e) Q E"
  by (auto intro!: tripleI simp: fail_with_def)

lemma triple_then:
  assumes "triple P a R E" and "\<And>x. triple (R x) (f x) Q E"
  shows "triple P (and_then a f) Q E"
proof (rule tripleI)
  fix fs e t
  assume p: "P fs" and g: "and_then a f fs = (Inl e, t)"
  obtain r u where a: "a fs = (r, u)" by force
  show "E e t"
  proof (cases r)
    case (Inl d)
    then show ?thesis using triple_raised [OF assms(1) p] a g by (simp add: and_then_def)
  next
    case (Inr x)
    then have "R x u" using triple_returned [OF assms(1) p] a by simp
    then show ?thesis using triple_raised [OF assms(2)] a g Inr by (simp add: and_then_def)
  qed
next
  fix fs y t
  assume p: "P fs" and g: "and_then a f fs = (Inr y, t)"
  obtain r u where a: "a fs = (r, u)" by force
  show "Q y t"
  proof (cases r)
    case (Inr x)
    then have "R x u" using triple_returned [OF assms(1) p] a by simp
    then show ?thesis using triple_returned [OF assms(2)] a g Inr by (simp add: and_then_def)
  qed (use a g in \<open>simp add: and_then_def\<close>)
qed

lemma triple_try:
  assumes "triple P a Q R" and "\<And>e. triple (R e) (h e) Q E"
  shows "triple P (try_with a h) Q E"
proof (rule tripleI)
  fix fs e t
  assume p: "P fs" and g: "try_with a h fs = (Inl e, t)"
  obtain r u where a: "a fs = (r, u)" by force
  show "E e t"
  proof (cases r)
    case (Inl d)
    then have "R d u" using triple_raised [OF assms(1) p] a by simp
    then show ?thesis using triple_raised [OF assms(2)] a g Inl by (simp add: try_with_def)
  qed (use a g in \<open>simp add: try_with_def\<close>)
next
  fix fs y t
  assume p: "P fs" and g: "try_with a h fs = (Inr y, t)"
  obtain r u where a: "a fs = (r, u)" by force
  show "Q y t"
  proof (cases r)
    case (Inl d)
    then have "R d u" using triple_raised [OF assms(1) p] a by simp
    then show ?thesis using triple_returned [OF assms(2)] a g Inl by (simp add: try_with_def)
  next
    case (Inr x)
    then show ?thesis using triple_returned [OF assms(1) p] a g by (simp add: try_with_def)
  qed
qed

lemma triple_finally:
  assumes "triple P a R S" and "\<And>x. triple (R x) b (\<lambda>_. Q x) E" and "\<And>e. triple (S e) b (\<lambda>_. E e) E"
  shows "triple P (finally_do a b) Q E"
proof (rule tripleI)
  fix fs e t
  assume p: "P fs" and f: "finally_do a b fs = (Inl e, t)"
  obtain r u where a: "a fs = (r, u)" by force
  obtain s v where b: "b u = (s, v)" by force
  show "E e t"
    using p f a b triple_raised [OF assms(1) p] triple_returned [OF assms(1) p] triple_raised [OF assms(2)]
      triple_raised [OF assms(3)] triple_returned [OF assms(3)]
    by (cases r; cases s) (auto simp: finally_do_def)
next
  fix fs x t
  assume p: "P fs" and f: "finally_do a b fs = (Inr x, t)"
  obtain r u where a: "a fs = (r, u)" by force
  obtain s v where b: "b u = (s, v)" by force
  show "Q x t"
    using p f a b triple_returned [OF assms(1) p] triple_returned [OF assms(2)]
    by (cases r; cases s) (auto simp: finally_do_def)
qed

lemma triple_state:
  assumes "\<And>fs. P fs \<Longrightarrow> triple (\<lambda>t. P t \<and> t = fs) (f fs) Q E"
  shows "triple P (with_state f) Q E"
  by (rule tripleI) (auto simp: with_state_def dest: triple_raised [OF assms] triple_returned [OF assms])

lemma triple_then_give: "triple P a Q E \<Longrightarrow> triple P (and_then a (\<lambda>_. give y)) (\<lambda>_ _. True) E"
  by (erule triple_then) (simp add: triple_give)

lemma triple_pure: "(A \<Longrightarrow> triple P a Q E) \<Longrightarrow> triple (\<lambda>fs. A \<and> P fs) a Q E"
  by (auto simp: triple_def)

lemma triple_if: "(b \<Longrightarrow> triple P a Q E) \<Longrightarrow> (\<not> b \<Longrightarrow> triple P c Q E) \<Longrightarrow> triple P (if b then a else c) Q E"
  by simp

section \<open>What the calls change\<close>

definition same_inodes :: "fsys \<Rightarrow> fsys \<Rightarrow> bool" where
  "same_inodes fs t \<longleftrightarrow> fs_inodes t = fs_inodes fs \<and> fs_next t = fs_next fs"

lemma link_raised: "os_link env a b fs = (Inl e, t) \<Longrightarrow> same_inodes fs t \<and> fs_names t = fs_names fs \<and> (\<exists>x. e = OsErr x)"
  by (auto simp: os_link_def call_def Let_def same_inodes_def split: option.splits sum.splits if_splits)

lemma link_returned:
  "os_link env a b fs = (Inr x, t) \<Longrightarrow> same_inodes fs t
     \<and> (\<exists>i. fs_names fs a = Some i \<and> fs_names fs b = None \<and> fs_names t = (fs_names fs)(b \<mapsto> i))"
  by (auto simp: os_link_def call_def Let_def same_inodes_def lexists_def split: option.splits sum.splits if_splits)

lemma unlink_raised: "os_unlink env a fs = (Inl e, t) \<Longrightarrow> same_inodes fs t \<and> fs_names t = fs_names fs \<and> (\<exists>x. e = OsErr x)"
  by (auto simp: os_unlink_def call_def Let_def same_inodes_def split: option.splits sum.splits if_splits)

lemma unlink_returned: "os_unlink env a fs = (Inr x, t) \<Longrightarrow> same_inodes fs t \<and> fs_names t = (fs_names fs)(a := None)"
  by (auto simp: os_unlink_def call_def Let_def same_inodes_def split: option.splits sum.splits if_splits)

lemma lstat_any: "os_lstat env a fs = (r, t) \<Longrightarrow> same_inodes fs t \<and> fs_names t = fs_names fs"
  by (auto simp: os_lstat_def call_def Let_def same_inodes_def split: option.splits sum.splits if_splits)

lemma rename_raised: "os_rename env a b fs = (Inl e, t) \<Longrightarrow> same_inodes fs t \<and> fs_names t = fs_names fs \<and> (\<exists>x. e = OsErr x)"
  by (auto simp: os_rename_def call_def Let_def same_inodes_def split: option.splits sum.splits if_splits)

lemma rename_returned:
  "os_rename env a b fs = (Inr x, t) \<Longrightarrow> same_inodes fs t \<and> (\<exists>i. fs_names fs a = Some i
     \<and> (fs_names fs b = Some i \<and> fs_names t = fs_names fs
        \<or> fs_names fs b \<noteq> Some i \<and> fs_names t = (fs_names fs)(a := None, b \<mapsto> i)))"
  by (auto simp: os_rename_def call_def Let_def same_inodes_def split: option.splits sum.splits if_splits)

lemma symlink_raised: "os_symlink env x b fs = (Inl e, t) \<Longrightarrow> same_inodes fs t \<and> fs_names t = fs_names fs \<and> (\<exists>x. e = OsErr x)"
  by (auto simp: os_symlink_def call_def Let_def same_inodes_def split: option.splits sum.splits if_splits)

lemma symlink_returned:
  "os_symlink env x b fs = (Inr y, t) \<Longrightarrow> fs_names fs b = None \<and> fs_names t = (fs_names fs)(b \<mapsto> fs_next fs)
     \<and> fs_inodes t = (fs_inodes fs)(fs_next fs \<mapsto> ILink x) \<and> fs_next t = Suc (fs_next fs)"
  by (auto simp: os_symlink_def call_def Let_def lexists_def new_inode_def split: option.splits sum.splits if_splits)

lemma mkstemp_raised: "mkstemp env d fs = (Inl e, t) \<Longrightarrow> same_inodes fs t \<and> fs_names t = fs_names fs \<and> (\<exists>x. e = OsErr x)"
  by (auto simp: mkstemp_def with_state_def and_then_def give_def call_def Let_def same_inodes_def
      split: option.splits sum.splits if_splits)

lemma mkstemp_returned:
  "mkstemp env d fs = (Inr p, t) \<Longrightarrow> fs_names fs p = None \<and> fs_names t = (fs_names fs)(p \<mapsto> fs_next fs)
     \<and> fs_inodes t = (fs_inodes fs)(fs_next fs \<mapsto> IFile []) \<and> fs_next t = Suc (fs_next fs)"
  by (auto simp: mkstemp_def with_state_def and_then_def give_def call_def Let_def lexists_def new_inode_def
      split: option.splits sum.splits if_splits)

lemma node_at_cong: "fs_inodes t = fs_inodes fs \<Longrightarrow> fs_names t p = fs_names fs p \<Longrightarrow> node_at t p = node_at fs p"
  by (cases "fs_names fs p") (simp_all add: node_at_def)

section \<open>Plain names\<close>

text \<open>A name that is not a link is reached directly.\<close>

lemma resolve_plain:
  assumes "\<not> islink fs p"
  shows "resolve env fs p = Some p"
proof -
  have "follow (Suc n) env fs p = Some p" for n using assms by (auto simp: islink_def split: option.splits inode.splits)
  from this [of 39] show ?thesis by (simp add: resolve_def)
qed

lemma islink_cong: "fs_names t = fs_names fs \<Longrightarrow> fs_inodes t = fs_inodes fs \<Longrightarrow> islink t p = islink fs p"
  by (cases "fs_names fs p") (simp_all add: islink_def node_at_def)

lemma stat_plain: "\<not> islink fs p \<Longrightarrow> stat env fs p = fs_names fs p"
  by (simp add: stat_def resolve_plain)

lemma file_plain: "fs_names fs p = Some i \<Longrightarrow> fs_inodes fs i = Some (IFile c) \<Longrightarrow> \<not> islink fs p"
  by (simp add: islink_def node_at_def)

lemma islink_calls [simp]: "islink (fs\<lparr>fs_calls := n\<rparr>) p = islink fs p"
  by (rule islink_cong) simp_all

lemma tick_any: "call env Inr fs = (r, t) \<Longrightarrow> same_inodes fs t \<and> fs_names t = fs_names fs"
  by (auto simp: call_def Let_def same_inodes_def split: option.splits)

text \<open>The inode a write to a plain name ends in, and what a copy between plain names leaves.\<close>

definition target_inode :: "fsys \<Rightarrow> string \<Rightarrow> nat" where
  "target_inode fs p = (case fs_names fs p of None \<Rightarrow> fs_next fs | Some k \<Rightarrow> k)"

definition written :: "fsys \<Rightarrow> string \<Rightarrow> string \<Rightarrow> fsys \<Rightarrow> bool" where
  "written fs p c t \<longleftrightarrow> (let k = target_inode fs p in
     fs_names t = (fs_names fs)(p \<mapsto> k) \<and> fs_inodes t = (fs_inodes fs)(k \<mapsto> IFile c)
     \<and> fs_next t = (if fs_names fs p = None then Suc (fs_next fs) else fs_next fs))"

lemma written_cong:
  "fs_names s = fs_names fs \<Longrightarrow> fs_inodes s = fs_inodes fs \<Longrightarrow> fs_next s = fs_next fs \<Longrightarrow> written s p c t = written fs p c t"
  by (cases "fs_names fs p") (simp_all add: written_def target_inode_def)

lemma open_write_cases:
  assumes "\<not> islink fs p" and "open_write env p fs = (r, t)"
  shows "(\<exists>e. r = Inl e \<and> same_inodes fs t \<and> fs_names t = fs_names fs) \<or> (r = Inr () \<and> written fs p [] t)"
  using assms by (auto simp: open_write_def call_def Let_def resolve_plain written_def target_inode_def new_inode_def
      same_inodes_def fun_upd_idem split: option.splits)

lemma written_again: "written fs p c t \<Longrightarrow> written t p d u \<Longrightarrow> written fs p d u"
  by (auto simp: written_def target_inode_def Let_def split: option.splits)

lemma written_existing:
  "written fs p c t \<Longrightarrow> fs_names fs p = Some k \<Longrightarrow> fs_names t = fs_names fs
     \<and> fs_inodes t = (fs_inodes fs)(k \<mapsto> IFile c) \<and> fs_next t = fs_next fs"
  by (simp add: written_def target_inode_def fun_upd_idem)

lemma written_file: "written fs p c t \<Longrightarrow> fs_names t p = Some (target_inode fs p) \<and> fs_inodes t (target_inode fs p) = Some (IFile c)"
  by (simp add: written_def Let_def)

lemma write_bytes_cases:
  assumes "fs_names fs p = Some k" and "fs_inodes fs k = Some (IFile d)" and "write_bytes env p c fs = (r, t)"
  shows "(\<exists>e x. r = Inl e \<and> written fs p x t) \<or> (r = Inr () \<and> written fs p c t)"
proof -
  have "stat env (fs\<lparr>fs_calls := Suc (fs_calls fs)\<rparr>) p = Some k"
    using file_plain [OF assms(1,2)] assms(1) by (simp add: stat_plain)
  then show ?thesis using assms
    by (auto simp: write_bytes_def Let_def written_def target_inode_def fun_upd_idem split: option.splits)
qed

lemma written_same: "written fs p c t \<Longrightarrow> same_inodes t u \<Longrightarrow> fs_names u = fs_names t \<Longrightarrow> written fs p c u"
  by (simp add: written_def same_inodes_def Let_def)

lemma copy_cases:
  assumes "fs_names fs src = Some i" and "fs_inodes fs i = Some (IFile c)" and "\<not> islink fs dst" and "fs_names fs dst \<noteq> Some i"
    and "shutil_copy env src dst fs = (r, t)"
  shows "(\<exists>e. r = Inl e \<and> same_inodes fs t \<and> fs_names t = fs_names fs) \<or> (\<exists>e x. r = Inl e \<and> written fs dst x t)
    \<or> (r = Inr () \<and> written fs dst c t)"
proof -
  have s: "stat env fs src = Some i" "stat env fs dst \<noteq> Some i" "bytes_of fs i = c"
    using stat_plain [OF file_plain [OF assms(1,2)]] stat_plain [OF assms(3)] assms(1,2,4) by (simp_all add: bytes_of_def)
  obtain r1 t1 where c1: "call env Inr fs = (r1, t1)" by force
  obtain r2 t2 where c2: "open_write env dst t1 = (r2, t2)" by force
  obtain r3 t3 where c3: "write_bytes env dst c t2 = (r3, t3)" by force
  obtain r4 t4 where c4: "call env Inr t3 = (r4, t4)" by force
  have u1: "same_inodes fs t1" "fs_names t1 = fs_names fs" using tick_any [OF c1] by auto
  have l1: "\<not> islink t1 dst" using assms(3) islink_cong [of t1 fs] u1 by (simp add: same_inodes_def)
  note run = assms(5) [unfolded shutil_copy_def with_state_def s(1) option.case]
  show ?thesis
  proof (cases r1)
    case (Inl e)
    then show ?thesis using run s(2) c1 u1 by (auto simp: and_then_def)
  next
    case r1: (Inr x)
    from open_write_cases [OF l1 c2] show ?thesis
    proof
      assume "\<exists>e. r2 = Inl e \<and> same_inodes t1 t2 \<and> fs_names t2 = fs_names t1"
      then show ?thesis using run s(2) c1 r1 c2 u1 by (auto simp: and_then_def same_inodes_def)
    next
      assume o: "r2 = Inr () \<and> written t1 dst [] t2"
      then have w2: "written fs dst [] t2" using written_cong [of fs t1] u1 by (simp add: same_inodes_def)
      from write_bytes_cases [OF _ _ c3] written_file [OF w2]
      have "(\<exists>e x. r3 = Inl e \<and> written t2 dst x t3) \<or> (r3 = Inr () \<and> written t2 dst c t3)" by blast
      then show ?thesis
      proof
        assume "\<exists>e x. r3 = Inl e \<and> written t2 dst x t3"
        then obtain e x where x: "r3 = Inl e" "written fs dst x t3" using written_again [OF w2] by blast
        have "r = Inl e \<and> t = t3" using run s(2,3) c1 r1 c2 o c3 x(1) by (auto simp: and_then_def)
        then show ?thesis using x(2) by blast
      next
        assume w3: "r3 = Inr () \<and> written t2 dst c t3"
        then have "written fs dst c t4" using written_again [OF w2] written_same tick_any [OF c4] by blast
        then show ?thesis using run s(2,3) c1 r1 c2 o c3 w3 c4 by (cases r4) (auto simp: and_then_def)
      qed
    qed
  qed
qed

text \<open>A copy of a file onto itself is refused.\<close>

lemma copy_self:
  assumes "fs_names fs src = Some i" and "fs_inodes fs i = Some (IFile c)" and "fs_names fs dst = Some i"
  shows "shutil_copy env src dst fs = (Inl (OsErr ESAME), fs)"
  using stat_plain [OF file_plain [OF assms(1,2)]] stat_plain [OF file_plain [OF assms(3,2)]] assms(1,3)
  by (simp add: shutil_copy_def with_state_def fail_with_def)

lemma copy_missing: "fs_names fs src = None \<Longrightarrow> shutil_copy env src dst fs = (Inl (OsErr ENOENT), fs)"
  using resolve_plain [of fs src env] by (simp add: shutil_copy_def with_state_def fail_with_def stat_def stat_error_def islink_def node_at_def)

text \<open>Whatever is copied, only the inode behind the target changes.\<close>

definition only_inode :: "fsys \<Rightarrow> nat \<Rightarrow> fsys \<Rightarrow> bool" where
  "only_inode f0 k fs \<longleftrightarrow> fs_names fs = fs_names f0 \<and> fs_next fs = fs_next f0
     \<and> (\<forall>j. j \<noteq> k \<longrightarrow> fs_inodes fs j = fs_inodes f0 j) \<and> (\<exists>y. fs_inodes fs k = Some (IFile y))"

lemma only_inode_written:
  assumes "only_inode f0 k fs" and "fs_names f0 b = Some k" and "written fs b c t"
  shows "only_inode f0 k t"
proof -
  have "fs_names fs b = Some k" using assms(1,2) by (simp add: only_inode_def)
  from written_existing [OF assms(3) this] show ?thesis using assms(1) by (simp add: only_inode_def)
qed

lemma only_inode_frame: "only_inode f0 k fs \<Longrightarrow> same_inodes fs t \<Longrightarrow> fs_names t = fs_names fs \<Longrightarrow> only_inode f0 k t"
  by (simp add: only_inode_def same_inodes_def)

lemma copy_only:
  assumes "fs_names f0 b = Some k"
  shows "triple (only_inode f0 k) (shutil_copy env a b) (\<lambda>_. only_inode f0 k) (\<lambda>_. only_inode f0 k)"
proof -
  let ?I = "only_inode f0 k"
  have at: "fs_names fs b = Some k \<and> (\<exists>y. fs_inodes fs k = Some (IFile y))" if "?I fs" for fs using that assms by (simp add: only_inode_def)
  have c: "triple ?I (call env Inr) (\<lambda>_. ?I) (\<lambda>_. ?I)"
    by (rule tripleI) (use only_inode_frame tick_any in blast)+
  have o: "triple ?I (open_write env b) (\<lambda>_. ?I) (\<lambda>_. ?I)"
  proof (rule tripleI)
    fix fs e t
    assume p: "?I fs" and r: "open_write env b fs = (Inl e, t)"
    obtain y where y: "fs_names fs b = Some k" "fs_inodes fs k = Some (IFile y)" using at [OF p] by blast
    show "?I t" using open_write_cases [OF file_plain [OF y] r] only_inode_frame [OF p] by blast
  next
    fix fs x t
    assume p: "?I fs" and r: "open_write env b fs = (Inr x, t)"
    obtain y where y: "fs_names fs b = Some k" "fs_inodes fs k = Some (IFile y)" using at [OF p] by blast
    show "?I t" using open_write_cases [OF file_plain [OF y] r] only_inode_written [OF p assms] by blast
  qed
  have w: "triple ?I (write_bytes env b x) (\<lambda>_. ?I) (\<lambda>_. ?I)" for x
  proof (rule tripleI)
    fix fs e t
    assume p: "?I fs" and r: "write_bytes env b x fs = (Inl e, t)"
    obtain y where y: "fs_names fs b = Some k" "fs_inodes fs k = Some (IFile y)" using at [OF p] by blast
    show "?I t" using write_bytes_cases [OF y r] only_inode_written [OF p assms] by blast
  next
    fix fs z t
    assume p: "?I fs" and r: "write_bytes env b x fs = (Inr z, t)"
    obtain y where y: "fs_names fs b = Some k" "fs_inodes fs k = Some (IFile y)" using at [OF p] by blast
    show "?I t" using write_bytes_cases [OF y r] only_inode_written [OF p assms] by blast
  qed
  note copied = triple_then [OF c triple_then [OF o triple_then [OF w c]]]
  have "triple (\<lambda>t. ?I t \<and> t = fs) (case stat env fs a of
        None \<Rightarrow> fail_with (OsErr (stat_error env fs a))
      | Some i \<Rightarrow>
          if stat env fs b = Some i then fail_with (OsErr ESAME)
          else and_then (call env Inr) (\<lambda>_. and_then (open_write env b) (\<lambda>_.
               and_then (write_bytes env b (bytes_of fs i)) (\<lambda>_. call env Inr)))) (\<lambda>_. ?I) (\<lambda>_. ?I)" for fs
    by (cases "stat env fs a") (auto intro!: triple_fail triple_conseq [OF copied])
  then show ?thesis unfolding shutil_copy_def by (rule triple_state)
qed

section \<open>Invariants that only look at names and inodes\<close>

text \<open>The contract of an invariant the failing calls keep: it does not depend on how many calls were made.  A call that
  raises then keeps it, and what is left is the state of a call that was carried out.\<close>

locale file_invariant =
  fixes I :: "fsys \<Rightarrow> bool"
  assumes frame: "I fs \<Longrightarrow> same_inodes fs t \<Longrightarrow> fs_names t = fs_names fs \<Longrightarrow> I t"
begin

lemma link:
  assumes "\<And>fs t i. I fs \<Longrightarrow> same_inodes fs t \<Longrightarrow> fs_names fs a = Some i \<Longrightarrow> fs_names fs b = None
    \<Longrightarrow> fs_names t = (fs_names fs)(b \<mapsto> i) \<Longrightarrow> Q t"
  shows "triple I (os_link env a b) (\<lambda>_. Q) (\<lambda>_. I)"
  by (rule tripleI) (use frame link_raised in blast, use assms link_returned in blast)

lemma unlink:
  assumes "\<And>fs t. I fs \<Longrightarrow> same_inodes fs t \<Longrightarrow> fs_names t = (fs_names fs)(a := None) \<Longrightarrow> Q t"
  shows "triple I (os_unlink env a) (\<lambda>_. Q) (\<lambda>_. I)"
  by (rule tripleI) (use frame unlink_raised in blast, use assms unlink_returned in blast)

lemma symlink:
  assumes "\<And>fs t. I fs \<Longrightarrow> fs_names fs b = None \<Longrightarrow> fs_names t = (fs_names fs)(b \<mapsto> fs_next fs)
    \<Longrightarrow> fs_inodes t = (fs_inodes fs)(fs_next fs \<mapsto> ILink x) \<Longrightarrow> fs_next t = Suc (fs_next fs) \<Longrightarrow> Q t"
  shows "triple I (os_symlink env x b) (\<lambda>_. Q) (\<lambda>_. I)"
  by (rule tripleI) (use frame symlink_raised in blast, use assms symlink_returned in blast)

lemma rename:
  assumes "\<And>fs t i. I fs \<Longrightarrow> same_inodes fs t \<Longrightarrow> fs_names fs a = Some i
    \<Longrightarrow> fs_names fs b = Some i \<and> fs_names t = fs_names fs \<or> fs_names t = (fs_names fs)(a := None, b \<mapsto> i) \<Longrightarrow> Q t"
  shows "triple I (os_rename env a b) (\<lambda>_. Q) (\<lambda>_. I)"
  by (rule tripleI) (use frame rename_raised in blast, use assms rename_returned in blast)

lemma lstat: "triple I (os_lstat env a) (\<lambda>_. I) (\<lambda>_. I)"
  by (rule tripleI) (use frame lstat_any in blast)+

lemma make_temporary:
  assumes "\<And>p fs t. I fs \<Longrightarrow> fs_names fs p = None \<Longrightarrow> fs_names t = (fs_names fs)(p \<mapsto> fs_next fs)
    \<Longrightarrow> fs_inodes t = (fs_inodes fs)(fs_next fs \<mapsto> IFile []) \<Longrightarrow> fs_next t = Suc (fs_next fs) \<Longrightarrow> Q p t"
  shows "triple I (mkstemp env d) Q (\<lambda>_. I)"
  by (rule tripleI) (use frame mkstemp_raised in blast, use assms mkstemp_returned in blast)

text \<open>A raised copy and one carried out, between plain names.\<close>

lemma copy_plain:
  assumes "\<And>fs. I fs \<Longrightarrow> \<not> islink fs b \<and> (\<forall>i. fs_names fs a = Some i \<longrightarrow> (\<exists>c. fs_inodes fs i = Some (IFile c)))"
    and "\<And>fs x t. I fs \<Longrightarrow> written fs b x t \<Longrightarrow> fs_names fs b \<noteq> fs_names fs a \<Longrightarrow> I t"
  shows "triple I (shutil_copy env a b) (\<lambda>_. I) (\<lambda>_. I)"
proof -
  have step: "I u" if p: "I fs" and c: "shutil_copy env a b fs = (r, u)" for fs r u
  proof (cases "fs_names fs a")
    case None
    then show ?thesis using copy_missing [OF None, of env b] c p by simp
  next
    case (Some i)
    obtain x where x: "fs_inodes fs i = Some (IFile x)" using assms(1) [OF p] Some by blast
    show ?thesis
    proof (cases "fs_names fs b = Some i")
      case True
      then show ?thesis using copy_self [OF Some x True, of env] c p by simp
    next
      case False
      have "\<not> islink fs b" using assms(1) [OF p] by blast
      from copy_cases [OF Some x this False c] show ?thesis
        using frame [OF p] assms(2) [OF p] False Some by (metis (no_types))
    qed
  qed
  show ?thesis by (rule tripleI) (simp_all add: step)
qed

end

end
