(* ===== verification/PublishProps.thy ===== *)
theory PublishProps
  imports Placement FileLogic
begin

text \<open>
  The refusing policy of a placement, whatever calls fail: it replaces nothing and loses nothing, and its result says
  where the comic is.
\<close>

section \<open>Publishing\<close>

text \<open>\<open>f0\<close> is the state before: other names keep their inodes, and no inode of then has changed.\<close>

definition kept :: "fsys \<Rightarrow> string \<Rightarrow> fsys \<Rightarrow> bool" where
  "kept f0 src fs \<longleftrightarrow> (\<forall>p j. p \<noteq> src \<and> fs_names f0 p = Some j \<longrightarrow> fs_names fs p = Some j)
     \<and> (\<forall>j < fs_next f0. fs_inodes fs j = fs_inodes f0 j) \<and> fs_next f0 \<le> fs_next fs"

text \<open>Every name is an inode that is there.\<close>

definition fs_ok :: "fsys \<Rightarrow> bool" where
  "fs_ok fs \<longleftrightarrow> (\<forall>p i. fs_names fs p = Some i \<longrightarrow> i < fs_next fs \<and> fs_inodes fs i \<noteq> None)"

definition source_file :: "fsys \<Rightarrow> string \<Rightarrow> nat \<Rightarrow> string \<Rightarrow> bool" where
  "source_file fs src i c \<longleftrightarrow> fs_names fs src = Some i \<and> fs_inodes fs i = Some (IFile c) \<and> i < fs_next fs"

definition holds_file :: "fsys \<Rightarrow> string \<Rightarrow> string \<Rightarrow> bool" where
  "holds_file fs p c \<longleftrightarrow> (\<exists>k. source_file fs p k c)"

text \<open>Before the source goes, and a name that was free.\<close>

definition before :: "fsys \<Rightarrow> string \<Rightarrow> nat \<Rightarrow> fsys \<Rightarrow> bool" where
  "before f0 src i fs \<longleftrightarrow> kept f0 src fs \<and> fs_names fs src = Some i \<and> i < fs_next f0"

definition ours :: "fsys \<Rightarrow> string \<Rightarrow> string \<Rightarrow> bool" where
  "ours f0 src p \<longleftrightarrow> p \<noteq> src \<and> fs_names f0 p = None"

lemma kept_refl: "kept fs src fs"
  by (simp add: kept_def)

lemma kept_frame: "kept f0 src fs \<Longrightarrow> same_inodes fs t \<Longrightarrow> fs_names t = fs_names fs \<Longrightarrow> kept f0 src t"
  by (simp add: kept_def same_inodes_def)

interpretation before: file_invariant "before f0 src i" for f0 src i
  by unfold_locales (auto simp: before_def intro: kept_frame)

lemma before_free: "before f0 src i fs \<Longrightarrow> fs_names fs p = None \<Longrightarrow> ours f0 src p"
  unfolding before_def kept_def ours_def by (metis not_None_eq)

lemma source_name: "source_file fs p k c \<Longrightarrow> same_inodes fs t \<Longrightarrow> fs_names t q = Some k \<Longrightarrow> source_file t q k c"
  by (simp add: source_file_def same_inodes_def)

lemma holds_name: "holds_file fs p c \<Longrightarrow> same_inodes fs t \<Longrightarrow> fs_names t q = fs_names fs p \<Longrightarrow> holds_file t q c"
  by (auto simp: holds_file_def source_file_def same_inodes_def)

text \<open>Giving a free name to an inode, or taking back one of our names, leaves what was there.\<close>

lemma before_name:
  "before f0 src i fs \<Longrightarrow> ours f0 src p \<Longrightarrow> same_inodes fs t \<Longrightarrow> fs_names t = (fs_names fs)(p := x) \<Longrightarrow> before f0 src i t"
  by (auto simp: before_def kept_def ours_def same_inodes_def)

lemma kept_drop:
  "kept f0 src fs \<Longrightarrow> ours f0 src p \<Longrightarrow> same_inodes fs t \<Longrightarrow> fs_names t = (fs_names fs)(p := None) \<Longrightarrow> kept f0 src t"
  by (auto simp: kept_def ours_def same_inodes_def)

section \<open>Consuming the source\<close>

definition published :: "fsys \<Rightarrow> string \<Rightarrow> string \<Rightarrow> string \<Rightarrow> fsys \<Rightarrow> bool" where
  "published f0 src dst c fs \<longleftrightarrow> kept f0 src fs \<and> fs_names fs src = None \<and> holds_file fs dst c"

interpretation published: file_invariant "published f0 src dst c" for f0 src dst c
  by unfold_locales (use kept_frame holds_name in \<open>auto simp: published_def\<close>)

lemma remove_destination:
  assumes "ours f0 src dst"
  shows "triple (before f0 src i) (remove_transfer_destination env dst ref) (\<lambda>_. before f0 src i) (\<lambda>_. before f0 src i)"
proof -
  note u = before.unlink [of f0 src i dst "before f0 src i", OF before_name [OF _ assms]]
  show ?thesis unfolding remove_transfer_destination_def
    by (intro triple_try [where R = "\<lambda>_. before f0 src i"] triple_state)
      (auto intro: triple_fail triple_give triple_conseq [OF u] split: option.splits)
qed

lemma consume:
  assumes "ours f0 src dst"
  shows "triple (\<lambda>fs. before f0 src i fs \<and> holds_file fs dst c) (consume_source env src dst ref)
    (\<lambda>_. published f0 src dst c) (\<lambda>_. before f0 src i)"
proof -
  have d: "dst \<noteq> src" using assms by (simp add: ours_def)
  have inv: "file_invariant (\<lambda>fs. before f0 src i fs \<and> holds_file fs dst c)"
    by unfold_locales (use before.frame holds_name in auto)
  have u: "triple (\<lambda>fs. before f0 src i fs \<and> holds_file fs dst c) (os_unlink env src)
      (\<lambda>_. published f0 src dst c) (\<lambda>_ fs. before f0 src i fs \<and> holds_file fs dst c)"
  proof (rule file_invariant.unlink [OF inv])
    fix fs t
    assume p: "before f0 src i fs \<and> holds_file fs dst c" and n: "same_inodes fs t" "fs_names t = (fs_names fs)(src := None)"
    have "kept f0 src t" using p n by (auto simp: before_def kept_def same_inodes_def)
    moreover have "holds_file t dst c" using holds_name [of fs dst c t dst] p n d by simp
    ultimately show "published f0 src dst c t" using n(2) by (simp add: published_def)
  qed
  show ?thesis unfolding consume_source_def placement_fail_def
    by (intro triple_try [OF u] triple_then [OF triple_conseq [OF remove_destination [OF assms]]] triple_fail) auto
qed

section \<open>A private copy\<close>

lemma before_source: "before f0 src i fs \<Longrightarrow> source_file f0 src i c \<Longrightarrow> source_file fs src i c"
  by (auto simp: before_def source_file_def kept_def)

text \<open>The private file \<open>t\<close>, which is not an inode of before.\<close>

definition privately :: "fsys \<Rightarrow> string \<Rightarrow> nat \<Rightarrow> string \<Rightarrow> fsys \<Rightarrow> bool" where
  "privately f0 src i t fs \<longleftrightarrow> before f0 src i fs \<and> ours f0 src t \<and> (\<exists>k x. source_file fs t k x \<and> fs_next f0 \<le> k)"

interpretation privately: file_invariant "privately f0 src i t" for f0 src i t
proof unfold_locales
  fix fs u
  assume "privately f0 src i t fs" and "same_inodes fs u" and "fs_names u = fs_names fs"
  then show "privately f0 src i t u"
    using before.frame [of f0 src i fs u] by (simp add: privately_def source_file_def same_inodes_def)
qed

lemma make_private: "triple (before f0 src i) (mkstemp env dst) (\<lambda>t. privately f0 src i t) (\<lambda>_. before f0 src i)"
proof (rule before.make_temporary)
  fix t and fs u :: fsys
  assume p: "before f0 src i fs" and n: "fs_names fs t = None" "fs_names u = (fs_names fs)(t \<mapsto> fs_next fs)"
    "fs_inodes u = (fs_inodes fs)(fs_next fs \<mapsto> IFile [])" "fs_next u = Suc (fs_next fs)"
  have o: "ours f0 src t" by (rule before_free [OF p n(1)])
  have "before f0 src i u" using p n o by (auto simp: before_def kept_def ours_def)
  then show "privately f0 src i t u" using o n p by (auto simp: privately_def before_def kept_def source_file_def)
qed

lemma fill_private:
  assumes s: "source_file f0 src i c"
  shows "triple (privately f0 src i t) (shutil_copy env src t)
    (\<lambda>_ fs. privately f0 src i t fs \<and> holds_file fs t c) (\<lambda>_. privately f0 src i t)"
proof -
  have step: "(r = Inr () \<longrightarrow> holds_file u t c) \<and> privately f0 src i t u"
    if p: "privately f0 src i t fs" and c: "shutil_copy env src t fs = (r, u)" for fs r u
  proof -
    obtain k x where b: "before f0 src i fs" "ours f0 src t" "source_file fs t k x" "fs_next f0 \<le> k"
      using p by (auto simp: privately_def)
    have k: "fs_names fs t = Some k" "fs_inodes fs k = Some (IFile x)" using b(3) by (simp_all add: source_file_def)
    have src: "fs_names fs src = Some i" "fs_inodes fs i = Some (IFile c)" "i < fs_next f0"
      using before_source [OF b(1) s] s by (auto simp: source_file_def)
    have w: "privately f0 src i t u \<and> holds_file u t y" if "written fs t y u" for y
    proof -
      note n = written_existing [OF that k(1)]
      have "before f0 src i u" using b(1,4) n by (simp add: before_def kept_def)
      moreover have "source_file u t k y" using b(3) n by (simp add: source_file_def)
      ultimately show ?thesis using b(2,4) by (auto simp: privately_def holds_file_def)
    qed
    have "fs_names fs t \<noteq> Some i" using k(1) b(4) src(3) by auto
    from copy_cases [OF src(1,2) file_plain [OF k] this c] show ?thesis
    proof (elim disjE exE conjE)
      fix e
      assume "r = Inl e" "same_inodes fs u" "fs_names u = fs_names fs"
      then show ?thesis using privately.frame [OF p] by simp
    qed (simp_all add: w)
  qed
  show ?thesis by (rule tripleI) (simp_all add: step)
qed

lemma publish_private_file:
  "triple (\<lambda>fs. privately f0 src i t fs \<and> holds_file fs t c) (os_link env t dst)
    (\<lambda>_ fs. privately f0 src i t fs \<and> t \<noteq> dst \<and> ours f0 src dst \<and> holds_file fs dst c) (\<lambda>_. privately f0 src i t)"
proof -
  have inv: "file_invariant (\<lambda>fs. privately f0 src i t fs \<and> holds_file fs t c)"
    by unfold_locales (use privately.frame holds_name in auto)
  have "triple (\<lambda>fs. privately f0 src i t fs \<and> holds_file fs t c) (os_link env t dst)
    (\<lambda>_ fs. privately f0 src i t fs \<and> t \<noteq> dst \<and> ours f0 src dst \<and> holds_file fs dst c)
    (\<lambda>_ fs. privately f0 src i t fs \<and> holds_file fs t c)"
  proof (rule file_invariant.link [OF inv])
    fix fs u k
    assume p: "privately f0 src i t fs \<and> holds_file fs t c"
      and n: "same_inodes fs u" "fs_names fs t = Some k" "fs_names fs dst = None" "fs_names u = (fs_names fs)(dst \<mapsto> k)"
    have o: "ours f0 src dst" using p before_free n(3) by (auto simp: privately_def)
    have b: "before f0 src i u" using p before_name [OF _ o n(1,4)] by (simp add: privately_def)
    have td: "t \<noteq> dst" using n(2,3) by auto
    have "\<exists>k x. source_file u t k x \<and> fs_next f0 \<le> k"
      using p n(1,4) td by (auto simp: privately_def source_file_def same_inodes_def)
    moreover have "holds_file u dst c" using holds_name [of fs t c u dst] p n by simp
    ultimately show "privately f0 src i t u \<and> t \<noteq> dst \<and> ours f0 src dst \<and> holds_file u dst c"
      using p b o td by (simp add: privately_def)
  qed
  then show ?thesis by (rule triple_conseq) auto
qed

section \<open>The private file goes\<close>

lemma drop_before: "ours f0 src t \<Longrightarrow> triple (before f0 src i) (drop_temporary env t) (\<lambda>_. before f0 src i) (\<lambda>_. before f0 src i)"
  unfolding drop_temporary_def
  by (intro triple_try [OF before.unlink] triple_if triple_give triple_fail) (use before_name in blast)

lemma published_drop:
  assumes "published f0 src dst c fs" and "ours f0 src t" and "t \<noteq> dst" and "same_inodes fs u" and "fs_names u = (fs_names fs)(t := None)"
  shows "published f0 src dst c u"
proof -
  have "holds_file u dst c" using holds_name [of fs dst c u dst] assms by (simp add: published_def)
  moreover have "kept f0 src u" using kept_drop [OF _ assms(2,4,5)] assms(1) by (simp add: published_def)
  ultimately show ?thesis using assms(1,5) by (simp add: published_def)
qed

lemma drop_published:
  "ours f0 src t \<Longrightarrow> t \<noteq> dst \<Longrightarrow>
   triple (published f0 src dst c) (drop_temporary env t) (\<lambda>_. published f0 src dst c) (\<lambda>_. published f0 src dst c)"
  unfolding drop_temporary_def
  by (intro triple_try [OF published.unlink] triple_if triple_give triple_fail) (use published_drop in blast)

section \<open>The refusing policy\<close>

text \<open>What every way out of a refusing placement leaves.\<close>

definition safe_outcome :: "fsys \<Rightarrow> string \<Rightarrow> nat \<Rightarrow> string \<Rightarrow> string \<Rightarrow> fsys \<Rightarrow> bool" where
  "safe_outcome f0 src i dst c fs \<longleftrightarrow> before f0 src i fs \<or> published f0 src dst c fs"

lemma safe_before: "before f0 src i fs \<Longrightarrow> safe_outcome f0 src i dst c fs"
  by (simp add: safe_outcome_def)

lemma move_private:
  assumes s: "source_file f0 src i c"
  shows "triple (before f0 src i) (publish_private env src dst (consume_source env src dst))
    (\<lambda>_. published f0 src dst c) (\<lambda>_. safe_outcome f0 src i dst c)"
  unfolding publish_private_def
proof (rule triple_then)
  show "triple (before f0 src i) (mkstemp env dst) (\<lambda>t. privately f0 src i t) (\<lambda>_. safe_outcome f0 src i dst c)"
    by (rule triple_conseq [OF make_private]) (auto simp: safe_outcome_def)
  fix t
  let ?R = "\<lambda>(_::unit) fs. (ours f0 src t \<and> t \<noteq> dst) \<and> published f0 src dst c fs"
  let ?S = "\<lambda>(_::exn) fs. ours f0 src t \<and> before f0 src i fs"
  have c: "triple (\<lambda>fs. privately f0 src i t fs \<and> t \<noteq> dst \<and> ours f0 src dst \<and> holds_file fs dst c) (consume_source env src dst t) ?R ?S"
  proof -
    have "triple (\<lambda>fs. (t \<noteq> dst \<and> ours f0 src dst \<and> ours f0 src t) \<and> before f0 src i fs \<and> holds_file fs dst c)
        (consume_source env src dst t) ?R ?S"
      by (rule triple_pure, rule triple_conseq [OF consume]) auto
    then show ?thesis by (rule triple_conseq) (auto simp: privately_def)
  qed
  have l: "triple (\<lambda>fs. privately f0 src i t fs \<and> holds_file fs t c) (os_link env t dst)
      (\<lambda>_ fs. privately f0 src i t fs \<and> t \<noteq> dst \<and> ours f0 src dst \<and> holds_file fs dst c) ?S"
    by (rule triple_conseq [OF publish_private_file]) (auto simp: privately_def)
  have f: "triple (privately f0 src i t) (shutil_copy env src t) (\<lambda>_ fs. privately f0 src i t fs \<and> holds_file fs t c) ?S"
    by (rule triple_conseq [OF fill_private [OF s]]) (auto simp: privately_def)
  show "triple (privately f0 src i t)
     (finally_do (and_then (shutil_copy env src t) (\<lambda>_. and_then (os_link env t dst) (\<lambda>_. consume_source env src dst t)))
       (drop_temporary env t)) (\<lambda>_. published f0 src dst c) (\<lambda>_. safe_outcome f0 src i dst c)"
  proof (rule triple_finally [OF triple_then [OF f triple_then [OF l c]]])
    show "triple (?R x) (drop_temporary env t) (\<lambda>_. published f0 src dst c) (\<lambda>_. safe_outcome f0 src i dst c)" for x
      by (rule triple_pure, rule triple_conseq [OF drop_published]) (auto simp: safe_outcome_def)
    show "triple (?S e) (drop_temporary env t) (\<lambda>_. safe_outcome f0 src i dst c) (\<lambda>_. safe_outcome f0 src i dst c)" for e
      by (rule triple_pure, rule triple_conseq [OF drop_before]) (auto simp: safe_outcome_def)
  qed
qed

lemma link_publishes:
  assumes s: "source_file f0 src i c"
  shows "triple (before f0 src i) (os_link env src dst)
    (\<lambda>_ fs. ours f0 src dst \<and> before f0 src i fs \<and> holds_file fs dst c) (\<lambda>_. before f0 src i)"
proof (rule before.link)
  fix fs u k
  assume p: "before f0 src i fs" and n: "same_inodes fs u" "fs_names fs src = Some k" "fs_names fs dst = None"
    "fs_names u = (fs_names fs)(dst \<mapsto> k)"
  have o: "ours f0 src dst" by (rule before_free [OF p n(3)])
  have "holds_file fs src c" using before_source [OF p s] by (auto simp: holds_file_def)
  then have "holds_file u dst c" using holds_name [of fs src c u dst] n by simp
  then show "ours f0 src dst \<and> before f0 src i u \<and> holds_file u dst c" using o before_name [OF p o n(1,4)] by simp
qed

lemma move_safely:
  assumes s: "source_file f0 src i c"
  shows "triple (before f0 src i) (publish_move env src dst) (\<lambda>_. published f0 src dst c) (\<lambda>_. safe_outcome f0 src i dst c)"
  unfolding publish_move_def placement_fail_def
proof (rule triple_then)
  let ?R = "\<lambda>linked fs. if linked then ours f0 src dst \<and> before f0 src i fs \<and> holds_file fs dst c else before f0 src i fs"
  show "triple (before f0 src i) (try_with (and_then (os_link env src dst) (\<lambda>_. give True))
      (\<lambda>e. if e = OsErr EXDEV then give False else fail_with PlacementFailed)) ?R (\<lambda>_. safe_outcome f0 src i dst c)"
    by (rule triple_try [OF triple_then [OF link_publishes [OF s]]])
      (auto intro!: triple_give triple_fail simp: safe_outcome_def)
  show "triple (?R linked) (if linked then consume_source env src dst src else publish_private env src dst (consume_source env src dst))
      (\<lambda>_. published f0 src dst c) (\<lambda>_. safe_outcome f0 src i dst c)" for linked
  proof (cases linked)
    case True
    have "triple (\<lambda>fs. ours f0 src dst \<and> before f0 src i fs \<and> holds_file fs dst c) (consume_source env src dst src)
        (\<lambda>_. published f0 src dst c) (\<lambda>_. safe_outcome f0 src i dst c)"
      by (rule triple_pure, rule triple_conseq [OF consume]) (auto simp: safe_outcome_def)
    then show ?thesis using True by simp
  qed (use move_private [OF s] in simp)
qed

lemma copy_safely:
  assumes s: "source_file f0 src i c"
  shows "triple (before f0 src i) (publish_copy env src dst) (\<lambda>_ fs. before f0 src i fs \<and> ours f0 src dst) (\<lambda>_. before f0 src i)"
  unfolding publish_copy_def
proof (rule triple_then)
  let ?R = "\<lambda>r fs. case r of None \<Rightarrow> before f0 src i fs | Some t \<Rightarrow> privately f0 src i t fs"
  show "triple (before f0 src i) (try_with (and_then (mkstemp env dst) (\<lambda>t. give (Some t))) (\<lambda>_. give None)) ?R (\<lambda>_. before f0 src i)"
    by (rule triple_try [OF triple_then [OF make_private]]) (auto intro!: triple_give)
  fix r
  show "triple (?R r) (case r of None \<Rightarrow> placement_fail
       | Some t \<Rightarrow> finally_do (try_with (and_then (shutil_copy env src t) (\<lambda>_. os_link env t dst)) (\<lambda>_. placement_fail)) (drop_temporary env t))
     (\<lambda>_ fs. before f0 src i fs \<and> ours f0 src dst) (\<lambda>_. before f0 src i)"
  proof (cases r)
    case None
    then show ?thesis by (auto intro!: triple_fail simp: placement_fail_def)
  next
    case (Some t)
    let ?B = "\<lambda>_ fs. (ours f0 src t \<and> ours f0 src dst) \<and> before f0 src i fs" and ?C = "\<lambda>_ fs. ours f0 src t \<and> before f0 src i fs"
    have "triple (privately f0 src i t) (and_then (shutil_copy env src t) (\<lambda>_. os_link env t dst)) ?B (\<lambda>_. privately f0 src i t)"
      by (rule triple_then [OF fill_private [OF s]], rule triple_conseq [OF publish_private_file]) (auto simp: privately_def)
    then have a: "triple (privately f0 src i t)
        (try_with (and_then (shutil_copy env src t) (\<lambda>_. os_link env t dst)) (\<lambda>_. placement_fail)) ?B ?C"
      by (rule triple_try) (auto intro!: triple_fail simp: placement_fail_def privately_def)
    have d: "triple (\<lambda>fs. ours f0 src t \<and> before f0 src i fs) (drop_temporary env t) (\<lambda>_. before f0 src i) (\<lambda>_. before f0 src i)"
      by (rule triple_pure, rule drop_before)
    have e: "triple (\<lambda>fs. (ours f0 src t \<and> ours f0 src dst) \<and> before f0 src i fs) (drop_temporary env t)
        (\<lambda>_ fs. before f0 src i fs \<and> ours f0 src dst) (\<lambda>_. before f0 src i)"
      by (rule triple_pure, rule triple_conseq [OF drop_before]) auto
    show ?thesis using triple_finally [OF a e d] Some by simp
  qed
qed

text \<open>The result says which of the two it is.\<close>

definition truthful :: "fsys \<Rightarrow> string \<Rightarrow> nat \<Rightarrow> string \<Rightarrow> string \<Rightarrow> placement_result \<Rightarrow> fsys \<Rightarrow> bool" where
  "truthful f0 src i dst c r fs \<longleftrightarrow> pr_destination r = dst
     \<and> (if pr_survived r then before f0 src i fs \<and> ours f0 src dst else published f0 src dst c fs)"

lemma refuse_places:
  assumes s: "source_file f0 src i c"
    and m: "triple (before f0 src i) (publish_move env src dst) (\<lambda>_. published f0 src dst c) (\<lambda>_. E)"
    and E: "\<And>fs. before f0 src i fs \<Longrightarrow> E fs"
  shows "triple (before f0 src i) (place_refusing env src dst p oe mode) (truthful f0 src i dst c) (\<lambda>_. E)"
proof -
  let ?B = "\<lambda>_ fs. before f0 src i fs \<and> ours f0 src dst"
  have c: "triple (before f0 src i) (publish_copy env src dst) ?B (\<lambda>_. E)"
    by (rule triple_conseq [OF copy_safely [OF s]]) (auto simp: E)
  have l: "triple (before f0 src i) (os_link env src dst) ?B (\<lambda>_. before f0 src i)"
    by (rule triple_conseq [OF link_publishes [OF s]]) auto
  have y: "triple (before f0 src i) (os_symlink env src dst) ?B (\<lambda>_. before f0 src i)"
  proof (rule before.symlink)
    fix fs u :: fsys
    assume q: "before f0 src i fs" and n: "fs_names fs dst = None" "fs_names u = (fs_names fs)(dst \<mapsto> fs_next fs)"
      "fs_inodes u = (fs_inodes fs)(fs_next fs \<mapsto> ILink src)" "fs_next u = Suc (fs_next fs)"
    have "ours f0 src dst" by (rule before_free [OF q n(1)])
    then show "before f0 src i u \<and> ours f0 src dst" using q n by (auto simp: before_def kept_def ours_def)
  qed
  show ?thesis unfolding place_refusing_def placement_fail_def
    by (intro triple_if triple_then [OF m] triple_then [OF c] triple_then [where R = ?B]
          triple_try [OF y] triple_try [OF triple_then [OF l]] triple_give triple_fail)
      (auto simp: E truthful_def placed_def result_of_def)
qed

lemma refuse_truthfully:
  assumes "source_file f0 src i c"
  shows "triple (before f0 src i) (place_refusing env src dst p oe mode) (truthful f0 src i dst c) (\<lambda>_. safe_outcome f0 src i dst c)"
  using refuse_places [OF assms move_safely [OF assms]] safe_before by blast

text \<open>On one volume that never answers \<open>EXDEV\<close>, a refusing placement that raises has not moved the comic.\<close>

definition one_volume :: "fenv \<Rightarrow> bool" where
  "one_volume env \<longleftrightarrow> (\<forall>p q. fe_device env p = fe_device env q) \<and> (\<forall>n. fe_fault env n \<noteq> Some EXDEV)"

lemma link_one_volume: "one_volume env \<Longrightarrow> os_link env a b fs = (Inl e, t) \<Longrightarrow> e \<noteq> OsErr EXDEV"
  by (auto simp: one_volume_def os_link_def call_def Let_def split: option.splits sum.splits if_splits)

lemma move_one_volume:
  assumes s: "source_file f0 src i c" and v: "one_volume env"
  shows "triple (before f0 src i) (publish_move env src dst) (\<lambda>_. published f0 src dst c) (\<lambda>_. before f0 src i)"
  unfolding publish_move_def placement_fail_def
proof (rule triple_then)
  let ?R = "\<lambda>linked fs. linked \<and> ours f0 src dst \<and> before f0 src i fs \<and> holds_file fs dst c"
  let ?L = "\<lambda>e fs. e \<noteq> OsErr EXDEV \<and> before f0 src i fs"
  have l: "triple (before f0 src i) (os_link env src dst) (\<lambda>_ fs. ours f0 src dst \<and> before f0 src i fs \<and> holds_file fs dst c) ?L"
    by (rule tripleI) (use link_one_volume [OF v] triple_raised [OF link_publishes [OF s]] in blast,
        use triple_returned [OF link_publishes [OF s]] in blast)
  show "triple (before f0 src i) (try_with (and_then (os_link env src dst) (\<lambda>_. give True))
      (\<lambda>e. if e = OsErr EXDEV then give False else fail_with PlacementFailed)) ?R (\<lambda>_. before f0 src i)"
    by (rule triple_try [OF triple_then [OF l]]) (auto intro!: triple_give triple_fail)
  show "triple (?R linked) (if linked then consume_source env src dst src else publish_private env src dst (consume_source env src dst))
      (\<lambda>_. published f0 src dst c) (\<lambda>_. before f0 src i)" for linked
  proof (cases linked)
    case True
    have "triple (\<lambda>fs. ours f0 src dst \<and> before f0 src i fs \<and> holds_file fs dst c) (consume_source env src dst src)
        (\<lambda>_. published f0 src dst c) (\<lambda>_. before f0 src i)"
      by (rule triple_pure, rule consume)
    then show ?thesis using True by simp
  qed (simp add: triple_def)
qed

lemma refuse_safely:
  assumes s: "source_file f0 src i c"
  shows "triple (before f0 src i) (place_refusing env src dst p oe mode) (\<lambda>_. safe_outcome f0 src i dst c) (\<lambda>_. safe_outcome f0 src i dst c)"
  by (rule triple_conseq [OF refuse_truthfully [OF s]]) (auto simp: truthful_def safe_outcome_def split: if_splits)

text \<open>C8: The refusing policy replaces nothing and loses nothing.  Whatever the purpose, the configured mode and the calls
  that fail, and whether the placement succeeds or raises: every other name still names the file it named, no file that
  existed has changed, and the comic being placed is at its source or whole at the destination.\<close>

theorem refuse_never_overwrites:
  assumes "source_file fs src i c" and "place env cfg src dst p Refuse multiple fs = (r, t)"
  shows "(\<forall>q j. q \<noteq> src \<and> fs_names fs q = Some j \<longrightarrow> fs_names t q = Some j)
    \<and> (\<forall>j < fs_next fs. fs_inodes t j = fs_inodes fs j) \<and> (fs_names t src = Some i \<or> holds_file t dst c)"
proof -
  have b: "before fs src i fs" using assms(1) by (simp add: before_def kept_refl source_file_def)
  have pl: "place_refusing env src dst p Refuse (resolve_mode cfg p multiple) fs = (r, t)"
    using assms(2) by (simp add: place_def Let_def)
  have "safe_outcome fs src i dst c t"
    by (cases r) (use triple_raised [OF refuse_safely [OF assms(1)] b] triple_returned [OF refuse_safely [OF assms(1)] b] pl in blast)+
  then have "kept fs src t \<and> (fs_names t src = Some i \<or> holds_file t dst c)"
    by (auto simp: safe_outcome_def before_def published_def)
  then show ?thesis unfolding kept_def by blast
qed

text \<open>A comic on the download volume, and a library with one file in it.\<close>

definition demo_fs :: fsys where
  "demo_fs = \<lparr>fs_names = [''/in/a.cbz'' \<mapsto> 0, ''/lib/a.cbz'' \<mapsto> 1],
     fs_inodes = [0 \<mapsto> IFile ''new'', 1 \<mapsto> IFile ''old''], fs_next = 2, fs_calls = 0\<rparr>"

definition demo_disk :: "(nat \<Rightarrow> errno option) \<Rightarrow> fenv" where
  "demo_disk faults = \<lparr>fe_fault = faults, fe_short = (\<lambda>n. 1), fe_device = (\<lambda>p. if py_startswith p ''/in'' then 0 else 1),
     fe_temp = (\<lambda>p n. ''/lib/.comicarr-import-x''), fe_cwd = ''/''\<rparr>"

definition demo_config :: pconfig where
  "demo_config = \<lparr>pc_FILE_OPTS = VStr ''softlink'', pc_IMP_FILE_OPTS = VStr '' Move '', pc_ARC_FILEOPS = VStr ''move'', pc_ARC_RELATIVE = False\<rparr>"

lemma demo_source: "source_file demo_fs ''/in/a.cbz'' 0 ''new''"
  by (simp add: source_file_def demo_fs_def)

theorem refuse_never_overwrites_witness:
  "fst (place (demo_disk (\<lambda>n. None)) demo_config ''/in/a.cbz'' ''/lib/b.cbz'' Import Refuse False demo_fs)
     = Inr (placed ''/lib/b.cbz'' Import Refuse (''move'', False, False))
   \<and> (let t = snd (place (demo_disk (\<lambda>n. None)) demo_config ''/in/a.cbz'' ''/lib/b.cbz'' Import Refuse False demo_fs) in
      fs_names t ''/lib/a.cbz'' = Some 1 \<and> fs_inodes t 1 = Some (IFile ''old'') \<and> \<not> lexists t ''/in/a.cbz''
      \<and> \<not> lexists t ''/lib/.comicarr-import-x'' \<and> holds_file t ''/lib/b.cbz'' ''new'')"
proof -
  let ?x = "place (demo_disk (\<lambda>n. None)) demo_config ''/in/a.cbz'' ''/lib/b.cbz'' Import Refuse False demo_fs"
  have a: "fst ?x = Inr (placed ''/lib/b.cbz'' Import Refuse (''move'', False, False))" by code_simp
  have g: "fs_names (snd ?x) ''/in/a.cbz'' = None" "fs_names (snd ?x) ''/lib/.comicarr-import-x'' = None" by code_simp+
  have "(\<forall>q j. q \<noteq> ''/in/a.cbz'' \<and> fs_names demo_fs q = Some j \<longrightarrow> fs_names (snd ?x) q = Some j)
    \<and> (\<forall>j < fs_next demo_fs. fs_inodes (snd ?x) j = fs_inodes demo_fs j)
    \<and> (fs_names (snd ?x) ''/in/a.cbz'' = Some 0 \<or> holds_file (snd ?x) ''/lib/b.cbz'' ''new'')"
    by (rule refuse_never_overwrites [OF demo_source prod.collapse [symmetric]])
  moreover have "fs_names demo_fs ''/lib/a.cbz'' = Some 1" "fs_inodes demo_fs 1 = Some (IFile ''old'')" "fs_next demo_fs = 2"
    by (simp_all add: demo_fs_def)
  ultimately show ?thesis using a g by (simp add: Let_def lexists_def)
qed

end
