(* ===== verification/PlacementProps.thy ===== *)
theory PlacementProps
  imports PublishProps
begin

text \<open>
  The other policies of a placement, whatever calls fail: displacing keeps the old file until the new one is in place,
  an arc never consumes its source, and soft links can destroy the file being placed.
\<close>

section \<open>The displacing policy\<close>

text \<open>The old file is out of the way: it is whole under its second name, and nothing the mechanics work on is it.\<close>

definition clear_of :: "nat \<Rightarrow> fsys \<Rightarrow> string \<Rightarrow> bool" where
  "clear_of j fs p \<longleftrightarrow> (\<forall>k. fs_names fs p = Some k \<longrightarrow> k \<noteq> j \<and> k < fs_next fs \<and> (\<exists>x. fs_inodes fs k = Some (IFile x)))"

definition aside :: "string \<Rightarrow> string \<Rightarrow> nat \<Rightarrow> string \<Rightarrow> fsys \<Rightarrow> bool" where
  "aside src dst j d fs \<longleftrightarrow> fs_names fs (displaced_name dst) = Some j \<and> fs_inodes fs j = Some (IFile d) \<and> j < fs_next fs
     \<and> clear_of j fs src \<and> clear_of j fs dst"

definition apart :: "string \<Rightarrow> string \<Rightarrow> bool" where
  "apart src dst \<longleftrightarrow> src \<noteq> dst \<and> src \<noteq> displaced_name dst"

lemma displaced_other [simp]: "dst \<noteq> displaced_name dst" "displaced_name dst \<noteq> dst"
  by (simp_all add: displaced_name_def DISPLACED_SUFFIX_def)

lemma clear_plain: "clear_of j fs p \<Longrightarrow> \<not> islink fs p"
  by (auto simp: clear_of_def islink_def node_at_def split: option.splits inode.splits)

lemma aside_plain: "aside src dst j d fs \<Longrightarrow> p \<in> {src, dst} \<Longrightarrow> \<not> islink fs p"
  using clear_plain by (auto simp: aside_def)

interpretation aside: file_invariant "aside src dst j d" for src dst j d
  by unfold_locales (simp add: aside_def clear_of_def same_inodes_def)

lemma aside_name:
  assumes "aside src dst j d fs" and "apart src dst" and "p \<in> {src, dst}" and "x = None \<or> x = fs_names fs src \<or> x = fs_names fs dst"
    and "same_inodes fs t" and "fs_names t = (fs_names fs)(p := x)"
  shows "aside src dst j d t"
  using assms unfolding aside_def clear_of_def same_inodes_def apart_def by (auto simp: eq_commute [of _ "displaced_name dst"])

lemma aside_written:
  assumes "aside src dst j d fs" and "apart src dst" and "p \<in> {src, dst}" and "written fs p c t"
  shows "aside src dst j d t"
proof (cases "fs_names fs p")
  case None
  then have n: "fs_names t = (fs_names fs)(p \<mapsto> fs_next fs)" "fs_inodes t = (fs_inodes fs)(fs_next fs \<mapsto> IFile c)"
    "fs_next t = Suc (fs_next fs)" using assms(4) by (simp_all add: written_def target_inode_def Let_def)
  have c: "clear_of j t q" if "clear_of j fs q" "j < fs_next fs" for q
    using that unfolding clear_of_def n by (auto simp: less_Suc_eq)
  have "p \<noteq> displaced_name dst" using assms(2,3) by (auto simp: apart_def)
  then show ?thesis using assms(1) c unfolding aside_def n by auto
next
  case (Some k)
  note n = written_existing [OF assms(4) Some]
  have "k \<noteq> j" using assms(1,3) Some by (auto simp: aside_def clear_of_def)
  then show ?thesis using assms(1) n by (auto simp: aside_def clear_of_def)
qed

section \<open>Working beside the old file\<close>

lemma aside_copy:
  assumes "apart src dst" and "a \<in> {src, dst}" and "b \<in> {src, dst}"
  shows "triple (aside src dst j d) (shutil_copy env a b) (\<lambda>_. aside src dst j d) (\<lambda>_. aside src dst j d)"
proof (rule aside.copy_plain)
  show "\<not> islink fs b \<and> (\<forall>i. fs_names fs a = Some i \<longrightarrow> (\<exists>c. fs_inodes fs i = Some (IFile c)))" if "aside src dst j d fs" for fs
    using aside_plain [OF that assms(3)] that assms(2) by (auto simp: aside_def clear_of_def)
qed (rule aside_written [OF _ assms(1,3)])

lemma aside_unlink:
  assumes "apart src dst" and "a \<in> {src, dst}"
  shows "triple (aside src dst j d) (os_unlink env a) (\<lambda>_. aside src dst j d) (\<lambda>_. aside src dst j d)"
  by (rule aside.unlink) (rule aside_name [OF _ assms disjI1 [OF refl]])

lemma aside_link:
  assumes "apart src dst"
  shows "triple (aside src dst j d) (os_link env src dst) (\<lambda>_. aside src dst j d) (\<lambda>_. aside src dst j d)"
  by (rule aside.link) (rule aside_name [OF _ assms], simp_all)

lemma aside_rename:
  assumes "apart src dst"
  shows "triple (aside src dst j d) (os_rename env src dst) (\<lambda>_. aside src dst j d) (\<lambda>_. aside src dst j d)"
proof (rule aside.rename)
  fix fs t :: fsys and i
  assume p: "aside src dst j d fs" and i: "same_inodes fs t" "fs_names fs src = Some i"
    and n: "fs_names fs dst = Some i \<and> fs_names t = fs_names fs \<or> fs_names t = (fs_names fs)(src := None, dst \<mapsto> i)"
  let ?m = "fs\<lparr>fs_names := (fs_names fs)(dst \<mapsto> i)\<rparr>"
  have "aside src dst j d ?m" by (rule aside_name [OF p assms, of dst "Some i"]) (simp_all add: i same_inodes_def)
  then have m: "aside src dst j d (?m\<lparr>fs_names := (fs_names ?m)(src := None)\<rparr>)"
    by (rule aside_name [OF _ assms, of j d _ src None]) (simp_all add: same_inodes_def)
  have tw: "(fs_names fs)(src := None, dst \<mapsto> i) = (fs_names fs)(dst \<mapsto> i, src := None)"
    using assms by (intro fun_upd_twist) (simp add: apart_def)
  from n show "aside src dst j d t"
  proof
    assume "fs_names fs dst = Some i \<and> fs_names t = fs_names fs"
    then show ?thesis using aside.frame [OF p i(1)] by simp
  next
    assume "fs_names t = (fs_names fs)(src := None, dst \<mapsto> i)"
    then show ?thesis using i(1) tw by (intro aside.frame [OF m]) (simp_all add: same_inodes_def)
  qed
qed

lemma aside_move:
  assumes "apart src dst"
  shows "triple (aside src dst j d) (shutil_move env src dst) (\<lambda>_. aside src dst j d) (\<lambda>_. aside src dst j d)"
  unfolding shutil_move_def
proof (rule triple_try [OF aside_rename [OF assms]], rule triple_state)
  fix fs
  assume p: "aside src dst j d fs"
  have c: "triple (\<lambda>t. aside src dst j d t \<and> t = fs) (and_then (shutil_copy env src dst) (\<lambda>_. os_unlink env src))
      (\<lambda>_. aside src dst j d) (\<lambda>_. aside src dst j d)"
    by (rule triple_conseq [OF triple_then [OF aside_copy [OF assms, of src dst] aside_unlink [OF assms, of src]]]) auto
  have "node_at fs src \<noteq> Some (ILink x)" for x using aside_plain [OF p, of src] by (auto simp: islink_def)
  then show "triple (\<lambda>t. aside src dst j d t \<and> t = fs)
      (case node_at fs src of Some (ILink t) \<Rightarrow> and_then (os_symlink env t dst) (\<lambda>_. os_unlink env src)
       | _ \<Rightarrow> and_then (shutil_copy env src dst) (\<lambda>_. os_unlink env src))
      (\<lambda>_. aside src dst j d) (\<lambda>_. aside src dst j d)"
    using c by (auto split: option.splits inode.splits)
qed

lemma aside_symlink:
  "triple (aside src dst j d) (os_symlink env x p) (\<lambda>_ _. True) (\<lambda>_. aside src dst j d)"
  by (rule aside.symlink) simp

lemma aside_softlink:
  assumes "apart src dst"
  shows "triple (aside src dst j d) (softlink_attempt env arc relative src dst) (\<lambda>_ _. True) (\<lambda>_. aside src dst j d)"
proof -
  have "triple (aside src dst j d) (with_state (\<lambda>fs. if lexists fs src then os_unlink env src else give ()))
      (\<lambda>_. aside src dst j d) (\<lambda>_. aside src dst j d)"
    by (intro triple_state triple_if triple_conseq [OF aside_unlink [OF assms, of src]] triple_give) auto
  note move = triple_then [OF aside_move [OF assms] triple_then [OF this aside_symlink]]
  show ?thesis unfolding softlink_attempt_def by (intro triple_if move aside_symlink)
qed

lemma aside_mode:
  assumes "apart src dst"
  shows "triple (aside src dst j d) (apply_mode env mode arc relative src dst) (\<lambda>_ _. True) (\<lambda>_. aside src dst j d)"
proof -
  let ?A = "aside src dst j d"
  have copy: "triple ?A (try_with (shutil_copy env a b) (\<lambda>_. placement_fail)) (\<lambda>_. ?A) (\<lambda>_. ?A)"
    if "a \<in> {src, dst}" "b \<in> {src, dst}" for a b
    by (rule triple_try [OF aside_copy [OF assms that]]) (auto intro!: triple_fail simp: placement_fail_def)
  have move: "triple ?A (try_with (shutil_move env src dst) (\<lambda>_. placement_fail)) (\<lambda>_. ?A) (\<lambda>_. ?A)"
    by (rule triple_try [OF aside_move [OF assms]]) (auto intro!: triple_fail simp: placement_fail_def)
  have hard: "triple ?A (apply_hardlink env src dst) (\<lambda>_ _. True) (\<lambda>_. ?A)"
    unfolding apply_hardlink_def
  proof (rule triple_then)
    show "triple ?A (try_with (and_then (os_link env src dst) (\<lambda>_. give True)) (\<lambda>e. if e = OsErr EXDEV
        then and_then (try_with (shutil_copy env src dst) (\<lambda>_. placement_fail)) (\<lambda>_. give False) else placement_fail))
      (\<lambda>_. ?A) (\<lambda>_. ?A)"
      by (rule triple_try [OF triple_then [OF aside_link [OF assms]]], rule triple_give, assumption,
          rule triple_if, rule triple_then [OF copy], simp_all, rule triple_give, assumption,
          simp add: placement_fail_def triple_fail)
    show "triple ?A (if linked then and_then (os_lstat env dst) (\<lambda>_. give (''hardlink'', True, False)) else give (''copy'', True, False))
      (\<lambda>_ _. True) (\<lambda>_. ?A)" for linked
      by (intro triple_if triple_then [OF aside.lstat]) (auto intro: triple_give)
  qed
  have soft: "triple ?A (apply_softlink env arc relative src dst) (\<lambda>_ _. True) (\<lambda>_. ?A)"
    unfolding apply_softlink_def
  proof (rule triple_try)
    show "triple ?A (and_then (softlink_attempt env arc relative src dst) (\<lambda>_. give (''softlink'', True, \<not> arc))) (\<lambda>_ _. True) (\<lambda>_. ?A)"
      by (rule triple_then_give [OF aside_softlink [OF assms]])
    show "triple ?A (and_then (try_with (if arc then shutil_copy env src dst else shutil_copy env dst src) (\<lambda>_. placement_fail))
        (\<lambda>_. give (''copy'', True, False))) (\<lambda>_ _. True) (\<lambda>_. ?A)" for e :: exn
      using triple_then_give [OF copy, of src dst] triple_then_give [OF copy, of dst src] by (cases arc) simp_all
  qed
  show ?thesis unfolding apply_mode_def
  proof (intro triple_if)
    show "triple ?A (and_then (try_with (shutil_copy env src dst) (\<lambda>_. placement_fail)) (\<lambda>_. give (''copy'', True, False))) (\<lambda>_ _. True) (\<lambda>_. ?A)"
      by (rule triple_then_give [OF copy]) simp_all
    show "triple ?A (and_then (try_with (shutil_move env src dst) (\<lambda>_. placement_fail)) (\<lambda>_. give (''move'', False, False))) (\<lambda>_ _. True) (\<lambda>_. ?A)"
      by (rule triple_then_give [OF move])
  qed (auto intro: hard soft triple_fail simp: placement_fail_def)
qed

text \<open>Where the old file is when the placement has failed.\<close>

definition old_file_there :: "string \<Rightarrow> nat \<Rightarrow> string \<Rightarrow> fsys \<Rightarrow> bool" where
  "old_file_there dst j d fs \<longleftrightarrow>
     (fs_names fs dst = Some j \<or> fs_names fs (displaced_name dst) = Some j) \<and> fs_inodes fs j = Some (IFile d)"

lemma aside_there: "aside src dst j d fs \<Longrightarrow> old_file_there dst j d fs"
  by (simp add: aside_def old_file_there_def)

lemma put_back: "triple (aside src dst j d) (os_rename env (displaced_name dst) dst) (\<lambda>_. old_file_there dst j d) (\<lambda>_. aside src dst j d)"
  by (rule aside.rename) (auto simp: aside_def old_file_there_def same_inodes_def)

lemma displaced_safely:
  assumes "apart src dst"
  shows "triple (aside src dst j d) (apply_displaced env mode arc relative src dst) (\<lambda>_ _. True) (\<lambda>_. old_file_there dst j d)"
  unfolding apply_displaced_def
proof (rule triple_then)
  have restored: "triple (aside src dst j d) (and_then (try_with (os_rename env (displaced_name dst) dst) (\<lambda>_. give ())) (\<lambda>_. fail_with e))
      (\<lambda>_ _. True) (\<lambda>_. old_file_there dst j d)" for e
    by (rule triple_then [OF triple_try [OF put_back]]) (auto intro!: triple_give triple_fail aside_there)
  show "triple (aside src dst j d) (try_with (apply_mode env mode arc relative src dst)
      (\<lambda>e. if e = PlacementFailed
           then and_then (try_with (os_rename env (displaced_name dst) dst) (\<lambda>_. give ())) (\<lambda>_. fail_with e)
           else fail_with e)) (\<lambda>_ _. True) (\<lambda>_. old_file_there dst j d)"
    by (rule triple_try [OF aside_mode [OF assms]], rule triple_if, rule restored, rule triple_fail, rule aside_there)
  show "triple (\<lambda>_. True) (and_then (try_with (os_unlink env (displaced_name dst)) (\<lambda>_. give ())) (\<lambda>_. give x))
      (\<lambda>_ _. True) (\<lambda>_. old_file_there dst j d)" for x :: effect
    by (auto simp: triple_def and_then_def try_with_def give_def split: prod.splits sum.splits)
qed

text \<open>C12: A displacing placement that fails has not cost the library its file.  Whatever mode is configured and whichever
  calls fail, when the placement raises, the file that was at the destination is whole, at the destination or under its
  displaced name.\<close>

theorem displaced_file_survives:
  assumes "source_file fs src i c" and "fs_names fs dst = Some j" and "fs_inodes fs j = Some (IFile d)" and "j < fs_next fs"
    and "i \<noteq> j" and "fs_names fs (displaced_name dst) \<noteq> Some j" and "src \<noteq> displaced_name dst"
    and "place env cfg src dst p Displace multiple fs = (Inl e, t)"
  shows "(fs_names t dst = Some j \<or> fs_names t (displaced_name dst) = Some j) \<and> fs_inodes t j = Some (IFile d)"
proof -
  have ap: "apart src dst" using assms(1,2,5,7) by (auto simp: apart_def source_file_def)
  have st: "stat env fs src = Some i" "stat env fs dst = Some j"
    using assms(1-3) stat_plain file_plain by (auto simp: source_file_def)
  let ?start = "\<lambda>u. u = fs"
  have r: "triple ?start (try_with (os_rename env dst (displaced_name dst)) (\<lambda>_. placement_fail))
      (\<lambda>_. aside src dst j d) (\<lambda>_. old_file_there dst j d)"
  proof (rule triple_try [where R = "\<lambda>_. old_file_there dst j d", OF tripleI])
    fix u e v
    assume "u = fs" and "os_rename env dst (displaced_name dst) u = (Inl e, v)"
    then show "old_file_there dst j d v" using rename_raised assms(2,3) by (fastforce simp: old_file_there_def same_inodes_def)
  next
    fix u x v
    assume u: "u = fs" and "os_rename env dst (displaced_name dst) u = (Inr x, v)"
    then have n: "same_inodes fs v" "fs_names v = (fs_names fs)(dst := None, displaced_name dst \<mapsto> j)"
      using rename_returned assms(2,6) by fastforce+
    show "aside src dst j d v"
      using n ap assms(1-5) by (simp add: aside_def clear_of_def same_inodes_def apart_def source_file_def)
  qed (auto intro!: triple_fail simp: placement_fail_def)
  have "triple ?start (place_displacing env src dst p Displace mode arc relative) (\<lambda>_ _. True) (\<lambda>_. old_file_there dst j d)" for mode arc relative
    unfolding place_displacing_def
  proof (rule triple_state)
    fix u
    assume "u = fs"
    moreover have "triple ?start (and_then (try_with (os_rename env dst (displaced_name dst)) (\<lambda>_. placement_fail))
        (\<lambda>_. and_then (apply_displaced env mode arc relative src dst) (\<lambda>x. give (placed dst p Displace x))))
        (\<lambda>_ _. True) (\<lambda>_. old_file_there dst j d)"
      by (rule triple_then [OF r], rule triple_then [OF displaced_safely [OF ap]]) (simp add: triple_give)
    ultimately show "triple (\<lambda>t. t = fs \<and> t = u)
        (if \<not> lexists u dst then and_then (apply_mode env mode arc relative src dst) (\<lambda>x. give (placed dst p Displace x))
         else if stat env u src \<noteq> None \<and> stat env u src = stat env u dst then give (already_placed dst p Displace mode)
         else and_then (try_with (os_rename env dst (displaced_name dst)) (\<lambda>_. placement_fail))
           (\<lambda>_. and_then (apply_displaced env mode arc relative src dst) (\<lambda>x. give (placed dst p Displace x))))
        (\<lambda>_ _. True) (\<lambda>_. old_file_there dst j d)"
      using st assms(2,5) by (simp add: lexists_def)
  qed
  from triple_raised [OF this refl] have "old_file_there dst j d t" using assms(8) by (simp add: place_def Let_def)
  then show ?thesis by (simp add: old_file_there_def)
qed

theorem displaced_file_survives_witness:
  "\<exists>t. place (demo_disk (\<lambda>n. if n = 4 then Some EIO else None)) demo_config ''/in/a.cbz'' ''/lib/a.cbz'' Import Displace False demo_fs
        = (Inl PlacementFailed, t)
     \<and> (fs_names t ''/lib/a.cbz'' = Some 1 \<or> fs_names t (displaced_name ''/lib/a.cbz'') = Some 1) \<and> fs_inodes t 1 = Some (IFile ''old'')"
proof -
  let ?x = "place (demo_disk (\<lambda>n. if n = 4 then Some EIO else None)) demo_config ''/in/a.cbz'' ''/lib/a.cbz'' Import Displace False demo_fs"
  have f: "fst ?x = Inl PlacementFailed" by code_simp
  then have x: "?x = (Inl PlacementFailed, snd ?x)" by (metis prod.collapse)
  have d: "fs_names demo_fs ''/lib/a.cbz'' = Some 1" "fs_inodes demo_fs 1 = Some (IFile ''old'')" "(1::nat) < fs_next demo_fs" "(0::nat) \<noteq> 1"
    "fs_names demo_fs (displaced_name ''/lib/a.cbz'') \<noteq> Some 1" "''/in/a.cbz'' \<noteq> displaced_name ''/lib/a.cbz''"
    by (simp_all add: demo_fs_def displaced_name_def DISPLACED_SUFFIX_def)
  show ?thesis using displaced_file_survives [OF demo_source d x] x by blast
qed

section \<open>Soft links\<close>

text \<open>A call that is carried out, and one that is refused.\<close>

lemma call_step: "fe_fault env (fs_calls fs) = None \<Longrightarrow> call env f fs =
    (case f (fs\<lparr>fs_calls := Suc (fs_calls fs)\<rparr>) of Inl e \<Rightarrow> (Inl (OsErr e), fs\<lparr>fs_calls := Suc (fs_calls fs)\<rparr>) | Inr u \<Rightarrow> (Inr (), u))"
  by (simp add: call_def Let_def)

lemma stat_file: "fs_names fs p = Some i \<Longrightarrow> fs_inodes fs i = Some (IFile c) \<Longrightarrow> stat env fs p = Some i"
  using stat_plain [OF file_plain] by simp

lemma stat_none: "fs_names fs p = None \<Longrightarrow> stat env fs p = None"
  using stat_plain [of fs p env] by (simp add: islink_def node_at_def)

lemma resolve_none: "fs_names fs p = None \<Longrightarrow> resolve env fs p = Some p"
  by (rule resolve_plain) (simp add: islink_def node_at_def)

lemma resolve_file: "fs_names fs p = Some i \<Longrightarrow> fs_inodes fs i = Some (IFile c) \<Longrightarrow> resolve env fs p = Some p"
  by (rule resolve_plain [OF file_plain])

text \<open>A copy to a free name whose write breaks off, and a copy over a file that goes through.\<close>

lemma copy_breaks:
  assumes "fs_names fs src = Some i" and "fs_inodes fs i = Some (IFile c)" and "fs_names fs dst = None"
    and "fe_fault env (fs_calls fs) = None" and "fe_fault env (fs_calls fs + 1) = None" and "fe_fault env (fs_calls fs + 2) = Some e"
  shows "shutil_copy env src dst fs = (Inl (OsErr e),
    fs\<lparr>fs_names := (fs_names fs)(dst \<mapsto> fs_next fs),
       fs_inodes := (fs_inodes fs)(fs_next fs \<mapsto> IFile (take (fe_short env (fs_calls fs + 2)) c)),
       fs_next := Suc (fs_next fs), fs_calls := fs_calls fs + 3\<rparr>)"
proof -
  let ?n = "fs_calls fs"
  have f: "fe_fault env (Suc ?n) = None" "fe_fault env (Suc (Suc ?n)) = Some e" using assms(5,6) by simp_all
  have a: "call env Inr fs = (Inr (), fs\<lparr>fs_calls := Suc ?n\<rparr>)" using assms(4) by (simp add: call_step)
  let ?f1 = "fs\<lparr>fs_calls := Suc ?n\<rparr>"
  let ?f2 = "new_inode dst (IFile []) (fs\<lparr>fs_calls := Suc (Suc ?n)\<rparr>)"
  have r: "resolve env (fs\<lparr>fs_calls := Suc (Suc ?n)\<rparr>) dst = Some dst" by (rule resolve_none) (simp add: assms(3))
  have b: "open_write env dst ?f1 = (Inr (), ?f2)" using f(1) r assms(3) by (simp add: open_write_def call_step)
  have s: "stat env (?f2\<lparr>fs_calls := Suc (Suc (Suc ?n))\<rparr>) dst = Some (fs_next fs)"
    by (rule stat_file [where c = "[]"]) (simp_all add: new_inode_def)
  have w: "write_bytes env dst c ?f2 = (Inl (OsErr e), fs\<lparr>fs_names := (fs_names fs)(dst \<mapsto> fs_next fs),
       fs_inodes := (fs_inodes fs)(fs_next fs \<mapsto> IFile (take (fe_short env (fs_calls fs + 2)) c)),
       fs_next := Suc (fs_next fs), fs_calls := fs_calls fs + 3\<rparr>)"
    using f(2) s by (simp add: write_bytes_def Let_def new_inode_def)
  have st: "stat env fs src = Some i" "stat env fs dst = None" "bytes_of fs i = c"
    using stat_file [OF assms(1,2)] stat_none [OF assms(3)] assms(2) by (simp_all add: bytes_of_def)
  show ?thesis unfolding shutil_copy_def with_state_def st option.case by (simp add: and_then_def a b w)
qed

lemma copy_over:
  assumes "fs_names fs src = Some i" and "fs_inodes fs i = Some (IFile c)" and "fs_names fs dst = Some k" and "fs_inodes fs k = Some (IFile d)"
    and "i \<noteq> k" and "\<forall>m < 4. fe_fault env (fs_calls fs + m) = None"
  shows "shutil_copy env src dst fs = (Inr (), fs\<lparr>fs_inodes := (fs_inodes fs)(k \<mapsto> IFile c), fs_calls := fs_calls fs + 4\<rparr>)"
proof -
  let ?n = "fs_calls fs"
  have f: "fe_fault env ?n = None" "fe_fault env (Suc ?n) = None" "fe_fault env (Suc (Suc ?n)) = None" "fe_fault env (Suc (Suc (Suc ?n))) = None"
    using assms(6) [rule_format, of 0] assms(6) [rule_format, of 1] assms(6) [rule_format, of 2] assms(6) [rule_format, of 3]
    by (simp_all add: numeral_3_eq_3)
  have a: "call env Inr fs = (Inr (), fs\<lparr>fs_calls := Suc ?n\<rparr>)" using f(1) by (simp add: call_step)
  let ?f2 = "fs\<lparr>fs_calls := Suc (Suc ?n), fs_inodes := (fs_inodes fs)(k \<mapsto> IFile [])\<rparr>"
  have r: "resolve env (fs\<lparr>fs_calls := Suc (Suc ?n)\<rparr>) dst = Some dst" by (rule resolve_file [where i = k and c = d]) (simp_all add: assms(3,4))
  have b: "open_write env dst (fs\<lparr>fs_calls := Suc ?n\<rparr>) = (Inr (), ?f2)" using f(2) r assms(3) by (simp add: open_write_def call_step)
  have s: "stat env (?f2\<lparr>fs_calls := Suc (Suc (Suc ?n))\<rparr>) dst = Some k"
    by (rule stat_file [where c = "[]"]) (simp_all add: assms(3))
  have w: "write_bytes env dst c ?f2 = (Inr (), fs\<lparr>fs_inodes := (fs_inodes fs)(k \<mapsto> IFile c), fs_calls := fs_calls fs + 3\<rparr>)"
    using f(3) s by (simp add: write_bytes_def Let_def)
  have z: "call env Inr (fs\<lparr>fs_inodes := (fs_inodes fs)(k \<mapsto> IFile c), fs_calls := fs_calls fs + 3\<rparr>)
      = (Inr (), fs\<lparr>fs_inodes := (fs_inodes fs)(k \<mapsto> IFile c), fs_calls := fs_calls fs + 4\<rparr>)"
    using f(4) by (simp add: call_step numeral_3_eq_3)
  have st: "stat env fs src = Some i" "stat env fs dst \<noteq> Some i" "bytes_of fs i = c"
    using stat_file [OF assms(1,2)] stat_file [OF assms(3,4)] assms(2,5) by (simp_all add: bytes_of_def)
  show ?thesis unfolding shutil_copy_def with_state_def st(1) option.case using st(2,3) by (simp add: and_then_def a b w z)
qed

text \<open>With soft links configured, a full library volume destroys the comic being placed.  The move to another volume
  breaks off in its write after \<open>m\<close> bytes; the handler, meant for a link that could not be made, then copies the broken
  destination back over the intact source and reports a placement whose source survived, while both hold only those
  \<open>m\<close> bytes.\<close>

theorem softlink_truncates_source:
  assumes "source_file fs src i c" and "fs_names fs dst = None" and "fe_device env src \<noteq> fe_device env dst"
    and "resolve_mode cfg p multiple = VStr ''softlink''" and "p \<noteq> Arc"
    and "fe_fault env = (\<lambda>n. if n = fs_calls fs + 3 then Some EIO else None)" and "m = fe_short env (fs_calls fs + 3)"
  shows "\<exists>t. place env cfg src dst p Unguarded multiple fs = (Inr (placed dst p Unguarded (''copy'', True, False)), t)
    \<and> holds_file t src (take m c) \<and> holds_file t dst (take m c)"
proof -
  have src: "fs_names fs src = Some i" "fs_inodes fs i = Some (IFile c)" "i < fs_next fs" using assms(1) by (auto simp: source_file_def)
  have ne: "src \<noteq> dst" using src(1) assms(2) by auto
  let ?n = "fs_calls fs" and ?k = "fs_next fs" and ?f1 = "fs\<lparr>fs_calls := Suc (fs_calls fs)\<rparr>"
  let ?f2 = "fs\<lparr>fs_names := (fs_names fs)(dst \<mapsto> ?k), fs_inodes := (fs_inodes fs)(?k \<mapsto> IFile (take m c)), fs_next := Suc ?k, fs_calls := ?n + 4\<rparr>"
  let ?f3 = "?f2\<lparr>fs_inodes := (fs_inodes ?f2)(i \<mapsto> IFile (take m c)), fs_calls := ?n + 8\<rparr>"
  have r: "os_rename env src dst fs = (Inl (OsErr EXDEV), ?f1)"
    using assms(3,6) src(1) by (simp add: os_rename_def call_step)
  have node: "node_at ?f1 src = Some (IFile c)" using src by (simp add: node_at_def)
  have "shutil_copy env src dst ?f1 = (Inl (OsErr EIO), ?f2)"
    using copy_breaks [of ?f1 src i c dst env EIO] src assms(2,6,7) by (simp add: numeral_3_eq_3 numeral_eq_Suc)
  then have move: "shutil_move env src dst fs = (Inl (OsErr EIO), ?f2)"
    using node by (simp add: shutil_move_def try_with_def r with_state_def and_then_def)
  have "shutil_copy env dst src ?f2 = (Inr (), ?f3)"
    using copy_over [of ?f2 dst ?k "take m c" src i c env] src ne assms(6) by simp
  then have soft: "apply_softlink env False rel src dst fs = (Inr (''copy'', True, False), ?f3)" for rel
    by (simp add: apply_softlink_def softlink_attempt_def try_with_def and_then_def move give_def)
  have "place env cfg src dst p Unguarded multiple fs = (Inr (placed dst p Unguarded (''copy'', True, False)), ?f3)"
    using assms(4,5) by (simp add: place_def Let_def apply_mode_def soft and_then_def give_def)
  then show ?thesis using src ne by (auto simp: holds_file_def source_file_def)
qed

theorem softlink_truncates_source_witness:
  "\<exists>t. place (demo_disk (\<lambda>n. if n = 3 then Some EIO else None)) demo_config ''/in/a.cbz'' ''/lib/b.cbz'' Series Unguarded False demo_fs
       = (Inr (placed ''/lib/b.cbz'' Series Unguarded (''copy'', True, False)), t)
     \<and> holds_file t ''/in/a.cbz'' ''n''"
proof -
  have c: "fs_names demo_fs ''/lib/b.cbz'' = None" "fe_device (demo_disk f) ''/in/a.cbz'' \<noteq> fe_device (demo_disk f) ''/lib/b.cbz''"
    "resolve_mode demo_config Series False = VStr ''softlink''" "Series \<noteq> Arc"
    "fe_fault (demo_disk (\<lambda>n. if n = 3 then Some EIO else None)) = (\<lambda>n. if n = fs_calls demo_fs + 3 then Some EIO else None)"
    "1 = fe_short (demo_disk f) (fs_calls demo_fs + 3)" for f
    by (simp_all add: demo_fs_def demo_disk_def resolve_mode_def demo_config_def py_startswith_def)
  show ?thesis using softlink_truncates_source [OF demo_source c] by auto
qed

text \<open>The other loss: displacing with soft links.  When the comic has been moved to the destination and then neither the
  link nor the copy back can be made, the old file is put back over it, and no name is left for the comic.\<close>

lemma softlink_displace_loses_comic:
  "let r = place (demo_disk (\<lambda>n. if n = 2 \<or> n = 3 then Some EIO else None)) demo_config
             ''/lib/new.cbz'' ''/lib/a.cbz'' Series Displace False
             (demo_fs\<lparr>fs_names := [''/lib/new.cbz'' \<mapsto> 0, ''/lib/a.cbz'' \<mapsto> 1]\<rparr>) in
   fst r = Inl PlacementFailed \<and> fs_names (snd r) ''/lib/a.cbz'' = Some 1 \<and> fs_names (snd r) ''/lib/new.cbz'' = None
   \<and> fs_names (snd r) (displaced_name ''/lib/a.cbz'') = None"
  by code_simp

section \<open>Arcs\<close>

text \<open>The source of an arc, while it is worked on: the comic is under its name, and the destination is a plain name.\<close>

definition arc_inv :: "string \<Rightarrow> nat \<Rightarrow> string \<Rightarrow> string \<Rightarrow> fsys \<Rightarrow> bool" where
  "arc_inv src i c dst fs \<longleftrightarrow> source_file fs src i c \<and> (\<forall>k. fs_names fs dst = Some k \<longrightarrow> (\<exists>x. fs_inodes fs k = Some (IFile x)))"

definition source_kept :: "string \<Rightarrow> nat \<Rightarrow> string \<Rightarrow> fsys \<Rightarrow> bool" where
  "source_kept src i c fs \<longleftrightarrow> fs_names fs src = Some i \<and> fs_inodes fs i = Some (IFile c)"

lemma arc_kept: "arc_inv src i c dst fs \<Longrightarrow> source_kept src i c fs"
  by (simp add: arc_inv_def source_kept_def source_file_def)

interpretation arc: file_invariant "arc_inv src i c dst" for src i c dst
  by unfold_locales (simp add: arc_inv_def source_file_def same_inodes_def)

lemma arc_plain: "arc_inv src i c dst fs \<Longrightarrow> \<not> islink fs dst"
  by (auto simp: arc_inv_def islink_def node_at_def split: option.splits inode.splits)

lemma arc_copy: "triple (arc_inv src i c dst) (shutil_copy env src dst) (\<lambda>_. arc_inv src i c dst) (\<lambda>_. arc_inv src i c dst)"
proof (rule arc.copy_plain)
  show "\<not> islink fs dst \<and> (\<forall>k. fs_names fs src = Some k \<longrightarrow> (\<exists>c. fs_inodes fs k = Some (IFile c)))" if "arc_inv src i c dst fs" for fs
    using arc_plain [OF that] that by (auto simp: arc_inv_def source_file_def)
next
  fix fs x t
  assume p: "arc_inv src i c dst fs" and w: "written fs dst x t" and ne: "fs_names fs dst \<noteq> fs_names fs src"
  have src: "fs_names fs src = Some i" "fs_inodes fs i = Some (IFile c)" "i < fs_next fs"
    using p by (auto simp: arc_inv_def source_file_def)
  show "arc_inv src i c dst t"
  proof (cases "fs_names fs dst")
    case None
    then show ?thesis using w src by (auto simp: arc_inv_def source_file_def written_def target_inode_def Let_def)
  next
    case (Some k)
    then show ?thesis using written_existing [OF w Some] src ne by (auto simp: arc_inv_def source_file_def)
  qed
qed

lemma arc_mode: "triple (arc_inv src i c dst) (apply_mode env mode True relative src dst) (\<lambda>_. source_kept src i c) (\<lambda>_. arc_inv src i c dst)"
proof -
  let ?A = "arc_inv src i c dst" and ?K = "\<lambda>_. source_kept src i c"
  have copy: "triple ?A (and_then (try_with (shutil_copy env src dst) (\<lambda>_. placement_fail)) (\<lambda>_. give y)) ?K (\<lambda>_. ?A)" for y :: 'x
    by (rule triple_then [OF triple_try [OF arc_copy]]) (auto intro!: triple_give triple_fail arc_kept simp: placement_fail_def)
  have link: "triple ?A (os_link env src dst) (\<lambda>_. ?A) (\<lambda>_. ?A)"
    by (rule arc.link) (auto simp: arc_inv_def source_file_def same_inodes_def)
  have hard: "triple ?A (apply_hardlink env src dst) ?K (\<lambda>_. ?A)"
    unfolding apply_hardlink_def placement_fail_def
    by (rule triple_then [where R = "\<lambda>_. ?A"], rule triple_try [OF triple_then [OF link]], rule triple_give, assumption, rule triple_if,
        rule triple_then [OF triple_try [OF arc_copy]], rule triple_fail, assumption, rule triple_give, assumption, rule triple_fail, assumption,
        rule triple_if, rule triple_then [OF arc.lstat], rule triple_give, erule arc_kept, rule triple_give, erule arc_kept)
  have sym: "triple ?A (os_symlink env x dst) ?K (\<lambda>_. ?A)" for x
    by (rule arc.symlink) (auto simp: source_kept_def arc_inv_def source_file_def)
  have soft: "triple ?A (apply_softlink env True relative src dst) ?K (\<lambda>_. ?A)"
    unfolding apply_softlink_def softlink_attempt_def if_True not_True_eq_False if_False
    by (rule triple_try [OF triple_then [OF sym]], rule triple_give, assumption, rule copy)
  show ?thesis unfolding apply_mode_def by (intro triple_if copy hard soft) (auto intro: triple_fail simp: placement_fail_def)
qed

text \<open>C13: Placing a comic into a story arc never touches the series' own file.  Unguarded or skipping, in every
  configured mode (a move becomes a copy), and whichever calls fail, the source still names the same file with the same
  content when the placement returns or raises.\<close>

theorem arc_keeps_the_source:
  assumes "source_file fs src i c" and "\<not> islink fs dst" and "fs_ok fs" and "oe \<in> {Unguarded, Skip}"
    and "place env cfg src dst Arc oe multiple fs = (r, t)"
  shows "fs_names t src = Some i \<and> fs_inodes t i = Some (IFile c)"
proof -
  have a: "arc_inv src i c dst fs"
    using assms(1-3) by (fastforce simp: arc_inv_def fs_ok_def islink_def node_at_def split: inode.splits)
  let ?K = "\<lambda>_. source_kept src i c"
  let ?l = "\<lambda>mode relative. and_then (apply_mode env mode True relative src dst) (\<lambda>x. give (placed dst Arc oe x))"
  have l: "triple (arc_inv src i c dst) (?l mode relative) ?K ?K" for mode relative
    by (rule triple_then [where R = ?K, OF triple_conseq [OF arc_mode]]) (auto intro: triple_give arc_kept)
  have "triple (arc_inv src i c dst) (place env cfg src dst Arc oe multiple) ?K ?K"
  proof (cases "oe = Skip")
    case True
    have "triple (arc_inv src i c dst) (with_state (\<lambda>fs. if isfile env fs dst then give (already_placed dst Arc oe mode) else ?l mode relative)) ?K ?K"
      for mode relative
      by (intro triple_state triple_if) (auto intro: triple_give arc_kept triple_conseq [OF l])
    from this [of "resolve_mode cfg Arc multiple" "softlink_relative cfg Arc"] show ?thesis
      unfolding True by (simp add: place_def Let_def)
  qed (use assms(4) l in \<open>simp add: place_def Let_def\<close>)
  from triple_raised [OF this a] triple_returned [OF this a] have "source_kept src i c t" using assms(5) by (cases r) simp_all
  then show ?thesis by (simp add: source_kept_def)
qed

theorem arc_keeps_the_source_witness:
  "fst (place (demo_disk (\<lambda>n. None)) demo_config ''/in/a.cbz'' ''/lib/a.cbz'' Arc Unguarded False demo_fs)
     = Inr (placed ''/lib/a.cbz'' Arc Unguarded (''copy'', True, False))
   \<and> fs_names (snd (place (demo_disk (\<lambda>n. None)) demo_config ''/in/a.cbz'' ''/lib/a.cbz'' Arc Unguarded False demo_fs)) ''/in/a.cbz'' = Some 0"
proof -
  let ?x = "place (demo_disk (\<lambda>n. None)) demo_config ''/in/a.cbz'' ''/lib/a.cbz'' Arc Unguarded False demo_fs"
  have a: "fst ?x = Inr (placed ''/lib/a.cbz'' Arc Unguarded (''copy'', True, False))" by code_simp
  have c: "\<not> islink demo_fs ''/lib/a.cbz''" "fs_ok demo_fs" "Unguarded \<in> {Unguarded, Skip}"
    by (auto simp: islink_def node_at_def demo_fs_def fs_ok_def split: if_splits)
  show ?thesis using a arc_keeps_the_source [OF demo_source c prod.collapse [symmetric]] by blast
qed

end
