(* ===== verification/Imports.thy ===== *)
theory Imports
  imports Placement PPPipeline
begin

text \<open>
  \<open>comicarr/app/imports/finalization.py\<close> with the inbox queries of \<open>imports/queries.py\<close> it commits through: an import
  match is validated, its files are placed with the refusing policy, the series is rescanned, and the inbox records are
  marked in one transaction; whatever fails afterwards undoes the placements, newest first.  The state is the file system and the inbox
  table.  The metadata service that readies the series, the rescan and the renaming rules are parameters.
\<close>

section \<open>The inbox\<close>

record inbox_row =
  im_location :: "string option"
  im_filename :: "string option"
  im_issue :: pval
  im_status :: "string option"
  im_requires :: bool
  im_comicid :: "string option"
  im_comicname :: "string option"
  im_issueid :: "string option"
  im_source :: "string option"
  im_confidence :: int
  im_watch :: "string option"
  im_ignore :: bool

text \<open>A failure: its phase, whether undoing failed too, and whether it is an \<open>ImportDuplicateError\<close>.\<close>

record import_failure =
  if_phase :: string
  if_rollback_failed :: bool
  if_duplicate :: bool

definition import_fail :: "string \<Rightarrow> bool \<Rightarrow> import_failure" where
  "import_fail phase rollback = \<lparr>if_phase = phase, if_rollback_failed = rollback, if_duplicate = False\<rparr>"

definition import_duplicate :: import_failure where
  "import_duplicate = \<lparr>if_phase = ''preflight'', if_rollback_failed = False, if_duplicate = True\<rparr>"

text \<open>\<open>status IS NULL OR lower(status) <> 'imported'\<close>\<close>

definition row_pending :: "inbox_row \<Rightarrow> bool" where
  "row_pending r = (case im_status r of None \<Rightarrow> True | Some s \<Rightarrow> py_lower s \<noteq> ''imported'')"

text \<open>One transaction over several records: the first record that is not pending undoes it all.\<close>

fun update_all :: "(string \<times> (inbox_row \<Rightarrow> inbox_row)) list \<Rightarrow> inbox_row dict \<Rightarrow> inbox_row dict option" where
  "update_all [] d = Some d"
| "update_all ((i, f) # us) d =
     (case dict_get d i of None \<Rightarrow> None
      | Some r \<Rightarrow> if row_pending r then update_all us (dict_set i (f r) d) else None)"

definition require_issue_resolution :: "string list \<Rightarrow> inbox_row dict \<Rightarrow> inbox_row dict option" where
  "require_issue_resolution ids d = update_all (map (\<lambda>i. (i, \<lambda>r. r\<lparr>im_requires := True\<rparr>)) ids) d"

definition imported_row :: "string \<Rightarrow> string \<Rightarrow> string \<Rightarrow> int \<Rightarrow> string option \<Rightarrow> inbox_row \<Rightarrow> inbox_row" where
  "imported_row sid name source confidence issue r =
     r\<lparr>im_comicid := Some sid, im_comicname := Some name, im_status := Some ''Imported'', im_source := Some source,
       im_confidence := confidence, im_watch := Some (''C'' @ sid), im_ignore := False, im_requires := False,
       im_issueid := (if present issue then issue else im_issueid r)\<rparr>"

definition mark_imported ::
  "(string \<times> string option) list \<Rightarrow> string \<Rightarrow> string \<Rightarrow> string \<Rightarrow> int \<Rightarrow> inbox_row dict \<Rightarrow> inbox_row dict option" where
  "mark_imported matches sid name source confidence d =
     update_all (map (\<lambda>(i, issue). (i, imported_row sid name source confidence issue)) matches) d"

section \<open>Preflight\<close>

datatype ids_given = OneId string | ManyIds "pval list"

fun add_id :: "pval list \<Rightarrow> string list \<Rightarrow> string list" where
  "add_id [] acc = acc"
| "add_id (v # vs) acc =
     (let i = py_strip (py_str v) in add_id vs (if v = VNone \<or> i = [] \<or> i \<in> set acc then acc else acc @ [i]))"

definition normalize_import_ids :: "ids_given \<Rightarrow> import_failure + string list" where
  "normalize_import_ids given =
     (let ids = (case given of OneId s \<Rightarrow> add_id [VStr s] [] | ManyIds vs \<Rightarrow> add_id vs []) in
      if ids = [] then Inl (import_fail ''preflight'' False) else Inr ids)"

definition row_ready :: "fenv \<Rightarrow> fsys \<Rightarrow> inbox_row \<Rightarrow> bool" where
  "row_ready env fs r \<longleftrightarrow>
     py_lower (py_strip (if present (im_status r) then the (im_status r) else [])) \<noteq> ''imported''
     \<and> present (im_location r) \<and> isfile env fs (the (im_location r))"

definition load_rows :: "fenv \<Rightarrow> fsys \<Rightarrow> inbox_row dict \<Rightarrow> string list \<Rightarrow> import_failure + (string \<times> inbox_row) list" where
  "load_rows env fs d ids =
     (if \<exists>i \<in> set ids. dict_get d i = None then Inl (import_fail ''preflight'' False)
      else let rows = map (\<lambda>i. (i, the (dict_get d i))) ids in
        if \<forall>(i, r) \<in> set rows. row_ready env fs r then Inr rows else Inl (import_fail ''preflight'' False))"

definition issue_number :: "inbox_row \<Rightarrow> string option" where
  "issue_number r =
     (if im_issue r = VNone then None
      else let n = py_strip (py_str (im_issue r)) in if n = [] \<or> n = ''None'' then None else Some n)"

text \<open>The surroundings of one finalization.\<close>

record import_env =
  ie_files :: fenv
  ie_place :: pconfig
  ie_rename :: bool
  ie_rename_param :: "string option \<Rightarrow> string \<Rightarrow> string option \<Rightarrow> string option option"
  ie_issue :: "string \<Rightarrow> string option"
  ie_new_issue :: "string \<Rightarrow> string option"
  ie_series :: "import_failure + string \<times> string \<times> string option"
  ie_directory :: bool
  ie_held :: "string option \<Rightarrow> string list"
  ie_move :: bool
  ie_unselected :: bool
  ie_rescan :: bool
  ie_reconcile :: bool

text \<open>A row with the issue it resolved to.\<close>

type_synonym matched = "string \<times> inbox_row \<times> string option"

definition resolve_issue_ids :: "import_env \<Rightarrow> string option \<Rightarrow> bool \<Rightarrow> (string \<times> inbox_row) list \<Rightarrow> matched list" where
  "resolve_issue_ids env fallback new_series rows =
     map (\<lambda>(i, r).
       (let strict = new_series \<or> im_requires r;
            found = (case issue_number r of None \<Rightarrow> None | Some n \<Rightarrow> if strict then ie_new_issue env n else ie_issue env n)
        in (i, r, if present found then found else if strict then None else fallback))) rows"

definition destination_path :: "import_env \<Rightarrow> string \<Rightarrow> matched \<Rightarrow> string" where
  "destination_path env target m =
     (case m of (i, r, issue) \<Rightarrow>
        (let source = (case im_location r of None \<Rightarrow> [] | Some s \<Rightarrow> s);
             original = (if present (im_filename r) then the (im_filename r) else os_basename source);
             name = (if ie_rename env \<and> (issue_number r \<noteq> None \<or> present issue)
                     then (case ie_rename_param env (issue_number r) original issue of
                             Some (Some n) \<Rightarrow> if n \<noteq> [] then n else original | _ \<Rightarrow> original)
                     else original)
         in os_join target name))"

text \<open>\<open>_build_move_plan\<close>: no two files to one place, and no file to a place that is taken.\<close>

fun build_move_plan ::
  "import_env \<Rightarrow> fsys \<Rightarrow> string \<Rightarrow> matched list \<Rightarrow> (string \<times> string) list \<Rightarrow> import_failure + (string \<times> string) list" where
  "build_move_plan env fs target [] plan = Inr plan"
| "build_move_plan env fs target (m # ms) plan =
     (let dst = destination_path env target m in
      if abspath (ie_files env) dst \<in> set (map (\<lambda>(s, d). abspath (ie_files env) d) plan) then Inl (import_fail ''preflight'' False)
      else if isfile (ie_files env) fs dst then Inl (import_fail ''preflight'' False)
      else build_move_plan env fs target ms (plan @ [(the (im_location (fst (snd m))), dst)]))"

section \<open>Undoing placements\<close>

datatype undo_error = Undo_failed string string | Reconcile_failed

text \<open>One completed placement is undone as its result says, not as the configuration says.\<close>

definition undo_one :: "fenv \<Rightarrow> string \<times> placement_result \<Rightarrow> undo_error list io" where
  "undo_one env x =
     (case x of (src, r) \<Rightarrow> with_state (\<lambda>fs.
        if \<not> lexists fs (pr_destination r)
        then give (if lexists fs src then [] else [Undo_failed (pr_destination r) src])
        else try_with
               (and_then (if pr_survived r then os_unlink env (pr_destination r) else restore_moved_file env (pr_destination r) src)
                  (\<lambda>_. give []))
               (\<lambda>_. give [Undo_failed (pr_destination r) src])))"

fun undo_all :: "fenv \<Rightarrow> (string \<times> placement_result) list \<Rightarrow> undo_error list io" where
  "undo_all env [] = give []"
| "undo_all env (x # xs) = and_then (undo_one env x) (\<lambda>e. and_then (undo_all env xs) (\<lambda>es. give (e @ es)))"

definition rollback_moves :: "import_env \<Rightarrow> bool \<Rightarrow> (string \<times> placement_result) list \<Rightarrow> undo_error list io" where
  "rollback_moves env again moved =
     and_then (undo_all (ie_files env) (rev moved))
       (\<lambda>es. give (es @ (if again \<and> \<not> ie_reconcile env then [Reconcile_failed] else [])))"

section \<open>Moving and rescanning\<close>

definition undone :: "import_env \<Rightarrow> bool \<Rightarrow> string \<Rightarrow> (string \<times> placement_result) list \<Rightarrow> (import_failure + 'a) io" where
  "undone env again phase moved =
     and_then (rollback_moves env again moved) (\<lambda>es. give (Inl (import_fail phase (es \<noteq> []))))"

fun place_all ::
  "import_env \<Rightarrow> (string \<times> string) list \<Rightarrow> (string \<times> placement_result) list
   \<Rightarrow> (import_failure + (string \<times> placement_result) list) io" where
  "place_all env [] moved = give (Inr moved)"
| "place_all env ((src, dst) # plan) moved = with_state (\<lambda>fs.
     if isfile (ie_files env) fs dst then undone env False ''move'' moved
     else and_then
            (try_with (and_then (place (ie_files env) (ie_place env) src dst Import Refuse False) (\<lambda>r. give (Some r))) (\<lambda>_. give None))
            (\<lambda>x. case x of
               None \<Rightarrow> undone env False ''move'' moved
             | Some r \<Rightarrow> place_all env plan (moved @ [(src, r)])))"

definition move_and_rescan ::
  "import_env \<Rightarrow> (string \<times> string) list \<Rightarrow> (import_failure + (string \<times> placement_result) list) io" where
  "move_and_rescan env plan =
     and_then (place_all env plan [])
       (\<lambda>x. case x of
          Inl e \<Rightarrow> give (Inl e)
        | Inr moved \<Rightarrow> if ie_rescan env then give (Inr moved) else undone env True ''rescan'' moved)"

section \<open>Finalizing\<close>

record import_world =
  iw_files :: fsys
  iw_inbox :: "inbox_row dict"

text \<open>The commit, and what undoes the placements when it fails.\<close>

definition commit_import ::
  "import_env \<Rightarrow> (string \<times> string option) list \<Rightarrow> string \<Rightarrow> string \<Rightarrow> string \<Rightarrow> int \<Rightarrow> (string \<times> placement_result) list
   \<Rightarrow> import_world \<Rightarrow> (exn + (import_failure + nat)) \<times> import_world" where
  "commit_import env matches sid name source confidence moved w =
     (case mark_imported matches sid name source confidence (iw_inbox w) of
        Some d \<Rightarrow> (Inr (Inr (length matches)), w\<lparr>iw_inbox := d\<rparr>)
      | None \<Rightarrow>
          if \<not> ie_move env then (Inr (Inl (import_fail ''commit'' False)), w)
          else (case undone env True ''commit'' moved (iw_files w) of (r, fs) \<Rightarrow> (r, w\<lparr>iw_files := fs\<rparr>)))"

definition move_and_commit ::
  "import_env \<Rightarrow> (string \<times> string) list \<Rightarrow> (string \<times> string option) list \<Rightarrow> string \<Rightarrow> string \<Rightarrow> string \<Rightarrow> int \<Rightarrow> import_world
   \<Rightarrow> (exn + (import_failure + nat)) \<times> import_world" where
  "move_and_commit env plan matches sid name source confidence w =
     (case move_and_rescan env plan (iw_files w) of
        (Inl x, t) \<Rightarrow> (Inl x, w\<lparr>iw_files := t\<rparr>)
      | (Inr (Inl e), t) \<Rightarrow> (Inr (Inl e), w\<lparr>iw_files := t\<rparr>)
      | (Inr (Inr moved), t) \<Rightarrow> commit_import env matches sid name source confidence moved (w\<lparr>iw_files := t\<rparr>))"

definition held_elsewhere :: "import_env \<Rightarrow> fsys \<Rightarrow> matched \<Rightarrow> bool" where
  "held_elsewhere env fs m =
     (case m of (i, r, issue) \<Rightarrow>
        \<exists>p \<in> set (ie_held env issue). isfile (ie_files env) fs p
          \<and> stat (ie_files env) fs p \<noteq> stat (ie_files env) fs (the (im_location r)))"

text \<open>From the matched rows to the commit, once the series is ready.\<close>

definition finalize_matched ::
  "import_env \<Rightarrow> matched list \<Rightarrow> string \<Rightarrow> string \<Rightarrow> string option \<Rightarrow> string \<Rightarrow> int \<Rightarrow> import_world
   \<Rightarrow> (exn + (import_failure + nat)) \<times> import_world" where
  "finalize_matched env rows sid name target source confidence w =
     (let fs = iw_files w; refuse = (\<lambda>e. (Inr (Inl e), w)); matches = map (\<lambda>(i, r, issue). (i, issue)) rows in
      if \<exists>(i, r, issue) \<in> set rows. im_requires r \<and> \<not> present issue then refuse (import_fail ''issues'' False)
      else if source = ''inbox-auto'' \<and> (\<exists>m \<in> set rows. held_elsewhere env fs m) then refuse import_duplicate
      else if \<not> present target \<or> target = Some ''None'' \<or> \<not> ie_directory env then refuse (import_fail ''preflight'' False)
      else if \<not> ie_move env
      then (if source = ''inbox-auto'' \<and> ie_unselected env then refuse import_duplicate
            else if \<not> ie_rescan env then refuse (import_fail ''rescan'' False)
            else commit_import env matches sid name source confidence [] w)
      else (case build_move_plan env fs (the target) rows [] of
              Inl e \<Rightarrow> refuse e
            | Inr plan \<Rightarrow> move_and_commit env plan matches sid name source confidence w))"

text \<open>\<open>finalize_manual_match\<close> under its lock; an exception that is no \<open>ImportFinalizationError\<close> becomes one.\<close>

definition finalize_manual_match ::
  "import_env \<Rightarrow> ids_given \<Rightarrow> string option \<Rightarrow> string \<Rightarrow> int \<Rightarrow> bool \<Rightarrow> import_world \<Rightarrow> (import_failure + nat) \<times> import_world" where
  "finalize_manual_match env given fallback source confidence add w =
     (let add_missing = (add \<and> source = ''manual'') in
      case normalize_import_ids given of Inl e \<Rightarrow> (Inl e, w)
      | Inr ids \<Rightarrow>
      case load_rows (ie_files env) (iw_files w) (iw_inbox w) ids of Inl e \<Rightarrow> (Inl e, w)
      | Inr rows \<Rightarrow>
      case (if add_missing then require_issue_resolution ids (iw_inbox w) else Some (iw_inbox w)) of
        None \<Rightarrow> (Inl (import_fail ''finalization'' False), w)
      | Some d \<Rightarrow>
          (let w1 = w\<lparr>iw_inbox := d\<rparr>; rows1 = (if add_missing then map (\<lambda>(i, r). (i, r\<lparr>im_requires := True\<rparr>)) rows else rows) in
           case ie_series env of Inl e \<Rightarrow> (Inl e, w1)
           | Inr (sid, name, target) \<Rightarrow>
               (case finalize_matched env (resolve_issue_ids env (if add_missing then None else fallback) add_missing rows1)
                       sid name target source confidence w1 of
                  (Inl x, t) \<Rightarrow> (Inl (import_fail ''finalization'' False), t)
                | (Inr r, t) \<Rightarrow> (r, t))))"

section \<open>Tagged files\<close>

text \<open>\<open>_install_tagged_file\<close>: the tagged copy is staged beside the library file and takes its name; \<open>FileExistsError\<close>
  when the tagger renamed the file onto another one.  What is left in the cache directory is not modelled.\<close>

definition install_tagged_file :: "fenv \<Rightarrow> string \<Rightarrow> string \<Rightarrow> string io" where
  "install_tagged_file env library tagged = with_state (\<lambda>fs.
     (let dst = os_join (dirname library) (os_basename tagged); renamed = (abspath env library \<noteq> abspath env dst);
          quietly = (\<lambda>p. try_with (os_unlink env p) (\<lambda>_. give ())) in
      if renamed \<and> lexists fs dst then fail_with (OsErr EEXIST)
      else and_then
        (if abspath env tagged \<noteq> abspath env dst
         then and_then (mkstemp env dst) (\<lambda>staged.
              and_then (try_with (and_then (shutil_copy env tagged staged) (\<lambda>_. os_rename env staged dst))
                          (\<lambda>e. and_then (quietly staged) (\<lambda>_. fail_with e)))
                (\<lambda>_. quietly tagged))
         else give ())
        (\<lambda>_. and_then (with_state (\<lambda>t. if renamed \<and> lexists t library then quietly library else give ()))
               (\<lambda>_. give dst))))"

end
