(* ===== verification/ImportsProps.thy ===== *)
theory ImportsProps
  imports Imports PublishProps
begin

text \<open>
  The properties of an import: whatever fails, no comic is lost; undoing without an error gives every file back its
  place; and the inbox says "Imported" exactly when the import went through.
\<close>

section \<open>Files that are kept\<close>

lemma holds_unique: "holds_file fs p c \<Longrightarrow> holds_file fs p d \<Longrightarrow> c = d"
  by (auto simp: holds_file_def source_file_def)

lemma holds_kept: "kept f0 src t \<Longrightarrow> holds_file f0 q c \<Longrightarrow> q \<noteq> src \<Longrightarrow> holds_file t q c"
  unfolding holds_file_def source_file_def kept_def by fastforce

lemma holds_before: "before f0 src i t \<Longrightarrow> source_file f0 src i c \<Longrightarrow> holds_file t src c"
  unfolding holds_file_def using before_source by blast

lemma holds_cong: "same_inodes fs t \<Longrightarrow> fs_names t = fs_names fs \<Longrightarrow> holds_file t = holds_file fs"
  by (intro ext) (simp add: holds_file_def source_file_def same_inodes_def)

lemma holds_lexists: "holds_file fs p c \<Longrightarrow> lexists fs p"
  by (auto simp: holds_file_def source_file_def lexists_def)

lemma isfile_holds: "holds_file fs p c \<Longrightarrow> isfile env fs p"
  using stat_plain [OF file_plain] by (fastforce simp: holds_file_def source_file_def isfile_def)

text \<open>A plan moves plain files to names that hold none, each file once and each name once.\<close>

definition plan_ok :: "fsys \<Rightarrow> (string \<times> string) set \<Rightarrow> bool" where
  "plan_ok f0 plan \<longleftrightarrow> (\<forall>(s, d) \<in> plan. (\<exists>c. holds_file f0 s c) \<and> (\<forall>c. \<not> holds_file f0 d c))
     \<and> (\<forall>(s, d) \<in> plan. \<forall>(s', d') \<in> plan. s = s' \<longleftrightarrow> d = d')"

text \<open>Nothing is lost: each file of before is at its name or where the plan puts it, and what was placed is where its
  result says.\<close>

definition settled :: "fsys \<Rightarrow> (string \<times> string) set \<Rightarrow> (string \<times> placement_result) list \<Rightarrow> fsys \<Rightarrow> bool" where
  "settled f0 plan moved fs \<longleftrightarrow>
     (\<forall>q c. holds_file f0 q c \<longrightarrow> holds_file fs q c \<or> (\<exists>d. (q, d) \<in> plan \<and> holds_file fs d c))
     \<and> (\<forall>(s, r) \<in> set moved. (s, pr_destination r) \<in> plan
          \<and> (\<forall>c. holds_file f0 s c \<longrightarrow> holds_file fs (if pr_survived r then s else pr_destination r) c))"

text \<open>The files of before that are not at their name are those of \<open>M\<close>.\<close>

definition missing_only :: "fsys \<Rightarrow> string set \<Rightarrow> fsys \<Rightarrow> bool" where
  "missing_only f0 M fs \<longleftrightarrow> (\<forall>q c. holds_file f0 q c \<longrightarrow> holds_file fs q c \<or> q \<in> M)"

lemma settled_frame: "settled f0 plan P fs \<Longrightarrow> same_inodes fs t \<Longrightarrow> fs_names t = fs_names fs \<Longrightarrow> settled f0 plan P t"
  by (simp add: settled_def holds_cong)

text \<open>A change of one name, an end of an entry of the plan, that leaves the file at one of the two ends.\<close>

lemma settled_change:
  assumes ok: "plan_ok f0 plan" and st: "settled f0 plan P fs" and sd: "(s, d) \<in> plan" and x: "x \<in> {s, d}"
    and P: "s \<notin> fst ` set P"
    and other: "\<And>q c. q \<noteq> x \<Longrightarrow> holds_file fs q c \<Longrightarrow> holds_file t q c"
    and self: "\<And>c. holds_file f0 s c \<Longrightarrow> holds_file t s c \<or> holds_file t d c"
  shows "settled f0 plan P t"
proof -
  have ends: "\<And>s d c. (s, d) \<in> plan \<Longrightarrow> \<not> holds_file f0 d c" "\<And>s d. (s, d) \<in> plan \<Longrightarrow> \<exists>c. holds_file f0 s c"
    "\<And>s' d'. (s', d') \<in> plan \<Longrightarrow> s = s' \<longleftrightarrow> d = d'" using ok sd unfolding plan_ok_def by fast+
  have nx: "q = s" if "holds_file f0 q c" "q = x" for q c using that x ends(1) [OF sd] by auto
  have dx: "d' \<noteq> x" if "(s', d') \<in> plan" "s' \<noteq> s" for s' d'
    using that x ends(1) [OF that(1)] ends(2) [OF sd] ends(3) [OF that(1)] by auto
  have "holds_file t q c \<or> (\<exists>d. (q, d) \<in> plan \<and> holds_file t d c)" if h: "holds_file f0 q c" for q c
  proof (cases "q = s")
    case True
    then show ?thesis using self h sd by blast
  next
    case False
    then have "q \<noteq> x" using nx [OF h] by blast
    moreover have "holds_file fs q c \<or> (\<exists>d. (q, d) \<in> plan \<and> holds_file fs d c)" using st h unfolding settled_def by blast
    ultimately show ?thesis using other dx False by blast
  qed
  moreover have "(s', pr_destination r) \<in> plan \<and> (\<forall>c. holds_file f0 s' c \<longrightarrow> holds_file t (if pr_survived r then s' else pr_destination r) c)"
    if m: "(s', r) \<in> set P" for s' r
  proof -
    have p: "(s', pr_destination r) \<in> plan" "\<And>c. holds_file f0 s' c \<Longrightarrow> holds_file fs (if pr_survived r then s' else pr_destination r) c"
      using st m unfolding settled_def by fast+
    have "s' \<noteq> s" using P m by force
    then show ?thesis using p other nx dx by (metis (full_types))
  qed
  ultimately show ?thesis unfolding settled_def by blast
qed

lemma missing_change:
  assumes "missing_only f0 (insert s M) fs" and "\<And>q c. q \<noteq> x \<Longrightarrow> holds_file fs q c \<Longrightarrow> holds_file t q c"
    and "\<And>c. \<not> holds_file f0 x c \<or> x = s" and "\<And>c. holds_file f0 s c \<Longrightarrow> holds_file t s c"
  shows "missing_only f0 M t"
  unfolding missing_only_def
proof (intro allI impI)
  fix q c
  assume h: "holds_file f0 q c"
  show "holds_file t q c \<or> q \<in> M"
  proof (cases "q = s")
    case True
    then show ?thesis using assms(4) h by blast
  next
    case False
    then have "q \<noteq> x" using assms(3) h by blast
    then show ?thesis using False assms(1,2) h unfolding missing_only_def by blast
  qed
qed

section \<open>Undoing\<close>

text \<open>What undoing one entry may leave: the rest settled, and without an error the file back at its name.\<close>

lemma undo_settled:
  assumes ok: "plan_ok f0 plan" and st: "settled f0 plan ((s, r) # P) fs" and P: "s \<notin> fst ` set P"
    and u: "undo_one env (s, r) fs = (x, t)"
  shows "\<exists>es. x = Inr es \<and> settled f0 plan P t \<and> (\<forall>M. missing_only f0 (insert s M) fs \<longrightarrow> es = [] \<longrightarrow> missing_only f0 M t)"
proof -
  let ?d = "pr_destination r"
  have sd: "(s, ?d) \<in> plan" and at: "\<And>c. holds_file f0 s c \<Longrightarrow> holds_file fs (if pr_survived r then s else ?d) c"
    using st unfolding settled_def by auto
  have stP: "settled f0 plan P fs" using st unfolding settled_def by auto
  have nd: "\<not> holds_file f0 ?d c" for c using ok sd unfolding plan_ok_def by fast
  obtain c0 where c0: "holds_file f0 s c0" using ok sd unfolding plan_ok_def by fast
  have c0u: "c = c0" if "holds_file f0 s c" for c using holds_unique [OF that c0] .
  have ne: "s \<noteq> ?d" using c0 nd by auto
  have change: "settled f0 plan P t'" if "\<And>q c. q \<noteq> ?d \<Longrightarrow> holds_file fs q c \<Longrightarrow> holds_file t' q c" "holds_file t' s c0 \<or> holds_file t' ?d c0" for t'
    by (rule settled_change [OF ok stP sd _ P, of ?d]) (use that c0u in auto)
  have restored: "missing_only f0 M t'" if "missing_only f0 (insert s M) fs" "\<And>q c. q \<noteq> ?d \<Longrightarrow> holds_file fs q c \<Longrightarrow> holds_file t' q c"
      "holds_file t' s c0" for M t'
    by (rule missing_change [OF that(1), of ?d]) (use that nd c0u in auto)
  show ?thesis
  proof (cases "lexists fs ?d")
    case False
    then have sv: "holds_file fs s c0" using at [OF c0] holds_lexists by (auto split: if_splits)
    have "x = Inr []" "t = fs" using u False holds_lexists [OF sv] by (auto simp: undo_one_def with_state_def give_def)
    then show ?thesis using stP restored [of _ fs] sv by auto
  next
    case True
    define a where "a = (if pr_survived r then os_unlink env ?d else restore_moved_file env ?d s)"
    obtain y t1 where a: "a fs = (y, t1)" by force
    have xt: "t = t1" "x = (case y of Inl e \<Rightarrow> Inr [Undo_failed ?d s] | Inr _ \<Rightarrow> Inr [])"
      using u True a by (auto simp: undo_one_def with_state_def give_def a_def [symmetric] try_with_def and_then_def split: sum.splits)
    have keep: "\<And>q c. q \<noteq> ?d \<Longrightarrow> holds_file fs q c \<Longrightarrow> holds_file t1 q c"
      and either: "holds_file t1 s c0 \<or> holds_file t1 ?d c0" and done_s: "y = Inr z \<Longrightarrow> holds_file t1 s c0" for z
    proof -
      have "(\<forall>q c. q \<noteq> ?d \<longrightarrow> holds_file fs q c \<longrightarrow> holds_file t1 q c) \<and> (holds_file t1 s c0 \<or> (\<forall>z. y \<noteq> Inr z) \<and> holds_file t1 ?d c0)"
      proof (cases "pr_survived r")
        case sv: True
        have n: "same_inodes fs t1" "fs_names t1 = fs_names fs \<or> fs_names t1 = (fs_names fs)(?d := None)"
          using a sv unlink_raised unlink_returned by (cases y; force simp: a_def)+
        have "holds_file fs q c \<Longrightarrow> q \<noteq> ?d \<Longrightarrow> holds_file t1 q c" for q c using holds_name [of fs q c t1 q] n by auto
        then show ?thesis using at [OF c0] sv ne by auto
      next
        case sv: False
        obtain k where k: "source_file fs ?d k c0" using at [OF c0] sv by (auto simp: holds_file_def)
        have b: "before fs ?d k fs" using k by (simp add: before_def kept_refl source_file_def)
        have m: "publish_move env ?d s fs = (y, t1)" using a sv by (simp add: a_def restore_moved_file_def)
        have "safe_outcome fs ?d k s c0 t1" "y = Inr z \<Longrightarrow> published fs ?d s c0 t1" for z
          using triple_raised [OF move_safely [OF k] b] triple_returned [OF move_safely [OF k] b] m
          by (cases y; auto simp: safe_outcome_def)+
        then show ?thesis using holds_kept holds_before [OF _ k] unfolding safe_outcome_def published_def before_def by blast
      qed
      then show "\<And>q c. q \<noteq> ?d \<Longrightarrow> holds_file fs q c \<Longrightarrow> holds_file t1 q c" "holds_file t1 s c0 \<or> holds_file t1 ?d c0"
        "y = Inr z \<Longrightarrow> holds_file t1 s c0" by auto
    qed
    show ?thesis using xt change [OF keep either] restored [OF _ keep done_s] by (cases y) auto
  qed
qed

lemma settled_set: "set P = set Q \<Longrightarrow> settled f0 plan P fs = settled f0 plan Q fs"
  by (simp add: settled_def)

lemma settled_none: "settled f0 plan P fs \<Longrightarrow> settled f0 plan [] fs"
  by (simp add: settled_def)

lemma undo_all_settled:
  assumes "plan_ok f0 plan" and "settled f0 plan P fs" and "distinct (map fst P)" and "undo_all env P fs = (x, t)"
  shows "\<exists>es. x = Inr es \<and> settled f0 plan [] t \<and> (missing_only f0 (fst ` set P) fs \<longrightarrow> es = [] \<longrightarrow> missing_only f0 {} t)"
  using assms(2-)
proof (induction P arbitrary: fs x t)
  case Nil
  then show ?case by (auto simp: give_def)
next
  case (Cons p P)
  obtain s r where p: "p = (s, r)" by force
  obtain x1 t1 where u: "undo_one env (s, r) fs = (x1, t1)" by force
  obtain x2 t2 where a: "undo_all env P t1 = (x2, t2)" by force
  have s: "s \<notin> fst ` set P" using Cons.prems(2) p by auto
  obtain es where es: "x1 = Inr es" "settled f0 plan P t1"
    "\<And>M. missing_only f0 (insert s M) fs \<Longrightarrow> es = [] \<Longrightarrow> missing_only f0 M t1"
    using undo_settled [OF assms(1) Cons.prems(1) [unfolded p] s u] by blast
  obtain fs' where f: "x2 = Inr fs'" "settled f0 plan [] t2" "missing_only f0 (fst ` set P) t1 \<longrightarrow> fs' = [] \<longrightarrow> missing_only f0 {} t2"
    using Cons.IH [OF es(2) _ a] Cons.prems(2) by auto
  have "x = Inr (es @ fs')" "t = t2" using Cons.prems(3) p u a es(1) f(1) by (auto simp: and_then_def give_def)
  then show ?case using f es(3) p by auto
qed

lemma undone_settled:
  assumes "plan_ok f0 plan" and "settled f0 plan P fs" and "distinct (map fst P)" and "undone env again phase P fs = (x, t)"
  shows "\<exists>e. x = Inr (Inl e) \<and> settled f0 plan [] t
    \<and> (missing_only f0 (fst ` set P) fs \<longrightarrow> \<not> if_rollback_failed e \<longrightarrow> missing_only f0 {} t)"
proof -
  obtain y t1 where u: "undo_all (ie_files env) (rev P) fs = (y, t1)" by force
  have dr: "distinct (map fst (rev P))" using assms(3) by (simp add: rev_map [symmetric])
  have st: "settled f0 plan (rev P) fs" using assms(2) settled_set [of "rev P" P] by simp
  obtain es where es: "y = Inr es" "settled f0 plan [] t1" "missing_only f0 (fst ` set P) fs \<longrightarrow> es = [] \<longrightarrow> missing_only f0 {} t1"
    using undo_all_settled [OF assms(1) st dr u, unfolded set_rev] by blast
  define all where "all = es @ (if again \<and> \<not> ie_reconcile env then [Reconcile_failed] else [])"
  have r: "x = Inr (Inl (import_fail phase (all \<noteq> [])))" "t = t1"
    using assms(4) u es(1) by (simp_all add: undone_def rollback_moves_def and_then_def give_def all_def)
  have "missing_only f0 {} t" if "missing_only f0 (fst ` set P) fs" "\<not> if_rollback_failed (import_fail phase (all \<noteq> []))"
    using that es(3) r(2) by (simp add: import_fail_def all_def)
  then show ?thesis using r es(2) by blast
qed

section \<open>Placing them all\<close>

lemma place_step:
  assumes "holds_file fs s c" and "place env cfg s d Import Refuse False fs = (y, t)"
  shows "(\<forall>q c'. q \<noteq> s \<longrightarrow> holds_file fs q c' \<longrightarrow> holds_file t q c')
    \<and> (case y of Inl e \<Rightarrow> (holds_file t s c \<or> holds_file t d c) \<and> (one_volume env \<longrightarrow> holds_file t s c)
       | Inr r \<Rightarrow> pr_destination r = d \<and> holds_file t (if pr_survived r then s else d) c)"
proof -
  obtain i where i: "source_file fs s i c" using assms(1) by (auto simp: holds_file_def)
  have b: "before fs s i fs" using i by (simp add: before_def kept_refl source_file_def)
  have p: "place_refusing env s d Import Refuse (resolve_mode cfg Import False) fs = (y, t)" using assms(2) by (simp add: place_def Let_def)
  note tr = triple_raised [OF refuse_truthfully [OF i] b] and tn = triple_returned [OF refuse_truthfully [OF i] b]
  have k: "kept fs s t"
  proof (cases y)
    case (Inl e)
    then have "safe_outcome fs s i d c t" using tr p by blast
    then show ?thesis by (auto simp: safe_outcome_def before_def published_def)
  next
    case (Inr r)
    then have "truthful fs s i d c r t" using tn p by blast
    then show ?thesis by (auto simp: truthful_def before_def published_def split: if_splits)
  qed
  show ?thesis
  proof (cases y)
    case (Inl e)
    have so: "safe_outcome fs s i d c t" using tr p Inl by blast
    have ov: "before fs s i t" if v: "one_volume env"
      using triple_raised [OF refuse_places [OF i move_one_volume [OF i v]] b] p Inl by blast
    show ?thesis using so ov holds_kept [OF k] holds_before [OF _ i] Inl by (auto simp: safe_outcome_def published_def)
  next
    case (Inr r)
    have "truthful fs s i d c r t" using tn p Inr by blast
    then show ?thesis using holds_kept [OF k] holds_before [OF _ i] Inr by (auto simp: truthful_def published_def)
  qed
qed

lemma missing_sub: "missing_only f0 M fs \<Longrightarrow> M \<subseteq> N \<Longrightarrow> missing_only f0 N fs"
  by (auto simp: missing_only_def)

lemma place_all_settled:
  assumes ok: "plan_ok f0 plan"
  shows "settled f0 plan P fs \<Longrightarrow> \<forall>(s, d) \<in> set ps. (s, d) \<in> plan \<and> (\<forall>c. holds_file f0 s c \<longrightarrow> holds_file fs s c) \<Longrightarrow>
    distinct (map fst ps @ map fst P) \<Longrightarrow> place_all env ps P fs = (x, t) \<Longrightarrow>
    \<exists>y. x = Inr y \<and> (case y of
        Inl e \<Rightarrow> settled f0 plan [] t \<and> (one_volume (ie_files env) \<longrightarrow> missing_only f0 (fst ` set P) fs
                   \<longrightarrow> \<not> if_rollback_failed e \<longrightarrow> missing_only f0 {} t)
      | Inr Q \<Rightarrow> settled f0 plan Q t \<and> distinct (map fst Q) \<and> (missing_only f0 (fst ` set P) fs \<longrightarrow> missing_only f0 (fst ` set Q) t))"
proof (induction ps arbitrary: P fs x t)
  case Nil
  then show ?case by (auto simp: give_def)
next
  case (Cons sd ps)
  obtain s d where sd: "sd = (s, d)" by force
  have mem: "(s, d) \<in> plan" using Cons.prems(2) sd by auto
  obtain c where c: "holds_file f0 s c" using ok mem unfolding plan_ok_def by fast
  have cu: "c' = c" if "holds_file f0 s c'" for c' using holds_unique [OF that c] .
  have src: "holds_file fs s c" using Cons.prems(2) sd c by auto
  have dP: "distinct (map fst P)" and sP: "s \<notin> fst ` set P" using Cons.prems(3) sd by auto
  have ends: "\<And>c. \<not> holds_file f0 d c" using ok mem unfolding plan_ok_def by fast
  let ?U = "undone env False ''move'' P :: (import_failure + (string \<times> placement_result) list) io"
  have fail: ?case if un: "?U u = (x, t)" and st: "settled f0 plan P u"
      and ms: "one_volume (ie_files env) \<Longrightarrow> missing_only f0 (fst ` set P) fs \<Longrightarrow> missing_only f0 (fst ` set P) u" for u
    using undone_settled [OF ok st dP un] ms by auto
  show ?case
  proof (cases "isfile (ie_files env) fs d")
    case True
    then show ?thesis using fail [OF _ Cons.prems(1)] Cons.prems(4) sd by (simp add: with_state_def)
  next
    case False
    obtain y t1 where pl: "place (ie_files env) (ie_place env) s d Import Refuse False fs = (y, t1)" by force
    note step = place_step [OF src pl]
    have other: "\<And>q c'. q \<noteq> s \<Longrightarrow> holds_file fs q c' \<Longrightarrow> holds_file t1 q c'" using step by blast
    have either: "holds_file t1 s c' \<or> holds_file t1 d c'" if "holds_file f0 s c'" for c'
      using step cu [OF that] by (auto split: sum.splits if_splits)
    have st1: "settled f0 plan P t1" by (rule settled_change [OF ok Cons.prems(1) mem insertI1 sP other either])
    show ?thesis
    proof (cases y)
      case (Inl e)
      have "missing_only f0 (fst ` set P) t1" if "one_volume (ie_files env)" "missing_only f0 (fst ` set P) fs"
        using that other step Inl cu c unfolding missing_only_def by (metis (no_types, lifting) old.sum.simps(5))
      moreover have "?U t1 = (x, t)" using Cons.prems(4) sd False pl Inl by (simp add: with_state_def and_then_def try_with_def give_def)
      ultimately show ?thesis using fail st1 by blast
    next
      case (Inr r)
      have r: "pr_destination r = d" "holds_file t1 (if pr_survived r then s else d) c" using step Inr by auto
      have go: "place_all env ps (P @ [(s, r)]) t1 = (x, t)"
        using Cons.prems(4) sd False pl Inr by (simp add: with_state_def and_then_def try_with_def give_def)
      have st2: "settled f0 plan (P @ [(s, r)]) t1" using st1 r mem cu by (auto simp: settled_def)
      have pend: "\<forall>(s', d') \<in> set ps. (s', d') \<in> plan \<and> (\<forall>c. holds_file f0 s' c \<longrightarrow> holds_file t1 s' c)"
        using Cons.prems(2,3) sd other by (fastforce simp: image_iff)
      have dist: "distinct (map fst ps @ map fst (P @ [(s, r)]))" using Cons.prems(3) sd by auto
      have ms: "missing_only f0 (fst ` set (P @ [(s, r)])) t1" if m: "missing_only f0 (fst ` set P) fs"
        using m other unfolding missing_only_def by auto
      have "missing_only f0 (fst ` set (P @ [(s, r)])) t1" if m: "missing_only f0 (fst ` set P) fs" using ms [OF m] .
      then show ?thesis using Cons.IH [OF st2 pend dist go] by (auto split: sum.splits)
    qed
  qed
qed

lemma move_settled:
  assumes ok: "plan_ok f0 (set plan)" and d: "distinct (map fst plan)" and m: "move_and_rescan env plan f0 = (x, t)"
  shows "\<exists>y. x = Inr y \<and> (case y of
      Inl e \<Rightarrow> settled f0 (set plan) [] t \<and> (one_volume (ie_files env) \<longrightarrow> \<not> if_rollback_failed e \<longrightarrow> missing_only f0 {} t)
    | Inr Q \<Rightarrow> settled f0 (set plan) Q t \<and> distinct (map fst Q) \<and> missing_only f0 (fst ` set Q) t)"
proof -
  obtain y u where p: "place_all env plan [] f0 = (y, u)" by force
  have s0: "settled f0 (set plan) [] f0" "missing_only f0 {} f0" by (auto simp: settled_def missing_only_def)
  have pend: "\<forall>(s, d) \<in> set plan. (s, d) \<in> set plan \<and> (\<forall>c. holds_file f0 s c \<longrightarrow> holds_file f0 s c)" by auto
  have dist: "distinct (map fst plan @ map fst ([] :: (string \<times> placement_result) list))" using d by simp
  obtain z where z: "y = Inr z" "case z of
      Inl e \<Rightarrow> settled f0 (set plan) [] u \<and> (one_volume (ie_files env) \<longrightarrow> missing_only f0 {} f0 \<longrightarrow> \<not> if_rollback_failed e \<longrightarrow> missing_only f0 {} u)
    | Inr Q \<Rightarrow> settled f0 (set plan) Q u \<and> distinct (map fst Q) \<and> (missing_only f0 {} f0 \<longrightarrow> missing_only f0 (fst ` set Q) u)"
    using place_all_settled [OF ok s0(1) pend dist p, unfolded list.set image_empty] by blast
  show ?thesis
  proof (cases z)
    case (Inl e)
    then show ?thesis using z m p s0(2) by (auto simp: move_and_rescan_def and_then_def give_def)
  next
    case (Inr Q)
    then have Q: "settled f0 (set plan) Q u" "distinct (map fst Q)" "missing_only f0 (fst ` set Q) u" using z(2) s0(2) by auto
    show ?thesis
    proof (cases "ie_rescan env")
      case True
      then show ?thesis using Q m p z(1) Inr by (auto simp: move_and_rescan_def and_then_def give_def)
    next
      case False
      then have "undone env True ''rescan'' Q u = (x, t)" using m p z(1) Inr by (simp add: move_and_rescan_def and_then_def)
      then show ?thesis using undone_settled [OF ok Q(1,2)] Q(3) by fastforce
    qed
  qed
qed

section \<open>The whole import\<close>

abbreviation source_of :: "matched \<Rightarrow> string" where
  "source_of m \<equiv> the (im_location (fst (snd m)))"

lemma build_move_plan_ok:
  "build_move_plan env fs target ms plan = Inr plan' \<Longrightarrow> distinct (map (\<lambda>(s, d). abspath (ie_files env) d) plan) \<Longrightarrow>
   \<forall>(s, d) \<in> set plan. \<not> isfile (ie_files env) fs d \<Longrightarrow>
   map fst plan' = map fst plan @ map source_of ms \<and> distinct (map (\<lambda>(s, d). abspath (ie_files env) d) plan')
     \<and> (\<forall>(s, d) \<in> set plan'. \<not> isfile (ie_files env) fs d)"
proof (induction ms arbitrary: plan)
  case (Cons m ms)
  let ?d = "destination_path env target m"
  have c: "abspath (ie_files env) ?d \<notin> set (map (\<lambda>(s, d). abspath (ie_files env) d) plan)" "\<not> isfile (ie_files env) fs ?d"
    "build_move_plan env fs target ms (plan @ [(source_of m, ?d)]) = Inr plan'"
    using Cons.prems(1) by (simp_all add: Let_def split: if_splits)
  show ?case using Cons.IH [OF c(3)] c(1,2) Cons.prems(2,3) by auto
qed simp

lemma distinct_map_image: "distinct (map f xs) \<Longrightarrow> x \<in> set xs \<Longrightarrow> y \<in> set xs \<Longrightarrow> f x = f y \<Longrightarrow> x = y"
  by (auto simp: distinct_map dest: inj_onD)

lemma plan_ok_of:
  assumes "build_move_plan env fs target ms [] = Inr plan" and "\<forall>m \<in> set ms. \<exists>c. holds_file fs (source_of m) c"
    and "distinct (map source_of ms)"
  shows "plan_ok fs (set plan) \<and> distinct (map fst plan) \<and> fst ` set plan = source_of ` set ms"
proof -
  have b: "map fst plan = map source_of ms" "distinct (map (\<lambda>(s, d). abspath (ie_files env) d) plan)"
    "\<forall>(s, d) \<in> set plan. \<not> isfile (ie_files env) fs d" using build_move_plan_ok [OF assms(1)] by auto
  have img: "fst ` set plan = source_of ` set ms" using b(1) by (metis list.set_map)
  have "(\<exists>c. holds_file fs s c) \<and> (\<forall>c. \<not> holds_file fs d c)" if "(s, d) \<in> set plan" for s d
  proof -
    have "s \<in> source_of ` set ms" using that img by force
    then show ?thesis using assms(2) b(3) that isfile_holds by fast
  qed
  moreover have "s = s' \<longleftrightarrow> d = d'" if "(s, d) \<in> set plan" "(s', d') \<in> set plan" for s d s' d'
    using distinct_map_image [OF b(2) that] distinct_map_image [of fst, OF _ that] b(1) assms(3) by auto
  ultimately have "plan_ok fs (set plan)" unfolding plan_ok_def by fast
  then show ?thesis using b(1) assms(3) img by simp
qed

text \<open>What any way through the matched rows leaves of the files.\<close>

definition files_safe :: "import_env \<Rightarrow> string set \<Rightarrow> fsys \<Rightarrow> import_failure + nat \<Rightarrow> fsys \<Rightarrow> bool" where
  "files_safe env sources f0 r fs \<longleftrightarrow>
     (\<forall>q c. holds_file f0 q c \<longrightarrow> holds_file fs q c \<or> (q \<in> sources \<and> (\<exists>d. holds_file fs d c)))
     \<and> (\<forall>e. one_volume (ie_files env) \<longrightarrow> r = Inl e \<longrightarrow> \<not> if_rollback_failed e \<longrightarrow> missing_only f0 {} fs)"

lemma files_safe_mono: "files_safe env A f0 r fs \<Longrightarrow> A \<subseteq> B \<Longrightarrow> files_safe env B f0 r fs"
  unfolding files_safe_def by blast

lemma files_safe_same: "files_safe env sources f0 r f0"
  by (simp add: files_safe_def missing_only_def)

lemma settled_files:
  assumes "settled f0 plan P fs" and "fst ` plan \<subseteq> sources" and "holds_file f0 q c"
  shows "holds_file fs q c \<or> (q \<in> sources \<and> (\<exists>d. holds_file fs d c))"
proof -
  have "holds_file fs q c \<or> (\<exists>d. (q, d) \<in> plan \<and> holds_file fs d c)" using assms(1,3) by (simp add: settled_def)
  then show ?thesis using assms(2) by (metis fst_conv image_eqI subsetD)
qed

lemma files_safe_undone:
  assumes "settled f0 plan [] fs" and "fst ` plan \<subseteq> sources"
    and "one_volume (ie_files env) \<longrightarrow> \<not> if_rollback_failed e \<longrightarrow> missing_only f0 {} fs"
  shows "files_safe env sources f0 (Inl e) fs"
  using settled_files [OF assms(1,2)] assms(3) unfolding files_safe_def by blast

lemma commit_safe:
  assumes ok: "plan_ok f0 plan" and st: "settled f0 plan Q (iw_files w)" and d: "distinct (map fst Q)"
    and ms: "missing_only f0 (fst ` set Q) (iw_files w)" and sub: "fst ` plan \<subseteq> sources"
    and c: "commit_import env matches sid name source confidence Q w = (x, w')" and mv: "ie_move env"
  shows "\<exists>r. x = Inr r \<and> files_safe env sources f0 r (iw_files w')"
proof (cases "mark_imported matches sid name source confidence (iw_inbox w)")
  case None
  obtain y t where u: "(undone env True ''commit'' Q :: (import_failure + nat) io) (iw_files w) = (y, t)" by force
  have r: "x = y" "iw_files w' = t" using c None mv u by (auto simp: commit_import_def)
  obtain e where "y = Inr (Inl e)" "settled f0 plan [] t"
    "missing_only f0 (fst ` set Q) (iw_files w) \<longrightarrow> \<not> if_rollback_failed e \<longrightarrow> missing_only f0 {} t"
    using undone_settled [OF ok st d u] by blast
  then show ?thesis using r ms files_safe_undone [OF _ sub] by blast
next
  case (Some b)
  have "files_safe env sources f0 (Inr n) (iw_files w)" for n
    using settled_files [OF st sub] by (simp add: files_safe_def)
  then show ?thesis using c Some by (auto simp: commit_import_def)
qed

lemma move_and_commit_safe:
  assumes p: "plan_ok (iw_files w) (set plan)" "distinct (map fst plan)" "fst ` set plan \<subseteq> sources" and mv: "ie_move env"
    and g: "move_and_commit env plan matches sid name source confidence w = (x, w')"
  shows "\<exists>r. x = Inr r \<and> files_safe env sources (iw_files w) r (iw_files w')"
proof -
  let ?fs = "iw_files w"
  obtain y t where m: "move_and_rescan env plan ?fs = (y, t)" by force
  obtain z where z: "y = Inr z" "case z of
        Inl e \<Rightarrow> settled ?fs (set plan) [] t \<and> (one_volume (ie_files env) \<longrightarrow> \<not> if_rollback_failed e \<longrightarrow> missing_only ?fs {} t)
      | Inr Q \<Rightarrow> settled ?fs (set plan) Q t \<and> distinct (map fst Q) \<and> missing_only ?fs (fst ` set Q) t"
    using move_settled [OF p(1,2) m] by blast
  show ?thesis
  proof (cases z)
    case (Inl e)
    then show ?thesis using g m z files_safe_undone [OF _ p(3)] by (auto simp: move_and_commit_def)
  next
    case (Inr Q)
    then have "commit_import env matches sid name source confidence Q (w\<lparr>iw_files := t\<rparr>) = (x, w')"
      using g m z(1) by (simp add: move_and_commit_def)
    from commit_safe [OF p(1) _ _ _ p(3) this mv] show ?thesis using z(2) Inr by simp
  qed
qed

lemma matched_cases:
  assumes "finalize_matched env rows sid name target source confidence w = (x, w')"
  obtains (refused) e where "x = Inr (Inl e)" "w' = w"
    | (archived) "\<not> ie_move env" "commit_import env (map (\<lambda>(i, r, issue). (i, issue)) rows) sid name source confidence [] w = (x, w')"
    | (moving) plan where "ie_move env" "build_move_plan env (iw_files w) (the target) rows [] = Inr plan"
        "move_and_commit env plan (map (\<lambda>(i, r, issue). (i, issue)) rows) sid name source confidence w = (x, w')"
  using assms unfolding finalize_matched_def Let_def
  by (cases "build_move_plan env (iw_files w) (the target) rows []"; simp split: if_split_asm; blast)

lemma matched_safe:
  assumes src: "\<forall>m \<in> set rows. \<exists>c. holds_file (iw_files w) (source_of m) c" and dist: "distinct (map source_of rows)"
    and f: "finalize_matched env rows sid name target source confidence w = (x, w')"
  shows "\<exists>r. x = Inr r \<and> files_safe env (source_of ` set rows) (iw_files w) r (iw_files w')"
  using f
proof (cases rule: matched_cases)
  case (refused e)
  then show ?thesis using files_safe_same by auto
next
  case archived
  then have "\<exists>r. x = Inr r \<and> iw_files w' = iw_files w" by (auto simp: commit_import_def split: option.splits)
  then show ?thesis using files_safe_same by auto
next
  case (moving plan)
  have p: "plan_ok (iw_files w) (set plan)" "distinct (map fst plan)" "fst ` set plan \<subseteq> source_of ` set rows"
    using plan_ok_of [OF moving(2) src dist] by auto
  show ?thesis by (rule move_and_commit_safe [OF p moving(1,3)])
qed

section \<open>The inbox\<close>

lemma add_id_distinct: "distinct acc \<Longrightarrow> distinct (add_id vs acc)"
  by (induction vs acc rule: add_id.induct) (auto simp: Let_def)

lemma normalize_distinct: "normalize_import_ids given = Inr ids \<Longrightarrow> distinct ids"
  by (auto simp: normalize_import_ids_def Let_def add_id_distinct split: ids_given.splits if_splits)

text \<open>One transaction: every record named is pending and is updated, and nothing else changes.\<close>

lemma update_all_Some:
  "update_all us d = Some d' \<Longrightarrow> distinct (map fst us) \<Longrightarrow>
   (\<forall>(i, f) \<in> set us. \<exists>r. dict_get d i = Some r \<and> row_pending r \<and> dict_get d' i = Some (f r))
   \<and> (\<forall>i. i \<notin> fst ` set us \<longrightarrow> dict_get d' i = dict_get d i)"
proof (induction us arbitrary: d)
  case (Cons u us)
  obtain i f where u: "u = (i, f)" by force
  obtain r where r: "dict_get d i = Some r" "row_pending r" "update_all us (dict_set i (f r) d) = Some d'"
    using Cons.prems(1) u by (auto split: option.splits if_splits)
  have ni: "i \<notin> fst ` set us" using Cons.prems(2) u by simp
  have ih: "\<forall>(j, g) \<in> set us. \<exists>x. dict_get (dict_set i (f r) d) j = Some x \<and> row_pending x \<and> dict_get d' j = Some (g x)"
    "\<forall>j. j \<notin> fst ` set us \<longrightarrow> dict_get d' j = dict_get (dict_set i (f r) d) j"
    using Cons.IH [OF r(3)] Cons.prems(2) u by auto
  have "\<exists>x. dict_get d j = Some x \<and> row_pending x \<and> dict_get d' j = Some (g x)" if "(j, g) \<in> set us" for j g
  proof -
    have "j \<noteq> i" using that ni by force
    then show ?thesis using ih(1) that by (auto simp: dict_get_set)
  qed
  moreover have "dict_get d' i = Some (f r)" using ih(2) ni by simp
  moreover have "dict_get d' j = dict_get d j" if "j \<notin> fst ` set us" "j \<noteq> i" for j using ih(2) that by (simp add: dict_get_set)
  ultimately show ?case using r(1,2) u by auto
qed simp

section \<open>What the selected records are\<close>

text \<open>The records of the inbox name plain files, each its own.\<close>

definition inbox_plain :: "import_env \<Rightarrow> import_world \<Rightarrow> bool" where
  "inbox_plain env w \<longleftrightarrow>
     (\<forall>i r s. dict_get (iw_inbox w) i = Some r \<and> im_location r = Some s \<and> isfile (ie_files env) (iw_files w) s
        \<longrightarrow> (\<exists>c. holds_file (iw_files w) s c))
     \<and> (\<forall>i j r r'. dict_get (iw_inbox w) i = Some r \<and> dict_get (iw_inbox w) j = Some r' \<and> im_location r = im_location r'
        \<and> im_location r \<noteq> None \<longrightarrow> i = j)"

lemma load_rows_Inr:
  "load_rows env fs d ids = Inr rows \<Longrightarrow>
   map fst rows = ids \<and> (\<forall>(i, r) \<in> set rows. dict_get d i = Some r \<and> row_ready env fs r)"
  by (auto simp: load_rows_def Let_def comp_def split: if_splits)

definition inbox_locations :: "import_world \<Rightarrow> string set" where
  "inbox_locations w = {s. \<exists>i r. dict_get (iw_inbox w) i = Some r \<and> im_location r = Some s}"

lemma rows_ok:
  assumes plain: "inbox_plain env w" and l: "load_rows (ie_files env) (iw_files w) (iw_inbox w) ids = Inr rows" and d: "distinct ids"
    and m: "map (\<lambda>(i, r, issue). (i, im_location r)) ms = map (\<lambda>(i, r). (i, im_location r)) rows"
  shows "(\<forall>m \<in> set ms. \<exists>c. holds_file (iw_files w) (source_of m) c) \<and> distinct (map source_of ms)
    \<and> source_of ` set ms \<subseteq> inbox_locations w"
proof -
  note lr = load_rows_Inr [OF l]
  have row: "\<exists>s. im_location r = Some s \<and> (\<exists>c. holds_file (iw_files w) s c) \<and> s \<in> inbox_locations w" if "(i, r) \<in> set rows" for i r
  proof -
    have g: "dict_get (iw_inbox w) i = Some r" "row_ready (ie_files env) (iw_files w) r" using lr that by auto
    then obtain s where s: "im_location r = Some s" "isfile (ie_files env) (iw_files w) s"
      by (auto simp: row_ready_def present_def split: option.splits)
    then show ?thesis using plain g(1) unfolding inbox_plain_def inbox_locations_def by blast
  qed
  have locs: "map source_of ms = map (\<lambda>(i, r). the (im_location r)) rows"
  proof -
    have "map source_of ms = map (the \<circ> snd) (map (\<lambda>(i, r, issue). (i, im_location r)) ms)" by (auto simp: split_beta)
    also have "\<dots> = map (\<lambda>(i, r). the (im_location r)) rows" unfolding m by (auto simp: split_beta)
    finally show ?thesis .
  qed
  have img: "source_of ` set ms = (\<lambda>(i, r). the (im_location r)) ` set rows" using locs by (metis list.set_map)
  have inj: "inj_on (\<lambda>(i, r). the (im_location r)) (set rows)"
  proof (rule inj_onI, clarify)
    fix i r j r'
    assume a: "(i, r) \<in> set rows" "(j, r') \<in> set rows" "the (im_location r) = the (im_location r')"
    have g: "dict_get (iw_inbox w) i = Some r" "dict_get (iw_inbox w) j = Some r'" using lr a by auto
    have "i = j" using plain g row [OF a(1)] row [OF a(2)] a(3) unfolding inbox_plain_def by fastforce
    then show "i = j \<and> r = r'" using g by simp
  qed
  have dr: "distinct rows" using lr d by (metis distinct_map)
  have "\<exists>c. holds_file (iw_files w) x c" "x \<in> inbox_locations w" if "x \<in> source_of ` set ms" for x
    using that row unfolding img by fastforce+
  then show ?thesis using locs inj dr by (auto simp: distinct_map)
qed

lemma resolve_keeps_locations:
  "map (\<lambda>(i, r, issue). (i, im_location r)) (resolve_issue_ids env fallback new rows) = map (\<lambda>(i, r). (i, im_location r)) rows"
  by (auto simp: resolve_issue_ids_def Let_def split_beta)

section \<open>The properties\<close>

text \<open>How an import ends: refused before the files are touched, or by way of the matched rows.\<close>

lemma finalize_cases:
  assumes "finalize_manual_match env given fallback source confidence add w = (r, w')"
  obtains (refused) e d where "r = Inl e" "iw_files w' = iw_files w" "iw_inbox w' = d"
      "d = iw_inbox w \<or> (\<exists>ids. distinct ids \<and> require_issue_resolution ids (iw_inbox w) = Some d)"
    | (matched) ids rows d ms sid name target x where
        "normalize_import_ids given = Inr ids" "load_rows (ie_files env) (iw_files w) (iw_inbox w) ids = Inr rows"
        "d = iw_inbox w \<or> require_issue_resolution ids (iw_inbox w) = Some d"
        "map (\<lambda>(i, r, issue). (i, im_location r)) ms = map (\<lambda>(i, r). (i, im_location r)) rows"
        "finalize_matched env ms sid name target source confidence (w\<lparr>iw_inbox := d\<rparr>) = (x, w')"
        "r = (case x of Inl e \<Rightarrow> Inl (import_fail ''finalization'' False) | Inr y \<Rightarrow> y)"
proof -
  define am where "am = (add \<and> source = ''manual'')"
  note f = assms [unfolded finalize_manual_match_def Let_def, folded am_def]
  show thesis
  proof (cases "normalize_import_ids given")
    case (Inl e)
    then show thesis using f refused [of e "iw_inbox w"] by auto
  next
    case n: (Inr ids)
    note d = normalize_distinct [OF n]
    show thesis
    proof (cases "load_rows (ie_files env) (iw_files w) (iw_inbox w) ids")
      case (Inl e)
      then show thesis using f n refused [of e "iw_inbox w"] by auto
    next
      case l: (Inr rows)
      show thesis
      proof (cases "if am then require_issue_resolution ids (iw_inbox w) else Some (iw_inbox w)")
        case None
        then show thesis using f n l refused [of _ "iw_inbox w"] by auto
      next
        case b: (Some b)
        then have db: "b = iw_inbox w \<or> require_issue_resolution ids (iw_inbox w) = Some b" by (auto split: if_splits)
        show thesis
        proof (cases "ie_series env")
          case (Inl e)
          have "r = Inl e" "w' = w\<lparr>iw_inbox := b\<rparr>" using f n l b Inl by auto
          then show thesis using refused [of e b] db d by auto
        next
          case (Inr t)
          obtain sid name target where t: "t = (sid, name, target)" by (cases t) auto
          let ?rows = "if am then map (\<lambda>(i, r). (i, r\<lparr>im_requires := True\<rparr>)) rows else rows"
          let ?ms = "resolve_issue_ids env (if am then None else fallback) am ?rows"
          obtain x v where x: "finalize_matched env ?ms sid name target source confidence (w\<lparr>iw_inbox := b\<rparr>) = (x, v)" by force
          have "map (\<lambda>(i, r). (i, im_location r)) ?rows = map (\<lambda>(i, r). (i, im_location r)) rows" by (auto simp: split_beta)
          then have ml: "map (\<lambda>(i, r, issue). (i, im_location r)) ?ms = map (\<lambda>(i, r). (i, im_location r)) rows"
            unfolding resolve_keeps_locations .
          have "w' = v" "r = (case x of Inl e \<Rightarrow> Inl (import_fail ''finalization'' False) | Inr y \<Rightarrow> y)"
            using f n l b Inr t x by (auto split: sum.splits)
          then show thesis using matched [OF n l db ml, of sid name target x] x by simp
        qed
      qed
    qed
  qed
qed

lemma finalize_safe:
  assumes plain: "inbox_plain env w" and f: "finalize_manual_match env given fallback source confidence add w = (r, w')"
  shows "files_safe env (inbox_locations w) (iw_files w) r (iw_files w')"
  using f
proof (cases rule: finalize_cases)
  case (refused e d)
  then show ?thesis using files_safe_same by simp
next
  case (matched ids rows d ms sid name target x)
  note ok = rows_ok [OF plain matched(2) normalize_distinct [OF matched(1)] matched(4)]
  obtain y where y: "x = Inr y" "files_safe env (source_of ` set ms) (iw_files w) y (iw_files w')"
    using matched_safe [of ms "w\<lparr>iw_inbox := d\<rparr>", OF _ _ matched(5)] ok by auto
  have "source_of ` set ms \<subseteq> inbox_locations w" using ok by blast
  then show ?thesis using files_safe_mono [OF y(2)] matched(6) y(1) by simp
qed

text \<open>C9: An import loses no comic.  Whichever calls fail while files are placed, the series is rescanned, the records are
  committed or placements are undone, every file that was there before is still whole afterwards: under its own name,
  or, if an inbox record named it, under some name.\<close>

theorem import_loses_nothing:
  assumes "inbox_plain env w" and "finalize_manual_match env given fallback source confidence add w = (r, w')"
    and "holds_file (iw_files w) q c"
  shows "holds_file (iw_files w') q c \<or> (q \<in> inbox_locations w \<and> (\<exists>d. holds_file (iw_files w') d c))"
  using finalize_safe [OF assms(1,2)] assms(3) unfolding files_safe_def by blast

text \<open>C10: A failed import is undone.  On one volume, an import that fails and reports no failed undo leaves every file of
  before whole under its own name, in whatever phase it failed and whatever mode files are placed in.\<close>

theorem failed_import_rolls_back:
  assumes "inbox_plain env w" and "one_volume (ie_files env)"
    and "finalize_manual_match env given fallback source confidence add w = (Inl e, w')" and "\<not> if_rollback_failed e"
    and "holds_file (iw_files w) q c"
  shows "holds_file (iw_files w') q c"
  using finalize_safe [OF assms(1,3)] assms(2,4,5) unfolding files_safe_def missing_only_def by blast

lemma requires_statuses:
  assumes "require_issue_resolution ids d = Some d'" and "distinct ids"
  shows "map_option im_status (dict_get d' i) = map_option im_status (dict_get d i)"
proof -
  have u: "update_all (map (\<lambda>i. (i, \<lambda>r. r\<lparr>im_requires := True\<rparr>)) ids) d = Some d'" using assms(1) by (simp add: require_issue_resolution_def)
  have dm: "distinct (map fst (map (\<lambda>i. (i, \<lambda>r :: inbox_row. r\<lparr>im_requires := True\<rparr>)) ids))" using assms(2) by (simp add: comp_def)
  note up = update_all_Some [OF u dm]
  show ?thesis
  proof (cases "i \<in> set ids")
    case True
    then obtain r where "dict_get d i = Some r" "dict_get d' i = Some (r\<lparr>im_requires := True\<rparr>)" using up by auto
    then show ?thesis by simp
  next
    case False
    then have "dict_get d' i = dict_get d i" using up by force
    then show ?thesis by simp
  qed
qed

lemma commit_statuses:
  assumes "commit_import env matches sid name source confidence moved w = (x, w')" and "distinct (map fst matches)"
  shows "(\<exists>n. x = Inr (Inr n) \<and> n = length matches
        \<and> (\<forall>i \<in> fst ` set matches. \<exists>row. dict_get (iw_inbox w') i = Some row \<and> im_status row = Some ''Imported'' \<and> im_comicid row = Some sid)
        \<and> (\<forall>i. i \<notin> fst ` set matches \<longrightarrow> dict_get (iw_inbox w') i = dict_get (iw_inbox w) i))
    \<or> ((\<forall>n. x \<noteq> Inr (Inr n)) \<and> iw_inbox w' = iw_inbox w)"
proof (cases "mark_imported matches sid name source confidence (iw_inbox w)")
  case None
  have un: "y \<noteq> Inr (Inr n)" if "undone env True ''commit'' moved fs = (y, t)" for y t n fs
    using that by (auto simp: undone_def and_then_def give_def split: prod.splits sum.splits)
  show ?thesis
  proof (cases "ie_move env")
    case True
    obtain y t where y: "(undone env True ''commit'' moved :: (import_failure + nat) io) (iw_files w) = (y, t)" by force
    then have "x = y" "iw_inbox w' = iw_inbox w" using assms(1) None True by (auto simp: commit_import_def)
    then show ?thesis using un [OF y] by blast
  qed (use assms(1) None in \<open>auto simp: commit_import_def\<close>)
next
  case (Some d)
  let ?us = "map (\<lambda>(i, issue). (i, imported_row sid name source confidence issue)) matches"
  have keys: "map fst ?us = map fst matches" by (auto simp: split_beta)
  have dk: "distinct (map fst ?us)" unfolding keys by (rule assms(2))
  have us: "update_all ?us (iw_inbox w) = Some d" using Some by (simp add: mark_imported_def)
  note up = update_all_Some [OF us dk]
  have im: "fst ` set ?us = fst ` set matches" using keys by (metis list.set_map)
  have marked: "\<exists>row. dict_get d i = Some row \<and> im_status row = Some ''Imported'' \<and> im_comicid row = Some sid" if i: "i \<in> fst ` set matches" for i
  proof -
    obtain m where m0: "m \<in> set matches" "i = fst m" using i by blast
    define issue where "issue = snd m"
    have "(i, issue) \<in> set matches" using m0 by (simp add: issue_def)
    then have "(\<lambda>(i, issue). (i, imported_row sid name source confidence issue)) (i, issue) \<in> set ?us"
      unfolding set_map by (rule imageI)
    then have m: "(i, imported_row sid name source confidence issue) \<in> set ?us" unfolding prod.case .
    obtain r where "dict_get d i = Some (imported_row sid name source confidence issue r)"
      using bspec [OF conjunct1 [OF up] m] unfolding prod.case by blast
    then show ?thesis by (simp add: imported_row_def)
  qed
  have "x = Inr (Inr (length matches))" "w' = w\<lparr>iw_inbox := d\<rparr>" using assms(1) Some by (simp_all add: commit_import_def)
  moreover have "\<forall>i. i \<notin> fst ` set matches \<longrightarrow> dict_get d i = dict_get (iw_inbox w) i" using conjunct2 [OF up] unfolding im .
  ultimately show ?thesis using marked by simp
qed

text \<open>C11: The inbox tells the truth.  When an import succeeds, exactly the selected records are marked Imported, all of
  them and in one transaction; when it fails, in whatever phase, no record's status has changed.\<close>

theorem imported_iff_finalized:
  assumes "finalize_manual_match env given fallback source confidence add w = (r, w')"
  shows "case r of
      Inl e \<Rightarrow> \<forall>i. map_option im_status (dict_get (iw_inbox w') i) = map_option im_status (dict_get (iw_inbox w) i)
    | Inr n \<Rightarrow> \<exists>ids. normalize_import_ids given = Inr ids \<and> n = length ids
        \<and> (\<forall>i \<in> set ids. map_option im_status (dict_get (iw_inbox w') i) = Some (Some ''Imported''))
        \<and> (\<forall>i. i \<notin> set ids \<longrightarrow> map_option im_status (dict_get (iw_inbox w') i) = map_option im_status (dict_get (iw_inbox w) i))"
  using assms
proof (cases rule: finalize_cases)
  case (refused e d)
  then show ?thesis using requires_statuses by auto
next
  case (matched ids rows d ms sid name target x)
  let ?w = "w\<lparr>iw_inbox := d\<rparr>" and ?ps = "map (\<lambda>(i, r, issue). (i, issue)) ms"
  have di: "distinct ids" by (rule normalize_distinct [OF matched(1)])
  have same: "map_option im_status (dict_get d i) = map_option im_status (dict_get (iw_inbox w) i)" for i
    using matched(3) requires_statuses [OF _ di] by auto
  have keys: "map fst ?ps = ids"
  proof -
    have "map fst ?ps = map fst (map (\<lambda>(i, r, issue). (i, im_location r)) ms)" by (auto simp: split_beta)
    also have "\<dots> = ids" unfolding matched(4) using load_rows_Inr [OF matched(2)] by (auto simp: split_beta)
    finally show ?thesis .
  qed
  have dk: "distinct (map fst ?ps)" and img: "fst ` set ?ps = set ids" using keys di by (simp, metis list.set_map)
  have kept: ?thesis if "\<forall>n. x \<noteq> Inr (Inr n)" "iw_inbox w' = d"
    using that same matched(6) by (auto split: sum.splits)
  have commit: ?thesis if c: "commit_import env ?ps sid name source confidence moved v = (x, w')" "iw_inbox v = d" for moved v
  proof -
    from commit_statuses [OF c(1) dk] show ?thesis
    proof
      assume a: "\<exists>n. x = Inr (Inr n) \<and> n = length ?ps
        \<and> (\<forall>i \<in> fst ` set ?ps. \<exists>row. dict_get (iw_inbox w') i = Some row \<and> im_status row = Some ''Imported'' \<and> im_comicid row = Some sid)
        \<and> (\<forall>i. i \<notin> fst ` set ?ps \<longrightarrow> dict_get (iw_inbox w') i = dict_get (iw_inbox v) i)"
      have "length ?ps = length ids" using keys by (metis length_map)
      then show ?thesis using a matched(1,6) same c(2) unfolding img by fastforce
    qed (use kept c(2) in simp)
  qed
  from matched(5) show ?thesis
  proof (cases rule: matched_cases)
    case (refused e)
    then show ?thesis using kept by simp
  next
    case archived
    from commit [OF archived(2)] show ?thesis by simp
  next
    case (moving plan)
    obtain y t where m: "move_and_rescan env plan (iw_files ?w) = (y, t)" by force
    show ?thesis
    proof (cases "\<exists>Q. y = Inr (Inr Q)")
      case True
      then obtain Q where "commit_import env ?ps sid name source confidence Q (?w\<lparr>iw_files := t\<rparr>) = (x, w')"
        using moving(3) m by (auto simp: move_and_commit_def)
      from commit [OF this] show ?thesis by simp
    next
      case False
      then have "(\<forall>n. x \<noteq> Inr (Inr n)) \<and> iw_inbox w' = d"
        using moving(3) m by (auto simp: move_and_commit_def split: sum.splits)
      then show ?thesis using kept by blast
    qed
  qed
qed

section \<open>Witnesses\<close>

text \<open>Two files on one volume wait in the inbox; the destination of the second cannot be linked.\<close>

definition demo_row :: "string \<Rightarrow> inbox_row" where
  "demo_row path = \<lparr>im_location = Some path, im_filename = None, im_issue = VInt 1, im_status = Some ''Not Imported'',
     im_requires = False, im_comicid = None, im_comicname = None, im_issueid = None, im_source = None, im_confidence = 0,
     im_watch = None, im_ignore = False\<rparr>"

definition demo_import :: import_world where
  "demo_import = \<lparr>iw_files = \<lparr>fs_names = [''/in/a'' \<mapsto> 0, ''/in/b'' \<mapsto> 1], fs_inodes = [0 \<mapsto> IFile ''A'', 1 \<mapsto> IFile ''B''],
       fs_next = 2, fs_calls = 0\<rparr>,
     iw_inbox = [(''i1'', demo_row ''/in/a''), (''i2'', demo_row ''/in/b'')]\<rparr>"

definition demo_import_env :: "(nat \<Rightarrow> errno option) \<Rightarrow> import_env" where
  "demo_import_env faults = \<lparr>ie_files = \<lparr>fe_fault = faults, fe_short = (\<lambda>n. 0), fe_device = (\<lambda>p. 0),
       fe_temp = (\<lambda>p n. ''/lib/tmp''), fe_cwd = ''/''\<rparr>,
     ie_place = demo_config, ie_rename = False, ie_rename_param = (\<lambda>n f i. None), ie_issue = (\<lambda>n. Some ''77''),
     ie_new_issue = (\<lambda>n. None), ie_series = Inr (''S1'', ''Saga'', Some ''/lib''), ie_directory = True, ie_held = (\<lambda>i. []),
     ie_move = True, ie_unselected = False, ie_rescan = True, ie_reconcile = True\<rparr>"

lemma demo_import_plain: "inbox_plain (demo_import_env f) demo_import"
  by (auto simp: inbox_plain_def demo_import_def dict_get_def demo_row_def holds_file_def source_file_def split: if_splits)

lemma demo_one_volume: "one_volume (ie_files (demo_import_env (\<lambda>n. if n = 2 then Some EIO else None)))"
  by (simp add: one_volume_def demo_import_env_def)

lemma demo_holds: "holds_file (iw_files demo_import) ''/in/a'' ''A''"
  by (auto simp: holds_file_def source_file_def demo_import_def)

abbreviation demo_failing :: "(import_failure + nat) \<times> import_world" where
  "demo_failing \<equiv> finalize_manual_match (demo_import_env (\<lambda>n. if n = 2 then Some EIO else None)) (ManyIds [VStr ''i1'', VStr ''i2''])
     None ''manual'' 100 False demo_import"

abbreviation demo_good :: "(import_failure + nat) \<times> import_world" where
  "demo_good \<equiv> finalize_manual_match (demo_import_env (\<lambda>n. None)) (ManyIds [VStr ''i1'', VStr ''i2'']) None ''manual'' 100 False demo_import"

theorem import_loses_nothing_witness:
  "fst demo_good = Inr 2 \<and> \<not> lexists (iw_files (snd demo_good)) ''/in/a'' \<and> (\<exists>d. holds_file (iw_files (snd demo_good)) d ''A'')"
proof -
  have "fst demo_good = Inr 2" "\<not> lexists (iw_files (snd demo_good)) ''/in/a''" by code_simp+
  then show ?thesis using import_loses_nothing [OF demo_import_plain prod.collapse [symmetric] demo_holds] holds_lexists by blast
qed

theorem failed_import_rolls_back_witness:
  "fst demo_failing = Inl (import_fail ''move'' False) \<and> holds_file (iw_files (snd demo_failing)) ''/in/a'' ''A''"
proof -
  have f: "fst demo_failing = Inl (import_fail ''move'' False)" by code_simp
  then have e: "demo_failing = (Inl (import_fail ''move'' False), snd demo_failing)" by (metis prod.collapse)
  have "\<not> if_rollback_failed (import_fail ''move'' False)" by (simp add: import_fail_def)
  then show ?thesis using failed_import_rolls_back [OF demo_import_plain demo_one_volume e _ demo_holds] f by blast
qed

theorem imported_iff_finalized_witness:
  "fst demo_good = Inr 2 \<and> fst demo_failing = Inl (import_fail ''move'' False)
    \<and> map_option im_status (dict_get (iw_inbox (snd demo_good)) ''i1'') = Some (Some ''Imported'')
    \<and> map_option im_status (dict_get (iw_inbox (snd demo_failing)) ''i1'') = Some (Some ''Not Imported'')"
proof -
  have g: "fst demo_good = Inr 2" "fst demo_failing = Inl (import_fail ''move'' False)" by code_simp+
  have n: "normalize_import_ids (ManyIds [VStr ''i1'', VStr ''i2'']) = Inr [''i1'', ''i2'']" by code_simp
  have d: "map_option im_status (dict_get (iw_inbox demo_import) ''i1'') = Some (Some ''Not Imported'')" by code_simp
  show ?thesis
    using imported_iff_finalized [OF prod.collapse [of demo_good, symmetric]]
      imported_iff_finalized [OF prod.collapse [of demo_failing, symmetric]] unfolding g n using d by auto
qed

end
