(* ===== verification/TaggingProps.thy ===== *)
theory TaggingProps
  imports Imports PublishProps
begin

text \<open>
  Tagging after an import: the tagged copy is swapped in without writing any file that was there.
\<close>

text \<open>The library file may share its inode with another name.\<close>

definition original :: "string \<Rightarrow> nat \<Rightarrow> string \<Rightarrow> fsys \<Rightarrow> bool" where
  "original p i c fs \<longleftrightarrow> source_file fs p i c"

definition staged :: "string \<Rightarrow> nat \<Rightarrow> string \<Rightarrow> string \<Rightarrow> fsys \<Rightarrow> bool" where
  "staged p i c t fs \<longleftrightarrow> original p i c fs \<and> t \<noteq> p \<and> (\<exists>k x. fs_names fs t = Some k \<and> fs_inodes fs k = Some (IFile x) \<and> k \<noteq> i)"

interpretation original: file_invariant "original p i c" for p i c
  by unfold_locales (simp add: original_def source_file_def same_inodes_def)

interpretation staged: file_invariant "staged p i c t" for p i c t
  by unfold_locales (simp add: staged_def original_def source_file_def same_inodes_def)

lemma quiet_unlink:
  "q \<noteq> p \<Longrightarrow> triple (original p i c) (try_with (os_unlink env q) (\<lambda>_. give ())) (\<lambda>_. original p i c) (\<lambda>_. original p i c)"
  by (rule triple_try [OF original.unlink])
    (auto intro: triple_give simp: original_def source_file_def same_inodes_def)

lemma staged_copy: "triple (staged p i c t) (shutil_copy env a t) (\<lambda>_. staged p i c t) (\<lambda>_. staged p i c t)"
proof -
  have step: "staged p i c t u" if s: "staged p i c t fs" and r: "shutil_copy env a t fs = (r, u)" for fs r u
  proof -
    obtain k x where k: "fs_names fs t = Some k" "fs_inodes fs k = Some (IFile x)" "k \<noteq> i" using s by (auto simp: staged_def)
    have o: "only_inode fs k fs" using k by (simp add: only_inode_def)
    have "only_inode fs k u"
      using triple_raised [OF copy_only [OF k(1)] o] triple_returned [OF copy_only [OF k(1)] o] r by (cases r) blast+
    then show ?thesis using s k by (auto simp: staged_def original_def source_file_def only_inode_def)
  qed
  show ?thesis by (rule tripleI) (simp_all add: step)
qed

lemma stage_new: "triple (original p i c) (mkstemp env d) (\<lambda>t. staged p i c t) (\<lambda>_. original p i c)"
  by (rule original.make_temporary) (auto simp: staged_def original_def source_file_def)

lemma staged_rename:
  assumes "dst \<noteq> p"
  shows "triple (staged p i c t) (os_rename env t dst) (\<lambda>_. original p i c) (\<lambda>_. staged p i c t)"
  by (rule staged.rename) (use assms in \<open>auto simp: staged_def original_def source_file_def same_inodes_def\<close>)

text \<open>C14: Tagging an import never touches the inbox original.  The tagged copy is staged and swapped in by name, so a
  file that shares its inode with the library file (a hard-linked import), under any name but the library file's own and
  the two the tagger works on, keeps its content, whatever calls fail.\<close>

theorem tagging_keeps_the_original:
  assumes "source_file fs p i c" and "p \<notin> {library, tagged, os_join (dirname library) (os_basename tagged)}"
    and "install_tagged_file env library tagged fs = (r, t)"
  shows "fs_names t p = Some i \<and> fs_inodes t i = Some (IFile c)"
proof -
  let ?dst = "os_join (dirname library) (os_basename tagged)" and ?O = "original p i c"
  have ne: "library \<noteq> p" "tagged \<noteq> p" "?dst \<noteq> p" using assms(2) by auto
  have quiet: "triple ?O (try_with (os_unlink env q) (\<lambda>_. give ())) (\<lambda>_. ?O) (\<lambda>_. ?O)" if "q \<noteq> p" for q by (rule quiet_unlink [OF that])
  have swap: "triple ?O (and_then (mkstemp env ?dst) (\<lambda>staged.
      and_then (try_with (and_then (shutil_copy env tagged staged) (\<lambda>_. os_rename env staged ?dst))
                  (\<lambda>e. and_then (try_with (os_unlink env staged) (\<lambda>_. give ())) (\<lambda>_. fail_with e)))
        (\<lambda>_. try_with (os_unlink env tagged) (\<lambda>_. give ())))) (\<lambda>_. ?O) (\<lambda>_. ?O)"
  proof (rule triple_then [OF stage_new])
    fix s
    have undo: "triple (staged p i c s) (and_then (try_with (os_unlink env s) (\<lambda>_. give ())) (\<lambda>_. fail_with e)) (\<lambda>_. ?O) (\<lambda>_. ?O)" for e
    proof (cases "s = p")
      case False
      show ?thesis
        by (rule triple_then [where R = "\<lambda>_. ?O", OF triple_conseq [OF quiet [OF False]]]) (auto intro: triple_fail simp: staged_def)
    qed (simp add: triple_def staged_def)
    show "triple (staged p i c s)
        (and_then (try_with (and_then (shutil_copy env tagged s) (\<lambda>_. os_rename env s ?dst))
                  (\<lambda>e. and_then (try_with (os_unlink env s) (\<lambda>_. give ())) (\<lambda>_. fail_with e)))
        (\<lambda>_. try_with (os_unlink env tagged) (\<lambda>_. give ()))) (\<lambda>_. ?O) (\<lambda>_. ?O)"
      by (rule triple_then [OF triple_try [OF triple_then [OF staged_copy staged_rename [OF ne(3)]]]], rule undo, rule quiet [OF ne(2)])
  qed
  have last: "triple ?O (and_then (with_state (\<lambda>t. if b \<and> lexists t library then try_with (os_unlink env library) (\<lambda>_. give ()) else give ()))
      (\<lambda>_. give ?dst)) (\<lambda>_. ?O) (\<lambda>_. ?O)" for b
    by (rule triple_then [where R = "\<lambda>_. ?O"], rule triple_state, rule triple_if, rule triple_conseq [OF quiet [OF ne(1)]])
      (auto intro: triple_give)
  have "triple ?O (install_tagged_file env library tagged) (\<lambda>_. ?O) (\<lambda>_. ?O)"
    unfolding install_tagged_file_def Let_def
    by (rule triple_state, rule triple_if, rule triple_fail, erule conjunct1, rule triple_conseq [where P' = ?O],
        rule triple_then, rule triple_if, rule swap, rule triple_give, assumption, rule last, erule conjunct1, assumption, assumption)
  note tr = this
  have o: "?O fs" using assms(1) by (simp add: original_def)
  have "?O t"
  proof (cases r)
    case (Inl e)
    show ?thesis by (rule triple_raised [OF tr o assms(3) [unfolded Inl]])
  next
    case (Inr x)
    show ?thesis by (rule triple_returned [OF tr o assms(3) [unfolded Inr]])
  qed
  then show ?thesis by (simp add: original_def source_file_def)
qed

text \<open>The library file and the inbox original are one inode; the tagged copy waits in the cache.\<close>

definition demo_tagging :: fsys where
  "demo_tagging = \<lparr>fs_names = [''/in/a.cbr'' \<mapsto> 0, ''/lib/a.cbr'' \<mapsto> 0, ''/cache/a.cbz'' \<mapsto> 1],
     fs_inodes = [0 \<mapsto> IFile ''A'', 1 \<mapsto> IFile ''A tagged''], fs_next = 2, fs_calls = 0\<rparr>"

theorem tagging_keeps_the_original_witness:
  "fst (install_tagged_file (demo_disk (\<lambda>n. None)) ''/lib/a.cbr'' ''/cache/a.cbz'' demo_tagging) = Inr ''/lib/a.cbz''
   \<and> fs_names (snd (install_tagged_file (demo_disk (\<lambda>n. None)) ''/lib/a.cbr'' ''/cache/a.cbz'' demo_tagging)) ''/in/a.cbr'' = Some 0"
proof -
  let ?x = "install_tagged_file (demo_disk (\<lambda>n. None)) ''/lib/a.cbr'' ''/cache/a.cbz'' demo_tagging"
  have f: "fst ?x = Inr ''/lib/a.cbz''" by code_simp
  have s: "source_file demo_tagging ''/in/a.cbr'' 0 ''A''" by (simp add: source_file_def demo_tagging_def)
  have n: "''/in/a.cbr'' \<notin> {''/lib/a.cbr'', ''/cache/a.cbz'', os_join (dirname ''/lib/a.cbr'') (os_basename ''/cache/a.cbz'')}" by code_simp
  show ?thesis using f tagging_keeps_the_original [OF s n prod.collapse [symmetric]] by blast
qed

end
