(* ===== verification/Spec2Isabelle.thy ===== *)
theory Spec2Isabelle
  imports JournalKeyProps JournalProps JournalAdmin RunLedgerProps PolicyProps Retention MaintenanceProps
    ReconcileProps ResolveProps AttentionGroupsProps ClassifyProps PPCommandsProps DDLCommandProps
    PostProcessProps RecoveryProps BandProps ReplayProps HandoffProps
    SabReconcileProps DownloadPathsProps PPPipelineProps SearchClaims SearchQueueProps SearchCommandsProps
    PublishProps PlacementProps ImportsProps TaggingProps
begin

text \<open>
  Verification library of the acquisition core of Comicarr: the durable state machines that take an issue from
  "wanted" to "in the library", their recovery after a crash, the fences and ledgers around them, the interactive
  search an operator grabs from, the placing of files and the import of files found on disk, and the band in which the
  operator sees what went wrong.  The source is Python over SQL tables; every definition names the function it translates by keeping
  its name, and each theory opens with the file it models.

  \<^bold>\<open>Parts and theories.\<close>

  \<^item> Pipeline journal (\<open>comicarr/app/downloads/journal.py\<close>).  One row per release key, moved forward through
    a chain of stages.  \<open>JournalKey\<close>: stages as a linear order, provider normalisation, release keys;
    \<open>JournalPayload\<close>: what may be stored to rebuild a queue item; \<open>Journal\<close>: the table and every operation that
    writes it.  \<open>JournalInv\<close>: the well-formedness invariant and the effect relation of one transition;
    \<open>JournalProps\<close>, \<open>JournalAdmin\<close>, \<open>JournalKeyProps\<close>: the properties.
  \<^item> Run ledger (\<open>app/acquisition/models.py\<close>, \<open>runs.py\<close>): \<open>RunLedger\<close>, its invariant and histories in
    \<open>RunLedgerInv\<close>, the properties in \<open>RunLedgerProps\<close>.  What other workers write between a read and an update
    is an argument \<open>mid\<close> of the operation.
  \<^item> Policy (\<open>app/acquisition/policy.py\<close>): \<open>Policy\<close>, \<open>PolicyProps\<close>.
  \<^item> Retention (\<open>app/acquisition/retention.py\<close>): \<open>Retention\<close>, over the rows of the ledger and the journal.
  \<^item> Maintenance fence (\<open>app/acquisition/maintenance.py\<close>): \<open>Maintenance\<close>, \<open>MaintenanceProps\<close>.
  \<^item> Obligations (\<open>app/series/queries.py\<close>, the intent writes): \<open>Obligation\<close>.
  \<^item> Needs attention (\<open>app/attention/\<close>): \<open>AttentionPolicy\<close> (which reasons an operator sees),
    \<open>Reconcile\<close> (recording an outcome and paying what a hidden reason owes; it calls the journal and the
    obligations), \<open>Resolve\<close> (operator commands; they stamp the journal and act on the library through an effects
    record), \<open>AttentionGroups\<close> (the view).  Properties in \<open>ReconcileProps\<close>, \<open>ResolveProps\<close>,
    \<open>AttentionGroupsProps\<close>.
  \<^item> Downloads (\<open>app/downloads/\<close>), every part writing the one journal:
    \<open>Handoff\<close> (\<open>handoff.py\<close>: reserve the release in the journal, submit it to a client under a maintenance lease,
    record the acceptance), properties in \<open>HandoffProps\<close>;
    \<open>RecoveryClassify\<close> (\<open>recovery_classify.py\<close>: what the clients, anchors and files say about an open row), \<open>ClassifyProps\<close>;
    \<open>PPCommands\<close> (\<open>pp_commands.py\<close>: which post-processing commands are accepted) and \<open>DownloadPaths\<close>
    (\<open>completed_path.py\<close>, \<open>torrent_routing.py\<close>), with \<open>PPCommandsProps\<close> and \<open>DownloadPathsProps\<close>;
    \<open>PostProcess\<close> (\<open>postprocessing.py\<close>, \<open>_postprocess_completion.py\<close>: running a command and continuing one after a
    restart) and \<open>PPPipeline\<close> (\<open>postprocess_pipeline.py\<close>: the folder, the transitions and the closing write of the
    processor), with \<open>PostProcessProps\<close> and \<open>PPPipelineProps\<close>;
    \<open>DDLCommand\<close> (\<open>ddl_commands.py\<close>), \<open>DDLCommandProps\<close>;
    \<open>Recovery\<close> (\<open>recovery.py\<close> and the band pass of \<open>_reconciliation.py\<close>: the replay of a start, which classifies
    every open row and resolves it), with \<open>RecoveryProps\<close> (one row), \<open>BandProps\<close> (the pass over hidden rows) and
    \<open>ReplayProps\<close> (the whole replay);
    \<open>SabReconcile\<close> (\<open>sab_reconcile.py\<close>: the periodic sweep and the operator's retry, on the same classification),
    \<open>SabReconcileProps\<close>.  Their shared state is the record \<open>pworld\<close> of \<open>PostProcess\<close>: journal, library, anchors,
    queues, maintenance state.
  \<^item> Interactive search (\<open>app/search/interactive_sessions.py\<close>): \<open>SearchJson\<close> (what a browser is shown and what the
    server keeps of a candidate), \<open>SearchSessions\<close> (the two tables, searches, claims, outcomes, expiry),
    \<open>SearchSessionsProps\<close> and \<open>SearchClaims\<close>.
  \<^item> Search work (\<open>app/search/queue.py\<close>, \<open>commands.py\<close>): \<open>SearchQueue\<close> (the fair in-memory queue) and
    \<open>SearchCommands\<close> (a command's way from the run ledger through the maintenance gate into that queue), with
    \<open>SearchQueueProps\<close> and \<open>SearchCommandsProps\<close>.
  \<^item> Files (\<open>app/common/placement.py\<close>, \<open>app/imports/finalization.py\<close>): \<open>FileSystem\<close> models the calls of os, shutil
    and tempfile on names, inodes and volumes, each of which may fail; \<open>Placement\<close> every mode and policy of placing
    a comic; \<open>Imports\<close> the import of inbox files, which places each through \<open>Placement\<close> and undoes what it placed.
    \<open>FileLogic\<close> holds triples with two exits (returned, raised) and the effect of each call; \<open>PublishProps\<close>,
    \<open>PlacementProps\<close>, \<open>ImportsProps\<close> and \<open>TaggingProps\<close> the properties.
  \<^item> \<open>Prelude\<close> holds Python strings, dictionaries and integers and the compare-and-set contract; \<open>TextOrder\<close>
    stable descending sorts.

  \<^bold>\<open>How code is represented.\<close>  A table with a unique key is an insertion-ordered dictionary or a list of row
  records; one call is one transaction, so an exception is a value (\<open>Inl\<close>, or \<open>None\<close> where only its occurrence
  matters) and leaves the state as it was, except in \<open>Resolve\<close>, whose effects commit one by one and whose state
  is therefore returned beside the exception; likewise in the replay, the post-processing runs, the handoff and the
  sweep, which commit step by step (\<open>act\<close> of \<open>PostProcess\<close>: an answer or an exception, and the state).  NULL is \<open>None\<close>, time stamps are the text the code stores and
  compares, Python integers are \<open>int\<close>.  Strings are lists of code points below 256.  SQL conditions are boolean
  functions of a row; where a NULL makes a difference (the phantom clean-up) the three-valued logic is written out.
  File-system answers, download clients, the legacy post-processor, hashes, random ids, the clock, \<open>json.loads\<close>,
  redaction and the database's LIKE comparison are parameters.

  \<^bold>\<open>Interfaces.\<close>  \<open>cas_claim\<close> (Prelude) is the contract of a guarded UPDATE that hands out work once; it is
  interpreted on the journal's stage claim, the operator stamp, the ledger's item claim and the canary permit.
  \<open>purge_query\<close> (Retention) is the contract of a batched delete, interpreted on both purge queries.
  \<open>text_order\<close> (TextOrder) is a total order of sort keys, interpreted on texts and pairs of texts.
  \<open>resolution_effects\<close> (ResolveProps) is what a command relies on in its effects, interpreted on the production
  effects over the library tables.  \<open>lane_queue\<close> (SearchQueue) is a queue of lanes, each first in first out,
  interpreted on the search queue.  \<open>file_invariant\<close> (FileLogic) is what a file must satisfy to survive a copy or a
  move with calls that fail; it is interpreted on the states of a publication, a displacement, an arc placement and a
  tag swap.

  \<^bold>\<open>What is shown.\<close>  Invariants over all histories (journal rows, ledger counters, search sessions); safety of claims,
  fences, leases, permits and operator stamps under interleaving; that the start-up replay is a history of journal
  operations and so inherits their invariants (\<open>by_ops\<close>); that a row is closed, given up or queued only on evidence;
  that a step acts on one release only (\<open>only_row\<close>); that a handoff reserves before it submits and that a candidate of
  a search is handed off once; that each class of search work is first in first out and waits a bounded time; that
  placing without replacing, and an import with all its rollbacks, lose no file whatever calls fail; that no URL and nothing of the server's record reaches a browser; exact effects of transitions, purges, reconciliation and
  clean-up; equivalence of the two forms of the admission rule and of grouping with a partition; refinement of a
  set of keys by the command path; round trips of payloads, commands and dates; bounds on retries and recovery; and, where
  the code falls short of its intent, the concrete run that shows it (a re-snatch that raises, a cancelled row that
  blocks its key, a requeue that resurrects, a sweep that strands runs, a late failure that re-wants a finished
  issue, a clean-up blocked by one NULL, a start that re-wants what the operator skipped, a closing that makes a
  sibling look finished, a sweep that queues an import twice, routine searches that starve, a soft-linked placement
  that truncates its source).

  \<^bold>\<open>Bounds.\<close>  Own transactions are tried at most five times, as the code does; the batched deletes are functions
  with a measure, the number of rows left; recovery of one item or release is bounded by \<open>MAX_RECOVERY_ATTEMPTS\<close>, the
  re-drives of one pass by \<open>MAX_INLINE_PP_REDRIVE_PER_PASS\<close>, a batch of commands by \<open>BATCH_CAP\<close>, a search session by
  \<open>MAX_CANDIDATES\<close> and \<open>MAX_SESSION_BYTES\<close>, a claim by its lease of an hour.  A chain of symbolic links is followed
  at most 40 times, as the kernel does; no other fuel is used.

  \<^bold>\<open>Files.\<close>  A name is a file or a symbolic link; directories exist, hold no links and cannot be placed.  Every call
  takes a number and may fail with the error the environment gives for it, a copy after any part of its bytes; looking
  (stat, exists) does not fail, nor does closing a descriptor.

  \<^bold>\<open>Not modelled, and the plan.\<close>  Next: route health (\<open>search/health.py\<close>), the repair wizard
  (\<open>system/acquisition_repair.py\<close>), the download queries, and the versioned DDL of \<open>ensure_acquisition_schema\<close>;
  \<open>safe_walk\<close> of \<open>pp_commands.py\<close>.  Outside the plan: provider searches, metadata services and
  download clients (network), the legacy post-processor, importer and file-name parser (file system and large
  regular expressions), configuration, the web interface and vendored libraries.
\<close>

end
